(* ===== verification/Prelude.thy ===== *)
theory Prelude
  imports Main "HOL-Library.Multiset"
begin

text \<open>
  Shared vocabulary of the development: results of code that may throw (a sum whose left
  side is the thrown error), traversal of a list with a function that may throw, JavaScript's
  insertion-ordered \<open>Map\<close> and \<open>Set\<close>, and a stable sort by a comparator. The interface
  of the dictionary is the locale \<open>js_map\<close>; the association lists of the model
  interpret it, and the caches, rate limiters and stores built on it use the facts of that
  interpretation.
\<close>

named_theorems result_simps \<open>equations of the result combinators\<close>
named_theorems dict_simps \<open>equations of the insertion-ordered dictionary\<close>

section \<open>Results\<close>

type_synonym ('e, 'a) result = "'e + 'a"

fun res_bind :: "('e, 'a) result \<Rightarrow> ('a \<Rightarrow> ('e, 'b) result) \<Rightarrow> ('e, 'b) result" where
  "res_bind (Inl e) f = Inl e"
| "res_bind (Inr x) f = f x"

fun is_ok :: "('e, 'a) result \<Rightarrow> bool" where
  "is_ok (Inl e) = False"
| "is_ok (Inr x) = True"

text \<open>\<open>traverse f xs\<close> is \<open>xs.map(f)\<close> for an \<open>f\<close> that may throw: the first throw wins.\<close>

fun traverse :: "('a \<Rightarrow> ('e, 'b) result) \<Rightarrow> 'a list \<Rightarrow> ('e, 'b list) result" where
  "traverse f [] = Inr []"
| "traverse f (x # xs) =
     res_bind (f x) (\<lambda>y. res_bind (traverse f xs) (\<lambda>ys. Inr (y # ys)))"

lemma res_bind_Inr [result_simps]:
  "res_bind m f = Inr y \<longleftrightarrow> (\<exists>x. m = Inr x \<and> f x = Inr y)"
  by (cases m) auto

lemma res_bind_Inl [result_simps]:
  "res_bind m f = Inl e \<longleftrightarrow> m = Inl e \<or> (\<exists>x. m = Inr x \<and> f x = Inl e)"
  by (cases m) auto

lemma if_Inl_Inr: "(if b then Inl e else m) = Inr x \<longleftrightarrow> \<not> b \<and> m = Inr x"
  by simp

lemma is_ok_iff [result_simps]: "is_ok m \<longleftrightarrow> (\<exists>x. m = Inr x)"
  by (cases m) auto

lemma traverse_Inr [result_simps]:
  "traverse f xs = Inr ys \<longleftrightarrow> list_all2 (\<lambda>x y. f x = Inr y) xs ys"
proof (induction xs arbitrary: ys)
  case Nil
  then show ?case by auto
next
  case (Cons x xs)
  then show ?case by (auto simp: res_bind_Inr list_all2_Cons1)
qed

text \<open>A parser that accepts exactly the encodings of good values does so on lists of them.\<close>

lemma traverse_embed:
  assumes "\<And>x y. f x = Inr y \<longleftrightarrow> x = g y \<and> P y"
  shows "traverse f xs = Inr ys \<longleftrightarrow> xs = map g ys \<and> list_all P ys"
proof -
  have "list_all2 (\<lambda>x y. x = g y \<and> P y) xs ys \<longleftrightarrow> xs = map g ys \<and> list_all P ys"
    by (induction ys arbitrary: xs) (auto simp: list_all2_Cons2)
  then show ?thesis by (simp add: traverse_Inr assms)
qed

lemma traverse_length: "traverse f xs = Inr ys \<Longrightarrow> length ys = length xs"
  by (auto simp: traverse_Inr dest: list_all2_lengthD)

lemma traverse_nth:
  "traverse f xs = Inr ys \<Longrightarrow> i < length xs \<Longrightarrow> f (xs ! i) = Inr (ys ! i)"
  by (auto simp: traverse_Inr list_all2_conv_all_nth)

lemma traverse_all:
  assumes "traverse f xs = Inr ys" and "\<And>x y. f x = Inr y \<Longrightarrow> P y"
  shows "\<forall>y\<in>set ys. P y"
proof -
  from assms(1) have "list_all2 (\<lambda>x y. f x = Inr y) xs ys" by (simp add: traverse_Inr)
  then show ?thesis
    by (induction rule: list_all2_induct) (auto intro: assms(2))
qed

lemma traverse_Inl:
  "traverse f xs = Inl e \<Longrightarrow> \<exists>x\<in>set xs. f x = Inl e"
  by (induction xs) (auto simp: res_bind_Inl)

lemma traverse_total:
  "(\<And>x. x \<in> set xs \<Longrightarrow> \<exists>y. f x = Inr y) \<Longrightarrow> \<exists>ys. traverse f xs = Inr ys"
proof (induction xs)
  case Nil
  then show ?case by simp
next
  case (Cons x xs)
  then obtain y ys where "f x = Inr y" and "traverse f xs = Inr ys" by force
  then show ?case by simp
qed

section \<open>Insertion-ordered dictionaries and sets\<close>

type_synonym ('k, 'v) dict = "('k \<times> 'v) list"

definition dict_get :: "('k, 'v) dict \<Rightarrow> 'k \<Rightarrow> 'v option" where
  "dict_get m k = map_of m k"

fun dict_set :: "'k \<Rightarrow> 'v \<Rightarrow> ('k, 'v) dict \<Rightarrow> ('k, 'v) dict" where
  "dict_set k v [] = [(k, v)]"
| "dict_set k v (p # ps) = (if fst p = k then (k, v) # ps else p # dict_set k v ps)"

definition dict_delete :: "'k \<Rightarrow> ('k, 'v) dict \<Rightarrow> ('k, 'v) dict" where
  "dict_delete k m = filter (\<lambda>p. fst p \<noteq> k) m"

definition dict_keys :: "('k, 'v) dict \<Rightarrow> 'k list" where
  "dict_keys m = map fst m"

definition dict_values :: "('k, 'v) dict \<Rightarrow> 'v list" where
  "dict_values m = map snd m"

definition dict_ok :: "('k, 'v) dict \<Rightarrow> bool" where
  "dict_ok m = distinct (map fst m)"

text \<open>\<open>new Set(xs)\<close>, read back in iteration order: first occurrences only.\<close>

fun js_set_add :: "'a list \<Rightarrow> 'a \<Rightarrow> 'a list" where
  "js_set_add acc x = (if x \<in> set acc then acc else acc @ [x])"

definition js_set :: "'a list \<Rightarrow> 'a list" where
  "js_set xs = foldl js_set_add [] xs"

locale js_map =
  fixes empty :: 'm
    and get :: "'m \<Rightarrow> 'k \<Rightarrow> 'v option"
    and put :: "'k \<Rightarrow> 'v \<Rightarrow> 'm \<Rightarrow> 'm"
    and del :: "'k \<Rightarrow> 'm \<Rightarrow> 'm"
    and order_of :: "'m \<Rightarrow> 'k list"
    and invar :: "'m \<Rightarrow> bool"
  assumes get_empty: "get empty k = None"
    and get_put: "invar m \<Longrightarrow> get (put k v m) k' = (if k' = k then Some v else get m k')"
    and get_del: "invar m \<Longrightarrow> get (del k m) k' = (if k' = k then None else get m k')"
    and order_put: "invar m \<Longrightarrow>
      order_of (put k v m) = (if k \<in> set (order_of m) then order_of m else order_of m @ [k])"
    and order_del: "invar m \<Longrightarrow> order_of (del k m) = removeAll k (order_of m)"
    and order_dom: "invar m \<Longrightarrow> k \<in> set (order_of m) \<longleftrightarrow> get m k \<noteq> None"
    and invar_empty: "invar empty"
    and invar_put: "invar m \<Longrightarrow> invar (put k v m)"
    and invar_del: "invar m \<Longrightarrow> invar (del k m)"
    and invar_distinct: "invar m \<Longrightarrow> distinct (order_of m)"
begin

lemma get_put_same: "invar m \<Longrightarrow> get (put k v m) k = Some v"
  by (simp add: get_put)

lemma get_put_other: "invar m \<Longrightarrow> k' \<noteq> k \<Longrightarrow> get (put k v m) k' = get m k'"
  by (simp add: get_put)

text \<open>Deleting and putting again moves a key to the end: the refresh a least-recently-used cache does.\<close>

lemma refresh_order:
  "invar m \<Longrightarrow> order_of (put k v (del k m)) = removeAll k (order_of m) @ [k]"
  by (simp add: order_put order_del invar_del)

lemma refresh_get:
  "invar m \<Longrightarrow> get (put k v (del k m)) k' = (if k' = k then Some v else get m k')"
  by (simp add: get_put get_del invar_del)

lemma size_put_le: "invar m \<Longrightarrow> length (order_of (put k v m)) \<le> Suc (length (order_of m))"
  by (simp add: order_put)

lemma size_del_less:
  assumes "invar m" and "get m k \<noteq> None"
  shows "Suc (length (order_of (del k m))) = length (order_of m)"
proof -
  from assms have "k \<in> set (order_of m)" by (simp add: order_dom)
  then have "0 < length (order_of m)" by (rule length_pos_if_in_set)
  with \<open>k \<in> set (order_of m)\<close> assms(1) show ?thesis
    by (simp add: order_del distinct_remove1_removeAll [symmetric] invar_distinct length_remove1)
qed

end

lemma map_fst_dict_set:
  "map fst (dict_set k v m) = (if k \<in> fst ` set m then map fst m else map fst m @ [k])"
  by (induction m) auto

lemma dict_get_set [dict_simps]:
  "dict_get (dict_set k v m) k' = (if k' = k then Some v else dict_get m k')"
  by (induction m) (auto simp: dict_get_def)

lemma dict_get_delete [dict_simps]:
  "dict_get (dict_delete k m) k' = (if k' = k then None else dict_get m k')"
  by (induction m) (auto simp: dict_get_def dict_delete_def)

lemma dict_get_Nil [dict_simps]: "dict_get [] k = None"
  by (simp add: dict_get_def)

lemma dict_get_None [dict_simps]: "dict_get m k = None \<longleftrightarrow> k \<notin> set (dict_keys m)"
  by (simp add: dict_get_def dict_keys_def map_of_eq_None_iff)

lemma dict_get_in: "dict_get m k = Some v \<Longrightarrow> (k, v) \<in> set m"
  by (simp add: dict_get_def map_of_SomeD)

lemma dict_get_eq: "dict_ok m \<Longrightarrow> dict_get m k = Some v \<longleftrightarrow> (k, v) \<in> set m"
  by (simp add: dict_get_def dict_ok_def)

lemma dict_keys_set [dict_simps]:
  "dict_keys (dict_set k v m) =
     (if k \<in> set (dict_keys m) then dict_keys m else dict_keys m @ [k])"
  by (simp add: dict_keys_def map_fst_dict_set)

lemma dict_keys_delete [dict_simps]: "dict_keys (dict_delete k m) = removeAll k (dict_keys m)"
  by (induction m) (auto simp: dict_keys_def dict_delete_def)

lemma dict_ok_set [dict_simps]: "dict_ok m \<Longrightarrow> dict_ok (dict_set k v m)"
  by (auto simp: dict_ok_def map_fst_dict_set)

lemma dict_ok_delete [dict_simps]: "dict_ok m \<Longrightarrow> dict_ok (dict_delete k m)"
  by (simp add: dict_ok_def dict_delete_def distinct_map_filter)

lemma dict_ok_Nil [dict_simps]: "dict_ok []"
  by (simp add: dict_ok_def)

lemma dict_ok_filter: "dict_ok m \<Longrightarrow> dict_ok (filter P m)"
  by (simp add: dict_ok_def distinct_map_filter)

lemma dict_ok_tl: "dict_ok m \<Longrightarrow> dict_ok (tl m)"
  by (simp add: dict_ok_def map_tl distinct_tl)

lemma dict_set_fresh: "k \<notin> fst ` set m \<Longrightarrow> dict_set k v m = m @ [(k, v)]"
  by (induction m) auto

lemma dict_delete_fresh: "k \<notin> fst ` set m \<Longrightarrow> dict_delete k m = m"
  by (induction m) (auto simp: dict_delete_def)

lemma dict_refresh: "dict_set k v (dict_delete k m) = dict_delete k m @ [(k, v)]"
  by (rule dict_set_fresh) (auto simp: dict_delete_def)

lemma set_dict_set: "set (dict_set k v m) \<subseteq> insert (k, v) (set m)"
  by (induction m) auto

lemma length_dict_set: "length (dict_set k v m) = (if k \<in> fst ` set m then length m else Suc (length m))"
  by (induction m) auto

lemma length_dict_delete: "length (dict_delete k m) \<le> length m"
  by (simp add: dict_delete_def)

interpretation dict: js_map "[] :: ('k, 'v) dict" dict_get dict_set dict_delete dict_keys dict_ok
proof unfold_locales
  fix m :: "('k, 'v) dict" and k
  assume "dict_ok m"
  then show "distinct (dict_keys m)" by (simp add: dict_ok_def dict_keys_def)
qed (simp_all add: dict_simps)

lemma set_foldl_js_set_add: "set (foldl js_set_add acc xs) = set acc \<union> set xs"
  by (induction xs arbitrary: acc) auto

lemma distinct_foldl_js_set_add: "distinct acc \<Longrightarrow> distinct (foldl js_set_add acc xs)"
  by (induction xs arbitrary: acc) auto

lemma set_js_set [simp]: "set (js_set xs) = set xs"
  by (simp add: js_set_def set_foldl_js_set_add)

lemma distinct_js_set [simp]: "distinct (js_set xs)"
  by (simp add: js_set_def distinct_foldl_js_set_add)

lemma js_set_Nil_iff [simp]: "js_set xs = [] \<longleftrightarrow> xs = []"
  by (metis set_empty set_js_set)

lemma foldl_js_set_add_distinct:
  "distinct (acc @ xs) \<Longrightarrow> foldl js_set_add acc xs = acc @ xs"
  by (induction xs arbitrary: acc) auto

lemma js_set_distinct: "distinct xs \<Longrightarrow> js_set xs = xs"
  by (simp add: js_set_def foldl_js_set_add_distinct)

lemma length_js_set: "length (js_set xs) = card (set xs)"
  by (metis distinct_card distinct_js_set set_js_set)

section \<open>Stable sorting by a comparator\<close>

text \<open>
  \<open>Array.prototype.sort\<close> is stable; for a comparator that is a total preorder on the
  elements its result is the only stable sorted permutation, which insertion computes.
\<close>

fun ins_by :: "('a \<Rightarrow> 'a \<Rightarrow> bool) \<Rightarrow> 'a \<Rightarrow> 'a list \<Rightarrow> 'a list" where
  "ins_by le x [] = [x]"
| "ins_by le x (y # ys) = (if le x y then x # y # ys else y # ins_by le x ys)"

definition sort_by :: "('a \<Rightarrow> 'a \<Rightarrow> bool) \<Rightarrow> 'a list \<Rightarrow> 'a list" where
  "sort_by le xs = foldr (ins_by le) xs []"

lemma sort_by_simps [simp]:
  "sort_by le [] = []" "sort_by le (x # xs) = ins_by le x (sort_by le xs)"
  by (simp_all add: sort_by_def)

lemma mset_ins_by: "mset (ins_by le x xs) = add_mset x (mset xs)"
  by (induction xs) auto

lemma mset_sort_by [simp]: "mset (sort_by le xs) = mset xs"
  by (induction xs) (simp_all add: mset_ins_by)

lemma set_sort_by [simp]: "set (sort_by le xs) = set xs"
  by (metis mset_sort_by set_mset_mset)

lemma length_sort_by [simp]: "length (sort_by le xs) = length xs"
  by (metis mset_sort_by size_mset)

lemma set_ins_by [simp]: "set (ins_by le x xs) = insert x (set xs)"
  by (induction xs) auto

text \<open>A comparator is a preorder on a set when it relates any two elements and is transitive there.\<close>

definition preorder_on_set :: "'a set \<Rightarrow> ('a \<Rightarrow> 'a \<Rightarrow> bool) \<Rightarrow> bool" where
  "preorder_on_set S le \<longleftrightarrow>
     (\<forall>a\<in>S. \<forall>b\<in>S. le a b \<or> le b a) \<and>
     (\<forall>a\<in>S. \<forall>b\<in>S. \<forall>c\<in>S. le a b \<longrightarrow> le b c \<longrightarrow> le a c)"

lemma preorder_on_total: "preorder_on_set S le \<Longrightarrow> a \<in> S \<Longrightarrow> b \<in> S \<Longrightarrow> \<not> le a b \<Longrightarrow> le b a"
  unfolding preorder_on_set_def by blast

lemma preorder_on_trans:
  "preorder_on_set S le \<Longrightarrow> a \<in> S \<Longrightarrow> b \<in> S \<Longrightarrow> c \<in> S \<Longrightarrow> le a b \<Longrightarrow> le b c \<Longrightarrow> le a c"
  unfolding preorder_on_set_def by blast

lemma sorted_wrt_ins_by:
  assumes pre: "preorder_on_set S le" and "x \<in> S" and "set xs \<subseteq> S" and "sorted_wrt le xs"
  shows "sorted_wrt le (ins_by le x xs)"
  using assms(3,4)
proof (induction xs)
  case Nil
  then show ?case by simp
next
  case (Cons y ys)
  show ?case
  proof (cases "le x y")
    case True
    have "le x z" if "z \<in> set ys" for z
      using preorder_on_trans [OF pre assms(2), of y z] True Cons.prems that by auto
    with True Cons.prems show ?thesis by simp
  next
    case False
    with preorder_on_total [OF pre assms(2), of y] Cons.prems have "le y x" by simp
    with False Cons show ?thesis by simp
  qed
qed

lemma sorted_wrt_sort_by:
  assumes "preorder_on_set S le" and "set xs \<subseteq> S"
  shows "sorted_wrt le (sort_by le xs)"
  using assms(2)
  by (induction xs) (auto intro!: sorted_wrt_ins_by [OF assms(1)])

end
