(* ===== verification/Js_Number.thy ===== *)
theory Js_Number
  imports Complex_Main Prelude
begin

text \<open>
  JavaScript's \<open>number\<close> type: IEEE 754 binary64. A finite number is the rational it denotes;
  an arithmetic operation computes the exact rational result and rounds it to the nearest
  representable value, ties to even, with gradual underflow and overflow to an infinity.
  The two zeros are one value here: the program observes the sign of a zero nowhere (no
  division of the program has a negative zero as its divisor). The functions of \<open>Math\<close>
  that ECMAScript leaves implementation-approximated (\<open>sin\<close>, \<open>cos\<close>, \<open>asin\<close>,
  \<open>atan2\<close>, \<open>sqrt\<close>, \<open>**\<close>) are the fields of a record that the definitions take as
  an argument. The lemmas show that rounding is monotone, odd, and exact on the integers up
  to \<open>2 ^ 53\<close>, which is what the bounds on scores and multipliers rest on.
\<close>

named_theorems js_num_simps \<open>evaluation of number predicates\<close>

section \<open>Rounding to binary64\<close>

function bit_length :: "int \<Rightarrow> int" where
  "bit_length n = (if n \<le> 0 then 0 else 1 + bit_length (n div 2))"
  by pat_completeness auto
termination by (relation "measure nat") auto

declare bit_length.simps [simp del]

definition pow2 :: "int \<Rightarrow> rat" where
  "pow2 k = (if 0 \<le> k then of_int (2 ^ nat k) else 1 / of_int (2 ^ nat (- k)))"

definition ilog2 :: "rat \<Rightarrow> int" where
  "ilog2 q = (case quotient_of q of (a, b) \<Rightarrow>
     let k = bit_length a - bit_length b in if pow2 k \<le> q then k else k - 1)"

definition round_even :: "rat \<Rightarrow> int" where
  "round_even y = (let f = floor y; d = y - of_int f in
     if d < 1 / 2 then f else if 1 / 2 < d then f + 1 else if even f then f else f + 1)"

definition ulp_exp :: "rat \<Rightarrow> int" where
  "ulp_exp q = max (- 1074) (ilog2 \<bar>q\<bar> - 52)"

definition round_binary64 :: "rat \<Rightarrow> rat" where
  "round_binary64 q =
     (if q = 0 then 0
      else let e = ulp_exp q in of_int (round_even (q / pow2 e)) * pow2 e)"

section \<open>Numbers and their operations\<close>

datatype jsnum = NaN | PInf | NInf | Fin rat

definition mk_num :: "rat \<Rightarrow> jsnum" where
  "mk_num q = (let r = round_binary64 q in
     if pow2 1024 \<le> r then PInf else if r \<le> - pow2 1024 then NInf else Fin r)"

definition num_of_int :: "int \<Rightarrow> jsnum" where
  "num_of_int n = Fin (of_int n)"

fun js_neg :: "jsnum \<Rightarrow> jsnum" where
  "js_neg NaN = NaN"
| "js_neg PInf = NInf"
| "js_neg NInf = PInf"
| "js_neg (Fin a) = Fin (- a)"

fun js_add :: "jsnum \<Rightarrow> jsnum \<Rightarrow> jsnum" where
  "js_add (Fin a) (Fin b) = mk_num (a + b)"
| "js_add NaN y = NaN"
| "js_add x NaN = NaN"
| "js_add PInf NInf = NaN"
| "js_add NInf PInf = NaN"
| "js_add PInf y = PInf"
| "js_add x PInf = PInf"
| "js_add NInf y = NInf"
| "js_add x NInf = NInf"

definition js_sub :: "jsnum \<Rightarrow> jsnum \<Rightarrow> jsnum" where
  "js_sub x y = js_add x (js_neg y)"

definition inf_of_sign :: "rat \<Rightarrow> jsnum" where
  "inf_of_sign s = (if s = 0 then NaN else if 0 < s then PInf else NInf)"

fun num_sign :: "jsnum \<Rightarrow> rat" where
  "num_sign NaN = 0"
| "num_sign PInf = 1"
| "num_sign NInf = -1"
| "num_sign (Fin a) = sgn a"

fun js_mul :: "jsnum \<Rightarrow> jsnum \<Rightarrow> jsnum" where
  "js_mul (Fin a) (Fin b) = mk_num (a * b)"
| "js_mul NaN y = NaN"
| "js_mul x NaN = NaN"
| "js_mul x y = inf_of_sign (num_sign x * num_sign y)"

fun js_div :: "jsnum \<Rightarrow> jsnum \<Rightarrow> jsnum" where
  "js_div (Fin a) (Fin b) = (if b = 0 then inf_of_sign a else mk_num (a / b))"
| "js_div NaN y = NaN"
| "js_div x NaN = NaN"
| "js_div (Fin a) y = Fin 0"
| "js_div x (Fin b) = (if b < 0 then js_neg x else x)"
| "js_div x y = NaN"

definition trunc_rat :: "rat \<Rightarrow> int" where
  "trunc_rat q = (if 0 \<le> q then floor q else ceiling q)"

text \<open>The remainder \<open>%\<close>: exact, with the sign of the dividend.\<close>

fun js_rem :: "jsnum \<Rightarrow> jsnum \<Rightarrow> jsnum" where
  "js_rem (Fin a) (Fin b) =
     (if b = 0 then NaN else Fin (a - b * of_int (trunc_rat (a / b))))"
| "js_rem (Fin a) PInf = Fin a"
| "js_rem (Fin a) NInf = Fin a"
| "js_rem x y = NaN"

fun js_lt :: "jsnum \<Rightarrow> jsnum \<Rightarrow> bool" where
  "js_lt (Fin a) (Fin b) = (a < b)"
| "js_lt NaN y = False"
| "js_lt x NaN = False"
| "js_lt NInf NInf = False"
| "js_lt NInf y = True"
| "js_lt x PInf = (x \<noteq> PInf)"
| "js_lt x y = False"

fun js_eq :: "jsnum \<Rightarrow> jsnum \<Rightarrow> bool" where
  "js_eq NaN y = False"
| "js_eq x y = (x = y)"

definition js_le :: "jsnum \<Rightarrow> jsnum \<Rightarrow> bool" where
  "js_le x y = (js_lt x y \<or> js_eq x y)"

fun js_abs :: "jsnum \<Rightarrow> jsnum" where
  "js_abs NaN = NaN"
| "js_abs PInf = PInf"
| "js_abs NInf = PInf"
| "js_abs (Fin a) = Fin \<bar>a\<bar>"

definition js_max :: "jsnum \<Rightarrow> jsnum \<Rightarrow> jsnum" where
  "js_max x y = (if x = NaN \<or> y = NaN then NaN else if js_lt x y then y else x)"

definition js_min :: "jsnum \<Rightarrow> jsnum \<Rightarrow> jsnum" where
  "js_min x y = (if x = NaN \<or> y = NaN then NaN else if js_lt y x then y else x)"

fun js_round :: "jsnum \<Rightarrow> jsnum" where
  "js_round (Fin a) = Fin (of_int (floor (a + 1 / 2)))"
| "js_round x = x"

fun js_ceil :: "jsnum \<Rightarrow> jsnum" where
  "js_ceil (Fin a) = Fin (of_int (ceiling a))"
| "js_ceil x = x"

fun js_floor :: "jsnum \<Rightarrow> jsnum" where
  "js_floor (Fin a) = Fin (of_int (floor a))"
| "js_floor x = x"

fun is_finite :: "jsnum \<Rightarrow> bool" where
  "is_finite (Fin a) = True"
| "is_finite x = False"

fun is_integer :: "jsnum \<Rightarrow> bool" where
  "is_integer (Fin a) = (of_int (floor a) = a)"
| "is_integer x = False"

definition max_safe_integer :: int where
  "max_safe_integer = 9007199254740991"

fun is_safe_integer :: "jsnum \<Rightarrow> bool" where
  "is_safe_integer (Fin a) = (of_int (floor a) = a \<and> \<bar>floor a\<bar> \<le> max_safe_integer)"
| "is_safe_integer x = False"

fun int_of_num :: "jsnum \<Rightarrow> int" where
  "int_of_num (Fin a) = floor a"
| "int_of_num x = 0"

text \<open>The rational whose decimal digits \<open>toFixed\<close> prints: the nearest multiple, the larger on a tie.\<close>

definition to_fixed_scaled :: "nat \<Rightarrow> rat \<Rightarrow> int" where
  "to_fixed_scaled digits a =
     (if a < 0 then - floor (- a * 10 ^ digits + 1 / 2) else floor (a * 10 ^ digits + 1 / 2))"

text \<open>\<open>Number(x.toFixed(digits))\<close> for the magnitudes below \<open>1e21\<close> that the program formats.\<close>

fun number_to_fixed :: "nat \<Rightarrow> jsnum \<Rightarrow> jsnum" where
  "number_to_fixed digits (Fin a) = mk_num (of_int (to_fixed_scaled digits a) / 10 ^ digits)"
| "number_to_fixed digits x = x"

record js_math =
  m_sin :: "jsnum \<Rightarrow> jsnum"
  m_cos :: "jsnum \<Rightarrow> jsnum"
  m_asin :: "jsnum \<Rightarrow> jsnum"
  m_sqrt :: "jsnum \<Rightarrow> jsnum"
  m_atan2 :: "jsnum \<Rightarrow> jsnum \<Rightarrow> jsnum"
  m_square :: "jsnum \<Rightarrow> jsnum"

definition js_PI :: jsnum where
  "js_PI = Fin (884279719003555 / 281474976710656)"

section \<open>Facts on powers of two and binary logarithms\<close>

lemma pow2_powi: "pow2 k = 2 powi k"
  by (simp add: pow2_def power_int_def field_simps)

lemma pow2_pos [simp]: "0 < pow2 k"
  by (simp add: pow2_powi)

lemma pow2_nonzero [simp]: "pow2 k \<noteq> 0"
  using pow2_pos [of k] by linarith

lemma pow2_add: "pow2 (a + b) = pow2 a * pow2 b"
  by (simp add: pow2_powi power_int_add)

lemma pow2_diff: "pow2 (a - b) = pow2 a / pow2 b"
  by (simp add: pow2_powi power_int_diff)

lemma pow2_nonneg_int: "0 \<le> k \<Longrightarrow> pow2 k = of_int (2 ^ nat k)"
  by (simp add: pow2_def)

lemma pow2_mono: "a \<le> b \<Longrightarrow> pow2 a \<le> pow2 b"
  by (simp add: pow2_powi power_int_increasing)

lemma pow2_less_iff: "pow2 a < pow2 b \<longleftrightarrow> a < b"
  by (metis linorder_not_less pow2_mono pow2_powi power_int_strict_increasing one_less_numeral_iff semiring_norm(76))

lemma bit_length_nonneg: "0 \<le> bit_length n"
proof (induction n rule: bit_length.induct)
  case (1 n)
  then show ?case by (subst bit_length.simps) simp
qed

lemma bit_length_spec:
  "0 < n \<Longrightarrow> pow2 (bit_length n - 1) \<le> of_int n \<and> of_int n < pow2 (bit_length n)"
proof (induction n rule: bit_length.induct)
  case (1 n)
  show ?case
  proof (cases "n = 1")
    case True
    then show ?thesis by (simp add: bit_length.simps pow2_def)
  next
    case False
    define m where "m = n div 2"
    from False \<open>0 < n\<close> have m: "0 < m" and n: "2 * m \<le> n" "n < 2 * m + 2"
      by (auto simp: m_def)
    have step: "bit_length n = 1 + bit_length m"
      using \<open>0 < n\<close> by (simp add: bit_length.simps [of n] m_def)
    from "1.IH" \<open>0 < n\<close> m have lo: "pow2 (bit_length m - 1) \<le> of_int m"
      and hi: "of_int m < pow2 (bit_length m)" by (auto simp: m_def)
    have two: "pow2 (bit_length m) = 2 * pow2 (bit_length m - 1)"
      using pow2_add [of 1 "bit_length m - 1"] by (simp add: pow2_def [of 1])
    have "pow2 (bit_length m) \<le> of_int n"
      using lo n(1) two by linarith
    moreover have "of_int n < pow2 (1 + bit_length m)"
    proof -
      have "m < 2 ^ nat (bit_length m)"
        using hi by (simp add: pow2_nonneg_int bit_length_nonneg del: of_int_power)
      then have "n < 2 * 2 ^ nat (bit_length m)" using n(2) by linarith
      then have "(of_int n :: rat) < of_int (2 * 2 ^ nat (bit_length m))"
        by (simp only: of_int_less_iff)
      moreover have "pow2 (1 + bit_length m) = of_int (2 * 2 ^ nat (bit_length m))"
        using pow2_add [of 1 "bit_length m"] pow2_nonneg_int [OF bit_length_nonneg]
        by (simp add: pow2_def [of 1])
      ultimately show ?thesis by simp
    qed
    ultimately show ?thesis by (simp add: step)
  qed
qed

lemma ilog2_spec:
  assumes "0 < q"
  shows "pow2 (ilog2 q) \<le> q \<and> q < pow2 (ilog2 q + 1)"
proof -
  obtain a b where ab: "quotient_of q = (a, b)" by (cases "quotient_of q")
  have b: "0 < b" using ab by (rule quotient_of_denom_pos)
  have q: "q = of_int a / of_int b" using ab by (rule quotient_of_div)
  have a: "0 < a" using assms q b by (simp add: zero_less_divide_iff)
  let ?k = "bit_length a - bit_length b"
  have la: "pow2 (bit_length a - 1) \<le> of_int a" "of_int a < pow2 (bit_length a)"
    and lb: "pow2 (bit_length b - 1) \<le> of_int b" "of_int b < pow2 (bit_length b)"
    using bit_length_spec a b by auto
  have up: "q < pow2 (?k + 1)"
  proof -
    have "q < pow2 (bit_length a) / of_int b"
      unfolding q using la(2) b by (simp add: divide_strict_right_mono)
    also have "\<dots> \<le> pow2 (bit_length a) / pow2 (bit_length b - 1)"
      using lb(1) by (intro divide_left_mono) (simp_all add: b less_imp_le)
    also have "\<dots> = pow2 (?k + 1)"
      by (simp add: pow2_diff [symmetric] algebra_simps)
    finally show ?thesis .
  qed
  have low: "pow2 (?k - 1) < q"
  proof -
    have "pow2 (?k - 1) = pow2 (bit_length a - 1) / pow2 (bit_length b)"
      by (simp add: pow2_diff [symmetric] algebra_simps)
    also have "\<dots> < pow2 (bit_length a - 1) / of_int b"
      using lb(2) b by (intro divide_strict_left_mono) simp_all
    also have "\<dots> \<le> q"
      unfolding q using la(1) b by (simp add: divide_right_mono)
    finally show ?thesis .
  qed
  show ?thesis
    using up low by (auto simp: ilog2_def ab Let_def)
qed

lemma ilog2_unique:
  assumes "pow2 k \<le> q" and "q < pow2 (k + 1)"
  shows "ilog2 q = k"
proof -
  have "0 < q" using assms(1) pow2_pos [of k] by linarith
  from ilog2_spec [OF this] assms have "pow2 (ilog2 q) < pow2 (k + 1)" "pow2 k < pow2 (ilog2 q + 1)"
    by linarith+
  then show ?thesis by (simp add: pow2_less_iff)
qed

lemma ilog2_mono: "0 < p \<Longrightarrow> p \<le> q \<Longrightarrow> ilog2 p \<le> ilog2 q"
proof -
  assume p: "0 < p" and pq: "p \<le> q"
  then have "pow2 (ilog2 p) < pow2 (ilog2 q + 1)"
    using ilog2_spec [of p] ilog2_spec [of q] by linarith
  then show ?thesis by (simp add: pow2_less_iff)
qed

section \<open>Facts on rounding\<close>

lemma round_even_of_int [simp]: "round_even (of_int n) = n"
  by (simp add: round_even_def)

lemma round_even_bounds:
  "y - 1 / 2 \<le> of_int (round_even y)" "of_int (round_even y) \<le> y + 1 / 2"
  by (auto simp: round_even_def Let_def) linarith+

lemma round_even_mono:
  assumes "x \<le> y"
  shows "round_even x \<le> round_even y"
proof (cases "floor x = floor y")
  case True
  with assms show ?thesis by (auto simp: round_even_def Let_def)
next
  case False
  with assms have "floor x + 1 \<le> floor y" by (meson floor_mono zless_imp_add1_zle order_le_imp_less_or_eq)
  moreover have "round_even x \<le> floor x + 1" "floor y \<le> round_even y"
    by (auto simp: round_even_def Let_def)
  ultimately show ?thesis by linarith
qed

lemma round_even_minus: "round_even (- y) = - round_even y"
proof (cases "y = of_int (floor y)")
  case True
  have "round_even (of_int (- floor y)) = - floor y" by (rule round_even_of_int)
  moreover have "round_even (of_int (floor y)) = floor y" by (rule round_even_of_int)
  ultimately show ?thesis using True by (metis of_int_minus)
next
  case False
  then have "floor (- y) = - floor y - 1" by linarith
  then show ?thesis using False by (auto simp: round_even_def Let_def)
qed

lemma ulp_exp_minus [simp]: "ulp_exp (- q) = ulp_exp q"
  by (simp add: ulp_exp_def)

lemma round_binary64_zero [simp]: "round_binary64 0 = 0"
  by (simp add: round_binary64_def)

lemma round_binary64_minus: "round_binary64 (- q) = - round_binary64 q"
  by (simp add: round_binary64_def Let_def round_even_minus)

lemma round_binary64_grid:
  assumes "q = of_int n * pow2 (ulp_exp q)"
  shows "round_binary64 q = q"
proof (cases "q = 0")
  case False
  have "q / pow2 (ulp_exp q) = of_int n" by (subst assms) simp
  with False assms [symmetric] show ?thesis by (simp add: round_binary64_def Let_def)
qed simp

lemma round_binary64_le_grid:
  assumes "q \<noteq> 0" and "q \<le> of_int n * pow2 (ulp_exp q)"
  shows "round_binary64 q \<le> of_int n * pow2 (ulp_exp q)"
proof -
  have "q / pow2 (ulp_exp q) \<le> of_int n"
    using assms(2) by (simp add: pos_divide_le_eq)
  then have "round_even (q / pow2 (ulp_exp q)) \<le> n"
    using round_even_mono [of _ "of_int n"] by simp
  then show ?thesis using assms(1) by (simp add: round_binary64_def Let_def)
qed

lemma round_binary64_ge_grid:
  assumes "q \<noteq> 0" and "of_int n * pow2 (ulp_exp q) \<le> q"
  shows "of_int n * pow2 (ulp_exp q) \<le> round_binary64 q"
proof -
  have "of_int n \<le> q / pow2 (ulp_exp q)"
    using assms(2) by (simp add: pos_le_divide_eq)
  then have "n \<le> round_even (q / pow2 (ulp_exp q))"
    using round_even_mono [of "of_int n"] by simp
  then show ?thesis using assms(1) by (simp add: round_binary64_def Let_def)
qed

lemma round_binary64_nonneg: "0 \<le> q \<Longrightarrow> 0 \<le> round_binary64 q"
  using round_binary64_ge_grid [of q 0] by (cases "q = 0") auto

lemma pow2_grid: "e \<le> k \<Longrightarrow> pow2 k = of_int (2 ^ nat (k - e)) * pow2 e"
  using pow2_add [of "k - e" e] by (simp add: pow2_nonneg_int)

lemma round_binary64_mono_pos:
  assumes "0 < p" and "p \<le> q"
  shows "round_binary64 p \<le> round_binary64 q"
proof -
  have q: "0 < q" using assms by linarith
  have le: "ulp_exp p \<le> ulp_exp q"
    using ilog2_mono [OF assms] assms q by (simp add: ulp_exp_def)
  show ?thesis
  proof (cases "ulp_exp p = ulp_exp q")
    case True
    have "round_even (p / pow2 (ulp_exp q)) \<le> round_even (q / pow2 (ulp_exp q))"
      using assms by (intro round_even_mono divide_right_mono) (simp_all add: less_imp_le)
    with True assms q show ?thesis by (simp add: round_binary64_def Let_def)
  next
    case False
    with le have lt: "ulp_exp p < ulp_exp q" by simp
    let ?k = "ilog2 q"
    have eq: "ulp_exp q = ?k - 52" and kp: "ilog2 p < ?k"
      using lt assms q by (auto simp: ulp_exp_def max_def split: if_splits)
    have "p < pow2 (ilog2 p + 1)" using ilog2_spec assms(1) by blast
    also have "\<dots> \<le> pow2 ?k" using kp by (intro pow2_mono) simp
    finally have pk: "p \<le> pow2 ?k" by simp
    have "round_binary64 p \<le> pow2 ?k"
      using round_binary64_le_grid [of p "2 ^ nat (?k - ulp_exp p)"] pk assms(1) lt eq
        pow2_grid [of "ulp_exp p" ?k] by simp
    also have "\<dots> \<le> round_binary64 q"
      using round_binary64_ge_grid [of q "2 ^ nat (?k - ulp_exp q)"] ilog2_spec [OF q] q eq
        pow2_grid [of "ulp_exp q" ?k] by simp
    finally show ?thesis .
  qed
qed

lemma round_binary64_mono:
  assumes "p \<le> q"
  shows "round_binary64 p \<le> round_binary64 q"
proof (cases "0 < p")
  case True
  then show ?thesis using assms by (rule round_binary64_mono_pos)
next
  case False
  show ?thesis
  proof (cases "0 \<le> q")
    case True
    have "0 \<le> round_binary64 (- p)" using False by (intro round_binary64_nonneg) simp
    with True round_binary64_nonneg [of q] show ?thesis by (simp add: round_binary64_minus)
  next
    case q: False
    then have "round_binary64 (- q) \<le> round_binary64 (- p)"
      using assms by (intro round_binary64_mono_pos) simp_all
    then show ?thesis by (simp add: round_binary64_minus)
  qed
qed

lemma round_binary64_pos_int:
  assumes "0 < n" and "n \<le> 2 ^ 53"
  shows "round_binary64 (of_int n) = of_int n"
proof (cases "n = 2 ^ 53")
  case True
  have "ilog2 (of_int n) = 53"
    by (rule ilog2_unique) (simp_all add: True pow2_def)
  then have "of_int n = of_int (2 ^ 52) * pow2 (ulp_exp (of_int n))"
    by (simp add: ulp_exp_def True pow2_def)
  then show ?thesis by (rule round_binary64_grid)
next
  case False
  let ?q = "of_int n :: rat"
  have "n < 2 ^ 53" using False assms(2) by simp
  then have "?q < of_int (2 ^ 53)" by (simp only: of_int_less_iff)
  then have "?q < pow2 53" by (simp add: pow2_def)
  moreover have "pow2 (ilog2 ?q) \<le> ?q" using ilog2_spec [of ?q] assms(1) by simp
  ultimately have "ilog2 ?q < 53" using pow2_less_iff by (meson order_le_less_trans)
  then have neg: "ulp_exp ?q \<le> 0" using assms(1) by (simp add: ulp_exp_def)
  have "?q = of_int (n * 2 ^ nat (- ulp_exp ?q)) * pow2 (ulp_exp ?q)"
    using pow2_grid [OF neg] by (simp add: pow2_def [of 0] mult.assoc)
  then show ?thesis by (rule round_binary64_grid)
qed

lemma round_binary64_int:
  assumes "\<bar>n\<bar> \<le> 2 ^ 53"
  shows "round_binary64 (of_int n) = of_int n"
proof (cases "0 \<le> n")
  case True
  then show ?thesis
    using round_binary64_pos_int [of n] assms by (cases "n = 0") auto
next
  case False
  then show ?thesis
    using round_binary64_pos_int [of "- n"] assms round_binary64_minus [of "of_int (- n)"] by simp
qed

lemma round_binary64_one [simp]: "round_binary64 1 = 1"
  using round_binary64_int [of 1] by simp

lemma round_binary64_unit: "0 \<le> q \<Longrightarrow> q \<le> 1 \<Longrightarrow> 0 \<le> round_binary64 q \<and> round_binary64 q \<le> 1"
  using round_binary64_nonneg round_binary64_mono [of q 1] by simp

lemma pow2_1024_large: "2 ^ 53 < pow2 1024"
  by (simp add: pow2_def)

lemma mk_num_Fin:
  assumes "\<bar>round_binary64 q\<bar> < pow2 1024"
  shows "mk_num q = Fin (round_binary64 q)"
  using assms by (auto simp: mk_num_def Let_def abs_less_iff)

lemma mk_num_int [js_num_simps]: "\<bar>n\<bar> \<le> 2 ^ 53 \<Longrightarrow> mk_num (of_int n) = num_of_int n"
proof -
  assume n: "\<bar>n\<bar> \<le> 2 ^ 53"
  then have "(of_int \<bar>n\<bar> :: rat) \<le> of_int (2 ^ 53)" by (simp only: of_int_le_iff)
  then have "\<bar>of_int n :: rat\<bar> < pow2 1024" using pow2_1024_large by simp
  with n show ?thesis by (simp add: mk_num_Fin round_binary64_int num_of_int_def)
qed

lemma mk_num_zero [simp]: "mk_num 0 = Fin 0"
  using mk_num_int [of 0] by (simp add: num_of_int_def)

text \<open>Arithmetic on integers of moderate size is exact: evaluation of samples by the simplifier.\<close>

lemma mk_num_numerals [js_num_simps]:
  "mk_num 1 = Fin 1"
  "mk_num (- 1) = Fin (- 1)"
  "(numeral n :: int) \<le> 2 ^ 53 \<Longrightarrow> mk_num (numeral n) = Fin (numeral n)"
  "(numeral n :: int) \<le> 2 ^ 53 \<Longrightarrow> mk_num (- numeral n) = Fin (- numeral n)"
  using mk_num_int [of 1] mk_num_int [of "- 1"] mk_num_int [of "numeral n"] mk_num_int [of "- numeral n"]
  by (simp_all add: num_of_int_def)

lemma mk_num_bounded:
  assumes "\<bar>q\<bar> \<le> of_int n" and "n \<le> 2 ^ 53"
  shows "\<exists>r. mk_num q = Fin r \<and> \<bar>r\<bar> \<le> of_int n"
proof -
  have n: "0 \<le> n" using assms(1) by (metis abs_ge_zero of_int_0_le_iff order_trans)
  have "\<bar>round_binary64 q\<bar> \<le> of_int n"
    using assms round_binary64_mono [of q "of_int n"] round_binary64_mono [of "of_int (- n)" q]
      round_binary64_int [of n] round_binary64_int [of "- n"] n
    by (simp add: abs_le_iff)
  moreover have "(of_int n :: rat) \<le> of_int (2 ^ 53)" using assms(2) by (simp only: of_int_le_iff)
  ultimately show ?thesis
    using pow2_1024_large mk_num_Fin [of q] by (force simp del: of_int_power)
qed

lemma mk_num_unit:
  assumes "0 \<le> q" and "q \<le> 1"
  shows "mk_num q = Fin (round_binary64 q)"
proof (rule mk_num_Fin)
  have "(1 :: rat) < pow2 1024" using pow2_1024_large by simp
  then show "\<bar>round_binary64 q\<bar> < pow2 1024"
    using round_binary64_unit [OF assms] by simp
qed

section \<open>Facts on comparisons\<close>

lemma js_lt_irrefl [simp]: "\<not> js_lt x x"
  by (cases x) auto

lemma js_lt_trans: "js_lt x y \<Longrightarrow> js_lt y z \<Longrightarrow> js_lt x z"
  by (cases x; cases y; cases z) auto

lemma js_lt_asym: "js_lt x y \<Longrightarrow> \<not> js_lt y x"
  using js_lt_trans js_lt_irrefl by blast

lemma js_eq_iff [js_num_simps]: "js_eq x y \<longleftrightarrow> x = y \<and> x \<noteq> NaN"
  by (cases x) auto

lemma js_le_Fin [simp]: "js_le (Fin a) (Fin b) \<longleftrightarrow> a \<le> b"
  by (auto simp: js_le_def)

lemma js_le_trans: "js_le x y \<Longrightarrow> js_le y z \<Longrightarrow> js_le x z"
  unfolding js_le_def js_eq_iff using js_lt_trans by blast

lemma js_linear: "x \<noteq> NaN \<Longrightarrow> y \<noteq> NaN \<Longrightarrow> js_lt x y \<or> x = y \<or> js_lt y x"
  by (cases x; cases y) auto

lemma js_not_lt: "x \<noteq> NaN \<Longrightarrow> y \<noteq> NaN \<Longrightarrow> \<not> js_lt x y \<longleftrightarrow> js_le y x"
  using js_linear js_lt_asym by (auto simp: js_le_def js_eq_iff)

lemma is_finite_iff [js_num_simps]: "is_finite x \<longleftrightarrow> (\<exists>a. x = Fin a)"
  by (cases x) auto

lemma is_safe_integer_iff [js_num_simps]:
  "is_safe_integer x \<longleftrightarrow> (\<exists>n. x = num_of_int n \<and> \<bar>n\<bar> \<le> max_safe_integer)"
proof (cases x)
  case (Fin a)
  then show ?thesis by (auto simp: num_of_int_def)
qed (auto simp: num_of_int_def)

lemma int_of_num_of_int [simp]: "int_of_num (num_of_int n) = n"
  by (simp add: num_of_int_def)

lemma js_lt_num_of_int [simp]: "js_lt (num_of_int a) (num_of_int b) \<longleftrightarrow> a < b"
  by (simp add: num_of_int_def)

lemma js_le_num_of_int [simp]: "js_le (num_of_int a) (num_of_int b) \<longleftrightarrow> a \<le> b"
  by (simp add: num_of_int_def)

text \<open>A value in the closed unit interval: the range of multipliers, confidences and scores.\<close>

definition in_unit :: "jsnum \<Rightarrow> bool" where
  "in_unit x \<longleftrightarrow> js_le (Fin 0) x \<and> js_le x (Fin 1)"

lemma in_unit_iff: "in_unit x \<longleftrightarrow> (\<exists>a. x = Fin a \<and> 0 \<le> a \<and> a \<le> 1)"
  by (cases x) (auto simp: in_unit_def js_le_def)

lemma in_unit_one_minus: "in_unit x \<Longrightarrow> in_unit (js_sub (Fin 1) x)"
  unfolding in_unit_iff js_sub_def
  using mk_num_unit round_binary64_unit by fastforce

lemma in_unit_max: "in_unit x \<Longrightarrow> in_unit y \<Longrightarrow> in_unit (js_max x y)"
  by (auto simp: in_unit_iff js_max_def)

end
