(* ===== verification/Js_Value.thy ===== *)
theory Js_Value
  imports Js_Number
begin

text \<open>
  Dynamically typed values and dates. \<open>jsval\<close> is what \<open>unknown\<close> ranges over in the
  validators: the values \<open>JSON.parse\<close> builds, \<open>undefined\<close> for an absent property, and
  \<open>Date\<close> objects, which the code also passes to the validators. A date is its time value
  in milliseconds, or the invalid date whose time value is \<open>NaN\<close>; every comparison with the
  invalid date is false, as with \<open>NaN\<close>.
\<close>

section \<open>Dates\<close>

datatype js_date = InvalidDate | Date int

definition max_time_value :: int where
  "max_time_value = 8640000000000000"

text \<open>\<open>new Date(t)\<close>: \<open>TimeClip\<close> makes a time value beyond the limit invalid.\<close>

definition new_date :: "int \<Rightarrow> js_date" where
  "new_date t = (if \<bar>t\<bar> \<le> max_time_value then Date t else InvalidDate)"

fun date_shift :: "js_date \<Rightarrow> int \<Rightarrow> js_date" where
  "date_shift (Date t) ms = new_date (t + ms)"
| "date_shift InvalidDate ms = InvalidDate"

fun date_lt :: "js_date \<Rightarrow> js_date \<Rightarrow> bool" where
  "date_lt (Date a) (Date b) = (a < b)"
| "date_lt x y = False"

fun date_le :: "js_date \<Rightarrow> js_date \<Rightarrow> bool" where
  "date_le (Date a) (Date b) = (a \<le> b)"
| "date_le x y = False"

fun valid_date :: "js_date \<Rightarrow> bool" where
  "valid_date (Date t) = True"
| "valid_date InvalidDate = False"

lemma valid_date_iff: "valid_date d \<longleftrightarrow> (\<exists>t. d = Date t)"
  by (cases d) auto

lemma date_not_lt: "valid_date a \<Longrightarrow> valid_date b \<Longrightarrow> \<not> date_lt a b \<longleftrightarrow> date_le b a"
  by (cases a; cases b) auto

lemma date_lt_irrefl [simp]: "\<not> date_lt d d"
  by (cases d) auto

lemma date_lt_trans: "date_lt a b \<Longrightarrow> date_lt b c \<Longrightarrow> date_lt a c"
  by (cases a; cases b; cases c) auto

lemma date_lt_le_trans: "date_lt a b \<Longrightarrow> date_le b c \<Longrightarrow> date_lt a c"
  by (cases a; cases b; cases c) auto

lemma date_lt_imp_le: "date_lt a b \<Longrightarrow> date_le a b"
  by (cases a; cases b) auto

lemma date_le_trans: "date_le a b \<Longrightarrow> date_le b c \<Longrightarrow> date_le a c"
  by (cases a; cases b; cases c) auto

lemma date_le_refl: "valid_date d \<Longrightarrow> date_le d d"
  by (cases d) auto

section \<open>Values\<close>

datatype jsval =
    JUndefined
  | JNull
  | JBool bool
  | JNum jsnum
  | JStr string
  | JArr "jsval list"
  | JObj "(string \<times> jsval) list"
  | JDate js_date

fun jprop :: "jsval \<Rightarrow> string \<Rightarrow> jsval" where
  "jprop (JObj fs) name = (case map_of fs name of None \<Rightarrow> JUndefined | Some v \<Rightarrow> v)"
| "jprop v name = JUndefined"

fun isRecord :: "jsval \<Rightarrow> bool" where
  "isRecord (JObj fs) = True"
| "isRecord (JDate d) = True"
| "isRecord v = False"

text \<open>\<open>Number.isSafeInteger\<close> on an untyped value: false unless it is a number.\<close>

fun val_safe_integer :: "jsval \<Rightarrow> bool" where
  "val_safe_integer (JNum x) = is_safe_integer x"
| "val_safe_integer v = False"

fun val_int :: "jsval \<Rightarrow> int" where
  "val_int (JNum x) = int_of_num x"
| "val_int v = 0"

text \<open>The strings of an array, other elements dropped; a value that is no array has none.\<close>

fun string_items :: "jsval list \<Rightarrow> string list" where
  "string_items [] = []"
| "string_items (JStr s # vs) = s # string_items vs"
| "string_items (v # vs) = string_items vs"

fun is_array :: "jsval \<Rightarrow> bool" where
  "is_array (JArr vs) = True"
| "is_array v = False"

lemma val_safe_integer_iff:
  "val_safe_integer v \<longleftrightarrow> (\<exists>n. v = JNum (num_of_int n) \<and> \<bar>n\<bar> \<le> max_safe_integer)"
  by (cases v) (auto simp: is_safe_integer_iff)

lemma jprop_non_object: "jprop v name \<noteq> JUndefined \<Longrightarrow> \<exists>fs. v = JObj fs"
  by (cases v) auto

end
