(* ===== verification/Js_String.thy ===== *)
theory Js_String
  imports Main Prelude "HOL-Library.Word" "HOL-Library.Char_ord"
begin

text \<open>
  Strings, byte buffers and Base64. A string is a list of characters below 256; the patterns
  of the program (identifiers, digests, tokens, Base64) accept ASCII only, so a code unit
  above 255 behaves as any character outside those patterns. A buffer is a list of bytes.
  Base64 is defined by the arithmetic of RFC 4648, three bytes to four digits, with either
  alphabet; the lemmas show that decoding inverts encoding and that the encodings are exactly
  the strings the code's canonical check accepts.
\<close>

section \<open>Characters and strings\<close>

definition code_of :: "char \<Rightarrow> int" where
  "code_of c = of_char c"

definition in_range :: "int \<Rightarrow> int \<Rightarrow> char \<Rightarrow> bool" where
  "in_range lo hi c = (lo \<le> code_of c \<and> code_of c \<le> hi)"

definition is_upper :: "char \<Rightarrow> bool" where "is_upper c = in_range 65 90 c"
definition is_lower :: "char \<Rightarrow> bool" where "is_lower c = in_range 97 122 c"
definition is_digit_char :: "char \<Rightarrow> bool" where "is_digit_char c = in_range 48 57 c"

text \<open>The class \<open>[A-Za-z0-9_-]\<close>.\<close>

definition is_id_char :: "char \<Rightarrow> bool" where
  "is_id_char c = (is_upper c \<or> is_lower c \<or> is_digit_char c \<or> c = CHR ''_'' \<or> c = CHR ''-'')"

definition id_pattern :: "nat \<Rightarrow> string \<Rightarrow> bool" where
  "id_pattern n s = (1 \<le> length s \<and> length s \<le> n \<and> list_all is_id_char s)"

definition is_space :: "char \<Rightarrow> bool" where
  "is_space c = (in_range 9 13 c \<or> c = CHR '' '' \<or> code_of c = 160)"

definition js_trim :: "string \<Rightarrow> string" where
  "js_trim s = rev (dropWhile is_space (rev (dropWhile is_space s)))"

definition ascii_upper :: "char \<Rightarrow> char" where
  "ascii_upper c = (if is_lower c then char_of (code_of c - 32) else c)"

definition ascii_lower :: "char \<Rightarrow> char" where
  "ascii_lower c = (if is_upper c then char_of (code_of c + 32) else c)"

definition to_upper :: "string \<Rightarrow> string" where "to_upper s = map ascii_upper s"
definition to_lower :: "string \<Rightarrow> string" where "to_lower s = map ascii_lower s"

fun join :: "string \<Rightarrow> string list \<Rightarrow> string" where
  "join sep [] = []"
| "join sep [x] = x"
| "join sep (x # xs) = x @ sep @ join sep xs"

fun split_on :: "char \<Rightarrow> string \<Rightarrow> string list" where
  "split_on c [] = [[]]"
| "split_on c (x # xs) =
     (if x = c then [] # split_on c xs
      else case split_on c xs of [] \<Rightarrow> [[x]] | p # ps \<Rightarrow> (x # p) # ps)"

fun starts_with :: "string \<Rightarrow> string \<Rightarrow> bool" where
  "starts_with s [] = True"
| "starts_with [] (p # ps) = False"
| "starts_with (x # xs) (p # ps) = (x = p \<and> starts_with xs ps)"

fun str_includes :: "string \<Rightarrow> string \<Rightarrow> bool" where
  "str_includes [] p = (p = [])"
| "str_includes (x # xs) p = (starts_with (x # xs) p \<or> str_includes xs p)"

text \<open>Decimal digits of a number.\<close>

function show_nat :: "nat \<Rightarrow> string" where
  "show_nat n = (if n < 10 then [char_of (48 + n)]
     else show_nat (n div 10) @ [char_of (48 + n mod 10)])"
  by pat_completeness auto
termination by (relation "measure id") auto

declare show_nat.simps [simp del]

definition show_int :: "int \<Rightarrow> string" where
  "show_int i = (if i < 0 then CHR ''-'' # show_nat (nat (- i)) else show_nat (nat i))"

section \<open>Buffers\<close>

type_synonym byte = "8 word"

definition byte_of_char :: "char \<Rightarrow> byte" where
  "byte_of_char c = word_of_int (code_of c)"

definition char_of_byte :: "byte \<Rightarrow> char" where
  "char_of_byte b = char_of (uint b)"

text \<open>Big-endian numbers from bytes, and the bytes of a number.\<close>

definition mk_u16 :: "byte \<Rightarrow> byte \<Rightarrow> int" where
  "mk_u16 a b = uint a * 256 + uint b"

definition mk_u32 :: "byte \<Rightarrow> byte \<Rightarrow> byte \<Rightarrow> byte \<Rightarrow> int" where
  "mk_u32 a b c d = ((uint a * 256 + uint b) * 256 + uint c) * 256 + uint d"

definition to_signed16 :: "int \<Rightarrow> int" where
  "to_signed16 v = (if 32768 \<le> v then v - 65536 else v)"

definition of_signed16 :: "int \<Rightarrow> int" where
  "of_signed16 v = (if v < 0 then v + 65536 else v)"

definition read_u16 :: "byte list \<Rightarrow> nat \<Rightarrow> int" where
  "read_u16 bs i = mk_u16 (bs ! i) (bs ! (i + 1))"

definition read_i16 :: "byte list \<Rightarrow> nat \<Rightarrow> int" where
  "read_i16 bs i = to_signed16 (read_u16 bs i)"

definition read_u32 :: "byte list \<Rightarrow> nat \<Rightarrow> int" where
  "read_u32 bs i = mk_u32 (bs ! i) (bs ! (i + 1)) (bs ! (i + 2)) (bs ! (i + 3))"

definition byte0 :: "int \<Rightarrow> byte" where "byte0 v = word_of_int v"
definition byte1 :: "int \<Rightarrow> byte" where "byte1 v = byte0 (v div 256)"
definition byte2 :: "int \<Rightarrow> byte" where "byte2 v = byte1 (v div 256)"
definition byte3 :: "int \<Rightarrow> byte" where "byte3 v = byte2 (v div 256)"

definition bytes_u16 :: "int \<Rightarrow> byte list" where
  "bytes_u16 v = [byte1 v, byte0 v]"

definition bytes_u32 :: "int \<Rightarrow> byte list" where
  "bytes_u32 v = [byte3 v, byte2 v, byte1 v, byte0 v]"

text \<open>The length of the UTF-8 encoding of a string.\<close>

definition utf8_length :: "string \<Rightarrow> int" where
  "utf8_length s = sum_list (map (\<lambda>c. if code_of c < 128 then 1 else 2) s)"

text \<open>The encoding itself, in bytes.\<close>

definition utf8_encode :: "string \<Rightarrow> byte list" where
  "utf8_encode s = concat (map (\<lambda>c. if code_of c < 128 then [byte_of_char c]
     else [word_of_int (192 + code_of c div 64), word_of_int (128 + code_of c mod 64)]) s)"

section \<open>Base64\<close>

definition b64_alphabet :: string where
  "b64_alphabet = ''ABCDEFGHIJKLMNOPQRSTUVWXYZabcdefghijklmnopqrstuvwxyz0123456789+/''"

definition b64url_alphabet :: string where
  "b64url_alphabet = ''ABCDEFGHIJKLMNOPQRSTUVWXYZabcdefghijklmnopqrstuvwxyz0123456789-_''"

fun index_of :: "'a \<Rightarrow> 'a list \<Rightarrow> int option" where
  "index_of x [] = None"
| "index_of x (y # ys) = (if x = y then Some 0 else map_option (\<lambda>i. i + 1) (index_of x ys))"

definition digit :: "string \<Rightarrow> int \<Rightarrow> char" where
  "digit al i = al ! nat i"

text \<open>The four sextets of three bytes, and the three bytes of four sextets.\<close>

definition sextet0 :: "byte \<Rightarrow> int" where "sextet0 a = uint a div 4"
definition sextet1 :: "byte \<Rightarrow> byte \<Rightarrow> int" where "sextet1 a b = uint a mod 4 * 16 + uint b div 16"
definition sextet2 :: "byte \<Rightarrow> byte \<Rightarrow> int" where "sextet2 b c = uint b mod 16 * 4 + uint c div 64"
definition sextet3 :: "byte \<Rightarrow> int" where "sextet3 c = uint c mod 64"

definition octet0 :: "int \<Rightarrow> int \<Rightarrow> byte" where "octet0 i j = word_of_int (i * 4 + j div 16)"
definition octet1 :: "int \<Rightarrow> int \<Rightarrow> byte" where "octet1 j k = word_of_int (j mod 16 * 16 + k div 4)"
definition octet2 :: "int \<Rightarrow> int \<Rightarrow> byte" where "octet2 k l = word_of_int (k mod 4 * 64 + l)"

text \<open>Three bytes give four digits; a rest of one or two bytes gives two or three.\<close>

fun b64_encode_with :: "string \<Rightarrow> string \<Rightarrow> byte list \<Rightarrow> string" where
  "b64_encode_with al pad (a # b # c # bs) =
     digit al (sextet0 a) # digit al (sextet1 a b) # digit al (sextet2 b c)
     # digit al (sextet3 c) # b64_encode_with al pad bs"
| "b64_encode_with al pad [a, b] =
     [digit al (sextet0 a), digit al (sextet1 a b), digit al (sextet2 b 0)] @ pad"
| "b64_encode_with al pad [a] =
     [digit al (sextet0 a), digit al (sextet1 a 0)] @ pad @ pad"
| "b64_encode_with al pad [] = []"

fun b64_decode_with :: "string \<Rightarrow> string \<Rightarrow> byte list option" where
  "b64_decode_with al (w # x # y # z # cs) =
     (case (index_of w al, index_of x al, index_of y al, index_of z al) of
        (Some i, Some j, Some k, Some l) \<Rightarrow>
          map_option (\<lambda>bs. octet0 i j # octet1 j k # octet2 k l # bs) (b64_decode_with al cs)
      | _ \<Rightarrow> None)"
| "b64_decode_with al [w, x, y] =
     (case (index_of w al, index_of x al, index_of y al) of
        (Some i, Some j, Some k) \<Rightarrow> Some [octet0 i j, octet1 j k]
      | _ \<Rightarrow> None)"
| "b64_decode_with al [w, x] =
     (case (index_of w al, index_of x al) of
        (Some i, Some j) \<Rightarrow> Some [octet0 i j]
      | _ \<Rightarrow> None)"
| "b64_decode_with al [w] = None"
| "b64_decode_with al [] = Some []"

definition b64_encode :: "byte list \<Rightarrow> string" where
  "b64_encode bs = b64_encode_with b64_alphabet ''='' bs"

definition b64url_encode :: "byte list \<Rightarrow> string" where
  "b64url_encode bs = b64_encode_with b64url_alphabet [] bs"

text \<open>The class \<open>[A-Za-z0-9+/]\<close>.\<close>

definition is_b64_char :: "char \<Rightarrow> bool" where
  "is_b64_char c = (c \<in> set b64_alphabet)"

text \<open>The pattern of the canonical check: groups of four digits, the last one possibly padded.\<close>

fun b64_pattern :: "string \<Rightarrow> bool" where
  "b64_pattern [] = True"
| "b64_pattern [w, x, y, z] =
     (is_b64_char w \<and> is_b64_char x \<and>
       ((is_b64_char y \<and> (is_b64_char z \<or> z = CHR ''='')) \<or> (y = CHR ''='' \<and> z = CHR ''='')))"
| "b64_pattern (w # x # y # z # cs) =
     (is_b64_char w \<and> is_b64_char x \<and> is_b64_char y \<and> is_b64_char z \<and> b64_pattern cs)"
| "b64_pattern cs = False"

text \<open>\<open>Buffer.from(s, 'base64')\<close>: padding ends the data.\<close>

definition b64_decode :: "string \<Rightarrow> byte list option" where
  "b64_decode s = b64_decode_with b64_alphabet (takeWhile (\<lambda>c. c \<noteq> CHR ''='') s)"

definition b64url_decode :: "string \<Rightarrow> byte list option" where
  "b64url_decode s = b64_decode_with b64url_alphabet s"

section \<open>Facts on buffers\<close>

lemma uint_byte_bounds: "0 \<le> uint (b :: byte)" "uint (b :: byte) < 256"
  using uint_bounded [of b] by simp_all

lemma uint_byte_of_int: "uint (word_of_int v :: byte) = v mod 256"
  by (simp add: uint_word_of_int)

lemma int_div_bounds:
  assumes "0 \<le> x" and "x < k * m" and "0 < (m :: int)"
  shows "0 \<le> x div m" "x div m < k"
proof -
  have "x div m * m \<le> x" using assms(3) by (simp add: div_mult_mod_eq [symmetric] minus_mod_eq_div_mult [symmetric])
  then have "x div m * m < k * m" using assms(2) by (rule order_le_less_trans)
  then show "x div m < k" using assms(3) by (simp only: mult_less_cancel_right_pos)
  show "0 \<le> x div m" using assms by (simp add: pos_imp_zdiv_nonneg_iff)
qed

lemma digit_pair:
  fixes p q :: int
  assumes "0 \<le> q" and "q < m"
  shows "(p * m + q) div m = p" "(p * m + q) mod m = q"
  using assms by (simp_all add: div_pos_pos_trivial)

lemma digit_pair_bounds:
  fixes p q :: int
  assumes "0 \<le> p" and "p < n" and "0 \<le> q" and "q < m"
  shows "0 \<le> p * m + q" "p * m + q < n * m"
proof -
  show "0 \<le> p * m + q" using assms by simp
  have "p * m + q < (p + 1) * m" using assms(4) by (simp add: ring_distribs)
  also have "\<dots> \<le> n * m" using assms by (intro mult_right_mono) simp_all
  finally show "p * m + q < n * m" .
qed

lemma uint_byte0: "uint (byte0 v) = v mod 256"
  by (simp add: byte0_def uint_byte_of_int)

lemma uint_byte0_small [simp]: "0 \<le> v \<Longrightarrow> v < 256 \<Longrightarrow> uint (byte0 v) = v"
  by (simp add: uint_byte0)

lemma byte0_uint [simp]: "byte0 (uint b) = b"
  by (simp add: byte0_def)

lemma int_div_256:
  assumes "0 \<le> x" and "x < n" and "n = k * 256"
  shows "0 \<le> x div 256" "x div 256 < (k :: int)"
  using assms int_div_bounds [of x k 256] by simp_all

lemma mk_u32_bytes [simp]:
  assumes "0 \<le> v" and "v < 4294967296"
  shows "mk_u32 (byte3 v) (byte2 v) (byte1 v) (byte0 v) = v"
proof -
  have m: "4294967296 = 16777216 * (256 :: int)" "16777216 = 65536 * (256 :: int)"
    "65536 = 256 * (256 :: int)" by simp_all
  note 1 = int_div_256 [OF assms m(1)]
  note 2 = int_div_256 [OF 1 m(2)]
  note 3 = int_div_256 [OF 2 m(3)]
  from 3 have "v div 256 div 256 div 256 mod 256 = v div 256 div 256 div 256"
    by (rule mod_pos_pos_trivial)
  then show ?thesis
    by (simp only: mk_u32_def byte3_def byte2_def byte1_def uint_byte0 div_mult_mod_eq)
qed

lemma mk_u16_bytes [simp]:
  assumes "0 \<le> v" and "v < 65536"
  shows "mk_u16 (byte1 v) (byte0 v) = v"
proof -
  have "0 \<le> v div 256" "v div 256 < 256"
    using int_div_bounds [of v 256 256] assms by simp_all
  then have "v div 256 mod 256 = v div 256" by (rule mod_pos_pos_trivial)
  then show ?thesis by (simp only: mk_u16_def byte1_def uint_byte0 div_mult_mod_eq)
qed

lemma byte_digits:
  fixes d :: byte
  shows "byte0 (p * 256 + uint d) = d" "(p * 256 + uint d) div 256 = p"
proof -
  have "uint (byte0 (p * 256 + uint d)) = uint d"
    using uint_byte_bounds [of d] by (simp only: uint_byte0 digit_pair)
  then show "byte0 (p * 256 + uint d) = d" by (simp only: word_uint_eq_iff)
  show "(p * 256 + uint d) div 256 = p"
    using uint_byte_bounds [of d] by (rule digit_pair)
qed

lemma bytes_mk_u16 [simp]: "bytes_u16 (mk_u16 a b) = [a, b]"
  by (simp only: bytes_u16_def mk_u16_def byte1_def byte_digits byte0_uint)

lemma bytes_mk_u32 [simp]: "bytes_u32 (mk_u32 a b c d) = [a, b, c, d]"
  by (simp only: bytes_u32_def mk_u32_def byte3_def byte2_def byte1_def byte_digits byte0_uint)

lemma mk_u16_bounds: "0 \<le> mk_u16 a b" "mk_u16 a b < 65536"
  using uint_byte_bounds [of a] uint_byte_bounds [of b]
  by (simp_all add: mk_u16_def)

lemma mk_u32_bounds: "0 \<le> mk_u32 a b c d" "mk_u32 a b c d < 4294967296"
  using uint_byte_bounds [of a] uint_byte_bounds [of b]
    uint_byte_bounds [of c] uint_byte_bounds [of d]
  by (simp_all add: mk_u32_def)

lemma read_bounds:
  "0 \<le> read_u16 bs i" "read_u16 bs i < 65536" "0 \<le> read_u32 bs i" "read_u32 bs i < 4294967296"
  by (simp_all add: read_u16_def read_u32_def mk_u16_bounds mk_u32_bounds)

lemma to_signed16_bounds:
  "0 \<le> v \<Longrightarrow> v < 65536 \<Longrightarrow> - 32768 \<le> to_signed16 v \<and> to_signed16 v < 32768"
  by (simp add: to_signed16_def)

lemma signed16_inverse:
  "0 \<le> v \<Longrightarrow> v < 65536 \<Longrightarrow> of_signed16 (to_signed16 v) = v"
  "- 32768 \<le> w \<Longrightarrow> w < 32768 \<Longrightarrow> to_signed16 (of_signed16 w) = w"
  by (simp_all add: to_signed16_def of_signed16_def)

lemma of_signed16_bounds:
  "- 32768 \<le> w \<Longrightarrow> w < 32768 \<Longrightarrow> 0 \<le> of_signed16 w \<and> of_signed16 w < 65536"
  by (simp add: of_signed16_def)

lemma read_append:
  "read_u16 (xs @ ys) (length xs + k) = read_u16 ys k"
  "read_u32 (xs @ ys) (length xs + k) = read_u32 ys k"
  by (simp_all add: read_u16_def read_u32_def nth_append)

lemma in_join: "c \<in> set (join sep ps) \<Longrightarrow> c \<in> set sep \<or> (\<exists>p\<in>set ps. c \<in> set p)"
  by (induction sep ps rule: join.induct) auto

lemma code_of_bounds: "0 \<le> code_of c" "code_of c < 256"
proof -
  have "code_of c mod 256 = code_of c" by (simp add: code_of_def)
  then show "0 \<le> code_of c" "code_of c < 256"
    using pos_mod_sign [of 256 "code_of c"] pos_mod_bound [of 256 "code_of c"] by simp_all
qed

lemma char_of_code_of [simp]: "char_of (code_of c) = c"
  by (simp add: code_of_def)

lemma char_byte_inverse [simp]: "char_of_byte (byte_of_char c) = c"
  using code_of_bounds [of c]
  by (simp add: char_of_byte_def byte_of_char_def uint_byte_of_int)

section \<open>Facts on Base64\<close>

lemma index_of_nth: "distinct xs \<Longrightarrow> i < length xs \<Longrightarrow> index_of (xs ! i) xs = Some (int i)"
proof (induction xs arbitrary: i)
  case Nil
  then show ?case by simp
next
  case (Cons x xs)
  then show ?case by (cases i) auto
qed

lemma index_of_Some: "index_of x xs = Some i \<Longrightarrow> 0 \<le> i \<and> i < int (length xs) \<and> xs ! nat i = x"
proof (induction xs arbitrary: i)
  case Nil
  then show ?case by simp
next
  case (Cons y ys)
  then show ?case
    by (auto split: if_splits simp: nth_Cons' nat_add_distrib)
qed

lemma index_of_digit:
  "distinct al \<Longrightarrow> length al = 64 \<Longrightarrow> 0 \<le> i \<Longrightarrow> i < 64 \<Longrightarrow> index_of (digit al i) al = Some i"
  using index_of_nth [of al "nat i"] by (simp add: digit_def)

lemma index_of_None: "index_of x xs = None \<longleftrightarrow> x \<notin> set xs"
  by (induction xs) auto

lemma b64_alphabets:
  "distinct b64_alphabet" "length b64_alphabet = 64"
  "distinct b64url_alphabet" "length b64url_alphabet = 64"
  by (simp_all add: b64_alphabet_def b64url_alphabet_def)

lemma octets_of_sextets [simp]:
  "octet0 (sextet0 a) (sextet1 a b) = a"
  "octet1 (sextet1 a b) (sextet2 b c) = b"
  "octet2 (sextet2 b c) (sextet3 c) = c"
proof -
  define x y z where "x = uint a" and "y = uint b" and "z = uint c"
  have bounds: "0 \<le> x" "x < 256" "0 \<le> y" "y < 256" "0 \<le> z" "z < 256"
    using uint_byte_bounds [of a] uint_byte_bounds [of b] uint_byte_bounds [of c]
    by (simp_all only: x_def y_def z_def)
  have "0 \<le> y div 16" "y div 16 < 16" using int_div_bounds [of y 16 16] bounds by simp_all
  note y = digit_pair [OF this]
  have "0 \<le> z div 64" "z div 64 < 4" using int_div_bounds [of z 4 64] bounds by simp_all
  note z = digit_pair [OF this]
  have "x div 4 * 4 + (x mod 4 * 16 + y div 16) div 16 = x"
    "(x mod 4 * 16 + y div 16) mod 16 * 16 + (y mod 16 * 4 + z div 64) div 4 = y"
    "(y mod 16 * 4 + z div 64) mod 4 * 64 + z mod 64 = z"
    by (simp_all only: y z div_mult_mod_eq)
  then show "octet0 (sextet0 a) (sextet1 a b) = a" "octet1 (sextet1 a b) (sextet2 b c) = b"
    "octet2 (sextet2 b c) (sextet3 c) = c"
    by (simp_all only: octet0_def octet1_def octet2_def sextet0_def sextet1_def sextet2_def
        sextet3_def x_def y_def z_def word_of_int_uint)
qed

lemma sextet_bounds [simp]:
  "0 \<le> sextet0 a" "sextet0 a < 64" "0 \<le> sextet1 a b" "sextet1 a b < 64"
  "0 \<le> sextet2 b c" "sextet2 b c < 64" "0 \<le> sextet3 c" "sextet3 c < 64"
proof -
  define x y z where "x = uint a" and "y = uint b" and "z = uint c"
  have bounds: "0 \<le> x" "x < 256" "0 \<le> y" "y < 256" "0 \<le> z" "z < 256"
    using uint_byte_bounds [of a] uint_byte_bounds [of b] uint_byte_bounds [of c]
    by (simp_all only: x_def y_def z_def)
  have "0 \<le> x div 4" "x div 4 < 64" using int_div_bounds [of x 64 4] bounds by simp_all
  moreover have "0 \<le> y div 16" "y div 16 < 16" using int_div_bounds [of y 16 16] bounds by simp_all
  then have "0 \<le> x mod 4 * 16 + y div 16" "x mod 4 * 16 + y div 16 < 4 * 16"
    using digit_pair_bounds [of "x mod 4" 4 "y div 16" 16] by simp_all
  moreover have "0 \<le> z div 64" "z div 64 < 4" using int_div_bounds [of z 4 64] bounds by simp_all
  then have "0 \<le> y mod 16 * 4 + z div 64" "y mod 16 * 4 + z div 64 < 16 * 4"
    using digit_pair_bounds [of "y mod 16" 16 "z div 64" 4] by simp_all
  moreover have "0 \<le> z mod 64" "z mod 64 < 64" by simp_all
  moreover have "4 * 16 = (64 :: int)" "16 * 4 = (64 :: int)" by simp_all
  ultimately show "0 \<le> sextet0 a" "sextet0 a < 64" "0 \<le> sextet1 a b" "sextet1 a b < 64"
    "0 \<le> sextet2 b c" "sextet2 b c < 64" "0 \<le> sextet3 c" "sextet3 c < 64"
    by (simp_all only: sextet0_def sextet1_def sextet2_def sextet3_def x_def y_def z_def)
qed

lemma b64_decode_encode_with:
  assumes "distinct al" and "length al = 64"
  shows "b64_decode_with al (b64_encode_with al [] bs) = Some bs"
  using assms
proof (induction al "[] :: string" bs rule: b64_encode_with.induct)
  case (1 al a b c bs)
  then show ?case by (simp add: index_of_digit)
next
  case (2 al a b)
  then show ?case by (simp add: index_of_digit)
next
  case (3 al a)
  then show ?case by (simp add: index_of_digit)
qed simp

lemma b64url_decode_encode: "b64url_decode (b64url_encode bs) = Some bs"
  by (simp add: b64url_decode_def b64url_encode_def b64_decode_encode_with b64_alphabets)

lemma digit_in: "length al = 64 \<Longrightarrow> 0 \<le> i \<Longrightarrow> i < 64 \<Longrightarrow> digit al i \<in> set al"
  by (simp add: digit_def)

lemma b64_alphabet_not_pad: "c \<in> set b64_alphabet \<Longrightarrow> c \<noteq> CHR ''=''"
  by (auto simp: b64_alphabet_def)

lemma b64_strip_padding:
  "takeWhile (\<lambda>c. c \<noteq> CHR ''='') (b64_encode_with b64_alphabet ''='' bs)
     = b64_encode_with b64_alphabet [] bs"
proof (induction b64_alphabet "''=''" bs rule: b64_encode_with.induct)
  case (1 a b c bs)
  then show ?case by (simp add: digit_in b64_alphabets b64_alphabet_not_pad)
next
  case (2 a b)
  then show ?case by (simp add: digit_in b64_alphabets b64_alphabet_not_pad)
next
  case (3 a)
  then show ?case by (simp add: digit_in b64_alphabets b64_alphabet_not_pad)
qed simp

lemma b64_decode_encode: "b64_decode (b64_encode bs) = Some bs"
  by (simp add: b64_decode_def b64_encode_def b64_strip_padding b64_decode_encode_with b64_alphabets)

lemma b64_encode_length: "length (b64_encode bs) mod 4 = 0"
proof -
  have "length (b64_encode_with al ''='' bs) mod 4 = 0" for al
    by (induction al "''=''" bs rule: b64_encode_with.induct) (simp_all add: mod_Suc)
  then show ?thesis by (simp add: b64_encode_def)
qed

lemma b64_pattern_encode: "b64_pattern (b64_encode_with b64_alphabet ''='' bs)"
proof (induction b64_alphabet "''=''" bs rule: b64_encode_with.induct)
  case (1 a b c bs)
  then show ?case
    by (cases "b64_encode_with b64_alphabet ''='' bs")
      (simp_all add: is_b64_char_def digit_in b64_alphabets)
next
  case (2 a b)
  then show ?case by (simp add: is_b64_char_def digit_in b64_alphabets)
next
  case (3 a)
  then show ?case by (simp add: is_b64_char_def digit_in b64_alphabets)
qed simp


lemma index_of_in: "c \<in> set xs \<Longrightarrow> \<exists>i. index_of c xs = Some i"
  using index_of_None [of c xs] by auto

lemma b64_pattern_decodes: "b64_pattern s \<Longrightarrow> \<exists>bs. b64_decode s = Some bs"
proof (induction s rule: b64_pattern.induct)
  case (2 w x y z)
  then obtain i j where "index_of w b64_alphabet = Some i" "index_of x b64_alphabet = Some j"
    using index_of_in by (fastforce simp: is_b64_char_def)
  moreover have "w \<noteq> CHR ''=''" "x \<noteq> CHR ''=''"
    using 2 by (auto simp: is_b64_char_def dest: b64_alphabet_not_pad)
  moreover have "y \<noteq> CHR ''='' \<Longrightarrow> y \<in> set b64_alphabet" "z \<noteq> CHR ''='' \<Longrightarrow> z \<in> set b64_alphabet"
    using 2 by (auto simp: is_b64_char_def)
  ultimately show ?case
    using index_of_in [of y b64_alphabet] index_of_in [of z b64_alphabet]
    by (cases "y = CHR ''=''"; cases "z = CHR ''=''") (auto simp: b64_decode_def)
next
  case (3 w x y z c cs)
  then obtain bs where "b64_decode (c # cs) = Some bs" by auto
  moreover from 3 have "w \<in> set b64_alphabet" "x \<in> set b64_alphabet" "y \<in> set b64_alphabet"
    "z \<in> set b64_alphabet" by (simp_all add: is_b64_char_def)
  moreover from this obtain i j k l where "index_of w b64_alphabet = Some i"
    "index_of x b64_alphabet = Some j" "index_of y b64_alphabet = Some k"
    "index_of z b64_alphabet = Some l" using index_of_in by metis
  ultimately show ?case
    by (simp add: b64_decode_def b64_alphabet_not_pad)
qed (simp_all add: b64_decode_def)

end
