(* ===== verification/Flood_Models.thy ===== *)
theory Flood_Models
  imports Js_Value Js_String
begin

text \<open>
  The data of the flood component: risk levels, hazards and snapshots
  (\<^verbatim>\<open>src/src/flood/models/flood-hazard.ts\<close>), and the deployments, telemetry records and derived
  states of the sensors (\<^verbatim>\<open>src/src/flood/sensors/sensor-deployment.models.ts\<close>). Distances,
  thresholds, identifiers and versions are integers: they come from wire fields and database
  columns whose reads reject anything outside the safe integers. Coordinates, confidences and
  multipliers are binary64 numbers.
\<close>

section \<open>Hazards\<close>

datatype flood_level = LOW | MEDIUM | HIGH | BLOCKED | UNKNOWN

type_synonym point = "jsnum \<times> jsnum"
type_synonym ring = "point list"
type_synonym polygon = "ring list"

datatype freshness = FRESH | STALE | NO_TELEMETRY | DISABLED

record flood_hazard =
  hz_id :: string
  hz_level :: flood_level
  hz_geometry :: polygon
  hz_confidence :: jsnum
  hz_observedAt :: "js_date option"
  hz_validUntil :: "js_date option"
  hz_sourceNodeIds :: "string list"
  hz_routingMultiplier :: jsnum
  hz_reasonCodes :: "string list option"
  hz_freshness :: "freshness option"
  hz_description :: "string option"

datatype snapshot_source = SIMULATED | SENSOR

record hazard_snapshot =
  sn_snapshotId :: string
  sn_generatedAt :: js_date
  sn_validUntil :: "js_date option"
  sn_hazards :: "flood_hazard list"
  sn_source :: snapshot_source

section \<open>Sensors\<close>

datatype sensor_reason =
    R_NO_TELEMETRY
  | R_STALE
  | R_REFERENCE_DISTANCE_MISSING
  | R_ACCEPTED_DISTANCE_MISSING
  | R_FILTER_INVALID
  | R_SENSOR_UNHEALTHY
  | R_DEPLOYMENT_DISABLED

fun reason_name :: "sensor_reason \<Rightarrow> string" where
  "reason_name R_NO_TELEMETRY = ''NO_TELEMETRY''"
| "reason_name R_STALE = ''STALE''"
| "reason_name R_REFERENCE_DISTANCE_MISSING = ''REFERENCE_DISTANCE_MISSING''"
| "reason_name R_ACCEPTED_DISTANCE_MISSING = ''ACCEPTED_DISTANCE_MISSING''"
| "reason_name R_FILTER_INVALID = ''FILTER_INVALID''"
| "reason_name R_SENSOR_UNHEALTHY = ''SENSOR_UNHEALTHY''"
| "reason_name R_DEPLOYMENT_DISABLED = ''DEPLOYMENT_DISABLED''"

datatype classification_status = CS_VALID | CS_UNKNOWN | CS_DISABLED

datatype observation_source = GATEWAY | SERVER

record deployment_write =
  dep_nodeId :: string
  dep_enabled :: bool
  dep_latitude :: jsnum
  dep_longitude :: jsnum
  dep_coveragePolygon :: polygon
  dep_referenceDistanceOverrideMm :: "int option"
  dep_expectedPollIntervalMinutes :: int
  dep_staleAfterMinutes :: int
  dep_hysteresisMm :: int
  dep_mediumThresholdMm :: int
  dep_highThresholdMm :: int
  dep_blockedThresholdMm :: int
  dep_lowMultiplier :: jsnum
  dep_mediumMultiplier :: jsnum
  dep_highMultiplier :: jsnum
  dep_blockedMultiplier :: jsnum
  dep_unknownMultiplier :: jsnum

record deployment = deployment_write +
  dep_configVersion :: int
  dep_createdAt :: js_date
  dep_updatedAt :: js_date

record sensor_telemetry =
  tel_id :: int
  tel_nodeId :: string
  tel_persistentSessionId :: int
  tel_sequence :: int
  tel_gatewayReceivedAt :: "js_date option"
  tel_gatewayTimeTrusted :: bool
  tel_serverReceivedAt :: js_date
  tel_referenceDistanceMm :: "int option"
  tel_acceptedDistanceMm :: "int option"
  tel_filterState :: int
  tel_qualityFlags :: int
  tel_healthFlags :: int

record sensor_state_write =
  st_nodeId :: string
  st_telemetryId :: "int option"
  st_observedAt :: "js_date option"
  st_observationSource :: "observation_source option"
  st_validUntil :: "js_date option"
  st_referenceDistanceMm :: "int option"
  st_nodeReferenceDistanceMm :: "int option"
  st_acceptedDistanceMm :: "int option"
  st_waterHeightMm :: "int option"
  st_classifiedLevel :: flood_level
  st_classificationStatus :: classification_status
  st_effectiveMultiplier :: jsnum
  st_reasonCodes :: "sensor_reason list"
  st_classificationConfigVersion :: int

record sensor_state = sensor_state_write +
  st_createdAt :: js_date
  st_updatedAt :: js_date

record deployment_with_state =
  dws_deployment :: deployment
  dws_state :: "sensor_state option"

record effective_state =
  ef_deployment :: deployment
  ef_telemetryId :: "int option"
  ef_observedAt :: "js_date option"
  ef_observationSource :: "observation_source option"
  ef_validUntil :: "js_date option"
  ef_referenceDistanceMm :: "int option"
  ef_nodeReferenceDistanceMm :: "int option"
  ef_acceptedDistanceMm :: "int option"
  ef_waterHeightMm :: "int option"
  ef_classifiedLevel :: flood_level
  ef_classificationStatus :: classification_status
  ef_effectiveLevel :: flood_level
  ef_effectiveMultiplier :: jsnum
  ef_freshness :: freshness
  ef_fresh :: bool
  ef_reasonCodes :: "sensor_reason list"
  ef_classificationConfigVersion :: int

fun multiplierForLevel :: "deployment \<Rightarrow> flood_level \<Rightarrow> jsnum" where
  "multiplierForLevel d LOW = dep_lowMultiplier d"
| "multiplierForLevel d MEDIUM = dep_mediumMultiplier d"
| "multiplierForLevel d HIGH = dep_highMultiplier d"
| "multiplierForLevel d BLOCKED = dep_blockedMultiplier d"
| "multiplierForLevel d UNKNOWN = dep_unknownMultiplier d"

text \<open>The five multipliers lie in the unit interval: what the validator establishes.\<close>

definition multipliers_ok :: "('a) deployment_write_scheme \<Rightarrow> bool" where
  "multipliers_ok d \<longleftrightarrow> in_unit (dep_lowMultiplier d) \<and> in_unit (dep_mediumMultiplier d) \<and>
     in_unit (dep_highMultiplier d) \<and> in_unit (dep_blockedMultiplier d) \<and>
     in_unit (dep_unknownMultiplier d)"

lemma multiplierForLevel_in_unit: "multipliers_ok d \<Longrightarrow> in_unit (multiplierForLevel d l)"
  by (cases l) (simp_all add: multipliers_ok_def)

text \<open>Thresholds in increasing order with release boundaries that neither cross nor go below zero.\<close>

definition thresholds_ok :: "('a) deployment_write_scheme \<Rightarrow> bool" where
  "thresholds_ok d \<longleftrightarrow> 0 \<le> dep_hysteresisMm d \<and>
     dep_mediumThresholdMm d < dep_highThresholdMm d \<and>
     dep_highThresholdMm d < dep_blockedThresholdMm d \<and>
     dep_hysteresisMm d \<le> dep_mediumThresholdMm d \<and>
     dep_hysteresisMm d \<le> dep_highThresholdMm d - dep_mediumThresholdMm d \<and>
     dep_hysteresisMm d \<le> dep_blockedThresholdMm d - dep_highThresholdMm d"

section \<open>Sample values\<close>

text \<open>A concrete deployment and reading, at which the properties of the components are instantiated.\<close>

definition sample_ring :: ring where
  "sample_ring = [(Fin 0, Fin 0), (Fin 4, Fin 0), (Fin 4, Fin 4), (Fin 0, Fin 4), (Fin 0, Fin 0)]"

definition sample_deployment :: deployment where
  "sample_deployment = \<lparr>
     dep_nodeId = ''node-1'', dep_enabled = True, dep_latitude = Fin 2, dep_longitude = Fin 2,
     dep_coveragePolygon = [sample_ring], dep_referenceDistanceOverrideMm = None,
     dep_expectedPollIntervalMinutes = 10, dep_staleAfterMinutes = 30, dep_hysteresisMm = 20,
     dep_mediumThresholdMm = 100, dep_highThresholdMm = 200, dep_blockedThresholdMm = 300,
     dep_lowMultiplier = Fin 1, dep_mediumMultiplier = Fin (1 / 2), dep_highMultiplier = Fin (1 / 4),
     dep_blockedMultiplier = Fin 0, dep_unknownMultiplier = Fin 1,
     dep_configVersion = 1, dep_createdAt = Date 0, dep_updatedAt = Date 0 \<rparr>"

definition sample_telemetry :: sensor_telemetry where
  "sample_telemetry = \<lparr>
     tel_id = 7, tel_nodeId = ''node-1'', tel_persistentSessionId = 1, tel_sequence = 5,
     tel_gatewayReceivedAt = Some (Date 1000), tel_gatewayTimeTrusted = True,
     tel_serverReceivedAt = Date 2000, tel_referenceDistanceMm = Some 1000,
     tel_acceptedDistanceMm = Some 750, tel_filterState = 0, tel_qualityFlags = 4,
     tel_healthFlags = 0 \<rparr>"

lemma sample_deployment_ok: "thresholds_ok sample_deployment" "multipliers_ok sample_deployment"
  by (simp_all add: thresholds_ok_def multipliers_ok_def sample_deployment_def in_unit_def)

end
