(* ===== verification/Sensor_Classifier.thy ===== *)
theory Sensor_Classifier
  imports Flood_Models "HOL-Library.Word"
begin

text \<open>
  Classification of a sensor reading, \<^verbatim>\<open>src/src/flood/sensors/sensor-classifier.ts\<close>: the level a
  water height has, with and without hysteresis, the state derived from the latest telemetry,
  and the state that is effective at a given time. The two loops of
  \<open>classifyWithHysteresis\<close> are recursive functions; the lemmas show that they end and compute
  the level that rises at once and falls only below the release boundary.
\<close>

unbundle bit_operations_syntax

section \<open>Definitions\<close>

definition NODE_FILTER_STATE_STABLE :: int where "NODE_FILTER_STATE_STABLE = 0"
definition NODE_FILTER_STATE_ACCEPTED :: int where "NODE_FILTER_STATE_ACCEPTED = 1"
definition NODE_FILTER_STATE_TRANSIENT_REJECTED :: int where
  "NODE_FILTER_STATE_TRANSIENT_REJECTED = 4"
definition NODE_FILTER_STATE_CHANGE_CONFIRMED :: int where
  "NODE_FILTER_STATE_CHANGE_CONFIRMED = 5"

definition QUALITY_ACCEPTED_DISTANCE_VALID :: int where
  "QUALITY_ACCEPTED_DISTANCE_VALID = push_bit 2 1"

definition HEALTH_SONAR_INVALID :: int where "HEALTH_SONAR_INVALID = push_bit 0 1"
definition HEALTH_FILTER_UNCERTAIN :: int where "HEALTH_FILTER_UNCERTAIN = push_bit 8 1"
definition HEALTH_CALIBRATION_MISSING :: int where "HEALTH_CALIBRATION_MISSING = push_bit 9 1"

definition USABLE_FILTER_STATES :: "int list" where
  "USABLE_FILTER_STATES = [NODE_FILTER_STATE_STABLE, NODE_FILTER_STATE_ACCEPTED,
     NODE_FILTER_STATE_TRANSIENT_REJECTED, NODE_FILTER_STATE_CHANGE_CONFIRMED]"

definition UNUSABLE_HEALTH_FLAGS :: int where
  "UNUSABLE_HEALTH_FLAGS =
     HEALTH_SONAR_INVALID OR HEALTH_FILTER_UNCERTAIN OR HEALTH_CALIBRATION_MISSING"

datatype classifier_error = NO_VALID_OBSERVATION_TIMESTAMP

definition uniqueReasonCodes :: "sensor_reason list \<Rightarrow> sensor_reason list" where
  "uniqueReasonCodes rs = js_set rs"

definition unknownState ::
  "deployment \<Rightarrow> int option \<Rightarrow> classification_status \<Rightarrow> sensor_reason list \<Rightarrow> sensor_state_write" where
  "unknownState d telemetryId status reasonCodes = \<lparr>
     st_nodeId = dep_nodeId d,
     st_telemetryId = telemetryId,
     st_observedAt = None,
     st_observationSource = None,
     st_validUntil = None,
     st_referenceDistanceMm = None,
     st_nodeReferenceDistanceMm = None,
     st_acceptedDistanceMm = None,
     st_waterHeightMm = None,
     st_classifiedLevel = UNKNOWN,
     st_classificationStatus = status,
     st_effectiveMultiplier = dep_unknownMultiplier d,
     st_reasonCodes = reasonCodes,
     st_classificationConfigVersion = dep_configVersion d \<rparr>"

definition classifyDirect :: "int \<Rightarrow> ('a) deployment_write_scheme \<Rightarrow> flood_level" where
  "classifyDirect h d =
     (if dep_blockedThresholdMm d \<le> h then BLOCKED
      else if dep_highThresholdMm d \<le> h then HIGH
      else if dep_mediumThresholdMm d \<le> h then MEDIUM
      else LOW)"

definition levels :: "flood_level list" where
  "levels = [LOW, MEDIUM, HIGH, BLOCKED]"

definition upwardThresholds :: "('a) deployment_write_scheme \<Rightarrow> int list" where
  "upwardThresholds d = [dep_mediumThresholdMm d, dep_highThresholdMm d, dep_blockedThresholdMm d]"

text \<open>\<open>levels.indexOf(previousLevel)\<close>; the caller never passes the level outside the list.\<close>

fun level_index :: "flood_level \<Rightarrow> nat" where
  "level_index LOW = 0"
| "level_index MEDIUM = 1"
| "level_index HIGH = 2"
| "level_index BLOCKED = 3"
| "level_index UNKNOWN = 4"

function raise_level :: "int \<Rightarrow> int list \<Rightarrow> nat \<Rightarrow> nat" where
  "raise_level h ts i =
     (if i < length levels - 1 \<and> ts ! i \<le> h then raise_level h ts (i + 1) else i)"
  by pat_completeness auto
termination by (relation "measure (\<lambda>(h, ts, i). length levels - i)") auto

declare raise_level.simps [simp del]

fun lower_level :: "int \<Rightarrow> int list \<Rightarrow> int \<Rightarrow> nat \<Rightarrow> nat" where
  "lower_level h ts hyst i =
     (if 0 < i \<and> h < ts ! (i - 1) - hyst then lower_level h ts hyst (i - 1) else i)"

declare lower_level.simps [simp del]

definition classifyWithHysteresis ::
  "int \<Rightarrow> flood_level \<Rightarrow> ('a) deployment_write_scheme \<Rightarrow> flood_level" where
  "classifyWithHysteresis h previousLevel d =
     (let ts = upwardThresholds d in
      levels ! lower_level h ts (dep_hysteresisMm d) (raise_level h ts (level_index previousLevel)))"

definition isValidDate :: "js_date option \<Rightarrow> bool" where
  "isValidDate v = (case v of None \<Rightarrow> False | Some d \<Rightarrow> valid_date d)"

definition selectObservationTime ::
  "sensor_telemetry \<Rightarrow> (classifier_error, js_date \<times> observation_source) result" where
  "selectObservationTime t =
     (case tel_gatewayReceivedAt t of
        Some g \<Rightarrow>
          if tel_gatewayTimeTrusted t \<and> isValidDate (Some g) then Inr (g, GATEWAY)
          else if \<not> isValidDate (Some (tel_serverReceivedAt t))
            then Inl NO_VALID_OBSERVATION_TIMESTAMP
          else Inr (tel_serverReceivedAt t, SERVER)
      | None \<Rightarrow>
          if \<not> isValidDate (Some (tel_serverReceivedAt t))
            then Inl NO_VALID_OBSERVATION_TIMESTAMP
          else Inr (tel_serverReceivedAt t, SERVER))"

definition unusable_flags :: "deployment \<Rightarrow> int" where
  "unusable_flags d =
     (if dep_referenceDistanceOverrideMm d = None then UNUSABLE_HEALTH_FLAGS
      else UNUSABLE_HEALTH_FLAGS AND NOT HEALTH_CALIBRATION_MISSING)"

definition telemetryReasonCodes :: "deployment \<Rightarrow> sensor_telemetry \<Rightarrow> sensor_reason list" where
  "telemetryReasonCodes d t = uniqueReasonCodes (
     (if dep_referenceDistanceOverrideMm d = None \<and> tel_referenceDistanceMm t = None
      then [R_REFERENCE_DISTANCE_MISSING] else [])
     @ (if tel_acceptedDistanceMm t = None then [R_ACCEPTED_DISTANCE_MISSING] else [])
     @ (if tel_filterState t \<notin> set USABLE_FILTER_STATES then [R_FILTER_INVALID] else [])
     @ (if tel_healthFlags t AND unusable_flags d \<noteq> 0 \<or>
           (tel_acceptedDistanceMm t \<noteq> None \<and>
            tel_qualityFlags t AND QUALITY_ACCEPTED_DISTANCE_VALID = 0)
        then [R_SENSOR_UNHEALTHY] else []))"

definition reference_distance :: "deployment \<Rightarrow> sensor_telemetry \<Rightarrow> int option" where
  "reference_distance d t =
     (case dep_referenceDistanceOverrideMm d of
        None \<Rightarrow> tel_referenceDistanceMm t | Some r \<Rightarrow> Some r)"

definition canUseHysteresis :: "deployment \<Rightarrow> sensor_state option \<Rightarrow> js_date \<Rightarrow> bool" where
  "canUseHysteresis d previousState now =
     (case previousState of
        None \<Rightarrow> False
      | Some p \<Rightarrow>
          st_classificationStatus p = CS_VALID \<and> st_classifiedLevel p \<noteq> UNKNOWN \<and>
          st_classificationConfigVersion p = dep_configVersion d \<and>
          (case st_validUntil p of None \<Rightarrow> False | Some u \<Rightarrow> date_le now u))"

definition deriveSensorState ::
  "deployment \<Rightarrow> sensor_telemetry option \<Rightarrow> sensor_state option \<Rightarrow> js_date \<Rightarrow>
   (classifier_error, sensor_state_write) result" where
  "deriveSensorState d telemetry previousState now =
     (case telemetry of
        None \<Rightarrow>
          Inr (unknownState d None
            (if dep_enabled d then CS_UNKNOWN else CS_DISABLED)
            [if dep_enabled d then R_NO_TELEMETRY else R_DEPLOYMENT_DISABLED])
      | Some t \<Rightarrow> res_bind (selectObservationTime t) (\<lambda>(observedAt, source).
          let validUntil = date_shift observedAt (dep_staleAfterMinutes d * 60000);
              reference = reference_distance d t;
              common = (\<lambda>height level status mult reasons. \<lparr>
                st_nodeId = dep_nodeId d,
                st_telemetryId = Some (tel_id t),
                st_observedAt = Some observedAt,
                st_observationSource = Some source,
                st_validUntil = Some validUntil,
                st_referenceDistanceMm = reference,
                st_nodeReferenceDistanceMm = tel_referenceDistanceMm t,
                st_acceptedDistanceMm = tel_acceptedDistanceMm t,
                st_waterHeightMm = height,
                st_classifiedLevel = level,
                st_classificationStatus = status,
                st_effectiveMultiplier = mult,
                st_reasonCodes = reasons,
                st_classificationConfigVersion = dep_configVersion d \<rparr>) in
          if \<not> dep_enabled d then
            Inr (common None UNKNOWN CS_DISABLED (dep_unknownMultiplier d) [R_DEPLOYMENT_DISABLED])
          else
            let reasonCodes = telemetryReasonCodes d t in
            if 0 < length reasonCodes then
              Inr (common None UNKNOWN CS_UNKNOWN (dep_unknownMultiplier d) reasonCodes)
            else
              let waterHeightMm =
                    max 0 (the reference - the (tel_acceptedDistanceMm t));
                  classifiedLevel =
                    (if canUseHysteresis d previousState now
                     then classifyWithHysteresis waterHeightMm
                       (st_classifiedLevel (the previousState)) d
                     else classifyDirect waterHeightMm d) in
              Inr (common (Some waterHeightMm) classifiedLevel CS_VALID
                (multiplierForLevel d classifiedLevel) [])))"

definition evaluateEffectiveSensorState :: "deployment_with_state \<Rightarrow> js_date \<Rightarrow> effective_state" where
  "evaluateEffectiveSensorState rec now =
     (let d = dws_deployment rec;
          state = (case dws_state rec of
            None \<Rightarrow> unknownState d None CS_UNKNOWN [R_NO_TELEMETRY]
          | Some s \<Rightarrow> sensor_state_write.truncate s);
          base = (\<lambda>level mult freshness fresh reasons. \<lparr>
            ef_deployment = d,
            ef_telemetryId = st_telemetryId state,
            ef_observedAt = st_observedAt state,
            ef_observationSource = st_observationSource state,
            ef_validUntil = st_validUntil state,
            ef_referenceDistanceMm = st_referenceDistanceMm state,
            ef_nodeReferenceDistanceMm = st_nodeReferenceDistanceMm state,
            ef_acceptedDistanceMm = st_acceptedDistanceMm state,
            ef_waterHeightMm = st_waterHeightMm state,
            ef_classifiedLevel = st_classifiedLevel state,
            ef_classificationStatus = st_classificationStatus state,
            ef_effectiveLevel = level,
            ef_effectiveMultiplier = mult,
            ef_freshness = freshness,
            ef_fresh = fresh,
            ef_reasonCodes = reasons,
            ef_classificationConfigVersion = st_classificationConfigVersion state \<rparr>) in
      if \<not> dep_enabled d then
        base UNKNOWN (dep_unknownMultiplier d) DISABLED False [R_DEPLOYMENT_DISABLED]
      else case (st_telemetryId state, st_validUntil state) of
        (Some _, Some validUntil) \<Rightarrow>
          if date_lt validUntil now then
            base UNKNOWN (dep_unknownMultiplier d) STALE False
              (uniqueReasonCodes (st_reasonCodes state @ [R_STALE]))
          else
            base (st_classifiedLevel state) (st_effectiveMultiplier state) FRESH True
              (st_reasonCodes state)
      | _ \<Rightarrow> base UNKNOWN (dep_unknownMultiplier d) NO_TELEMETRY False [R_NO_TELEMETRY])"

section \<open>The order of the levels\<close>

instantiation flood_level :: linorder
begin

definition less_eq_flood_level :: "flood_level \<Rightarrow> flood_level \<Rightarrow> bool" where
  "a \<le> b \<longleftrightarrow> level_index a \<le> level_index b"

definition less_flood_level :: "flood_level \<Rightarrow> flood_level \<Rightarrow> bool" where
  "a < b \<longleftrightarrow> level_index a < level_index b"

instance
proof
  fix x y z :: flood_level
  show "x < y \<longleftrightarrow> x \<le> y \<and> \<not> y \<le> x" "x \<le> x" "x \<le> y \<or> y \<le> x"
    by (auto simp: less_eq_flood_level_def less_flood_level_def)
  show "x \<le> y \<Longrightarrow> y \<le> z \<Longrightarrow> x \<le> z" by (simp add: less_eq_flood_level_def)
  show "x \<le> y \<Longrightarrow> y \<le> x \<Longrightarrow> x = y" by (cases x; cases y) (simp_all add: less_eq_flood_level_def)
qed

end

lemmas level_order = less_eq_flood_level_def less_flood_level_def

section \<open>Classification of a height\<close>

lemma raise_level_eval:
  "raise_level h ts 3 = 3"
  "raise_level h ts 2 = (if ts ! 2 \<le> h then 3 else 2)"
  "raise_level h ts (Suc 0) = (if ts ! Suc 0 \<le> h then raise_level h ts 2 else Suc 0)"
  "raise_level h ts 0 = (if ts ! 0 \<le> h then raise_level h ts (Suc 0) else 0)"
  by (simp_all add: raise_level.simps [of h ts 3] raise_level.simps [of h ts 2]
      raise_level.simps [of h ts "Suc 0"] raise_level.simps [of h ts 0] levels_def
      flip: numeral_2_eq_2)

lemma lower_level_eval:
  "lower_level h ts k 0 = 0"
  "lower_level h ts k (Suc 0) = (if h < ts ! 0 - k then 0 else Suc 0)"
  "lower_level h ts k 2 = (if h < ts ! Suc 0 - k then lower_level h ts k (Suc 0) else 2)"
  "lower_level h ts k 3 = (if h < ts ! 2 - k then lower_level h ts k 2 else 3)"
  by (simp_all add: lower_level.simps [of h ts k 0] lower_level.simps [of h ts k "Suc 0"]
      lower_level.simps [of h ts k 2] lower_level.simps [of h ts k 3])

lemmas level_loops = raise_level_eval lower_level_eval

lemma classifyDirect_known [simp]: "classifyDirect h d \<noteq> UNKNOWN"
  by (simp add: classifyDirect_def)

lemma classifyDirect_mono:
  "thresholds_ok d \<Longrightarrow> h \<le> h' \<Longrightarrow> classifyDirect h d \<le> classifyDirect h' d"
  by (auto simp: classifyDirect_def thresholds_ok_def level_order)

lemma hysteresis_levels:
  assumes "thresholds_ok d" and "p \<noteq> UNKNOWN"
  shows "classifyWithHysteresis h p d =
    max (classifyDirect h d) (min p (classifyDirect (h + dep_hysteresisMm d) d))"
proof -
  have ts: "upwardThresholds d ! 0 = dep_mediumThresholdMm d"
    "upwardThresholds d ! Suc 0 = dep_highThresholdMm d"
    "upwardThresholds d ! 2 = dep_blockedThresholdMm d"
    by (simp_all add: upwardThresholds_def)
  show ?thesis
    using assms
    by (cases p)
      (auto simp: classifyWithHysteresis_def Let_def level_loops ts classifyDirect_def
        thresholds_ok_def levels_def max_def min_def level_order)
qed

lemma lower_level_le: "lower_level h ts k i \<le> i"
proof (induction h ts k i rule: lower_level.induct)
  case (1 h ts k i)
  then show ?case by (subst lower_level.simps) (auto intro: le_trans)
qed

lemma raise_level_le: "i \<le> 3 \<Longrightarrow> raise_level h ts i \<le> 3"
proof (induction h ts i rule: raise_level.induct)
  case (1 h ts i)
  then show ?case by (subst raise_level.simps) (auto simp: levels_def)
qed

lemma levels_nth_known: "i \<le> 3 \<Longrightarrow> levels ! i \<noteq> UNKNOWN"
  by (auto simp: levels_def le_Suc_eq numeral_nat)

lemma hysteresis_known [simp]: "p \<noteq> UNKNOWN \<Longrightarrow> classifyWithHysteresis h p d \<noteq> UNKNOWN"
proof -
  assume "p \<noteq> UNKNOWN"
  then have "level_index p \<le> 3" by (cases p) auto
  then have "lower_level h (upwardThresholds d) (dep_hysteresisMm d)
      (raise_level h (upwardThresholds d) (level_index p)) \<le> 3"
    by (meson lower_level_le raise_level_le le_trans)
  then show ?thesis by (simp add: classifyWithHysteresis_def Let_def levels_nth_known)
qed

section \<open>The derived state\<close>

definition state_consistent :: "deployment \<Rightarrow> ('a) sensor_state_write_scheme \<Rightarrow> bool" where
  "state_consistent d s \<longleftrightarrow>
     st_nodeId s = dep_nodeId d \<and>
     st_classificationConfigVersion s = dep_configVersion d \<and>
     st_effectiveMultiplier s = multiplierForLevel d (st_classifiedLevel s) \<and>
     (st_classificationStatus s = CS_VALID \<longleftrightarrow> st_classifiedLevel s \<noteq> UNKNOWN) \<and>
     (st_classificationStatus s = CS_VALID \<longleftrightarrow> st_reasonCodes s = []) \<and>
     (st_classificationStatus s = CS_DISABLED \<longleftrightarrow> \<not> dep_enabled d) \<and>
     (st_classificationStatus s = CS_VALID \<longleftrightarrow> st_waterHeightMm s \<noteq> None) \<and>
     distinct (st_reasonCodes s) \<and>
     (st_telemetryId s = None \<longleftrightarrow> st_validUntil s = None) \<and>
     (\<forall>h. st_waterHeightMm s = Some h \<longrightarrow> 0 \<le> h \<and> (\<exists>r a. st_referenceDistanceMm s = Some r \<and>
        st_acceptedDistanceMm s = Some a \<and> h = max 0 (r - a)))"

lemma no_reasons:
  assumes "telemetryReasonCodes d t = []"
  shows "\<exists>r. reference_distance d t = Some r" "\<exists>a. tel_acceptedDistanceMm t = Some a"
proof -
  have "set (telemetryReasonCodes d t) = {}" using assms by simp
  then show "\<exists>r. reference_distance d t = Some r" "\<exists>a. tel_acceptedDistanceMm t = Some a"
    by (auto simp: telemetryReasonCodes_def uniqueReasonCodes_def reference_distance_def
        split: if_splits option.splits)
qed

lemma distinct_reasons [simp]: "distinct (telemetryReasonCodes d t)"
  by (simp add: telemetryReasonCodes_def uniqueReasonCodes_def)

lemma hysteresis_previous_known: "canUseHysteresis d p now \<Longrightarrow> st_classifiedLevel (the p) \<noteq> UNKNOWN"
  by (auto simp: canUseHysteresis_def split: option.splits)

lemma derive_consistent:
  assumes "deriveSensorState d t p now = Inr s"
  shows "state_consistent d s"
proof (cases t)
  case None
  with assms show ?thesis
    by (auto simp: deriveSensorState_def unknownState_def state_consistent_def split: if_splits)
next
  case (Some tel)
  show ?thesis
  proof (cases "dep_enabled d \<and> telemetryReasonCodes d tel = []")
    case True
    then obtain r a where "reference_distance d tel = Some r" "tel_acceptedDistanceMm tel = Some a"
      using no_reasons by metis
    with True Some assms show ?thesis
      by (auto simp: deriveSensorState_def res_bind_Inr state_consistent_def Let_def
          hysteresis_previous_known split: if_splits)
  next
    case False
    with Some assms show ?thesis
      by (auto simp: deriveSensorState_def res_bind_Inr state_consistent_def Let_def
          split: if_splits)
  qed
qed

lemma select_observation_fails:
  "selectObservationTime t = Inl e \<longleftrightarrow>
     \<not> (tel_gatewayTimeTrusted t \<and> isValidDate (tel_gatewayReceivedAt t)) \<and>
     \<not> valid_date (tel_serverReceivedAt t)"
  by (cases e) (auto simp: selectObservationTime_def isValidDate_def split: option.splits)

lemma select_observation_valid:
  "selectObservationTime t = Inr (obs, src) \<Longrightarrow> valid_date obs"
  by (auto simp: selectObservationTime_def isValidDate_def split: option.splits if_splits)

lemma derive_fails_iff:
  "deriveSensorState d telemetry p now = Inl e \<longleftrightarrow>
     (\<exists>t. telemetry = Some t \<and> selectObservationTime t = Inl e)"
  by (cases telemetry) (auto simp: deriveSensorState_def res_bind_Inl Let_def split: prod.splits)

section \<open>Properties\<close>

text \<open>
  C2: The two loops of the hysteresis classifier compute the level that rises at once and falls
  late: the higher of the direct level of the height and the previous level capped by the level
  the height would have with the hysteresis added, so a level is left downwards only when the
  height is below its release boundary.
\<close>

theorem hysteresis_spec:
  assumes "thresholds_ok d" and "p \<noteq> UNKNOWN"
  shows "classifyWithHysteresis h p d =
    max (classifyDirect h d) (min p (classifyDirect (h + dep_hysteresisMm d) d))"
  using assms by (rule hysteresis_levels)

theorem hysteresis_spec_witness:
  "thresholds_ok sample_deployment \<and> HIGH \<noteq> UNKNOWN \<and>
   classifyWithHysteresis 190 HIGH sample_deployment =
     max (classifyDirect 190 sample_deployment)
       (min HIGH (classifyDirect (190 + dep_hysteresisMm sample_deployment) sample_deployment)) \<and>
   classifyWithHysteresis 190 HIGH sample_deployment = HIGH \<and>
   classifyWithHysteresis 179 HIGH sample_deployment = MEDIUM"
proof -
  have known: "HIGH \<noteq> UNKNOWN" by simp
  note spec = hysteresis_spec [OF sample_deployment_ok(1) known]
  show ?thesis
    using sample_deployment_ok(1) known spec [of 190] spec [of 179]
    by (simp add: classifyDirect_def sample_deployment_def max_def min_def level_order)
qed

text \<open>
  Hysteresis never understates a level and does not flap: the result is at least the direct
  level and at most the level with the hysteresis added, a second evaluation at the same height
  changes nothing, and a greater height never gives a lower level.
\<close>

theorem hysteresis_stable:
  assumes "thresholds_ok d" and "p \<noteq> UNKNOWN" and "h \<le> h'"
  shows "classifyDirect h d \<le> classifyWithHysteresis h p d \<and>
    classifyWithHysteresis h p d \<le> classifyDirect (h + dep_hysteresisMm d) d \<and>
    classifyWithHysteresis h (classifyWithHysteresis h p d) d = classifyWithHysteresis h p d \<and>
    classifyWithHysteresis h p d \<le> classifyWithHysteresis h' p d"
proof -
  have hyst: "h \<le> h + dep_hysteresisMm d" using assms(1) by (simp add: thresholds_ok_def)
  note mono = classifyDirect_mono [OF assms(1)]
  note eq = hysteresis_levels [OF assms(1,2)]
  have known: "max (classifyDirect h d) (min p (classifyDirect (h + dep_hysteresisMm d) d)) \<noteq> UNKNOWN"
    using hysteresis_known [OF assms(2), of h d] by (simp add: eq)
  have "classifyDirect h d \<le> classifyDirect h' d"
    "classifyDirect (h + dep_hysteresisMm d) d \<le> classifyDirect (h' + dep_hysteresisMm d) d"
    "classifyDirect h d \<le> classifyDirect (h + dep_hysteresisMm d) d"
    using mono hyst assms(3) by auto
  then show ?thesis
    by (simp add: hysteresis_levels [OF assms(1) known] eq)
      (auto simp: max_def min_def)
qed

theorem hysteresis_stable_witness:
  "classifyWithHysteresis 190 HIGH sample_deployment \<le> classifyWithHysteresis 305 HIGH sample_deployment"
  using hysteresis_stable [OF sample_deployment_ok(1), of HIGH 190 305] by simp

text \<open>
  C3: The state derived for a deployment is consistent: it carries the deployment's node and
  configuration version, its multiplier is the one configured for its level, it is VALID exactly
  when it has a level, a water height and no reason code, DISABLED exactly when the deployment is
  disabled, and a water height is the reference distance minus the accepted distance, clipped at 0.
\<close>

theorem derived_state_consistent:
  assumes "deriveSensorState d telemetry previousState now = Inr s"
  shows "state_consistent d s"
  using assms by (rule derive_consistent)

theorem derived_state_consistent_witness:
  "\<exists>s. deriveSensorState sample_deployment (Some sample_telemetry) None (Date 3000) = Inr s \<and>
     state_consistent sample_deployment s \<and> st_classifiedLevel s = HIGH \<and> st_waterHeightMm s = Some 250"
proof -
  have eval: "deriveSensorState sample_deployment (Some sample_telemetry) None (Date 3000) =
    Inr \<lparr>st_nodeId = ''node-1'', st_telemetryId = Some 7, st_observedAt = Some (Date 1000),
      st_observationSource = Some GATEWAY, st_validUntil = Some (Date 1801000),
      st_referenceDistanceMm = Some 1000, st_nodeReferenceDistanceMm = Some 1000,
      st_acceptedDistanceMm = Some 750, st_waterHeightMm = Some 250, st_classifiedLevel = HIGH,
      st_classificationStatus = CS_VALID, st_effectiveMultiplier = Fin (1 / 4),
      st_reasonCodes = [], st_classificationConfigVersion = 1\<rparr>"
    by code_simp
  show ?thesis using derived_state_consistent [OF eval] eval by simp
qed

text \<open>
  Deriving a state fails only for a telemetry record without any valid observation time;
  otherwise the state is VALID exactly when the deployment is enabled and the reading has a
  reference distance (or an override), an accepted distance, a usable filter state, none of the
  disqualifying health flags and the quality flag that marks the accepted distance valid.
\<close>

theorem derived_state_valid_iff:
  assumes "deriveSensorState d (Some t) previousState now = Inr s"
  shows "st_classificationStatus s = CS_VALID \<longleftrightarrow>
    dep_enabled d \<and>
    (dep_referenceDistanceOverrideMm d \<noteq> None \<or> tel_referenceDistanceMm t \<noteq> None) \<and>
    tel_acceptedDistanceMm t \<noteq> None \<and> tel_filterState t \<in> {0, 1, 4, 5} \<and>
    tel_healthFlags t AND (if dep_referenceDistanceOverrideMm d = None then 769 else 257) = 0 \<and>
    tel_qualityFlags t AND 4 \<noteq> 0"
proof -
  have flags: "unusable_flags d = (if dep_referenceDistanceOverrideMm d = None then 769 else 257)"
    "QUALITY_ACCEPTED_DISTANCE_VALID = 4" "set USABLE_FILTER_STATES = {0, 1, 4, 5}"
    by (simp_all add: unusable_flags_def UNUSABLE_HEALTH_FLAGS_def HEALTH_SONAR_INVALID_def
        HEALTH_FILTER_UNCERTAIN_def HEALTH_CALIBRATION_MISSING_def QUALITY_ACCEPTED_DISTANCE_VALID_def
        USABLE_FILTER_STATES_def NODE_FILTER_STATE_STABLE_def NODE_FILTER_STATE_ACCEPTED_def
        NODE_FILTER_STATE_TRANSIENT_REJECTED_def NODE_FILTER_STATE_CHANGE_CONFIRMED_def)
  have "st_classificationStatus s = CS_VALID \<longleftrightarrow> dep_enabled d \<and> telemetryReasonCodes d t = []"
    using assms by (auto simp: deriveSensorState_def res_bind_Inr Let_def split: if_splits)
  then show ?thesis
    unfolding telemetryReasonCodes_def uniqueReasonCodes_def js_set_Nil_iff append_is_Nil_conv flags
    by (simp only: if_split_eq1 list.simps simp_thms de_Morgan_conj de_Morgan_disj not_not) blast
qed

theorem derived_state_valid_iff_witness:
  "\<exists>s. deriveSensorState sample_deployment (Some (sample_telemetry\<lparr>tel_healthFlags := 512\<rparr>)) None
     (Date 3000) = Inr s \<and> st_classificationStatus s = CS_UNKNOWN \<and>
     (st_classificationStatus s = CS_VALID \<longleftrightarrow> (512 :: int) AND 769 = 0)"
proof -
  let ?t = "sample_telemetry\<lparr>tel_healthFlags := 512\<rparr>"
  have "selectObservationTime ?t = Inr (Date 1000, GATEWAY)" by code_simp
  then obtain s where s: "deriveSensorState sample_deployment (Some ?t) None (Date 3000) = Inr s"
    using derive_fails_iff [of sample_deployment "Some ?t" None "Date 3000"]
    by (metis Inl_Inr_False old.sum.exhaust option.inject)
  have flag: "(512 :: int) AND 769 = 512" by code_simp
  have "st_classificationStatus s \<noteq> CS_VALID"
    using derived_state_valid_iff [OF s] flag by (simp add: sample_telemetry_def sample_deployment_def)
  moreover have "st_classificationStatus s \<noteq> CS_DISABLED"
    using derive_consistent [OF s] by (simp add: state_consistent_def sample_deployment_def)
  ultimately have "st_classificationStatus s = CS_UNKNOWN" by (cases "st_classificationStatus s") auto
  then show ?thesis using s flag by simp
qed

text \<open>
  The effective state is never better than the data allows: it is fresh exactly when the
  deployment is enabled and its stored state has telemetry whose validity has not passed; in every
  other case its level is UNKNOWN and its multiplier the configured unknown multiplier, and the
  freshness names the case.
\<close>

theorem effective_state_fresh_iff:
  "(let e = evaluateEffectiveSensorState r now; d = dws_deployment r in
     (ef_fresh e \<longleftrightarrow> dep_enabled d \<and> (\<exists>s u. dws_state r = Some s \<and> st_telemetryId s \<noteq> None \<and>
        st_validUntil s = Some u \<and> \<not> date_lt u now \<and>
        ef_effectiveLevel e = st_classifiedLevel s \<and>
        ef_effectiveMultiplier e = st_effectiveMultiplier s)) \<and>
     (ef_fresh e = (ef_freshness e = FRESH)) \<and>
     (ef_fresh e \<or> (ef_effectiveLevel e = UNKNOWN \<and> ef_effectiveMultiplier e = dep_unknownMultiplier d \<and>
        ef_reasonCodes e \<noteq> [])) \<and>
     (ef_freshness e = DISABLED \<longleftrightarrow> \<not> dep_enabled d))"
proof -
  have stale: "uniqueReasonCodes (rs @ [R_STALE]) \<noteq> []" for rs
    by (simp add: uniqueReasonCodes_def)
  show ?thesis
    by (cases "dws_state r")
      (auto simp: evaluateEffectiveSensorState_def unknownState_def Let_def stale
        sensor_state_write.defs split: option.splits)
qed

end
