(* ===== verification/Node_Protocol.thy ===== *)
theory Node_Protocol
  imports Js_String
begin

text \<open>
  The Protocol 3 telemetry decoder, \<^verbatim>\<open>src/src/iot/protocol/node-protocol-v3.ts\<close>. A packet is a
  list of bytes; the decoder's checks are made in the order of the source, each with its error
  code. \<open>encode_telemetry\<close> is the wire format the decoder documents: the lemmas show
  that the decoder accepts exactly the encodings of well-formed readings and returns the
  reading that was encoded, and that the Base64 entry point accepts exactly the canonical
  Base64 texts of such packets.
\<close>

section \<open>Constants\<close>

definition NODE_PROTOCOL_V3 :: int where "NODE_PROTOCOL_V3 = 3"
definition NODE_TELEMETRY_TYPE :: int where "NODE_TELEMETRY_TYPE = 1"
definition NODE_MAX_RADIO_PACKET_BYTES :: nat where "NODE_MAX_RADIO_PACKET_BYTES = 96"
definition NODE_MAX_ID_LENGTH :: nat where "NODE_MAX_ID_LENGTH = 24"
definition NODE_COMMON_HEADER_FIXED_BYTES :: nat where "NODE_COMMON_HEADER_FIXED_BYTES = 5"

definition NODE_REFERENCE_DISTANCE_PAYLOAD_OFFSET :: nat where
  "NODE_REFERENCE_DISTANCE_PAYLOAD_OFFSET = 53"

definition NODE_REFERENCE_DISTANCE_BYTES :: nat where "NODE_REFERENCE_DISTANCE_BYTES = 4"

definition NODE_TELEMETRY_PAYLOAD_BYTES :: nat where
  "NODE_TELEMETRY_PAYLOAD_BYTES =
     NODE_REFERENCE_DISTANCE_PAYLOAD_OFFSET + NODE_REFERENCE_DISTANCE_BYTES"

definition NODE_TELEMETRY_FIXED_BYTES :: nat where
  "NODE_TELEMETRY_FIXED_BYTES = NODE_COMMON_HEADER_FIXED_BYTES + NODE_TELEMETRY_PAYLOAD_BYTES"

definition UINT32_MAX :: int where "UINT32_MAX = 0xffffffff"
definition INT16_MIN :: int where "INT16_MIN = - 0x8000"
definition UINT16_MAX :: int where "UINT16_MAX = 0xffff"

definition FILTER_STATE_NAMES :: "string list" where
  "FILTER_STATE_NAMES = [''STABLE'', ''ACCEPTED'', ''VERIFY_RISE'', ''VERIFY_FALL'',
     ''TRANSIENT_REJECTED'', ''CHANGE_CONFIRMED'', ''UNCERTAIN'', ''INVALID'']"

lemmas protocol_constants =
  NODE_PROTOCOL_V3_def NODE_TELEMETRY_TYPE_def NODE_MAX_RADIO_PACKET_BYTES_def
  NODE_MAX_ID_LENGTH_def NODE_COMMON_HEADER_FIXED_BYTES_def
  NODE_REFERENCE_DISTANCE_PAYLOAD_OFFSET_def NODE_REFERENCE_DISTANCE_BYTES_def
  NODE_TELEMETRY_PAYLOAD_BYTES_def NODE_TELEMETRY_FIXED_BYTES_def UINT32_MAX_def INT16_MIN_def
  UINT16_MAX_def FILTER_STATE_NAMES_def

section \<open>The decoded reading and the decoder\<close>

record decoded_telemetry =
  t3_nodeId :: string
  t3_persistentSessionId :: int
  t3_sequence :: int
  t3_medianEchoUs :: int
  t3_rawDistanceMm :: "int option"
  t3_acceptedDistanceMm :: "int option"
  t3_referenceDistanceMm :: "int option"
  t3_madMm :: int
  t3_temperatureCentiC :: "int option"
  t3_humidityCentiPercent :: "int option"
  t3_batteryMv :: int
  t3_validSamples :: int
  t3_totalSamples :: int
  t3_filterState :: int
  t3_qualityFlags :: int
  t3_healthFlags :: int
  t3_bootReason :: int
  t3_rtcState :: int
  t3_rtcUnixTime :: "int option"
  t3_pollIntervalMinutes :: int
  t3_scheduleState :: int
  t3_scheduledMaintenanceUnix :: "int option"
  t3_lastCommandId :: "int option"
  t3_lastCommandType :: int
  t3_lastCommandResult :: int
  t3_rawPayload :: "byte list"

datatype node_decode_error =
    INVALID_BASE64
  | PACKET_TOO_LARGE
  | TRUNCATED
  | BAD_MAGIC
  | UNSUPPORTED_VERSION
  | WRONG_TYPE
  | INVALID_NODE_ID
  | TRAILING_DATA
  | INVALID_FILTER_STATE
  | INVALID_ENUM
  | INVALID_FLAGS

definition node_id_byte :: "byte \<Rightarrow> bool" where
  "node_id_byte b = (let value = uint b in
     (0x41 \<le> value \<and> value \<le> 0x5a) \<or> (0x61 \<le> value \<and> value \<le> 0x7a) \<or>
     (0x30 \<le> value \<and> value \<le> 0x39) \<or> value = 0x5f \<or> value = 0x2d)"

definition null_if :: "int \<Rightarrow> int \<Rightarrow> int option" where
  "null_if sentinel v = (if v = sentinel then None else Some v)"

definition decodeNodeTelemetryV3 :: "byte list \<Rightarrow> (node_decode_error, decoded_telemetry) result" where
  "decodeNodeTelemetryV3 raw =
     (if NODE_MAX_RADIO_PACKET_BYTES < length raw then Inl PACKET_TOO_LARGE
      else if length raw < NODE_COMMON_HEADER_FIXED_BYTES then Inl TRUNCATED
      else if uint (raw ! 0) \<noteq> 0x47 \<or> uint (raw ! 1) \<noteq> 0x54 then Inl BAD_MAGIC
      else if uint (raw ! 2) \<noteq> NODE_PROTOCOL_V3 then Inl UNSUPPORTED_VERSION
      else if uint (raw ! 3) \<noteq> NODE_TELEMETRY_TYPE then Inl WRONG_TYPE
      else
        let nodeIdLength = unat (raw ! 4) in
        if nodeIdLength < 1 \<or> NODE_MAX_ID_LENGTH < nodeIdLength then Inl INVALID_NODE_ID
        else
          let expectedLength = NODE_TELEMETRY_FIXED_BYTES + nodeIdLength in
          if length raw < expectedLength then Inl TRUNCATED
          else if expectedLength < length raw then Inl TRAILING_DATA
          else
            let nodeIdBytes = take nodeIdLength (drop 5 raw) in
            if \<not> list_all node_id_byte nodeIdBytes then Inl INVALID_NODE_ID
            else
              let offset = 5 + nodeIdLength;
                  filterState = uint (raw ! (offset + 30)) in
              if int (length FILTER_STATE_NAMES) \<le> filterState then Inl INVALID_FILTER_STATE
              else
                let bootReason = uint (raw ! (offset + 35));
                    rtcState = uint (raw ! (offset + 36));
                    scheduleState = uint (raw ! (offset + 42));
                    lastCommandType = uint (raw ! (offset + 51));
                    lastCommandResult = uint (raw ! (offset + 52)) in
                if 5 < bootReason \<or> 3 < rtcState \<or> 3 < scheduleState \<or> 3 < lastCommandType \<or>
                   (7 < lastCommandResult \<and> lastCommandResult \<noteq> 0xff)
                then Inl INVALID_ENUM
                else
                  let rtcUnix = read_u32 raw (offset + 37);
                      pollIntervalMinutes = uint (raw ! (offset + 41));
                      scheduledMaintenanceUnix = read_u32 raw (offset + 43);
                      lastCommandId = read_u32 raw (offset + 47) in
                  if pollIntervalMinutes = 0 \<or> (rtcState \<noteq> 0 \<and> rtcUnix \<noteq> 0) \<or>
                     (scheduleState = 0 \<and> scheduledMaintenanceUnix \<noteq> 0) \<or>
                     (lastCommandType = 0 \<and> lastCommandId \<noteq> 0)
                  then Inl INVALID_FLAGS
                  else Inr \<lparr>
                    t3_nodeId = map char_of_byte nodeIdBytes,
                    t3_persistentSessionId = read_u32 raw (offset + 0),
                    t3_sequence = read_u32 raw (offset + 4),
                    t3_medianEchoUs = read_u32 raw (offset + 8),
                    t3_rawDistanceMm = null_if UINT32_MAX (read_u32 raw (offset + 12)),
                    t3_acceptedDistanceMm = null_if UINT32_MAX (read_u32 raw (offset + 16)),
                    t3_referenceDistanceMm =
                      null_if 0 (read_u32 raw (offset + NODE_REFERENCE_DISTANCE_PAYLOAD_OFFSET)),
                    t3_madMm = read_u16 raw (offset + 20),
                    t3_temperatureCentiC = null_if INT16_MIN (read_i16 raw (offset + 22)),
                    t3_humidityCentiPercent = null_if UINT16_MAX (read_u16 raw (offset + 24)),
                    t3_batteryMv = read_u16 raw (offset + 26),
                    t3_validSamples = uint (raw ! (offset + 28)),
                    t3_totalSamples = uint (raw ! (offset + 29)),
                    t3_filterState = filterState,
                    t3_qualityFlags = read_u16 raw (offset + 31),
                    t3_healthFlags = read_u16 raw (offset + 33),
                    t3_bootReason = bootReason,
                    t3_rtcState = rtcState,
                    t3_rtcUnixTime = (if rtcState = 0 then Some rtcUnix else None),
                    t3_pollIntervalMinutes = pollIntervalMinutes,
                    t3_scheduleState = scheduleState,
                    t3_scheduledMaintenanceUnix = null_if 0 scheduledMaintenanceUnix,
                    t3_lastCommandId = null_if 0 lastCommandId,
                    t3_lastCommandType = lastCommandType,
                    t3_lastCommandResult = lastCommandResult,
                    t3_rawPayload = raw \<rparr>)"

definition decodeNodeTelemetryV3Base64 ::
  "string \<Rightarrow> (node_decode_error, decoded_telemetry) result" where
  "decodeNodeTelemetryV3Base64 encoded =
     (if length encoded = 0 \<or> length encoded mod 4 \<noteq> 0 \<or> \<not> b64_pattern encoded
      then Inl INVALID_BASE64
      else case b64_decode encoded of
        None \<Rightarrow> Inl INVALID_BASE64
      | Some rawPayload \<Rightarrow>
          if b64_encode rawPayload \<noteq> encoded then Inl INVALID_BASE64
          else decodeNodeTelemetryV3 rawPayload)"

section \<open>The wire format\<close>

definition telemetry_header :: "decoded_telemetry \<Rightarrow> byte list" where
  "telemetry_header t = [0x47, 0x54, 3, 1, byte0 (int (length (t3_nodeId t)))]"

definition bytes_u8 :: "int \<Rightarrow> byte list" where "bytes_u8 v = [byte0 v]"

definition telemetry_payload :: "decoded_telemetry \<Rightarrow> byte list" where
  "telemetry_payload t =
     bytes_u32 (t3_persistentSessionId t) @ bytes_u32 (t3_sequence t)
     @ bytes_u32 (t3_medianEchoUs t)
     @ bytes_u32 (case t3_rawDistanceMm t of None \<Rightarrow> UINT32_MAX | Some v \<Rightarrow> v)
     @ bytes_u32 (case t3_acceptedDistanceMm t of None \<Rightarrow> UINT32_MAX | Some v \<Rightarrow> v)
     @ bytes_u16 (t3_madMm t)
     @ bytes_u16 (of_signed16 (case t3_temperatureCentiC t of None \<Rightarrow> INT16_MIN | Some v \<Rightarrow> v))
     @ bytes_u16 (case t3_humidityCentiPercent t of None \<Rightarrow> UINT16_MAX | Some v \<Rightarrow> v)
     @ bytes_u16 (t3_batteryMv t)
     @ bytes_u8 (t3_validSamples t) @ bytes_u8 (t3_totalSamples t) @ bytes_u8 (t3_filterState t)
     @ bytes_u16 (t3_qualityFlags t) @ bytes_u16 (t3_healthFlags t)
     @ bytes_u8 (t3_bootReason t) @ bytes_u8 (t3_rtcState t)
     @ bytes_u32 (case t3_rtcUnixTime t of None \<Rightarrow> 0 | Some v \<Rightarrow> v)
     @ bytes_u8 (t3_pollIntervalMinutes t) @ bytes_u8 (t3_scheduleState t)
     @ bytes_u32 (case t3_scheduledMaintenanceUnix t of None \<Rightarrow> 0 | Some v \<Rightarrow> v)
     @ bytes_u32 (case t3_lastCommandId t of None \<Rightarrow> 0 | Some v \<Rightarrow> v)
     @ bytes_u8 (t3_lastCommandType t) @ bytes_u8 (t3_lastCommandResult t)
     @ bytes_u32 (case t3_referenceDistanceMm t of None \<Rightarrow> 0 | Some v \<Rightarrow> v)"

definition encode_telemetry :: "decoded_telemetry \<Rightarrow> byte list" where
  "encode_telemetry t =
     telemetry_header t @ map byte_of_char (t3_nodeId t) @ telemetry_payload t"

definition is_u8 :: "int \<Rightarrow> bool" where "is_u8 v = (0 \<le> v \<and> v < 256)"
definition is_u16 :: "int \<Rightarrow> bool" where "is_u16 v = (0 \<le> v \<and> v < 65536)"
definition is_u32 :: "int \<Rightarrow> bool" where "is_u32 v = (0 \<le> v \<and> v < 4294967296)"

fun opt_u32 :: "int \<Rightarrow> int option \<Rightarrow> bool" where
  "opt_u32 sentinel None = True"
| "opt_u32 sentinel (Some v) = (is_u32 v \<and> v \<noteq> sentinel)"

text \<open>The readings the wire format can carry.\<close>

definition wf_telemetry :: "decoded_telemetry \<Rightarrow> bool" where
  "wf_telemetry t = (
     id_pattern NODE_MAX_ID_LENGTH (t3_nodeId t) \<and>
     is_u32 (t3_persistentSessionId t) \<and> is_u32 (t3_sequence t) \<and> is_u32 (t3_medianEchoUs t) \<and>
     opt_u32 UINT32_MAX (t3_rawDistanceMm t) \<and> opt_u32 UINT32_MAX (t3_acceptedDistanceMm t) \<and>
     opt_u32 0 (t3_referenceDistanceMm t) \<and> is_u16 (t3_madMm t) \<and>
     (case t3_temperatureCentiC t of None \<Rightarrow> True | Some v \<Rightarrow> - 32768 < v \<and> v < 32768) \<and>
     (case t3_humidityCentiPercent t of None \<Rightarrow> True | Some v \<Rightarrow> 0 \<le> v \<and> v < 65535) \<and>
     is_u16 (t3_batteryMv t) \<and> is_u8 (t3_validSamples t) \<and> is_u8 (t3_totalSamples t) \<and>
     0 \<le> t3_filterState t \<and> t3_filterState t < 8 \<and>
     is_u16 (t3_qualityFlags t) \<and> is_u16 (t3_healthFlags t) \<and>
     0 \<le> t3_bootReason t \<and> t3_bootReason t \<le> 5 \<and> 0 \<le> t3_rtcState t \<and> t3_rtcState t \<le> 3 \<and>
     (case t3_rtcUnixTime t of None \<Rightarrow> t3_rtcState t \<noteq> 0 | Some v \<Rightarrow> t3_rtcState t = 0 \<and> is_u32 v) \<and>
     0 < t3_pollIntervalMinutes t \<and> t3_pollIntervalMinutes t < 256 \<and>
     0 \<le> t3_scheduleState t \<and> t3_scheduleState t \<le> 3 \<and>
     opt_u32 0 (t3_scheduledMaintenanceUnix t) \<and>
     (t3_scheduleState t = 0 \<longrightarrow> t3_scheduledMaintenanceUnix t = None) \<and>
     0 \<le> t3_lastCommandType t \<and> t3_lastCommandType t \<le> 3 \<and> opt_u32 0 (t3_lastCommandId t) \<and>
     (t3_lastCommandType t = 0 \<longrightarrow> t3_lastCommandId t = None) \<and>
     ((0 \<le> t3_lastCommandResult t \<and> t3_lastCommandResult t \<le> 7) \<or> t3_lastCommandResult t = 0xff) \<and>
     t3_rawPayload t = encode_telemetry t)"

section \<open>The decoder and the wire format\<close>

text \<open>The checks and the result of the decoder, over the payload that follows the node id.\<close>

definition payload_ok :: "byte list \<Rightarrow> bool" where
  "payload_ok pl \<longleftrightarrow>
     uint (pl ! 30) < 8 \<and> uint (pl ! 35) \<le> 5 \<and> uint (pl ! 36) \<le> 3 \<and> uint (pl ! 42) \<le> 3 \<and>
     uint (pl ! 51) \<le> 3 \<and> (uint (pl ! 52) \<le> 7 \<or> uint (pl ! 52) = 0xff) \<and>
     uint (pl ! 41) \<noteq> 0 \<and> (uint (pl ! 36) \<noteq> 0 \<longrightarrow> read_u32 pl 37 = 0) \<and>
     (uint (pl ! 42) = 0 \<longrightarrow> read_u32 pl 43 = 0) \<and>
     (uint (pl ! 51) = 0 \<longrightarrow> read_u32 pl 47 = 0)"

definition payload_reading :: "byte list \<Rightarrow> byte list \<Rightarrow> byte list \<Rightarrow> decoded_telemetry" where
  "payload_reading raw idb pl = \<lparr>
     t3_nodeId = map char_of_byte idb,
     t3_persistentSessionId = read_u32 pl 0,
     t3_sequence = read_u32 pl 4,
     t3_medianEchoUs = read_u32 pl 8,
     t3_rawDistanceMm = null_if UINT32_MAX (read_u32 pl 12),
     t3_acceptedDistanceMm = null_if UINT32_MAX (read_u32 pl 16),
     t3_referenceDistanceMm = null_if 0 (read_u32 pl 53),
     t3_madMm = read_u16 pl 20,
     t3_temperatureCentiC = null_if INT16_MIN (read_i16 pl 22),
     t3_humidityCentiPercent = null_if UINT16_MAX (read_u16 pl 24),
     t3_batteryMv = read_u16 pl 26,
     t3_validSamples = uint (pl ! 28),
     t3_totalSamples = uint (pl ! 29),
     t3_filterState = uint (pl ! 30),
     t3_qualityFlags = read_u16 pl 31,
     t3_healthFlags = read_u16 pl 33,
     t3_bootReason = uint (pl ! 35),
     t3_rtcState = uint (pl ! 36),
     t3_rtcUnixTime = (if uint (pl ! 36) = 0 then Some (read_u32 pl 37) else None),
     t3_pollIntervalMinutes = uint (pl ! 41),
     t3_scheduleState = uint (pl ! 42),
     t3_scheduledMaintenanceUnix = null_if 0 (read_u32 pl 43),
     t3_lastCommandId = null_if 0 (read_u32 pl 47),
     t3_lastCommandType = uint (pl ! 51),
     t3_lastCommandResult = uint (pl ! 52),
     t3_rawPayload = raw \<rparr>"

definition packet_header :: "nat \<Rightarrow> byte list" where
  "packet_header n = [0x47, 0x54, 3, 1, byte0 (int n)]"

lemma length_packet_header [simp]: "length (packet_header n) = 5"
  by (simp add: packet_header_def)

lemma read_i16_append: "read_i16 (xs @ ys) (length xs + k) = read_i16 ys k"
  by (simp add: read_i16_def read_append)

text \<open>The part of the decoder after the packet's length has been checked, over the payload.\<close>

definition decode_payload ::
  "byte list \<Rightarrow> byte list \<Rightarrow> byte list \<Rightarrow> (node_decode_error, decoded_telemetry) result" where
  "decode_payload raw idb pl =
     (if \<not> list_all node_id_byte idb then Inl INVALID_NODE_ID
      else if 8 \<le> uint (pl ! 30) then Inl INVALID_FILTER_STATE
      else if 5 < uint (pl ! 35) \<or> 3 < uint (pl ! 36) \<or> 3 < uint (pl ! 42) \<or> 3 < uint (pl ! 51) \<or>
        (7 < uint (pl ! 52) \<and> uint (pl ! 52) \<noteq> 0xff) then Inl INVALID_ENUM
      else if uint (pl ! 41) = 0 \<or> (uint (pl ! 36) \<noteq> 0 \<and> read_u32 pl 37 \<noteq> 0) \<or>
        (uint (pl ! 42) = 0 \<and> read_u32 pl 43 \<noteq> 0) \<or>
        (uint (pl ! 51) = 0 \<and> read_u32 pl 47 \<noteq> 0) then Inl INVALID_FLAGS
      else Inr (payload_reading raw idb pl))"

lemma decode_payload_Inr:
  "decode_payload raw idb pl = Inr t \<longleftrightarrow>
     list_all node_id_byte idb \<and> payload_ok pl \<and> t = payload_reading raw idb pl"
  by (auto simp: decode_payload_def payload_ok_def)

lemma decode_packet:
  assumes n: "1 \<le> length idb" "length idb \<le> 24" and pl: "length pl = 57"
    and raw: "raw = packet_header (length idb) @ idb @ pl"
  shows "decodeNodeTelemetryV3 raw = decode_payload raw idb pl"
proof -
  define off where "off = 5 + length idb"
  have len: "length (packet_header (length idb) @ idb) = off" by (simp add: off_def)
  have nth: "raw ! (off + k) = pl ! k" for k
    using nth_append_length_plus [of "packet_header (length idb) @ idb" pl k]
    by (simp only: raw len append_assoc)
  have rd: "read_u16 raw (off + k) = read_u16 pl k"
    "read_u32 raw (off + k) = read_u32 pl k"
    "read_i16 raw (off + k) = read_i16 pl k" for k
    using read_append [of "packet_header (length idb) @ idb" pl k]
      read_i16_append [of "packet_header (length idb) @ idb" pl k]
    by (simp_all only: raw len append_assoc)
  have "uint (byte0 (int (length idb))) = int (length idb)" using n by simp
  then have un: "unat (raw ! 4) = length idb"
    by (simp add: raw packet_header_def unat_eq_nat_uint)
  have hd: "uint (raw ! 0) = 0x47" "uint (raw ! 1) = 0x54"
    "uint (raw ! 2) = NODE_PROTOCOL_V3" "uint (raw ! 3) = NODE_TELEMETRY_TYPE"
    by (simp_all add: raw packet_header_def protocol_constants)
  have idb: "take (length idb) (drop 5 raw) = idb" by (simp add: raw)
  have lr: "(NODE_MAX_RADIO_PACKET_BYTES < length raw) = False"
    "(length raw < NODE_COMMON_HEADER_FIXED_BYTES) = False"
    "(length idb < 1 \<or> NODE_MAX_ID_LENGTH < length idb) = False"
    "(length raw < NODE_TELEMETRY_FIXED_BYTES + length idb) = False"
    "(NODE_TELEMETRY_FIXED_BYTES + length idb < length raw) = False"
    "int (length FILTER_STATE_NAMES) = 8"
    using pl n by (auto simp: raw protocol_constants)
  show ?thesis
    unfolding decodeNodeTelemetryV3_def decode_payload_def payload_reading_def Let_def un lr hd idb
      off_def [symmetric] nth rd NODE_REFERENCE_DISTANCE_PAYLOAD_OFFSET_def
    by (simp only: not_True_eq_False simp_thms if_True if_False)
qed

lemma decode_header:
  assumes "decodeNodeTelemetryV3 raw = Inr t"
  shows "length raw = 62 + unat (raw ! 4) \<and> 1 \<le> unat (raw ! 4) \<and> unat (raw ! 4) \<le> 24 \<and>
    raw ! 0 = 0x47 \<and> raw ! 1 = 0x54 \<and> raw ! 2 = 3 \<and> raw ! 3 = 1"
proof -
  have u: "b = word_of_int (uint b)" for b :: byte by simp
  have "\<not> length raw < 5" "uint (raw ! 0) = 0x47" "uint (raw ! 1) = 0x54" "uint (raw ! 2) = 3"
    "uint (raw ! 3) = 1" "\<not> unat (raw ! 4) < 1" "\<not> 24 < unat (raw ! 4)"
    "\<not> length raw < 62 + unat (raw ! 4)" "\<not> 62 + unat (raw ! 4) < length raw"
    using assms
    by (auto simp only: decodeNodeTelemetryV3_def protocol_constants Let_def split: if_splits)
  then show ?thesis
    using u [of "raw ! 0"] u [of "raw ! 1"] u [of "raw ! 2"] u [of "raw ! 3"] by auto
qed

lemma decode_split:
  assumes "decodeNodeTelemetryV3 raw = Inr t"
  obtains idb pl where "1 \<le> length idb" "length idb \<le> 24" "length pl = 57"
    "raw = packet_header (length idb) @ idb @ pl"
proof -
  define n where "n = unat (raw ! 4)"
  have h: "length raw = 62 + n" "1 \<le> n" "n \<le> 24" "raw ! 0 = 0x47" "raw ! 1 = 0x54" "raw ! 2 = 3"
    "raw ! 3 = 1" using decode_header [OF assms] by (simp_all add: n_def)
  have "int n = uint (raw ! 4)" by (simp add: n_def)
  then have b4: "raw ! 4 = byte0 (int n)" by simp
  have "take 5 raw = packet_header n"
    using h b4 by (intro nth_equalityI)
      (auto simp: packet_header_def less_Suc_eq nth_Cons' numeral_nat)
  moreover have "length (take n (drop 5 raw)) = n" "length (drop (5 + n) raw) = 57" using h by simp_all
  moreover have "raw = take 5 raw @ take n (drop 5 raw) @ drop (5 + n) raw"
    by (metis append_take_drop_id drop_drop add.commute)
  ultimately show ?thesis using that [of "take n (drop 5 raw)" "drop (5 + n) raw"] h by metis
qed

lemma code_inj: "of_char c = (95 :: int) \<Longrightarrow> c = CHR ''_''" "of_char c = (45 :: int) \<Longrightarrow> c = CHR ''-''"
proof -
  have "of_char (CHR ''_'') = (95 :: int)" "of_char (CHR ''-'') = (45 :: int)" by simp_all
  then show "of_char c = (95 :: int) \<Longrightarrow> c = CHR ''_''" "of_char c = (45 :: int) \<Longrightarrow> c = CHR ''-''"
    by (metis of_char_eq_iff)+
qed

lemma node_id_byte_char: "node_id_byte (byte_of_char c) \<longleftrightarrow> is_id_char c"
proof -
  have "uint (byte_of_char c) = code_of c"
    using code_of_bounds [of c] by (simp add: byte_of_char_def uint_byte_of_int)
  moreover have "c = CHR ''_'' \<longleftrightarrow> code_of c = 0x5f" "c = CHR ''-'' \<longleftrightarrow> code_of c = 0x2d"
    using char_of_code_of [of c] by (auto simp: code_of_def code_inj)
  ultimately show ?thesis
    by (auto simp: node_id_byte_def is_id_char_def is_upper_def is_lower_def is_digit_char_def
        in_range_def Let_def)
qed

lemma byte_char_inverse [simp]: "byte_of_char (char_of_byte b) = b"
  using uint_byte_bounds [of b]
  by (simp add: byte_of_char_def char_of_byte_def code_of_def)

lemma map_byte_char_inverse [simp]:
  "map byte_of_char (map char_of_byte bs) = bs" "map char_of_byte (map byte_of_char cs) = cs"
  by (simp_all add: comp_def)

lemma list_all_node_id_byte: "list_all node_id_byte (map byte_of_char cs) \<longleftrightarrow> list_all is_id_char cs"
  by (simp add: list_all_iff node_id_byte_char)

lemma chunk_append: "j = i + n \<Longrightarrow> take n (drop i xs) @ drop j xs = drop i xs"
  by (metis append_take_drop_id drop_drop add.commute)

lemma chunk_last: "length xs = i + n \<Longrightarrow> take n (drop i xs) = drop i xs"
  by simp

lemma chunk_bytes:
  "i + 4 \<le> length xs \<Longrightarrow> bytes_u32 (read_u32 xs i) = take 4 (drop i xs)"
  "i + 2 \<le> length xs \<Longrightarrow> bytes_u16 (read_u16 xs i) = take 2 (drop i xs)"
  by (auto simp: read_u32_def read_u16_def nth_via_drop [symmetric] intro!: nth_equalityI
      simp: less_Suc_eq numeral_nat nth_Cons')

lemma chunk_byte: "i < length xs \<Longrightarrow> bytes_u8 (uint (xs ! i)) = take 1 (drop i xs)"
  by (auto simp: bytes_u8_def intro!: nth_equalityI)

lemma null_if_default [simp]: "(case null_if s v of None \<Rightarrow> s | Some w \<Rightarrow> w) = v"
  by (simp add: null_if_def)

lemma opt_u32_null_if: "is_u32 v \<Longrightarrow> opt_u32 s (null_if s v)"
  by (simp add: null_if_def)

lemma is_width_reads [simp]: "is_u32 (read_u32 bs i)" "is_u16 (read_u16 bs i)" "is_u8 (uint (b :: byte))"
  using uint_byte_bounds [of b] by (simp_all add: is_u32_def is_u16_def is_u8_def read_bounds)

lemma payload_of_reading:
  assumes "length pl = 57" and "payload_ok pl"
  shows "telemetry_payload (payload_reading raw idb pl) = pl"
proof -
  have rtc: "(case (if uint (pl ! 36) = 0 then Some (read_u32 pl 37) else None) of
      None \<Rightarrow> 0 | Some v \<Rightarrow> v) = read_u32 pl 37"
    using assms(2) by (simp add: payload_ok_def)
  have temp: "of_signed16 (read_i16 pl 22) = read_u16 pl 22"
    by (simp add: read_i16_def signed16_inverse read_bounds)
  show ?thesis
    unfolding telemetry_payload_def payload_reading_def decoded_telemetry.select_convs
      null_if_default rtc temp
    using assms(1) by (simp add: chunk_bytes chunk_byte chunk_append)
qed

lemma wf_payload_reading:
  assumes "1 \<le> length idb" "length idb \<le> 24" "length pl = 57" "list_all node_id_byte idb"
    and ok: "payload_ok pl" and raw: "raw = packet_header (length idb) @ idb @ pl"
  shows "wf_telemetry (payload_reading raw idb pl) \<and> encode_telemetry (payload_reading raw idb pl) = raw"
proof -
  let ?t = "payload_reading raw idb pl"
  have enc: "encode_telemetry ?t = raw"
    unfolding encode_telemetry_def payload_of_reading [OF assms(3) ok]
    by (simp add: raw telemetry_header_def packet_header_def payload_reading_def comp_def)
  have id: "id_pattern NODE_MAX_ID_LENGTH (t3_nodeId ?t)"
    using assms(1,2,4) list_all_node_id_byte [of "map char_of_byte idb"]
    by (simp add: id_pattern_def payload_reading_def protocol_constants comp_def)
  have temp: "case null_if INT16_MIN (read_i16 pl 22) of None \<Rightarrow> True
      | Some v \<Rightarrow> - 32768 < v \<and> v < 32768"
    using to_signed16_bounds [of "read_u16 pl 22"]
    by (auto simp: null_if_def read_i16_def INT16_MIN_def read_bounds)
  have hum: "case null_if UINT16_MAX (read_u16 pl 24) of None \<Rightarrow> True
      | Some v \<Rightarrow> 0 \<le> v \<and> v < 65535"
    using read_bounds(1,2) [of pl 24] by (auto simp: null_if_def UINT16_MAX_def)
  have res: "0 \<le> uint (b :: byte)" "uint b < 256" for b using uint_byte_bounds by auto
  have poll: "0 < uint (pl ! 41)" using ok res(1) [of "pl ! 41"] by (auto simp: payload_ok_def order_less_le)
  show ?thesis
    using ok enc id temp hum poll
    unfolding wf_telemetry_def
    by (simp add: payload_reading_def payload_ok_def opt_u32_null_if res) (simp add: null_if_def)
qed

lemma payload_length: "length (telemetry_payload t) = 57"
  by (simp add: telemetry_payload_def bytes_u32_def bytes_u16_def bytes_u8_def)

lemma payload_reads:
  defines "rawd t \<equiv> (case t3_rawDistanceMm t of None \<Rightarrow> UINT32_MAX | Some v \<Rightarrow> v)"
    and "accd t \<equiv> (case t3_acceptedDistanceMm t of None \<Rightarrow> UINT32_MAX | Some v \<Rightarrow> v)"
    and "temp t \<equiv> (case t3_temperatureCentiC t of None \<Rightarrow> INT16_MIN | Some v \<Rightarrow> v)"
    and "humi t \<equiv> (case t3_humidityCentiPercent t of None \<Rightarrow> UINT16_MAX | Some v \<Rightarrow> v)"
    and "rtcu t \<equiv> (case t3_rtcUnixTime t of None \<Rightarrow> 0 | Some v \<Rightarrow> v)"
    and "maint t \<equiv> (case t3_scheduledMaintenanceUnix t of None \<Rightarrow> 0 | Some v \<Rightarrow> v)"
    and "cmd t \<equiv> (case t3_lastCommandId t of None \<Rightarrow> 0 | Some v \<Rightarrow> v)"
    and "refd t \<equiv> (case t3_referenceDistanceMm t of None \<Rightarrow> 0 | Some v \<Rightarrow> v)"
    and "rd32 pl i v \<equiv> read_u32 pl i = mk_u32 (byte3 v) (byte2 v) (byte1 v) (byte0 v)"
    and "rd16 pl i v \<equiv> read_u16 pl i = mk_u16 (byte1 v) (byte0 v)"
  shows "rd32 (telemetry_payload t) 0 (t3_persistentSessionId t)"
    "rd32 (telemetry_payload t) 4 (t3_sequence t)"
    "rd32 (telemetry_payload t) 8 (t3_medianEchoUs t)"
    "rd32 (telemetry_payload t) 12 (rawd t)" "rd32 (telemetry_payload t) 16 (accd t)"
    "rd16 (telemetry_payload t) 20 (t3_madMm t)"
    "rd16 (telemetry_payload t) 22 (of_signed16 (temp t))" "rd16 (telemetry_payload t) 24 (humi t)"
    "rd16 (telemetry_payload t) 26 (t3_batteryMv t)"
    "telemetry_payload t ! 28 = byte0 (t3_validSamples t)"
    "telemetry_payload t ! 29 = byte0 (t3_totalSamples t)"
    "telemetry_payload t ! 30 = byte0 (t3_filterState t)"
    "rd16 (telemetry_payload t) 31 (t3_qualityFlags t)"
    "rd16 (telemetry_payload t) 33 (t3_healthFlags t)"
    "telemetry_payload t ! 35 = byte0 (t3_bootReason t)"
    "telemetry_payload t ! 36 = byte0 (t3_rtcState t)"
    "rd32 (telemetry_payload t) 37 (rtcu t)"
    "telemetry_payload t ! 41 = byte0 (t3_pollIntervalMinutes t)"
    "telemetry_payload t ! 42 = byte0 (t3_scheduleState t)"
    "rd32 (telemetry_payload t) 43 (maint t)" "rd32 (telemetry_payload t) 47 (cmd t)"
    "telemetry_payload t ! 51 = byte0 (t3_lastCommandType t)"
    "telemetry_payload t ! 52 = byte0 (t3_lastCommandResult t)"
    "rd32 (telemetry_payload t) 53 (refd t)"
  unfolding telemetry_payload_def rd32_def rd16_def read_u32_def read_u16_def
    rawd_def [symmetric] accd_def [symmetric] temp_def [symmetric] humi_def [symmetric]
    rtcu_def [symmetric] maint_def [symmetric] cmd_def [symmetric] refd_def [symmetric]
  by (simp_all add: bytes_u32_def bytes_u16_def bytes_u8_def)

lemma null_if_of_opt:
  "opt_u32 s v \<Longrightarrow> null_if s (case v of None \<Rightarrow> s | Some w \<Rightarrow> w) = v"
  by (cases v) (auto simp: null_if_def)

lemma opt_u32_default: "opt_u32 s v \<Longrightarrow> is_u32 s \<Longrightarrow> is_u32 (case v of None \<Rightarrow> s | Some w \<Rightarrow> w)"
  by (cases v) auto

lemma mk_widths:
  "is_u32 v \<Longrightarrow> mk_u32 (byte3 v) (byte2 v) (byte1 v) (byte0 v) = v"
  "is_u16 v \<Longrightarrow> mk_u16 (byte1 v) (byte0 v) = v"
  by (simp_all add: is_u32_def is_u16_def)

lemma is_u32_sentinels [simp]: "is_u32 UINT32_MAX" "is_u32 0"
  by (simp_all add: is_u32_def UINT32_MAX_def)

lemma reading_of_payload:
  assumes wf: "wf_telemetry t"
  shows "payload_ok (telemetry_payload t)"
    and "payload_reading (t3_rawPayload t) (map byte_of_char (t3_nodeId t)) (telemetry_payload t) = t"
proof -
  have temp: "is_u16 (of_signed16 (case t3_temperatureCentiC t of None \<Rightarrow> INT16_MIN | Some v \<Rightarrow> v))"
    "null_if INT16_MIN (to_signed16 (of_signed16
       (case t3_temperatureCentiC t of None \<Rightarrow> INT16_MIN | Some v \<Rightarrow> v))) = t3_temperatureCentiC t"
    using wf of_signed16_bounds signed16_inverse(2)
    by (auto simp: wf_telemetry_def is_u16_def INT16_MIN_def null_if_def split: option.splits)
  have humi: "is_u16 (case t3_humidityCentiPercent t of None \<Rightarrow> UINT16_MAX | Some v \<Rightarrow> v)"
    "null_if UINT16_MAX (case t3_humidityCentiPercent t of None \<Rightarrow> UINT16_MAX | Some v \<Rightarrow> v)
       = t3_humidityCentiPercent t"
    using wf by (auto simp: wf_telemetry_def is_u16_def UINT16_MAX_def null_if_def split: option.splits)
  have rtc: "is_u32 (case t3_rtcUnixTime t of None \<Rightarrow> 0 | Some v \<Rightarrow> v)"
    "t3_rtcState t \<noteq> 0 \<Longrightarrow> (case t3_rtcUnixTime t of None \<Rightarrow> 0 | Some v \<Rightarrow> v) = 0"
    "(if t3_rtcState t = 0 then Some (case t3_rtcUnixTime t of None \<Rightarrow> 0 | Some v \<Rightarrow> v) else None)
       = t3_rtcUnixTime t"
    using wf by (auto simp: wf_telemetry_def split: option.splits)
  have u8: "uint (byte0 (t3_filterState t)) = t3_filterState t"
    "uint (byte0 (t3_bootReason t)) = t3_bootReason t" "uint (byte0 (t3_rtcState t)) = t3_rtcState t"
    "uint (byte0 (t3_scheduleState t)) = t3_scheduleState t"
    "uint (byte0 (t3_lastCommandType t)) = t3_lastCommandType t"
    "uint (byte0 (t3_lastCommandResult t)) = t3_lastCommandResult t"
    "uint (byte0 (t3_pollIntervalMinutes t)) = t3_pollIntervalMinutes t"
    "uint (byte0 (t3_validSamples t)) = t3_validSamples t"
    "uint (byte0 (t3_totalSamples t)) = t3_totalSamples t"
    using wf by (auto simp: wf_telemetry_def is_u8_def)
  have opts: "opt_u32 UINT32_MAX (t3_rawDistanceMm t)" "opt_u32 UINT32_MAX (t3_acceptedDistanceMm t)"
    "opt_u32 0 (t3_referenceDistanceMm t)" "opt_u32 0 (t3_scheduledMaintenanceUnix t)"
    "opt_u32 0 (t3_lastCommandId t)" "is_u32 (t3_persistentSessionId t)" "is_u32 (t3_sequence t)"
    "is_u32 (t3_medianEchoUs t)" "is_u16 (t3_madMm t)" "is_u16 (t3_batteryMv t)"
    "is_u16 (t3_qualityFlags t)" "is_u16 (t3_healthFlags t)"
    using wf by (simp_all add: wf_telemetry_def)
  note reads = payload_reads [of t] u8 opts temp humi rtc
  show "payload_ok (telemetry_payload t)"
    using wf
    by (simp add: payload_ok_def reads mk_widths opt_u32_default) (auto simp: wf_telemetry_def)
  have rtc_read: "(if t3_rtcState t = 0 then Some (read_u32 (telemetry_payload t) 37) else None)
      = t3_rtcUnixTime t"
    using rtc(3) by (simp only: payload_reads(17) mk_widths(1) [OF rtc(1)])
  show "payload_reading (t3_rawPayload t) (map byte_of_char (t3_nodeId t)) (telemetry_payload t) = t"
    by (simp add: payload_reading_def read_i16_def reads mk_widths opt_u32_default null_if_of_opt
        comp_def rtc_read split del: if_split)
qed

lemma decode_telemetry_iff:
  "decodeNodeTelemetryV3 raw = Inr t \<longleftrightarrow> wf_telemetry t \<and> raw = encode_telemetry t"
proof
  assume dec: "decodeNodeTelemetryV3 raw = Inr t"
  then obtain idb pl where s: "1 \<le> length idb" "length idb \<le> 24" "length pl = 57"
    "raw = packet_header (length idb) @ idb @ pl" by (rule decode_split)
  from dec have "list_all node_id_byte idb" "payload_ok pl" "t = payload_reading raw idb pl"
    by (simp_all add: decode_packet [OF s] decode_payload_Inr)
  with wf_payload_reading [OF s(1-3) _ _ s(4)] show "wf_telemetry t \<and> raw = encode_telemetry t"
    by simp
next
  assume t: "wf_telemetry t \<and> raw = encode_telemetry t"
  let ?idb = "map byte_of_char (t3_nodeId t)"
  have id: "1 \<le> length ?idb" "length ?idb \<le> 24" "list_all node_id_byte ?idb"
    using t by (simp_all add: wf_telemetry_def id_pattern_def protocol_constants list_all_node_id_byte)
  have raw: "raw = packet_header (length ?idb) @ ?idb @ telemetry_payload t"
    using t by (simp add: encode_telemetry_def telemetry_header_def packet_header_def)
  have "t3_rawPayload t = raw" using t by (simp add: wf_telemetry_def)
  then have "payload_reading raw ?idb (telemetry_payload t) = t"
    using reading_of_payload(2) t by blast
  then show "decodeNodeTelemetryV3 raw = Inr t"
    unfolding decode_packet [OF id(1,2) payload_length raw] decode_payload_Inr
    using id reading_of_payload(1) t by metis
qed

text \<open>
  C1: The Protocol 3 decoder accepts a packet exactly when the packet is the wire encoding of a
  well-formed reading (identifier of 1 to 24 allowed characters, every field in its range, the
  validity fields consistent), and then returns that reading, raw bytes included. So decoding
  inverts encoding, no two packets decode to the same reading, and nothing malformed is accepted.
\<close>

theorem decode_iff_encoding:
  "decodeNodeTelemetryV3 raw = Inr t \<longleftrightarrow> wf_telemetry t \<and> raw = encode_telemetry t"
  by (rule decode_telemetry_iff)

text \<open>
  The Base64 entry point accepts exactly the canonical Base64 texts of wire encodings of
  well-formed readings: padding, alphabet and unused bits included, there is one accepted text
  for every reading.
\<close>

theorem decode_base64_iff_encoding:
  "decodeNodeTelemetryV3Base64 s = Inr t \<longleftrightarrow> wf_telemetry t \<and> s = b64_encode (encode_telemetry t)"
proof
  assume "decodeNodeTelemetryV3Base64 s = Inr t"
  then obtain raw where "b64_encode raw = s" "decodeNodeTelemetryV3 raw = Inr t"
    by (auto simp: decodeNodeTelemetryV3Base64_def split: if_splits option.splits)
  then show "wf_telemetry t \<and> s = b64_encode (encode_telemetry t)"
    by (auto simp: decode_telemetry_iff)
next
  assume t: "wf_telemetry t \<and> s = b64_encode (encode_telemetry t)"
  then have "decodeNodeTelemetryV3 (encode_telemetry t) = Inr t" by (simp add: decode_telemetry_iff)
  moreover have "b64_encode (encode_telemetry t) \<noteq> []"
    by (simp add: encode_telemetry_def telemetry_header_def b64_encode_def)
  ultimately show "decodeNodeTelemetryV3Base64 s = Inr t"
    using t b64_pattern_encode [of "encode_telemetry t"]
    by (simp add: decodeNodeTelemetryV3Base64_def b64_encode_length b64_decode_encode
        b64_encode_def [symmetric])
qed

end
