(* ===== verification/Database.thy ===== *)
theory Database
  imports Sensor_Classifier Node_Protocol
begin

text \<open>
  The relational store behind the repositories. A table with a primary key is an
  insertion-ordered dictionary of rows, the telemetry table a list of rows; the checks of the
  schema (\<^verbatim>\<open>src/database/migrations\<close>) that the statements of the modelled repositories can
  violate are the predicates \<open>*_row_ok\<close>. An action takes the store and returns a value or the
  error it throws, with the store it leaves; \<open>transaction\<close>
  (\<^verbatim>\<open>src/src/database/database.service.ts\<close>) undoes the changes of a failed action, except that a
  serial counter is never turned back. Actions run one after the other: the statements lock the
  rows they read for update. Serial numbers are consumed by every attempted insert, also when
  the insert then finds a conflict.
\<close>

section \<open>Rows\<close>

record gateway_row =
  gw_id :: int
  gw_hardware_mac :: string
  gw_logical_gateway_id :: string
  gw_firmware_version :: string
  gw_first_seen_at :: js_date
  gw_last_seen_at :: js_date

record node_row =
  nd_node_id :: string
  nd_first_seen_at :: js_date
  nd_last_seen_at :: js_date
  nd_last_gateway_id :: int

record telemetry_row =
  tr_id :: int
  tr_gateway_id :: int
  tr_gateway_logical_id_snapshot :: string
  tr_node_id :: string
  tr_node_boot_session_id :: int
  tr_node_sequence :: int
  tr_gateway_received_at :: "js_date option"
  tr_gateway_time_trusted :: bool
  tr_gateway_uptime_ms :: int
  tr_gateway_boot_session_id :: int
  tr_server_received_at :: js_date
  tr_median_echo_us :: int
  tr_raw_distance_mm :: "int option"
  tr_accepted_distance_mm :: "int option"
  tr_reference_distance_mm :: "int option"
  tr_mad_mm :: int
  tr_temperature_centi_c :: "int option"
  tr_humidity_centi_percent :: "int option"
  tr_battery_mv :: int
  tr_valid_samples :: int
  tr_total_samples :: int
  tr_filter_state :: int
  tr_quality_flags :: int
  tr_health_flags :: int
  tr_rssi_dbm :: jsnum
  tr_snr_db :: jsnum
  tr_frequency_error_hz :: int
  tr_packet_length :: int
  tr_protocol_version :: int
  tr_raw_payload :: "byte list"

record db =
  db_gateways :: "(string, gateway_row) dict"
  db_gatewaySeq :: int
  db_nodes :: "(string, node_row) dict"
  db_telemetry :: "telemetry_row list"
  db_telemetrySeq :: int
  db_deployments :: "(string, deployment) dict"
  db_states :: "(string, sensor_state) dict"

section \<open>Actions\<close>

datatype db_error =
    UNSAFE_INTEGER string
  | STATE_ROW_INCOMPLETE
  | CHECK_VIOLATION string
  | FOREIGN_KEY_VIOLATION string
  | UNIQUE_VIOLATION string
  | NO_ROW_RETURNED string
  | CLASSIFIER_FAILED classifier_error

type_synonym 'a action = "db \<Rightarrow> (db_error, 'a) result \<times> db"

definition db_return :: "'a \<Rightarrow> 'a action" where
  "db_return x d = (Inr x, d)"

definition db_fail :: "db_error \<Rightarrow> 'a action" where
  "db_fail e d = (Inl e, d)"

definition db_bind :: "'a action \<Rightarrow> ('a \<Rightarrow> 'b action) \<Rightarrow> 'b action" where
  "db_bind m f d = (case m d of (Inl e, d') \<Rightarrow> (Inl e, d') | (Inr x, d') \<Rightarrow> f x d')"

definition db_lift :: "(db_error, 'a) result \<Rightarrow> 'a action" where
  "db_lift r d = (r, d)"

definition db_read :: "(db \<Rightarrow> 'a) \<Rightarrow> 'a action" where
  "db_read f d = (Inr (f d), d)"

definition transaction :: "'a action \<Rightarrow> 'a action" where
  "transaction work d = (case work d of
     (Inr x, d') \<Rightarrow> (Inr x, d')
   | (Inl e, d') \<Rightarrow> (Inl e, d\<lparr>db_gatewaySeq := db_gatewaySeq d', db_telemetrySeq := db_telemetrySeq d'\<rparr>))"

fun for_each :: "('a \<Rightarrow> 'b action) \<Rightarrow> 'a list \<Rightarrow> 'b list action" where
  "for_each f [] = db_return []"
| "for_each f (x # xs) = db_bind (f x) (\<lambda>y. db_bind (for_each f xs) (\<lambda>ys. db_return (y # ys)))"

section \<open>Laws of the actions\<close>

named_theorems action_simps \<open>when an action succeeds\<close>

lemma db_bind_Inr [action_simps]:
  "db_bind m f d = (Inr y, d') \<longleftrightarrow> (\<exists>x d1. m d = (Inr x, d1) \<and> f x d1 = (Inr y, d'))"
  by (auto simp: db_bind_def split: prod.splits sum.splits)

lemma db_bind_Inl [action_simps]:
  "db_bind m f d = (Inl e, d') \<longleftrightarrow>
     m d = (Inl e, d') \<or> (\<exists>x d1. m d = (Inr x, d1) \<and> f x d1 = (Inl e, d'))"
  by (auto simp: db_bind_def split: prod.splits sum.splits)

lemma db_return_eq [action_simps]: "db_return x d = (r, d') \<longleftrightarrow> r = Inr x \<and> d' = d"
  by (auto simp: db_return_def)

lemma db_fail_eq [action_simps]: "db_fail e d = (r, d') \<longleftrightarrow> r = Inl e \<and> d' = d"
  by (auto simp: db_fail_def)

lemma db_lift_eq [action_simps]: "db_lift r d = (r', d') \<longleftrightarrow> r = r' \<and> d' = d"
  by (auto simp: db_lift_def)

lemma db_read_eq [action_simps]: "db_read f d = (r, d') \<longleftrightarrow> r = Inr (f d) \<and> d' = d"
  by (auto simp: db_read_def)

lemma transaction_Inr [action_simps]: "transaction m d = (Inr x, d') \<longleftrightarrow> m d = (Inr x, d')"
  by (auto simp: transaction_def split: prod.splits sum.splits)

definition same_tables :: "db \<Rightarrow> db \<Rightarrow> bool" where
  "same_tables d d' \<longleftrightarrow> db_gateways d' = db_gateways d \<and> db_nodes d' = db_nodes d \<and>
     db_telemetry d' = db_telemetry d \<and> db_deployments d' = db_deployments d \<and> db_states d' = db_states d"

lemma transaction_rollback: "transaction m d = (Inl e, d') \<Longrightarrow> same_tables d d'"
  by (auto simp: transaction_def same_tables_def split: prod.splits sum.splits)

text \<open>A transaction keeps a property of the tables when its successful runs do.\<close>

lemma transaction_keeps:
  assumes "transaction m d = (r, d')" and "P d"
    and "\<And>x d1. m d = (Inr x, d1) \<Longrightarrow> P d1"
    and "\<And>d1. same_tables d d1 \<Longrightarrow> P d1"
  shows "P d'"
  using assms by (cases r) (auto simp: transaction_Inr dest: transaction_rollback)

lemma for_each_length: "for_each f xs d = (Inr ys, d') \<Longrightarrow> length ys = length xs"
  by (induction xs arbitrary: ys d) (auto simp: action_simps)

text \<open>An invariant of the body is an invariant of the loop.\<close>

lemma for_each_keeps:
  assumes "for_each f xs d = (r, d')" and "P d"
    and "\<And>x r d1 d2. x \<in> set xs \<Longrightarrow> P d1 \<Longrightarrow> f x d1 = (r, d2) \<Longrightarrow> P d2"
  shows "P d'"
  using assms
proof (induction xs arbitrary: d r d')
  case Nil
  then show ?case by (simp add: action_simps)
next
  case (Cons x xs)
  obtain s d1 where head: "f x d = (s, d1)" by (cases "f x d")
  with Cons.prems have d1: "P d1" by auto
  show ?case
  proof (cases s)
    case (Inl e)
    with head Cons.prems(1) d1 show ?thesis by (auto simp: db_bind_def)
  next
    case (Inr y)
    obtain s2 d2 where tail: "for_each f xs d1 = (s2, d2)" by (cases "for_each f xs d1")
    with Cons.IH [OF this d1] Cons.prems(3) have "P d2" by auto
    with head Inr tail Cons.prems(1) show ?thesis
      by (auto simp: db_bind_def db_return_def split: sum.splits)
  qed
qed

end
