(* ===== verification/Flood_Geometry.thy ===== *)
theory Flood_Geometry
  imports Flood_Models
begin

text \<open>
  Validation of hazards and of GeoJSON polygons,
  \<^verbatim>\<open>src/src/flood/geometry/flood-geometry.validator.ts\<close>. The validators read untyped values and
  return a typed hazard or polygon, or the first error in the order of the source. Orientation,
  ring area and intersection are computed in binary64 with the source's tolerance. Date texts
  are parsed by the argument \<open>dateParse\<close>: ECMAScript leaves the texts outside its own format to
  the implementation. The lemmas characterise the accepted polygons and show that an accepted
  ring is simple in its vertices.
\<close>

section \<open>Errors and limits\<close>

definition MAX_ACTIVE_FLOOD_HAZARDS :: nat where "MAX_ACTIVE_FLOOD_HAZARDS = 50"
definition MAX_FLOOD_POLYGON_VERTICES :: jsnum where "MAX_FLOOD_POLYGON_VERTICES = num_of_int 2000"
definition MIN_RING_POINTS :: nat where "MIN_RING_POINTS = 4"

datatype geometry_error =
    HAZARD_NOT_OBJECT
  | HAZARD_ID_INVALID
  | HAZARD_LEVEL_INVALID
  | HAZARD_CONFIDENCE_INVALID
  | DATE_INVALID string
  | VALIDITY_ORDER_INVALID
  | MULTIPLIER_INVALID
  | VERTEX_LIMIT_INVALID
  | NOT_A_POLYGON
  | NO_RING
  | RING_TOO_SHORT
  | POINT_INVALID
  | COORDINATE_INVALID
  | RING_NOT_CLOSED
  | RING_TOO_FEW_VERTICES
  | ZERO_LENGTH_EDGE
  | SELF_INTERSECTION
  | ZERO_AREA
  | TOO_MANY_VERTICES jsnum nat

section \<open>Plane geometry in binary64\<close>

definition geometry_tolerance :: jsnum where
  "geometry_tolerance = mk_num (1 / 1000000000000000)"

definition orientation :: "point \<Rightarrow> point \<Rightarrow> point \<Rightarrow> int" where
  "orientation a b c =
     (let cross = js_sub
            (js_mul (js_sub (fst b) (fst a)) (js_sub (snd c) (snd a)))
            (js_mul (js_sub (snd b) (snd a)) (js_sub (fst c) (fst a))) in
      if js_le (js_abs cross) geometry_tolerance then 0
      else if js_lt (Fin 0) cross then 1 else -1)"

definition pointOnSegment :: "point \<Rightarrow> point \<Rightarrow> point \<Rightarrow> bool" where
  "pointOnSegment p s e =
     (js_le (js_min (fst s) (fst e)) (fst p) \<and> js_le (fst p) (js_max (fst s) (fst e)) \<and>
      js_le (js_min (snd s) (snd e)) (snd p) \<and> js_le (snd p) (js_max (snd s) (snd e)))"

definition segmentsTouchOrIntersect :: "point \<Rightarrow> point \<Rightarrow> point \<Rightarrow> point \<Rightarrow> bool" where
  "segmentsTouchOrIntersect firstStart firstEnd secondStart secondEnd =
     (let o1 = orientation firstStart firstEnd secondStart;
          o2 = orientation firstStart firstEnd secondEnd;
          o3 = orientation secondStart secondEnd firstStart;
          o4 = orientation secondStart secondEnd firstEnd in
      if o1 \<noteq> o2 \<and> o3 \<noteq> o4 then True
      else (o1 = 0 \<and> pointOnSegment secondStart firstStart firstEnd) \<or>
           (o2 = 0 \<and> pointOnSegment secondEnd firstStart firstEnd) \<or>
           (o3 = 0 \<and> pointOnSegment firstStart secondStart secondEnd) \<or>
           (o4 = 0 \<and> pointOnSegment firstEnd secondStart secondEnd))"

definition ringHasSelfIntersection :: "ring \<Rightarrow> bool" where
  "ringHasSelfIntersection ring =
     (let segmentCount = length ring - 1 in
      list_ex (\<lambda>first. list_ex (\<lambda>second.
        let adjacent = (second = first + 1);
            closureAdjacent = (first = 0 \<and> second = segmentCount - 1) in
        \<not> (adjacent \<or> closureAdjacent) \<and>
        segmentsTouchOrIntersect (ring ! first) (ring ! (first + 1))
          (ring ! second) (ring ! (second + 1)))
        [first + 1..<segmentCount]) [0..<segmentCount])"

definition signedRingArea :: "ring \<Rightarrow> jsnum" where
  "signedRingArea ring =
     js_div (foldl (\<lambda>twiceArea index. js_add twiceArea
        (js_sub (js_mul (fst (ring ! index)) (snd (ring ! (index + 1))))
                (js_mul (fst (ring ! (index + 1))) (snd (ring ! index)))))
        (Fin 0) [0..<length ring - 1]) (Fin 2)"

section \<open>Polygons\<close>

definition coordinate_ok :: "jsnum \<Rightarrow> jsnum \<Rightarrow> bool" where
  "coordinate_ok lng lat =
     (is_finite lng \<and> is_finite lat \<and>
      \<not> js_lt lng (Fin (- 180)) \<and> \<not> js_lt (Fin 180) lng \<and>
      \<not> js_lt lat (Fin (- 90)) \<and> \<not> js_lt (Fin 90) lat)"

fun validate_point :: "jsval \<Rightarrow> (geometry_error, point) result" where
  "validate_point (JArr [JNum lng, JNum lat]) =
     (if coordinate_ok lng lat then Inr (lng, lat) else Inl COORDINATE_INVALID)"
| "validate_point (JArr [x, y]) = Inl COORDINATE_INVALID"
| "validate_point v = Inl POINT_INVALID"

definition has_zero_length_edge :: "ring \<Rightarrow> bool" where
  "has_zero_length_edge ring =
     list_ex (\<lambda>index.
       js_eq (fst (ring ! (index - 1))) (fst (ring ! index)) \<and>
       js_eq (snd (ring ! (index - 1))) (snd (ring ! index))) [1..<length ring]"

definition check_ring :: "ring \<Rightarrow> (geometry_error, ring) result" where
  "check_ring validatedRing =
     (let first = hd validatedRing; final = last validatedRing in
      if \<not> js_eq (fst first) (fst final) \<or> \<not> js_eq (snd first) (snd final) then Inl RING_NOT_CLOSED
      else if length (js_set (butlast validatedRing)) < 3 then Inl RING_TOO_FEW_VERTICES
      else if has_zero_length_edge validatedRing then Inl ZERO_LENGTH_EDGE
      else if ringHasSelfIntersection validatedRing then Inl SELF_INTERSECTION
      else if js_lt (js_abs (signedRingArea validatedRing)) geometry_tolerance then Inl ZERO_AREA
      else Inr validatedRing)"

fun validate_ring :: "jsval \<Rightarrow> (geometry_error, ring) result" where
  "validate_ring (JArr ps) =
     (if length ps < MIN_RING_POINTS then Inl RING_TOO_SHORT
      else res_bind (traverse validate_point ps) check_ring)"
| "validate_ring v = Inl RING_TOO_SHORT"

definition total_vertices :: "polygon \<Rightarrow> nat" where
  "total_vertices rings = sum_list (map length rings)"

definition validateGeoJsonPolygon :: "jsval \<Rightarrow> jsnum \<Rightarrow> (geometry_error, polygon) result" where
  "validateGeoJsonPolygon geometry maxPolygonVertices =
     (if \<not> is_safe_integer maxPolygonVertices \<or>
         js_lt maxPolygonVertices (num_of_int (int MIN_RING_POINTS)) then Inl VERTEX_LIMIT_INVALID
      else if \<not> isRecord geometry \<or> jprop geometry ''type'' \<noteq> JStr ''Polygon'' then Inl NOT_A_POLYGON
      else case jprop geometry ''coordinates'' of
        JArr coordinates \<Rightarrow>
          if length coordinates = 0 then Inl NO_RING
          else res_bind (traverse validate_ring coordinates) (\<lambda>validatedRings.
            let totalVertices = total_vertices validatedRings in
            if js_lt maxPolygonVertices (num_of_int (int totalVertices))
            then Inl (TOO_MANY_VERTICES maxPolygonVertices totalVertices)
            else Inr validatedRings)
      | _ \<Rightarrow> Inl NOT_A_POLYGON)"

section \<open>Hazards\<close>

fun defaultSimulationMultiplier :: "flood_level \<Rightarrow> jsnum" where
  "defaultSimulationMultiplier LOW = Fin 1"
| "defaultSimulationMultiplier UNKNOWN = Fin 1"
| "defaultSimulationMultiplier MEDIUM = mk_num (35 / 100)"
| "defaultSimulationMultiplier HIGH = mk_num (5 / 100)"
| "defaultSimulationMultiplier BLOCKED = Fin 0"

definition level_names :: "(string \<times> flood_level) list" where
  "level_names = [(''LOW'', LOW), (''MEDIUM'', MEDIUM), (''HIGH'', HIGH), (''BLOCKED'', BLOCKED),
     (''UNKNOWN'', UNKNOWN)]"

fun parse_level :: "jsval \<Rightarrow> flood_level option" where
  "parse_level (JStr s) = map_of level_names s"
| "parse_level v = None"

text \<open>\<open>new Date(n)\<close> for a number: \<open>TimeClip\<close> drops the fraction and refuses what is out of range.\<close>

fun date_of_num :: "jsnum \<Rightarrow> js_date" where
  "date_of_num (Fin a) =
     (if \<bar>a\<bar> \<le> of_int max_time_value then Date (trunc_rat a) else InvalidDate)"
| "date_of_num x = InvalidDate"

fun parseDate :: "(string \<Rightarrow> js_date) \<Rightarrow> string \<Rightarrow> jsval \<Rightarrow> (geometry_error, js_date) result" where
  "parseDate dateParse fieldName (JDate d) =
     (if valid_date d then Inr d else Inl (DATE_INVALID fieldName))"
| "parseDate dateParse fieldName (JStr s) =
     (if valid_date (dateParse s) then Inr (dateParse s) else Inl (DATE_INVALID fieldName))"
| "parseDate dateParse fieldName (JNum n) =
     (if valid_date (date_of_num n) then Inr (date_of_num n) else Inl (DATE_INVALID fieldName))"
| "parseDate dateParse fieldName v = Inl (DATE_INVALID fieldName)"

fun unit_number :: "jsval \<Rightarrow> jsnum option" where
  "unit_number (JNum x) =
     (if is_finite x \<and> \<not> js_lt x (Fin 0) \<and> \<not> js_lt (Fin 1) x then Some x else None)"
| "unit_number v = None"

fun trimmed_id :: "jsval \<Rightarrow> string option" where
  "trimmed_id (JStr s) = (if js_trim s = '''' then None else Some (js_trim s))"
| "trimmed_id v = None"

fun array_strings :: "jsval \<Rightarrow> string list option" where
  "array_strings (JArr vs) = Some (string_items vs)"
| "array_strings v = None"

fun string_value :: "jsval \<Rightarrow> string option" where
  "string_value (JStr s) = Some s"
| "string_value v = None"

definition validateFloodHazard ::
  "(string \<Rightarrow> js_date) \<Rightarrow> jsval \<Rightarrow> jsnum \<Rightarrow> (geometry_error, flood_hazard) result" where
  "validateFloodHazard dateParse hazard maxPolygonVertices =
     (if \<not> isRecord hazard then Inl HAZARD_NOT_OBJECT
      else case trimmed_id (jprop hazard ''id'') of
        None \<Rightarrow> Inl HAZARD_ID_INVALID
      | Some hid \<Rightarrow>
      (case parse_level (jprop hazard ''level'') of
        None \<Rightarrow> Inl HAZARD_LEVEL_INVALID
      | Some level \<Rightarrow>
      (case unit_number (jprop hazard ''confidence'') of
        None \<Rightarrow> Inl HAZARD_CONFIDENCE_INVALID
      | Some confidence \<Rightarrow>
        res_bind (parseDate dateParse ''observedAt'' (jprop hazard ''observedAt'')) (\<lambda>observedAt.
        res_bind (parseDate dateParse ''validUntil'' (jprop hazard ''validUntil'')) (\<lambda>validUntil.
        if date_le validUntil observedAt then Inl VALIDITY_ORDER_INVALID
        else
          let sourceNodeIds = (case array_strings (jprop hazard ''sourceNodeIds'') of
                None \<Rightarrow> [] | Some ids \<Rightarrow> ids) in
          res_bind (validateGeoJsonPolygon (jprop hazard ''geometry'') maxPolygonVertices) (\<lambda>geometry.
          let multiplierValue =
                (if jprop hazard ''routingMultiplier'' = JUndefined
                 then JNum (defaultSimulationMultiplier level)
                 else jprop hazard ''routingMultiplier'') in
          (case unit_number multiplierValue of
             None \<Rightarrow> Inl MULTIPLIER_INVALID
           | Some routingMultiplier \<Rightarrow> Inr \<lparr>
               hz_id = hid,
               hz_level = level,
               hz_geometry = geometry,
               hz_confidence = confidence,
               hz_observedAt = Some observedAt,
               hz_validUntil = Some validUntil,
               hz_sourceNodeIds = sourceNodeIds,
               hz_routingMultiplier = routingMultiplier,
               hz_reasonCodes = array_strings (jprop hazard ''reasonCodes''),
               hz_freshness = None,
               hz_description = string_value (jprop hazard ''description'') \<rparr>)))))))"

text \<open>\<open>sha256hex\<close> is the hexadecimal digest of \<open>node:crypto\<close>.\<close>

definition generateSafeAreaId :: "(string \<Rightarrow> string) \<Rightarrow> string \<Rightarrow> string" where
  "generateSafeAreaId sha256hex hazardId = ''flood_area_'' @ take 12 (sha256hex hazardId)"

section \<open>Accepted polygons\<close>

definition point_value :: "point \<Rightarrow> jsval" where
  "point_value p = JArr [JNum (fst p), JNum (snd p)]"

definition ring_value :: "ring \<Rightarrow> jsval" where
  "ring_value r = JArr (map point_value r)"

definition polygon_value :: "polygon \<Rightarrow> jsval" where
  "polygon_value p = JObj [(''type'', JStr ''Polygon''), (''coordinates'', JArr (map ring_value p))]"

definition point_ok :: "point \<Rightarrow> bool" where
  "point_ok p = coordinate_ok (fst p) (snd p)"

text \<open>
  A ring that is closed, repeats no vertex, has no two non-adjacent edges that touch, and
  encloses an area.
\<close>

definition ring_ok :: "ring \<Rightarrow> bool" where
  "ring_ok r \<longleftrightarrow> MIN_RING_POINTS \<le> length r \<and> list_all point_ok r \<and> hd r = last r \<and>
     distinct (butlast r) \<and> \<not> ringHasSelfIntersection r \<and>
     \<not> js_lt (js_abs (signedRingArea r)) geometry_tolerance"

definition polygon_ok :: "polygon \<Rightarrow> bool" where
  "polygon_ok p \<longleftrightarrow> p \<noteq> [] \<and> list_all ring_ok p"

lemma point_ok_bounds:
  "point_ok p \<Longrightarrow> \<exists>x y. p = (Fin x, Fin y) \<and> \<bar>x\<bar> \<le> 180 \<and> \<bar>y\<bar> \<le> 90"
  by (cases p) (auto simp: point_ok_def coordinate_ok_def is_finite_iff abs_le_iff)

lemma orientation_start:
  assumes "point_ok a" and "point_ok b"
  shows "orientation a b a = 0"
proof -
  obtain x y where a: "a = (Fin x, Fin y)" "\<bar>x\<bar> \<le> 180" "\<bar>y\<bar> \<le> 90"
    using point_ok_bounds [OF assms(1)] by auto
  obtain u v where b: "b = (Fin u, Fin v)" "\<bar>u\<bar> \<le> 180" "\<bar>v\<bar> \<le> 90"
    using point_ok_bounds [OF assms(2)] by auto
  have "\<bar>u - x\<bar> \<le> of_int 360" "\<bar>v - y\<bar> \<le> of_int 360" using a b by auto
  then obtain du dv where "mk_num (u - x) = Fin du" "mk_num (v - y) = Fin dv"
    using mk_num_bounded [of "u - x" 360] mk_num_bounded [of "v - y" 360] by auto
  moreover have "js_le (Fin 0) geometry_tolerance" by code_simp
  ultimately show ?thesis by (simp add: orientation_def a b js_sub_def)
qed

lemma point_on_segment_start:
  assumes "point_ok a" and "point_ok b"
  shows "pointOnSegment a a b"
proof -
  obtain x y where a: "a = (Fin x, Fin y)" using point_ok_bounds [OF assms(1)] by auto
  obtain u v where b: "b = (Fin u, Fin v)" using point_ok_bounds [OF assms(2)] by auto
  show ?thesis by (simp add: pointOnSegment_def js_min_def js_max_def a b)
qed

lemma closed_ring_ends: "4 \<le> length r \<Longrightarrow> hd r = last r \<Longrightarrow> r ! 0 = r ! (length r - 1)"
  by (metis hd_conv_nth last_conv_nth list.size(3) not_numeral_le_zero)

lemma touch_common_start:
  "point_ok a \<Longrightarrow> point_ok b \<Longrightarrow> segmentsTouchOrIntersect a b a d"
  by (simp add: segmentsTouchOrIntersect_def orientation_start point_on_segment_start Let_def)

lemma validate_point_Inr: "validate_point v = Inr p \<longleftrightarrow> v = point_value p \<and> point_ok p"
  by (induction v rule: validate_point.induct)
    (auto simp: point_value_def point_ok_def prod_eq_iff)

lemma self_intersection_pair:
  assumes "i < j" "j < length r - 1" "j \<noteq> i + 1" "\<not> (i = 0 \<and> j = length r - 2)"
    and "segmentsTouchOrIntersect (r ! i) (r ! (i + 1)) (r ! j) (r ! (j + 1))"
  shows "ringHasSelfIntersection r"
  unfolding ringHasSelfIntersection_def Let_def list_ex_iff using assms
  by (intro bexI [of _ i] bexI [of _ j]) auto

lemma zero_length_edge_iff:
  "list_all point_ok r \<Longrightarrow> has_zero_length_edge r \<longleftrightarrow> (\<exists>i. Suc i < length r \<and> r ! i = r ! Suc i)"
proof -
  assume ok: "list_all point_ok r"
  have fin: "i < length r \<Longrightarrow> fst (r ! i) \<noteq> NaN \<and> snd (r ! i) \<noteq> NaN" for i
    using ok point_ok_bounds [of "r ! i"] by (auto simp: list_all_length)
  show ?thesis
  proof
    assume "has_zero_length_edge r"
    then obtain k where "1 \<le> k" "k < length r" "r ! (k - 1) = r ! k"
      by (auto simp: has_zero_length_edge_def list_ex_iff js_eq_iff prod_eq_iff)
    then show "\<exists>i. Suc i < length r \<and> r ! i = r ! Suc i"
      by (intro exI [of _ "k - 1"]) simp
  next
    assume "\<exists>i. Suc i < length r \<and> r ! i = r ! Suc i"
    then obtain i where i: "Suc i < length r" "r ! i = r ! Suc i" by blast
    then show "has_zero_length_edge r"
      unfolding has_zero_length_edge_def list_ex_iff using fin [of "Suc i"]
      by (intro bexI [of _ "Suc i"]) (auto simp: js_eq_iff)
  qed
qed

lemma closed_ring_vertices:
  assumes ok: "list_all point_ok r" and len: "4 \<le> length r" and closed: "hd r = last r"
    and simple: "\<not> has_zero_length_edge r" "\<not> ringHasSelfIntersection r"
  shows "distinct (butlast r)"
proof (rule ccontr)
  assume "\<not> distinct (butlast r)"
  then obtain i j where ij: "i < j" "j < length r - 1" "r ! i = r ! j"
    by (auto simp: distinct_conv_nth nth_butlast) (metis linorder_neqE_nat)
  note closing = closed_ring_ends [OF len closed]
  show False
  proof (cases "j = i + 1 \<or> (i = 0 \<and> j = length r - 2)")
    case True
    then have "\<exists>k. Suc k < length r \<and> r ! k = r ! Suc k"
    proof
      assume "j = i + 1"
      then show ?thesis using ij by (intro exI [of _ i]) auto
    next
      assume end_pair: "i = 0 \<and> j = length r - 2"
      then have "Suc j = length r - 1" using len by simp
      then show ?thesis using ij end_pair closing len by (intro exI [of _ j]) auto
    qed
    then show False using simple(1) zero_length_edge_iff [OF ok] by blast
  next
    case False
    have "segmentsTouchOrIntersect (r ! i) (r ! (i + 1)) (r ! j) (r ! (j + 1))"
      using touch_common_start [of "r ! i" "r ! (i + 1)"] ij ok by (simp add: list_all_length)
    then show False using self_intersection_pair [of i j r] False ij simple(2) by blast
  qed
qed

lemma distinct_ring_edges:
  assumes ok: "list_all point_ok r" and len: "4 \<le> length r" and closed: "hd r = last r"
    and dist: "distinct (butlast r)"
  shows "\<not> has_zero_length_edge r"
proof
  assume "has_zero_length_edge r"
  then obtain i where i: "Suc i < length r" "r ! i = r ! Suc i"
    using zero_length_edge_iff [OF ok] by blast
  have nth: "k < length r - 1 \<Longrightarrow> butlast r ! k = r ! k" for k by (simp add: nth_butlast)
  have inj: "k < length r - 1 \<Longrightarrow> l < length r - 1 \<Longrightarrow> r ! k = r ! l \<Longrightarrow> k = l" for k l
    using dist by (metis length_butlast nth nth_eq_iff_index_eq)
  show False
  proof (cases "Suc i < length r - 1")
    case True
    then show False using inj [of i "Suc i"] i by simp
  next
    case False
    then have final: "Suc i = length r - 1" using i(1) by simp
    then have "r ! i = r ! 0" using i(2) closed_ring_ends [OF len closed] by metis
    then have "i = 0" using inj [of i 0] final len by linarith
    then show False using final len by simp
  qed
qed

lemma check_ring_Inr:
  assumes "list_all point_ok r" and "4 \<le> length r"
  shows "check_ring r = Inr s \<longleftrightarrow> s = r \<and> ring_ok r"
proof -
  have "r \<noteq> []" using assms(2) by auto
  then have "hd r \<in> set r" "last r \<in> set r" by simp_all
  then have "point_ok (hd r)" "point_ok (last r)" using assms(1) by (auto simp: list_all_iff)
  then have closed: "js_eq (fst (hd r)) (fst (last r)) \<and> js_eq (snd (hd r)) (snd (last r)) \<longleftrightarrow>
    hd r = last r"
    by (auto dest!: point_ok_bounds)
  have "distinct (butlast r) \<Longrightarrow> 3 \<le> length (js_set (butlast r))"
    using assms(2) by (simp add: js_set_distinct)
  then show ?thesis
    using closed closed_ring_vertices [OF assms] distinct_ring_edges [OF assms] assms
    by (auto simp: check_ring_def ring_ok_def Let_def MIN_RING_POINTS_def)
qed

lemma validate_ring_Inr: "validate_ring v = Inr r \<longleftrightarrow> v = ring_value r \<and> ring_ok r"
proof (cases v)
  case (JArr ps)
  have points: "traverse validate_point ps = Inr rs \<longleftrightarrow> ps = map point_value rs \<and> list_all point_ok rs" for rs
    by (rule traverse_embed) (rule validate_point_Inr)
  show ?thesis
    using JArr check_ring_Inr
    by (auto simp: res_bind_Inr points ring_value_def ring_ok_def MIN_RING_POINTS_def)
qed (auto simp: ring_value_def)

lemma validate_polygon_Inr:
  "validateGeoJsonPolygon v m = Inr p \<longleftrightarrow>
     is_safe_integer m \<and> 4 \<le> int_of_num m \<and> int (total_vertices p) \<le> int_of_num m \<and>
     jprop v ''type'' = JStr ''Polygon'' \<and> jprop v ''coordinates'' = JArr (map ring_value p) \<and>
     polygon_ok p"
proof -
  have rings: "traverse validate_ring cs = Inr rs \<longleftrightarrow> cs = map ring_value rs \<and> list_all ring_ok rs" for cs rs
    by (rule traverse_embed) (rule validate_ring_Inr)
  have record_type: "jprop v ''type'' = JStr t \<Longrightarrow> isRecord v" for t
    by (cases v) auto
  have bind: "res_bind (traverse validate_ring cs) (\<lambda>rs. if js_lt m (num_of_int (int (total_vertices rs)))
      then Inl (TOO_MANY_VERTICES m (total_vertices rs)) else Inr rs) = Inr p \<longleftrightarrow>
    cs = map ring_value p \<and> list_all ring_ok p \<and> \<not> js_lt m (num_of_int (int (total_vertices p)))" for cs
    unfolding res_bind_Inr rings by (auto split: if_splits)
  show ?thesis
    using record_type [of "''Polygon''"]
    unfolding validateGeoJsonPolygon_def Let_def
    by (cases "jprop v ''coordinates''")
      (auto simp: is_safe_integer_iff MIN_RING_POINTS_def polygon_ok_def bind)
qed

section \<open>Accepted hazards\<close>

lemma parseDate_valid: "parseDate dp f v = Inr d \<Longrightarrow> valid_date d"
  by (cases v) (auto split: if_splits)

lemma unit_number_Some: "unit_number v = Some x \<longleftrightarrow> v = JNum x \<and> in_unit x"
  by (cases v) (auto simp: in_unit_iff is_finite_iff)

lemma trimmed_id_Some: "trimmed_id v = Some s \<Longrightarrow> s \<noteq> ''''"
  by (cases v) (auto split: if_splits)

definition hazard_ok :: "flood_hazard \<Rightarrow> bool" where
  "hazard_ok h \<longleftrightarrow> hz_id h \<noteq> '''' \<and> in_unit (hz_confidence h) \<and> in_unit (hz_routingMultiplier h) \<and>
     polygon_ok (hz_geometry h) \<and>
     (\<exists>a b. hz_observedAt h = Some (Date a) \<and> hz_validUntil h = Some (Date b) \<and> a < b)"

lemma validate_hazard_ok:
  assumes "validateFloodHazard dp v m = Inr h"
  shows "hazard_ok h"
proof -
  obtain hid conf obs until geo mult mult_value where
    parts: "trimmed_id (jprop v ''id'') = Some hid" "unit_number (jprop v ''confidence'') = Some conf"
      "parseDate dp ''observedAt'' (jprop v ''observedAt'') = Inr obs"
      "parseDate dp ''validUntil'' (jprop v ''validUntil'') = Inr until"
      "\<not> date_le until obs" "validateGeoJsonPolygon (jprop v ''geometry'') m = Inr geo"
      "unit_number mult_value = Some mult"
    and h: "hz_id h = hid" "hz_confidence h = conf" "hz_observedAt h = Some obs"
      "hz_validUntil h = Some until" "hz_geometry h = geo" "hz_routingMultiplier h = mult"
    using assms unfolding validateFloodHazard_def Let_def
    by (auto simp: res_bind_Inr simp del: unit_number.simps split: if_splits option.splits)
  show ?thesis
    using h parts trimmed_id_Some [OF parts(1)] parseDate_valid [OF parts(3)] parseDate_valid [OF parts(4)]
    by (auto simp: hazard_ok_def unit_number_Some validate_polygon_Inr valid_date_iff)
qed

definition sample_hazard_value :: jsval where
  "sample_hazard_value = JObj [
     (''id'', JStr '' h-1 ''), (''level'', JStr ''BLOCKED''), (''confidence'', JNum (Fin (3 / 4))),
     (''observedAt'', JNum (Fin 1000)), (''validUntil'', JDate (Date 5000)),
     (''sourceNodeIds'', JArr [JStr ''node-1'', JNull]),
     (''geometry'', polygon_value [sample_ring])]"

definition sample_hazard :: flood_hazard where
  "sample_hazard = \<lparr>
     hz_id = ''h-1'', hz_level = BLOCKED, hz_geometry = [sample_ring], hz_confidence = Fin (3 / 4),
     hz_observedAt = Some (Date 1000), hz_validUntil = Some (Date 5000),
     hz_sourceNodeIds = [''node-1''], hz_routingMultiplier = Fin 0, hz_reasonCodes = None,
     hz_freshness = None, hz_description = None \<rparr>"

lemma tolerance_cases:
  "js_le (Fin 0) geometry_tolerance" "js_lt geometry_tolerance (Fin 1)"
  by code_simp+

lemma tolerance_integers [simp]:
  "js_le (Fin 0) geometry_tolerance" "\<not> js_le (Fin 1) geometry_tolerance"
  "\<not> js_le (Fin (numeral n)) geometry_tolerance" "\<not> js_lt (Fin (numeral n)) geometry_tolerance"
proof -
  have "js_le (Fin 0) x \<Longrightarrow> js_lt x (Fin 1) \<Longrightarrow> \<exists>t. x = Fin t \<and> t < 1 \<and> 0 \<le> t" for x
    by (cases x) (auto simp: js_le_def)
  then obtain t where t: "geometry_tolerance = Fin t" "t < 1" "0 \<le> t"
    using tolerance_cases by blast
  have "(1 :: rat) \<le> numeral n" by simp
  with t have "t < numeral n" by linarith
  with t(2,3) show "js_le (Fin 0) geometry_tolerance" "\<not> js_le (Fin 1) geometry_tolerance"
    "\<not> js_le (Fin (numeral n)) geometry_tolerance" "\<not> js_lt (Fin (numeral n)) geometry_tolerance"
    by (simp_all add: t(1))
qed

lemma sample_ring_ok: "ring_ok sample_ring"
proof -
  have "signedRingArea sample_ring = Fin 16"
    by (simp add: signedRingArea_def sample_ring_def upt_rec js_sub_def js_num_simps)
  moreover have "\<not> ringHasSelfIntersection sample_ring"
    by (simp add: ringHasSelfIntersection_def sample_ring_def upt_rec segmentsTouchOrIntersect_def
        orientation_def js_sub_def js_num_simps pointOnSegment_def js_min_def js_max_def)
  ultimately show ?thesis
    by (simp add: ring_ok_def sample_ring_def MIN_RING_POINTS_def point_ok_def coordinate_ok_def)
qed

lemma sample_polygon_valid:
  "validateGeoJsonPolygon (polygon_value [sample_ring]) (num_of_int 2000) = Inr [sample_ring]"
  unfolding validate_polygon_Inr
  using sample_ring_ok
  by (simp add: polygon_ok_def polygon_value_def total_vertices_def num_of_int_def max_safe_integer_def)
    (simp add: sample_ring_def)

lemma sample_hazard_valid:
  "validateFloodHazard (\<lambda>_. InvalidDate) sample_hazard_value (num_of_int 2000) = Inr sample_hazard"
proof -
  have "trimmed_id (JStr '' h-1 '') = Some ''h-1''" by code_simp
  then show ?thesis
    by (simp add: validateFloodHazard_def sample_hazard_value_def sample_hazard_def sample_polygon_valid
        level_names_def max_time_value_def trunc_rat_def)
qed

section \<open>Properties\<close>

text \<open>
  C4: The polygon validator accepts exactly the GeoJSON polygons whose rings have at least four
  points in range, are closed, repeat no vertex, have no two non-adjacent edges that touch and
  enclose an area, within the vertex limit, and returns their coordinates unchanged. In
  particular the separate checks for three distinct vertices and for zero-length edges, together
  with the intersection test in floating point, amount to pairwise distinct vertices.
\<close>

theorem polygon_validation_iff:
  "validateGeoJsonPolygon v m = Inr p \<longleftrightarrow>
     is_safe_integer m \<and> 4 \<le> int_of_num m \<and> int (total_vertices p) \<le> int_of_num m \<and>
     jprop v ''type'' = JStr ''Polygon'' \<and> jprop v ''coordinates'' = JArr (map ring_value p) \<and>
     polygon_ok p"
  by (rule validate_polygon_Inr)

text \<open>
  A hazard the validator accepts is well formed: its identifier is not blank, its confidence
  and its routing multiplier lie between 0 and 1, its polygon is an accepted one, and both its
  dates are valid with the end of validity strictly after the observation; re-validating its
  polygon as GeoJSON gives the same polygon.
\<close>

theorem validated_hazard_ok:
  assumes "validateFloodHazard dateParse v m = Inr h"
  shows "hazard_ok h \<and> validateGeoJsonPolygon (polygon_value (hz_geometry h)) m = Inr (hz_geometry h)"
proof -
  have "validateGeoJsonPolygon (jprop v ''geometry'') m = Inr (hz_geometry h)"
    using assms unfolding validateFloodHazard_def Let_def
    by (auto simp: res_bind_Inr simp del: unit_number.simps split: if_splits option.splits)
  then have "validateGeoJsonPolygon (polygon_value (hz_geometry h)) m = Inr (hz_geometry h)"
    by (simp add: validate_polygon_Inr polygon_value_def)
  then show ?thesis using validate_hazard_ok [OF assms] by simp
qed

theorem validated_hazard_ok_witness:
  "validateFloodHazard (\<lambda>_. InvalidDate) sample_hazard_value (num_of_int 2000) = Inr sample_hazard \<and>
   hazard_ok sample_hazard"
  using sample_hazard_valid validated_hazard_ok [OF sample_hazard_valid] by simp

end
