(* ===== verification/Route_Flood_Evaluator.thy ===== *)
theory Route_Flood_Evaluator
  imports Flood_Geometry
begin

text \<open>
  Flood risk of a route, \<^verbatim>\<open>src/src/flood/geometry/route-flood-evaluator.ts\<close>: which hazards a
  route runs through, and the level, score, confidence and validity this gives. All arithmetic
  is binary64; the functions of \<open>Math\<close> that the haversine distance uses are a parameter. The
  loop over the hazards folds the record \<open>route_acc\<close>, whose fields are the loop's variables.
\<close>

section \<open>Definitions\<close>

record evaluated_risk =
  ev_level :: flood_level
  ev_score :: jsnum
  ev_intersectsBlockedArea :: bool
  ev_affectedDistanceMeters :: jsnum
  ev_confidence :: "jsnum option"
  ev_reasonCodes :: "string list"
  ev_evaluatedAt :: js_date
  ev_validUntil :: "js_date option"
  ev_hazardSnapshotId :: "string option"

fun RISK_LEVEL_SEVERITY :: "flood_level \<Rightarrow> int" where
  "RISK_LEVEL_SEVERITY LOW = 0"
| "RISK_LEVEL_SEVERITY UNKNOWN = 1"
| "RISK_LEVEL_SEVERITY MEDIUM = 2"
| "RISK_LEVEL_SEVERITY HIGH = 3"
| "RISK_LEVEL_SEVERITY BLOCKED = 4"

definition haversineDistanceMeters :: "js_math \<Rightarrow> point \<Rightarrow> point \<Rightarrow> jsnum" where
  "haversineDistanceMeters M c1 c2 =
     (let EARTH_RADIUS = Fin 6371000;
          toRad = (\<lambda>deg. js_div (js_mul deg js_PI) (Fin 180));
          dLat = toRad (js_sub (snd c2) (snd c1));
          dLon = toRad (js_sub (fst c2) (fst c1));
          a = js_add (m_square M (m_sin M (js_div dLat (Fin 2))))
                (js_mul (js_mul (m_cos M (toRad (snd c1))) (m_cos M (toRad (snd c2))))
                  (m_square M (m_sin M (js_div dLon (Fin 2))))) in
      js_mul (js_mul (Fin 2) EARTH_RADIUS) (m_asin M (m_sqrt M a)))"

definition ccw :: "point \<Rightarrow> point \<Rightarrow> point \<Rightarrow> bool" where
  "ccw a b c = js_lt
     (js_mul (js_sub (snd b) (snd a)) (js_sub (fst c) (fst a)))
     (js_mul (js_sub (snd c) (snd a)) (js_sub (fst b) (fst a)))"

definition segmentsIntersect :: "point \<Rightarrow> point \<Rightarrow> point \<Rightarrow> point \<Rightarrow> bool" where
  "segmentsIntersect p1 p2 q1 q2 =
     (ccw p1 q1 q2 \<noteq> ccw p2 q1 q2 \<and> ccw p1 p2 q1 \<noteq> ccw p1 p2 q2)"

definition segmentCrossesPolygon :: "point \<Rightarrow> point \<Rightarrow> polygon \<Rightarrow> bool" where
  "segmentCrossesPolygon p1 p2 rings =
     list_ex (\<lambda>ring. list_ex (\<lambda>i. segmentsIntersect p1 p2 (ring ! i) (ring ! (i + 1)))
       [0..<length ring - 1]) rings"

definition ring_epsilon :: jsnum where
  "ring_epsilon = mk_num (1 / 1000000000000)"

definition edge_crossed :: "jsnum \<Rightarrow> jsnum \<Rightarrow> point \<Rightarrow> point \<Rightarrow> bool" where
  "edge_crossed x y vi vj =
     (let xi = fst vi; yi = snd vi; xj = fst vj; yj = snd vj in
      js_lt y yi \<noteq> js_lt y yj \<and>
      js_lt x (js_add (js_div (js_mul (js_sub xj xi) (js_sub y yi))
                 (js_add (js_sub yj yi) ring_epsilon)) xi))"

text \<open>The loop over \<open>i\<close> with \<open>j\<close> the index before it, the last one for \<open>i = 0\<close>.\<close>

definition isPointInRing :: "point \<Rightarrow> ring \<Rightarrow> bool" where
  "isPointInRing p ring =
     foldl (\<lambda>inside i.
       let j = (if i = 0 then length ring - 1 else i - 1) in
       if edge_crossed (fst p) (snd p) (ring ! i) (ring ! j) then \<not> inside else inside)
       False [0..<length ring]"

definition isPointInsidePolygon :: "point \<Rightarrow> polygon \<Rightarrow> bool" where
  "isPointInsidePolygon p rings =
     (case rings of
        [] \<Rightarrow> False
      | outerRing # holes \<Rightarrow>
          if \<not> isPointInRing p outerRing then False
          else \<not> list_ex (isPointInRing p) holes)"

definition calculateRoutePolygonOverlapMeters :: "js_math \<Rightarrow> point list \<Rightarrow> polygon \<Rightarrow> jsnum" where
  "calculateRoutePolygonOverlapMeters M coordinates rings =
     (if length coordinates < 2 then Fin 0
      else foldl (\<lambda>affectedMeters i.
        let p1 = coordinates ! i;
            p2 = coordinates ! (i + 1);
            segDist = haversineDistanceMeters M p1 p2;
            p1Inside = isPointInsidePolygon p1 rings;
            p2Inside = isPointInsidePolygon p2 rings in
        if p1Inside \<and> p2Inside then js_add affectedMeters segDist
        else if p1Inside \<or> p2Inside \<or> segmentCrossesPolygon p1 p2 rings
        then js_add affectedMeters (js_mul segDist (Fin (1 / 2)))
        else affectedMeters) (Fin 0) [0..<length coordinates - 1])"

fun earlier :: "js_date option \<Rightarrow> js_date option \<Rightarrow> js_date option" where
  "earlier earliest None = earliest"
| "earlier None (Some d) = Some d"
| "earlier (Some e) (Some d) = (if date_lt d e then Some d else Some e)"

definition earliestValidUntil :: "flood_hazard list \<Rightarrow> js_date option" where
  "earliestValidUntil hazards = foldl (\<lambda>earliest h. earlier earliest (hz_validUntil h)) None hazards"

record route_acc =
  ra_highestSeverityLevel :: "flood_level option"
  ra_highestSeverityNumber :: int
  ra_intersectsBlockedArea :: bool
  ra_totalAffectedDistanceMeters :: jsnum
  ra_strongestPenalty :: jsnum
  ra_intersectedHazards :: "flood_hazard list"

definition route_acc_init :: route_acc where
  "route_acc_init = \<lparr>
     ra_highestSeverityLevel = None, ra_highestSeverityNumber = - 1,
     ra_intersectsBlockedArea = False, ra_totalAffectedDistanceMeters = Fin 0,
     ra_strongestPenalty = Fin 0, ra_intersectedHazards = [] \<rparr>"

definition affected_distance :: "js_math \<Rightarrow> point list \<Rightarrow> flood_hazard \<Rightarrow> jsnum" where
  "affected_distance M coordinates h = calculateRoutePolygonOverlapMeters M coordinates (hz_geometry h)"

definition route_acc_step :: "js_math \<Rightarrow> point list \<Rightarrow> route_acc \<Rightarrow> flood_hazard \<Rightarrow> route_acc" where
  "route_acc_step M coordinates acc h =
     (let affectedDist = affected_distance M coordinates h in
      if js_lt (Fin 0) affectedDist then
        let severity = RISK_LEVEL_SEVERITY (hz_level h);
            higher = ra_highestSeverityNumber acc < severity in \<lparr>
          ra_highestSeverityLevel =
            (if higher then Some (hz_level h) else ra_highestSeverityLevel acc),
          ra_highestSeverityNumber = (if higher then severity else ra_highestSeverityNumber acc),
          ra_intersectsBlockedArea =
            (if js_eq (hz_routingMultiplier h) (Fin 0) then True else ra_intersectsBlockedArea acc),
          ra_totalAffectedDistanceMeters = js_add (ra_totalAffectedDistanceMeters acc) affectedDist,
          ra_strongestPenalty =
            js_max (ra_strongestPenalty acc) (js_sub (Fin 1) (hz_routingMultiplier h)),
          ra_intersectedHazards = ra_intersectedHazards acc @ [h] \<rparr>
      else acc)"

definition evaluateRoute ::
  "js_math \<Rightarrow> point list \<Rightarrow> jsnum \<Rightarrow> flood_hazard list \<Rightarrow> string option \<Rightarrow> js_date \<Rightarrow> evaluated_risk" where
  "evaluateRoute M coordinates totalDistanceMeters hazards snapshotId now =
     (if length hazards = 0 then \<lparr>
        ev_level = LOW, ev_score = Fin 0, ev_intersectsBlockedArea = False,
        ev_affectedDistanceMeters = Fin 0, ev_confidence = Some (Fin 1),
        ev_reasonCodes = [''NO_ACTIVE_FLOOD_INTERSECTION''], ev_evaluatedAt = now,
        ev_validUntil = None, ev_hazardSnapshotId = snapshotId \<rparr>
      else
        let acc = foldl (route_acc_step M coordinates) route_acc_init hazards;
            intersectedHazards = ra_intersectedHazards acc in
        if length intersectedHazards = 0 then \<lparr>
          ev_level = LOW, ev_score = Fin 0, ev_intersectsBlockedArea = False,
          ev_affectedDistanceMeters = Fin 0, ev_confidence = Some (mk_num (9 / 10)),
          ev_reasonCodes = [''NO_ACTIVE_FLOOD_INTERSECTION''], ev_evaluatedAt = now,
          ev_validUntil = earliestValidUntil hazards, ev_hazardSnapshotId = snapshotId \<rparr>
        else
          let score = (if ra_intersectsBlockedArea acc then Fin 1
                       else js_min (Fin 1) (ra_strongestPenalty acc));
              avgConfidence = js_div
                (foldl (\<lambda>s h. js_add s (hz_confidence h)) (Fin 0) intersectedHazards)
                (num_of_int (int (length intersectedHazards)));
              reasonCodes =
                (if ra_intersectsBlockedArea acc then [''BLOCKED_HAZARD_INTERSECTION'']
                 else if js_eq (ra_strongestPenalty acc) (Fin 0)
                 then [''MONITORED_AREA_INTERSECTION_NO_ROUTING_PENALTY'']
                 else [''FLOOD_HAZARD_INTERSECTION'']) in \<lparr>
            ev_level = the (ra_highestSeverityLevel acc), ev_score = score,
            ev_intersectsBlockedArea = ra_intersectsBlockedArea acc,
            ev_affectedDistanceMeters = js_round (ra_totalAffectedDistanceMeters acc),
            ev_confidence = Some (number_to_fixed 2 avgConfidence),
            ev_reasonCodes = reasonCodes, ev_evaluatedAt = now,
            ev_validUntil = earliestValidUntil intersectedHazards,
            ev_hazardSnapshotId = snapshotId \<rparr>)"

section \<open>The loop over the hazards\<close>

definition overlapped :: "js_math \<Rightarrow> point list \<Rightarrow> flood_hazard list \<Rightarrow> flood_hazard list" where
  "overlapped M coordinates hazards = filter (\<lambda>h. js_lt (Fin 0) (affected_distance M coordinates h)) hazards"

text \<open>What the accumulator holds after the hazards \<open>hs\<close>, in terms of those the route runs through.\<close>

definition acc_inv :: "flood_hazard list \<Rightarrow> route_acc \<Rightarrow> bool" where
  "acc_inv hs acc \<longleftrightarrow>
     ra_intersectedHazards acc = hs \<and>
     (ra_intersectsBlockedArea acc \<longleftrightarrow> (\<exists>h\<in>set hs. hz_routingMultiplier h = Fin 0)) \<and>
     (if hs = [] then ra_highestSeverityNumber acc = - 1
      else \<exists>h\<in>set hs. ra_highestSeverityLevel acc = Some (hz_level h) \<and>
        ra_highestSeverityNumber acc = RISK_LEVEL_SEVERITY (hz_level h)) \<and>
     (\<forall>h\<in>set hs. RISK_LEVEL_SEVERITY (hz_level h) \<le> ra_highestSeverityNumber acc) \<and>
     ra_strongestPenalty acc =
       foldl (\<lambda>p h. js_max p (js_sub (Fin 1) (hz_routingMultiplier h))) (Fin 0) hs"

lemma severity_nonneg [simp]: "0 \<le> RISK_LEVEL_SEVERITY l"
  by (cases l) auto

lemma acc_step_hit:
  assumes "acc_inv hs acc" and "js_lt (Fin 0) (affected_distance M cs h)"
  shows "acc_inv (hs @ [h]) (route_acc_step M cs acc h)"
proof -
  have "- 1 < RISK_LEVEL_SEVERITY (hz_level h)"
    using severity_nonneg [of "hz_level h"] by linarith
  with assms show ?thesis
    by (cases "hs = []") (auto simp: acc_inv_def route_acc_step_def Let_def js_eq_iff)
qed

lemma acc_fold:
  "acc_inv hs acc \<Longrightarrow> acc_inv (hs @ overlapped M cs hazards) (foldl (route_acc_step M cs) acc hazards)"
proof (induction hazards arbitrary: hs acc)
  case Nil
  then show ?case by (simp add: overlapped_def)
next
  case (Cons h hazards)
  show ?case
  proof (cases "js_lt (Fin 0) (affected_distance M cs h)")
    case True
    with Cons.IH [OF acc_step_hit [OF Cons.prems True]] show ?thesis
      by (simp add: overlapped_def)
  next
    case False
    then have "route_acc_step M cs acc h = acc" by (simp add: route_acc_step_def)
    with Cons.IH [OF Cons.prems] False show ?thesis by (simp add: overlapped_def)
  qed
qed

lemma acc_final:
  "acc_inv (overlapped M cs hazards) (foldl (route_acc_step M cs) route_acc_init hazards)"
  using acc_fold [of "[]" route_acc_init] by (simp add: acc_inv_def route_acc_init_def)

section \<open>Bounds\<close>

lemma penalty_fold_unit:
  assumes "in_unit p" and "\<forall>h\<in>set hs. in_unit (hz_routingMultiplier h)"
  shows "in_unit (foldl (\<lambda>p h. js_max p (js_sub (Fin 1) (hz_routingMultiplier h))) p hs)"
  using assms
  by (induction hs arbitrary: p) (auto intro: in_unit_max in_unit_one_minus)

lemma js_max_ge: "x \<noteq> NaN \<Longrightarrow> y \<noteq> NaN \<Longrightarrow> js_le x (js_max x y) \<and> js_le y (js_max x y)"
  by (auto simp: js_max_def js_le_def js_eq_iff dest: js_linear)

lemma in_unit_not_NaN: "in_unit x \<Longrightarrow> x \<noteq> NaN"
  by (auto simp: in_unit_iff)

lemma penalty_fold_ge:
  assumes "in_unit p" and "\<forall>h\<in>set hs. in_unit (hz_routingMultiplier h)"
  shows "js_le p (foldl (\<lambda>p h. js_max p (js_sub (Fin 1) (hz_routingMultiplier h))) p hs) \<and>
    (\<forall>h\<in>set hs. js_le (js_sub (Fin 1) (hz_routingMultiplier h))
      (foldl (\<lambda>p h. js_max p (js_sub (Fin 1) (hz_routingMultiplier h))) p hs))"
  using assms
proof (induction hs arbitrary: p)
  case Nil
  then show ?case by (auto simp: in_unit_iff)
next
  case (Cons h hs)
  let ?q = "js_sub (Fin 1) (hz_routingMultiplier h)"
  have q: "in_unit ?q" using Cons.prems by (simp add: in_unit_one_minus)
  then have "js_le p (js_max p ?q)" "js_le ?q (js_max p ?q)"
    using js_max_ge in_unit_not_NaN Cons.prems by blast+
  with Cons.IH [of "js_max p ?q"] Cons.prems q show ?case
    by (auto intro: in_unit_max js_le_trans)
qed

text \<open>A sum of \<open>n\<close> values of the unit interval stays between 0 and \<open>n\<close>, rounding included.\<close>

lemma confidence_fold_bounds:
  assumes "\<forall>h\<in>set hs. in_unit (hz_confidence h)" and "k + int (length hs) \<le> 2 ^ 53"
    and "0 \<le> k" "0 \<le> s" "s \<le> of_int k"
  shows "\<exists>r. foldl (\<lambda>s h. js_add s (hz_confidence h)) (Fin s) hs = Fin r \<and> 0 \<le> r \<and>
    r \<le> of_int (k + int (length hs))"
  using assms
proof (induction hs arbitrary: k s)
  case Nil
  then show ?case by auto
next
  case (Cons h hs)
  obtain c where c: "hz_confidence h = Fin c" "0 \<le> c" "c \<le> 1"
    using Cons.prems(1) by (auto simp: in_unit_iff)
  have lo: "0 \<le> s + c" and up: "s + c \<le> of_int (k + 1)" using Cons.prems c by auto
  then have "\<bar>s + c\<bar> \<le> of_int (k + 1)" by linarith
  then obtain r where r: "mk_num (s + c) = Fin r" "\<bar>r\<bar> \<le> of_int (k + 1)"
    using mk_num_bounded [of "s + c" "k + 1"] Cons.prems(2) by auto
  have "0 \<le> r" using r(1) round_binary64_nonneg [OF lo]
    by (auto simp: mk_num_def Let_def split: if_splits)
  then have "\<exists>u. foldl (\<lambda>s h. js_add s (hz_confidence h)) (Fin r) hs = Fin u \<and> 0 \<le> u \<and>
    u \<le> of_int ((k + 1) + int (length hs))"
    using Cons.prems r by (intro Cons.IH) auto
  then show ?case by (simp add: c r(1) add.assoc)
qed

lemma number_to_fixed_unit: "in_unit x \<Longrightarrow> in_unit (number_to_fixed 2 x)"
proof -
  assume "in_unit x"
  then obtain a where a: "x = Fin a" "0 \<le> a" "a \<le> 1" by (auto simp: in_unit_iff)
  define n where "n = floor (a * 100 + 1 / 2)"
  have "0 \<le> n" "n \<le> 100" using a by (auto simp: n_def floor_le_iff)
  then have bounds: "0 \<le> of_int n / (100 :: rat)" "of_int n / (100 :: rat) \<le> 1" by auto
  have "number_to_fixed 2 x = mk_num (of_int n / 100)"
    using a by (simp add: to_fixed_scaled_def n_def)
  then show ?thesis
    using mk_num_unit [OF bounds] round_binary64_unit [OF bounds] by (simp add: in_unit_iff)
qed

lemma average_unit:
  assumes "0 \<le> r" and "r \<le> of_int n" and "0 < n"
  shows "in_unit (js_div (Fin r) (num_of_int n))"
proof -
  have "0 \<le> r / of_int n" "r / of_int n \<le> 1" using assms by auto
  then show ?thesis
    using assms(3) mk_num_unit round_binary64_unit by (simp add: num_of_int_def in_unit_iff)
qed

lemma average_confidence_unit:
  assumes "hs \<noteq> []" and "\<forall>h\<in>set hs. in_unit (hz_confidence h)" and "int (length hs) \<le> 2 ^ 53"
  shows "in_unit (number_to_fixed 2 (js_div
    (foldl (\<lambda>s h. js_add s (hz_confidence h)) (Fin 0) hs) (num_of_int (int (length hs)))))"
proof -
  obtain r where r: "foldl (\<lambda>s h. js_add s (hz_confidence h)) (Fin 0) hs = Fin r" "0 \<le> r"
    "r \<le> of_int (int (length hs))"
    using confidence_fold_bounds [OF assms(2), of 0 0] assms(3) by auto
  have "in_unit (js_div (Fin r) (num_of_int (int (length hs))))"
    using average_unit [OF r(2,3)] assms(1) by simp
  then show ?thesis unfolding r(1) by (rule number_to_fixed_unit)
qed

section \<open>The earliest end of validity\<close>

lemma earlier_fold:
  assumes "\<forall>h\<in>set hs. \<forall>d. hz_validUntil h = Some d \<longrightarrow> valid_date d"
    and "\<forall>d. e = Some d \<longrightarrow> valid_date d"
  shows "(foldl (\<lambda>e h. earlier e (hz_validUntil h)) e hs = None \<longleftrightarrow>
      e = None \<and> (\<forall>h\<in>set hs. hz_validUntil h = None)) \<and>
    (\<forall>u. foldl (\<lambda>e h. earlier e (hz_validUntil h)) e hs = Some u \<longrightarrow>
      valid_date u \<and> Some u \<in> insert e (hz_validUntil ` set hs) \<and>
      (\<forall>d. Some d \<in> insert e (hz_validUntil ` set hs) \<longrightarrow> date_le u d))"
  using assms
proof (induction hs arbitrary: e)
  case Nil
  then show ?case by (auto intro: date_le_refl)
next
  case (Cons h hs)
  let ?e = "earlier e (hz_validUntil h)"
  have v: "\<forall>d. ?e = Some d \<longrightarrow> valid_date d"
    using Cons.prems by (cases e; cases "hz_validUntil h") auto
  have none: "?e = None \<longleftrightarrow> e = None \<and> hz_validUntil h = None"
    by (cases e; cases "hz_validUntil h") auto
  have low: "\<exists>u. ?e = Some u \<and> date_le u d" if "e = Some d \<or> hz_validUntil h = Some d" for d
    using that Cons.prems
    by (cases e; cases "hz_validUntil h") (auto simp: date_not_lt intro: date_le_refl date_lt_imp_le)
  have mem: "?e = e \<or> ?e = hz_validUntil h"
    by (cases e; cases "hz_validUntil h") auto
  note IH = Cons.IH [OF _ v]
  show ?case
  proof (intro conjI allI impI)
    show "foldl (\<lambda>e h. earlier e (hz_validUntil h)) e (h # hs) = None \<longleftrightarrow>
      e = None \<and> (\<forall>h\<in>set (h # hs). hz_validUntil h = None)"
      using IH Cons.prems none by auto
  next
    fix u
    assume "foldl (\<lambda>e h. earlier e (hz_validUntil h)) e (h # hs) = Some u"
    then have u: "valid_date u" "Some u \<in> insert ?e (hz_validUntil ` set hs)"
      "\<forall>d. Some d \<in> insert ?e (hz_validUntil ` set hs) \<longrightarrow> date_le u d"
      using IH Cons.prems by auto
    show "valid_date u" by (rule u(1))
    show "Some u \<in> insert e (hz_validUntil ` set (h # hs))" using u(2) mem by auto
    fix d
    assume "Some d \<in> insert e (hz_validUntil ` set (h # hs))"
    then consider "e = Some d \<or> hz_validUntil h = Some d" | "Some d \<in> hz_validUntil ` set hs" by auto
    then show "date_le u d"
      using u(3) low [of d] by cases (metis date_le_trans insertI1, simp)
  qed
qed

lemma earliest_spec:
  assumes "\<forall>h\<in>set hs. \<forall>d. hz_validUntil h = Some d \<longrightarrow> valid_date d"
  shows "earliestValidUntil hs = None \<longleftrightarrow> (\<forall>h\<in>set hs. hz_validUntil h = None)"
    and "earliestValidUntil hs = Some u \<Longrightarrow>
      Some u \<in> hz_validUntil ` set hs \<and> (\<forall>h\<in>set hs. \<forall>d. hz_validUntil h = Some d \<longrightarrow> date_le u d)"
  using earlier_fold [OF assms, of None] by (auto simp: earliestValidUntil_def rev_image_eqI)

text \<open>A concrete choice of the approximated functions, for sample evaluations.\<close>

definition sample_math :: js_math where
  "sample_math = \<lparr> m_sin = (\<lambda>x. x), m_cos = (\<lambda>x. Fin 1), m_asin = (\<lambda>x. x), m_sqrt = (\<lambda>x. x),
     m_atan2 = (\<lambda>y x. Fin 0), m_square = (\<lambda>x. js_mul x x) \<rparr>"

lemma risk_in_unit:
  assumes "\<forall>h\<in>set hazards. in_unit (hz_routingMultiplier h) \<and> in_unit (hz_confidence h)"
    and "int (length hazards) \<le> 2 ^ 53"
  shows "let e = evaluateRoute M coordinates meters hazards snapshotId now in
    in_unit (ev_score e) \<and> (\<exists>c. ev_confidence e = Some c \<and> in_unit c) \<and>
    (\<forall>h\<in>set (overlapped M coordinates hazards).
      js_le (js_sub (Fin 1) (hz_routingMultiplier h)) (ev_score e))"
proof -
  define hs where "hs = overlapped M coordinates hazards"
  define acc where "acc = foldl (route_acc_step M coordinates) route_acc_init hazards"
  let ?p = "foldl (\<lambda>p h. js_max p (js_sub (Fin 1) (hz_routingMultiplier h))) (Fin 0) hs"
  have inv: "acc_inv hs acc" unfolding hs_def acc_def by (rule acc_final)
  have units: "in_unit (Fin 0)" "in_unit (Fin 1)" "in_unit (mk_num (9 / 10))"
    using mk_num_unit [of "9 / 10"] round_binary64_unit [of "9 / 10"] by (auto simp: in_unit_iff)
  have ok: "\<forall>h\<in>set hs. in_unit (hz_routingMultiplier h)" "\<forall>h\<in>set hs. in_unit (hz_confidence h)"
    using assms(1) by (auto simp: hs_def overlapped_def)
  have le_one: "in_unit x \<Longrightarrow> js_le x (Fin 1) \<and> js_min (Fin 1) x = x" for x
    by (auto simp: in_unit_iff js_min_def)
  note p = penalty_fold_unit [OF units(1) ok(1)] penalty_fold_ge [OF units(1) ok(1)]
  have pen: "\<forall>h\<in>set hs. js_le (js_sub (Fin 1) (hz_routingMultiplier h)) (Fin 1)"
    using ok(1) in_unit_one_minus le_one by blast
  have len: "length hs \<le> length hazards" by (simp add: hs_def overlapped_def)
  show ?thesis
  proof (cases "hs = []")
    case True
    with inv units show ?thesis
      by (simp add: evaluateRoute_def Let_def acc_inv_def flip: hs_def acc_def)
  next
    case False
    have "int (length hs) \<le> 2 ^ 53" using len assms(2) by linarith
    with average_confidence_unit [OF False ok(2)] False inv p le_one [OF p(1)] pen units len show ?thesis
      by (auto simp: evaluateRoute_def Let_def acc_inv_def simp flip: hs_def acc_def)
  qed
qed

section \<open>Properties\<close>

text \<open>
  C5: A route is reported as crossing a blocked area exactly when one of the hazards it runs
  through has routing multiplier 0, and then its score is 1; its level is the most severe level
  of the hazards it runs through, and LOW with score 0 when there is none.
\<close>

theorem route_risk_spec:
  "let e = evaluateRoute M coordinates meters hazards snapshotId now;
       hs = overlapped M coordinates hazards in
   (ev_intersectsBlockedArea e \<longleftrightarrow> (\<exists>h\<in>set hs. hz_routingMultiplier h = Fin 0)) \<and>
   (ev_reasonCodes e = [''BLOCKED_HAZARD_INTERSECTION''] \<longleftrightarrow> ev_intersectsBlockedArea e) \<and>
   (if hs = [] then ev_level e = LOW \<and> ev_score e = Fin 0 \<and> ev_affectedDistanceMeters e = Fin 0
    else ev_level e \<in> hz_level ` set hs \<and>
      RISK_LEVEL_SEVERITY (ev_level e) = Max ((\<lambda>h. RISK_LEVEL_SEVERITY (hz_level h)) ` set hs) \<and>
      (if ev_intersectsBlockedArea e then ev_score e = Fin 1 else True))"
proof -
  define hs where "hs = overlapped M coordinates hazards"
  define acc where "acc = foldl (route_acc_step M coordinates) route_acc_init hazards"
  have inv: "acc_inv hs acc" unfolding hs_def acc_def by (rule acc_final)
  show ?thesis
  proof (cases "hs = []")
    case True
    with inv show ?thesis
      by (simp add: evaluateRoute_def Let_def acc_inv_def flip: hs_def acc_def)
  next
    case False
    then have "hazards \<noteq> []" by (auto simp: hs_def overlapped_def)
    obtain h where h: "h \<in> set hs" "ra_highestSeverityLevel acc = Some (hz_level h)"
      "\<forall>g\<in>set hs. RISK_LEVEL_SEVERITY (hz_level g) \<le> RISK_LEVEL_SEVERITY (hz_level h)"
      using inv False by (auto simp: acc_inv_def)
    have "Max ((\<lambda>h. RISK_LEVEL_SEVERITY (hz_level h)) ` set hs) = RISK_LEVEL_SEVERITY (hz_level h)"
      using h by (intro Max_eqI) auto
    with h inv False \<open>hazards \<noteq> []\<close> show ?thesis
      by (simp add: evaluateRoute_def Let_def acc_inv_def flip: hs_def acc_def)
  qed
qed

text \<open>
  With multipliers and confidences between 0 and 1, as the validators establish, the score of
  a route and its confidence lie between 0 and 1, rounding included, and the score is at least
  the penalty of every hazard the route runs through.
\<close>

theorem route_risk_bounds:
  assumes "\<forall>h\<in>set hazards. in_unit (hz_routingMultiplier h) \<and> in_unit (hz_confidence h)"
    and "int (length hazards) \<le> 2 ^ 53"
  shows "let e = evaluateRoute M coordinates meters hazards snapshotId now in
    in_unit (ev_score e) \<and> (\<exists>c. ev_confidence e = Some c \<and> in_unit c) \<and>
    (\<forall>h\<in>set (overlapped M coordinates hazards).
      js_le (js_sub (Fin 1) (hz_routingMultiplier h)) (ev_score e))"
  using assms by (rule risk_in_unit)

theorem route_risk_bounds_witness:
  "in_unit (ev_score (evaluateRoute sample_math [(Fin 1, Fin 1), (Fin 2, Fin 2)] (Fin 100) [sample_hazard]
     (Some ''s'') (Date 2000)))"
proof -
  have "\<forall>h\<in>set [sample_hazard]. in_unit (hz_routingMultiplier h) \<and> in_unit (hz_confidence h)"
    by (simp add: sample_hazard_def in_unit_def)
  from route_risk_bounds [OF this, of sample_math "[(Fin 1, Fin 1), (Fin 2, Fin 2)]" "Fin 100" "Some ''s''" "Date 2000"]
  show ?thesis by (simp add: Let_def)
qed

text \<open>
  The validity reported for a route never exceeds that of the hazards its risk rests on: the
  hazards it runs through, or all active hazards when it runs through none.
\<close>

theorem route_risk_validity:
  assumes "\<forall>h\<in>set hazards. \<forall>d. hz_validUntil h = Some d \<longrightarrow> valid_date d"
    and "h \<in> set (if overlapped M coordinates hazards = [] then hazards
                 else overlapped M coordinates hazards)"
    and "hz_validUntil h = Some d"
  shows "\<exists>u. ev_validUntil (evaluateRoute M coordinates meters hazards snapshotId now) = Some u \<and> date_le u d"
proof -
  define hs where "hs = overlapped M coordinates hazards"
  define acc where "acc = foldl (route_acc_step M coordinates) route_acc_init hazards"
  have inv: "acc_inv hs acc" unfolding hs_def acc_def by (rule acc_final)
  define src where "src = (if hs = [] then hazards else hs)"
  have src: "h \<in> set src" using assms(2) unfolding src_def hs_def .
  then have "hazards \<noteq> []" by (auto simp: src_def hs_def overlapped_def split: if_splits)
  then have until: "ev_validUntil (evaluateRoute M coordinates meters hazards snapshotId now) =
    earliestValidUntil src"
    using inv by (simp add: evaluateRoute_def Let_def acc_inv_def src_def flip: hs_def acc_def)
  have "\<forall>h\<in>set src. \<forall>d. hz_validUntil h = Some d \<longrightarrow> valid_date d"
    using assms(1) by (auto simp: src_def hs_def overlapped_def)
  note spec = earliest_spec [OF this]
  then obtain u where "earliestValidUntil src = Some u" using src assms(3) by force
  with spec src assms(3) until show ?thesis by auto
qed

theorem route_risk_validity_witness:
  "\<exists>u. ev_validUntil (evaluateRoute sample_math [] (Fin 0) [sample_hazard] None (Date 0)) = Some u \<and>
     date_le u (Date 5000)"
proof (rule route_risk_validity [where h = sample_hazard])
  show "sample_hazard \<in> set (if overlapped sample_math [] [sample_hazard] = [] then [sample_hazard]
      else overlapped sample_math [] [sample_hazard])"
    by (auto simp: overlapped_def)
qed (simp_all add: sample_hazard_def)

end
