(* ===== verification/Sensor_Validator.thy ===== *)
theory Sensor_Validator
  imports Route_Flood_Evaluator
begin

text \<open>
  Validation of a sensor deployment, \<^verbatim>\<open>src/src/flood/sensors/sensor-deployment.validator.ts\<close>. Every
  \<open>throw\<close> of the source is a value of \<open>deployment_error\<close>, and \<open>error_field\<close> is the field
  name the thrown error carries. The lemmas show that the deployments the validator returns are
  exactly the well-formed ones, so the classifier's and the evaluator's hypotheses on
  thresholds, multipliers and polygons hold for every stored deployment.
\<close>

section \<open>Definitions\<close>

datatype deployment_error =
    DEPLOYMENT_NOT_OBJECT
  | NODE_ID_INVALID
  | ENABLED_NOT_BOOLEAN
  | NOT_FINITE string
  | OUT_OF_RANGE string
  | POLYGON_INVALID geometry_error
  | LOCATION_OUTSIDE_POLYGON
  | NOT_NON_NEGATIVE_INTEGER string
  | POLL_INTERVAL_TOO_SHORT
  | STALE_BEFORE_POLL
  | THRESHOLD_ORDER
  | HYSTERESIS_OVERLAP
  | REFERENCE_OVERRIDE_INVALID

fun error_field :: "deployment_error \<Rightarrow> string" where
  "error_field DEPLOYMENT_NOT_OBJECT = ''deployment''"
| "error_field NODE_ID_INVALID = ''nodeId''"
| "error_field ENABLED_NOT_BOOLEAN = ''enabled''"
| "error_field (NOT_FINITE f) = f"
| "error_field (OUT_OF_RANGE f) = f"
| "error_field (POLYGON_INVALID e) = ''coveragePolygon''"
| "error_field LOCATION_OUTSIDE_POLYGON = ''coveragePolygon''"
| "error_field (NOT_NON_NEGATIVE_INTEGER f) = f"
| "error_field POLL_INTERVAL_TOO_SHORT = ''expectedPollIntervalMinutes''"
| "error_field STALE_BEFORE_POLL = ''staleAfterMinutes''"
| "error_field THRESHOLD_ORDER = ''thresholds''"
| "error_field HYSTERESIS_OVERLAP = ''hysteresisMm''"
| "error_field REFERENCE_OVERRIDE_INVALID = ''referenceDistanceOverrideMm''"

fun finiteNumber :: "jsval \<Rightarrow> string \<Rightarrow> (deployment_error, jsnum) result" where
  "finiteNumber (JNum x) f = (if is_finite x then Inr x else Inl (NOT_FINITE f))"
| "finiteNumber v f = Inl (NOT_FINITE f)"

definition nonNegativeSafeInteger :: "jsval \<Rightarrow> string \<Rightarrow> (deployment_error, int) result" where
  "nonNegativeSafeInteger v f =
     (if \<not> val_safe_integer v \<or> val_int v < 0 then Inl (NOT_NON_NEGATIVE_INTEGER f)
      else Inr (val_int v))"

definition nullableReferenceDistance :: "jsval \<Rightarrow> (deployment_error, int option) result" where
  "nullableReferenceDistance v =
     (if v = JUndefined \<or> v = JNull then Inr None
      else if \<not> val_safe_integer v \<or> val_int v < 1 \<or> 4294967295 < val_int v
      then Inl REFERENCE_OVERRIDE_INVALID
      else Inr (Some (val_int v)))"

definition multiplier :: "jsval \<Rightarrow> string \<Rightarrow> (deployment_error, jsnum) result" where
  "multiplier v f =
     res_bind (finiteNumber v f) (\<lambda>parsed.
       if js_lt parsed (Fin 0) \<or> js_lt (Fin 1) parsed then Inl (OUT_OF_RANGE f) else Inr parsed)"

fun node_id_of :: "jsval \<Rightarrow> (deployment_error, string) result" where
  "node_id_of (JStr s) = (if id_pattern 24 s then Inr s else Inl NODE_ID_INVALID)"
| "node_id_of v = Inl NODE_ID_INVALID"

fun enabled_of :: "jsval \<Rightarrow> (deployment_error, bool) result" where
  "enabled_of (JBool b) = Inr b"
| "enabled_of v = Inl ENABLED_NOT_BOOLEAN"

definition covering_polygon ::
  "jsval \<Rightarrow> jsnum \<Rightarrow> jsnum \<Rightarrow> jsnum \<Rightarrow> (deployment_error, polygon) result" where
  "covering_polygon v maxPolygonVertices longitude latitude =
     (case validateGeoJsonPolygon v maxPolygonVertices of
        Inl e \<Rightarrow> Inl (POLYGON_INVALID e)
      | Inr p \<Rightarrow>
          if \<not> isPointInsidePolygon (longitude, latitude) p then Inl LOCATION_OUTSIDE_POLYGON
          else Inr p)"

definition validateSensorDeployment :: "jsval \<Rightarrow> jsnum \<Rightarrow> (deployment_error, deployment_write) result" where
  "validateSensorDeployment input maxPolygonVertices =
     (if \<not> isRecord input then Inl DEPLOYMENT_NOT_OBJECT else
      res_bind (node_id_of (jprop input ''nodeId'')) (\<lambda>nodeId.
      res_bind (enabled_of (jprop input ''enabled'')) (\<lambda>enabled.
      res_bind (finiteNumber (jprop input ''latitude'') ''latitude'') (\<lambda>latitude.
      res_bind (finiteNumber (jprop input ''longitude'') ''longitude'') (\<lambda>longitude.
      if js_lt latitude (Fin (- 90)) \<or> js_lt (Fin 90) latitude then Inl (OUT_OF_RANGE ''latitude'')
      else if js_lt longitude (Fin (- 180)) \<or> js_lt (Fin 180) longitude
        then Inl (OUT_OF_RANGE ''longitude'')
      else
      res_bind (covering_polygon (jprop input ''coveragePolygon'') maxPolygonVertices longitude latitude)
        (\<lambda>coveragePolygon.
      res_bind (nonNegativeSafeInteger (jprop input ''expectedPollIntervalMinutes'')
          ''expectedPollIntervalMinutes'') (\<lambda>expectedPollIntervalMinutes.
      if expectedPollIntervalMinutes < 1 then Inl POLL_INTERVAL_TOO_SHORT else
      res_bind (nonNegativeSafeInteger (jprop input ''staleAfterMinutes'') ''staleAfterMinutes'')
        (\<lambda>staleAfterMinutes.
      if staleAfterMinutes < expectedPollIntervalMinutes then Inl STALE_BEFORE_POLL else
      res_bind (nonNegativeSafeInteger (jprop input ''hysteresisMm'') ''hysteresisMm'')
        (\<lambda>hysteresisMm.
      res_bind (nonNegativeSafeInteger (jprop input ''mediumThresholdMm'') ''mediumThresholdMm'')
        (\<lambda>mediumThresholdMm.
      res_bind (nonNegativeSafeInteger (jprop input ''highThresholdMm'') ''highThresholdMm'')
        (\<lambda>highThresholdMm.
      res_bind (nonNegativeSafeInteger (jprop input ''blockedThresholdMm'') ''blockedThresholdMm'')
        (\<lambda>blockedThresholdMm.
      if highThresholdMm \<le> mediumThresholdMm \<or> blockedThresholdMm \<le> highThresholdMm
        then Inl THRESHOLD_ORDER
      else if mediumThresholdMm < hysteresisMm \<or>
              highThresholdMm - mediumThresholdMm < hysteresisMm \<or>
              blockedThresholdMm - highThresholdMm < hysteresisMm
        then Inl HYSTERESIS_OVERLAP
      else
      res_bind (nullableReferenceDistance (jprop input ''referenceDistanceOverrideMm''))
        (\<lambda>referenceDistanceOverrideMm.
      res_bind (multiplier (jprop input ''lowMultiplier'') ''lowMultiplier'') (\<lambda>lowMultiplier.
      res_bind (multiplier (jprop input ''mediumMultiplier'') ''mediumMultiplier'') (\<lambda>mediumMultiplier.
      res_bind (multiplier (jprop input ''highMultiplier'') ''highMultiplier'') (\<lambda>highMultiplier.
      res_bind (multiplier (jprop input ''blockedMultiplier'') ''blockedMultiplier'') (\<lambda>blockedMultiplier.
      res_bind (multiplier (jprop input ''unknownMultiplier'') ''unknownMultiplier'') (\<lambda>unknownMultiplier.
      Inr \<lparr>
        dep_nodeId = nodeId,
        dep_enabled = enabled,
        dep_latitude = latitude,
        dep_longitude = longitude,
        dep_coveragePolygon = coveragePolygon,
        dep_referenceDistanceOverrideMm = referenceDistanceOverrideMm,
        dep_expectedPollIntervalMinutes = expectedPollIntervalMinutes,
        dep_staleAfterMinutes = staleAfterMinutes,
        dep_hysteresisMm = hysteresisMm,
        dep_mediumThresholdMm = mediumThresholdMm,
        dep_highThresholdMm = highThresholdMm,
        dep_blockedThresholdMm = blockedThresholdMm,
        dep_lowMultiplier = lowMultiplier,
        dep_mediumMultiplier = mediumMultiplier,
        dep_highMultiplier = highMultiplier,
        dep_blockedMultiplier = blockedMultiplier,
        dep_unknownMultiplier = unknownMultiplier \<rparr>))))))))))))))))))"

section \<open>Well-formed deployments\<close>

definition non_negative_safe :: "int \<Rightarrow> bool" where
  "non_negative_safe n \<longleftrightarrow> 0 \<le> n \<and> n \<le> max_safe_integer"

definition location_ok :: "('a) deployment_write_scheme \<Rightarrow> bool" where
  "location_ok d \<longleftrightarrow> coordinate_ok (dep_longitude d) (dep_latitude d) \<and>
     polygon_ok (dep_coveragePolygon d) \<and>
     isPointInsidePolygon (dep_longitude d, dep_latitude d) (dep_coveragePolygon d)"

definition intervals_ok :: "('a) deployment_write_scheme \<Rightarrow> bool" where
  "intervals_ok d \<longleftrightarrow> 1 \<le> dep_expectedPollIntervalMinutes d \<and>
     dep_expectedPollIntervalMinutes d \<le> dep_staleAfterMinutes d \<and>
     dep_staleAfterMinutes d \<le> max_safe_integer"

definition override_ok :: "('a) deployment_write_scheme \<Rightarrow> bool" where
  "override_ok d \<longleftrightarrow> (case dep_referenceDistanceOverrideMm d of None \<Rightarrow> True
     | Some r \<Rightarrow> 1 \<le> r \<and> r \<le> 4294967295)"

definition deployment_ok :: "('a) deployment_write_scheme \<Rightarrow> bool" where
  "deployment_ok d \<longleftrightarrow> id_pattern 24 (dep_nodeId d) \<and> location_ok d \<and> intervals_ok d \<and>
     thresholds_ok d \<and> dep_blockedThresholdMm d \<le> max_safe_integer \<and> override_ok d \<and> multipliers_ok d"

text \<open>The object a client sends for a deployment.\<close>

definition deployment_value :: "('a) deployment_write_scheme \<Rightarrow> jsval" where
  "deployment_value d = JObj [
     (''nodeId'', JStr (dep_nodeId d)),
     (''enabled'', JBool (dep_enabled d)),
     (''latitude'', JNum (dep_latitude d)),
     (''longitude'', JNum (dep_longitude d)),
     (''coveragePolygon'', polygon_value (dep_coveragePolygon d)),
     (''referenceDistanceOverrideMm'', case dep_referenceDistanceOverrideMm d of
        None \<Rightarrow> JNull | Some r \<Rightarrow> JNum (num_of_int r)),
     (''expectedPollIntervalMinutes'', JNum (num_of_int (dep_expectedPollIntervalMinutes d))),
     (''staleAfterMinutes'', JNum (num_of_int (dep_staleAfterMinutes d))),
     (''hysteresisMm'', JNum (num_of_int (dep_hysteresisMm d))),
     (''mediumThresholdMm'', JNum (num_of_int (dep_mediumThresholdMm d))),
     (''highThresholdMm'', JNum (num_of_int (dep_highThresholdMm d))),
     (''blockedThresholdMm'', JNum (num_of_int (dep_blockedThresholdMm d))),
     (''lowMultiplier'', JNum (dep_lowMultiplier d)),
     (''mediumMultiplier'', JNum (dep_mediumMultiplier d)),
     (''highMultiplier'', JNum (dep_highMultiplier d)),
     (''blockedMultiplier'', JNum (dep_blockedMultiplier d)),
     (''unknownMultiplier'', JNum (dep_unknownMultiplier d))]"

lemma finiteNumber_Inr: "finiteNumber v f = Inr x \<longleftrightarrow> v = JNum x \<and> is_finite x"
  by (cases v) auto

lemma nonNegativeSafeInteger_Inr:
  "nonNegativeSafeInteger v f = Inr n \<longleftrightarrow> v = JNum (num_of_int n) \<and> non_negative_safe n"
  by (auto simp: nonNegativeSafeInteger_def val_safe_integer_iff non_negative_safe_def)

lemma nullableReferenceDistance_Inr:
  "nullableReferenceDistance v = Inr r \<longleftrightarrow>
     (case r of None \<Rightarrow> v = JUndefined \<or> v = JNull
      | Some n \<Rightarrow> v = JNum (num_of_int n) \<and> 1 \<le> n \<and> n \<le> 4294967295)"
  by (auto simp: nullableReferenceDistance_def val_safe_integer_iff max_safe_integer_def split: option.splits)

lemma multiplier_Inr: "multiplier v f = Inr x \<longleftrightarrow> v = JNum x \<and> in_unit x"
  by (cases v) (auto simp: multiplier_def in_unit_iff is_finite_iff)

lemma node_id_of_Inr: "node_id_of v = Inr s \<longleftrightarrow> v = JStr s \<and> id_pattern 24 s"
  by (cases v) auto

lemma enabled_of_Inr: "enabled_of v = Inr b \<longleftrightarrow> v = JBool b"
  by (cases v) auto

lemma covering_polygon_Inr:
  "covering_polygon v m lng lat = Inr p \<longleftrightarrow>
     validateGeoJsonPolygon v m = Inr p \<and> isPointInsidePolygon (lng, lat) p"
  by (auto simp: covering_polygon_def split: sum.splits)

lemmas field_readers = finiteNumber_Inr nonNegativeSafeInteger_Inr nullableReferenceDistance_Inr
  multiplier_Inr node_id_of_Inr enabled_of_Inr covering_polygon_Inr

section \<open>The deployments the validator returns\<close>

lemma validate_deployment_Inr:
  "validateSensorDeployment v m = Inr w \<longleftrightarrow>
     isRecord v \<and>
     jprop v ''nodeId'' = JStr (dep_nodeId w) \<and> id_pattern 24 (dep_nodeId w) \<and>
     jprop v ''enabled'' = JBool (dep_enabled w) \<and>
     jprop v ''latitude'' = JNum (dep_latitude w) \<and> jprop v ''longitude'' = JNum (dep_longitude w) \<and>
     coordinate_ok (dep_longitude w) (dep_latitude w) \<and>
     validateGeoJsonPolygon (jprop v ''coveragePolygon'') m = Inr (dep_coveragePolygon w) \<and>
     isPointInsidePolygon (dep_longitude w, dep_latitude w) (dep_coveragePolygon w) \<and>
     jprop v ''expectedPollIntervalMinutes'' = JNum (num_of_int (dep_expectedPollIntervalMinutes w)) \<and>
     jprop v ''staleAfterMinutes'' = JNum (num_of_int (dep_staleAfterMinutes w)) \<and> intervals_ok w \<and>
     jprop v ''hysteresisMm'' = JNum (num_of_int (dep_hysteresisMm w)) \<and>
     jprop v ''mediumThresholdMm'' = JNum (num_of_int (dep_mediumThresholdMm w)) \<and>
     jprop v ''highThresholdMm'' = JNum (num_of_int (dep_highThresholdMm w)) \<and>
     jprop v ''blockedThresholdMm'' = JNum (num_of_int (dep_blockedThresholdMm w)) \<and>
     thresholds_ok w \<and> dep_blockedThresholdMm w \<le> max_safe_integer \<and>
     (case dep_referenceDistanceOverrideMm w of
        None \<Rightarrow> jprop v ''referenceDistanceOverrideMm'' \<in> {JUndefined, JNull}
      | Some r \<Rightarrow> jprop v ''referenceDistanceOverrideMm'' = JNum (num_of_int r) \<and> 1 \<le> r \<and> r \<le> 4294967295) \<and>
     jprop v ''lowMultiplier'' = JNum (dep_lowMultiplier w) \<and>
     jprop v ''mediumMultiplier'' = JNum (dep_mediumMultiplier w) \<and>
     jprop v ''highMultiplier'' = JNum (dep_highMultiplier w) \<and>
     jprop v ''blockedMultiplier'' = JNum (dep_blockedMultiplier w) \<and>
     jprop v ''unknownMultiplier'' = JNum (dep_unknownMultiplier w) \<and> multipliers_ok w"
  (is "?l \<longleftrightarrow> ?r")
proof
  assume ?l
  then show ?r
    unfolding validateSensorDeployment_def if_Inl_Inr res_bind_Inr field_readers
    by (elim conjE exE, simp only: sum.inject de_Morgan_disj not_less not_le, elim conjE, hypsubst)
      (simp only: deployment_write.select_convs coordinate_ok_def intervals_ok_def thresholds_ok_def
        multipliers_ok_def non_negative_safe_def insert_iff empty_iff simp_thms diff_ge_0_iff_ge)
next
  assume r: ?r
  have ints: "intervals_ok w \<Longrightarrow> non_negative_safe (dep_expectedPollIntervalMinutes w) \<and>
      non_negative_safe (dep_staleAfterMinutes w)"
    "thresholds_ok w \<Longrightarrow> dep_blockedThresholdMm w \<le> max_safe_integer \<Longrightarrow>
      non_negative_safe (dep_hysteresisMm w) \<and> non_negative_safe (dep_mediumThresholdMm w) \<and>
      non_negative_safe (dep_highThresholdMm w) \<and> non_negative_safe (dep_blockedThresholdMm w)"
    by (simp_all add: non_negative_safe_def intervals_ok_def thresholds_ok_def)
  have readers:
    "node_id_of (jprop v ''nodeId'') = Inr (dep_nodeId w)"
    "enabled_of (jprop v ''enabled'') = Inr (dep_enabled w)"
    "finiteNumber (jprop v ''latitude'') ''latitude'' = Inr (dep_latitude w)"
    "finiteNumber (jprop v ''longitude'') ''longitude'' = Inr (dep_longitude w)"
    "covering_polygon (jprop v ''coveragePolygon'') m (dep_longitude w) (dep_latitude w) =
      Inr (dep_coveragePolygon w)"
    "nonNegativeSafeInteger (jprop v ''expectedPollIntervalMinutes'') ''expectedPollIntervalMinutes'' =
      Inr (dep_expectedPollIntervalMinutes w)"
    "nonNegativeSafeInteger (jprop v ''staleAfterMinutes'') ''staleAfterMinutes'' = Inr (dep_staleAfterMinutes w)"
    "nonNegativeSafeInteger (jprop v ''hysteresisMm'') ''hysteresisMm'' = Inr (dep_hysteresisMm w)"
    "nonNegativeSafeInteger (jprop v ''mediumThresholdMm'') ''mediumThresholdMm'' = Inr (dep_mediumThresholdMm w)"
    "nonNegativeSafeInteger (jprop v ''highThresholdMm'') ''highThresholdMm'' = Inr (dep_highThresholdMm w)"
    "nonNegativeSafeInteger (jprop v ''blockedThresholdMm'') ''blockedThresholdMm'' = Inr (dep_blockedThresholdMm w)"
    "nullableReferenceDistance (jprop v ''referenceDistanceOverrideMm'') = Inr (dep_referenceDistanceOverrideMm w)"
    "multiplier (jprop v ''lowMultiplier'') ''lowMultiplier'' = Inr (dep_lowMultiplier w)"
    "multiplier (jprop v ''mediumMultiplier'') ''mediumMultiplier'' = Inr (dep_mediumMultiplier w)"
    "multiplier (jprop v ''highMultiplier'') ''highMultiplier'' = Inr (dep_highMultiplier w)"
    "multiplier (jprop v ''blockedMultiplier'') ''blockedMultiplier'' = Inr (dep_blockedMultiplier w)"
    "multiplier (jprop v ''unknownMultiplier'') ''unknownMultiplier'' = Inr (dep_unknownMultiplier w)"
    unfolding field_readers using r ints
    by (simp_all add: multipliers_ok_def coordinate_ok_def cong: option.case_cong)
  have "isRecord v" "coordinate_ok (dep_longitude w) (dep_latitude w)" "intervals_ok w" "thresholds_ok w"
    using r by simp_all
  then show ?l
    by (simp add: validateSensorDeployment_def readers coordinate_ok_def intervals_ok_def thresholds_ok_def)
qed

lemma validated_deployment_ok: "validateSensorDeployment v m = Inr w \<Longrightarrow> deployment_ok w"
  unfolding validate_deployment_Inr deployment_ok_def location_ok_def override_ok_def validate_polygon_Inr
  by (auto split: option.splits)

lemma validate_deployment_value:
  assumes "deployment_ok w" and "is_safe_integer m" "4 \<le> int_of_num m"
    and "int (total_vertices (dep_coveragePolygon w)) \<le> int_of_num m"
  shows "validateSensorDeployment (deployment_value w) m = Inr (deployment_write.truncate w)"
  using assms
  unfolding validate_deployment_Inr validate_polygon_Inr deployment_ok_def location_ok_def override_ok_def
    intervals_ok_def thresholds_ok_def multipliers_ok_def
  by (simp add: deployment_value_def polygon_value_def deployment_write.defs split: option.splits)

section \<open>Properties\<close>


end
