(* ===== verification/Sensor_Deployments.thy ===== *)
theory Sensor_Deployments
  imports Database Sensor_Validator
begin

text \<open>
  Storing deployments and their derived states:
  \<^verbatim>\<open>src/src/flood/sensors/sensor-deployment.repository.ts\<close> (the SQL statements as actions on the
  store, and the mapping of rows to records with its safe-integer checks) and
  \<^verbatim>\<open>src/src/flood/sensors/sensor-deployment.service.ts\<close> (the transactions that upsert a deployment
  and recompute a node's state). \<open>clock\<close> is the value of \<open>clock_timestamp()\<close> in a
  statement, \<open>now\<close> that of the injected clock, and \<open>node_le\<close> the collation of the database.
  The lemmas show the configuration version counts the changes, the latest telemetry is the
  newest of the newest per session, the stored state always agrees with the stored deployment,
  and the statements never violate a check of the schema, given a validated deployment.
\<close>

section \<open>Rows to records\<close>

definition safeInteger :: "int \<Rightarrow> string \<Rightarrow> (db_error, int) result" where
  "safeInteger v field =
     (if \<bar>v\<bar> \<le> max_safe_integer then Inr v else Inl (UNSAFE_INTEGER field))"

fun nullable_integer :: "int option \<Rightarrow> string \<Rightarrow> (db_error, int option) result" where
  "nullable_integer None field = Inr None"
| "nullable_integer (Some v) field = res_bind (safeInteger v field) (\<lambda>n. Inr (Some n))"

definition mapDeployment :: "deployment \<Rightarrow> (db_error, deployment) result" where
  "mapDeployment row =
     res_bind (nullable_integer (dep_referenceDistanceOverrideMm row) ''reference_distance_override_mm'')
       (\<lambda>override.
     res_bind (safeInteger (dep_hysteresisMm row) ''hysteresis_mm'') (\<lambda>hysteresis.
     res_bind (safeInteger (dep_mediumThresholdMm row) ''medium_threshold_mm'') (\<lambda>medium.
     res_bind (safeInteger (dep_highThresholdMm row) ''high_threshold_mm'') (\<lambda>high.
     res_bind (safeInteger (dep_blockedThresholdMm row) ''blocked_threshold_mm'') (\<lambda>blocked.
     res_bind (safeInteger (dep_configVersion row) ''config_version'') (\<lambda>version.
     Inr (row\<lparr>
       dep_referenceDistanceOverrideMm := override,
       dep_hysteresisMm := hysteresis,
       dep_mediumThresholdMm := medium,
       dep_highThresholdMm := high,
       dep_blockedThresholdMm := blocked,
       dep_configVersion := version \<rparr>)))))))"

text \<open>The columns of a state as a left join returns them: all null when there is no state.\<close>

record state_row =
  sr_state_node_id :: "string option"
  sr_telemetry_id :: "int option"
  sr_observed_at :: "js_date option"
  sr_observation_source :: "observation_source option"
  sr_valid_until :: "js_date option"
  sr_reference_distance_mm :: "int option"
  sr_node_reference_distance_mm :: "int option"
  sr_accepted_distance_mm :: "int option"
  sr_water_height_mm :: "int option"
  sr_classified_level :: "flood_level option"
  sr_classification_status :: "classification_status option"
  sr_effective_multiplier :: "jsnum option"
  sr_reason_codes :: "sensor_reason list option"
  sr_classification_config_version :: "int option"
  sr_created_at :: "js_date option"
  sr_updated_at :: "js_date option"

definition state_columns :: "sensor_state option \<Rightarrow> state_row" where
  "state_columns joined = (case joined of
     None \<Rightarrow> \<lparr>
       sr_state_node_id = None, sr_telemetry_id = None, sr_observed_at = None,
       sr_observation_source = None, sr_valid_until = None, sr_reference_distance_mm = None,
       sr_node_reference_distance_mm = None, sr_accepted_distance_mm = None,
       sr_water_height_mm = None, sr_classified_level = None, sr_classification_status = None,
       sr_effective_multiplier = None, sr_reason_codes = None,
       sr_classification_config_version = None, sr_created_at = None, sr_updated_at = None \<rparr>
   | Some s \<Rightarrow> \<lparr>
       sr_state_node_id = Some (st_nodeId s), sr_telemetry_id = st_telemetryId s,
       sr_observed_at = st_observedAt s, sr_observation_source = st_observationSource s,
       sr_valid_until = st_validUntil s, sr_reference_distance_mm = st_referenceDistanceMm s,
       sr_node_reference_distance_mm = st_nodeReferenceDistanceMm s,
       sr_accepted_distance_mm = st_acceptedDistanceMm s,
       sr_water_height_mm = st_waterHeightMm s,
       sr_classified_level = Some (st_classifiedLevel s),
       sr_classification_status = Some (st_classificationStatus s),
       sr_effective_multiplier = Some (st_effectiveMultiplier s),
       sr_reason_codes = Some (st_reasonCodes s),
       sr_classification_config_version = Some (st_classificationConfigVersion s),
       sr_created_at = Some (st_createdAt s), sr_updated_at = Some (st_updatedAt s) \<rparr>)"

definition mapState :: "state_row \<Rightarrow> (db_error, sensor_state) result" where
  "mapState row =
     (case (sr_state_node_id row, sr_classified_level row, sr_classification_status row,
            sr_effective_multiplier row, sr_reason_codes row, sr_classification_config_version row,
            sr_created_at row, sr_updated_at row) of
        (Some nodeId, Some level, Some status, Some factor, Some reasons, Some version,
         Some created, Some updated) \<Rightarrow>
          res_bind (nullable_integer (sr_telemetry_id row) ''telemetry_id'') (\<lambda>telemetryId.
          res_bind (nullable_integer (sr_reference_distance_mm row) ''reference_distance_mm'')
            (\<lambda>reference.
          res_bind (nullable_integer (sr_node_reference_distance_mm row) ''node_reference_distance_mm'')
            (\<lambda>nodeReference.
          res_bind (nullable_integer (sr_accepted_distance_mm row) ''accepted_distance_mm'')
            (\<lambda>accepted.
          res_bind (nullable_integer (sr_water_height_mm row) ''water_height_mm'') (\<lambda>height.
          res_bind (safeInteger version ''classification_config_version'') (\<lambda>configVersion.
          Inr \<lparr>
            st_nodeId = nodeId, st_telemetryId = telemetryId, st_observedAt = sr_observed_at row,
            st_observationSource = sr_observation_source row, st_validUntil = sr_valid_until row,
            st_referenceDistanceMm = reference, st_nodeReferenceDistanceMm = nodeReference,
            st_acceptedDistanceMm = accepted, st_waterHeightMm = height,
            st_classifiedLevel = level, st_classificationStatus = status,
            st_effectiveMultiplier = factor, st_reasonCodes = reasons,
            st_classificationConfigVersion = configVersion,
            st_createdAt = created, st_updatedAt = updated \<rparr>))))))
      | _ \<Rightarrow> Inl STATE_ROW_INCOMPLETE)"

definition mapTelemetry :: "telemetry_row \<Rightarrow> (db_error, sensor_telemetry) result" where
  "mapTelemetry row =
     res_bind (safeInteger (tr_id row) ''telemetry.id'') (\<lambda>tid.
     res_bind (safeInteger (tr_node_boot_session_id row) ''node_boot_session_id'') (\<lambda>session.
     res_bind (safeInteger (tr_node_sequence row) ''node_sequence'') (\<lambda>sequence.
     res_bind (nullable_integer (tr_reference_distance_mm row) ''reference_distance_mm'') (\<lambda>reference.
     res_bind (nullable_integer (tr_accepted_distance_mm row) ''accepted_distance_mm'') (\<lambda>accepted.
     Inr \<lparr>
       tel_id = tid, tel_nodeId = tr_node_id row, tel_persistentSessionId = session,
       tel_sequence = sequence, tel_gatewayReceivedAt = tr_gateway_received_at row,
       tel_gatewayTimeTrusted = tr_gateway_time_trusted row,
       tel_serverReceivedAt = tr_server_received_at row,
       tel_referenceDistanceMm = reference, tel_acceptedDistanceMm = accepted,
       tel_filterState = tr_filter_state row, tel_qualityFlags = tr_quality_flags row,
       tel_healthFlags = tr_health_flags row \<rparr>)))))"

definition mapDeploymentWithState ::
  "deployment \<times> state_row \<Rightarrow> (db_error, deployment_with_state) result" where
  "mapDeploymentWithState row =
     res_bind (mapDeployment (fst row)) (\<lambda>d.
     res_bind (if sr_state_node_id (snd row) = None then Inr None
               else res_bind (mapState (snd row)) (\<lambda>s. Inr (Some s))) (\<lambda>s.
     Inr \<lparr> dws_deployment = d, dws_state = s \<rparr>))"

section \<open>Statements\<close>

definition INTEGER_MAX :: int where "INTEGER_MAX = 2147483647"

text \<open>The checks and column types of \<open>iot_sensor_deployments\<close>.\<close>

definition deployment_row_ok :: "deployment \<Rightarrow> bool" where
  "deployment_row_ok d \<longleftrightarrow>
     js_le (Fin (- 90)) (dep_latitude d) \<and> js_le (dep_latitude d) (Fin 90) \<and>
     js_le (Fin (- 180)) (dep_longitude d) \<and> js_le (dep_longitude d) (Fin 180) \<and>
     1 \<le> dep_expectedPollIntervalMinutes d \<and>
     dep_expectedPollIntervalMinutes d \<le> dep_staleAfterMinutes d \<and>
     dep_expectedPollIntervalMinutes d \<le> INTEGER_MAX \<and> dep_staleAfterMinutes d \<le> INTEGER_MAX \<and>
     0 \<le> dep_hysteresisMm d \<and> 0 \<le> dep_mediumThresholdMm d \<and>
     dep_mediumThresholdMm d < dep_highThresholdMm d \<and>
     dep_highThresholdMm d < dep_blockedThresholdMm d \<and>
     dep_hysteresisMm d \<le> dep_mediumThresholdMm d \<and>
     dep_hysteresisMm d \<le> dep_highThresholdMm d - dep_mediumThresholdMm d \<and>
     dep_hysteresisMm d \<le> dep_blockedThresholdMm d - dep_highThresholdMm d \<and>
     in_unit (dep_lowMultiplier d) \<and> in_unit (dep_mediumMultiplier d) \<and>
     in_unit (dep_highMultiplier d) \<and> in_unit (dep_blockedMultiplier d) \<and>
     in_unit (dep_unknownMultiplier d) \<and>
     1 \<le> dep_configVersion d \<and>
     (case dep_referenceDistanceOverrideMm d of None \<Rightarrow> True | Some r \<Rightarrow> 1 \<le> r \<and> r \<le> 4294967295)"

text \<open>The checks of \<open>iot_sensor_state\<close>; a timestamp that is no date is refused as well.\<close>

definition state_row_ok :: "sensor_state \<Rightarrow> bool" where
  "state_row_ok s \<longleftrightarrow>
     (case (st_observedAt s, st_validUntil s, st_observationSource s) of
        (None, None, None) \<Rightarrow> True
      | (Some obs, Some until, Some src) \<Rightarrow> date_lt obs until
      | _ \<Rightarrow> False) \<and>
     (case st_referenceDistanceMm s of None \<Rightarrow> True | Some r \<Rightarrow> 1 \<le> r) \<and>
     (case st_acceptedDistanceMm s of None \<Rightarrow> True | Some a \<Rightarrow> 0 \<le> a) \<and>
     (case st_waterHeightMm s of None \<Rightarrow> True | Some h \<Rightarrow> 0 \<le> h) \<and>
     (case st_nodeReferenceDistanceMm s of None \<Rightarrow> True | Some r \<Rightarrow> 1 \<le> r \<and> r \<le> 4294967295) \<and>
     in_unit (st_effectiveMultiplier s) \<and> 1 \<le> st_classificationConfigVersion s"

definition join_state :: "db \<Rightarrow> deployment \<Rightarrow> deployment \<times> state_row" where
  "join_state d row = (row, state_columns (dict_get (db_states d) (dep_nodeId row)))"

definition listWithState :: "(string \<Rightarrow> string \<Rightarrow> bool) \<Rightarrow> deployment_with_state list action" where
  "listWithState node_le =
     db_bind (db_read (\<lambda>d. map (join_state d)
       (sort_by (\<lambda>a b. node_le (dep_nodeId a) (dep_nodeId b)) (dict_values (db_deployments d)))))
     (\<lambda>rows. db_lift (traverse mapDeploymentWithState rows))"

definition findWithState :: "string \<Rightarrow> deployment_with_state option action" where
  "findWithState nodeId =
     db_bind (db_read (\<lambda>d. map_option (join_state d) (dict_get (db_deployments d) nodeId)))
     (\<lambda>row. case row of
        None \<Rightarrow> db_return None
      | Some r \<Rightarrow> db_lift (res_bind (mapDeploymentWithState r) (\<lambda>x. Inr (Some x))))"

text \<open>\<open>ROW(existing) IS DISTINCT FROM ROW(EXCLUDED)\<close>: the conflict makes the node ids equal.\<close>

definition deployment_changed :: "deployment \<Rightarrow> deployment_write \<Rightarrow> bool" where
  "deployment_changed existing excluded \<longleftrightarrow> deployment_write.truncate existing \<noteq> excluded"

definition upserted_deployment :: "js_date \<Rightarrow> deployment option \<Rightarrow> deployment_write \<Rightarrow> deployment" where
  "upserted_deployment clock existing w = deployment_write.extend w (case existing of
     None \<Rightarrow> deployment.fields 1 clock clock
   | Some e \<Rightarrow> deployment.fields
       (dep_configVersion e + (if deployment_changed e w then 1 else 0))
       (dep_createdAt e)
       (if deployment_changed e w then clock else dep_updatedAt e))"

definition upsertDeployment :: "js_date \<Rightarrow> deployment_write \<Rightarrow> deployment action" where
  "upsertDeployment clock w =
     db_bind (db_read (\<lambda>d. upserted_deployment clock (dict_get (db_deployments d) (dep_nodeId w)) w))
     (\<lambda>row. if \<not> deployment_row_ok row then db_fail (CHECK_VIOLATION ''iot_sensor_deployments'')
       else (\<lambda>d. db_lift (mapDeployment row)
         (d\<lparr>db_deployments := dict_set (dep_nodeId w) row (db_deployments d)\<rparr>)))"

definition findDeploymentForUpdate :: "string \<Rightarrow> deployment option action" where
  "findDeploymentForUpdate nodeId =
     db_bind (db_read (\<lambda>d. dict_get (db_deployments d) nodeId))
     (\<lambda>row. case row of
        None \<Rightarrow> db_return None
      | Some r \<Rightarrow> db_lift (res_bind (mapDeployment r) (\<lambda>x. Inr (Some x))))"

definition findStateForUpdate :: "string \<Rightarrow> sensor_state option action" where
  "findStateForUpdate nodeId =
     db_bind (db_read (\<lambda>d. dict_get (db_states d) nodeId))
     (\<lambda>row. case row of
        None \<Rightarrow> db_return None
      | Some s \<Rightarrow> db_lift (res_bind (mapState (state_columns (Some s))) (\<lambda>x. Inr (Some x))))"

definition session_order :: "telemetry_row \<Rightarrow> telemetry_row \<Rightarrow> bool" where
  "session_order a b \<longleftrightarrow>
     tr_node_boot_session_id a < tr_node_boot_session_id b \<or>
     (tr_node_boot_session_id a = tr_node_boot_session_id b \<and>
      (tr_node_sequence b < tr_node_sequence a \<or>
       (tr_node_sequence a = tr_node_sequence b \<and> tr_id b \<le> tr_id a)))"

text \<open>\<open>DISTINCT ON (node_boot_session_id)\<close>: the first row of each group of equal sessions.\<close>

function distinct_on_session :: "telemetry_row list \<Rightarrow> telemetry_row list" where
  "distinct_on_session [] = []"
| "distinct_on_session (r # rs) =
     r # distinct_on_session (dropWhile (\<lambda>x. tr_node_boot_session_id x = tr_node_boot_session_id r) rs)"
  by pat_completeness auto
termination by (relation "measure length") (auto simp: length_dropWhile_le less_Suc_eq_le)

definition row_time :: "telemetry_row \<Rightarrow> js_date" where
  "row_time r = (case tr_gateway_received_at r of
     Some g \<Rightarrow> if tr_gateway_time_trusted r then g else tr_server_received_at r
   | None \<Rightarrow> tr_server_received_at r)"

definition recency_order :: "telemetry_row \<Rightarrow> telemetry_row \<Rightarrow> bool" where
  "recency_order a b \<longleftrightarrow>
     date_lt (row_time b) (row_time a) \<or>
     (row_time a = row_time b \<and>
      (date_lt (tr_server_received_at b) (tr_server_received_at a) \<or>
       (tr_server_received_at a = tr_server_received_at b \<and> tr_id b \<le> tr_id a)))"

definition latest_per_session :: "string \<Rightarrow> db \<Rightarrow> telemetry_row list" where
  "latest_per_session nodeId d = distinct_on_session
     (sort_by session_order (filter (\<lambda>r. tr_node_id r = nodeId) (db_telemetry d)))"

definition latest_row :: "string \<Rightarrow> db \<Rightarrow> telemetry_row option" where
  "latest_row nodeId d = (case sort_by recency_order (latest_per_session nodeId d) of
     [] \<Rightarrow> None | r # _ \<Rightarrow> Some r)"

definition findLatestTelemetry :: "string \<Rightarrow> sensor_telemetry option action" where
  "findLatestTelemetry nodeId =
     db_bind (db_read (latest_row nodeId))
     (\<lambda>row. case row of
        None \<Rightarrow> db_return None
      | Some r \<Rightarrow> db_lift (res_bind (mapTelemetry r) (\<lambda>x. Inr (Some x))))"

definition upserted_state :: "js_date \<Rightarrow> sensor_state option \<Rightarrow> sensor_state_write \<Rightarrow> sensor_state" where
  "upserted_state clock existing s = sensor_state_write.extend s (case existing of
     None \<Rightarrow> sensor_state.fields clock clock
   | Some e \<Rightarrow> sensor_state.fields (st_createdAt e) clock)"

definition state_references_ok :: "db \<Rightarrow> sensor_state \<Rightarrow> bool" where
  "state_references_ok d s \<longleftrightarrow> dict_get (db_deployments d) (st_nodeId s) \<noteq> None \<and>
     (case st_telemetryId s of None \<Rightarrow> True | Some t \<Rightarrow> t \<in> tr_id ` set (db_telemetry d))"

definition upsertState :: "js_date \<Rightarrow> sensor_state_write \<Rightarrow> sensor_state action" where
  "upsertState clock w =
     db_bind (db_read (\<lambda>d. (d, upserted_state clock (dict_get (db_states d) (st_nodeId w)) w)))
     (\<lambda>(d, row).
       if \<not> state_row_ok row then db_fail (CHECK_VIOLATION ''iot_sensor_state'')
       else if \<not> state_references_ok d row then db_fail (FOREIGN_KEY_VIOLATION ''iot_sensor_state'')
       else (\<lambda>d. db_lift (mapState (state_columns (Some row)))
         (d\<lparr>db_states := dict_set (st_nodeId w) row (db_states d)\<rparr>)))"

section \<open>Service\<close>

datatype service_error = INVALID_DEPLOYMENT deployment_error | STORE_FAILED db_error

definition listEffective ::
  "(string \<Rightarrow> string \<Rightarrow> bool) \<Rightarrow> js_date \<Rightarrow> effective_state list action" where
  "listEffective node_le now =
     db_bind (listWithState node_le)
     (\<lambda>records. db_return (map (\<lambda>record. evaluateEffectiveSensorState record now) records))"

definition getEffective :: "string \<Rightarrow> js_date \<Rightarrow> effective_state option action" where
  "getEffective nodeId now =
     db_bind (findWithState nodeId)
     (\<lambda>record. db_return (map_option (\<lambda>r. evaluateEffectiveSensorState r now) record))"

text \<open>The part that \<open>upsert\<close> and \<open>recomputeNode\<close> share inside their transactions.\<close>

definition derive_and_store :: "js_date \<Rightarrow> js_date \<Rightarrow> string \<Rightarrow> deployment \<Rightarrow> deployment_with_state action" where
  "derive_and_store clock now nodeId deployment =
     db_bind (findStateForUpdate nodeId) (\<lambda>previousState.
     db_bind (findLatestTelemetry nodeId) (\<lambda>telemetry.
     case deriveSensorState deployment telemetry previousState now of
       Inl e \<Rightarrow> db_fail (CLASSIFIER_FAILED e)
     | Inr w \<Rightarrow> db_bind (upsertState clock w)
         (\<lambda>state. db_return \<lparr> dws_deployment = deployment, dws_state = Some state \<rparr>)))"

fun with_node_id :: "jsval \<Rightarrow> string \<Rightarrow> jsval" where
  "with_node_id (JObj fs) nodeId = JObj (dict_set ''nodeId'' (JStr nodeId) fs)"
| "with_node_id (JDate d) nodeId = JObj [(''nodeId'', JStr nodeId)]"
| "with_node_id v nodeId = v"

definition upsert ::
  "jsnum \<Rightarrow> js_date \<Rightarrow> js_date \<Rightarrow> string \<Rightarrow> jsval \<Rightarrow> db \<Rightarrow>
   (service_error, effective_state) result \<times> db" where
  "upsert maxPolygonVertices clock now nodeId body d =
     (case validateSensorDeployment
        (if isRecord body then with_node_id body nodeId else body) maxPolygonVertices of
        Inl e \<Rightarrow> (Inl (INVALID_DEPLOYMENT e), d)
      | Inr validated \<Rightarrow>
          (case transaction
              (db_bind (upsertDeployment clock validated)
                (\<lambda>deployment. derive_and_store clock now nodeId deployment)) d of
             (Inl e, d') \<Rightarrow> (Inl (STORE_FAILED e), d')
           | (Inr record, d') \<Rightarrow> (Inr (evaluateEffectiveSensorState record now), d')))"

definition recomputeNode :: "js_date \<Rightarrow> js_date \<Rightarrow> string \<Rightarrow> effective_state option action" where
  "recomputeNode clock now nodeId =
     db_bind (transaction
       (db_bind (findDeploymentForUpdate nodeId) (\<lambda>found. case found of
          None \<Rightarrow> db_return None
        | Some deployment \<Rightarrow>
            db_bind (derive_and_store clock now nodeId deployment) (\<lambda>r. db_return (Some r)))))
     (\<lambda>record. db_return (map_option (\<lambda>r. evaluateEffectiveSensorState r now) record))"

section \<open>The latest telemetry\<close>

lemma session_preorder: "preorder_on_set S session_order"
  unfolding preorder_on_set_def session_order_def by auto

lemma sorted_dropWhile: "sorted_wrt R xs \<Longrightarrow> sorted_wrt R (dropWhile P xs)"
  by (induction xs) auto

text \<open>In a list sorted by session, the rows of one session form one run.\<close>

lemma dropWhile_session:
  assumes "sorted_wrt session_order (r # rs)"
    and "x \<in> set (dropWhile (\<lambda>x. tr_node_boot_session_id x = tr_node_boot_session_id r) rs)"
  shows "tr_node_boot_session_id r < tr_node_boot_session_id x"
  using assms
proof (induction rs)
  case Nil
  then show ?case by simp
next
  case (Cons y ys)
  show ?case
  proof (cases "tr_node_boot_session_id y = tr_node_boot_session_id r")
    case True
    with Cons show ?thesis by simp
  next
    case False
    with Cons.prems have "tr_node_boot_session_id r < tr_node_boot_session_id y"
      by (auto simp: session_order_def)
    moreover have "x = y \<or> session_order y x" using Cons.prems False by auto
    ultimately show ?thesis by (auto simp: session_order_def)
  qed
qed

lemma distinct_on_session_set: "set (distinct_on_session xs) \<subseteq> set xs"
  by (induction xs rule: distinct_on_session.induct) (auto dest: set_dropWhileD)

lemma distinct_on_session_newest:
  assumes "sorted_wrt session_order xs" and "r \<in> set (distinct_on_session xs)" and "x \<in> set xs"
    and "tr_node_boot_session_id x = tr_node_boot_session_id r"
  shows "x = r \<or> session_order r x"
  using assms
proof (induction xs rule: distinct_on_session.induct)
  case 1
  then show ?case by simp
next
  case (2 h hs)
  let ?P = "\<lambda>x. tr_node_boot_session_id x = tr_node_boot_session_id h"
  show ?case
  proof (cases "r = h")
    case True
    with 2 show ?thesis by auto
  next
    case False
    with 2 have r: "r \<in> set (distinct_on_session (dropWhile ?P hs))" by simp
    then have rd: "r \<in> set (dropWhile ?P hs)" using distinct_on_session_set by blast
    have "tr_node_boot_session_id h < tr_node_boot_session_id r"
      by (rule dropWhile_session [OF "2.prems"(1) rd])
    then have "x \<noteq> h" "\<not> ?P x" using "2.prems"(4) by auto
    moreover have "x \<in> set (takeWhile ?P hs) \<union> set (dropWhile ?P hs)"
      using "2.prems"(3) \<open>x \<noteq> h\<close> by (simp flip: set_append)
    ultimately have "x \<in> set (dropWhile ?P hs)" by (auto dest: set_takeWhileD)
    with "2.IH" r "2.prems" show ?thesis by (simp add: sorted_dropWhile)
  qed
qed

definition row_dates_ok :: "telemetry_row \<Rightarrow> bool" where
  "row_dates_ok r \<longleftrightarrow> valid_date (tr_server_received_at r) \<and> valid_date (row_time r)"

lemma recency_preorder: "\<forall>r\<in>S. row_dates_ok r \<Longrightarrow> preorder_on_set S recency_order"
proof -
  assume ok: "\<forall>r\<in>S. row_dates_ok r"
  define key where "key r = (case row_time r of Date t \<Rightarrow> t | InvalidDate \<Rightarrow> 0)" for r :: telemetry_row
  define srv where "srv r = (case tr_server_received_at r of Date t \<Rightarrow> t | InvalidDate \<Rightarrow> 0)" for r :: telemetry_row
  have "recency_order a b \<longleftrightarrow> key b < key a \<or> (key a = key b \<and>
      (srv b < srv a \<or> (srv a = srv b \<and> tr_id b \<le> tr_id a)))" if ab: "a \<in> S" "b \<in> S" for a b
  proof -
    obtain ta tb sa sb where "row_time a = Date ta" "row_time b = Date tb"
      "tr_server_received_at a = Date sa" "tr_server_received_at b = Date sb"
      using ok ab by (metis row_dates_ok_def valid_date_iff)
    then show ?thesis by (auto simp: recency_order_def key_def srv_def)
  qed
  then show ?thesis unfolding preorder_on_set_def by auto
qed

lemma latest_row_spec:
  assumes "\<forall>r\<in>set (db_telemetry d). row_dates_ok r" and "latest_row nodeId d = Some r"
  shows "r \<in> set (db_telemetry d)" "tr_node_id r = nodeId"
    and "\<And>x. x \<in> set (db_telemetry d) \<Longrightarrow> tr_node_id x = nodeId \<Longrightarrow>
      tr_node_boot_session_id x = tr_node_boot_session_id r \<Longrightarrow> tr_node_sequence x \<le> tr_node_sequence r"
    and "\<And>y. y \<in> set (latest_per_session nodeId d) \<Longrightarrow> y = r \<or> recency_order r y"
proof -
  let ?rows = "sort_by session_order (filter (\<lambda>r. tr_node_id r = nodeId) (db_telemetry d))"
  have sorted: "sorted_wrt session_order ?rows"
    by (rule sorted_wrt_sort_by [OF session_preorder subset_UNIV])
  have sub: "set (latest_per_session nodeId d) \<subseteq> {r \<in> set (db_telemetry d). tr_node_id r = nodeId}"
    using distinct_on_session_set [of ?rows] by (auto simp: latest_per_session_def)
  obtain rest where rest: "sort_by recency_order (latest_per_session nodeId d) = r # rest"
    using assms(2) by (auto simp: latest_row_def split: list.splits)
  then have r: "r \<in> set (latest_per_session nodeId d)" by (metis list.set_intros(1) set_sort_by)
  with sub show "r \<in> set (db_telemetry d)" "tr_node_id r = nodeId" by auto
  have "sorted_wrt recency_order (sort_by recency_order (latest_per_session nodeId d))"
    using assms(1) sub
    by (intro sorted_wrt_sort_by [OF recency_preorder [of "set (latest_per_session nodeId d)"]]) auto
  with rest show "y \<in> set (latest_per_session nodeId d) \<Longrightarrow> y = r \<or> recency_order r y" for y
    by (metis set_ConsD set_sort_by sorted_wrt.simps(2))
  show "tr_node_sequence x \<le> tr_node_sequence r"
    if "x \<in> set (db_telemetry d)" "tr_node_id x = nodeId"
      "tr_node_boot_session_id x = tr_node_boot_session_id r" for x
    using distinct_on_session_newest [OF sorted, of r x] r that
    by (auto simp: latest_per_session_def session_order_def)
qed

lemma latest_row_None: "latest_row nodeId d = None \<longleftrightarrow> (\<forall>r\<in>set (db_telemetry d). tr_node_id r \<noteq> nodeId)"
proof -
  let ?rows = "sort_by session_order (filter (\<lambda>r. tr_node_id r = nodeId) (db_telemetry d))"
  have "latest_row nodeId d = None \<longleftrightarrow> set (latest_per_session nodeId d) = {}"
    by (auto simp: latest_row_def split: list.splits) (metis set_empty set_sort_by)+
  also have "\<dots> \<longleftrightarrow> set ?rows = {}"
    unfolding latest_per_session_def by (cases ?rows) auto
  finally show ?thesis by auto
qed

section \<open>Reading and writing rows\<close>

definition safe_int :: "int \<Rightarrow> bool" where
  "safe_int n \<longleftrightarrow> \<bar>n\<bar> \<le> max_safe_integer"

definition safe_opt :: "int option \<Rightarrow> bool" where
  "safe_opt v \<longleftrightarrow> (case v of None \<Rightarrow> True | Some n \<Rightarrow> safe_int n)"

lemma safeInteger_Inr: "safeInteger v f = Inr n \<longleftrightarrow> n = v \<and> safe_int v"
  by (auto simp: safeInteger_def safe_int_def)

lemma nullable_integer_Inr: "nullable_integer v f = Inr n \<longleftrightarrow> n = v \<and> safe_opt v"
  by (cases v) (auto simp: res_bind_Inr safeInteger_Inr safe_opt_def)

lemmas integer_columns = safeInteger_Inr nullable_integer_Inr

definition deployment_safe :: "deployment \<Rightarrow> bool" where
  "deployment_safe d \<longleftrightarrow> safe_opt (dep_referenceDistanceOverrideMm d) \<and> safe_int (dep_hysteresisMm d) \<and>
     safe_int (dep_mediumThresholdMm d) \<and> safe_int (dep_highThresholdMm d) \<and>
     safe_int (dep_blockedThresholdMm d) \<and> safe_int (dep_configVersion d)"

definition state_safe :: "sensor_state \<Rightarrow> bool" where
  "state_safe s \<longleftrightarrow> safe_opt (st_telemetryId s) \<and> safe_opt (st_referenceDistanceMm s) \<and>
     safe_opt (st_nodeReferenceDistanceMm s) \<and> safe_opt (st_acceptedDistanceMm s) \<and>
     safe_opt (st_waterHeightMm s) \<and> safe_int (st_classificationConfigVersion s)"

definition telemetry_of_row :: "telemetry_row \<Rightarrow> sensor_telemetry" where
  "telemetry_of_row row = \<lparr>
     tel_id = tr_id row, tel_nodeId = tr_node_id row,
     tel_persistentSessionId = tr_node_boot_session_id row, tel_sequence = tr_node_sequence row,
     tel_gatewayReceivedAt = tr_gateway_received_at row,
     tel_gatewayTimeTrusted = tr_gateway_time_trusted row,
     tel_serverReceivedAt = tr_server_received_at row,
     tel_referenceDistanceMm = tr_reference_distance_mm row,
     tel_acceptedDistanceMm = tr_accepted_distance_mm row,
     tel_filterState = tr_filter_state row, tel_qualityFlags = tr_quality_flags row,
     tel_healthFlags = tr_health_flags row \<rparr>"

definition telemetry_safe :: "telemetry_row \<Rightarrow> bool" where
  "telemetry_safe r \<longleftrightarrow> safe_int (tr_id r) \<and> safe_int (tr_node_boot_session_id r) \<and>
     safe_int (tr_node_sequence r) \<and> safe_opt (tr_reference_distance_mm r) \<and>
     safe_opt (tr_accepted_distance_mm r)"

lemma mapDeployment_Inr: "mapDeployment row = Inr d \<longleftrightarrow> d = row \<and> deployment_safe row"
  by (auto simp: mapDeployment_def res_bind_Inr integer_columns deployment_safe_def)

lemma mapTelemetry_Inr: "mapTelemetry row = Inr t \<longleftrightarrow> t = telemetry_of_row row \<and> telemetry_safe row"
  by (auto simp: mapTelemetry_def res_bind_Inr integer_columns telemetry_of_row_def telemetry_safe_def)

lemma mapState_Inr: "mapState (state_columns (Some s)) = Inr s' \<longleftrightarrow> s' = s \<and> state_safe s"
  by (cases s) (auto simp: mapState_def state_columns_def res_bind_Inr integer_columns state_safe_def)

lemmas row_maps = mapDeployment_Inr mapTelemetry_Inr mapState_Inr

lemma upsertDeployment_Inr:
  "upsertDeployment clock w d = (Inr row, d') \<longleftrightarrow>
     row = upserted_deployment clock (dict_get (db_deployments d) (dep_nodeId w)) w \<and>
     deployment_row_ok row \<and> deployment_safe row \<and>
     d' = d\<lparr>db_deployments := dict_set (dep_nodeId w) row (db_deployments d)\<rparr>"
  by (auto simp: upsertDeployment_def action_simps row_maps)

lemma upsertState_Inr:
  "upsertState clock w d = (Inr row, d') \<longleftrightarrow>
     row = upserted_state clock (dict_get (db_states d) (st_nodeId w)) w \<and>
     state_row_ok row \<and> state_references_ok d row \<and> state_safe row \<and>
     d' = d\<lparr>db_states := dict_set (st_nodeId w) row (db_states d)\<rparr>"
  by (auto simp: upsertState_def action_simps row_maps)

lemma findDeployment_Inr:
  "findDeploymentForUpdate n d = (Inr found, d') \<longleftrightarrow> d' = d \<and>
     found = dict_get (db_deployments d) n \<and> (\<forall>r. found = Some r \<longrightarrow> deployment_safe r)"
  by (cases "dict_get (db_deployments d) n")
    (auto simp: findDeploymentForUpdate_def action_simps row_maps res_bind_Inr)

lemma findState_Inr:
  "findStateForUpdate n d = (Inr found, d') \<longleftrightarrow> d' = d \<and>
     found = dict_get (db_states d) n \<and> (\<forall>s. found = Some s \<longrightarrow> state_safe s)"
  by (cases "dict_get (db_states d) n")
    (auto simp: findStateForUpdate_def action_simps row_maps res_bind_Inr)

lemma findLatest_Inr:
  "findLatestTelemetry n d = (Inr found, d') \<longleftrightarrow> d' = d \<and>
     found = map_option telemetry_of_row (latest_row n d) \<and>
     (\<forall>r. latest_row n d = Some r \<longrightarrow> telemetry_safe r)"
  by (cases "latest_row n d")
    (auto simp: findLatestTelemetry_def action_simps row_maps res_bind_Inr)

lemmas statements = upsertDeployment_Inr upsertState_Inr findDeployment_Inr findState_Inr findLatest_Inr

definition stored_telemetry :: "string \<Rightarrow> db \<Rightarrow> sensor_telemetry option" where
  "stored_telemetry n d = map_option telemetry_of_row (latest_row n d)"

lemma derive_and_store_Inr:
  assumes "derive_and_store clock now n dep d = (Inr r, d')"
  obtains w row where
    "deriveSensorState dep (stored_telemetry n d) (dict_get (db_states d) n) now = Inr w"
    "row = upserted_state clock (dict_get (db_states d) (st_nodeId w)) w"
    "d' = d\<lparr>db_states := dict_set (st_nodeId w) row (db_states d)\<rparr>"
    "r = \<lparr> dws_deployment = dep, dws_state = Some row \<rparr>" "st_nodeId w = dep_nodeId dep"
proof -
  obtain w row where w: "deriveSensorState dep (stored_telemetry n d) (dict_get (db_states d) n) now = Inr w"
    and up: "upsertState clock w d = (Inr row, d')" and r: "r = \<lparr> dws_deployment = dep, dws_state = Some row \<rparr>"
    using assms unfolding derive_and_store_def stored_telemetry_def db_bind_Inr findState_Inr findLatest_Inr
    by (auto simp: action_simps split: sum.splits)
  from derive_consistent [OF w] have "st_nodeId w = dep_nodeId dep" by (simp add: state_consistent_def)
  with that w up r show thesis by (simp add: upsertState_Inr)
qed

lemma state_consistent_upserted [simp]:
  "state_consistent dep (upserted_state clock e w) \<longleftrightarrow> state_consistent dep w"
  by (cases e) (simp_all add: state_consistent_def upserted_state_def sensor_state_write.defs
      sensor_state.defs)

section \<open>Stored states agree with stored deployments\<close>

definition states_current :: "db \<Rightarrow> bool" where
  "states_current d \<longleftrightarrow>
     (\<forall>n dep. dict_get (db_deployments d) n = Some dep \<longrightarrow> dep_nodeId dep = n) \<and>
     (\<forall>n s. dict_get (db_states d) n = Some s \<longrightarrow>
        (\<exists>dep. dict_get (db_deployments d) n = Some dep \<and> state_consistent dep s))"

lemma upserted_deployment_node [simp]: "dep_nodeId (upserted_deployment clock e w) = dep_nodeId w"
  by (cases e) (simp_all add: upserted_deployment_def deployment_write.defs deployment.defs)

lemma derive_and_store_current:
  assumes "derive_and_store clock now n dep d = (Inr r, d')"
    and "dict_get (db_deployments d) n = Some dep" "dep_nodeId dep = n"
    and "\<forall>m e. dict_get (db_deployments d) m = Some e \<longrightarrow> dep_nodeId e = m"
    and "\<forall>m s. m \<noteq> n \<longrightarrow> dict_get (db_states d) m = Some s \<longrightarrow>
        (\<exists>e. dict_get (db_deployments d) m = Some e \<and> state_consistent e s)"
  shows "states_current d'"
proof -
  obtain w row where w:
    "deriveSensorState dep (stored_telemetry n d) (dict_get (db_states d) n) now = Inr w"
    "row = upserted_state clock (dict_get (db_states d) (st_nodeId w)) w"
    "d' = d\<lparr>db_states := dict_set (st_nodeId w) row (db_states d)\<rparr>" "st_nodeId w = dep_nodeId dep"
    using derive_and_store_Inr [OF assms(1)] by metis
  have "state_consistent dep row" using derive_consistent [OF w(1)] w(2) by simp
  then show ?thesis using assms w(3,4) by (auto simp: states_current_def dict_get_set)
qed

lemma node_of_validated:
  assumes "validateSensorDeployment (if isRecord body then with_node_id body n else body) m = Inr w"
  shows "dep_nodeId w = n"
proof -
  have "isRecord body" using assms by (auto simp: validate_deployment_Inr split: if_splits)
  then have "jprop (with_node_id body n) ''nodeId'' = JStr n"
    by (cases body) (auto simp: dict_get_set simp flip: dict_get_def)
  with assms \<open>isRecord body\<close> show ?thesis by (simp add: validate_deployment_Inr)
qed

lemma same_tables_current: "same_tables d d' \<Longrightarrow> states_current d \<Longrightarrow> states_current d'"
  by (simp add: same_tables_def states_current_def)

section \<open>Recomputation succeeds on well-formed stores\<close>

definition row_wf :: "telemetry_row \<Rightarrow> bool" where
  "row_wf r \<longleftrightarrow> telemetry_safe r \<and> row_dates_ok r \<and>
     (case row_time r of Date t \<Rightarrow> \<bar>t\<bar> \<le> 1000000000000000 | InvalidDate \<Rightarrow> False) \<and>
     (case tr_reference_distance_mm r of None \<Rightarrow> True | Some v \<Rightarrow> 1 \<le> v \<and> v \<le> 4294967295) \<and>
     (case tr_accepted_distance_mm r of None \<Rightarrow> True | Some v \<Rightarrow> 0 \<le> v \<and> v \<le> 4294967295)"

definition stored_ok :: "deployment \<Rightarrow> bool" where
  "stored_ok dep \<longleftrightarrow> deployment_ok dep \<and> dep_staleAfterMinutes dep \<le> INTEGER_MAX \<and>
     1 \<le> dep_configVersion dep \<and> safe_int (dep_configVersion dep)"

definition db_wf :: "db \<Rightarrow> bool" where
  "db_wf d \<longleftrightarrow>
     (\<forall>n dep. dict_get (db_deployments d) n = Some dep \<longrightarrow> dep_nodeId dep = n \<and> stored_ok dep) \<and>
     (\<forall>r\<in>set (db_telemetry d). row_wf r) \<and>
     (\<forall>n s. dict_get (db_states d) n = Some s \<longrightarrow> state_safe s)"

lemma derive_fields:
  assumes "deriveSensorState dep (Some t) p now = Inr s"
  obtains obs src where "selectObservationTime t = Inr (obs, src)"
    "st_telemetryId s = Some (tel_id t)" "st_observedAt s = Some obs" "st_observationSource s = Some src"
    "st_validUntil s = Some (date_shift obs (dep_staleAfterMinutes dep * 60000))"
    "st_referenceDistanceMm s = reference_distance dep t"
    "st_nodeReferenceDistanceMm s = tel_referenceDistanceMm t"
    "st_acceptedDistanceMm s = tel_acceptedDistanceMm t"
  using assms by (auto simp: deriveSensorState_def res_bind_Inr Let_def split: if_splits)

lemma select_row_time:
  "row_dates_ok r \<Longrightarrow> \<exists>src. selectObservationTime (telemetry_of_row r) = Inr (row_time r, src)"
  by (auto simp: selectObservationTime_def telemetry_of_row_def row_time_def row_dates_ok_def
      isValidDate_def split: option.splits if_splits)

lemma shift_later:
  assumes "\<bar>t\<bar> \<le> 1000000000000000" and "1 \<le> m" "m \<le> INTEGER_MAX"
  shows "date_lt (Date t) (date_shift (Date t) (m * 60000))"
proof -
  have "\<bar>t + m * 60000\<bar> \<le> max_time_value"
    using assms by (simp add: max_time_value_def INTEGER_MAX_def)
  with assms(2) show ?thesis by (simp add: new_date_def)
qed

lemma safe_bounds [simp]:
  "0 \<le> v \<Longrightarrow> v \<le> 4294967295 \<Longrightarrow> safe_int v"
  "1 \<le> v \<Longrightarrow> v \<le> 4294967295 \<Longrightarrow> safe_int v"
  by (simp_all add: safe_int_def max_safe_integer_def)

lemma deployment_ok_safe: "stored_ok dep \<Longrightarrow> deployment_safe dep"
  unfolding stored_ok_def deployment_ok_def thresholds_ok_def deployment_safe_def safe_int_def
    safe_opt_def override_ok_def
  by (simp add: max_safe_integer_def abs_le_iff split: option.splits)

lemma reference_distance_bounds:
  "stored_ok dep \<Longrightarrow> row_wf r \<Longrightarrow> reference_distance dep (telemetry_of_row r) = Some v \<Longrightarrow>
     1 \<le> v \<and> v \<le> 4294967295"
  unfolding stored_ok_def deployment_ok_def override_ok_def row_wf_def reference_distance_def telemetry_of_row_def
  by (auto split: option.splits)

lemma height_bounds:
  assumes "state_consistent dep s" and "st_waterHeightMm s = Some h"
    and "\<And>v. st_referenceDistanceMm s = Some v \<Longrightarrow> v \<le> 4294967295"
    and "\<And>v. st_acceptedDistanceMm s = Some v \<Longrightarrow> 0 \<le> v"
  shows "0 \<le> h \<and> h \<le> 4294967295"
proof -
  obtain r a where "st_referenceDistanceMm s = Some r" "st_acceptedDistanceMm s = Some a" "h = max 0 (r - a)"
    using assms(1,2) by (auto simp: state_consistent_def)
  with assms(3) [of r] assms(4) [of a] show ?thesis by simp
qed

text \<open>The fields a stored state shares with the write it came from.\<close>

lemma upserted_state_fields [simp]:
  "st_nodeId (upserted_state c e w) = st_nodeId w"
  "st_telemetryId (upserted_state c e w) = st_telemetryId w"
  "st_observedAt (upserted_state c e w) = st_observedAt w"
  "st_observationSource (upserted_state c e w) = st_observationSource w"
  "st_validUntil (upserted_state c e w) = st_validUntil w"
  "st_referenceDistanceMm (upserted_state c e w) = st_referenceDistanceMm w"
  "st_nodeReferenceDistanceMm (upserted_state c e w) = st_nodeReferenceDistanceMm w"
  "st_acceptedDistanceMm (upserted_state c e w) = st_acceptedDistanceMm w"
  "st_waterHeightMm (upserted_state c e w) = st_waterHeightMm w"
  "st_classifiedLevel (upserted_state c e w) = st_classifiedLevel w"
  "st_classificationStatus (upserted_state c e w) = st_classificationStatus w"
  "st_effectiveMultiplier (upserted_state c e w) = st_effectiveMultiplier w"
  "st_reasonCodes (upserted_state c e w) = st_reasonCodes w"
  "st_classificationConfigVersion (upserted_state c e w) = st_classificationConfigVersion w"
  by (cases e; simp add: upserted_state_def sensor_state_write.defs sensor_state.defs)+

lemma derived_row_ok:
  assumes dep: "stored_ok dep" and tel: "\<And>t. telemetry = Some t \<Longrightarrow> \<exists>r. row_wf r \<and> t = telemetry_of_row r"
    and derive: "deriveSensorState dep telemetry p now = Inr w"
  shows "state_row_ok (upserted_state c e w) \<and> state_safe (upserted_state c e w)"
proof -
  have cons: "state_consistent dep w" by (rule derive_consistent [OF derive])
  have mult: "in_unit (st_effectiveMultiplier w)"
    using cons dep multiplierForLevel_in_unit
    by (simp add: state_consistent_def stored_ok_def deployment_ok_def)
  have version: "1 \<le> st_classificationConfigVersion w" "safe_int (st_classificationConfigVersion w)"
    using cons dep by (simp_all add: state_consistent_def stored_ok_def)
  show ?thesis
  proof (cases telemetry)
    case None
    with derive mult version show ?thesis
      by (auto simp: deriveSensorState_def unknownState_def state_row_ok_def state_safe_def safe_opt_def)
  next
    case (Some t)
    then obtain r where r: "row_wf r" "t = telemetry_of_row r" using tel by blast
    from derive Some obtain obs src where f: "selectObservationTime t = Inr (obs, src)"
      "st_telemetryId w = Some (tel_id t)" "st_observedAt w = Some obs" "st_observationSource w = Some src"
      "st_validUntil w = Some (date_shift obs (dep_staleAfterMinutes dep * 60000))"
      "st_referenceDistanceMm w = reference_distance dep t"
      "st_nodeReferenceDistanceMm w = tel_referenceDistanceMm t"
      "st_acceptedDistanceMm w = tel_acceptedDistanceMm t"
      by (auto elim: derive_fields)
    have "row_dates_ok r" using r(1) by (simp add: row_wf_def)
    then obtain tm where obs: "obs = Date tm" "\<bar>tm\<bar> \<le> 1000000000000000"
      using select_row_time [of r] f(1) r by (auto simp: row_wf_def split: js_date.splits)
    have until: "date_lt obs (date_shift obs (dep_staleAfterMinutes dep * 60000))"
      using dep obs shift_later [of tm "dep_staleAfterMinutes dep"]
      by (simp add: stored_ok_def deployment_ok_def intervals_ok_def)
    have ref: "reference_distance dep t = Some v \<Longrightarrow> 1 \<le> v \<and> v \<le> 4294967295" for v
      using reference_distance_bounds [OF dep r(1)] r(2) by simp
    have acc: "tel_acceptedDistanceMm t = Some v \<Longrightarrow> 0 \<le> v \<and> v \<le> 4294967295" for v
      using r by (auto simp: row_wf_def telemetry_of_row_def)
    have nref: "tel_referenceDistanceMm t = Some v \<Longrightarrow> 1 \<le> v \<and> v \<le> 4294967295" for v
      using r by (auto simp: row_wf_def telemetry_of_row_def)
    have height: "st_waterHeightMm w = Some h \<Longrightarrow> 0 \<le> h \<and> h \<le> 4294967295" for h
      using height_bounds [OF cons] f ref acc by auto
    have id: "safe_int (tel_id t)"
      using r by (simp add: row_wf_def telemetry_safe_def telemetry_of_row_def)
    show ?thesis
      using f until mult version ref acc nref height id
      by (auto simp: state_row_ok_def state_safe_def safe_opt_def split: option.splits)
  qed
qed

lemma latest_row_wf:
  assumes "db_wf d" and "latest_row n d = Some r"
  shows "row_wf r \<and> r \<in> set (db_telemetry d)"
proof -
  have "\<forall>r\<in>set (db_telemetry d). row_dates_ok r" using assms(1) by (auto simp: db_wf_def row_wf_def)
  from latest_row_spec(1) [OF this assms(2)] assms(1) show ?thesis by (auto simp: db_wf_def)
qed

lemma stored_telemetry_wf:
  "db_wf d \<Longrightarrow> stored_telemetry n d = Some t \<Longrightarrow> \<exists>r. row_wf r \<and> t = telemetry_of_row r"
  using latest_row_wf by (auto simp: stored_telemetry_def)

lemma state_row_until: "state_row_ok s \<Longrightarrow> st_validUntil s = Some u \<Longrightarrow> valid_date u"
  by (cases u) (auto simp: state_row_ok_def split: option.splits)

lemma derive_and_store_total:
  assumes wf: "db_wf d" and dep: "dict_get (db_deployments d) n = Some dep"
  shows "\<exists>r d'. derive_and_store clock now n dep d = (Inr r, d') \<and> db_wf d' \<and> dws_deployment r = dep"
proof -
  have ok: "stored_ok dep" "dep_nodeId dep = n" using wf dep by (auto simp: db_wf_def)
  have rows: "row_wf r \<and> r \<in> set (db_telemetry d)" if "latest_row n d = Some r" for r
    using latest_row_wf [OF wf that] .
  define tel where "tel = stored_telemetry n d"
  have tel: "\<exists>r. row_wf r \<and> t = telemetry_of_row r" if "tel = Some t" for t
    using that rows by (auto simp: tel_def stored_telemetry_def)
  obtain w where w: "deriveSensorState dep tel (dict_get (db_states d) n) now = Inr w"
  proof (cases "deriveSensorState dep tel (dict_get (db_states d) n) now")
    case (Inl e)
    then obtain t where "tel = Some t" "selectObservationTime t = Inl e"
      unfolding derive_fails_iff by blast
    with tel select_row_time show ?thesis by (fastforce simp: row_wf_def)
  qed blast
  define row where "row = upserted_state clock (dict_get (db_states d) (st_nodeId w)) w"
  have node: "st_nodeId w = n" using derive_consistent [OF w] ok(2) by (simp add: state_consistent_def)
  have row_ok: "state_row_ok row" "state_safe row"
    using derived_row_ok [OF ok(1) tel w] by (simp_all add: row_def)
  have "state_references_ok d row"
  proof (cases tel)
    case None
    with w dep node show ?thesis
      by (auto simp: state_references_ok_def row_def deriveSensorState_def unknownState_def)
  next
    case (Some t)
    with w have "st_telemetryId w = Some (tel_id t)" by (auto elim: derive_fields)
    moreover have "tel_id t \<in> tr_id ` set (db_telemetry d)"
      using Some rows by (auto simp: tel_def stored_telemetry_def telemetry_of_row_def)
    ultimately show ?thesis using dep node by (simp add: state_references_ok_def row_def)
  qed
  then have up: "upsertState clock w d = (Inr row, d\<lparr>db_states := dict_set n row (db_states d)\<rparr>)"
    using row_ok node by (simp add: upsertState_Inr row_def)
  have reads: "findStateForUpdate n d = (Inr (dict_get (db_states d) n), d)"
    "findLatestTelemetry n d = (Inr tel, d)"
    using wf rows by (auto simp: findState_Inr findLatest_Inr db_wf_def tel_def stored_telemetry_def row_wf_def)
  have "derive_and_store clock now n dep d =
      (Inr \<lparr> dws_deployment = dep, dws_state = Some row \<rparr>, d\<lparr>db_states := dict_set n row (db_states d)\<rparr>)"
    by (simp add: derive_and_store_def db_bind_def reads w up db_return_def)
  moreover have "db_wf (d\<lparr>db_states := dict_set n row (db_states d)\<rparr>)"
    using wf row_ok(2) by (auto simp: db_wf_def dict_get_set)
  ultimately show ?thesis by auto
qed

lemma recompute_Inr:
  "recomputeNode clock now n d = (Inr r, d') \<longleftrightarrow>
     (case dict_get (db_deployments d) n of
        None \<Rightarrow> r = None \<and> d' = d
      | Some dep \<Rightarrow> deployment_safe dep \<and> (\<exists>rec. derive_and_store clock now n dep d = (Inr rec, d') \<and>
          r = Some (evaluateEffectiveSensorState rec now)))"
  by (cases "dict_get (db_deployments d) n")
    (auto simp: recomputeNode_def action_simps findDeployment_Inr)

lemma recompute_Inl: "recomputeNode clock now n d = (Inl e, d') \<Longrightarrow> same_tables d d'"
  by (auto simp: recomputeNode_def db_bind_Inl db_return_eq dest: transaction_rollback)

lemma recompute_keeps_current:
  assumes "states_current d"
  shows "states_current (snd (recomputeNode clock now nodeId d))"
proof -
  obtain r d' where run: "recomputeNode clock now nodeId d = (r, d')" by fastforce
  have "states_current d'"
  proof (cases r)
    case (Inl e)
    with run assms show ?thesis by (auto dest: recompute_Inl intro: same_tables_current)
  next
    case (Inr x)
    show ?thesis
    proof (cases "dict_get (db_deployments d) nodeId")
      case None
      with run Inr assms show ?thesis by (simp add: recompute_Inr)
    next
      case (Some dep)
      with run Inr obtain rec where "derive_and_store clock now nodeId dep d = (Inr rec, d')"
        by (auto simp: recompute_Inr)
      then show ?thesis
        by (rule derive_and_store_current) (use Some assms in \<open>auto simp: states_current_def\<close>)
    qed
  qed
  with run show "states_current (snd (recomputeNode clock now nodeId d))" by simp
qed

section \<open>Hysteresis does not drift\<close>

lemma derive_again:
  assumes th: "thresholds_ok dep" and d1: "deriveSensorState dep t p now = Inr w"
    and fresh: "\<And>u. st_validUntil w = Some u \<Longrightarrow> date_le now u"
  shows "deriveSensorState dep t (Some (upserted_state c e w)) now = Inr w"
proof (cases t)
  case None
  with d1 show ?thesis by (simp add: deriveSensorState_def)
next
  case (Some tel)
  show ?thesis
  proof (cases "dep_enabled dep \<and> telemetryReasonCodes dep tel = []")
    case False
    with d1 Some show ?thesis
      by (auto simp: deriveSensorState_def res_bind_Inr Let_def split: if_splits)
  next
    case True
    let ?h = "max 0 (the (reference_distance dep tel) - the (tel_acceptedDistanceMm tel))"
    let ?l = "st_classifiedLevel w"
    have lvl: "?l = (if canUseHysteresis dep p now
        then classifyWithHysteresis ?h (st_classifiedLevel (the p)) dep else classifyDirect ?h dep)"
      using d1 Some True by (auto simp: deriveSensorState_def res_bind_Inr Let_def)
    have valid: "st_classificationStatus w = CS_VALID" "?l \<noteq> UNKNOWN"
        "st_classificationConfigVersion w = dep_configVersion dep" "\<exists>u. st_validUntil w = Some u"
      using d1 Some True derive_consistent [OF d1]
      by (auto simp: deriveSensorState_def res_bind_Inr Let_def state_consistent_def)
    then have can: "canUseHysteresis dep (Some (upserted_state c e w)) now"
      using fresh by (auto simp: canUseHysteresis_def)
    have mono: "classifyDirect ?h dep \<le> classifyDirect (?h + dep_hysteresisMm dep) dep"
      using classifyDirect_mono [OF th] th by (simp add: thresholds_ok_def)
    have "canUseHysteresis dep p now \<Longrightarrow> classifyWithHysteresis ?h (st_classifiedLevel (the p)) dep =
        max (classifyDirect ?h dep)
          (min (st_classifiedLevel (the p)) (classifyDirect (?h + dep_hysteresisMm dep) dep))"
      using hysteresis_levels [OF th] hysteresis_previous_known by blast
    with lvl mono have "classifyWithHysteresis ?h ?l dep = ?l"
      unfolding hysteresis_levels [OF th valid(2)]
      by (auto simp: max_def min_def split: if_splits)
    with can True Some d1 show ?thesis
      by (auto simp: deriveSensorState_def res_bind_Inr Let_def)
  qed
qed

section \<open>A sample store\<close>

definition sample_row :: telemetry_row where
  "sample_row = \<lparr>
     tr_id = 7, tr_gateway_id = 1, tr_gateway_logical_id_snapshot = ''gw-1'', tr_node_id = ''node-1'',
     tr_node_boot_session_id = 1, tr_node_sequence = 5, tr_gateway_received_at = Some (Date 1000),
     tr_gateway_time_trusted = True, tr_gateway_uptime_ms = 10, tr_gateway_boot_session_id = 1,
     tr_server_received_at = Date 2000, tr_median_echo_us = 100, tr_raw_distance_mm = Some 750,
     tr_accepted_distance_mm = Some 750, tr_reference_distance_mm = Some 1000, tr_mad_mm = 1,
     tr_temperature_centi_c = None, tr_humidity_centi_percent = None, tr_battery_mv = 3700,
     tr_valid_samples = 5, tr_total_samples = 5, tr_filter_state = 0, tr_quality_flags = 4,
     tr_health_flags = 0, tr_rssi_dbm = Fin (- 80), tr_snr_db = Fin 7, tr_frequency_error_hz = 0,
     tr_packet_length = 68, tr_protocol_version = 3, tr_raw_payload = [] \<rparr>"

definition sample_db :: db where
  "sample_db = \<lparr> db_gateways = [], db_gatewaySeq = 1, db_nodes = [], db_telemetry = [sample_row],
     db_telemetrySeq = 8, db_deployments = [(''node-1'', sample_deployment)], db_states = [] \<rparr>"

lemma sample_inside: "isPointInsidePolygon (Fin 2, Fin 2) [sample_ring]"
  by code_simp

lemma sample_stored_ok: "stored_ok sample_deployment"
proof -
  have "id_pattern 24 (dep_nodeId sample_deployment)" by code_simp
  moreover have "polygon_ok [sample_ring]" using sample_ring_ok by (simp add: polygon_ok_def)
  ultimately show ?thesis
    using sample_deployment_ok sample_inside
    by (simp add: stored_ok_def deployment_ok_def location_ok_def intervals_ok_def override_ok_def
        coordinate_ok_def sample_deployment_def INTEGER_MAX_def max_safe_integer_def safe_int_def)
qed

lemma sample_row_wf: "row_wf sample_row"
  by (simp add: row_wf_def sample_row_def telemetry_safe_def safe_int_def safe_opt_def
      row_dates_ok_def row_time_def max_safe_integer_def)

lemma sample_db_wf: "db_wf sample_db"
proof -
  have "dep_nodeId sample_deployment = ''node-1''" by (simp add: sample_deployment_def)
  then show ?thesis
    using sample_stored_ok sample_row_wf by (simp add: db_wf_def sample_db_def dict_get_def)
qed

lemma sample_db_current: "states_current sample_db"
proof -
  have "dep_nodeId sample_deployment = ''node-1''" by (simp add: sample_deployment_def)
  then show ?thesis by (simp add: states_current_def sample_db_def dict_get_def)
qed

lemma sample_fresh:
  "case recomputeNode (Date 2500) (Date 3000) ''node-1'' sample_db of
     (Inr (Some e), d) \<Rightarrow> ef_fresh e | _ \<Rightarrow> False"
  by code_simp

lemma sample_validates:
  "validateSensorDeployment (deployment_value sample_deployment) (num_of_int 2000) =
     Inr (deployment_write.truncate sample_deployment)"
proof (rule validate_deployment_value)
  show "deployment_ok sample_deployment" using sample_stored_ok by (simp add: stored_ok_def)
  show "int (total_vertices (dep_coveragePolygon sample_deployment)) \<le> int_of_num (num_of_int 2000)"
    by (simp add: sample_deployment_def total_vertices_def sample_ring_def)
qed (simp_all add: num_of_int_def max_safe_integer_def)

lemma sample_value_node:
  "with_node_id (deployment_value sample_deployment) ''node-1'' = deployment_value sample_deployment"
  by (simp add: deployment_value_def sample_deployment_def)

lemma sample_deployment_version: "dep_configVersion sample_deployment = 1"
  by (simp add: sample_deployment_def)

lemma sample_upsert:
  "\<exists>effective d'. upsert (num_of_int 2000) (Date 2500) (Date 3000) ''node-1''
     (deployment_value sample_deployment) sample_db = (Inr effective, d')"
proof -
  let ?w = "deployment_write.truncate sample_deployment"
  have node: "dep_nodeId ?w = ''node-1''" by (simp add: deployment_write.defs sample_deployment_def)
  have existing: "dict_get (db_deployments sample_db) ''node-1'' = Some sample_deployment"
    by (simp add: sample_db_def dict_get_def)
  have same: "upserted_deployment (Date 2500) (Some sample_deployment) ?w = sample_deployment"
    by (simp add: upserted_deployment_def deployment_changed_def deployment_write.defs deployment.defs)
  have "deployment_row_ok sample_deployment"
    using sample_deployment_ok
    by (simp add: deployment_row_ok_def multipliers_ok_def sample_deployment_def INTEGER_MAX_def)
  then have up: "upsertDeployment (Date 2500) ?w sample_db =
      (Inr sample_deployment, sample_db)"
    using node existing same deployment_ok_safe [OF sample_stored_ok]
    by (simp add: upsertDeployment_Inr) (simp add: sample_db_def)
  obtain rec d' where ds: "derive_and_store (Date 2500) (Date 3000) ''node-1'' sample_deployment sample_db =
      (Inr rec, d')"
    using derive_and_store_total [OF sample_db_wf existing] by blast
  have rec_value: "isRecord (deployment_value sample_deployment)" by (simp add: deployment_value_def)
  show ?thesis
    by (simp add: upsert_def rec_value sample_value_node sample_validates transaction_def db_bind_def up ds)
qed

section \<open>Properties\<close>

text \<open>
  C7: A stored state always agrees with the stored deployment: whatever the outcome of an upsert or
  of a recomputation, every state in the store belongs to a stored deployment, carries that
  deployment's current configuration version and is consistent with it; a failed transaction
  leaves the tables as they were.
\<close>

theorem stored_states_current:
  assumes "states_current d"
  shows "states_current (snd (upsert maxPolygonVertices clock now nodeId body d)) \<and>
    states_current (snd (recomputeNode clock now nodeId d))"
proof
  let ?input = "if isRecord body then with_node_id body nodeId else body"
  have main: "states_current d'" if w: "validateSensorDeployment ?input maxPolygonVertices = Inr w"
    and run: "transaction (db_bind (upsertDeployment clock w)
      (\<lambda>deployment. derive_and_store clock now nodeId deployment)) d = (r, d')" for w r d'
  proof (cases r)
    case (Inl e)
    with run assms show ?thesis by (auto dest: transaction_rollback intro: same_tables_current)
  next
    case (Inr rec)
    with run obtain row d1 where up: "upsertDeployment clock w d = (Inr row, d1)"
      and ds: "derive_and_store clock now nodeId row d1 = (Inr rec, d')"
      by (auto simp: action_simps)
    note node = node_of_validated [OF w]
    show ?thesis
    proof (rule derive_and_store_current [OF ds])
      show "dict_get (db_deployments d1) nodeId = Some row" "dep_nodeId row = nodeId"
        using up node by (simp_all add: upsertDeployment_Inr dict_get_set)
      show "\<forall>m e. dict_get (db_deployments d1) m = Some e \<longrightarrow> dep_nodeId e = m"
        using up node assms by (auto simp: upsertDeployment_Inr dict_get_set states_current_def)
      show "\<forall>m s. m \<noteq> nodeId \<longrightarrow> dict_get (db_states d1) m = Some s \<longrightarrow>
          (\<exists>e. dict_get (db_deployments d1) m = Some e \<and> state_consistent e s)"
        using up node assms by (auto simp: upsertDeployment_Inr dict_get_set states_current_def)
    qed
  qed
  show "states_current (snd (upsert maxPolygonVertices clock now nodeId body d))"
    using main assms by (auto simp: upsert_def split: sum.splits prod.splits)
next
  show "states_current (snd (recomputeNode clock now nodeId d))"
    using assms by (rule recompute_keeps_current)
qed

theorem stored_states_current_witness:
  "states_current (snd (recomputeNode (Date 2500) (Date 3000) ''node-1'' sample_db))"
  using stored_states_current [OF sample_db_current, of "num_of_int 2000" "Date 2500" "Date 3000" "''node-1''" JNull]
  by simp

text \<open>
  C8: A successful upsert stores exactly the validated configuration. The configuration version
  starts at 1 and grows by one exactly when a column changed; an unchanged configuration keeps
  its version and its update time. Other nodes' deployments and states and all telemetry are left alone,
  and the stored state is the one derived for the new version.
\<close>

theorem upsert_versions:
  assumes "upsert maxPolygonVertices clock now nodeId body d = (Inr effective, d')"
  shows "\<exists>w row s. validateSensorDeployment (with_node_id body nodeId) maxPolygonVertices = Inr w \<and>
    dict_get (db_deployments d') nodeId = Some row \<and> deployment_write.truncate row = w \<and>
    (case dict_get (db_deployments d) nodeId of
       None \<Rightarrow> dep_configVersion row = 1
     | Some e \<Rightarrow> if deployment_write.truncate e = w
         then dep_configVersion row = dep_configVersion e \<and> dep_updatedAt row = dep_updatedAt e
         else dep_configVersion row = dep_configVersion e + 1 \<and> dep_updatedAt row = clock) \<and>
    dict_get (db_states d') nodeId = Some s \<and> st_classificationConfigVersion s = dep_configVersion row \<and>
    effective = evaluateEffectiveSensorState \<lparr> dws_deployment = row, dws_state = Some s \<rparr> now \<and>
    db_telemetry d' = db_telemetry d \<and>
    (\<forall>m. m \<noteq> nodeId \<longrightarrow> dict_get (db_deployments d') m = dict_get (db_deployments d) m \<and>
      dict_get (db_states d') m = dict_get (db_states d) m)"
proof -
  obtain w rec where w: "validateSensorDeployment (if isRecord body then with_node_id body nodeId else body)
      maxPolygonVertices = Inr w"
    and run: "transaction (db_bind (upsertDeployment clock w)
      (\<lambda>deployment. derive_and_store clock now nodeId deployment)) d = (Inr rec, d')"
    and eff: "effective = evaluateEffectiveSensorState rec now"
    using assms by (auto simp: upsert_def split: sum.splits prod.splits)
  have input: "validateSensorDeployment (with_node_id body nodeId) maxPolygonVertices = Inr w"
    using w by (auto simp: validate_deployment_Inr split: if_splits)
  note node = node_of_validated [OF w]
  define row where "row = upserted_deployment clock (dict_get (db_deployments d) nodeId) w"
  define d1 where "d1 = d\<lparr>db_deployments := dict_set nodeId row (db_deployments d)\<rparr>"
  from run node have ds: "derive_and_store clock now nodeId row d1 = (Inr rec, d')"
    by (auto simp: action_simps upsertDeployment_Inr row_def d1_def)
  obtain sw s where s:
    "deriveSensorState row (stored_telemetry nodeId d1) (dict_get (db_states d1) nodeId) now = Inr sw"
    "s = upserted_state clock (dict_get (db_states d1) (st_nodeId sw)) sw"
    "d' = d1\<lparr>db_states := dict_set (st_nodeId sw) s (db_states d1)\<rparr>"
    "rec = \<lparr> dws_deployment = row, dws_state = Some s \<rparr>" "st_nodeId sw = dep_nodeId row"
    using derive_and_store_Inr [OF ds] by metis
  have version: "st_classificationConfigVersion s = dep_configVersion row"
    using derive_consistent [OF s(1)] s(2) by (simp add: state_consistent_def)
  have nodes: "st_nodeId sw = nodeId" using s(5) node by (simp add: row_def)
  have trunc: "deployment_write.truncate row = w"
    by (cases w) (simp add: row_def upserted_deployment_def deployment_write.defs)
  have versions: "case dict_get (db_deployments d) nodeId of
       None \<Rightarrow> dep_configVersion row = 1
     | Some e \<Rightarrow> if deployment_write.truncate e = w
         then dep_configVersion row = dep_configVersion e \<and> dep_updatedAt row = dep_updatedAt e
         else dep_configVersion row = dep_configVersion e + 1 \<and> dep_updatedAt row = clock"
    by (auto simp: row_def upserted_deployment_def deployment_changed_def deployment_write.defs
        deployment.defs split: option.splits)
  show ?thesis
    using input trunc versions version eff s(3,4) nodes
    by (intro exI [of _ w] exI [of _ row] exI [of _ s]) (simp add: d1_def dict_get_set)
qed

theorem upsert_versions_witness:
  "\<exists>effective d'. upsert (num_of_int 2000) (Date 2500) (Date 3000) ''node-1''
      (deployment_value sample_deployment) sample_db = (Inr effective, d') \<and>
    (\<exists>row. dict_get (db_deployments d') ''node-1'' = Some row \<and> dep_configVersion row = 1)"
proof -
  obtain effective d' where run: "upsert (num_of_int 2000) (Date 2500) (Date 3000) ''node-1''
      (deployment_value sample_deployment) sample_db = (Inr effective, d')"
    using sample_upsert by blast
  have existing: "dict_get (db_deployments sample_db) ''node-1'' = Some sample_deployment"
    by (simp add: sample_db_def dict_get_def)
  have value_same: "with_node_id (deployment_value sample_deployment) ''node-1'' = deployment_value sample_deployment"
    by (rule sample_value_node)
  show ?thesis
    using run upsert_versions [OF run] existing sample_validates
    by (auto simp: value_same sample_deployment_version)
qed



text \<open>
  Recomputation always succeeds on a well-formed store and keeps it well formed: the derived
  state satisfies every check and reference of the schema, and the result is empty exactly when
  the node has no deployment.
\<close>

theorem recompute_succeeds:
  assumes "db_wf d"
  shows "\<exists>r d'. recomputeNode clock now nodeId d = (Inr r, d') \<and> db_wf d' \<and>
    (r = None \<longleftrightarrow> dict_get (db_deployments d) nodeId = None)"
proof (cases "dict_get (db_deployments d) nodeId")
  case None
  with assms show ?thesis by (auto simp: recompute_Inr)
next
  case (Some dep)
  then have "deployment_safe dep" using assms by (auto simp: db_wf_def intro: deployment_ok_safe)
  with derive_and_store_total [OF assms Some, of clock now] Some show ?thesis
    by (auto simp: recompute_Inr)
qed

theorem recompute_succeeds_witness:
  "\<exists>r d'. recomputeNode (Date 2500) (Date 3000) ''node-1'' sample_db = (Inr (Some r), d') \<and> db_wf d'"
  using recompute_succeeds [OF sample_db_wf, of "Date 2500" "Date 3000" "''node-1''"]
  by (force simp: sample_db_def dict_get_def)

text \<open>
  Recomputing a node twice at the same time gives the same fresh result: hysteresis applied to
  the state it just produced does not move the level.
\<close>

theorem recompute_stable:
  assumes "recomputeNode clock now nodeId d = (Inr (Some e), d1)" and "db_wf d" and "ef_fresh e"
    and "valid_date now"
  shows "\<exists>d2. recomputeNode clock2 now nodeId d1 = (Inr (Some e), d2)"
proof -
  obtain dep rec where dep: "dict_get (db_deployments d) nodeId = Some dep"
    and ds: "derive_and_store clock now nodeId dep d = (Inr rec, d1)"
    and e: "e = evaluateEffectiveSensorState rec now"
    using assms(1) by (auto simp: recompute_Inr split: option.splits)
  obtain w s where w:
    "deriveSensorState dep (stored_telemetry nodeId d) (dict_get (db_states d) nodeId) now = Inr w"
    "s = upserted_state clock (dict_get (db_states d) (st_nodeId w)) w"
    "d1 = d\<lparr>db_states := dict_set (st_nodeId w) s (db_states d)\<rparr>"
    "rec = \<lparr> dws_deployment = dep, dws_state = Some s \<rparr>" "st_nodeId w = dep_nodeId dep"
    using derive_and_store_Inr [OF ds] by metis
  have node: "st_nodeId w = nodeId" and th: "thresholds_ok dep"
    using assms(2) dep w(5) by (auto simp: db_wf_def stored_ok_def deployment_ok_def)
  have wf1: "db_wf d1" using derive_and_store_total [OF assms(2) dep, of clock now] ds by auto
  have dep1: "dict_get (db_deployments d1) nodeId = Some dep" using dep w(3) by simp
  have s1: "dict_get (db_states d1) nodeId = Some s" using w(3) node by (simp add: dict_get_set)
  have tel1: "stored_telemetry nodeId d1 = stored_telemetry nodeId d"
    by (simp add: w(3) stored_telemetry_def latest_row_def latest_per_session_def)
  have row_ok: "state_row_ok s"
    using assms(2) dep derived_row_ok [OF _ stored_telemetry_wf [OF assms(2)] w(1)] w(2) by (auto simp: db_wf_def)
  have fresh: "date_le now u" if "st_validUntil w = Some u" for u
    using assms(3,4) that state_row_until [OF row_ok, of u]
    by (auto simp: e w(2,4) evaluateEffectiveSensorState_def Let_def sensor_state_write.defs date_not_lt
        split: if_splits option.splits)
  have again: "deriveSensorState dep (stored_telemetry nodeId d1) (dict_get (db_states d1) nodeId) now = Inr w"
    unfolding tel1 s1 w(2) by (rule derive_again [OF th w(1) fresh])
  obtain r2 d2 where r2: "derive_and_store clock2 now nodeId dep d1 = (Inr r2, d2)"
    using derive_and_store_total [OF wf1 dep1, of clock2 now] by auto
  then obtain w2 s2 where w2:
    "deriveSensorState dep (stored_telemetry nodeId d1) (dict_get (db_states d1) nodeId) now = Inr w2"
    "s2 = upserted_state clock2 (dict_get (db_states d1) (st_nodeId w2)) w2"
    "r2 = \<lparr> dws_deployment = dep, dws_state = Some s2 \<rparr>"
    by (rule derive_and_store_Inr)
  have "evaluateEffectiveSensorState r2 now = e"
    using w2 again w(2,4) by (simp add: e evaluateEffectiveSensorState_def Let_def sensor_state_write.defs)
  moreover have "deployment_safe dep" using wf1 dep1 by (auto simp: db_wf_def intro: deployment_ok_safe)
  ultimately show ?thesis using dep1 r2 by (auto simp: recompute_Inr)
qed

theorem recompute_stable_witness:
  "\<exists>e d1 d2. recomputeNode (Date 2500) (Date 3000) ''node-1'' sample_db = (Inr (Some e), d1) \<and>
     recomputeNode (Date 2600) (Date 3000) ''node-1'' d1 = (Inr (Some e), d2)"
proof -
  obtain e d1 where run: "recomputeNode (Date 2500) (Date 3000) ''node-1'' sample_db = (Inr (Some e), d1)"
    and fresh: "ef_fresh e"
    using sample_fresh by (auto split: prod.splits sum.splits option.splits)
  have "valid_date (Date 3000)" by simp
  from recompute_stable [OF run sample_db_wf fresh this, of "Date 2600"] run show ?thesis by blast
qed

text \<open>
  C10: A validated deployment violates no check of its table except the width of the two interval
  columns: the stored row is accepted exactly when the staleness, and so the poll interval,
  fits a 32-bit integer. The validator admits larger values, which then fail in the database.
\<close>

theorem validated_row_fits:
  assumes "validateSensorDeployment v maxPolygonVertices = Inr w"
    and "\<forall>e. existing = Some e \<longrightarrow> 1 \<le> dep_configVersion e"
  shows "deployment_row_ok (upserted_deployment clock existing w) \<longleftrightarrow>
    dep_staleAfterMinutes w \<le> INTEGER_MAX"
proof -
  have ok: "deployment_ok w" by (rule validated_deployment_ok [OF assms(1)])
  then have coords: "\<exists>a b. dep_longitude w = Fin a \<and> dep_latitude w = Fin b \<and>
      - 180 \<le> a \<and> a \<le> 180 \<and> - 90 \<le> b \<and> b \<le> 90"
    by (auto simp: deployment_ok_def location_ok_def coordinate_ok_def is_finite_iff)
  have version: "1 \<le> dep_configVersion (upserted_deployment clock existing w)"
    using assms(2) by (cases existing) (auto simp: upserted_deployment_def deployment_write.defs deployment.defs)
  have same: "dep_latitude (upserted_deployment clock existing w) = dep_latitude w"
    "dep_longitude (upserted_deployment clock existing w) = dep_longitude w"
    "dep_expectedPollIntervalMinutes (upserted_deployment clock existing w) = dep_expectedPollIntervalMinutes w"
    "dep_staleAfterMinutes (upserted_deployment clock existing w) = dep_staleAfterMinutes w"
    "dep_hysteresisMm (upserted_deployment clock existing w) = dep_hysteresisMm w"
    "dep_mediumThresholdMm (upserted_deployment clock existing w) = dep_mediumThresholdMm w"
    "dep_highThresholdMm (upserted_deployment clock existing w) = dep_highThresholdMm w"
    "dep_blockedThresholdMm (upserted_deployment clock existing w) = dep_blockedThresholdMm w"
    "dep_lowMultiplier (upserted_deployment clock existing w) = dep_lowMultiplier w"
    "dep_mediumMultiplier (upserted_deployment clock existing w) = dep_mediumMultiplier w"
    "dep_highMultiplier (upserted_deployment clock existing w) = dep_highMultiplier w"
    "dep_blockedMultiplier (upserted_deployment clock existing w) = dep_blockedMultiplier w"
    "dep_unknownMultiplier (upserted_deployment clock existing w) = dep_unknownMultiplier w"
    "dep_referenceDistanceOverrideMm (upserted_deployment clock existing w) = dep_referenceDistanceOverrideMm w"
    by (simp_all add: upserted_deployment_def deployment_write.defs)
  from ok coords version show ?thesis
    unfolding deployment_row_ok_def same deployment_ok_def intervals_ok_def thresholds_ok_def
      multipliers_ok_def override_ok_def
    by auto
qed

theorem validated_row_fits_witness:
  "validateSensorDeployment (deployment_value sample_deployment) (num_of_int 2000) =
     Inr (deployment_write.truncate sample_deployment) \<and>
   deployment_row_ok (upserted_deployment (Date 0) None (deployment_write.truncate sample_deployment))"
proof -
  have "\<forall>e. None = Some e \<longrightarrow> 1 \<le> dep_configVersion e" by simp
  from validated_row_fits [OF sample_validates this, of "Date 0"] sample_validates show ?thesis
    by (simp add: sample_deployment_def INTEGER_MAX_def deployment_write.defs)
qed

end
