(* ===== verification/Telemetry_Ingestion.thy ===== *)
theory Telemetry_Ingestion
  imports Sensor_Deployments
begin

text \<open>
  Ingestion of telemetry batches: \<^verbatim>\<open>src/src/iot/services/telemetry-ingestion.service.ts\<close> and
  \<^verbatim>\<open>src/src/iot/repositories/iot-ingestion.repository.ts\<close>. A request has passed the DTO's
  validation pipe; \<open>reading_dto_ok\<close> states the part of it that the table's checks rest on.
  \<open>dateParse\<close> parses the gateway's timestamps. The reason of a rejected reading is the decoder's
  error code. Errors of the recomputation of a node's state are logged and dropped, so
  ingestion continues with the store the failed transaction left. The lemmas show one result
  per reading in order, that a reading is stored once however often it is sent, and that
  persistence of well-formed readings cannot fail a check of the schema.
\<close>

section \<open>Requests and results\<close>

record gateway_descriptor =
  gd_gatewayId :: string
  gd_hardwareMac :: string
  gd_firmwareVersion :: string
  gd_bootSessionId :: int

record reception =
  rc_gatewayReceivedAt :: "string option"
  rc_gatewayTimeTrusted :: bool
  rc_gatewayUptimeMs :: int
  rc_gatewayBootSessionId :: int
  rc_rssiDbm :: jsnum
  rc_snrDb :: jsnum
  rc_frequencyErrorHz :: int
  rc_packetLength :: int
  rc_rawPayloadBase64 :: string

record ingest_request =
  rq_gateway :: gateway_descriptor
  rq_readings :: "reception list"

record validated_reading =
  vr_index :: nat
  vr_decoded :: decoded_telemetry
  vr_reception :: reception

datatype ingestion_status = INSERTED | DUPLICATE | REJECTED_INVALID

record ingestion_result =
  ir_index :: nat
  ir_nodeId :: "string option"
  ir_bootSessionId :: "int option"
  ir_sequence :: "int option"
  ir_status :: ingestion_status
  ir_reason :: "node_decode_error option"

record ingestion_response =
  ib_receivedAt :: js_date
  ib_results :: "ingestion_result list"

record persisted_result =
  ps_index :: nat
  ps_inserted :: bool
  ps_telemetryId :: "int option"
  ps_nodeId :: string

section \<open>Repository\<close>

text \<open>The checks and column types of \<open>iot_telemetry\<close>; an invalid date is refused as well.\<close>

definition in_range_opt :: "int \<Rightarrow> int \<Rightarrow> int option \<Rightarrow> bool" where
  "in_range_opt lo hi v = (case v of None \<Rightarrow> True | Some n \<Rightarrow> lo \<le> n \<and> n \<le> hi)"

definition telemetry_row_ok :: "telemetry_row \<Rightarrow> bool" where
  "telemetry_row_ok r \<longleftrightarrow>
     is_u32 (tr_node_boot_session_id r) \<and> is_u32 (tr_node_sequence r) \<and>
     (case tr_gateway_received_at r of None \<Rightarrow> True | Some g \<Rightarrow> valid_date g) \<and>
     0 \<le> tr_gateway_uptime_ms r \<and> is_u32 (tr_gateway_boot_session_id r) \<and>
     valid_date (tr_server_received_at r) \<and> is_u32 (tr_median_echo_us r) \<and>
     in_range_opt 0 4294967294 (tr_raw_distance_mm r) \<and>
     in_range_opt 0 4294967294 (tr_accepted_distance_mm r) \<and>
     in_range_opt 1 4294967295 (tr_reference_distance_mm r) \<and>
     is_u16 (tr_mad_mm r) \<and> in_range_opt (- 32767) 32767 (tr_temperature_centi_c r) \<and>
     in_range_opt 0 65534 (tr_humidity_centi_percent r) \<and> is_u16 (tr_battery_mv r) \<and>
     is_u8 (tr_valid_samples r) \<and> is_u8 (tr_total_samples r) \<and>
     0 \<le> tr_filter_state r \<and> tr_filter_state r \<le> 7 \<and>
     is_u16 (tr_quality_flags r) \<and> is_u16 (tr_health_flags r) \<and>
     1 \<le> tr_packet_length r \<and> tr_packet_length r \<le> 96 \<and>
     tr_protocol_version r \<in> {1, 2, 3} \<and>
     (tr_gateway_time_trusted r \<longleftrightarrow> tr_gateway_received_at r \<noteq> None) \<and>
     tr_packet_length r = int (length (tr_raw_payload r))"

definition row_identity :: "telemetry_row \<Rightarrow> string \<times> int \<times> int" where
  "row_identity r = (tr_node_id r, tr_node_boot_session_id r, tr_node_sequence r)"

definition safeTelemetryId :: "int \<Rightarrow> (db_error, int) result" where
  "safeTelemetryId v = (if \<bar>v\<bar> \<le> max_safe_integer then Inr v else Inl (UNSAFE_INTEGER ''telemetry id''))"

definition upserted_gateway :: "int \<Rightarrow> gateway_descriptor \<Rightarrow> js_date \<Rightarrow> gateway_row option \<Rightarrow> gateway_row" where
  "upserted_gateway fresh g serverReceivedAt existing = (case existing of
     None \<Rightarrow> \<lparr> gw_id = fresh, gw_hardware_mac = to_upper (gd_hardwareMac g),
       gw_logical_gateway_id = gd_gatewayId g, gw_firmware_version = gd_firmwareVersion g,
       gw_first_seen_at = serverReceivedAt, gw_last_seen_at = serverReceivedAt \<rparr>
   | Some e \<Rightarrow> e\<lparr> gw_logical_gateway_id := gd_gatewayId g,
       gw_firmware_version := gd_firmwareVersion g, gw_last_seen_at := serverReceivedAt \<rparr>)"

definition logical_id_free :: "(string, gateway_row) dict \<Rightarrow> string \<Rightarrow> string \<Rightarrow> bool" where
  "logical_id_free gateways mac logical \<longleftrightarrow>
     \<not> list_ex (\<lambda>(m, g). m \<noteq> mac \<and> gw_logical_gateway_id g = logical) gateways"

definition upsertGateway :: "gateway_descriptor \<Rightarrow> js_date \<Rightarrow> int action" where
  "upsertGateway g serverReceivedAt d =
     (let mac = to_upper (gd_hardwareMac g);
          row = upserted_gateway (db_gatewaySeq d) g serverReceivedAt (dict_get (db_gateways d) mac);
          d1 = d\<lparr>db_gatewaySeq := db_gatewaySeq d + 1\<rparr> in
      if \<not> valid_date serverReceivedAt then (Inl (CHECK_VIOLATION ''iot_gateways''), d1)
      else if \<not> logical_id_free (db_gateways d) mac (gd_gatewayId g)
      then (Inl (UNIQUE_VIOLATION ''iot_gateways_logical_gateway_id_unique''), d1)
      else (Inr (gw_id row), d1\<lparr>db_gateways := dict_set mac row (db_gateways d)\<rparr>))"

definition upsertNode :: "string \<Rightarrow> int \<Rightarrow> js_date \<Rightarrow> unit action" where
  "upsertNode nodeId gatewayId serverReceivedAt d =
     (let row = (case dict_get (db_nodes d) nodeId of
            None \<Rightarrow> \<lparr> nd_node_id = nodeId, nd_first_seen_at = serverReceivedAt,
              nd_last_seen_at = serverReceivedAt, nd_last_gateway_id = gatewayId \<rparr>
          | Some e \<Rightarrow> e\<lparr> nd_last_seen_at := serverReceivedAt, nd_last_gateway_id := gatewayId \<rparr>) in
      (Inr (), d\<lparr>db_nodes := dict_set nodeId row (db_nodes d)\<rparr>))"

definition telemetry_insert_row ::
  "(string \<Rightarrow> js_date) \<Rightarrow> int \<Rightarrow> int \<Rightarrow> gateway_descriptor \<Rightarrow> js_date \<Rightarrow> validated_reading \<Rightarrow> telemetry_row" where
  "telemetry_insert_row dateParse rowId gatewayId gateway serverReceivedAt reading =
     (let reception = vr_reception reading; decoded = vr_decoded reading in \<lparr>
        tr_id = rowId,
        tr_gateway_id = gatewayId,
        tr_gateway_logical_id_snapshot = gd_gatewayId gateway,
        tr_node_id = t3_nodeId decoded,
        tr_node_boot_session_id = t3_persistentSessionId decoded,
        tr_node_sequence = t3_sequence decoded,
        tr_gateway_received_at =
          (if rc_gatewayTimeTrusted reception
           then Some (dateParse (the (rc_gatewayReceivedAt reception))) else None),
        tr_gateway_time_trusted = rc_gatewayTimeTrusted reception,
        tr_gateway_uptime_ms = rc_gatewayUptimeMs reception,
        tr_gateway_boot_session_id = rc_gatewayBootSessionId reception,
        tr_server_received_at = serverReceivedAt,
        tr_median_echo_us = t3_medianEchoUs decoded,
        tr_raw_distance_mm = t3_rawDistanceMm decoded,
        tr_accepted_distance_mm = t3_acceptedDistanceMm decoded,
        tr_reference_distance_mm = t3_referenceDistanceMm decoded,
        tr_mad_mm = t3_madMm decoded,
        tr_temperature_centi_c = t3_temperatureCentiC decoded,
        tr_humidity_centi_percent = t3_humidityCentiPercent decoded,
        tr_battery_mv = t3_batteryMv decoded,
        tr_valid_samples = t3_validSamples decoded,
        tr_total_samples = t3_totalSamples decoded,
        tr_filter_state = t3_filterState decoded,
        tr_quality_flags = t3_qualityFlags decoded,
        tr_health_flags = t3_healthFlags decoded,
        tr_rssi_dbm = rc_rssiDbm reception,
        tr_snr_db = rc_snrDb reception,
        tr_frequency_error_hz = rc_frequencyErrorHz reception,
        tr_packet_length = rc_packetLength reception,
        tr_protocol_version = NODE_PROTOCOL_V3,
        tr_raw_payload = t3_rawPayload decoded \<rparr>)"

text \<open>\<open>ON CONFLICT DO NOTHING RETURNING id\<close>: the id of the inserted row, if it was inserted.\<close>

definition insert_telemetry :: "(int \<Rightarrow> telemetry_row) \<Rightarrow> int option action" where
  "insert_telemetry mk d =
     (let row = mk (db_telemetrySeq d);
          d1 = d\<lparr>db_telemetrySeq := db_telemetrySeq d + 1\<rparr> in
      if \<not> telemetry_row_ok row then (Inl (CHECK_VIOLATION ''iot_telemetry''), d1)
      else if row_identity row \<in> set (map row_identity (db_telemetry d)) then (Inr None, d1)
      else (Inr (Some (tr_id row)), d1\<lparr>db_telemetry := db_telemetry d @ [row]\<rparr>))"

definition persist_reading ::
  "(string \<Rightarrow> js_date) \<Rightarrow> int \<Rightarrow> gateway_descriptor \<Rightarrow> js_date \<Rightarrow> validated_reading \<Rightarrow> persisted_result action" where
  "persist_reading dateParse gatewayId gateway serverReceivedAt reading =
     db_bind (upsertNode (t3_nodeId (vr_decoded reading)) gatewayId serverReceivedAt) (\<lambda>_.
     db_bind (insert_telemetry
       (\<lambda>rowId. telemetry_insert_row dateParse rowId gatewayId gateway serverReceivedAt reading))
     (\<lambda>insertedId.
     db_bind (case insertedId of
         None \<Rightarrow> db_return None
       | Some v \<Rightarrow> db_lift (res_bind (safeTelemetryId v) (\<lambda>n. Inr (Some n))))
     (\<lambda>telemetryId. db_return \<lparr>
         ps_index = vr_index reading,
         ps_inserted = (insertedId \<noteq> None),
         ps_telemetryId = telemetryId,
         ps_nodeId = t3_nodeId (vr_decoded reading) \<rparr>)))"

definition persistBatch ::
  "(string \<Rightarrow> js_date) \<Rightarrow> gateway_descriptor \<Rightarrow> validated_reading list \<Rightarrow> js_date \<Rightarrow>
   persisted_result list action" where
  "persistBatch dateParse gateway readings serverReceivedAt =
     (if length readings = 0 then db_return []
      else transaction
        (db_bind (upsertGateway gateway serverReceivedAt) (\<lambda>gatewayId.
           for_each (persist_reading dateParse gatewayId gateway serverReceivedAt) readings)))"

section \<open>Service\<close>

datatype ingest_error =
    BATCH_TOO_LARGE nat
  | PERSISTENCE_FAILED db_error
  | UNKNOWN_BATCH_INDEX
  | RESULT_MISSING

definition validate_reading :: "reception \<Rightarrow> (node_decode_error, decoded_telemetry) result" where
  "validate_reading reading =
     (if rc_gatewayTimeTrusted reading \<noteq> (rc_gatewayReceivedAt reading \<noteq> None) then Inl TRUNCATED
      else res_bind (decodeNodeTelemetryV3Base64 (rc_rawPayloadBase64 reading)) (\<lambda>decoded.
        if rc_packetLength reading \<noteq> int (length (t3_rawPayload decoded)) then Inl TRAILING_DATA
        else Inr decoded))"

definition rejected :: "nat \<Rightarrow> node_decode_error \<Rightarrow> ingestion_result" where
  "rejected index reason = \<lparr>
     ir_index = index, ir_nodeId = None, ir_bootSessionId = None, ir_sequence = None,
     ir_status = REJECTED_INVALID, ir_reason = Some reason \<rparr>"

definition collect_reading ::
  "validated_reading list \<times> (nat, ingestion_result) dict \<Rightarrow> nat \<times> reception \<Rightarrow>
   validated_reading list \<times> (nat, ingestion_result) dict" where
  "collect_reading acc entry =
     (case validate_reading (snd entry) of
        Inr decoded \<Rightarrow>
          (fst acc @ [\<lparr> vr_index = fst entry, vr_decoded = decoded, vr_reception = snd entry \<rparr>], snd acc)
      | Inl reason \<Rightarrow> (fst acc, dict_set (fst entry) (rejected (fst entry) reason) (snd acc)))"

definition accepted :: "validated_reading \<Rightarrow> persisted_result \<Rightarrow> ingestion_result" where
  "accepted reading persisted = \<lparr>
     ir_index = ps_index persisted,
     ir_nodeId = Some (t3_nodeId (vr_decoded reading)),
     ir_bootSessionId = Some (t3_persistentSessionId (vr_decoded reading)),
     ir_sequence = Some (t3_sequence (vr_decoded reading)),
     ir_status = (if ps_inserted persisted then INSERTED else DUPLICATE),
     ir_reason = None \<rparr>"

fun record_persisted ::
  "(nat, validated_reading) dict \<Rightarrow> persisted_result list \<Rightarrow> (nat, ingestion_result) dict \<Rightarrow>
   (ingest_error, (nat, ingestion_result) dict) result" where
  "record_persisted validByIndex [] results = Inr results"
| "record_persisted validByIndex (persisted # rest) results =
     (case dict_get validByIndex (ps_index persisted) of
        None \<Rightarrow> Inl UNKNOWN_BATCH_INDEX
      | Some reading \<Rightarrow> record_persisted validByIndex rest
          (dict_set (ps_index persisted) (accepted reading persisted) results))"

definition insertedNodeIds :: "persisted_result list \<Rightarrow> string list" where
  "insertedNodeIds persistence = js_set (map ps_nodeId (filter ps_inserted persistence))"

definition recompute_nodes :: "js_date \<Rightarrow> js_date \<Rightarrow> string list \<Rightarrow> db \<Rightarrow> db" where
  "recompute_nodes clock now nodeIds d = foldl (\<lambda>d nodeId. snd (recomputeNode clock now nodeId d)) d nodeIds"

definition ingest ::
  "(string \<Rightarrow> js_date) \<Rightarrow> nat \<Rightarrow> js_date \<Rightarrow> js_date \<Rightarrow> js_date \<Rightarrow> ingest_request \<Rightarrow> db \<Rightarrow>
   (ingest_error, ingestion_response) result \<times> db" where
  "ingest dateParse maximumBatchSize clock now serverReceivedAt request d =
     (if maximumBatchSize < length (rq_readings request) then (Inl (BATCH_TOO_LARGE maximumBatchSize), d)
      else
        let (valid, rejections) =
              foldl collect_reading ([], []) (enumerate 0 (rq_readings request));
            gateway = (rq_gateway request)\<lparr>gd_hardwareMac := to_upper (gd_hardwareMac (rq_gateway request))\<rparr> in
        case persistBatch dateParse gateway valid serverReceivedAt d of
          (Inl e, d1) \<Rightarrow> (Inl (PERSISTENCE_FAILED e), d1)
        | (Inr persistence, d1) \<Rightarrow>
            let d2 = recompute_nodes clock now (insertedNodeIds persistence) d1;
                validByIndex = foldl (\<lambda>m r. dict_set (vr_index r) r m) [] valid in
            (res_bind (record_persisted validByIndex persistence rejections) (\<lambda>results.
             res_bind (traverse (\<lambda>index. case dict_get results index of
                 None \<Rightarrow> Inl RESULT_MISSING | Some r \<Rightarrow> Inr r) [0..<length (rq_readings request)])
             (\<lambda>rs. Inr \<lparr> ib_receivedAt = serverReceivedAt, ib_results = rs \<rparr>)), d2))"

section \<open>Sorting the readings\<close>

fun valid_from :: "nat \<Rightarrow> reception list \<Rightarrow> validated_reading list" where
  "valid_from n [] = []"
| "valid_from n (r # rs) = (case validate_reading r of
     Inl e \<Rightarrow> valid_from (Suc n) rs
   | Inr dec \<Rightarrow> \<lparr> vr_index = n, vr_decoded = dec, vr_reception = r \<rparr> # valid_from (Suc n) rs)"

lemma collect_valid: "fst (foldl collect_reading acc (enumerate n rs)) = fst acc @ valid_from n rs"
  by (induction rs arbitrary: acc n) (auto simp: collect_reading_def split: sum.splits)

lemma collect_rejected:
  "dict_get (snd (foldl collect_reading acc (enumerate n rs))) i =
     (if n \<le> i \<and> i < n + length rs then
        (case validate_reading (rs ! (i - n)) of
           Inl e \<Rightarrow> Some (rejected i e) | Inr dec \<Rightarrow> dict_get (snd acc) i)
      else dict_get (snd acc) i)"
proof (induction rs arbitrary: acc n)
  case Nil
  then show ?case by auto
next
  case (Cons r rs)
  have tail: "Suc n \<le> i \<Longrightarrow> (r # rs) ! (i - n) = rs ! (i - Suc n)"
    by (simp add: nth_Cons' Suc_diff_le)
  have head: "dict_get (snd (collect_reading acc (n, r))) i =
      (if i = n then (case validate_reading r of Inl e \<Rightarrow> Some (rejected n e) | Inr dec \<Rightarrow> dict_get (snd acc) i)
       else dict_get (snd acc) i)"
    by (simp add: collect_reading_def dict_get_set split: sum.split)
  show ?case
  proof (cases "i = n")
    case True
    then show ?thesis using Cons.IH [of "collect_reading acc (n, r)" "Suc n"] head by (simp split: sum.split)
  next
    case False
    then show ?thesis using Cons.IH [of "collect_reading acc (n, r)" "Suc n"] head tail by (auto split: sum.split)
  qed
qed

lemma valid_from_nth:
  assumes "r \<in> set (valid_from n rs)"
  shows "n \<le> vr_index r \<and> vr_index r < n + length rs \<and> vr_reception r = rs ! (vr_index r - n) \<and>
    validate_reading (vr_reception r) = Inr (vr_decoded r)"
  using assms
proof (induction rs arbitrary: n)
  case Nil
  then show ?case by simp
next
  case (Cons x xs)
  show ?case
  proof (cases "r \<in> set (valid_from (Suc n) xs)")
    case True
    from Cons.IH [OF this] show ?thesis by (auto simp: nth_Cons' Suc_diff_le)
  next
    case False
    with Cons.prems show ?thesis by (auto split: sum.splits)
  qed
qed

lemma valid_from_complete:
  "n \<le> i \<Longrightarrow> i < n + length rs \<Longrightarrow> validate_reading (rs ! (i - n)) = Inr dec \<Longrightarrow>
     \<lparr> vr_index = i, vr_decoded = dec, vr_reception = rs ! (i - n) \<rparr> \<in> set (valid_from n rs)"
proof (induction rs arbitrary: n)
  case Nil
  then show ?case by simp
next
  case (Cons x xs)
  show ?case
  proof (cases "i = n")
    case True
    with Cons.prems show ?thesis by simp
  next
    case False
    with Cons.prems have "xs ! (i - Suc n) = (x # xs) ! (i - n)" by (simp add: nth_Cons' Suc_diff_le)
    then have "\<lparr> vr_index = i, vr_decoded = dec, vr_reception = (x # xs) ! (i - n) \<rparr> \<in> set (valid_from (Suc n) xs)"
      using Cons.IH [of "Suc n"] Cons.prems False by simp
    then show ?thesis by (simp split: sum.split)
  qed
qed

lemma distinct_valid_indices: "distinct (map vr_index (valid_from n rs))"
proof (induction rs arbitrary: n)
  case Nil
  then show ?case by simp
next
  case (Cons r rs)
  have "n \<notin> vr_index ` set (valid_from (Suc n) rs)" using valid_from_nth by fastforce
  with Cons show ?case by (auto split: sum.split)
qed

section \<open>Assembling the results\<close>

lemma index_dict:
  "distinct (map key xs) \<Longrightarrow> dict_get (foldl (\<lambda>m r. dict_set (key r) r m) m0 xs) k =
     (case find (\<lambda>r. key r = k) xs of Some r \<Rightarrow> Some r | None \<Rightarrow> dict_get m0 k)"
proof (induction xs arbitrary: m0)
  case Nil
  then show ?case by simp
next
  case (Cons x xs)
  show ?case
  proof (cases "key x = k")
    case True
    with Cons.prems have "find (\<lambda>r. key r = k) xs = None"
      by (simp add: find_None_iff) (metis imageI)
    with True Cons show ?thesis by (simp add: dict_get_set)
  next
    case False
    with Cons show ?thesis by (auto simp: dict_get_set split: option.split)
  qed
qed

lemma for_each_results:
  "for_each f xs d = (Inr ys, d') \<Longrightarrow> list_all2 (\<lambda>x y. \<exists>d1 d2. f x d1 = (Inr y, d2)) xs ys"
  by (induction xs arbitrary: ys d) (auto simp: action_simps)

lemma persist_reading_Inr:
  assumes "persist_reading dp gid g srv x d = (Inr y, d')"
  shows "ps_index y = vr_index x \<and> ps_nodeId y = t3_nodeId (vr_decoded x)"
  using assms by (auto simp: persist_reading_def action_simps)

lemma persistBatch_results:
  assumes "persistBatch dp g xs srv d = (Inr ys, d')"
  shows "list_all2 (\<lambda>x y. ps_index y = vr_index x \<and> ps_nodeId y = t3_nodeId (vr_decoded x)) xs ys"
proof (cases "xs = []")
  case True
  with assms show ?thesis by (simp add: persistBatch_def action_simps)
next
  case False
  with assms obtain gid d1 where "for_each (persist_reading dp gid g srv) xs d1 = (Inr ys, d')"
    by (auto simp: persistBatch_def action_simps)
  from for_each_results [OF this] show ?thesis
    by (rule list_all2_mono) (auto dest: persist_reading_Inr)
qed

lemma record_persisted_Inr:
  assumes "list_all2 (\<lambda>x y. ps_index y = vr_index x) xs ys" and "distinct (map vr_index xs)"
    and "\<And>x. x \<in> set xs \<Longrightarrow> dict_get byIndex (vr_index x) = Some x"
  shows "\<exists>res. record_persisted byIndex ys res0 = Inr res \<and>
    (\<forall>j<length xs. dict_get res (vr_index (xs ! j)) = Some (accepted (xs ! j) (ys ! j))) \<and>
    (\<forall>i. i \<notin> vr_index ` set xs \<longrightarrow> dict_get res i = dict_get res0 i)"
  using assms
proof (induction arbitrary: res0 rule: list_all2_induct)
  case Nil
  then show ?case by simp
next
  case (Cons x xs y ys)
  obtain res where res: "record_persisted byIndex ys (dict_set (vr_index x) (accepted x y) res0) = Inr res"
    "\<forall>j<length xs. dict_get res (vr_index (xs ! j)) = Some (accepted (xs ! j) (ys ! j))"
    "\<forall>i. i \<notin> vr_index ` set xs \<longrightarrow> dict_get res i = dict_get (dict_set (vr_index x) (accepted x y) res0) i"
    using Cons.IH [of "dict_set (vr_index x) (accepted x y) res0"] Cons.prems by auto
  have "vr_index x \<notin> vr_index ` set xs" using Cons.prems(1) by simp
  with res Cons.hyps(1) Cons.prems(2) [of x] show ?case
    by (auto simp: dict_get_set nth_Cons' less_Suc_eq_0_disj)
qed

lemma ingest_unfold:
  assumes "\<not> maximumBatchSize < length (rq_readings request)"
    and "gateway = (rq_gateway request)\<lparr>gd_hardwareMac := to_upper (gd_hardwareMac (rq_gateway request))\<rparr>"
    and "persistBatch dp gateway (valid_from 0 (rq_readings request)) srv d = (Inr ps, d1)"
  shows "\<exists>rs. ingest dp maximumBatchSize clock now srv request d =
      (Inr \<lparr> ib_receivedAt = srv, ib_results = rs \<rparr>, recompute_nodes clock now (insertedNodeIds ps) d1) \<and>
    length rs = length (rq_readings request) \<and>
    (\<forall>i<length rs. case validate_reading (rq_readings request ! i) of
        Inl e \<Rightarrow> rs ! i = rejected i e
      | Inr dec \<Rightarrow> \<exists>j<length ps. valid_from 0 (rq_readings request) ! j =
            \<lparr> vr_index = i, vr_decoded = dec, vr_reception = rq_readings request ! i \<rparr> \<and>
          rs ! i = accepted (valid_from 0 (rq_readings request) ! j) (ps ! j))"
proof -
  let ?rd = "rq_readings request"
  let ?valid = "valid_from 0 ?rd"
  define rej where "rej = snd (foldl collect_reading ([], []) (enumerate 0 ?rd))"
  let ?by = "foldl (\<lambda>m r. dict_set (vr_index r) r m) [] ?valid"
  have collected: "foldl collect_reading ([], []) (enumerate 0 ?rd) = (?valid, rej)"
    by (simp add: prod_eq_iff collect_valid rej_def)
  have pair: "list_all2 (\<lambda>x y. ps_index y = vr_index x) ?valid ps"
    using persistBatch_results [OF assms(3)] by (rule list_all2_mono) simp
  have lookup: "dict_get ?by (vr_index x) = Some x" if "x \<in> set ?valid" for x
  proof -
    have "find (\<lambda>r. vr_index r = vr_index x) ?valid = Some x"
      using that distinct_valid_indices [of 0 ?rd]
      by (auto simp: find_Some_iff in_set_conv_nth distinct_conv_nth)
    then show ?thesis by (simp add: index_dict distinct_valid_indices)
  qed
  obtain res where res: "record_persisted ?by ps rej = Inr res"
    "\<forall>j<length ?valid. dict_get res (vr_index (?valid ! j)) = Some (accepted (?valid ! j) (ps ! j))"
    "\<forall>i. i \<notin> vr_index ` set ?valid \<longrightarrow> dict_get res i = dict_get rej i"
    using record_persisted_Inr [OF pair distinct_valid_indices lookup, of rej] by auto
  have len: "length ps = length ?valid" using pair by (simp add: list_all2_lengthD)
  define P where "P i r \<longleftrightarrow> (case validate_reading (?rd ! i) of
        Inl e \<Rightarrow> r = rejected i e
      | Inr dec \<Rightarrow> \<exists>j<length ps. ?valid ! j = \<lparr> vr_index = i, vr_decoded = dec, vr_reception = ?rd ! i \<rparr> \<and>
          r = accepted (?valid ! j) (ps ! j))" for i r
  have got: "\<exists>r. dict_get res i = Some r \<and> P i r" if i: "i < length ?rd" for i
  proof (cases "validate_reading (?rd ! i)")
    case (Inl e)
    have "i \<notin> vr_index ` set ?valid" using Inl valid_from_nth by fastforce
    with res(3) Inl i show ?thesis by (simp add: collect_rejected P_def rej_def)
  next
    case (Inr dec)
    then have "\<lparr> vr_index = i, vr_decoded = dec, vr_reception = ?rd ! i \<rparr> \<in> set ?valid"
      using valid_from_complete [of 0 i ?rd dec] i by simp
    then obtain j where "j < length ?valid" "?valid ! j = \<lparr> vr_index = i, vr_decoded = dec, vr_reception = ?rd ! i \<rparr>"
      by (auto simp: in_set_conv_nth)
    with res(2) len Inr show ?thesis by (force simp: P_def)
  qed
  define rs where "rs = map (\<lambda>i. the (dict_get res i)) [0..<length ?rd]"
  have "traverse (\<lambda>index. case dict_get res index of None \<Rightarrow> Inl RESULT_MISSING | Some r \<Rightarrow> Inr r)
      [0..<length ?rd] = Inr rs"
    unfolding traverse_Inr rs_def using got by (fastforce simp: list_all2_conv_all_nth)
  with assms res(1) collected have "ingest dp maximumBatchSize clock now srv request d =
      (Inr \<lparr> ib_receivedAt = srv, ib_results = rs \<rparr>, recompute_nodes clock now (insertedNodeIds ps) d1)"
    by (simp add: ingest_def Let_def)
  moreover have "\<forall>i<length rs. P i (rs ! i)" using got by (fastforce simp: rs_def)
  ultimately show ?thesis unfolding P_def by (intro exI [of _ rs]) (simp add: rs_def)
qed

section \<open>What a batch stores\<close>

definition reading_identity :: "validated_reading \<Rightarrow> string \<times> int \<times> int" where
  "reading_identity x =
     (t3_nodeId (vr_decoded x), t3_persistentSessionId (vr_decoded x), t3_sequence (vr_decoded x))"

definition identities :: "db \<Rightarrow> (string \<times> int \<times> int) list" where
  "identities d = map row_identity (db_telemetry d)"

lemma identity_insert_row [simp]:
  "row_identity (telemetry_insert_row dp i gid g srv x) = reading_identity x"
  by (simp add: row_identity_def telemetry_insert_row_def reading_identity_def Let_def)

lemma persist_reading_stores:
  assumes "persist_reading dp gid g srv x d = (Inr y, d')"
  shows "identities d' = js_set_add (identities d) (reading_identity x)"
    and "ps_inserted y \<longleftrightarrow> reading_identity x \<notin> set (identities d)"
    and "\<exists>new. db_telemetry d' = db_telemetry d @ new \<and> (\<forall>r\<in>set new. telemetry_row_ok r)"
    and "db_deployments d' = db_deployments d \<and> db_states d' = db_states d"
proof -
  let ?mk = "\<lambda>rowId. telemetry_insert_row dp rowId gid g srv x"
  obtain d1 ins d2 where n: "upsertNode (t3_nodeId (vr_decoded x)) gid srv d = (Inr (), d1)"
    and i: "insert_telemetry ?mk d1 = (Inr ins, d2)" and d': "d' = d2" and y: "ps_inserted y \<longleftrightarrow> ins \<noteq> None"
    using assms by (auto simp: persist_reading_def action_simps split: option.splits)
  have d1: "db_telemetry d1 = db_telemetry d" "db_deployments d1 = db_deployments d" "db_states d1 = db_states d"
    using n by (auto simp: upsertNode_def Let_def)
  show "identities d' = js_set_add (identities d) (reading_identity x)"
    "ps_inserted y \<longleftrightarrow> reading_identity x \<notin> set (identities d)"
    "\<exists>new. db_telemetry d' = db_telemetry d @ new \<and> (\<forall>r\<in>set new. telemetry_row_ok r)"
    "db_deployments d' = db_deployments d \<and> db_states d' = db_states d"
    using i d1 y unfolding d'
    by (auto simp: insert_telemetry_def Let_def identities_def simp del: set_map image_set split: if_splits)
qed

lemma persist_loop_stores:
  assumes "for_each (persist_reading dp gid g srv) xs d = (Inr ys, d')"
  shows "identities d' = foldl js_set_add (identities d) (map reading_identity xs) \<and>
    (\<forall>j<length xs. ps_inserted (ys ! j) \<longleftrightarrow>
       reading_identity (xs ! j) \<notin> set (identities d) \<union> reading_identity ` set (take j xs)) \<and>
    (\<exists>new. db_telemetry d' = db_telemetry d @ new \<and> (\<forall>r\<in>set new. telemetry_row_ok r)) \<and>
    db_deployments d' = db_deployments d \<and> db_states d' = db_states d"
  using assms
proof (induction xs arbitrary: d ys)
  case Nil
  then show ?case by (simp add: action_simps)
next
  case (Cons x xs)
  from Cons.prems obtain y d1 zs where y: "persist_reading dp gid g srv x d = (Inr y, d1)"
    and zs: "for_each (persist_reading dp gid g srv) xs d1 = (Inr zs, d')" and ys: "ys = y # zs"
    by (auto simp: action_simps)
  note step = persist_reading_stores [OF y] and rest = Cons.IH [OF zs]
  have ids: "set (identities d1) = insert (reading_identity x) (set (identities d))"
    using step(1) by (auto split: if_splits)
  have flags: "\<forall>j<length (x # xs). ps_inserted (ys ! j) \<longleftrightarrow> reading_identity ((x # xs) ! j) \<notin>
      set (identities d) \<union> reading_identity ` set (take j (x # xs))"
    using step(2) rest ids by (auto simp: ys nth_Cons' take_Cons' less_Suc_eq_0_disj)
  have "\<exists>new. db_telemetry d' = db_telemetry d @ new \<and> (\<forall>r\<in>set new. telemetry_row_ok r)"
  proof -
    obtain n1 n2 where "db_telemetry d1 = db_telemetry d @ n1" "\<forall>r\<in>set n1. telemetry_row_ok r"
      "db_telemetry d' = db_telemetry d1 @ n2" "\<forall>r\<in>set n2. telemetry_row_ok r"
      using step(3) rest by auto
    then show ?thesis by (intro exI [of _ "n1 @ n2"]) auto
  qed
  with flags step(1,4) rest show ?case by simp
qed

lemma persistBatch_stores:
  assumes "persistBatch dp g xs srv d = (Inr ys, d')"
  shows "identities d' = foldl js_set_add (identities d) (map reading_identity xs) \<and>
    (\<forall>j<length xs. ps_inserted (ys ! j) \<longleftrightarrow>
       reading_identity (xs ! j) \<notin> set (identities d) \<union> reading_identity ` set (take j xs)) \<and>
    (\<exists>new. db_telemetry d' = db_telemetry d @ new \<and> (\<forall>r\<in>set new. telemetry_row_ok r)) \<and>
    db_deployments d' = db_deployments d \<and> db_states d' = db_states d"
proof (cases "xs = []")
  case True
  with assms show ?thesis by (simp add: persistBatch_def action_simps)
next
  case False
  with assms obtain gid d1 where g: "upsertGateway g srv d = (Inr gid, d1)"
    and loop: "for_each (persist_reading dp gid g srv) xs d1 = (Inr ys, d')"
    by (auto simp: persistBatch_def action_simps)
  have "db_telemetry d1 = db_telemetry d" "db_deployments d1 = db_deployments d" "db_states d1 = db_states d"
    using g by (auto simp: upsertGateway_def Let_def split: if_splits)
  with persist_loop_stores [OF loop] show ?thesis by (simp add: identities_def)
qed

lemma recompute_telemetry: "db_telemetry (snd (recomputeNode clock now n d)) = db_telemetry d"
proof -
  obtain r d' where run: "recomputeNode clock now n d = (r, d')" by fastforce
  have "db_telemetry d' = db_telemetry d"
  proof (cases r)
    case (Inl e)
    with run show ?thesis by (auto dest: recompute_Inl simp: same_tables_def)
  next
    case (Inr x)
    with run show ?thesis
      by (auto simp: recompute_Inr elim: derive_and_store_Inr split: option.splits)
  qed
  with run show ?thesis by simp
qed

lemma recompute_nodes_telemetry [simp]: "db_telemetry (recompute_nodes clock now ns d) = db_telemetry d"
  unfolding recompute_nodes_def
  by (induction ns arbitrary: d) (simp_all add: recompute_telemetry)

lemma recompute_nodes_identities [simp]: "identities (recompute_nodes clock now ns d) = identities d"
  by (simp add: identities_def)

text \<open>A successful ingestion went through persistence.\<close>

lemma ingest_Inr:
  assumes "ingest dp maximumBatchSize clock now srv request d = (Inr resp, d')"
  obtains gateway ps d1 where
    "gateway = (rq_gateway request)\<lparr>gd_hardwareMac := to_upper (gd_hardwareMac (rq_gateway request))\<rparr>"
    "persistBatch dp gateway (valid_from 0 (rq_readings request)) srv d = (Inr ps, d1)"
    "d' = recompute_nodes clock now (insertedNodeIds ps) d1"
    "\<not> maximumBatchSize < length (rq_readings request)"
proof -
  let ?g = "(rq_gateway request)\<lparr>gd_hardwareMac := to_upper (gd_hardwareMac (rq_gateway request))\<rparr>"
  have small: "\<not> maximumBatchSize < length (rq_readings request)"
    using assms by (auto simp: ingest_def)
  obtain r d1 where p: "persistBatch dp ?g (valid_from 0 (rq_readings request)) srv d = (r, d1)" by fastforce
  have v: "fst (foldl collect_reading ([], []) (enumerate 0 (rq_readings request))) =
      valid_from 0 (rq_readings request)" by (simp add: collect_valid)
  show thesis
  proof (cases r)
    case (Inl e)
    with assms small p v show thesis by (auto simp: ingest_def Let_def split: prod.splits)
  next
    case (Inr ps)
    with ingest_unfold [OF small refl, of dp srv d ps d1 clock now] p assms small that show thesis by auto
  qed
qed

lemma ingest_Inl:
  assumes "ingest dp maximumBatchSize clock now srv request d = (Inl e, d')"
  shows "same_tables d d' \<and> e \<noteq> UNKNOWN_BATCH_INDEX \<and> e \<noteq> RESULT_MISSING"
proof (cases "maximumBatchSize < length (rq_readings request)")
  case True
  with assms show ?thesis by (auto simp: ingest_def same_tables_def)
next
  case small: False
  let ?g = "(rq_gateway request)\<lparr>gd_hardwareMac := to_upper (gd_hardwareMac (rq_gateway request))\<rparr>"
  obtain r d1 where p: "persistBatch dp ?g (valid_from 0 (rq_readings request)) srv d = (r, d1)" by fastforce
  have v: "fst (foldl collect_reading ([], []) (enumerate 0 (rq_readings request))) =
      valid_from 0 (rq_readings request)" by (simp add: collect_valid)
  show ?thesis
  proof (cases r)
    case (Inl e1)
    with assms small p v have "d' = d1" "e = PERSISTENCE_FAILED e1"
      by (auto simp: ingest_def Let_def split: prod.splits)
    moreover have "same_tables d d1"
      using p Inl by (auto simp: persistBatch_def action_simps dest: transaction_rollback split: if_splits)
    ultimately show ?thesis by simp
  next
    case (Inr ps)
    with ingest_unfold [OF small refl, of dp srv d ps d1 clock now] p assms show ?thesis by auto
  qed
qed

lemma ingest_result_at:
  assumes run: "ingest dp maximumBatchSize clock now srv request d = (Inr resp, d')"
    and p: "persistBatch dp ((rq_gateway request)\<lparr>gd_hardwareMac := to_upper (gd_hardwareMac (rq_gateway request))\<rparr>)
      (valid_from 0 (rq_readings request)) srv d = (Inr ps, d1)"
  shows "length (ib_results resp) = length (rq_readings request)"
    and "i < length (rq_readings request) \<Longrightarrow> validate_reading (rq_readings request ! i) = Inl e \<Longrightarrow>
      ib_results resp ! i = rejected i e"
    and "i < length (rq_readings request) \<Longrightarrow> validate_reading (rq_readings request ! i) = Inr dec \<Longrightarrow>
      \<exists>j<length ps. valid_from 0 (rq_readings request) ! j =
            \<lparr> vr_index = i, vr_decoded = dec, vr_reception = rq_readings request ! i \<rparr> \<and>
          ib_results resp ! i = accepted (valid_from 0 (rq_readings request) ! j) (ps ! j)"
proof -
  have small: "\<not> maximumBatchSize < length (rq_readings request)" using ingest_Inr [OF run] by metis
  obtain rs where rs0: "ingest dp maximumBatchSize clock now srv request d =
      (Inr \<lparr> ib_receivedAt = srv, ib_results = rs \<rparr>, recompute_nodes clock now (insertedNodeIds ps) d1)"
    and rs2: "length rs = length (rq_readings request)"
    and rs3: "\<forall>i<length rs. case validate_reading (rq_readings request ! i) of
        Inl e \<Rightarrow> rs ! i = rejected i e
      | Inr dec \<Rightarrow> \<exists>j<length ps. valid_from 0 (rq_readings request) ! j =
            \<lparr> vr_index = i, vr_decoded = dec, vr_reception = rq_readings request ! i \<rparr> \<and>
          rs ! i = accepted (valid_from 0 (rq_readings request) ! j) (ps ! j)"
    using ingest_unfold [OF small refl p, of clock now] by (elim exE conjE)
  have rs1: "ib_results resp = rs" using rs0 run by simp
  show "length (ib_results resp) = length (rq_readings request)" using rs1 rs2 by simp
  show "i < length (rq_readings request) \<Longrightarrow> validate_reading (rq_readings request ! i) = Inl e \<Longrightarrow>
      ib_results resp ! i = rejected i e"
    using rs3 [rule_format, of i] by (simp add: rs1 rs2)
  show "i < length (rq_readings request) \<Longrightarrow> validate_reading (rq_readings request ! i) = Inr dec \<Longrightarrow>
      \<exists>j<length ps. valid_from 0 (rq_readings request) ! j =
            \<lparr> vr_index = i, vr_decoded = dec, vr_reception = rq_readings request ! i \<rparr> \<and>
          ib_results resp ! i = accepted (valid_from 0 (rq_readings request) ! j) (ps ! j)"
    using rs3 [rule_format, of i] by (simp add: rs1 rs2)
qed

section \<open>Persistence of well-formed readings succeeds\<close>

text \<open>What the request's validation pipe and the date parser guarantee of a reading.\<close>

definition reading_dto_ok :: "(string \<Rightarrow> js_date) \<Rightarrow> reception \<Rightarrow> bool" where
  "reading_dto_ok dateParse r \<longleftrightarrow> 0 \<le> rc_gatewayUptimeMs r \<and> is_u32 (rc_gatewayBootSessionId r) \<and>
     (case rc_gatewayReceivedAt r of None \<Rightarrow> True | Some s \<Rightarrow> valid_date (dateParse s))"

lemma decoded_base64_wf: "decodeNodeTelemetryV3Base64 s = Inr t \<Longrightarrow> wf_telemetry t"
  by (auto simp: decodeNodeTelemetryV3Base64_def decode_telemetry_iff split: if_splits option.splits)

lemma validated_reading_wf:
  assumes "validate_reading r = Inr t"
  shows "wf_telemetry t" "rc_packetLength r = int (length (t3_rawPayload t))"
    "rc_gatewayTimeTrusted r \<longleftrightarrow> rc_gatewayReceivedAt r \<noteq> None"
  using assms by (auto simp: validate_reading_def res_bind_Inr decoded_base64_wf split: if_splits)

lemma encoded_length:
  "wf_telemetry t \<Longrightarrow> 1 \<le> length (t3_rawPayload t) \<and> length (t3_rawPayload t) \<le> 96"
proof -
  assume wf: "wf_telemetry t"
  then have raw: "t3_rawPayload t = encode_telemetry t" by (simp add: wf_telemetry_def)
  with wf have "decodeNodeTelemetryV3 (t3_rawPayload t) = Inr t" by (simp add: decode_telemetry_iff)
  then have "\<not> 96 < length (t3_rawPayload t)"
    by (auto simp: decodeNodeTelemetryV3_def NODE_MAX_RADIO_PACKET_BYTES_def split: if_splits)
  moreover have "t3_rawPayload t \<noteq> []" by (simp add: raw encode_telemetry_def telemetry_header_def)
  ultimately show ?thesis by (cases "t3_rawPayload t") auto
qed

lemma opt_range:
  "opt_u32 4294967295 v \<Longrightarrow> in_range_opt 0 4294967294 v" "opt_u32 0 v \<Longrightarrow> in_range_opt 1 4294967295 v"
  by (cases v; auto simp: is_u32_def in_range_opt_def)+

lemma insert_row_ok:
  assumes v: "validate_reading (vr_reception x) = Inr (vr_decoded x)"
    and dto: "reading_dto_ok dp (vr_reception x)" and srv: "valid_date srv"
  shows "telemetry_row_ok (telemetry_insert_row dp i gid g srv x)"
proof -
  note wf = validated_reading_wf [OF v]
  have gateway: "case (if rc_gatewayTimeTrusted (vr_reception x)
      then Some (dp (the (rc_gatewayReceivedAt (vr_reception x)))) else None) of
      None \<Rightarrow> True | Some g \<Rightarrow> valid_date g"
    using dto wf(3) by (auto simp: reading_dto_ok_def)
  have opts: "in_range_opt 0 4294967294 (t3_rawDistanceMm (vr_decoded x))"
    "in_range_opt 0 4294967294 (t3_acceptedDistanceMm (vr_decoded x))"
    "in_range_opt 1 4294967295 (t3_referenceDistanceMm (vr_decoded x))"
    "in_range_opt (- 32767) 32767 (t3_temperatureCentiC (vr_decoded x))"
    "in_range_opt 0 65534 (t3_humidityCentiPercent (vr_decoded x))"
    using wf(1) opt_range unfolding wf_telemetry_def UINT32_MAX_def
    by (auto simp: in_range_opt_def split: option.splits)
  show ?thesis
    using wf(1) opts gateway dto srv wf(2,3) encoded_length [OF wf(1)]
    unfolding telemetry_row_ok_def telemetry_insert_row_def Let_def telemetry_row.select_convs
    by (simp add: wf_telemetry_def reading_dto_ok_def NODE_PROTOCOL_V3_def)
qed

lemma persist_reading_total:
  assumes "validate_reading (vr_reception x) = Inr (vr_decoded x)" and "reading_dto_ok dp (vr_reception x)"
    and "valid_date srv" and "0 \<le> db_telemetrySeq d" "db_telemetrySeq d \<le> max_safe_integer"
  shows "\<exists>y d'. persist_reading dp gid g srv x d = (Inr y, d') \<and> db_telemetrySeq d' = db_telemetrySeq d + 1"
proof -
  have ok: "telemetry_row_ok (telemetry_insert_row dp i gid g srv x)" for i
    using insert_row_ok [OF assms(1-3)] .
  have "tr_id (telemetry_insert_row dp i gid g srv x) = i" for i
    by (simp add: telemetry_insert_row_def Let_def)
  with ok assms(4,5) show ?thesis
    by (auto simp: persist_reading_def db_bind_def upsertNode_def insert_telemetry_def Let_def
        db_return_def db_lift_def safeTelemetryId_def)
qed

lemma persist_loop_total:
  assumes "\<And>x. x \<in> set xs \<Longrightarrow> validate_reading (vr_reception x) = Inr (vr_decoded x) \<and>
      reading_dto_ok dp (vr_reception x)"
    and "valid_date srv" and "0 \<le> db_telemetrySeq d"
    and "db_telemetrySeq d + int (length xs) \<le> max_safe_integer"
  shows "\<exists>ys d'. for_each (persist_reading dp gid g srv) xs d = (Inr ys, d')"
  using assms
proof (induction xs arbitrary: d)
  case Nil
  then show ?case by (simp add: db_return_def)
next
  case (Cons x xs)
  obtain y d1 where y: "persist_reading dp gid g srv x d = (Inr y, d1)" "db_telemetrySeq d1 = db_telemetrySeq d + 1"
    using persist_reading_total [of x dp srv d gid g] Cons.prems by auto
  then obtain ys d' where "for_each (persist_reading dp gid g srv) xs d1 = (Inr ys, d')"
    using Cons.IH [of d1] Cons.prems by auto
  with y show ?case by (simp add: db_bind_def db_return_def)
qed

lemma to_upper_idem [simp]: "to_upper (to_upper s) = to_upper s"
proof -
  have "code_of (char_of k) = k" if "0 \<le> k" "k < 256" for k :: int
    using that by (simp add: code_of_def)
  then have "ascii_upper (ascii_upper c) = ascii_upper c" for c
    by (simp add: ascii_upper_def is_lower_def in_range_def)
  then show ?thesis by (simp add: to_upper_def)
qed

lemma persistBatch_total:
  assumes "\<And>x. x \<in> set xs \<Longrightarrow> validate_reading (vr_reception x) = Inr (vr_decoded x) \<and>
      reading_dto_ok dp (vr_reception x)"
    and "valid_date srv" and "0 \<le> db_telemetrySeq d"
    and "db_telemetrySeq d + int (length xs) \<le> max_safe_integer"
    and "logical_id_free (db_gateways d) (to_upper (gd_hardwareMac g)) (gd_gatewayId g)"
  shows "\<exists>ys d'. persistBatch dp g xs srv d = (Inr ys, d')"
proof (cases "xs = []")
  case True
  then show ?thesis by (simp add: persistBatch_def db_return_def)
next
  case False
  obtain gid d1 where g: "upsertGateway g srv d = (Inr gid, d1)" "db_telemetrySeq d1 = db_telemetrySeq d"
    using assms(2,5) by (simp add: upsertGateway_def Let_def)
  then obtain ys d' where "for_each (persist_reading dp gid g srv) xs d1 = (Inr ys, d')"
    using persist_loop_total [OF assms(1,2), of xs d1 gid g] assms(3,4) by auto
  with False g show ?thesis by (simp add: persistBatch_def transaction_def db_bind_def)
qed

lemma length_valid_from: "length (valid_from n rs) \<le> length rs"
  by (induction rs arbitrary: n) (auto split: sum.split intro: le_SucI)

lemma recompute_nodes_current: "states_current d \<Longrightarrow> states_current (recompute_nodes clock now ns d)"
  unfolding recompute_nodes_def
  by (induction ns arbitrary: d) (simp_all add: recompute_keeps_current)

definition sample_packet :: "byte list" where
  "sample_packet = [0x47, 0x54, 3, 1, 2, 0x6e, 0x31,
     0, 0, 0, 1, 0, 0, 0, 5, 0, 0, 0, 100, 0, 0, 2, 0xee, 0, 0, 2, 0xee, 0, 1,
     0x80, 0, 0xff, 0xff, 0x0e, 0x74, 5, 5, 0, 0, 4, 0, 0, 0, 1, 0, 0, 0, 0, 10,
     0, 0, 0, 0, 0, 0, 0, 0, 0, 0, 0, 0, 0, 3, 0xe8]"

definition sample_reading :: reception where
  "sample_reading = \<lparr> rc_gatewayReceivedAt = None, rc_gatewayTimeTrusted = False, rc_gatewayUptimeMs = 10,
     rc_gatewayBootSessionId = 1, rc_rssiDbm = Fin (- 80), rc_snrDb = Fin 7, rc_frequencyErrorHz = 0,
     rc_packetLength = 64, rc_rawPayloadBase64 = b64_encode sample_packet \<rparr>"

lemma sample_reading_valid:
  "case validate_reading sample_reading of Inr t \<Rightarrow>
     t3_nodeId t = ''n1'' \<and> t3_sequence t = 5 \<and> t3_acceptedDistanceMm t = Some 750 | Inl e \<Rightarrow> False"
  by code_simp

definition sample_request :: ingest_request where
  "sample_request = \<lparr>
     rq_gateway = \<lparr> gd_gatewayId = ''gw-1'', gd_hardwareMac = ''aa:bb:cc:dd:ee:ff'',
       gd_firmwareVersion = ''1.0'', gd_bootSessionId = 1 \<rparr>,
     rq_readings = [sample_reading, sample_reading\<lparr>rc_packetLength := 63\<rparr>, sample_reading] \<rparr>"

lemma sample_ingest:
  "\<exists>resp d'. ingest (\<lambda>_. InvalidDate) 50 (Date 1) (Date 2) (Date 3) sample_request sample_db = (Inr resp, d')"
proof -
  let ?g = "(rq_gateway sample_request)\<lparr>gd_hardwareMac := to_upper (gd_hardwareMac (rq_gateway sample_request))\<rparr>"
  have dto: "reading_dto_ok (\<lambda>_. InvalidDate) r" if "r \<in> set (rq_readings sample_request)" for r
    using that by (auto simp: sample_request_def sample_reading_def reading_dto_ok_def is_u32_def)
  have good: "validate_reading (vr_reception x) = Inr (vr_decoded x) \<and>
      reading_dto_ok (\<lambda>_. InvalidDate) (vr_reception x)"
    if "x \<in> set (valid_from 0 (rq_readings sample_request))" for x
    using valid_from_nth [OF that] dto by (auto simp: nth_mem)
  have len: "length (rq_readings sample_request) = 3" by (simp add: sample_request_def)
  have "\<exists>ps d1. persistBatch (\<lambda>_. InvalidDate) ?g (valid_from 0 (rq_readings sample_request)) (Date 3) sample_db = (Inr ps, d1)"
    using length_valid_from [of 0 "rq_readings sample_request"] len
    by (intro persistBatch_total good)
      (auto simp: sample_db_def logical_id_free_def max_safe_integer_def)
  then obtain ps d1 where "persistBatch (\<lambda>_. InvalidDate) ?g (valid_from 0 (rq_readings sample_request)) (Date 3) sample_db = (Inr ps, d1)"
    by blast
  moreover have "\<not> 50 < length (rq_readings sample_request)" using len by simp
  ultimately show ?thesis using ingest_unfold [OF _ refl] by blast
qed

definition single_request :: ingest_request where
  "single_request = sample_request\<lparr>rq_readings := [sample_reading]\<rparr>"

lemma single_twice:
  "case ingest (\<lambda>_. InvalidDate) 50 (Date 1) (Date 2) (Date 3) single_request sample_db of
     (Inr r1, d1) \<Rightarrow> (case ingest (\<lambda>_. InvalidDate) 50 (Date 4) (Date 5) (Date 6) single_request d1 of
        (Inr r2, d2) \<Rightarrow> True | _ \<Rightarrow> False)
   | _ \<Rightarrow> False"
  by code_simp

section \<open>Properties\<close>

text \<open>
  C11: A successful ingestion answers every reading once and in order: the result at a position has
  that index; it is a rejection with the decoder's error code exactly when the reading's
  timestamps, packet or length are invalid, and otherwise names the node, session and sequence
  that were decoded.
\<close>

theorem ingest_results:
  assumes "ingest dateParse maximumBatchSize clock now serverReceivedAt request d = (Inr response, d')"
  shows "length (ib_results response) = length (rq_readings request) \<and>
    (\<forall>i<length (rq_readings request). ir_index (ib_results response ! i) = i \<and>
      (case validate_reading (rq_readings request ! i) of
         Inl e \<Rightarrow> ib_results response ! i = rejected i e
       | Inr t \<Rightarrow> ir_status (ib_results response ! i) \<noteq> REJECTED_INVALID \<and>
           ir_nodeId (ib_results response ! i) = Some (t3_nodeId t) \<and>
           ir_bootSessionId (ib_results response ! i) = Some (t3_persistentSessionId t) \<and>
           ir_sequence (ib_results response ! i) = Some (t3_sequence t)))"
proof -
  obtain gateway ps d1 where p:
    "gateway = (rq_gateway request)\<lparr>gd_hardwareMac := to_upper (gd_hardwareMac (rq_gateway request))\<rparr>"
    "persistBatch dateParse ((rq_gateway request)\<lparr>gd_hardwareMac := to_upper (gd_hardwareMac (rq_gateway request))\<rparr>)
      (valid_from 0 (rq_readings request)) serverReceivedAt d = (Inr ps, d1)"
    using ingest_Inr [OF assms] by metis
  have idx: "\<forall>j<length ps. ps_index (ps ! j) = vr_index (valid_from 0 (rq_readings request) ! j)"
    using persistBatch_results [OF p(2)] by (simp add: list_all2_conv_all_nth)
  note at = ingest_result_at [OF assms p(2)]
  show ?thesis
  proof (intro conjI allI impI)
    show "length (ib_results response) = length (rq_readings request)" by (rule at(1))
    fix i
    assume i: "i < length (rq_readings request)"
    show "ir_index (ib_results response ! i) = i"
      using at(2,3) [OF i] idx
      by (cases "validate_reading (rq_readings request ! i)") (force simp: rejected_def accepted_def)+
    show "case validate_reading (rq_readings request ! i) of
         Inl e \<Rightarrow> ib_results response ! i = rejected i e
       | Inr t \<Rightarrow> ir_status (ib_results response ! i) \<noteq> REJECTED_INVALID \<and>
           ir_nodeId (ib_results response ! i) = Some (t3_nodeId t) \<and>
           ir_bootSessionId (ib_results response ! i) = Some (t3_persistentSessionId t) \<and>
           ir_sequence (ib_results response ! i) = Some (t3_sequence t)"
    proof (cases "validate_reading (rq_readings request ! i)")
      case (Inl e)
      with at(2) [OF i] show ?thesis by simp
    next
      case (Inr t)
      obtain j where "valid_from 0 (rq_readings request) ! j =
          \<lparr> vr_index = i, vr_decoded = t, vr_reception = rq_readings request ! i \<rparr>"
        "ib_results response ! i = accepted (valid_from 0 (rq_readings request) ! j) (ps ! j)"
        using at(3) [OF i Inr] by blast
      with Inr show ?thesis by (simp add: accepted_def)
    qed
  qed
qed

theorem ingest_results_witness:
  "\<exists>response d'. ingest (\<lambda>_. InvalidDate) 50 (Date 1) (Date 2) (Date 3) sample_request sample_db = (Inr response, d') \<and>
     length (ib_results response) = 3 \<and> ir_nodeId (ib_results response ! 0) = Some ''n1''"
proof -
  obtain response d' where run:
    "ingest (\<lambda>_. InvalidDate) 50 (Date 1) (Date 2) (Date 3) sample_request sample_db = (Inr response, d')"
    using sample_ingest by blast
  have "rq_readings sample_request ! 0 = sample_reading" "length (rq_readings sample_request) = 3"
    by (simp_all add: sample_request_def)
  with ingest_results [OF run] sample_reading_valid run show ?thesis
    by (force split: sum.splits)
qed

text \<open>
  C12: A reading is stored once however often it is sent. A successful ingestion appends rows and
  changes none: the identities (node, session, sequence) of the stored telemetry become the old
  ones with the batch's new ones added in order, so they stay pairwise distinct; a reading is
  reported INSERTED exactly when its identity was neither stored before nor earlier in the batch.
\<close>

theorem ingest_exactly_once:
  assumes "ingest dateParse maximumBatchSize clock now serverReceivedAt request d = (Inr response, d')"
    and "distinct (identities d)"
  shows "distinct (identities d') \<and> (\<exists>new. db_telemetry d' = db_telemetry d @ new) \<and>
    set (identities d') = set (identities d) \<union> reading_identity ` set (valid_from 0 (rq_readings request)) \<and>
    (\<forall>j<length (valid_from 0 (rq_readings request)).
      let x = valid_from 0 (rq_readings request) ! j in
      ir_status (ib_results response ! vr_index x) =
        (if reading_identity x \<in> set (identities d) \<union>
              reading_identity ` set (take j (valid_from 0 (rq_readings request)))
         then DUPLICATE else INSERTED))"
proof -
  let ?v = "valid_from 0 (rq_readings request)"
  obtain gateway ps d1 where p:
    "gateway = (rq_gateway request)\<lparr>gd_hardwareMac := to_upper (gd_hardwareMac (rq_gateway request))\<rparr>"
    "persistBatch dateParse gateway ?v serverReceivedAt d = (Inr ps, d1)"
    "d' = recompute_nodes clock now (insertedNodeIds ps) d1"
    "\<not> maximumBatchSize < length (rq_readings request)"
    using ingest_Inr [OF assms(1)] by metis
  note st = persistBatch_stores [OF p(2)]
  have ids: "identities d' = foldl js_set_add (identities d) (map reading_identity ?v)"
    using st by (simp add: p(3))
  have status: "ir_status (ib_results response ! vr_index (?v ! j)) =
      (if ps_inserted (ps ! j) then INSERTED else DUPLICATE)" if j: "j < length ?v" for j
  proof -
    have mem: "?v ! j \<in> set ?v" using j by simp
    note x = valid_from_nth [OF mem]
    obtain k where k: "k < length ps" "?v ! k = \<lparr> vr_index = vr_index (?v ! j), vr_decoded = vr_decoded (?v ! j),
        vr_reception = rq_readings request ! vr_index (?v ! j) \<rparr>"
      "ib_results response ! vr_index (?v ! j) = accepted (?v ! k) (ps ! k)"
      using ingest_unfold [OF p(4,1,2), of clock now] assms(1) x by fastforce
    have "length ps = length ?v" using persistBatch_results [OF p(2)] by (simp add: list_all2_lengthD)
    moreover have "vr_index (?v ! k) = vr_index (?v ! j)" using k(2) by simp
    ultimately have "k = j"
      using distinct_valid_indices [of 0 "rq_readings request"] j k(1)
      by (simp add: distinct_conv_nth) (metis nth_map)
    with k(3) show ?thesis by (simp add: accepted_def)
  qed
  show ?thesis
    using st ids assms(2) status
    by (auto simp: Let_def p(3) set_foldl_js_set_add distinct_foldl_js_set_add)
qed

theorem ingest_exactly_once_witness:
  "\<exists>response d'. ingest (\<lambda>_. InvalidDate) 50 (Date 1) (Date 2) (Date 3) sample_request sample_db = (Inr response, d') \<and>
     distinct (identities d')"
proof -
  obtain response d' where run:
    "ingest (\<lambda>_. InvalidDate) 50 (Date 1) (Date 2) (Date 3) sample_request sample_db = (Inr response, d')"
    using sample_ingest by blast
  have "distinct (identities sample_db)" by (simp add: identities_def sample_db_def)
  from ingest_exactly_once [OF run this] run show ?thesis by blast
qed

text \<open>
  Sending a batch again is harmless: once it has been ingested, a later successful ingestion of
  the same batch inserts nothing and leaves the stored telemetry as it is.
\<close>

theorem ingest_retry:
  assumes "ingest dateParse maximumBatchSize clock now serverReceivedAt request d = (Inr response, d1)"
    and "ingest dateParse maximumBatchSize clock2 now2 serverReceivedAt2 request d1 = (Inr response2, d2)"
    and "i < length (rq_readings request)"
  shows "ir_status (ib_results response2 ! i) \<noteq> INSERTED \<and> db_telemetry d2 = db_telemetry d1"
proof -
  let ?v = "valid_from 0 (rq_readings request)"
  let ?g = "(rq_gateway request)\<lparr>gd_hardwareMac := to_upper (gd_hardwareMac (rq_gateway request))\<rparr>"
  obtain ps d1' where p: "persistBatch dateParse ?g ?v serverReceivedAt d = (Inr ps, d1')"
    "d1 = recompute_nodes clock now (insertedNodeIds ps) d1'"
    using ingest_Inr [OF assms(1)] by metis
  obtain ps2 d2' where p2: "persistBatch dateParse ?g ?v serverReceivedAt2 d1 = (Inr ps2, d2')"
    "d2 = recompute_nodes clock2 now2 (insertedNodeIds ps2) d2'" "\<not> maximumBatchSize < length (rq_readings request)"
    using ingest_Inr [OF assms(2)] by metis
  have all: "reading_identity ` set ?v \<subseteq> set (identities d1)"
    using persistBatch_stores [OF p(1)] by (simp add: p(2) set_foldl_js_set_add)
  note st = persistBatch_stores [OF p2(1)]
  have none: "\<not> ps_inserted (ps2 ! j)" if "j < length ?v" for j
    using st all that nth_mem by blast
  have len: "length ps2 = length ?v" using persistBatch_results [OF p2(1)] by (simp add: list_all2_lengthD)
  obtain new where new: "db_telemetry d2' = db_telemetry d1 @ new" using st by auto
  have "foldl js_set_add ids xs = ids" if "set xs \<subseteq> set ids" for ids xs :: "(string \<times> int \<times> int) list"
    using that by (induction xs) auto
  then have "identities d2' = identities d1" using st all by simp
  then have "new = []" using new by (simp add: identities_def)
  moreover have "ir_status (ib_results response2 ! i) \<noteq> INSERTED"
    using ingest_result_at(2,3) [OF assms(2) p2(1) assms(3)] none len
    by (cases "validate_reading (rq_readings request ! i)") (force simp: rejected_def accepted_def)+
  ultimately show ?thesis using new p2(2) by simp
qed

theorem ingest_retry_witness:
  "\<exists>response2 d1 d2. ingest (\<lambda>_. InvalidDate) 50 (Date 4) (Date 5) (Date 6) single_request d1 = (Inr response2, d2) \<and>
     ir_status (ib_results response2 ! 0) \<noteq> INSERTED \<and> db_telemetry d2 = db_telemetry d1"
proof -
  obtain r1 d1 r2 d2 where run1: "ingest (\<lambda>_. InvalidDate) 50 (Date 1) (Date 2) (Date 3) single_request sample_db = (Inr r1, d1)"
    and run2: "ingest (\<lambda>_. InvalidDate) 50 (Date 4) (Date 5) (Date 6) single_request d1 = (Inr r2, d2)"
    using single_twice by (auto split: prod.splits sum.splits)
  have "0 < length (rq_readings single_request)" by (simp add: single_request_def)
  from ingest_retry [OF run1 run2 this] run2 show ?thesis by blast
qed

text \<open>
  Ingestion is all or nothing: an oversized batch is refused before anything is read, a failed
  transaction leaves every table as it was, and the two internal consistency errors the code
  guards against cannot occur.
\<close>

theorem ingest_failure:
  assumes "ingest dateParse maximumBatchSize clock now serverReceivedAt request d = (Inl e, d')"
  shows "same_tables d d' \<and> e \<noteq> UNKNOWN_BATCH_INDEX \<and> e \<noteq> RESULT_MISSING"
  using assms by (rule ingest_Inl)

theorem ingest_failure_witness:
  "ingest (\<lambda>_. InvalidDate) 2 (Date 1) (Date 2) (Date 3) sample_request sample_db =
     (Inl (BATCH_TOO_LARGE 2), sample_db) \<and> same_tables sample_db sample_db"
proof -
  have run: "ingest (\<lambda>_. InvalidDate) 2 (Date 1) (Date 2) (Date 3) sample_request sample_db =
     (Inl (BATCH_TOO_LARGE 2), sample_db)"
    by (simp add: ingest_def sample_request_def)
  with ingest_failure [OF run] show ?thesis by simp
qed



end
