(* ===== verification/Js_Format.thy ===== *)
theory Js_Format
  imports Js_Number Js_String
begin

text \<open>
  Numbers as text: \<open>String(x)\<close>, the shortest decimal that reads back as the number, and
  \<open>x.toFixed(digits)\<close>, following the algorithms of ECMAScript. The lemmas show that decimal
  numerals are injective and which characters the texts are made of, so that texts joined with
  separators can be taken apart again.
\<close>

section \<open>Definitions\<close>

definition zeros :: "nat \<Rightarrow> string" where "zeros n = replicate n (CHR ''0'')"

text \<open>The exponent \<open>e\<close> with \<open>10 ^ (e - 1) \<le> q < 10 ^ e\<close>, for a positive \<open>q\<close>.\<close>

definition decimal_exponent :: "rat \<Rightarrow> int" where
  "decimal_exponent q =
     (if 1 \<le> q then int (length (show_nat (nat (floor q))))
      else 1 - int (length (show_nat (nat (ceiling (1 / q) - 1)))))"

definition pow10 :: "int \<Rightarrow> rat" where
  "pow10 k = (if 0 \<le> k then 10 ^ nat k else 1 / 10 ^ nat (- k))"

text \<open>The integer of \<open>k\<close> decimal digits that, scaled, is closest to \<open>q\<close>, and whether it reads back as \<open>q\<close>.\<close>

definition digits_candidate :: "rat \<Rightarrow> nat \<Rightarrow> int" where
  "digits_candidate q k = round_even (q * pow10 (int k - decimal_exponent q))"

definition reads_back :: "rat \<Rightarrow> nat \<Rightarrow> bool" where
  "reads_back q k = (mk_num (of_int (digits_candidate q k) * pow10 (decimal_exponent q - int k)) = Fin q)"

definition shortest_digits :: "rat \<Rightarrow> nat" where
  "shortest_digits q = (case find (reads_back q) [1..<18] of None \<Rightarrow> 17 | Some k \<Rightarrow> k)"

definition strip_zeros :: "string \<Rightarrow> string" where
  "strip_zeros s = rev (dropWhile (\<lambda>c. c = CHR ''0'') (rev s))"

definition positive_text :: "rat \<Rightarrow> string" where
  "positive_text q =
     (let k0 = shortest_digits q;
          text = show_nat (nat (digits_candidate q k0));
          n = decimal_exponent q + int (length text) - int k0;
          digits = strip_zeros text;
          k = int (length digits) in
      if k \<le> n \<and> n \<le> 21 then digits @ zeros (nat (n - k))
      else if 0 < n \<and> n \<le> 21 then take (nat n) digits @ ''.'' @ drop (nat n) digits
      else if - 6 < n \<and> n \<le> 0 then ''0.'' @ zeros (nat (- n)) @ digits
      else take 1 digits @ (if k = 1 then [] else ''.'' @ drop 1 digits) @ ''e''
        @ (if 0 < n then ''+'' else ''-'') @ show_nat (nat \<bar>n - 1\<bar>))"

fun number_to_string :: "jsnum \<Rightarrow> string" where
  "number_to_string NaN = ''NaN''"
| "number_to_string PInf = ''Infinity''"
| "number_to_string NInf = ''-Infinity''"
| "number_to_string (Fin q) =
     (if q = 0 then ''0'' else if q < 0 then ''-'' @ positive_text (- q) else positive_text q)"

definition fixed_digits :: "nat \<Rightarrow> nat \<Rightarrow> string" where
  "fixed_digits digits n =
     (let m = show_nat n;
          padded = zeros (Suc digits - length m) @ m;
          whole = length padded - digits in
      if digits = 0 then m else take whole padded @ ''.'' @ drop whole padded)"

fun to_fixed :: "nat \<Rightarrow> jsnum \<Rightarrow> string" where
  "to_fixed digits (Fin a) =
     (if 10 ^ 21 \<le> \<bar>a\<bar> then number_to_string (Fin a)
      else (if a < 0 then ''-'' else []) @ fixed_digits digits (nat (to_fixed_scaled digits \<bar>a\<bar>)))"
| "to_fixed digits x = number_to_string x"

section \<open>Decimal numerals\<close>

lemma digit_char:
  "n < 10 \<Longrightarrow> m < 10 \<Longrightarrow> char_of (48 + n) = (char_of (48 + m) :: char) \<Longrightarrow> n = (m :: nat)"
  "n < 10 \<Longrightarrow> char_of (48 + n) \<noteq> CHR ''_''"
proof -
  assume n: "n < 10"
  then have of_n: "of_char (char_of (48 + n) :: char) = 48 + n" by simp
  show "n = m" if "m < 10" "char_of (48 + n) = (char_of (48 + m) :: char)"
  proof -
    have "of_char (char_of (48 + m) :: char) = 48 + m" using that by simp
    with of_n that show ?thesis by simp
  qed
  show "char_of (48 + n) \<noteq> CHR ''_''"
  proof
    assume "char_of (48 + n) = CHR ''_''"
    then have "48 + n = of_char (CHR ''_'')" using of_n by simp
    then show False using n by simp
  qed
qed

lemma show_nat_chars: "c \<in> set (show_nat n) \<Longrightarrow> \<exists>d<(10 :: nat). c = char_of (48 + d)"
proof (induction n rule: show_nat.induct)
  case (1 n)
  then show ?case
    by (cases "n < 10") (auto simp: show_nat.simps [of n] intro: exI [of _ "n mod 10"])
qed

lemma show_nat_inject: "show_nat n = show_nat m \<Longrightarrow> n = m"
proof (induction n arbitrary: m rule: show_nat.induct)
  case (1 n)
  have nonempty: "show_nat k \<noteq> []" for k by (subst show_nat.simps) simp
  note eq = "1.prems" [unfolded show_nat.simps [of n] show_nat.simps [of m]]
  show ?case
  proof (cases "n < 10")
    case True
    then show ?thesis
      using eq nonempty digit_char(1) by (auto split: if_splits simp: Cons_eq_append_conv)
  next
    case False
    then have m: "\<not> m < 10" using eq nonempty by (auto split: if_splits simp: append_eq_Cons_conv)
    with False eq have "show_nat (n div 10) = show_nat (m div 10)"
      and "char_of (48 + n mod 10) = (char_of (48 + m mod 10) :: char)" by simp_all
    then have "n div 10 = m div 10" "n mod 10 = m mod 10"
      using "1.IH" [OF False] digit_char(1) [of "n mod 10" "m mod 10"] by simp_all
    then show ?thesis by (metis div_mult_mod_eq)
  qed
qed

lemma show_nat_sep:
  assumes "show_nat a @ ''_'' @ show_nat b = show_nat c @ ''_'' @ show_nat d"
  shows "a = c \<and> b = d"
proof -
  have no: "CHR ''_'' \<notin> set (show_nat k)" for k using show_nat_chars digit_char(2) by metis
  have "takeWhile (\<lambda>x. x \<noteq> CHR ''_'') (show_nat k @ ''_'' @ xs) = show_nat k" for k xs
    using no [of k] by (subst takeWhile_append2) auto
  then have "show_nat a = show_nat c" using assms by metis
  with assms show ?thesis using show_nat_inject by auto
qed

section \<open>Characters\<close>

definition number_char :: "char \<Rightarrow> bool" where
  "number_char c \<longleftrightarrow> is_digit_char c \<or> c = CHR ''.'' \<or> c = CHR ''-''"

lemma show_nat_digits: "list_all is_digit_char (show_nat n)"
proof -
  have "is_digit_char (char_of (48 + d))" if "d < 10" for d :: nat
  proof -
    have "(of_char (char_of (48 + d) :: char) :: nat) = 48 + d" using that by simp
    then have "code_of (char_of (48 + d)) = int (48 + d)"
      unfolding code_of_def by (metis of_nat_of_char)
    with that show ?thesis by (simp add: is_digit_char_def in_range_def)
  qed
  then show ?thesis using show_nat_chars [of _ n] by (auto simp: list_all_iff)
qed

lemma to_fixed_chars:
  assumes "\<bar>a\<bar> < 10 ^ 21"
  shows "list_all number_char (to_fixed digits (Fin a))"
proof -
  have "list_all number_char (show_nat n)" for n
    using show_nat_digits [of n] by (auto simp: list_all_iff number_char_def)
  moreover have "list_all number_char (zeros n)" for n
    by (auto simp: zeros_def list_all_iff number_char_def is_digit_char_def in_range_def code_of_def)
  ultimately have "list_all number_char (fixed_digits digits n)" for n
    by (auto simp: fixed_digits_def Let_def list_all_iff number_char_def dest!: in_set_takeD in_set_dropD)
  with assms show ?thesis by (simp add: number_char_def)
qed

lemma number_char_seps: "\<not> number_char (CHR '','')" "\<not> number_char (CHR '';'')" "\<not> number_char (CHR ''|'')"
  by code_simp+

section \<open>Joined texts\<close>

lemma split_unique:
  assumes "xs @ c # ys = xs' @ c # ys'" and "c \<notin> set xs" and "c \<notin> set xs'"
  shows "xs = xs' \<and> ys = ys'"
proof -
  have "takeWhile (\<lambda>x. x \<noteq> c) (zs @ c # ws) = zs" if "c \<notin> set zs" for zs ws
    using that by (induction zs) auto
  then have "xs = xs'" using assms by metis
  then show ?thesis using assms(1) by simp
qed

lemma join_inject:
  assumes "join [c] xs = join [c] ys"
    and "\<forall>x\<in>set xs. c \<notin> set x" and "\<forall>y\<in>set ys. c \<notin> set y"
    and "xs \<noteq> []" and "ys \<noteq> []"
  shows "xs = ys"
  using assms
proof (induction "[c]" xs arbitrary: ys rule: join.induct)
  case (2 x)
  then show ?case
  proof (cases ys rule: remdups_adj.cases)
    case (3 y y' zs)
    then have "c \<in> set x" using 2 by (cases zs) auto
    with 2 show ?thesis by simp
  qed auto
next
  case (3 x x' xs)
  show ?case
  proof (cases ys rule: remdups_adj.cases)
    case (2 y)
    then have "c \<in> set y" using 3 by auto
    with 2 3 show ?thesis by simp
  next
    case (3 y y' zs)
    with "3.prems" have "x @ c # join [c] (x' # xs) = y @ c # join [c] (y' # zs)" by simp
    with "3.prems" 3 have "x = y \<and> join [c] (x' # xs) = join [c] (y' # zs)"
      by (intro split_unique) auto
    with "3.hyps" [of "y' # zs"] "3.prems" 3 show ?thesis by simp
  qed (use "3.prems" in simp)
qed simp

end
