(* ===== verification/Js_Date.thy ===== *)
theory Js_Date
  imports Js_Format Js_Value
begin

text \<open>
  Dates as text: \<open>Date.prototype.toISOString\<close>. The calendar day is computed from the day number
  in the proleptic Gregorian calendar, in eras of 400 years; an invalid date has no text, as the
  method throws a \<open>RangeError\<close>.
\<close>

definition pad :: "nat \<Rightarrow> int \<Rightarrow> string" where
  "pad width n = (let text = show_nat (nat n) in zeros (width - length text) @ text)"

text \<open>Year, month and day of a day number counted from 1970-01-01.\<close>

definition civil_from_days :: "int \<Rightarrow> int \<times> int \<times> int" where
  "civil_from_days days =
     (let z = days + 719468;
          era = z div 146097;
          dayOfEra = z mod 146097;
          yearOfEra = (dayOfEra - dayOfEra div 1460 + dayOfEra div 36524 - dayOfEra div 146096) div 365;
          dayOfYear = dayOfEra - (365 * yearOfEra + yearOfEra div 4 - yearOfEra div 100);
          mp = (5 * dayOfYear + 2) div 153;
          day = dayOfYear - (153 * mp + 2) div 5 + 1;
          month = (if mp < 10 then mp + 3 else mp - 9);
          year = yearOfEra + era * 400 in
      (if month \<le> 2 then year + 1 else year, month, day))"

definition year_text :: "int \<Rightarrow> string" where
  "year_text y = (if 0 \<le> y \<and> y \<le> 9999 then pad 4 y
     else (if y < 0 then ''-'' else ''+'') @ pad 6 \<bar>y\<bar>)"

fun toISOString :: "js_date \<Rightarrow> string option" where
  "toISOString InvalidDate = None"
| "toISOString (Date t) =
     (case civil_from_days (t div 86400000) of (y, m, d) \<Rightarrow>
      let ms = t mod 86400000 in
      Some (year_text y @ ''-'' @ pad 2 m @ ''-'' @ pad 2 d @ ''T'' @
        pad 2 (ms div 3600000) @ '':'' @ pad 2 (ms div 60000 mod 60) @ '':'' @
        pad 2 (ms div 1000 mod 60) @ ''.'' @ pad 3 (ms mod 1000) @ ''Z''))"

lemma toISOString_valid: "valid_date d \<Longrightarrow> \<exists>s. toISOString d = Some s"
  by (cases d) (auto simp: Let_def split: prod.splits)

end
