(* ===== verification/Js_Parse.thy ===== *)
theory Js_Parse
  imports Js_Format Js_Value
begin

text \<open>
  \<open>Number(s)\<close>, the conversion of a string to a number, following the grammar of ECMAScript's
  \<open>StringNumericLiteral\<close>. The digits denote a rational that is rounded once. The lemmas show
  that it reads back what \<open>String(n)\<close> writes for a natural number.
\<close>

section \<open>Definitions\<close>

definition digit_value :: "char \<Rightarrow> int option" where
  "digit_value c =
     (if is_digit_char c then Some (code_of c - 48)
      else if is_lower c then Some (code_of c - 87)
      else if is_upper c then Some (code_of c - 55)
      else None)"

text \<open>The value of a non-empty run of digits of a radix.\<close>

fun radix_value :: "int \<Rightarrow> int \<Rightarrow> string \<Rightarrow> int option" where
  "radix_value radix acc [] = Some acc"
| "radix_value radix acc (c # cs) =
     (case digit_value c of
        Some d \<Rightarrow> if d < radix then radix_value radix (acc * radix + d) cs else None
      | None \<Rightarrow> None)"

definition radix_literal :: "int \<Rightarrow> string \<Rightarrow> jsnum" where
  "radix_literal radix s =
     (if s = [] then NaN
      else case radix_value radix 0 s of None \<Rightarrow> NaN | Some v \<Rightarrow> mk_num (of_int v))"

text \<open>An exponent part: nothing, or a letter, an optional sign and digits.\<close>

definition exponent_value :: "string \<Rightarrow> int option" where
  "exponent_value s =
     (case s of
        [] \<Rightarrow> Some 0
      | c # cs \<Rightarrow>
          if c \<noteq> CHR ''e'' \<and> c \<noteq> CHR ''E'' then None
          else let negative = (cs \<noteq> [] \<and> hd cs = CHR ''-'');
                   ds = (if cs \<noteq> [] \<and> (hd cs = CHR ''-'' \<or> hd cs = CHR ''+'') then tl cs else cs) in
            if ds = [] then None
            else map_option (\<lambda>v. if negative then - v else v) (radix_value 10 0 ds))"

definition decimal_literal :: "string \<Rightarrow> rat option" where
  "decimal_literal s =
     (let whole = takeWhile is_digit_char s;
          rest = dropWhile is_digit_char s;
          dotted = (rest \<noteq> [] \<and> hd rest = CHR ''.'');
          fraction = (if dotted then takeWhile is_digit_char (tl rest) else []);
          suffix = (if dotted then dropWhile is_digit_char (tl rest) else rest) in
      if whole @ fraction = [] then None
      else case (radix_value 10 0 (whole @ fraction), exponent_value suffix) of
        (Some v, Some e) \<Rightarrow> Some (of_int v * pow10 (e - int (length fraction)))
      | _ \<Rightarrow> None)"

definition number_of_string :: "string \<Rightarrow> jsnum" where
  "number_of_string text =
     (let s = js_trim text; prefix = to_lower (take 2 s) in
      if s = [] then Fin 0
      else if prefix = ''0x'' then radix_literal 16 (drop 2 s)
      else if prefix = ''0o'' then radix_literal 8 (drop 2 s)
      else if prefix = ''0b'' then radix_literal 2 (drop 2 s)
      else
        let negative = (hd s = CHR ''-''); t = (if hd s = CHR ''-'' \<or> hd s = CHR ''+'' then tl s else s) in
        if t = ''Infinity'' then (if negative then NInf else PInf)
        else case decimal_literal t of
          None \<Rightarrow> NaN
        | Some q \<Rightarrow> mk_num (if negative then - q else q))"

section \<open>Reading what was written\<close>

lemma digit_value_char: "d < 10 \<Longrightarrow> digit_value (char_of (48 + d :: nat)) = Some (int d)"
proof -
  assume "d < 10"
  then have "(of_char (char_of (48 + d) :: char) :: nat) = 48 + d" by simp
  then have "code_of (char_of (48 + d :: nat)) = 48 + int d"
    unfolding code_of_def by (metis of_nat_add of_nat_numeral of_nat_of_char)
  with \<open>d < 10\<close> show ?thesis by (simp add: digit_value_def is_digit_char_def in_range_def)
qed

lemma radix_value_append:
  "radix_value r acc (s @ t) = Option.bind (radix_value r acc s) (\<lambda>v. radix_value r v t)"
  by (induction s arbitrary: acc) (auto split: option.splits)

lemma radix_value_show_nat: "radix_value 10 0 (show_nat n) = Some (int n)"
proof (induction n rule: show_nat.induct)
  case (1 n)
  show ?case
  proof (cases "n < 10")
    case True
    then show ?thesis by (simp add: show_nat.simps [of n] digit_value_char)
  next
    case False
    then show ?thesis
      using 1 digit_value_char [of "n mod 10"]
      by (simp add: show_nat.simps [of n] radix_value_append del: char_of_nat) presburger
  qed
qed

lemma show_nat_nonempty [simp]: "show_nat n \<noteq> []"
  by (simp add: show_nat.simps [of n])

lemma trim_digits: "list_all is_digit_char s \<Longrightarrow> js_trim s = s"
proof -
  assume "list_all is_digit_char s"
  then have plain: "\<not> is_space c" if "c \<in> set s" for c
    using that by (auto simp: list_all_iff is_digit_char_def is_space_def in_range_def code_of_def)
  have keep: "dropWhile P t = t" if "\<And>c. c \<in> set t \<Longrightarrow> \<not> P c" for P :: "char \<Rightarrow> bool" and t
    using that by (cases t) auto
  have "dropWhile is_space s = s" "dropWhile is_space (rev s) = rev s" by (intro keep; simp add: plain)+
  then show ?thesis by (simp only: js_trim_def rev_rev_ident)
qed

lemma decimal_digits:
  assumes "list_all is_digit_char s" and "s \<noteq> []" and "radix_value 10 0 s = Some v"
  shows "decimal_literal s = Some (of_int v)"
proof -
  have run: "takeWhile is_digit_char s = s" "dropWhile is_digit_char s = []"
    using assms(1) by (induction s) auto
  show ?thesis unfolding decimal_literal_def run Let_def
    using assms(2,3) by (simp add: exponent_value_def pow10_def)
qed

lemma digit_prefix:
  assumes "list_all is_digit_char s" and "\<not> is_digit_char c"
  shows "to_lower (take 2 s) \<noteq> [CHR ''0'', c]"
proof
  assume e: "to_lower (take 2 s) = [CHR ''0'', c]"
  have "ascii_lower d = d" if "is_digit_char d" for d
    using that by (auto simp: ascii_lower_def is_upper_def is_digit_char_def in_range_def)
  then have "to_lower (take 2 s) = take 2 s"
    using assms(1) unfolding to_lower_def by (intro map_idI) (auto simp: list_all_iff dest: in_set_takeD)
  then have "take 2 s = [CHR ''0'', c]" using e by simp
  then have "c \<in> set (take 2 s)" by simp
  then have "is_digit_char c" using assms(1) by (auto simp: list_all_iff dest: in_set_takeD)
  with assms(2) show False by simp
qed

lemma number_of_digits:
  assumes "list_all is_digit_char s" and "s \<noteq> []" and "radix_value 10 0 s = Some v"
  shows "number_of_string s = mk_num (of_int v)"
proof -
  have "\<not> is_digit_char (CHR ''x'')" "\<not> is_digit_char (CHR ''o'')" "\<not> is_digit_char (CHR ''b'')"
    "\<not> is_digit_char (CHR ''-'')" "\<not> is_digit_char (CHR ''+'')" "\<not> is_digit_char (CHR ''I'')"
    by (simp_all add: is_digit_char_def in_range_def code_of_def)
  moreover have "is_digit_char (hd s)" using assms(1,2) by (cases s) auto
  ultimately have "hd s \<noteq> CHR ''-''" "hd s \<noteq> CHR ''+''" "s \<noteq> ''Infinity''"
    "to_lower (take 2 s) \<noteq> ''0x''" "to_lower (take 2 s) \<noteq> ''0o''" "to_lower (take 2 s) \<noteq> ''0b''"
    using digit_prefix [OF assms(1)] by auto
  then show ?thesis
    using assms(2) by (simp add: number_of_string_def trim_digits [OF assms(1)] decimal_digits [OF assms] Let_def)
qed

lemma number_of_show_nat: "number_of_string (show_nat n) = mk_num (of_nat n)"
  using number_of_digits [OF show_nat_digits show_nat_nonempty radix_value_show_nat] by simp

end
