(* ===== verification/Js_Calendar.thy ===== *)
theory Js_Calendar
  imports Js_Date Js_Parse
begin

text \<open>
  \<open>toISOString\<close> is injective: the day number can be read back from the calendar date, which rests
  on the bounds of the day of the year, and the fields of the text have fixed widths.
\<close>

section \<open>Days\<close>

text \<open>Different days have different calendar dates.\<close>

definition days_from_civil :: "int \<times> int \<times> int \<Rightarrow> int" where
  "days_from_civil p = (case p of (y, m, d) \<Rightarrow>
     let year = (if m \<le> 2 then y - 1 else y);
         mp = (if m \<le> 2 then m + 9 else m - 3);
         yearOfEra = year mod 400;
         dayOfYear = (153 * mp + 2) div 5 + d - 1;
         dayOfEra = yearOfEra * 365 + yearOfEra div 4 - yearOfEra div 100 + dayOfYear in
     year div 400 * 146097 + dayOfEra - 719468)"

text \<open>A day of an era lies in a century \<open>k\<close>, at the offset \<open>r\<close> in it.\<close>

lemma day_of_year_bounds:
  fixes doe :: int
  assumes "0 \<le> doe" and "doe < 146097"
  defines "yoe \<equiv> (doe - doe div 1460 + doe div 36524 - doe div 146096) div 365"
  shows "0 \<le> yoe \<and> yoe < 400 \<and> 0 \<le> doe - (365 * yoe + yoe div 4 - yoe div 100) \<and>
    doe - (365 * yoe + yoe div 4 - yoe div 100) \<le> 365"
proof (cases "doe = 146096")
  case True
  then show ?thesis by (simp add: yoe_def)
next
  case False
  define k r where "k = doe div 36524" and "r = doe mod 36524"
  have k: "0 \<le> k" "k \<le> 3" and r: "0 \<le> r" "r < 36524" and doe: "doe = 36524 * k + r"
    using assms False by (auto simp: k_def r_def)
  define s where "s = (24 * k + r) div 1460"
  define z where "z = (r - s) div 365"
  have a: "doe div 1460 = 25 * k + s"
    unfolding doe s_def using div_mult_self4 [of 1460 "25 * k" "24 * k + r"] by (simp add: algebra_simps)
  have b: "doe div 36524 = k" by (simp add: k_def)
  have c: "doe div 146096 = 0" using assms False by simp
  have "yoe = (36500 * k + (r - s)) div 365" unfolding yoe_def a b c by (simp add: doe algebra_simps)
  also have "\<dots> = 100 * k + z"
    unfolding z_def using div_mult_self4 [of 365 "100 * k" "r - s"] by (simp add: algebra_simps)
  finally have yoe: "yoe = 100 * k + z" .
  have s: "0 \<le> s" "s \<le> 25" "1460 * s \<le> 24 * k + r" "24 * k + r < 1460 * s + 1460"
    using k r by (auto simp: s_def)
  have z: "365 * z \<le> r - s" "r - s < 365 * z + 365" unfolding z_def by auto
  have "z < 100" "-1 < z" using s z r k by linarith+
  have zs: "4 * s - 2 < z" "z < 4 * s + 4" using s z r k by linarith+
  have q: "s - 1 \<le> z div 4" "z div 4 \<le> s" using zs by auto
  have "yoe div 100 = k" using \<open>z < 100\<close> \<open>-1 < z\<close> by (simp add: yoe)
  moreover have "yoe div 4 = 25 * k + z div 4"
    unfolding yoe using div_mult_self4 [of 4 "25 * k" z] by (simp add: algebra_simps)
  ultimately have "doe - (365 * yoe + yoe div 4 - yoe div 100) = r - 365 * z - z div 4"
    by (simp add: doe yoe)
  then show ?thesis using yoe k z q \<open>z < 100\<close> \<open>-1 < z\<close> by auto
qed

lemma days_from_civil_from_days: "days_from_civil (civil_from_days n) = n"
proof -
  define z where "z = n + 719468"
  define doe where "doe = z mod 146097"
  define yoe where "yoe = (doe - doe div 1460 + doe div 36524 - doe div 146096) div 365"
  define doy where "doy = doe - (365 * yoe + yoe div 4 - yoe div 100)"
  define mp where "mp = (5 * doy + 2) div 153"
  have "0 \<le> doe" "doe < 146097" by (simp_all add: doe_def)
  note b = day_of_year_bounds [OF this, folded yoe_def, folded doy_def]
  have mp: "0 \<le> mp" "mp \<le> 11" using b by (auto simp: mp_def)
  have era: "(yoe + z div 146097 * 400) div 400 = z div 146097" "(yoe + z div 146097 * 400) mod 400 = yoe"
    using b by auto
  have "civil_from_days n =
      (if (if mp < 10 then mp + 3 else mp - 9) \<le> 2 then yoe + z div 146097 * 400 + 1 else yoe + z div 146097 * 400,
       if mp < 10 then mp + 3 else mp - 9, doy - (153 * mp + 2) div 5 + 1)"
    unfolding civil_from_days_def Let_def z_def [symmetric] doe_def [symmetric] yoe_def [symmetric]
      doy_def [symmetric] mp_def [symmetric] by (rule refl)
  then have "days_from_civil (civil_from_days n) =
      z div 146097 * 146097 + (yoe * 365 + yoe div 4 - yoe div 100 + doy) - 719468"
    using mp era by (simp add: days_from_civil_def Let_def)
  also have "\<dots> = z div 146097 * 146097 + doe - 719468" by (simp add: doy_def)
  finally show ?thesis by (simp add: doe_def z_def)
qed

lemma civil_from_days_bounds:
  assumes "civil_from_days n = (y, m, d)"
  shows "1 \<le> m \<and> m \<le> 12 \<and> 1 \<le> d \<and> d \<le> 31"
proof -
  define doe where "doe = (n + 719468) mod 146097"
  define yoe where "yoe = (doe - doe div 1460 + doe div 36524 - doe div 146096) div 365"
  define doy where "doy = doe - (365 * yoe + yoe div 4 - yoe div 100)"
  define mp where "mp = (5 * doy + 2) div 153"
  have "0 \<le> doe" "doe < 146097" by (simp_all add: doe_def)
  note b = day_of_year_bounds [OF this, folded yoe_def, folded doy_def]
  have "m = (if mp < 10 then mp + 3 else mp - 9)" "d = doy - (153 * mp + 2) div 5 + 1"
    using assms unfolding civil_from_days_def Let_def doe_def [symmetric] yoe_def [symmetric]
      doy_def [symmetric] mp_def [symmetric] by (simp_all only: prod.inject)
  moreover have "0 \<le> mp" "mp \<le> 11" "153 * mp \<le> 5 * doy + 2" "5 * doy + 2 < 153 * mp + 153"
    using b by (auto simp: mp_def)
  ultimately show ?thesis by auto
qed

section \<open>Texts\<close>

lemma radix_value_zeros: "radix_value 10 0 (zeros k @ s) = radix_value 10 0 s"
  by (induction k) (simp_all add: zeros_def digit_value_def is_digit_char_def in_range_def code_of_def)

lemma pad_value: "0 \<le> n \<Longrightarrow> radix_value 10 0 (pad width n) = Some n"
  by (simp add: pad_def Let_def radix_value_zeros radix_value_show_nat)

lemma pad_inject: "pad v m = pad w n \<Longrightarrow> 0 \<le> m \<Longrightarrow> 0 \<le> n \<Longrightarrow> m = n"
  using pad_value [of m v] pad_value [of n w] by simp

lemma pad_digits: "list_all is_digit_char (pad width n)"
  using show_nat_digits [of "nat n"]
  by (auto simp: pad_def Let_def zeros_def list_all_iff is_digit_char_def in_range_def code_of_def)

lemma show_nat_length: "n < 10 ^ k \<Longrightarrow> 0 < k \<Longrightarrow> length (show_nat n) \<le> k"
proof (induction n arbitrary: k rule: show_nat.induct)
  case (1 n)
  show ?case
  proof (cases "n < 10")
    case True
    with 1 show ?thesis by (simp add: show_nat.simps [of n])
  next
    case False
    then obtain j where k: "k = Suc j" "0 < j" using 1(2,3) by (cases k; cases "k - 1") auto
    with 1(2) have "n div 10 < 10 ^ j" by (auto simp: div_less_iff_less_mult)
    with 1(1) [OF False _ k(2)] False k(1) show ?thesis by (simp add: show_nat.simps [of n])
  qed
qed

lemma pad_length: "0 \<le> n \<Longrightarrow> n < 10 ^ width \<Longrightarrow> 0 < width \<Longrightarrow> length (pad width n) = width"
proof -
  assume a: "0 \<le> n" "n < 10 ^ width" "0 < width"
  then have "nat n < 10 ^ width" by (simp add: nat_less_iff)
  from show_nat_length [OF this a(3)] show ?thesis by (simp add: pad_def Let_def zeros_def)
qed

lemma year_text_inject:
  assumes "year_text y = year_text z"
  shows "y = z"
proof -
  have sign: "CHR ''-'' \<notin> set (pad w n)" "CHR ''+'' \<notin> set (pad w n)" for w n
    using pad_digits [of w n] by (auto simp: list_all_iff is_digit_char_def in_range_def code_of_def)
  have "CHR ''-'' \<in> set (year_text y) \<longleftrightarrow> y < 0" "CHR ''+'' \<in> set (year_text y) \<longleftrightarrow> 9999 < y" for y
    by (simp_all add: year_text_def sign)
  then have "y < 0 \<longleftrightarrow> z < 0" "9999 < y \<longleftrightarrow> 9999 < z" using assms by metis+
  with assms show ?thesis
    by (cases "y < 0"; cases "9999 < y") (simp_all add: year_text_def, (drule pad_inject; simp)+)
qed

definition clock_text :: "int \<Rightarrow> string" where
  "clock_text ms = pad 2 (ms div 3600000) @ '':'' @ pad 2 (ms div 60000 mod 60) @ '':'' @
     pad 2 (ms div 1000 mod 60) @ ''.'' @ pad 3 (ms mod 1000) @ ''Z''"

lemma clock_parts:
  assumes "length a = length a'" and "length b = length b'" and "length c = length c'"
    and "a @ '':'' @ b @ '':'' @ c @ ''.'' @ d @ ''Z'' = a' @ '':'' @ b' @ '':'' @ c' @ ''.'' @ d' @ ''Z''"
  shows "a = a' \<and> b = b' \<and> c = c' \<and> d = d'"
  using assms by simp

lemma clock_text:
  assumes "0 \<le> ms" and "ms < 86400000"
  shows "length (clock_text ms) = 13"
    and "0 \<le> ms' \<Longrightarrow> ms' < 86400000 \<Longrightarrow> clock_text ms = clock_text ms' \<Longrightarrow> ms = ms'"
proof -
  have l: "length (pad 2 (t div 3600000)) = 2" "length (pad 2 (t div 60000 mod 60)) = 2"
    "length (pad 2 (t div 1000 mod 60)) = 2" "length (pad 3 (t mod 1000)) = 3" if "0 \<le> t" "t < 86400000" for t
  proof -
    have "t div 3600000 \<le> 86399999 div 3600000" using that by (intro zdiv_mono1) simp_all
    then have "0 \<le> t div 3600000" "t div 3600000 < 100" using that by simp_all
    then show "length (pad 2 (t div 3600000)) = 2" by (intro pad_length) simp_all
    show "length (pad 2 (t div 60000 mod 60)) = 2"
      using pos_mod_bound [of 60 "t div 60000"] by (intro pad_length) simp_all
    show "length (pad 2 (t div 1000 mod 60)) = 2"
      using pos_mod_bound [of 60 "t div 1000"] by (intro pad_length) simp_all
    show "length (pad 3 (t mod 1000)) = 3" by (intro pad_length) simp_all
  qed
  show "length (clock_text ms) = 13" using l [OF assms] by (simp add: clock_text_def)
  assume ms': "0 \<le> ms'" "ms' < 86400000" and "clock_text ms = clock_text ms'"
  then have parts: "pad 2 (ms div 3600000) = pad 2 (ms' div 3600000) \<and>
      pad 2 (ms div 60000 mod 60) = pad 2 (ms' div 60000 mod 60) \<and>
      pad 2 (ms div 1000 mod 60) = pad 2 (ms' div 1000 mod 60) \<and> pad 3 (ms mod 1000) = pad 3 (ms' mod 1000)"
    unfolding clock_text_def by (intro clock_parts) (simp_all only: l [OF assms] l [OF ms'])
  have "0 \<le> ms div 3600000" "0 \<le> ms' div 3600000" using assms(1) ms'(1) by simp_all
  with parts have "ms div 3600000 = ms' div 3600000" by (blast intro: pad_inject)
  moreover have "ms div 60000 mod 60 = ms' div 60000 mod 60" "ms div 1000 mod 60 = ms' div 1000 mod 60"
    "ms mod 1000 = ms' mod 1000"
    using parts by (blast intro: pad_inject pos_mod_sign zero_less_numeral)+
  moreover have "t = ((t div 3600000 * 60 + t div 60000 mod 60) * 60 + t div 1000 mod 60) * 1000 + t mod 1000" for t :: int
  proof -
    have "t div 60000 = t div 1000 div 60" "t div 3600000 = t div 60000 div 60"
      by (simp_all add: zdiv_zmult2_eq [symmetric])
    then have "t div 3600000 * 60 + t div 60000 mod 60 = t div 60000"
      "t div 60000 * 60 + t div 1000 mod 60 = t div 1000" by simp_all
    then show ?thesis by simp
  qed
  ultimately show "ms = ms'" by metis
qed

lemma day_text_length:
  assumes "civil_from_days n = (y, m, d)"
  shows "length (pad 2 m) = 2 \<and> length (pad 2 d) = 2"
  using civil_from_days_bounds [OF assms] by (auto intro!: pad_length)

lemma toISOString_shape:
  assumes "civil_from_days (t div 86400000) = (y, m, d)"
  shows "toISOString (Date t) =
    Some (year_text y @ ''-'' @ pad 2 m @ ''-'' @ pad 2 d @ ''T'' @ clock_text (t mod 86400000))"
  unfolding toISOString.simps assms prod.case clock_text_def Let_def by (rule refl)

theorem toISOString_inject:
  assumes "toISOString a = Some s" and "toISOString b = Some s"
  shows "a = b"
proof -
  obtain t u where ab: "a = Date t" "b = Date u" using assms by (cases a; cases b) auto
  obtain y m d where t: "civil_from_days (t div 86400000) = (y, m, d)" by (metis prod_cases3)
  obtain z n e where u: "civil_from_days (u div 86400000) = (z, n, e)" by (metis prod_cases3)
  have bounds: "0 \<le> t mod 86400000" "t mod 86400000 < 86400000" "0 \<le> u mod 86400000" "u mod 86400000 < 86400000"
    by simp_all
  have eq: "year_text y @ ''-'' @ pad 2 m @ ''-'' @ pad 2 d @ ''T'' @ clock_text (t mod 86400000) =
      year_text z @ ''-'' @ pad 2 n @ ''-'' @ pad 2 e @ ''T'' @ clock_text (u mod 86400000)"
    using assms toISOString_shape [OF t] toISOString_shape [OF u] by (simp add: ab)
  note lengths = day_text_length [OF t] day_text_length [OF u] clock_text(1) [OF bounds(1,2)]
    clock_text(1) [OF bounds(3,4)]
  have "year_text y = year_text z \<and> ''-'' @ pad 2 m @ ''-'' @ pad 2 d @ ''T'' @ clock_text (t mod 86400000) =
      ''-'' @ pad 2 n @ ''-'' @ pad 2 e @ ''T'' @ clock_text (u mod 86400000)"
    using eq by (subst (asm) append_eq_append_conv) (use lengths in auto)
  then have "y = z" "pad 2 m = pad 2 n" "pad 2 d = pad 2 e" "clock_text (t mod 86400000) = clock_text (u mod 86400000)"
    using lengths year_text_inject by auto
  then have "civil_from_days (t div 86400000) = civil_from_days (u div 86400000)"
    "t mod 86400000 = u mod 86400000"
    using civil_from_days_bounds [OF t] civil_from_days_bounds [OF u] pad_inject clock_text(2) [OF bounds] t u
    by auto
  then have "t div 86400000 = u div 86400000" "t mod 86400000 = u mod 86400000"
    using days_from_civil_from_days by metis+
  then show ?thesis by (metis ab div_mult_mod_eq)
qed

text \<open>The text of a date is made of digits and the separators.\<close>

lemma toISOString_no_nul: "toISOString a = Some s \<Longrightarrow> CHR 0x00 \<notin> set s"
proof -
  assume s: "toISOString a = Some s"
  then obtain t where a: "a = Date t" by (cases a) auto
  obtain y m d where t: "civil_from_days (t div 86400000) = (y, m, d)" by (metis prod_cases3)
  have pad: "CHR 0x00 \<notin> set (pad w n)" for w n
    using pad_digits [of w n] by (auto simp: list_all_iff is_digit_char_def in_range_def code_of_def)
  then show ?thesis
    using s toISOString_shape [OF t] unfolding a by (auto simp: clock_text_def year_text_def)
qed

end
