(* ===== verification/Iot_Monitoring.thy ===== *)
theory Iot_Monitoring
  imports Telemetry_Ingestion Js_Calendar
begin

text \<open>
  Public monitoring of nodes and their telemetry:
  \<^verbatim>\<open>src/src/iot/repositories/iot-monitoring.repository.ts\<close>,
  \<^verbatim>\<open>src/src/iot/services/iot-monitoring.service.ts\<close> and the models and query classes beside them, over
  the tables of theory \<open>Database\<close>. The statements only read. The order of node identifiers in the
  collation of the database and the parser of dates are parameters. The lemmas show that following
  the cursors of a node's history returns each of its readings once, newest first.
\<close>

section \<open>Models\<close>

record measurement =
  me_medianEchoUs :: int
  me_rawDistanceMm :: "int option"
  me_acceptedDistanceMm :: "int option"
  me_referenceDistanceMm :: "int option"
  me_madMm :: int
  me_temperatureC :: "jsnum option"
  me_humidityPercent :: "jsnum option"
  me_batteryMv :: int
  me_validSamples :: int
  me_totalSamples :: int
  me_filterState :: int
  me_filterStateName :: "string option"
  me_qualityFlags :: int
  me_healthFlags :: int

record reception_info =
  ri_gatewayId :: string
  ri_hardwareMac :: string
  ri_gatewayBootSessionId :: int
  ri_gatewayReceivedAt :: "string option"
  ri_gatewayTimeTrusted :: bool
  ri_gatewayUptimeMs :: int
  ri_serverReceivedAt :: string
  ri_rssiDbm :: jsnum
  ri_snrDb :: jsnum
  ri_frequencyErrorHz :: int
  ri_packetLength :: int

record monitoring_telemetry =
  mo_id :: int
  mo_nodeId :: string
  mo_bootSessionId :: int
  mo_sequence :: int
  mo_measurement :: measurement
  mo_reception :: reception_info
  mo_rawPayloadBase64 :: "string option"

record node_summary =
  ns_nodeId :: string
  ns_firstSeenAt :: string
  ns_lastSeenAt :: string
  ns_lastGateway :: "(string \<times> string) option"
  ns_latestTelemetry :: "monitoring_telemetry option"

datatype monitoring_error =
    MON_BAD_REQUEST string
  | MON_NOT_FOUND string
  | MON_FAILURE string

type_synonym 'a monitored = "(monitoring_error, 'a) result"

section \<open>Repository\<close>

definition safeNumber :: "int \<Rightarrow> string \<Rightarrow> int monitored" where
  "safeNumber v field =
     (if \<bar>v\<bar> \<le> max_safe_integer then Inr v
      else Inl (MON_FAILURE (field @ '' exceeds the JSON safe-integer range'')))"

definition asIso :: "js_date \<Rightarrow> string monitored" where
  "asIso v = (case toISOString v of None \<Rightarrow> Inl (MON_FAILURE ''Invalid time value'') | Some s \<Rightarrow> Inr s)"

definition optionally :: "('a \<Rightarrow> 'b monitored) \<Rightarrow> 'a option \<Rightarrow> 'b option monitored" where
  "optionally f v = (case v of None \<Rightarrow> Inr None | Some x \<Rightarrow> res_bind (f x) (\<lambda>y. Inr (Some y)))"

definition hundredths :: "int \<Rightarrow> jsnum" where
  "hundredths v = js_div (num_of_int v) (Fin 100)"

text \<open>
  The row joins the address of its gateway, which is missing when there is no such gateway; the other
  columns that the check of the source reads are not nullable in the table.
\<close>

definition monitor_telemetry :: "telemetry_row \<Rightarrow> string option \<Rightarrow> bool \<Rightarrow> monitoring_telemetry monitored" where
  "monitor_telemetry row hardwareMac includeRaw =
     (case hardwareMac of
        None \<Rightarrow> Inl (MON_FAILURE ''Database returned an incomplete telemetry row'')
      | Some mac \<Rightarrow>
          res_bind (safeNumber (tr_id row) ''telemetry id'') (\<lambda>telemetryId.
          res_bind (safeNumber (tr_node_boot_session_id row) ''boot session id'') (\<lambda>session.
          res_bind (safeNumber (tr_node_sequence row) ''sequence'') (\<lambda>sequence.
          res_bind (safeNumber (tr_median_echo_us row) ''median echo'') (\<lambda>echo.
          res_bind (optionally (\<lambda>v. safeNumber v ''raw distance'') (tr_raw_distance_mm row)) (\<lambda>rawDistance.
          res_bind (optionally (\<lambda>v. safeNumber v ''accepted distance'') (tr_accepted_distance_mm row)) (\<lambda>acceptedDistance.
          res_bind (optionally (\<lambda>v. safeNumber v ''reference distance'') (tr_reference_distance_mm row)) (\<lambda>referenceDistance.
          res_bind (safeNumber (tr_gateway_boot_session_id row) ''Gateway boot session id'') (\<lambda>gatewaySession.
          res_bind (optionally asIso (tr_gateway_received_at row)) (\<lambda>gatewayReceivedAt.
          res_bind (safeNumber (tr_gateway_uptime_ms row) ''Gateway uptime'') (\<lambda>uptime.
          res_bind (asIso (tr_server_received_at row)) (\<lambda>serverReceivedAt.
            Inr \<lparr> mo_id = telemetryId, mo_nodeId = tr_node_id row, mo_bootSessionId = session, mo_sequence = sequence,
              mo_measurement = \<lparr> me_medianEchoUs = echo, me_rawDistanceMm = rawDistance,
                me_acceptedDistanceMm = acceptedDistance, me_referenceDistanceMm = referenceDistance,
                me_madMm = tr_mad_mm row,
                me_temperatureC = map_option hundredths (tr_temperature_centi_c row),
                me_humidityPercent = map_option hundredths (tr_humidity_centi_percent row),
                me_batteryMv = tr_battery_mv row, me_validSamples = tr_valid_samples row,
                me_totalSamples = tr_total_samples row, me_filterState = tr_filter_state row,
                me_filterStateName =
                  (if 0 \<le> tr_filter_state row \<and> nat (tr_filter_state row) < length FILTER_STATE_NAMES
                   then Some (FILTER_STATE_NAMES ! nat (tr_filter_state row)) else None),
                me_qualityFlags = tr_quality_flags row, me_healthFlags = tr_health_flags row \<rparr>,
              mo_reception = \<lparr> ri_gatewayId = tr_gateway_logical_id_snapshot row, ri_hardwareMac = mac,
                ri_gatewayBootSessionId = gatewaySession, ri_gatewayReceivedAt = gatewayReceivedAt,
                ri_gatewayTimeTrusted = tr_gateway_time_trusted row, ri_gatewayUptimeMs = uptime,
                ri_serverReceivedAt = serverReceivedAt, ri_rssiDbm = tr_rssi_dbm row, ri_snrDb = tr_snr_db row,
                ri_frequencyErrorHz = tr_frequency_error_hz row, ri_packetLength = tr_packet_length row \<rparr>,
              mo_rawPayloadBase64 = (if includeRaw then Some (b64_encode (tr_raw_payload row)) else None) \<rparr>))))))))))))"

definition gateway_with_id :: "int \<Rightarrow> db \<Rightarrow> gateway_row option" where
  "gateway_with_id i d = find (\<lambda>g. gw_id g = i) (dict_values (db_gateways d))"

text \<open>\<open>ORDER BY server_received_at DESC, id DESC\<close>, and the comparison of a row with the cursor.\<close>

definition newer_first :: "telemetry_row \<Rightarrow> telemetry_row \<Rightarrow> bool" where
  "newer_first a b \<longleftrightarrow>
     date_lt (tr_server_received_at b) (tr_server_received_at a) \<or>
     (tr_server_received_at a = tr_server_received_at b \<and> tr_id b \<le> tr_id a)"

definition before_cursor :: "telemetry_row \<Rightarrow> telemetry_row \<Rightarrow> bool" where
  "before_cursor cursor t \<longleftrightarrow>
     date_lt (tr_server_received_at t) (tr_server_received_at cursor) \<or>
     (tr_server_received_at t = tr_server_received_at cursor \<and> tr_id t < tr_id cursor)"

definition node_telemetry :: "string \<Rightarrow> db \<Rightarrow> telemetry_row list" where
  "node_telemetry nodeId d = sort_by newer_first (filter (\<lambda>t. tr_node_id t = nodeId) (db_telemetry d))"

definition monitor_node :: "node_row \<Rightarrow> db \<Rightarrow> node_summary monitored" where
  "monitor_node n d =
     res_bind (asIso (nd_first_seen_at n)) (\<lambda>firstSeen.
     res_bind (asIso (nd_last_seen_at n)) (\<lambda>lastSeen.
     res_bind (case node_telemetry (nd_node_id n) d of
         [] \<Rightarrow> Inr None
       | t # _ \<Rightarrow> res_bind (monitor_telemetry t
           (map_option gw_hardware_mac (gateway_with_id (tr_gateway_id t) d)) False) (\<lambda>m. Inr (Some m))) (\<lambda>latest.
       Inr \<lparr> ns_nodeId = nd_node_id n, ns_firstSeenAt = firstSeen, ns_lastSeenAt = lastSeen,
         ns_lastGateway = map_option (\<lambda>g. (gw_logical_gateway_id g, gw_hardware_mac g))
           (gateway_with_id (nd_last_gateway_id n) d),
         ns_latestTelemetry = latest \<rparr>)))"

definition node_before :: "(string \<Rightarrow> string \<Rightarrow> bool) \<Rightarrow> node_row \<Rightarrow> node_row \<Rightarrow> bool" where
  "node_before text_le a b \<longleftrightarrow>
     date_lt (nd_last_seen_at b) (nd_last_seen_at a) \<or>
     (nd_last_seen_at a = nd_last_seen_at b \<and> text_le (nd_node_id a) (nd_node_id b))"

definition list_nodes :: "(string \<Rightarrow> string \<Rightarrow> bool) \<Rightarrow> nat \<Rightarrow> db \<Rightarrow> node_summary list monitored" where
  "list_nodes text_le limit d =
     traverse (\<lambda>n. monitor_node n d) (take limit (sort_by (node_before text_le) (dict_values (db_nodes d))))"

definition find_node :: "string \<Rightarrow> db \<Rightarrow> node_summary option monitored" where
  "find_node nodeId d = optionally (\<lambda>n. monitor_node n d) (dict_get (db_nodes d) nodeId)"

record history_query =
  hq_limit :: nat
  hq_beforeId :: "int option"
  hq_from :: "js_date option"
  hq_to :: "js_date option"
  hq_includeRaw :: bool

text \<open>A cursor that is no reading of the node makes the comparison \<open>NULL\<close> and selects nothing.\<close>

definition history_selects :: "string \<Rightarrow> history_query \<Rightarrow> db \<Rightarrow> telemetry_row \<Rightarrow> bool" where
  "history_selects nodeId q d t \<longleftrightarrow>
     tr_node_id t = nodeId \<and>
     (case hq_beforeId q of
        None \<Rightarrow> True
      | Some b \<Rightarrow> (case find (\<lambda>c. tr_node_id c = nodeId \<and> tr_id c = b) (db_telemetry d) of
          None \<Rightarrow> False | Some c \<Rightarrow> before_cursor c t)) \<and>
     (case hq_from q of None \<Rightarrow> True | Some f \<Rightarrow> date_le f (tr_server_received_at t)) \<and>
     (case hq_to q of None \<Rightarrow> True | Some u \<Rightarrow> date_le (tr_server_received_at t) u) \<and>
     gateway_with_id (tr_gateway_id t) d \<noteq> None"

definition history_rows :: "string \<Rightarrow> history_query \<Rightarrow> db \<Rightarrow> telemetry_row list" where
  "history_rows nodeId q d =
     take (hq_limit q) (sort_by newer_first (filter (history_selects nodeId q d) (db_telemetry d)))"

text \<open>An invalid date does not survive as a parameter of the statement.\<close>

definition history :: "string \<Rightarrow> history_query \<Rightarrow> db \<Rightarrow> monitoring_telemetry list monitored" where
  "history nodeId q d =
     (if hq_from q = Some InvalidDate \<or> hq_to q = Some InvalidDate
      then Inl (MON_FAILURE ''invalid input syntax for type timestamp with time zone'')
      else traverse (\<lambda>t. monitor_telemetry t
          (map_option gw_hardware_mac (gateway_with_id (tr_gateway_id t) d)) (hq_includeRaw q))
        (history_rows nodeId q d))"

section \<open>Service\<close>

definition DEFAULT_MONITOR_LIMIT :: nat where "DEFAULT_MONITOR_LIMIT = 200"

definition monitor_limit :: "nat \<Rightarrow> nat option \<Rightarrow> nat monitored" where
  "monitor_limit maximumLimit requested =
     (let v = (case requested of Some n \<Rightarrow> n | None \<Rightarrow> min DEFAULT_MONITOR_LIMIT maximumLimit) in
      if maximumLimit < v
      then Inl (MON_BAD_REQUEST (''limit exceeds configured maximum of '' @ show_nat maximumLimit))
      else Inr v)"

definition monitor_listNodes ::
  "(string \<Rightarrow> string \<Rightarrow> bool) \<Rightarrow> nat \<Rightarrow> nat option \<Rightarrow> db \<Rightarrow> node_summary list monitored" where
  "monitor_listNodes text_le maximumLimit requested d =
     res_bind (monitor_limit maximumLimit requested) (\<lambda>limit. list_nodes text_le limit d)"

definition monitor_getNode :: "string \<Rightarrow> db \<Rightarrow> node_summary monitored" where
  "monitor_getNode nodeId d =
     res_bind (find_node nodeId d) (\<lambda>node.
       case node of None \<Rightarrow> Inl (MON_NOT_FOUND ''IoT Node was not found'') | Some n \<Rightarrow> Inr n)"

record history_params =
  hp_limit :: "nat option"
  hp_beforeId :: "int option"
  hp_from :: "string option"
  hp_to :: "string option"
  hp_includeRaw :: "bool option"

record history_page =
  pg_nodeId :: string
  pg_items :: "monitoring_telemetry list"
  pg_nextBeforeId :: "int option"

definition monitor_history ::
  "(string \<Rightarrow> js_date) \<Rightarrow> nat \<Rightarrow> string \<Rightarrow> history_params \<Rightarrow> db \<Rightarrow> history_page monitored" where
  "monitor_history dateParse maximumLimit nodeId p d =
     res_bind (monitor_limit maximumLimit (hp_limit p)) (\<lambda>limit.
       let from = map_option dateParse (hp_from p); until = map_option dateParse (hp_to p) in
       if (case (from, until) of (Some f, Some u) \<Rightarrow> date_lt u f | _ \<Rightarrow> False)
       then Inl (MON_BAD_REQUEST ''from must be earlier than or equal to to'')
       else res_bind (monitor_getNode nodeId d) (\<lambda>_.
         res_bind (history nodeId \<lparr> hq_limit = limit, hq_beforeId = hp_beforeId p, hq_from = from, hq_to = until,
             hq_includeRaw = (hp_includeRaw p = Some True) \<rparr> d) (\<lambda>items.
           Inr \<lparr> pg_nodeId = nodeId, pg_items = items,
             pg_nextBeforeId = (if length items = limit \<and> items \<noteq> [] then Some (mo_id (last items)) else None) \<rparr>)))"

section \<open>Sorted rows\<close>

lemma filter_ins_by:
  assumes pre: "preorder_on_set S le" and "x \<in> S" and "set ys \<subseteq> S" and "sorted_wrt le ys"
  shows "filter P (ins_by le x ys) = (if P x then ins_by le x (filter P ys) else filter P ys)"
  using assms(3,4)
proof (induction ys)
  case (Cons y ys)
  have first: "ins_by le x (filter P zs) = x # filter P zs" if "le x y" "set zs \<subseteq> set (y # ys)" for zs
  proof (cases "filter P zs")
    case (Cons z rest)
    then have "z \<in> set (filter P zs)" by simp
    then have "z \<in> set (y # ys)" using that(2) by auto
    then have "z = y \<or> le y z" using Cons.prems(2) by auto
    then have "le x z"
      using preorder_on_trans [OF pre assms(2), of y z] that(1) Cons.prems(1) \<open>z \<in> set (y # ys)\<close> by auto
    with Cons show ?thesis by simp
  qed simp
  show ?case
  proof (cases "le x y")
    case True
    then show ?thesis using first [of "y # ys"] by simp
  next
    case False
    then show ?thesis using Cons by auto
  qed
qed simp

lemma filter_sort_by:
  assumes "preorder_on_set S le" and "set xs \<subseteq> S"
  shows "filter P (sort_by le xs) = sort_by le (filter P xs)"
  using assms(2)
  by (induction xs) (auto simp: filter_ins_by [OF assms(1)] sorted_wrt_sort_by [OF assms(1)])

text \<open>In a list sorted strictly by \<open>R\<close>, the elements after position \<open>k\<close> are those that \<open>R\<close> puts after it.\<close>

lemma filter_after:
  assumes "sorted_wrt R xs" and "\<And>a b. R a b \<Longrightarrow> \<not> R b a" and "k < length xs"
  shows "filter (R (xs ! k)) xs = drop (Suc k) xs"
proof -
  have xs: "xs = take k xs @ xs ! k # drop (Suc k) xs" by (rule id_take_nth_drop [OF assms(3)])
  have "sorted_wrt R (take k xs @ xs ! k # drop (Suc k) xs)" using assms(1) by (simp flip: xs)
  then have before: "\<forall>a\<in>set (take k xs). R a (xs ! k)" and after: "\<forall>b\<in>set (drop (Suc k) xs). R (xs ! k) b"
    by (auto simp: sorted_wrt_append)
  have "filter (R (xs ! k)) (take k xs) = []" using before assms(2) by (auto simp: filter_empty_conv)
  moreover have "filter (R (xs ! k)) (drop (Suc k) xs) = drop (Suc k) xs" using after by (simp add: filter_id_conv)
  moreover have "\<not> R (xs ! k) (xs ! k)" using assms(2) by blast
  ultimately show ?thesis by (subst xs, subst filter_append) simp
qed

definition rows_ok :: "telemetry_row list \<Rightarrow> bool" where
  "rows_ok ts \<longleftrightarrow> distinct (map tr_id ts) \<and> (\<forall>t\<in>set ts. valid_date (tr_server_received_at t))"

lemma newer_first_preorder: "preorder_on_set {t. valid_date (tr_server_received_at t)} newer_first"
  unfolding preorder_on_set_def
proof (intro conjI ballI impI)
  fix a b :: telemetry_row
  assume "a \<in> {t. valid_date (tr_server_received_at t)}" "b \<in> {t. valid_date (tr_server_received_at t)}"
  then obtain s u where "tr_server_received_at a = Date s" "tr_server_received_at b = Date u"
    by (auto simp: valid_date_iff)
  then show "newer_first a b \<or> newer_first b a" by (auto simp: newer_first_def)
next
  fix a b c assume "newer_first a b" "newer_first b c"
  then show "newer_first a c" using date_lt_trans by (auto simp: newer_first_def)
qed

lemma before_cursor_asym: "before_cursor a b \<Longrightarrow> \<not> before_cursor b a"
  by (cases "tr_server_received_at a"; cases "tr_server_received_at b") (auto simp: before_cursor_def)

lemma strictly_newer:
  "sorted_wrt newer_first ts \<Longrightarrow> distinct (map tr_id ts) \<Longrightarrow> sorted_wrt before_cursor ts"
proof (induction ts)
  case (Cons t ts)
  have "before_cursor t u" if "u \<in> set ts" for u
  proof -
    have "newer_first t u" using Cons.prems that by simp
    moreover have "tr_id t \<notin> tr_id ` set ts" using Cons.prems by simp
    then have "tr_id u \<noteq> tr_id t" using that by (metis imageI)
    ultimately show ?thesis by (auto simp: newer_first_def before_cursor_def)
  qed
  with Cons show ?case by simp
qed simp

lemma sorted_rows:
  assumes "rows_ok ts"
  shows "sorted_wrt before_cursor (sort_by newer_first ts)"
proof -
  have sub: "set ts \<subseteq> {t. valid_date (tr_server_received_at t)}" using assms by (auto simp: rows_ok_def)
  have "sorted_wrt newer_first (sort_by newer_first ts)"
    by (rule sorted_wrt_sort_by [OF newer_first_preorder sub])
  moreover have "mset (map tr_id (sort_by newer_first ts)) = mset (map tr_id ts)" by simp
  then have "distinct (map tr_id (sort_by newer_first ts))"
    using assms unfolding rows_ok_def by (metis mset_eq_imp_distinct_iff)
  ultimately show ?thesis by (rule strictly_newer)
qed

section \<open>Readable rows\<close>

definition row_readable :: "db \<Rightarrow> telemetry_row \<Rightarrow> bool" where
  "row_readable d t \<longleftrightarrow> telemetry_row_ok t \<and> \<bar>tr_id t\<bar> \<le> max_safe_integer \<and>
     tr_gateway_uptime_ms t \<le> max_safe_integer \<and> gateway_with_id (tr_gateway_id t) d \<noteq> None"

definition monitor_row :: "bool \<Rightarrow> db \<Rightarrow> telemetry_row \<Rightarrow> monitoring_telemetry monitored" where
  "monitor_row raw d t =
     monitor_telemetry t (map_option gw_hardware_mac (gateway_with_id (tr_gateway_id t) d)) raw"

lemma safeNumber_Inr: "safeNumber v field = Inr n \<longleftrightarrow> n = v \<and> \<bar>v\<bar> \<le> max_safe_integer"
  by (auto simp: safeNumber_def)

lemma optionally_Inr:
  "optionally f v = Inr w \<longleftrightarrow> (case v of None \<Rightarrow> w = None | Some x \<Rightarrow> \<exists>y. f x = Inr y \<and> w = Some y)"
  by (auto simp: optionally_def res_bind_Inr split: option.splits)

lemma asIso_total: "valid_date v \<Longrightarrow> \<exists>s. asIso v = Inr s"
  using toISOString_valid [of v] by (auto simp: asIso_def)

lemma monitor_telemetry_id:
  "monitor_telemetry t mac raw = Inr m \<Longrightarrow> mo_id m = tr_id t \<and> mo_nodeId m = tr_node_id t \<and> mo_sequence m = tr_node_sequence t"
  by (auto simp: monitor_telemetry_def res_bind_Inr safeNumber_Inr split: option.splits)

lemma optional_number: "in_range_opt lo hi v \<Longrightarrow> - max_safe_integer \<le> lo \<Longrightarrow> hi \<le> max_safe_integer \<Longrightarrow>
    optionally (\<lambda>v. safeNumber v field) v = Inr v"
  by (auto simp: optionally_def in_range_opt_def safeNumber_def split: option.splits)

lemma u32_number: "is_u32 v \<Longrightarrow> safeNumber v field = Inr v"
  by (auto simp: is_u32_def safeNumber_def max_safe_integer_def UINT32_MAX_def)

lemma row_readable_total:
  assumes "row_readable d t"
  shows "\<exists>m. monitor_row raw d t = Inr m"
proof -
  from assms obtain g where g: "gateway_with_id (tr_gateway_id t) d = Some g" by (auto simp: row_readable_def)
  note ok = assms [unfolded row_readable_def telemetry_row_ok_def]
  obtain s where s: "asIso (tr_server_received_at t) = Inr s" using asIso_total ok by blast
  obtain r where r: "optionally asIso (tr_gateway_received_at t) = Inr r"
  proof -
    have "case tr_gateway_received_at t of None \<Rightarrow> True | Some g \<Rightarrow> valid_date g" using ok by blast
    then have "\<exists>r. optionally asIso (tr_gateway_received_at t) = Inr r"
      by (auto simp: optionally_def dest: asIso_total split: option.splits)
    then show ?thesis using that by blast
  qed
  have "optionally (\<lambda>v. safeNumber v ''raw distance'') (tr_raw_distance_mm t) = Inr (tr_raw_distance_mm t)"
    "optionally (\<lambda>v. safeNumber v ''accepted distance'') (tr_accepted_distance_mm t) = Inr (tr_accepted_distance_mm t)"
    "optionally (\<lambda>v. safeNumber v ''reference distance'') (tr_reference_distance_mm t) = Inr (tr_reference_distance_mm t)"
    using ok by (auto intro!: optional_number simp: max_safe_integer_def)
  moreover have "safeNumber (tr_id t) ''telemetry id'' = Inr (tr_id t)"
    "safeNumber (tr_gateway_uptime_ms t) ''Gateway uptime'' = Inr (tr_gateway_uptime_ms t)"
    using ok by (auto simp: safeNumber_def)
  ultimately show ?thesis
    using ok s r g by (simp add: monitor_row_def monitor_telemetry_def u32_number)
qed

lemma rows_readable_total:
  "\<forall>t\<in>set ts. row_readable d t \<Longrightarrow> \<exists>ms. traverse (monitor_row raw d) ts = Inr ms"
  using traverse_total [of ts "monitor_row raw d"] row_readable_total by blast

lemma monitor_rows_ids: "traverse (monitor_row raw d) ts = Inr ms \<Longrightarrow> map mo_id ms = map tr_id ts"
  by (induction ts arbitrary: ms) (auto simp: res_bind_Inr monitor_row_def dest: monitor_telemetry_id)

lemma traverse_take: "traverse f xs = Inr ys \<Longrightarrow> traverse f (take n xs) = Inr (take n ys)"
  by (simp add: traverse_Inr list_all2_takeI)

lemma traverse_drop: "traverse f xs = Inr ys \<Longrightarrow> traverse f (drop n xs) = Inr (drop n ys)"
  by (simp add: traverse_Inr list_all2_dropI)

section \<open>Pages\<close>

text \<open>A client that follows the cursors: \<open>None\<close> when a page fails or the fuel runs out.\<close>

fun all_pages ::
  "nat \<Rightarrow> (string \<Rightarrow> js_date) \<Rightarrow> nat \<Rightarrow> string \<Rightarrow> history_params \<Rightarrow> db \<Rightarrow> monitoring_telemetry list option" where
  "all_pages 0 dateParse maximumLimit nodeId p d = None"
| "all_pages (Suc fuel) dateParse maximumLimit nodeId p d =
     (case monitor_history dateParse maximumLimit nodeId p d of
        Inl e \<Rightarrow> None
      | Inr page \<Rightarrow>
          (case pg_nextBeforeId page of
             None \<Rightarrow> Some (pg_items page)
           | Some b \<Rightarrow> map_option ((@) (pg_items page))
               (all_pages fuel dateParse maximumLimit nodeId (p\<lparr>hp_beforeId := Some b\<rparr>) d)))"

definition in_period :: "string \<Rightarrow> js_date option \<Rightarrow> js_date option \<Rightarrow> telemetry_row \<Rightarrow> bool" where
  "in_period nodeId since until t \<longleftrightarrow> tr_node_id t = nodeId \<and>
     (case since of None \<Rightarrow> True | Some f \<Rightarrow> date_le f (tr_server_received_at t)) \<and>
     (case until of None \<Rightarrow> True | Some u \<Rightarrow> date_le (tr_server_received_at t) u)"

definition period_rows :: "string \<Rightarrow> js_date option \<Rightarrow> js_date option \<Rightarrow> db \<Rightarrow> telemetry_row list" where
  "period_rows nodeId since until d = sort_by newer_first (filter (in_period nodeId since until) (db_telemetry d))"

lemma rows_ok_filter: "rows_ok ts \<Longrightarrow> rows_ok (filter P ts)"
  by (auto simp: rows_ok_def distinct_map_filter)

lemma find_row:
  assumes "rows_ok ts" and "c \<in> set ts" and "P c"
  shows "find (\<lambda>x. P x \<and> tr_id x = tr_id c) ts = Some c"
proof -
  have "inj_on tr_id (set ts)" using assms(1) by (simp add: rows_ok_def distinct_map)
  then have "x = c" if "x \<in> set ts" "tr_id x = tr_id c" for x using that assms(2) by (simp add: inj_on_def)
  then show ?thesis using assms(2,3) by (induction ts) auto
qed

text \<open>The rows after a cursor are those after its position in the whole list of the period.\<close>

lemma history_rows_at:
  fixes nodeId since until
  assumes "rows_ok (db_telemetry d)" and "\<forall>t\<in>set (db_telemetry d). gateway_with_id (tr_gateway_id t) d \<noteq> None"
  defines "L \<equiv> period_rows nodeId since until d"
  shows "history_rows nodeId \<lparr> hq_limit = n, hq_beforeId = None, hq_from = since, hq_to = until, hq_includeRaw = raw \<rparr> d
      = take n L"
    and "k < length L \<Longrightarrow> history_rows nodeId \<lparr> hq_limit = n, hq_beforeId = Some (tr_id (L ! k)), hq_from = since,
      hq_to = until, hq_includeRaw = raw \<rparr> d = take n (drop (Suc k) L)"
proof -
  have base: "filter (history_selects nodeId \<lparr> hq_limit = n, hq_beforeId = None, hq_from = since, hq_to = until,
      hq_includeRaw = raw \<rparr> d) (db_telemetry d) = filter (in_period nodeId since until) (db_telemetry d)"
    using assms(2) by (intro filter_cong) (auto simp: history_selects_def in_period_def)
  then show "history_rows nodeId \<lparr> hq_limit = n, hq_beforeId = None, hq_from = since, hq_to = until,
      hq_includeRaw = raw \<rparr> d = take n L"
    by (simp add: history_rows_def L_def period_rows_def)
  assume k: "k < length L"
  let ?c = "L ! k"
  have "?c \<in> set L" using k by simp
  then have c: "?c \<in> set (db_telemetry d)" "tr_node_id ?c = nodeId"
    by (auto simp: L_def period_rows_def in_period_def)
  have found: "find (\<lambda>x. tr_node_id x = nodeId \<and> tr_id x = tr_id ?c) (db_telemetry d) = Some ?c"
    using find_row [OF assms(1) c(1), of "\<lambda>x. tr_node_id x = nodeId"] c(2) by simp
  have "filter (history_selects nodeId \<lparr> hq_limit = n, hq_beforeId = Some (tr_id ?c), hq_from = since, hq_to = until,
      hq_includeRaw = raw \<rparr> d) (db_telemetry d) =
      filter (before_cursor ?c) (filter (in_period nodeId since until) (db_telemetry d))"
    unfolding filter_filter
    using assms(2) by (intro filter_cong) (auto simp: history_selects_def in_period_def found)
  moreover have "sort_by newer_first (filter (before_cursor ?c) (filter (in_period nodeId since until) (db_telemetry d))) =
      filter (before_cursor ?c) L"
    unfolding L_def period_rows_def
    using assms(1) by (intro filter_sort_by [OF newer_first_preorder, symmetric]) (auto simp: rows_ok_def)
  moreover have "filter (before_cursor ?c) L = drop (Suc k) L"
    using sorted_rows [OF rows_ok_filter [OF assms(1)]] before_cursor_asym k
    unfolding L_def period_rows_def by (intro filter_after) auto
  ultimately show "history_rows nodeId \<lparr> hq_limit = n, hq_beforeId = Some (tr_id ?c), hq_from = since,
      hq_to = until, hq_includeRaw = raw \<rparr> d = take n (drop (Suc k) L)"
    by (simp add: history_rows_def)
qed

lemma monitor_getNode_total:
  assumes "dict_get (db_nodes d) nodeId = Some n" and "valid_date (nd_first_seen_at n)" and "valid_date (nd_last_seen_at n)"
    and "\<forall>t\<in>set (db_telemetry d). row_readable d t"
  shows "\<exists>s. monitor_getNode nodeId d = Inr s"
proof -
  have "\<exists>m. (case node_telemetry (nd_node_id n) d of [] \<Rightarrow> Inr None
      | t # _ \<Rightarrow> res_bind (monitor_telemetry t (map_option gw_hardware_mac (gateway_with_id (tr_gateway_id t) d)) False)
          (\<lambda>m. Inr (Some m))) = Inr m"
  proof (cases "node_telemetry (nd_node_id n) d")
    case (Cons t ts)
    have "set (node_telemetry (nd_node_id n) d) \<subseteq> set (db_telemetry d)" by (auto simp: node_telemetry_def)
    with Cons assms(4) obtain m where "monitor_row False d t = Inr m" using row_readable_total by fastforce
    with Cons show ?thesis by (simp add: monitor_row_def)
  qed simp
  with asIso_total [OF assms(2)] asIso_total [OF assms(3)] show ?thesis
    by (auto simp: monitor_getNode_def find_node_def assms(1) optionally_def monitor_node_def)
qed

lemma monitor_history_page:
  assumes "rows_ok (db_telemetry d)" and "\<forall>t\<in>set (db_telemetry d). row_readable d t"
    and "monitor_getNode nodeId d = Inr s" and "monitor_limit maximumLimit (hp_limit p) = Inr l" and "0 < l"
    and "map_option dateParse (hp_from p) = since" and "map_option dateParse (hp_to p) = until"
    and "since \<noteq> Some InvalidDate" and "until \<noteq> Some InvalidDate"
    and "\<not> (case (since, until) of (Some f, Some u) \<Rightarrow> date_lt u f | _ \<Rightarrow> False)"
    and "traverse (monitor_row (hp_includeRaw p = Some True) d) (period_rows nodeId since until d) = Inr ms"
    and "k \<le> length ms" and "hp_beforeId p = (if k = 0 then None else Some (mo_id (ms ! (k - 1))))"
  shows "monitor_history dateParse maximumLimit nodeId p d = Inr \<lparr> pg_nodeId = nodeId, pg_items = take l (drop k ms),
    pg_nextBeforeId = (if k + l \<le> length ms then Some (mo_id (ms ! (k + l - 1))) else None) \<rparr>"
proof -
  let ?L = "period_rows nodeId since until d" and ?raw = "hp_includeRaw p = Some True"
  have gateways: "\<forall>t\<in>set (db_telemetry d). gateway_with_id (tr_gateway_id t) d \<noteq> None"
    using assms(2) by (auto simp: row_readable_def)
  have ids: "map mo_id ms = map tr_id ?L" by (rule monitor_rows_ids [OF assms(11)])
  then have len: "length ms = length ?L" by (metis length_map)
  have "history_rows nodeId \<lparr> hq_limit = l, hq_beforeId = hp_beforeId p, hq_from = since, hq_to = until,
      hq_includeRaw = ?raw \<rparr> d = take l (drop k ?L)"
  proof (cases k)
    case 0
    then show ?thesis using history_rows_at(1) [OF assms(1) gateways] assms(13) by simp
  next
    case (Suc j)
    then have j: "j < length ?L" using assms(12) len by simp
    moreover have "mo_id (ms ! j) = tr_id (?L ! j)" using ids j len by (metis nth_map)
    ultimately show ?thesis using history_rows_at(2) [OF assms(1) gateways j] assms(13) Suc by simp
  qed
  moreover have "traverse (monitor_row ?raw d) (take l (drop k ?L)) = Inr (take l (drop k ms))"
    by (intro traverse_take traverse_drop assms(11))
  ultimately have items: "history nodeId \<lparr> hq_limit = l, hq_beforeId = hp_beforeId p, hq_from = since, hq_to = until,
      hq_includeRaw = ?raw \<rparr> d = Inr (take l (drop k ms))"
    using assms(8,9) by (simp add: history_def monitor_row_def [abs_def])
  have "last (take l (drop k ms)) = ms ! (k + l - 1)" if "k + l \<le> length ms"
  proof -
    have "length ms - k = l \<Longrightarrow> length ms = k + l" using that by simp
    then show ?thesis using that assms(5) by (subst last_conv_nth) (auto simp: min_def)
  qed
  then have next_page: "(if length (take l (drop k ms)) = l \<and> take l (drop k ms) \<noteq> [] then Some (mo_id (last (take l (drop k ms)))) else None)
      = (if k + l \<le> length ms then Some (mo_id (ms ! (k + l - 1))) else None)"
    using assms(5,12) by auto
  show ?thesis
    unfolding monitor_history_def assms(4) res_bind.simps Let_def assms(6,7) using assms(10)
    by (simp only: if_False assms(3) res_bind.simps items next_page)
qed

lemma pages_from:
  assumes "rows_ok (db_telemetry d)" and "\<forall>t\<in>set (db_telemetry d). row_readable d t"
    and "monitor_getNode nodeId d = Inr s" and "0 < l"
    and "since \<noteq> Some InvalidDate" and "until \<noteq> Some InvalidDate"
    and "\<not> (case (since, until) of (Some f, Some u) \<Rightarrow> date_lt u f | _ \<Rightarrow> False)"
    and "traverse (monitor_row raw d) (period_rows nodeId since until d) = Inr ms"
  shows "k \<le> length ms \<Longrightarrow> hp_beforeId p = (if k = 0 then None else Some (mo_id (ms ! (k - 1)))) \<Longrightarrow>
    monitor_limit maximumLimit (hp_limit p) = Inr l \<Longrightarrow> map_option dateParse (hp_from p) = since \<Longrightarrow>
    map_option dateParse (hp_to p) = until \<Longrightarrow> (hp_includeRaw p = Some True) = raw \<Longrightarrow> length ms - k < fuel \<Longrightarrow>
    all_pages fuel dateParse maximumLimit nodeId p d = Some (drop k ms)"
proof (induction fuel arbitrary: k p)
  case (Suc fuel)
  note page = monitor_history_page [OF assms(1-3) Suc.prems(3) assms(4) Suc.prems(4,5) assms(5-7), of ms k,
    unfolded Suc.prems(6), OF assms(8) Suc.prems(1,2)]
  show ?case
  proof (cases "k + l \<le> length ms")
    case True
    have "all_pages fuel dateParse maximumLimit nodeId (p\<lparr>hp_beforeId := Some (mo_id (ms ! (k + l - 1)))\<rparr>) d =
        Some (drop (k + l) ms)"
      using True Suc.prems assms(4) by (intro Suc.IH) auto
    moreover have "take l (drop k ms) @ drop (k + l) ms = drop k ms"
      by (metis add.commute append_take_drop_id drop_drop)
    ultimately show ?thesis using page True by simp
  next
    case False
    then have "take l (drop k ms) = drop k ms" by simp
    with page False show ?thesis by simp
  qed
qed simp

section \<open>The store that ingestion keeps\<close>

definition telemetry_store_ok :: "db \<Rightarrow> bool" where
  "telemetry_store_ok d \<longleftrightarrow> dict_ok (db_gateways d) \<and> 0 < db_telemetrySeq d \<and> distinct (map tr_id (db_telemetry d)) \<and>
     (\<forall>t\<in>set (db_telemetry d). telemetry_row_ok t \<and> 0 < tr_id t \<and> tr_id t < db_telemetrySeq d \<and>
        tr_gateway_uptime_ms t \<le> max_safe_integer \<and> gateway_with_id (tr_gateway_id t) d \<noteq> None) \<and>
     (\<forall>n\<in>set (dict_values (db_nodes d)). valid_date (nd_first_seen_at n) \<and> valid_date (nd_last_seen_at n))"

lemma gateway_known: "gateway_with_id i d \<noteq> None \<longleftrightarrow> (\<exists>g\<in>set (dict_values (db_gateways d)). gw_id g = i)"
  by (auto simp: gateway_with_id_def find_None_iff)

lemma dict_values_get: "dict_ok m \<Longrightarrow> v \<in> set (dict_values m) \<longleftrightarrow> (\<exists>k. dict_get m k = Some v)"
  by (force simp: dict_values_def dict_get_eq)

lemma gateway_known_get:
  "dict_ok (db_gateways d) \<Longrightarrow>
     gateway_with_id i d \<noteq> None \<longleftrightarrow> (\<exists>k g. dict_get (db_gateways d) k = Some g \<and> gw_id g = i)"
  unfolding gateway_known Bex_def using dict_values_get [of "db_gateways d"] by auto

lemma dict_values_set: "set (dict_values (dict_set k v m)) \<subseteq> insert v (set (dict_values m))"
  using set_dict_set [of k v m] by (auto simp: dict_values_def)

lemma dict_get_values: "dict_get m k = Some v \<Longrightarrow> v \<in> set (dict_values m)"
  by (force simp: dict_values_def dest: dict_get_in)

lemma telemetry_store_ok_seq:
  "telemetry_store_ok d \<Longrightarrow> db_telemetrySeq d \<le> n \<Longrightarrow> telemetry_store_ok (d\<lparr>db_gatewaySeq := m, db_telemetrySeq := n\<rparr>)"
  by (force simp: telemetry_store_ok_def gateway_with_id_def)

lemma upsertGateway_store:
  assumes "upsertGateway g srv d = (r, d')" and "telemetry_store_ok d"
  shows "telemetry_store_ok d' \<and> db_telemetrySeq d' = db_telemetrySeq d \<and>
    (\<forall>gid. r = Inr gid \<longrightarrow> gateway_with_id gid d' \<noteq> None \<and> valid_date srv)"
proof (cases r)
  case (Inl e)
  with assms show ?thesis
    using telemetry_store_ok_seq [OF assms(2) order_refl, of "db_gatewaySeq d + 1"]
    by (auto simp: upsertGateway_def Let_def split: if_splits)
next
  case (Inr gid)
  let ?mac = "to_upper (gd_hardwareMac g)"
  let ?row = "upserted_gateway (db_gatewaySeq d) g srv (dict_get (db_gateways d) ?mac)"
  have d': "d' = d\<lparr>db_gatewaySeq := db_gatewaySeq d + 1, db_gateways := dict_set ?mac ?row (db_gateways d)\<rparr>"
    and gid: "gid = gw_id ?row" and srv: "valid_date srv"
    using assms(1) Inr by (auto simp: upsertGateway_def Let_def split: if_splits)
  have ok: "dict_ok (db_gateways d)" "dict_ok (db_gateways d')"
    using assms(2) by (auto simp: telemetry_store_ok_def d' dict_ok_set)
  have old: "gateway_with_id i d' \<noteq> None" if known: "gateway_with_id i d \<noteq> None" for i
  proof -
    obtain mac e where e: "dict_get (db_gateways d) mac = Some e" "gw_id e = i"
      using known [unfolded gateway_known_get [OF ok(1)]] by blast
    show ?thesis
    proof (cases "mac = ?mac")
      case True
      with e have "gw_id ?row = i" by (simp add: upserted_gateway_def)
      then show ?thesis unfolding gateway_known_get [OF ok(2)] by (auto simp: d' dict_get_set)
    next
      case False
      with e show ?thesis unfolding gateway_known_get [OF ok(2)] by (auto simp: d' dict_get_set)
    qed
  qed
  have "gateway_with_id gid d' \<noteq> None"
    unfolding gateway_known_get [OF ok(2)] by (auto simp: d' gid dict_get_set)
  moreover have "telemetry_store_ok d'" using assms(2) old ok(2) unfolding telemetry_store_ok_def by (simp add: d')
  ultimately show ?thesis using srv Inr by (simp add: d')
qed

lemma upsertNode_store:
  assumes "telemetry_store_ok d" and "valid_date srv"
  shows "telemetry_store_ok (snd (upsertNode n gid srv d))"
proof -
  obtain row where d': "snd (upsertNode n gid srv d) = d\<lparr>db_nodes := dict_set n row (db_nodes d)\<rparr>"
    and row: "valid_date (nd_first_seen_at row) \<and> valid_date (nd_last_seen_at row)"
    using assms dict_get_values [of "db_nodes d" n]
    by (cases "dict_get (db_nodes d) n") (auto simp: upsertNode_def Let_def telemetry_store_ok_def)
  show ?thesis
    using assms row dict_values_set [of n row "db_nodes d"] unfolding d' telemetry_store_ok_def
    by (auto simp: gateway_with_id_def)
qed

lemma insert_telemetry_store:
  assumes "telemetry_store_ok d" and "gateway_with_id gid d \<noteq> None" and "rc_gatewayUptimeMs (vr_reception x) \<le> max_safe_integer"
  shows "telemetry_store_ok (snd (insert_telemetry (\<lambda>i. telemetry_insert_row dp i gid g srv x) d))"
proof -
  let ?row = "telemetry_insert_row dp (db_telemetrySeq d) gid g srv x"
  have row: "tr_id ?row = db_telemetrySeq d" "tr_gateway_id ?row = gid"
    "tr_gateway_uptime_ms ?row = rc_gatewayUptimeMs (vr_reception x)"
    by (simp_all add: telemetry_insert_row_def Let_def)
  have next_seq: "telemetry_store_ok (d\<lparr>db_telemetrySeq := db_telemetrySeq d + 1\<rparr>)"
    using telemetry_store_ok_seq [OF assms(1), of "db_telemetrySeq d + 1" "db_gatewaySeq d"] by simp
  moreover have "telemetry_store_ok (d\<lparr>db_telemetrySeq := db_telemetrySeq d + 1, db_telemetry := db_telemetry d @ [?row]\<rparr>)"
    if "telemetry_row_ok ?row"
  proof -
    have "db_telemetrySeq d \<notin> tr_id ` set (db_telemetry d)" using assms(1) by (auto simp: telemetry_store_ok_def)
    then show ?thesis
      using assms that next_seq row unfolding telemetry_store_ok_def by (auto simp: gateway_with_id_def)
  qed
  ultimately show ?thesis by (simp add: insert_telemetry_def Let_def)
qed

lemma persist_reading_store:
  assumes "persist_reading dp gid g srv x d = (r, d')" and "telemetry_store_ok d" and "valid_date srv"
    and "gateway_with_id gid d \<noteq> None" and "rc_gatewayUptimeMs (vr_reception x) \<le> max_safe_integer"
  shows "telemetry_store_ok d' \<and> gateway_with_id gid d' \<noteq> None \<and> db_telemetrySeq d \<le> db_telemetrySeq d'"
proof -
  define d1 where "d1 = snd (upsertNode (t3_nodeId (vr_decoded x)) gid srv d)"
  have d1: "upsertNode (t3_nodeId (vr_decoded x)) gid srv d = (Inr (), d1)" "db_gateways d1 = db_gateways d"
    "db_telemetrySeq d1 = db_telemetrySeq d"
    by (simp_all add: d1_def upsertNode_def Let_def)
  have ok: "telemetry_store_ok d1" unfolding d1_def by (rule upsertNode_store [OF assms(2,3)])
  have known: "gateway_with_id gid d1 \<noteq> None" using assms(4) d1(2) by (simp add: gateway_with_id_def)
  obtain s d2 where i: "insert_telemetry (\<lambda>i. telemetry_insert_row dp i gid g srv x) d1 = (s, d2)" by fastforce
  have "d' = d2"
    using assms(1) by (auto simp: persist_reading_def db_bind_def d1 i db_return_def db_lift_def split: sum.splits option.splits)
  moreover have "db_gateways d2 = db_gateways d1" "db_telemetrySeq d1 \<le> db_telemetrySeq d2"
    using i by (auto simp: insert_telemetry_def Let_def split: if_splits)
  ultimately show ?thesis
    using insert_telemetry_store [OF ok known assms(5), of dp g srv] i known d1(3) by (simp add: gateway_with_id_def)
qed

lemma persistBatch_store:
  assumes "persistBatch dp g xs srv d = (r, d')" and "telemetry_store_ok d"
    and "\<And>x. x \<in> set xs \<Longrightarrow> rc_gatewayUptimeMs (vr_reception x) \<le> max_safe_integer"
  shows "telemetry_store_ok d'"
proof (cases "xs = []")
  case True
  with assms(1,2) show ?thesis by (simp add: persistBatch_def db_return_def)
next
  case False
  define work where "work = db_bind (upsertGateway g srv) (\<lambda>gid. for_each (persist_reading dp gid g srv) xs)"
  obtain s d2 where w: "work d = (s, d2)" by fastforce
  obtain q d1 where g: "upsertGateway g srv d = (q, d1)" by fastforce
  note gw = upsertGateway_store [OF g assms(2)]
  have "telemetry_store_ok d2 \<and> db_telemetrySeq d \<le> db_telemetrySeq d2"
  proof (cases q)
    case (Inl e)
    with w g have "d2 = d1" by (simp add: work_def db_bind_def)
    with gw show ?thesis by simp
  next
    case (Inr gid)
    with w g have loop: "for_each (persist_reading dp gid g srv) xs d1 = (s, d2)" by (simp add: work_def db_bind_def)
    have "telemetry_store_ok d2 \<and> gateway_with_id gid d2 \<noteq> None \<and> db_telemetrySeq d1 \<le> db_telemetrySeq d2"
    proof (rule for_each_keeps [OF loop])
      show "telemetry_store_ok d1 \<and> gateway_with_id gid d1 \<noteq> None \<and> db_telemetrySeq d1 \<le> db_telemetrySeq d1"
        using gw Inr by simp
    next
      fix x t e1 e2
      assume x: "x \<in> set xs" "persist_reading dp gid g srv x e1 = (t, e2)"
        and P: "telemetry_store_ok e1 \<and> gateway_with_id gid e1 \<noteq> None \<and> db_telemetrySeq d1 \<le> db_telemetrySeq e1"
      show "telemetry_store_ok e2 \<and> gateway_with_id gid e2 \<noteq> None \<and> db_telemetrySeq d1 \<le> db_telemetrySeq e2"
        using persist_reading_store [OF x(2)] P gw Inr assms(3) [OF x(1)] by auto
    qed
    with gw show ?thesis by simp
  qed
  moreover have "transaction work d = (r, d')" using assms(1) False by (simp add: persistBatch_def work_def)
  ultimately show ?thesis
    using w telemetry_store_ok_seq [OF assms(2), of "db_telemetrySeq d2" "db_gatewaySeq d2"]
    by (cases s) (auto simp: transaction_def)
qed

text \<open>A recomputation writes the sensor states only.\<close>

definition states_only :: "'a action \<Rightarrow> bool" where
  "states_only m \<longleftrightarrow> (\<forall>d. \<exists>ss. snd (m d) = d\<lparr>db_states := ss\<rparr>)"

lemma states_only_bind:
  assumes "states_only m" and "\<And>x. states_only (f x)"
  shows "states_only (db_bind m f)"
  unfolding states_only_def
proof
  fix d
  obtain r ss where m: "m d = (r, d\<lparr>db_states := ss\<rparr>)"
    using assms(1) unfolding states_only_def by (metis prod.collapse)
  show "\<exists>ss. snd (db_bind m f d) = d\<lparr>db_states := ss\<rparr>"
  proof (cases r)
    case (Inr x)
    obtain ss' where "snd (f x (d\<lparr>db_states := ss\<rparr>)) = d\<lparr>db_states := ss\<rparr>\<lparr>db_states := ss'\<rparr>"
      using assms(2) unfolding states_only_def by blast
    then show ?thesis by (auto simp: db_bind_def m Inr)
  qed (auto simp: db_bind_def m)
qed

lemma states_unchanged [simp]: "\<exists>ss. (d :: db) = d\<lparr>db_states := ss\<rparr>"
  by (intro exI [of _ "db_states d"]) simp

lemma states_only_pure: "(\<And>d. snd (m d) = d) \<Longrightarrow> states_only m"
  by (simp add: states_only_def)

lemma states_only_return: "states_only (db_return x)" "states_only (db_fail e)" "states_only (db_lift r)" "states_only (db_read g)"
  by (auto intro!: states_only_pure simp: db_return_def db_fail_def db_lift_def db_read_def)

lemma states_only_transaction:
  assumes "states_only m"
  shows "states_only (transaction m)"
  unfolding states_only_def
proof
  fix d
  obtain r ss where m: "m d = (r, d\<lparr>db_states := ss\<rparr>)"
    using assms unfolding states_only_def by (metis prod.collapse)
  show "\<exists>ss. snd (transaction m d) = d\<lparr>db_states := ss\<rparr>"
    by (cases r) (auto simp: transaction_def m)
qed

lemma recompute_states_only: "states_only (recomputeNode clock now n)"
proof -
  have upsert: "states_only (upsertState clock w)" for w
    unfolding upsertState_def
    by (intro states_only_bind states_only_return)
      (auto simp: states_only_def db_fail_def db_lift_def split: prod.splits)
  have "states_only (derive_and_store clock now n dep)" for dep
    unfolding derive_and_store_def findStateForUpdate_def findLatestTelemetry_def
    by (intro states_only_bind states_only_return upsert; simp add: states_only_return split: option.split sum.split)
      (intro states_only_bind states_only_return upsert allI impI)
  then show ?thesis
    unfolding recomputeNode_def findDeploymentForUpdate_def
    by (intro states_only_bind states_only_return states_only_transaction;
        simp add: states_only_return split: option.split)
      (intro states_only_bind states_only_return allI impI)
qed

lemma recompute_nodes_store: "telemetry_store_ok (recompute_nodes clock now ns d) \<longleftrightarrow> telemetry_store_ok d"
proof (induction ns arbitrary: d)
  case (Cons n ns)
  obtain ss where "snd (recomputeNode clock now n d) = d\<lparr>db_states := ss\<rparr>"
    using recompute_states_only unfolding states_only_def by blast
  then have "telemetry_store_ok (snd (recomputeNode clock now n d)) \<longleftrightarrow> telemetry_store_ok d"
    by (simp add: telemetry_store_ok_def gateway_with_id_def)
  with Cons show ?case by (simp add: recompute_nodes_def)
qed (simp add: recompute_nodes_def)

lemma ingest_store_cases:
  assumes "ingest dp maximumBatchSize clock now srv request d = (r, d')"
  obtains "d' = d"
  | p d1 ns where "persistBatch dp ((rq_gateway request)\<lparr>gd_hardwareMac := to_upper (gd_hardwareMac (rq_gateway request))\<rparr>)
      (valid_from 0 (rq_readings request)) srv d = (p, d1)" and "d' = recompute_nodes clock now ns d1"
proof -
  have v: "fst (foldl collect_reading ([], []) (enumerate 0 (rq_readings request))) =
      valid_from 0 (rq_readings request)" by (simp add: collect_valid)
  have "recompute_nodes clock now [] d1 = d1" for d1 by (simp add: recompute_nodes_def)
  with assms v that show thesis
    by (auto simp: ingest_def Let_def split: if_splits prod.splits sum.splits) metis+
qed

section \<open>Properties\<close>

text \<open>
  C28: Ingestion keeps the store readable, whatever the request, also when it fails: the identifiers of
  telemetry rows stay positive, distinct and below the serial counter, every row passes the checks of its table
  and names a known gateway, and the times of the nodes stay valid.
\<close>

theorem ingest_keeps_store:
  assumes "telemetry_store_ok d" and "\<forall>r\<in>set (rq_readings request). rc_gatewayUptimeMs r \<le> max_safe_integer"
  shows "telemetry_store_ok (snd (ingest dateParse maximumBatchSize clock now serverReceivedAt request d))"
proof -
  obtain r d' where run: "ingest dateParse maximumBatchSize clock now serverReceivedAt request d = (r, d')" by fastforce
  from run show ?thesis
  proof (cases rule: ingest_store_cases)
    case (2 p d1 ns)
    have "rc_gatewayUptimeMs (vr_reception x) \<le> max_safe_integer" if "x \<in> set (valid_from 0 (rq_readings request))" for x
      using valid_from_nth [OF that] assms(2) by (auto simp: nth_mem)
    then have "telemetry_store_ok d1" by (rule persistBatch_store [OF 2(1) assms(1)])
    with 2(2) run show ?thesis by (simp add: recompute_nodes_store)
  qed (simp add: run assms(1))
qed

definition empty_db :: db where
  "empty_db = \<lparr> db_gateways = [], db_gatewaySeq = 1, db_nodes = [], db_telemetry = [], db_telemetrySeq = 1,
     db_deployments = [], db_states = [] \<rparr>"

lemma empty_store_ok: "telemetry_store_ok empty_db"
  by (simp add: telemetry_store_ok_def empty_db_def dict_ok_Nil dict_values_def)

theorem ingest_keeps_store_witness:
  "telemetry_store_ok (snd (ingest (\<lambda>_. InvalidDate) 50 (Date 1) (Date 2) (Date 3) sample_request empty_db))"
  by (rule ingest_keeps_store [OF empty_store_ok])
    (auto simp: sample_request_def sample_reading_def max_safe_integer_def)

text \<open>
  C29: Following the cursors of a node's history returns every reading of the period once: from a store
  that ingestion keeps, for any limit on the page, the client ends with the identifiers of exactly the
  node's readings that the server received in the period, no two the same, newest first, and it needs
  no more pages than there are readings, and one.
\<close>

theorem history_pages_complete:
  assumes "telemetry_store_ok d" and "db_telemetrySeq d \<le> max_safe_integer"
    and "dict_get (db_nodes d) nodeId = Some n"
    and "hp_limit p = Some l" and "0 < l" and "l \<le> maximumLimit" and "hp_beforeId p = None"
    and "map_option dateParse (hp_from p) = since" and "map_option dateParse (hp_to p) = until"
    and "since \<noteq> Some InvalidDate" and "until \<noteq> Some InvalidDate"
    and "\<And>f u. since = Some f \<Longrightarrow> until = Some u \<Longrightarrow> date_le f u"
  shows "\<exists>items. all_pages (Suc (length (db_telemetry d))) dateParse maximumLimit nodeId p d = Some items \<and>
    map mo_id items = map tr_id (period_rows nodeId since until d) \<and>
    distinct (map mo_id items) \<and>
    set (map mo_id items) = tr_id ` {t \<in> set (db_telemetry d). in_period nodeId since until t} \<and>
    sorted_wrt before_cursor (period_rows nodeId since until d)"
proof -
  let ?L = "period_rows nodeId since until d"
  have readable: "\<forall>t\<in>set (db_telemetry d). row_readable d t"
    using assms(1,2) by (force simp: telemetry_store_ok_def row_readable_def)
  have rows: "rows_ok (db_telemetry d)" using assms(1) by (auto simp: telemetry_store_ok_def rows_ok_def telemetry_row_ok_def)
  have times: "valid_date (nd_first_seen_at n)" "valid_date (nd_last_seen_at n)"
    using assms(1) dict_get_values [OF assms(3)] by (auto simp: telemetry_store_ok_def)
  have "set ?L \<subseteq> set (db_telemetry d)" by (auto simp: period_rows_def)
  with readable obtain ms where ms: "traverse (monitor_row (hp_includeRaw p = Some True) d) ?L = Inr ms"
    using rows_readable_total [of ?L d "hp_includeRaw p = Some True"] by blast
  obtain s where node: "monitor_getNode nodeId d = Inr s"
    using monitor_getNode_total [OF assms(3) times readable] by blast
  have ids: "map mo_id ms = map tr_id ?L" by (rule monitor_rows_ids [OF ms])
  have "length ms = length ?L" using ids by (metis length_map)
  then have short: "length ms \<le> length (db_telemetry d)"
    using length_filter_le [of "in_period nodeId since until" "db_telemetry d"] by (simp add: period_rows_def)
  have order: "\<not> (case (since, until) of (Some f, Some u) \<Rightarrow> date_lt u f | _ \<Rightarrow> False)"
  proof (cases since; cases until)
    fix f u assume "since = Some f" "until = Some u"
    then show ?thesis using assms(12) [of f u] date_lt_le_trans [of u f u] by auto
  qed auto
  have "all_pages (Suc (length (db_telemetry d))) dateParse maximumLimit nodeId p d = Some (drop 0 ms)"
    using short assms(4-9)
    by (intro pages_from [OF rows readable node assms(5,10,11) order ms]) (auto simp: monitor_limit_def)
  moreover have "distinct (map mo_id ms)"
  proof -
    have "mset (map tr_id ?L) = mset (map tr_id (filter (in_period nodeId since until) (db_telemetry d)))"
      by (simp add: period_rows_def)
    then show ?thesis
      using rows_ok_filter [OF rows] unfolding ids rows_ok_def by (metis mset_eq_imp_distinct_iff)
  qed
  moreover have "set (map mo_id ms) = tr_id ` {t \<in> set (db_telemetry d). in_period nodeId since until t}"
    unfolding ids by (auto simp: period_rows_def)
  moreover have "sorted_wrt before_cursor ?L"
    unfolding period_rows_def by (rule sorted_rows [OF rows_ok_filter [OF rows]])
  ultimately show ?thesis unfolding drop_0 using ids by (intro exI [of _ ms]) blast
qed

definition history_row :: "int \<Rightarrow> int \<Rightarrow> telemetry_row" where
  "history_row i t = sample_row\<lparr>tr_id := i, tr_server_received_at := Date t, tr_packet_length := 64,
     tr_raw_payload := sample_packet\<rparr>"

definition history_db :: db where
  "history_db = empty_db\<lparr>
     db_gateways := [(''AA'', \<lparr> gw_id = 1, gw_hardware_mac = ''AA'', gw_logical_gateway_id = ''gw-1'',
       gw_firmware_version = ''1.0'', gw_first_seen_at = Date 1, gw_last_seen_at = Date 1 \<rparr>)],
     db_nodes := [(''node-1'', \<lparr> nd_node_id = ''node-1'', nd_first_seen_at = Date 1, nd_last_seen_at = Date 5,
       nd_last_gateway_id = 1 \<rparr>)],
     db_telemetry := [history_row 7 5000, history_row 8 3000, history_row 9 5000], db_telemetrySeq := 10\<rparr>"

lemma history_store_ok: "telemetry_store_ok history_db"
  by (auto simp: telemetry_store_ok_def history_db_def empty_db_def history_row_def sample_row_def dict_ok_def dict_values_def
      gateway_with_id_def telemetry_row_ok_def is_u32_def is_u16_def is_u8_def in_range_opt_def max_safe_integer_def
      sample_packet_def)

lemma history_db_period: "map tr_id (period_rows ''node-1'' None None history_db) = [9, 7, 8]"
  by code_simp

theorem history_pages_complete_witness:
  "\<exists>items. all_pages (Suc (length (db_telemetry history_db))) (\<lambda>_. InvalidDate) 1000 ''node-1''
     \<lparr> hp_limit = Some 2, hp_beforeId = None, hp_from = None, hp_to = None, hp_includeRaw = None \<rparr> history_db = Some items \<and>
     map mo_id items = [9, 7, 8]"
proof -
  have "dict_get (db_nodes history_db) ''node-1'' = Some (snd (hd (db_nodes history_db)))"
    by (simp add: history_db_def dict_get_def)
  then show ?thesis
    using history_pages_complete [OF history_store_ok, of "''node-1''" "snd (hd (db_nodes history_db))"
        "\<lparr> hp_limit = Some 2, hp_beforeId = None, hp_from = None, hp_to = None, hp_includeRaw = None \<rparr>" 2 1000
        "\<lambda>_. InvalidDate" None None] history_db_period
    by (auto simp: history_db_def max_safe_integer_def)
qed

end
