(* ===== verification/Gateway_Registry.thy ===== *)
theory Gateway_Registry
  imports Iot_Monitoring
begin

text \<open>
  The registry of gateways that ingestion and heartbeats share: the table \<open>iot_gateways\<close>, whose
  keys are hardware addresses. The invariant is that serial numbers and logical identifiers belong to one
  address each.
\<close>

section \<open>The registry of gateways\<close>

definition gateways_ok :: "db \<Rightarrow> bool" where
  "gateways_ok d \<longleftrightarrow> dict_ok (db_gateways d) \<and>
     list_all (\<lambda>(mac, g). gw_hardware_mac g = mac \<and> 0 < gw_id g \<and> gw_id g < db_gatewaySeq d) (db_gateways d) \<and>
     0 < db_gatewaySeq d \<and> distinct (map gw_id (dict_values (db_gateways d))) \<and>
     distinct (map gw_logical_gateway_id (dict_values (db_gateways d)))"

lemma distinct_values:
  assumes "dict_ok m"
  shows "distinct (map f (dict_values m)) \<longleftrightarrow>
    (\<forall>k k' v v'. dict_get m k = Some v \<longrightarrow> dict_get m k' = Some v' \<longrightarrow> f v = f v' \<longrightarrow> k = k')"
proof -
  have d: "distinct m" "inj_on fst (set m)" using assms by (auto simp: dict_ok_def distinct_map)
  have "distinct (map f (dict_values m)) \<longleftrightarrow> inj_on (f \<circ> snd) (set m)"
    using d(1) by (simp add: dict_values_def distinct_map)
  also have "\<dots> \<longleftrightarrow> (\<forall>k k' v v'. (k, v) \<in> set m \<longrightarrow> (k', v') \<in> set m \<longrightarrow> f v = f v' \<longrightarrow> k = k')"
    using d(2) by (force simp: inj_on_def)
  finally show ?thesis by (simp add: dict_get_eq [OF assms])
qed

lemma gateways_ok_iff:
  "gateways_ok d \<longleftrightarrow> dict_ok (db_gateways d) \<and> 0 < db_gatewaySeq d \<and>
     (\<forall>m g. dict_get (db_gateways d) m = Some g \<longrightarrow> gw_hardware_mac g = m \<and> 0 < gw_id g \<and> gw_id g < db_gatewaySeq d) \<and>
     (\<forall>m m' g g'. dict_get (db_gateways d) m = Some g \<longrightarrow> dict_get (db_gateways d) m' = Some g' \<longrightarrow>
        gw_id g = gw_id g' \<or> gw_logical_gateway_id g = gw_logical_gateway_id g' \<longrightarrow> m = m')"
proof (cases "dict_ok (db_gateways d)")
  case True
  have "list_all (\<lambda>(mac, g). gw_hardware_mac g = mac \<and> 0 < gw_id g \<and> gw_id g < db_gatewaySeq d) (db_gateways d) \<longleftrightarrow>
      (\<forall>m g. dict_get (db_gateways d) m = Some g \<longrightarrow> gw_hardware_mac g = m \<and> 0 < gw_id g \<and> gw_id g < db_gatewaySeq d)"
    by (auto simp: list_all_iff dict_get_eq [OF True])
  then show ?thesis
    unfolding gateways_ok_def distinct_values [OF True] using True by (simp only: simp_thms) blast
qed (simp add: gateways_ok_def)

lemma logical_id_free_iff:
  "dict_ok gs \<Longrightarrow> logical_id_free gs mac logical \<longleftrightarrow>
     (\<forall>m g. dict_get gs m = Some g \<longrightarrow> gw_logical_gateway_id g = logical \<longrightarrow> m = mac)"
  by (auto simp: logical_id_free_def list_ex_iff dict_get_eq)

lemma gateways_ok_set:
  assumes "gateways_ok d" and "logical_id_free (db_gateways d) mac (gw_logical_gateway_id row)" and "gw_hardware_mac row = mac"
    and "gw_id row = (case dict_get (db_gateways d) mac of None \<Rightarrow> db_gatewaySeq d | Some e \<Rightarrow> gw_id e)"
    and "db_gatewaySeq d \<le> n" and "gw_id row < n"
  shows "gateways_ok (d\<lparr>db_gateways := dict_set mac row (db_gateways d), db_gatewaySeq := n\<rparr>)"
proof -
  note ok = assms(1) [unfolded gateways_ok_iff]
  have free: "m = mac" if "dict_get (db_gateways d) m = Some g" "gw_logical_gateway_id g = gw_logical_gateway_id row" for m g
    using assms(2) that ok logical_id_free_iff by blast
  have same_id: "m = mac" if "dict_get (db_gateways d) m = Some g" "gw_id g = gw_id row" for m g
    using that assms(4) ok by (cases "dict_get (db_gateways d) mac") fastforce+
  have "0 < gw_id row" using assms(4) ok by (cases "dict_get (db_gateways d) mac") auto
  let ?d = "d\<lparr>db_gateways := dict_set mac row (db_gateways d), db_gatewaySeq := n\<rparr>"
  have get: "dict_get (db_gateways ?d) m = Some g \<longleftrightarrow> (if m = mac then g = row else dict_get (db_gateways d) m = Some g)" for m g
    by (auto simp: dict_get_set)
  have key: "m = m'" if "dict_get (db_gateways ?d) m = Some g" "dict_get (db_gateways ?d) m' = Some g'"
    "gw_id g = gw_id g' \<or> gw_logical_gateway_id g = gw_logical_gateway_id g'" for m m' g g'
  proof (cases "m = mac"; cases "m' = mac")
    assume m: "m = mac" "m' \<noteq> mac"
    then have g: "g = row" "dict_get (db_gateways d) m' = Some g'" using that(1,2) get by simp_all
    then have "m' = mac" using that(3) free [OF g(2)] same_id [OF g(2)] by metis
    with m show ?thesis by simp
  next
    assume m: "m \<noteq> mac" "m' = mac"
    then have g: "g' = row" "dict_get (db_gateways d) m = Some g" using that(1,2) get by simp_all
    then have "m = mac" using that(3) free [OF g(2)] same_id [OF g(2)] by metis
    with m show ?thesis by simp
  next
    assume "m \<noteq> mac" "m' \<noteq> mac"
    then have "dict_get (db_gateways d) m = Some g" "dict_get (db_gateways d) m' = Some g'" using that get by simp_all
    then show ?thesis using that(3) ok by blast
  qed simp
  have own: "gw_hardware_mac g = m \<and> 0 < gw_id g \<and> gw_id g < n" if "dict_get (db_gateways ?d) m = Some g" for m g
  proof (cases "m = mac")
    case True
    with that get have "g = row" by simp
    with True \<open>0 < gw_id row\<close> assms(3,6) show ?thesis by simp
  next
    case False
    with that get have "dict_get (db_gateways d) m = Some g" by simp
    then have "gw_hardware_mac g = m \<and> 0 < gw_id g \<and> gw_id g < db_gatewaySeq d" using ok by blast
    then show ?thesis using assms(5) by simp
  qed
  show ?thesis
    unfolding gateways_ok_iff
  proof (intro conjI allI impI)
    show "dict_ok (db_gateways ?d)" "0 < db_gatewaySeq ?d" using ok assms(5) by (simp_all add: dict_ok_set)
  next
    fix m g assume "dict_get (db_gateways ?d) m = Some g"
    from own [OF this] show "gw_hardware_mac g = m" "0 < gw_id g" "gw_id g < db_gatewaySeq ?d" by simp_all
  next
    fix m m' g g'
    assume "dict_get (db_gateways ?d) m = Some g" "dict_get (db_gateways ?d) m' = Some g'"
      "gw_id g = gw_id g' \<or> gw_logical_gateway_id g = gw_logical_gateway_id g'"
    then show "m = m'" by (rule key)
  qed
qed

lemma gateways_ok_seq: "gateways_ok d \<Longrightarrow> db_gatewaySeq d \<le> n \<Longrightarrow> gateways_ok (d\<lparr>db_gatewaySeq := n\<rparr>)"
  by (fastforce simp: gateways_ok_iff)

text \<open>A gateway keeps its serial number and the time it was first seen.\<close>

definition keeps_gateways :: "db \<Rightarrow> db \<Rightarrow> bool" where
  "keeps_gateways d d' \<longleftrightarrow> (\<forall>mac g. dict_get (db_gateways d) mac = Some g \<longrightarrow>
     (\<exists>g'. dict_get (db_gateways d') mac = Some g' \<and> gw_id g' = gw_id g \<and> gw_first_seen_at g' = gw_first_seen_at g))"

lemma keeps_gateways_same: "db_gateways d' = db_gateways d \<Longrightarrow> keeps_gateways d d'"
  by (simp add: keeps_gateways_def)

lemma keeps_gateways_set:
  assumes "db_gateways d' = dict_set mac row (db_gateways d)"
    and "\<And>e. dict_get (db_gateways d) mac = Some e \<Longrightarrow> gw_id row = gw_id e \<and> gw_first_seen_at row = gw_first_seen_at e"
  shows "keeps_gateways d d'"
  using assms by (simp add: keeps_gateways_def dict_get_set)

lemma gateways_ok_cong:
  "db_gateways d' = db_gateways d \<Longrightarrow> db_gatewaySeq d' = db_gatewaySeq d \<Longrightarrow> gateways_ok d' = gateways_ok d"
  by (simp add: gateways_ok_def)

lemma upsertGateway_registry:
  assumes "upsertGateway g srv d = (r, d')" and "gateways_ok d"
  shows "gateways_ok d' \<and> keeps_gateways d d' \<and> db_gatewaySeq d \<le> db_gatewaySeq d'"
proof (cases r)
  case (Inl e)
  with assms(1) have "d' = d\<lparr>db_gatewaySeq := db_gatewaySeq d + 1\<rparr>"
    by (auto simp: upsertGateway_def Let_def split: if_splits)
  with gateways_ok_seq [OF assms(2)] show ?thesis by (simp add: keeps_gateways_same)
next
  case (Inr i)
  let ?mac = "to_upper (gd_hardwareMac g)"
  let ?row = "upserted_gateway (db_gatewaySeq d) g srv (dict_get (db_gateways d) ?mac)"
  have d': "d' = d\<lparr>db_gateways := dict_set ?mac ?row (db_gateways d), db_gatewaySeq := db_gatewaySeq d + 1\<rparr>"
    and free: "logical_id_free (db_gateways d) ?mac (gd_gatewayId g)"
    using assms(1) Inr by (auto simp: upsertGateway_def Let_def split: if_splits)
  have id: "gw_logical_gateway_id ?row = gd_gatewayId g"
    "gw_id ?row = (case dict_get (db_gateways d) ?mac of None \<Rightarrow> db_gatewaySeq d | Some e \<Rightarrow> gw_id e)"
    by (auto simp: upserted_gateway_def split: option.splits)
  have mac: "gw_hardware_mac ?row = ?mac" "gw_id ?row < db_gatewaySeq d + 1"
    using assms(2) unfolding gateways_ok_iff
    by (cases "dict_get (db_gateways d) ?mac"; fastforce simp: upserted_gateway_def)+
  have "gateways_ok d'"
    unfolding d' using free mac by (intro gateways_ok_set [OF assms(2)]) (simp_all only: id)
  moreover have "keeps_gateways d d'"
    by (rule keeps_gateways_set [of _ ?mac ?row]) (auto simp: d' upserted_gateway_def)
  ultimately show ?thesis by (simp add: d')
qed

lemma persist_reading_registry:
  assumes "persist_reading dp gid g srv x d = (r, d')"
  shows "db_gateways d' = db_gateways d \<and> db_gatewaySeq d' = db_gatewaySeq d"
proof -
  obtain d1 where n: "upsertNode (t3_nodeId (vr_decoded x)) gid srv d = (Inr (), d1)"
    and d1: "db_gateways d1 = db_gateways d" "db_gatewaySeq d1 = db_gatewaySeq d"
    by (simp add: upsertNode_def Let_def)
  obtain s d2 where i: "insert_telemetry (\<lambda>i. telemetry_insert_row dp i gid g srv x) d1 = (s, d2)" by fastforce
  have "d' = d2"
    using assms by (auto simp: persist_reading_def db_bind_def n i db_return_def db_lift_def split: sum.splits option.splits)
  moreover have "db_gateways d2 = db_gateways d1" "db_gatewaySeq d2 = db_gatewaySeq d1"
    using i by (auto simp: insert_telemetry_def Let_def split: if_splits)
  ultimately show ?thesis using d1 by simp
qed

lemma persistBatch_registry:
  assumes "persistBatch dp g xs srv d = (r, d')" and "gateways_ok d"
  shows "gateways_ok d' \<and> keeps_gateways d d'"
proof (cases "xs = []")
  case True
  with assms show ?thesis by (simp add: persistBatch_def db_return_def keeps_gateways_same)
next
  case False
  define work where "work = db_bind (upsertGateway g srv) (\<lambda>gid. for_each (persist_reading dp gid g srv) xs)"
  obtain s d2 where w: "work d = (s, d2)" by fastforce
  obtain q d1 where g: "upsertGateway g srv d = (q, d1)" by fastforce
  note gw = upsertGateway_registry [OF g assms(2)]
  have same: "db_gateways d2 = db_gateways d1 \<and> db_gatewaySeq d2 = db_gatewaySeq d1"
  proof (cases q)
    case (Inl e)
    with w g show ?thesis by (simp add: work_def db_bind_def)
  next
    case (Inr gid)
    with w g have loop: "for_each (persist_reading dp gid g srv) xs d1 = (s, d2)" by (simp add: work_def db_bind_def)
    show ?thesis by (rule for_each_keeps [OF loop]) (auto dest: persist_reading_registry)
  qed
  have t: "transaction work d = (r, d')" using assms(1) False by (simp add: persistBatch_def work_def)
  show ?thesis
  proof (cases s)
    case (Inl e)
    with w t have d': "d' = d\<lparr>db_gatewaySeq := db_gatewaySeq d2, db_telemetrySeq := db_telemetrySeq d2\<rparr>"
      by (auto simp: transaction_def)
    have "gateways_ok d'"
      using gateways_ok_seq [OF assms(2), of "db_gatewaySeq d2"] gw same by (simp add: d' gateways_ok_def)
    then show ?thesis by (simp add: d' keeps_gateways_same)
  next
    case (Inr v)
    with w t have "d' = d2" by (auto simp: transaction_def)
    with gw same gateways_ok_cong [of d2 d1] show ?thesis by (simp add: keeps_gateways_def)
  qed
qed

lemma recompute_nodes_registry:
  "db_gateways (recompute_nodes clock now ns d) = db_gateways d \<and>
   db_gatewaySeq (recompute_nodes clock now ns d) = db_gatewaySeq d"
proof (induction ns arbitrary: d)
  case (Cons n ns)
  obtain ss where "snd (recomputeNode clock now n d) = d\<lparr>db_states := ss\<rparr>"
    using recompute_states_only unfolding states_only_def by blast
  with Cons [of "snd (recomputeNode clock now n d)"] show ?case by (simp add: recompute_nodes_def)
qed (simp add: recompute_nodes_def)

lemma ingest_registry:
  assumes "gateways_ok d"
  shows "gateways_ok (snd (ingest dp m clock now srv request d)) \<and> keeps_gateways d (snd (ingest dp m clock now srv request d))"
proof -
  obtain r d' where run: "ingest dp m clock now srv request d = (r, d')" by fastforce
  from run show ?thesis
  proof (cases rule: ingest_store_cases)
    case 1
    with run assms show ?thesis by (simp add: keeps_gateways_same)
  next
    case (2 p d1 ns)
    with persistBatch_registry [OF 2(1) assms] run recompute_nodes_registry [of clock now ns d1]
      gateways_ok_cong [of d' d1] show ?thesis by (simp add: keeps_gateways_def)
  qed
qed

end
