(* ===== verification/Gateway_Heartbeat.thy ===== *)
theory Gateway_Heartbeat
  imports Gateway_Registry
begin

text \<open>
  Operational heartbeats of gateways: \<^verbatim>\<open>src/src/iot/dto/gateway-heartbeat.dto.ts\<close>,
  \<^verbatim>\<open>src/src/iot/services/gateway-heartbeat.service.ts\<close>,
  \<^verbatim>\<open>src/src/iot/repositories/gateway-heartbeat.repository.ts\<close> and
  \<^verbatim>\<open>src/src/iot/models/gateway-heartbeat.models.ts\<close>, over the gateways of theory
  \<open>Database\<close> and the two tables of
  \<^verbatim>\<open>src/database/migrations/006_gateway_heartbeat.sql\<close>, whose columns, types and checks
  are data of the model: a row is the list of its columns with the values that the positional
  parameters of the statements put there. Parameters are the address check of the validator, the
  parser of dates, and what the database makes of the text of a time, an address or a single
  precision number.
\<close>

section \<open>The request\<close>

definition MAX_COUNTER :: int where "MAX_COUNTER = max_safe_integer"

definition BACKEND_STATES :: "string list" where
  "BACKEND_STATES = [''UNKNOWN'', ''HEALTHY'', ''DEGRADED'', ''OFFLINE'']"

definition COMMAND_STATES :: "string list" where
  "COMMAND_STATES = [''PENDING'', ''SENT'']"

definition is_counter :: "int \<Rightarrow> int \<Rightarrow> bool" where
  "is_counter maximum v \<longleftrightarrow> 0 \<le> v \<and> v \<le> maximum"

definition nullable :: "('a \<Rightarrow> bool) \<Rightarrow> 'a option \<Rightarrow> bool" where
  "nullable check v = (case v of None \<Rightarrow> True | Some x \<Rightarrow> check x)"

definition between_ints :: "int \<Rightarrow> int \<Rightarrow> int \<Rightarrow> bool" where
  "between_ints minimum maximum v \<longleftrightarrow> minimum \<le> v \<and> v \<le> maximum"

definition between_numbers :: "rat \<Rightarrow> rat \<Rightarrow> jsnum \<Rightarrow> bool" where
  "between_numbers minimum maximum v \<longleftrightarrow>
     is_finite v \<and> js_le (Fin minimum) v \<and> js_le v (Fin maximum)"

definition max_length :: "nat \<Rightarrow> string \<Rightarrow> bool" where
  "max_length n s \<longleftrightarrow> length s \<le> n"

text \<open>\<open>/^[...]+$/\<close> with a limit on the length.\<close>

definition short_text :: "nat \<Rightarrow> (char \<Rightarrow> bool) \<Rightarrow> string \<Rightarrow> bool" where
  "short_text n member s \<longleftrightarrow> max_length n s \<and> s \<noteq> [] \<and> list_all member s"

definition is_version_char :: "char \<Rightarrow> bool" where
  "is_version_char c \<longleftrightarrow> is_upper c \<or> is_lower c \<or> is_digit_char c \<or> c \<in> set ''._+-''"

definition is_reason_char :: "char \<Rightarrow> bool" where
  "is_reason_char c \<longleftrightarrow> is_upper c \<or> is_digit_char c \<or> c \<in> set ''_+-''"

definition is_command_char :: "char \<Rightarrow> bool" where
  "is_command_char c \<longleftrightarrow> is_upper c \<or> is_digit_char c \<or> c = CHR ''_''"

text \<open>Patterns of fixed length: \<open>d\<close> is a decimal digit, \<open>h\<close> a hexadecimal one.\<close>

definition template_char :: "char \<Rightarrow> char \<Rightarrow> bool" where
  "template_char t c =
     (if t = CHR ''d'' then is_digit_char c
      else if t = CHR ''h'' then is_digit_char c \<or> in_range 65 70 c \<or> in_range 97 102 c
      else c = t)"

definition matches_template :: "string \<Rightarrow> string \<Rightarrow> bool" where
  "matches_template template s = list_all2 template_char template s"

definition is_timestamp :: "string \<Rightarrow> bool" where
  "is_timestamp s \<longleftrightarrow> max_length 32 s \<and> matches_template ''dddd-dd-ddTdd:dd:dd.dddZ'' s"

definition one_of :: "string list \<Rightarrow> string \<Rightarrow> bool" where
  "one_of values s \<longleftrightarrow> s \<in> set values"

record heartbeat_gateway =
  hg_gatewayId :: string
  hg_mac :: string
  hg_firmwareVersion :: string
  hg_protocolVersion :: int
  hg_buildFlavor :: string

record heartbeat_runtime =
  hr_uptimeSeconds :: int
  hr_resetReason :: string
  hr_bootCount :: int
  hr_freeHeapBytes :: int
  hr_minFreeHeapBytes :: int
  hr_largestFreeHeapBlockBytes :: int
  hr_sketchSizeBytes :: int
  hr_freeSketchSpaceBytes :: int
  hr_flashSizeBytes :: int

record heartbeat_network =
  hn_wifiConnected :: bool
  hn_ssid :: string
  hn_wifiRssiDbm :: "jsnum option"
  hn_localIp :: "string option"
  hn_backendConnectivityState :: string
  hn_lastBackendSuccessAt :: "string option"
  hn_lastBackendErrorAt :: "string option"
  hn_consecutiveBackendFailures :: int

record heartbeat_time =
  ht_timeValid :: bool
  ht_currentUtc :: "string option"
  ht_lastNtpSyncAt :: "string option"
  ht_ntpAgeSeconds :: "int option"

record heartbeat_lora =
  hl_pairedNodeId :: "string option"
  hl_lastLoRaRxAt :: "string option"
  hl_latestRssiDbm :: "jsnum option"
  hl_latestSnrDb :: "jsnum option"
  hl_latestFrequencyErrorHz :: "int option"
  hl_receivedPacketCount :: int
  hl_validTelemetryCount :: int
  hl_invalidPacketCount :: int
  hl_crcErrorCount :: int
  hl_protocolRejectedPacketCount :: int
  hl_unpairedRejectedPacketCount :: int

record heartbeat_ack =
  ha_ackCount :: int
  ha_ackSuccessCount :: int
  ha_ackFailureCount :: int
  ha_latencySampleCount :: int
  ha_latestRxToAckStartMs :: "jsnum option"
  ha_latestRxToAckCompleteMs :: "jsnum option"
  ha_latestAckTxDurationMs :: "jsnum option"
  ha_minRxToAckStartMs :: "jsnum option"
  ha_maxRxToAckStartMs :: "jsnum option"
  ha_avgRxToAckStartMs :: "jsnum option"
  ha_minRxToAckCompleteMs :: "jsnum option"
  ha_maxRxToAckCompleteMs :: "jsnum option"
  ha_avgRxToAckCompleteMs :: "jsnum option"
  ha_minAckTxDurationMs :: "jsnum option"
  ha_maxAckTxDurationMs :: "jsnum option"
  ha_avgAckTxDurationMs :: "jsnum option"

record heartbeat_queue =
  hu_depth :: int
  hu_capacity :: int
  hu_oldestRecordAgeSeconds :: "int option"
  hu_telemetryUploadSuccessCount :: int
  hu_telemetryUploadFailureCount :: int

record heartbeat_commands =
  hc_pendingCommandId :: "int option"
  hc_pendingCommandType :: "string option"
  hc_pendingCommandState :: "string option"
  hc_lastCommandId :: "int option"
  hc_lastCommandResult :: "string option"
  hc_commandsSentCount :: int
  hc_commandResultsReceivedCount :: int

text \<open>An interval that is left out is 60; an explicit \<open>null\<close> passes as an optional value and stays \<open>null\<close>.\<close>

record gateway_heartbeat =
  hb_schemaVersion :: int
  hb_heartbeatIntervalSeconds :: "int option"
  hb_gateway :: heartbeat_gateway
  hb_runtime :: heartbeat_runtime
  hb_network :: heartbeat_network
  hb_time :: heartbeat_time
  hb_lora :: heartbeat_lora
  hb_ack :: heartbeat_ack
  hb_queue :: heartbeat_queue
  hb_commands :: heartbeat_commands

definition gateway_ok :: "heartbeat_gateway \<Rightarrow> bool" where
  "gateway_ok d \<longleftrightarrow>
     id_pattern 48 (hg_gatewayId d) \<and>
     matches_template ''hh:hh:hh:hh:hh:hh'' (hg_mac d) \<and>
     short_text 32 is_version_char (hg_firmwareVersion d) \<and>
     (=) 3 (hg_protocolVersion d) \<and>
     short_text 23 is_version_char (hg_buildFlavor d)"

definition runtime_ok :: "heartbeat_runtime \<Rightarrow> bool" where
  "runtime_ok d \<longleftrightarrow>
     is_counter MAX_COUNTER (hr_uptimeSeconds d) \<and>
     short_text 31 is_reason_char (hr_resetReason d) \<and>
     is_counter 4294967295 (hr_bootCount d) \<and>
     is_counter MAX_COUNTER (hr_freeHeapBytes d) \<and>
     is_counter MAX_COUNTER (hr_minFreeHeapBytes d) \<and>
     is_counter MAX_COUNTER (hr_largestFreeHeapBlockBytes d) \<and>
     is_counter MAX_COUNTER (hr_sketchSizeBytes d) \<and>
     is_counter MAX_COUNTER (hr_freeSketchSpaceBytes d) \<and>
     is_counter MAX_COUNTER (hr_flashSizeBytes d)"

definition network_ok :: "(string \<Rightarrow> bool) \<Rightarrow> heartbeat_network \<Rightarrow> bool" where
  "network_ok isIPv4 d \<longleftrightarrow>
     max_length 32 (hn_ssid d) \<and>
     nullable (between_numbers (- 127) 0) (hn_wifiRssiDbm d) \<and>
     nullable (\<lambda>s. max_length 15 s \<and> isIPv4 s) (hn_localIp d) \<and>
     one_of BACKEND_STATES (hn_backendConnectivityState d) \<and>
     nullable is_timestamp (hn_lastBackendSuccessAt d) \<and>
     nullable is_timestamp (hn_lastBackendErrorAt d) \<and>
     is_counter MAX_COUNTER (hn_consecutiveBackendFailures d)"

definition time_ok :: "heartbeat_time \<Rightarrow> bool" where
  "time_ok d \<longleftrightarrow>
     nullable is_timestamp (ht_currentUtc d) \<and>
     nullable is_timestamp (ht_lastNtpSyncAt d) \<and>
     nullable (is_counter MAX_COUNTER) (ht_ntpAgeSeconds d)"

definition lora_ok :: "heartbeat_lora \<Rightarrow> bool" where
  "lora_ok d \<longleftrightarrow>
     nullable (id_pattern 24) (hl_pairedNodeId d) \<and>
     nullable is_timestamp (hl_lastLoRaRxAt d) \<and>
     nullable (between_numbers (- 200) 50) (hl_latestRssiDbm d) \<and>
     nullable (between_numbers (- 50) 50) (hl_latestSnrDb d) \<and>
     nullable (between_ints (- 10000000) 10000000) (hl_latestFrequencyErrorHz d) \<and>
     is_counter MAX_COUNTER (hl_receivedPacketCount d) \<and>
     is_counter MAX_COUNTER (hl_validTelemetryCount d) \<and>
     is_counter MAX_COUNTER (hl_invalidPacketCount d) \<and>
     is_counter MAX_COUNTER (hl_crcErrorCount d) \<and>
     is_counter MAX_COUNTER (hl_protocolRejectedPacketCount d) \<and>
     is_counter MAX_COUNTER (hl_unpairedRejectedPacketCount d)"

definition ack_ok :: "heartbeat_ack \<Rightarrow> bool" where
  "ack_ok d \<longleftrightarrow>
     is_counter MAX_COUNTER (ha_ackCount d) \<and>
     is_counter MAX_COUNTER (ha_ackSuccessCount d) \<and>
     is_counter MAX_COUNTER (ha_ackFailureCount d) \<and>
     is_counter MAX_COUNTER (ha_latencySampleCount d) \<and>
     nullable (between_numbers 0 60000) (ha_latestRxToAckStartMs d) \<and>
     nullable (between_numbers 0 60000) (ha_latestRxToAckCompleteMs d) \<and>
     nullable (between_numbers 0 60000) (ha_latestAckTxDurationMs d) \<and>
     nullable (between_numbers 0 60000) (ha_minRxToAckStartMs d) \<and>
     nullable (between_numbers 0 60000) (ha_maxRxToAckStartMs d) \<and>
     nullable (between_numbers 0 60000) (ha_avgRxToAckStartMs d) \<and>
     nullable (between_numbers 0 60000) (ha_minRxToAckCompleteMs d) \<and>
     nullable (between_numbers 0 60000) (ha_maxRxToAckCompleteMs d) \<and>
     nullable (between_numbers 0 60000) (ha_avgRxToAckCompleteMs d) \<and>
     nullable (between_numbers 0 60000) (ha_minAckTxDurationMs d) \<and>
     nullable (between_numbers 0 60000) (ha_maxAckTxDurationMs d) \<and>
     nullable (between_numbers 0 60000) (ha_avgAckTxDurationMs d)"

definition queue_ok :: "heartbeat_queue \<Rightarrow> bool" where
  "queue_ok d \<longleftrightarrow>
     is_counter 4096 (hu_depth d) \<and>
     is_counter 4096 (hu_capacity d) \<and>
     nullable (is_counter MAX_COUNTER) (hu_oldestRecordAgeSeconds d) \<and>
     is_counter MAX_COUNTER (hu_telemetryUploadSuccessCount d) \<and>
     is_counter MAX_COUNTER (hu_telemetryUploadFailureCount d)"

definition commands_ok :: "heartbeat_commands \<Rightarrow> bool" where
  "commands_ok d \<longleftrightarrow>
     nullable (between_ints 0 4294967295) (hc_pendingCommandId d) \<and>
     nullable (short_text 39 is_command_char) (hc_pendingCommandType d) \<and>
     nullable (one_of COMMAND_STATES) (hc_pendingCommandState d) \<and>
     nullable (between_ints 0 4294967295) (hc_lastCommandId d) \<and>
     nullable (short_text 31 is_command_char) (hc_lastCommandResult d) \<and>
     is_counter MAX_COUNTER (hc_commandsSentCount d) \<and>
     is_counter MAX_COUNTER (hc_commandResultsReceivedCount d)"

definition heartbeat_ok :: "(string \<Rightarrow> bool) \<Rightarrow> gateway_heartbeat \<Rightarrow> bool" where
  "heartbeat_ok isIPv4 d \<longleftrightarrow>
     hb_schemaVersion d = 1 \<and> nullable (between_ints 15 3600) (hb_heartbeatIntervalSeconds d) \<and>
     gateway_ok (hb_gateway d) \<and> runtime_ok (hb_runtime d) \<and> network_ok isIPv4 (hb_network d) \<and>
     time_ok (hb_time d) \<and> lora_ok (hb_lora d) \<and> ack_ok (hb_ack d) \<and> queue_ok (hb_queue d) \<and>
     commands_ok (hb_commands d)"

section \<open>The tables\<close>

datatype cell = CNull | CInt int | CNum jsnum | CText string | CBool bool | CTime js_date

datatype column_type =
  BIGINT | INTEGER | SMALLINT | REAL | DOUBLE_PRECISION | VARCHAR nat | BOOLEAN | TIMESTAMPTZ | INET

datatype column_check = NoCheck | AtLeast int | Between int int | OneOf "string list"

datatype column =
  Column (col_name: string) (col_type: column_type) (col_nullable: bool) (col_check: column_check)

text \<open>
  What the database reads: the time of a text or nothing, whether a text is an address, and the single
  precision number that a number becomes, nothing when it is out of range.
\<close>

record pg_input =
  pg_timestamp :: "string \<Rightarrow> js_date option"
  pg_inet :: "string \<Rightarrow> bool"
  pg_real :: "jsnum \<Rightarrow> jsnum option"

fun store_cell :: "pg_input \<Rightarrow> column_type \<Rightarrow> cell \<Rightarrow> cell option" where
  "store_cell pg ty CNull = Some CNull"
| "store_cell pg BIGINT (CInt n) = (if - (2 ^ 63) \<le> n \<and> n < 2 ^ 63 then Some (CInt n) else None)"
| "store_cell pg INTEGER (CInt n) = (if - (2 ^ 31) \<le> n \<and> n < 2 ^ 31 then Some (CInt n) else None)"
| "store_cell pg SMALLINT (CInt n) = (if - (2 ^ 15) \<le> n \<and> n < 2 ^ 15 then Some (CInt n) else None)"
| "store_cell pg REAL (CNum v) = map_option CNum (pg_real pg v)"
| "store_cell pg DOUBLE_PRECISION (CNum v) = Some (CNum v)"
| "store_cell pg (VARCHAR n) (CText s) = (if length s \<le> n \<and> CHR 0x00 \<notin> set s then Some (CText s) else None)"
| "store_cell pg BOOLEAN (CBool b) = Some (CBool b)"
| "store_cell pg TIMESTAMPTZ (CTime t) = (if valid_date t then Some (CTime t) else None)"
| "store_cell pg TIMESTAMPTZ (CText s) = map_option CTime (pg_timestamp pg s)"
| "store_cell pg INET (CText s) = (if pg_inet pg s then Some (CText s) else None)"
| "store_cell pg ty v = None"

text \<open>A check holds of \<open>NULL\<close>.\<close>

fun check_cell :: "column_check \<Rightarrow> cell \<Rightarrow> bool" where
  "check_cell (AtLeast n) (CInt v) = (n \<le> v)"
| "check_cell (Between a b) (CInt v) = (a \<le> v \<and> v \<le> b)"
| "check_cell (OneOf values) (CText s) = (s \<in> set values)"
| "check_cell check v = True"

definition column_value :: "pg_input \<Rightarrow> column \<Rightarrow> cell \<Rightarrow> cell option" where
  "column_value pg c v =
     (if v = CNull \<and> \<not> col_nullable c then None
      else case store_cell pg (col_type c) v of
        None \<Rightarrow> None | Some w \<Rightarrow> if check_cell (col_check c) w then Some w else None)"

type_synonym table_row = "(string, cell) dict"

text \<open>The row that positional values make, column by column.\<close>

fun row_of :: "pg_input \<Rightarrow> column list \<Rightarrow> cell list \<Rightarrow> table_row option" where
  "row_of pg [] [] = Some []"
| "row_of pg (c # cs) (v # vs) =
     (case (column_value pg c v, row_of pg cs vs) of
        (Some w, Some r) \<Rightarrow> Some ((col_name c, w) # r) | _ \<Rightarrow> None)"
| "row_of pg cs vs = None"

definition cell_of :: "table_row \<Rightarrow> string \<Rightarrow> cell" where
  "cell_of r name = (case dict_get r name of None \<Rightarrow> CNull | Some v \<Rightarrow> v)"

fun cell_int :: "cell \<Rightarrow> int" where
  "cell_int (CInt n) = n"
| "cell_int v = 0"

definition status_columns :: "column list" where
  "status_columns = [
     Column ''gateway_id'' BIGINT False NoCheck,
     Column ''last_heartbeat_at'' TIMESTAMPTZ False NoCheck,
     Column ''heartbeat_schema_version'' SMALLINT False (Between 1 1),
     Column ''heartbeat_interval_seconds'' INTEGER False (Between 15 3600),
     Column ''firmware_version'' (VARCHAR 32) False NoCheck,
     Column ''protocol_version'' SMALLINT False (Between 3 3),
     Column ''build_flavor'' (VARCHAR 23) False NoCheck,
     Column ''uptime_seconds'' BIGINT False (AtLeast 0),
     Column ''reset_reason'' (VARCHAR 31) False NoCheck,
     Column ''boot_count'' BIGINT False (Between 0 4294967295),
     Column ''free_heap_bytes'' BIGINT False (AtLeast 0),
     Column ''min_free_heap_bytes'' BIGINT False (AtLeast 0),
     Column ''largest_free_heap_block_bytes'' BIGINT False (AtLeast 0),
     Column ''sketch_size_bytes'' BIGINT False (AtLeast 0),
     Column ''free_sketch_space_bytes'' BIGINT False (AtLeast 0),
     Column ''flash_size_bytes'' BIGINT False (AtLeast 0),
     Column ''wifi_connected'' BOOLEAN False NoCheck,
     Column ''ssid'' (VARCHAR 32) False NoCheck,
     Column ''wifi_rssi_dbm'' REAL True NoCheck,
     Column ''local_ip'' INET True NoCheck,
     Column ''backend_connectivity_state'' (VARCHAR 10) False (OneOf BACKEND_STATES),
     Column ''last_backend_success_at'' TIMESTAMPTZ True NoCheck,
     Column ''last_backend_error_at'' TIMESTAMPTZ True NoCheck,
     Column ''consecutive_backend_failures'' BIGINT False (AtLeast 0),
     Column ''time_valid'' BOOLEAN False NoCheck,
     Column ''gateway_current_utc'' TIMESTAMPTZ True NoCheck,
     Column ''last_ntp_sync_at'' TIMESTAMPTZ True NoCheck,
     Column ''ntp_age_seconds'' BIGINT True (AtLeast 0),
     Column ''paired_node_id'' (VARCHAR 24) True NoCheck,
     Column ''last_lora_rx_at'' TIMESTAMPTZ True NoCheck,
     Column ''latest_rssi_dbm'' REAL True NoCheck,
     Column ''latest_snr_db'' REAL True NoCheck,
     Column ''latest_frequency_error_hz'' INTEGER True NoCheck,
     Column ''received_packet_count'' BIGINT False (AtLeast 0),
     Column ''valid_telemetry_count'' BIGINT False (AtLeast 0),
     Column ''invalid_packet_count'' BIGINT False (AtLeast 0),
     Column ''crc_error_count'' BIGINT False (AtLeast 0),
     Column ''protocol_rejected_packet_count'' BIGINT False (AtLeast 0),
     Column ''unpaired_rejected_packet_count'' BIGINT False (AtLeast 0),
     Column ''ack_count'' BIGINT False (AtLeast 0),
     Column ''ack_success_count'' BIGINT False (AtLeast 0),
     Column ''ack_failure_count'' BIGINT False (AtLeast 0),
     Column ''ack_latency_sample_count'' BIGINT False (AtLeast 0),
     Column ''latest_rx_to_ack_start_ms'' DOUBLE_PRECISION True NoCheck,
     Column ''latest_rx_to_ack_complete_ms'' DOUBLE_PRECISION True NoCheck,
     Column ''latest_ack_tx_duration_ms'' DOUBLE_PRECISION True NoCheck,
     Column ''min_rx_to_ack_start_ms'' DOUBLE_PRECISION True NoCheck,
     Column ''max_rx_to_ack_start_ms'' DOUBLE_PRECISION True NoCheck,
     Column ''avg_rx_to_ack_start_ms'' DOUBLE_PRECISION True NoCheck,
     Column ''min_rx_to_ack_complete_ms'' DOUBLE_PRECISION True NoCheck,
     Column ''max_rx_to_ack_complete_ms'' DOUBLE_PRECISION True NoCheck,
     Column ''avg_rx_to_ack_complete_ms'' DOUBLE_PRECISION True NoCheck,
     Column ''min_ack_tx_duration_ms'' DOUBLE_PRECISION True NoCheck,
     Column ''max_ack_tx_duration_ms'' DOUBLE_PRECISION True NoCheck,
     Column ''avg_ack_tx_duration_ms'' DOUBLE_PRECISION True NoCheck,
     Column ''queue_depth'' INTEGER False (AtLeast 0),
     Column ''queue_capacity'' INTEGER False (Between 0 4096),
     Column ''oldest_record_age_seconds'' BIGINT True (AtLeast 0),
     Column ''telemetry_upload_success_count'' BIGINT False (AtLeast 0),
     Column ''telemetry_upload_failure_count'' BIGINT False (AtLeast 0),
     Column ''pending_command_id'' BIGINT True (Between 0 4294967295),
     Column ''pending_command_type'' (VARCHAR 39) True NoCheck,
     Column ''pending_command_state'' (VARCHAR 7) True NoCheck,
     Column ''last_command_id'' BIGINT True (Between 0 4294967295),
     Column ''last_command_result'' (VARCHAR 31) True NoCheck,
     Column ''commands_sent_count'' BIGINT False (AtLeast 0),
     Column ''command_results_received_count'' BIGINT False (AtLeast 0),
     Column ''created_at'' TIMESTAMPTZ False NoCheck,
     Column ''updated_at'' TIMESTAMPTZ False NoCheck]"

definition metrics_columns :: "column list" where
  "metrics_columns = [
     Column ''id'' BIGINT False NoCheck,
     Column ''gateway_id'' BIGINT False NoCheck,
     Column ''sampled_at'' TIMESTAMPTZ False NoCheck,
     Column ''uptime_seconds'' BIGINT False (AtLeast 0),
     Column ''boot_count'' BIGINT False (Between 0 4294967295),
     Column ''free_heap_bytes'' BIGINT False (AtLeast 0),
     Column ''min_free_heap_bytes'' BIGINT False (AtLeast 0),
     Column ''largest_free_heap_block_bytes'' BIGINT False (AtLeast 0),
     Column ''wifi_rssi_dbm'' REAL True NoCheck,
     Column ''ntp_age_seconds'' BIGINT True (AtLeast 0),
     Column ''latest_rssi_dbm'' REAL True NoCheck,
     Column ''latest_snr_db'' REAL True NoCheck,
     Column ''latest_frequency_error_hz'' INTEGER True NoCheck,
     Column ''latest_rx_to_ack_start_ms'' DOUBLE_PRECISION True NoCheck,
     Column ''latest_rx_to_ack_complete_ms'' DOUBLE_PRECISION True NoCheck,
     Column ''latest_ack_tx_duration_ms'' DOUBLE_PRECISION True NoCheck,
     Column ''queue_depth'' INTEGER False (AtLeast 0),
     Column ''queue_capacity'' INTEGER False (Between 0 4096),
     Column ''oldest_record_age_seconds'' BIGINT True (AtLeast 0),
     Column ''consecutive_backend_failures'' BIGINT False (AtLeast 0),
     Column ''telemetry_upload_success_count'' BIGINT False (AtLeast 0),
     Column ''telemetry_upload_failure_count'' BIGINT False (AtLeast 0),
     Column ''received_packet_count'' BIGINT False (AtLeast 0),
     Column ''valid_telemetry_count'' BIGINT False (AtLeast 0),
     Column ''invalid_packet_count'' BIGINT False (AtLeast 0),
     Column ''ack_success_count'' BIGINT False (AtLeast 0),
     Column ''ack_failure_count'' BIGINT False (AtLeast 0),
     Column ''commands_sent_count'' BIGINT False (AtLeast 0),
     Column ''command_results_received_count'' BIGINT False (AtLeast 0)]"

definition queue_check :: "table_row \<Rightarrow> bool" where
  "queue_check r \<longleftrightarrow> cell_int (cell_of r ''queue_depth'') \<le> cell_int (cell_of r ''queue_capacity'')"

definition status_checks :: "table_row \<Rightarrow> bool" where
  "status_checks r \<longleftrightarrow>
     (if cell_of r ''wifi_connected'' = CBool True
      then cell_of r ''wifi_rssi_dbm'' \<noteq> CNull \<and> cell_of r ''local_ip'' \<noteq> CNull
      else cell_of r ''wifi_rssi_dbm'' = CNull \<and> cell_of r ''local_ip'' = CNull) \<and>
     (if cell_of r ''time_valid'' = CBool True then cell_of r ''gateway_current_utc'' \<noteq> CNull
      else cell_of r ''gateway_current_utc'' = CNull \<and> cell_of r ''last_ntp_sync_at'' = CNull \<and>
        cell_of r ''ntp_age_seconds'' = CNull) \<and>
     queue_check r \<and>
     cell_int (cell_of r ''ack_count'') =
       cell_int (cell_of r ''ack_success_count'') + cell_int (cell_of r ''ack_failure_count'')"

section \<open>Statements\<close>

definition opt_cell :: "('a \<Rightarrow> cell) \<Rightarrow> 'a option \<Rightarrow> cell" where
  "opt_cell mk v = (case v of None \<Rightarrow> CNull | Some x \<Rightarrow> mk x)"

definition statusValues :: "int \<Rightarrow> gateway_heartbeat \<Rightarrow> js_date \<Rightarrow> cell list" where
  "statusValues gatewayId d receivedAt =
     [CInt gatewayId,
      CTime receivedAt,
      CInt (hb_schemaVersion d),
      opt_cell CInt (hb_heartbeatIntervalSeconds d),
      CText (hg_firmwareVersion (hb_gateway d)),
      CInt (hg_protocolVersion (hb_gateway d)),
      CText (hg_buildFlavor (hb_gateway d)),
      CInt (hr_uptimeSeconds (hb_runtime d)),
      CText (hr_resetReason (hb_runtime d)),
      CInt (hr_bootCount (hb_runtime d)),
      CInt (hr_freeHeapBytes (hb_runtime d)),
      CInt (hr_minFreeHeapBytes (hb_runtime d)),
      CInt (hr_largestFreeHeapBlockBytes (hb_runtime d)),
      CInt (hr_sketchSizeBytes (hb_runtime d)),
      CInt (hr_freeSketchSpaceBytes (hb_runtime d)),
      CInt (hr_flashSizeBytes (hb_runtime d)),
      CBool (hn_wifiConnected (hb_network d)),
      CText (hn_ssid (hb_network d)),
      opt_cell CNum (hn_wifiRssiDbm (hb_network d)),
      opt_cell CText (hn_localIp (hb_network d)),
      CText (hn_backendConnectivityState (hb_network d)),
      opt_cell CText (hn_lastBackendSuccessAt (hb_network d)),
      opt_cell CText (hn_lastBackendErrorAt (hb_network d)),
      CInt (hn_consecutiveBackendFailures (hb_network d)),
      CBool (ht_timeValid (hb_time d)),
      opt_cell CText (ht_currentUtc (hb_time d)),
      opt_cell CText (ht_lastNtpSyncAt (hb_time d)),
      opt_cell CInt (ht_ntpAgeSeconds (hb_time d)),
      opt_cell CText (hl_pairedNodeId (hb_lora d)),
      opt_cell CText (hl_lastLoRaRxAt (hb_lora d)),
      opt_cell CNum (hl_latestRssiDbm (hb_lora d)),
      opt_cell CNum (hl_latestSnrDb (hb_lora d)),
      opt_cell CInt (hl_latestFrequencyErrorHz (hb_lora d)),
      CInt (hl_receivedPacketCount (hb_lora d)),
      CInt (hl_validTelemetryCount (hb_lora d)),
      CInt (hl_invalidPacketCount (hb_lora d)),
      CInt (hl_crcErrorCount (hb_lora d)),
      CInt (hl_protocolRejectedPacketCount (hb_lora d)),
      CInt (hl_unpairedRejectedPacketCount (hb_lora d)),
      CInt (ha_ackCount (hb_ack d)),
      CInt (ha_ackSuccessCount (hb_ack d)),
      CInt (ha_ackFailureCount (hb_ack d)),
      CInt (ha_latencySampleCount (hb_ack d)),
      opt_cell CNum (ha_latestRxToAckStartMs (hb_ack d)),
      opt_cell CNum (ha_latestRxToAckCompleteMs (hb_ack d)),
      opt_cell CNum (ha_latestAckTxDurationMs (hb_ack d)),
      opt_cell CNum (ha_minRxToAckStartMs (hb_ack d)),
      opt_cell CNum (ha_maxRxToAckStartMs (hb_ack d)),
      opt_cell CNum (ha_avgRxToAckStartMs (hb_ack d)),
      opt_cell CNum (ha_minRxToAckCompleteMs (hb_ack d)),
      opt_cell CNum (ha_maxRxToAckCompleteMs (hb_ack d)),
      opt_cell CNum (ha_avgRxToAckCompleteMs (hb_ack d)),
      opt_cell CNum (ha_minAckTxDurationMs (hb_ack d)),
      opt_cell CNum (ha_maxAckTxDurationMs (hb_ack d)),
      opt_cell CNum (ha_avgAckTxDurationMs (hb_ack d)),
      CInt (hu_depth (hb_queue d)),
      CInt (hu_capacity (hb_queue d)),
      opt_cell CInt (hu_oldestRecordAgeSeconds (hb_queue d)),
      CInt (hu_telemetryUploadSuccessCount (hb_queue d)),
      CInt (hu_telemetryUploadFailureCount (hb_queue d)),
      opt_cell CInt (hc_pendingCommandId (hb_commands d)),
      opt_cell CText (hc_pendingCommandType (hb_commands d)),
      opt_cell CText (hc_pendingCommandState (hb_commands d)),
      opt_cell CInt (hc_lastCommandId (hb_commands d)),
      opt_cell CText (hc_lastCommandResult (hb_commands d)),
      CInt (hc_commandsSentCount (hb_commands d)),
      CInt (hc_commandResultsReceivedCount (hb_commands d))]"

definition metricsValues :: "int \<Rightarrow> gateway_heartbeat \<Rightarrow> js_date \<Rightarrow> cell list" where
  "metricsValues gatewayId d receivedAt =
     [CInt gatewayId,
      CTime receivedAt,
      CInt (hr_uptimeSeconds (hb_runtime d)),
      CInt (hr_bootCount (hb_runtime d)),
      CInt (hr_freeHeapBytes (hb_runtime d)),
      CInt (hr_minFreeHeapBytes (hb_runtime d)),
      CInt (hr_largestFreeHeapBlockBytes (hb_runtime d)),
      opt_cell CNum (hn_wifiRssiDbm (hb_network d)),
      opt_cell CInt (ht_ntpAgeSeconds (hb_time d)),
      opt_cell CNum (hl_latestRssiDbm (hb_lora d)),
      opt_cell CNum (hl_latestSnrDb (hb_lora d)),
      opt_cell CInt (hl_latestFrequencyErrorHz (hb_lora d)),
      opt_cell CNum (ha_latestRxToAckStartMs (hb_ack d)),
      opt_cell CNum (ha_latestRxToAckCompleteMs (hb_ack d)),
      opt_cell CNum (ha_latestAckTxDurationMs (hb_ack d)),
      CInt (hu_depth (hb_queue d)),
      CInt (hu_capacity (hb_queue d)),
      opt_cell CInt (hu_oldestRecordAgeSeconds (hb_queue d)),
      CInt (hn_consecutiveBackendFailures (hb_network d)),
      CInt (hu_telemetryUploadSuccessCount (hb_queue d)),
      CInt (hu_telemetryUploadFailureCount (hb_queue d)),
      CInt (hl_receivedPacketCount (hb_lora d)),
      CInt (hl_validTelemetryCount (hb_lora d)),
      CInt (hl_invalidPacketCount (hb_lora d)),
      CInt (ha_ackSuccessCount (hb_ack d)),
      CInt (ha_ackFailureCount (hb_ack d)),
      CInt (hc_commandsSentCount (hb_commands d)),
      CInt (hc_commandResultsReceivedCount (hb_commands d))]"

text \<open>The columns that the conflict clause sets from the new row.\<close>

definition status_update_columns :: "string list" where
  "status_update_columns = [
     ''last_heartbeat_at'', ''heartbeat_schema_version'', ''heartbeat_interval_seconds'',
     ''firmware_version'', ''protocol_version'', ''build_flavor'', ''uptime_seconds'',
     ''reset_reason'', ''boot_count'', ''free_heap_bytes'', ''min_free_heap_bytes'',
     ''largest_free_heap_block_bytes'', ''sketch_size_bytes'', ''free_sketch_space_bytes'',
     ''flash_size_bytes'', ''wifi_connected'', ''ssid'', ''wifi_rssi_dbm'', ''local_ip'',
     ''backend_connectivity_state'', ''last_backend_success_at'', ''last_backend_error_at'',
     ''consecutive_backend_failures'', ''time_valid'', ''gateway_current_utc'',
     ''last_ntp_sync_at'', ''ntp_age_seconds'', ''paired_node_id'', ''last_lora_rx_at'',
     ''latest_rssi_dbm'', ''latest_snr_db'', ''latest_frequency_error_hz'',
     ''received_packet_count'', ''valid_telemetry_count'', ''invalid_packet_count'',
     ''crc_error_count'', ''protocol_rejected_packet_count'', ''unpaired_rejected_packet_count'',
     ''ack_count'', ''ack_success_count'', ''ack_failure_count'', ''ack_latency_sample_count'',
     ''latest_rx_to_ack_start_ms'', ''latest_rx_to_ack_complete_ms'', ''latest_ack_tx_duration_ms'',
     ''min_rx_to_ack_start_ms'', ''max_rx_to_ack_start_ms'', ''avg_rx_to_ack_start_ms'',
     ''min_rx_to_ack_complete_ms'', ''max_rx_to_ack_complete_ms'', ''avg_rx_to_ack_complete_ms'',
     ''min_ack_tx_duration_ms'', ''max_ack_tx_duration_ms'', ''avg_ack_tx_duration_ms'',
     ''queue_depth'', ''queue_capacity'', ''oldest_record_age_seconds'',
     ''telemetry_upload_success_count'', ''telemetry_upload_failure_count'', ''pending_command_id'',
     ''pending_command_type'', ''pending_command_state'', ''last_command_id'',
     ''last_command_result'', ''commands_sent_count'', ''command_results_received_count'']"

definition metrics_insert_columns :: "string list" where
  "metrics_insert_columns = [
     ''gateway_id'', ''sampled_at'', ''uptime_seconds'', ''boot_count'', ''free_heap_bytes'',
     ''min_free_heap_bytes'', ''largest_free_heap_block_bytes'', ''wifi_rssi_dbm'',
     ''ntp_age_seconds'', ''latest_rssi_dbm'', ''latest_snr_db'', ''latest_frequency_error_hz'',
     ''latest_rx_to_ack_start_ms'', ''latest_rx_to_ack_complete_ms'', ''latest_ack_tx_duration_ms'',
     ''queue_depth'', ''queue_capacity'', ''oldest_record_age_seconds'',
     ''consecutive_backend_failures'', ''telemetry_upload_success_count'',
     ''telemetry_upload_failure_count'', ''received_packet_count'', ''valid_telemetry_count'',
     ''invalid_packet_count'', ''ack_success_count'', ''ack_failure_count'',
     ''commands_sent_count'', ''command_results_received_count'']"

section \<open>Relationships\<close>

definition complain :: "bool \<Rightarrow> string \<Rightarrow> string list" where
  "complain wrong message = (if wrong then [message] else [])"

text \<open>The values, each by whether it is not \<open>null\<close>.\<close>

definition allNullOrPresent :: "bool list \<Rightarrow> bool" where
  "allNullOrPresent present \<longleftrightarrow> list_all Not present \<or> list_all (\<lambda>p. p) present"

definition validDate :: "(string \<Rightarrow> js_date) \<Rightarrow> string \<Rightarrow> bool" where
  "validDate dateParse v \<longleftrightarrow> valid_date (dateParse v) \<and> toISOString (dateParse v) = Some v"

text \<open>In a comparison \<open>null\<close> is zero.\<close>

definition num_or_zero :: "jsnum option \<Rightarrow> jsnum" where
  "num_or_zero v = (case v of None \<Rightarrow> Fin 0 | Some x \<Rightarrow> x)"

definition rolling_ok :: "jsnum option \<times> jsnum option \<times> jsnum option \<Rightarrow> bool" where
  "rolling_ok t = (case t of (minimum, maximum, average) \<Rightarrow>
     allNullOrPresent [minimum \<noteq> None, maximum \<noteq> None, average \<noteq> None] \<and>
     (case minimum of None \<Rightarrow> True | Some m \<Rightarrow>
        js_le m (num_or_zero average) \<and> js_le (num_or_zero average) (num_or_zero maximum)))"

definition rolling_stats :: "heartbeat_ack \<Rightarrow> (jsnum option \<times> jsnum option \<times> jsnum option) list" where
  "rolling_stats a =
     [(ha_minRxToAckStartMs a, ha_maxRxToAckStartMs a, ha_avgRxToAckStartMs a),
      (ha_minRxToAckCompleteMs a, ha_maxRxToAckCompleteMs a, ha_avgRxToAckCompleteMs a),
      (ha_minAckTxDurationMs a, ha_maxAckTxDurationMs a, ha_avgAckTxDurationMs a)]"

definition heartbeat_timestamps :: "gateway_heartbeat \<Rightarrow> string option list" where
  "heartbeat_timestamps d =
     [hn_lastBackendSuccessAt (hb_network d), hn_lastBackendErrorAt (hb_network d), ht_currentUtc (hb_time d),
      ht_lastNtpSyncAt (hb_time d), hl_lastLoRaRxAt (hb_lora d)]"

definition wifi_consistent :: "heartbeat_network \<Rightarrow> bool" where
  "wifi_consistent n \<longleftrightarrow> hn_wifiConnected n = (hn_wifiRssiDbm n \<noteq> None \<and> hn_localIp n \<noteq> None)"

definition time_consistent :: "heartbeat_time \<Rightarrow> bool" where
  "time_consistent t \<longleftrightarrow>
     \<not> (if ht_timeValid t then ht_currentUtc t = None
         else ht_currentUtc t \<noteq> None \<or> ht_lastNtpSyncAt t \<noteq> None \<or> ht_ntpAgeSeconds t \<noteq> None)"

definition relationship_errors :: "(string \<Rightarrow> js_date) \<Rightarrow> gateway_heartbeat \<Rightarrow> string list" where
  "relationship_errors dateParse d =
     (let n = hb_network d; l = hb_lora d; a = hb_ack d; q = hb_queue d; c = hb_commands d;
          latest = [ha_latestRxToAckStartMs a, ha_latestRxToAckCompleteMs a, ha_latestAckTxDurationMs a] in
      complain (\<not> wifi_consistent n) ''Wi-Fi state and diagnostics are inconsistent'' @
      complain (\<not> time_consistent (hb_time d)) ''timeValid and time diagnostics are inconsistent'' @
      concat (map (\<lambda>v. case v of None \<Rightarrow> []
        | Some s \<Rightarrow> complain (\<not> validDate dateParse s) ''Heartbeat contains an invalid timestamp'')
        (heartbeat_timestamps d)) @
      complain (\<not> allNullOrPresent [hl_latestRssiDbm l \<noteq> None, hl_latestSnrDb l \<noteq> None, hl_latestFrequencyErrorHz l \<noteq> None])
        ''Latest LoRa metrics must be all null or all present'' @
      complain (ha_ackCount a \<noteq> ha_ackSuccessCount a + ha_ackFailureCount a) ''ACK counters are inconsistent'' @
      complain (ha_ackSuccessCount a < ha_latencySampleCount a) ''ACK latency samples exceed successful ACKs'' @
      complain (\<not> allNullOrPresent (map (\<lambda>v. v \<noteq> None) latest)) ''Latest ACK timings must be all null or all present'' @
      complain (case ha_latestRxToAckStartMs a of None \<Rightarrow> False
        | Some s \<Rightarrow> js_lt (num_or_zero (ha_latestRxToAckCompleteMs a)) s) ''ACK completion precedes ACK start'' @
      concat (map (\<lambda>t. complain (\<not> rolling_ok t) ''ACK rolling statistics are inconsistent'') (rolling_stats a)) @
      complain (ha_latencySampleCount a = 0 \<and>
          list_ex (\<lambda>v. v \<noteq> None) (latest @ concat (map (\<lambda>(x, y, z). [x, y, z]) (rolling_stats a))))
        ''Empty ACK history must use null timing values'' @
      complain (hu_capacity q < hu_depth q) ''Queue depth exceeds capacity'' @
      complain (hu_depth q = 0 \<and> hu_oldestRecordAgeSeconds q \<noteq> None) ''Empty queue cannot have an oldest record age'' @
      complain (\<not> allNullOrPresent [hc_pendingCommandId c \<noteq> None, hc_pendingCommandType c \<noteq> None, hc_pendingCommandState c \<noteq> None])
        ''Pending command fields are inconsistent'' @
      complain (\<not> allNullOrPresent [hc_lastCommandId c \<noteq> None, hc_lastCommandResult c \<noteq> None])
        ''Last command fields are inconsistent'')"

datatype heartbeat_error =
    HEARTBEAT_REJECTED string
  | HEARTBEAT_NOT_STORED string
  | HEARTBEAT_GATEWAY_UNKNOWN
  | HEARTBEAT_FAILED string

definition validateRelationships :: "(string \<Rightarrow> js_date) \<Rightarrow> gateway_heartbeat \<Rightarrow> (heartbeat_error, unit) result" where
  "validateRelationships dateParse d =
     (let errors = relationship_errors dateParse d in
      if errors \<noteq> [] then Inl (HEARTBEAT_REJECTED (join ''; '' errors)) else Inr ())"

section \<open>Persistence\<close>

record gateway_store =
  gs_db :: db
  gs_status :: "(int, table_row) dict"
  gs_metrics :: "table_row list"
  gs_metricsSeq :: int
  gs_events :: "(string \<times> string) list"

definition gateways_unique :: "(string, gateway_row) dict \<Rightarrow> bool" where
  "gateways_unique gs \<longleftrightarrow>
     distinct (map gw_hardware_mac (dict_values gs)) \<and> distinct (map gw_logical_gateway_id (dict_values gs))"

definition update_gateway :: "int \<Rightarrow> heartbeat_gateway \<Rightarrow> js_date \<Rightarrow> (string, gateway_row) dict \<Rightarrow> (string, gateway_row) dict" where
  "update_gateway i g receivedAt gs = map (\<lambda>(mac, r). (mac,
     if gw_id r = i then r\<lparr> gw_logical_gateway_id := hg_gatewayId g, gw_firmware_version := hg_firmwareVersion g,
       gw_last_seen_at := receivedAt \<rparr> else r)) gs"

definition resolveGateway :: "heartbeat_gateway \<Rightarrow> js_date \<Rightarrow> db \<Rightarrow> (heartbeat_error, int) result \<times> db" where
  "resolveGateway g receivedAt d =
     (let mac = to_upper (hg_mac g);
          rows = filter (\<lambda>r. gw_hardware_mac r = mac \<or> gw_logical_gateway_id r = hg_gatewayId g)
            (dict_values (db_gateways d)) in
      if (case find (\<lambda>r. gw_logical_gateway_id r = hg_gatewayId g) rows of
            None \<Rightarrow> False | Some r \<Rightarrow> gw_hardware_mac r \<noteq> mac)
      then (Inl (HEARTBEAT_REJECTED ''gatewayId is already registered to another MAC''), d)
      else case find (\<lambda>r. gw_hardware_mac r = mac) rows of
        Some r \<Rightarrow>
          (let gs = update_gateway (gw_id r) g receivedAt (db_gateways d) in
           if valid_date receivedAt \<and> gateways_unique gs then (Inr (gw_id r), d\<lparr>db_gateways := gs\<rparr>)
           else (Inl (HEARTBEAT_NOT_STORED ''iot_gateways''), d))
      | None \<Rightarrow>
          (let i = db_gatewaySeq d; d1 = d\<lparr>db_gatewaySeq := i + 1\<rparr>;
               gs = db_gateways d @ [(mac, \<lparr> gw_id = i, gw_hardware_mac = mac, gw_logical_gateway_id = hg_gatewayId g,
                 gw_firmware_version = hg_firmwareVersion g, gw_first_seen_at = receivedAt, gw_last_seen_at = receivedAt \<rparr>)] in
           if valid_date receivedAt \<and> gateways_unique gs then (Inr i, d1\<lparr>db_gateways := gs\<rparr>)
           else (Inl (HEARTBEAT_NOT_STORED ''iot_gateways''), d1)))"

definition upserted_status :: "js_date \<Rightarrow> table_row \<Rightarrow> table_row option \<Rightarrow> table_row" where
  "upserted_status clock row existing = (case existing of
     None \<Rightarrow> row
   | Some e \<Rightarrow> dict_set ''updated_at'' (CTime clock)
       (foldl (\<lambda>r c. dict_set c (cell_of row c) r) e status_update_columns))"

definition status_row :: "pg_input \<Rightarrow> js_date \<Rightarrow> int \<Rightarrow> gateway_heartbeat \<Rightarrow> js_date \<Rightarrow> table_row option" where
  "status_row pg clock gatewayId d receivedAt =
     row_of pg status_columns (statusValues gatewayId d receivedAt @ [CTime clock, CTime clock])"

definition metrics_row :: "pg_input \<Rightarrow> int \<Rightarrow> int \<Rightarrow> gateway_heartbeat \<Rightarrow> js_date \<Rightarrow> table_row option" where
  "metrics_row pg rowId gatewayId d receivedAt =
     map_option ((#) (''id'', CInt rowId))
       (row_of pg (map (\<lambda>name. hd (filter (\<lambda>c. col_name c = name) metrics_columns)) metrics_insert_columns)
         (metricsValues gatewayId d receivedAt))"

record heartbeat_env =
  he_dateParse :: "string \<Rightarrow> js_date"
  he_pg :: pg_input
  he_payloadBytes :: "gateway_heartbeat \<Rightarrow> nat"

definition persist_rows ::
  "pg_input \<Rightarrow> js_date \<Rightarrow> gateway_heartbeat \<Rightarrow> js_date \<Rightarrow> gateway_store \<Rightarrow> (heartbeat_error, unit) result \<times> gateway_store" where
  "persist_rows pg clock d receivedAt s =
     (case resolveGateway (hb_gateway d) receivedAt (gs_db s) of
        (Inl e, db1) \<Rightarrow> (Inl e, s\<lparr>gs_db := db1\<rparr>)
      | (Inr gatewayId, db1) \<Rightarrow>
          (case status_row pg clock gatewayId d receivedAt of
             None \<Rightarrow> (Inl (HEARTBEAT_NOT_STORED ''iot_gateway_status''), s\<lparr>gs_db := db1\<rparr>)
           | Some row \<Rightarrow>
               if \<not> status_checks row then (Inl (HEARTBEAT_NOT_STORED ''iot_gateway_status''), s\<lparr>gs_db := db1\<rparr>)
               else
                 let s1 = s\<lparr>gs_db := db1, gs_metricsSeq := gs_metricsSeq s + 1, gs_status := dict_set gatewayId
                   (upserted_status clock row (dict_get (gs_status s) gatewayId)) (gs_status s)\<rparr> in
                 (case metrics_row pg (gs_metricsSeq s) gatewayId d receivedAt of
                    None \<Rightarrow> (Inl (HEARTBEAT_NOT_STORED ''iot_gateway_metrics''), s1)
                  | Some m \<Rightarrow> if \<not> queue_check m then (Inl (HEARTBEAT_NOT_STORED ''iot_gateway_metrics''), s1)
                      else (Inr (), s1\<lparr>gs_metrics := gs_metrics s @ [m]\<rparr>))))"

text \<open>The transaction: a failure takes back the rows, not the serial numbers.\<close>

definition persist_heartbeat ::
  "pg_input \<Rightarrow> js_date \<Rightarrow> gateway_heartbeat \<Rightarrow> js_date \<Rightarrow> gateway_store \<Rightarrow> (heartbeat_error, unit) result \<times> gateway_store" where
  "persist_heartbeat pg clock d receivedAt s =
     (case persist_rows pg clock d receivedAt s of
        (Inr (), s') \<Rightarrow> (Inr (), s')
      | (Inl e, s') \<Rightarrow> (Inl e, s\<lparr>gs_db := (gs_db s)\<lparr>db_gatewaySeq := db_gatewaySeq (gs_db s')\<rparr>,
          gs_metricsSeq := gs_metricsSeq s'\<rparr>))"

definition MAX_HEARTBEAT_BYTES :: nat where "MAX_HEARTBEAT_BYTES = 16384"

definition accept_heartbeat ::
  "heartbeat_env \<Rightarrow> js_date \<Rightarrow> js_date \<Rightarrow> gateway_heartbeat \<Rightarrow> gateway_store \<Rightarrow>
   (heartbeat_error, string \<times> string) result \<times> gateway_store" where
  "accept_heartbeat E clock receivedAt d s =
     (case validateRelationships (he_dateParse E) d of
        Inl e \<Rightarrow> (Inl e, s)
      | Inr _ \<Rightarrow>
          if MAX_HEARTBEAT_BYTES < he_payloadBytes E d
          then (Inl (HEARTBEAT_REJECTED ''Heartbeat payload exceeds 16 KiB''), s)
          else (case persist_heartbeat (he_pg E) clock d receivedAt s of
              (Inl e, s') \<Rightarrow> (Inl e, s')
            | (Inr (), s') \<Rightarrow>
                (case toISOString receivedAt of
                   None \<Rightarrow> (Inl (HEARTBEAT_FAILED ''Invalid time value''), s')
                 | Some acceptedAt \<Rightarrow>
                     (let gatewayId = hg_gatewayId (hb_gateway d) in
                      (Inr (acceptedAt, gatewayId), s'\<lparr>gs_events := gs_events s' @ [(gatewayId, acceptedAt)]\<rparr>)))))"

fun cell_time :: "cell \<Rightarrow> js_date" where
  "cell_time (CTime t) = t"
| "cell_time v = InvalidDate"

definition HEARTBEAT_RETENTION_DAYS :: int where "HEARTBEAT_RETENTION_DAYS = 30"

definition cleanup_metrics :: "int \<Rightarrow> js_date \<Rightarrow> gateway_store \<Rightarrow> nat \<times> gateway_store" where
  "cleanup_metrics retentionDays now s =
     (let expired = (\<lambda>r. date_lt (cell_time (cell_of r ''sampled_at'')) (date_shift now (- (retentionDays * 86400000)))) in
      (length (filter expired (gs_metrics s)), s\<lparr>gs_metrics := filter (\<lambda>r. \<not> expired r) (gs_metrics s)\<rparr>))"

section \<open>Rows\<close>

definition fits :: "pg_input \<Rightarrow> column \<Rightarrow> cell \<Rightarrow> bool" where
  "fits pg c v \<longleftrightarrow> column_value pg c v \<noteq> None"

lemma row_of_None: "row_of pg cs vs \<noteq> None \<longleftrightarrow> list_all2 (fits pg) cs vs"
  unfolding fits_def by (induction pg cs vs rule: row_of.induct) (auto split: option.splits)

lemma row_of_Some:
  "row_of pg cs vs = Some r \<Longrightarrow>
     length vs = length cs \<and> r = map2 (\<lambda>c v. (col_name c, the (column_value pg c v))) cs vs"
  by (induction pg cs vs arbitrary: r rule: row_of.induct) (auto split: option.splits)

lemma row_cell:
  assumes "row_of pg cs vs = Some r" and "distinct (map col_name cs)" and "i < length cs"
  shows "cell_of r (col_name (cs ! i)) = the (column_value pg (cs ! i) (vs ! i))"
proof -
  have r: "length vs = length cs" "r = map2 (\<lambda>c v. (col_name c, the (column_value pg c v))) cs vs"
    using row_of_Some [OF assms(1)] by auto
  have "map fst r = map col_name cs" using r by (simp add: list_eq_iff_nth_eq)
  then have "distinct (map fst r)" using assms(2) by simp
  moreover have "r ! i = (col_name (cs ! i), the (column_value pg (cs ! i) (vs ! i)))" using r assms(3) by simp
  moreover have "i < length r" using r assms(3) by simp
  ultimately have "(col_name (cs ! i), the (column_value pg (cs ! i) (vs ! i))) \<in> set r" "distinct (map fst r)"
    by (metis nth_mem, simp)
  then show ?thesis by (simp add: cell_of_def dict_get_def)
qed

named_theorems column_rules \<open>values that a column takes\<close>

lemma fits_null: "fits pg c CNull \<longleftrightarrow> col_nullable c"
  by (cases "col_check c") (auto simp: column_value_def fits_def)

lemma fits_counter [column_rules]:
  "is_counter MAX_COUNTER v \<Longrightarrow> fits pg (Column name BIGINT b (AtLeast 0)) (CInt v)"
  "is_counter 4294967295 v \<Longrightarrow> fits pg (Column name BIGINT b (Between 0 4294967295)) (CInt v)"
  "is_counter 4096 v \<Longrightarrow> fits pg (Column name INTEGER b (AtLeast 0)) (CInt v)"
  "is_counter 4096 v \<Longrightarrow> fits pg (Column name INTEGER b (Between 0 4096)) (CInt v)"
  "v = 1 \<Longrightarrow> fits pg (Column name SMALLINT b (Between 1 1)) (CInt v)"
  "v = 3 \<Longrightarrow> fits pg (Column name SMALLINT b (Between 3 3)) (CInt v)"
  "0 \<le> v \<Longrightarrow> v < 2 ^ 63 \<Longrightarrow> fits pg (Column name BIGINT b NoCheck) (CInt v)"
  by (auto simp: column_value_def is_counter_def MAX_COUNTER_def max_safe_integer_def fits_def)

lemma fits_interval [column_rules]:
  "nullable (between_ints 15 3600) v \<Longrightarrow> fits pg (Column name INTEGER False (Between 15 3600)) (opt_cell CInt v) \<longleftrightarrow> v \<noteq> None"
  by (cases v) (auto simp: column_value_def nullable_def between_ints_def fits_def opt_cell_def)

lemma fits_optional_int [column_rules]:
  "nullable (is_counter MAX_COUNTER) w \<Longrightarrow> fits pg (Column name BIGINT True (AtLeast 0)) (opt_cell CInt w)"
  "nullable (between_ints 0 4294967295) w \<Longrightarrow> fits pg (Column name BIGINT True (Between 0 4294967295)) (opt_cell CInt w)"
  "nullable (between_ints (- 10000000) 10000000) w \<Longrightarrow> fits pg (Column name INTEGER True NoCheck) (opt_cell CInt w)"
  by (cases w; auto simp: column_value_def is_counter_def MAX_COUNTER_def max_safe_integer_def nullable_def
      between_ints_def fits_def opt_cell_def)+

lemma fits_plain [column_rules]:
  "fits pg (Column name BOOLEAN b NoCheck) (CBool f)"
  "fits pg (Column name DOUBLE_PRECISION True NoCheck) (opt_cell CNum x)"
  "fits pg (Column name TIMESTAMPTZ b NoCheck) (CTime t) \<longleftrightarrow> valid_date t"
  by (cases x; auto simp: column_value_def fits_def opt_cell_def)+

definition readable_time :: "pg_input \<Rightarrow> string option \<Rightarrow> bool" where
  "readable_time pg v \<longleftrightarrow> nullable (\<lambda>s. pg_timestamp pg s \<noteq> None) v"

definition readable_real :: "pg_input \<Rightarrow> jsnum option \<Rightarrow> bool" where
  "readable_real pg v \<longleftrightarrow> nullable (\<lambda>x. pg_real pg x \<noteq> None) v"

lemma fits_readable [column_rules]:
  "fits pg (Column name TIMESTAMPTZ True NoCheck) (opt_cell CText w) \<longleftrightarrow> readable_time pg w"
  by (cases w) (auto simp: column_value_def fits_def opt_cell_def readable_time_def nullable_def split: option.split)

lemma fits_readable_real [column_rules]:
  "fits pg (Column name REAL True NoCheck) (opt_cell CNum x) \<longleftrightarrow> readable_real pg x"
  by (cases x) (auto simp: column_value_def fits_def opt_cell_def readable_real_def nullable_def split: option.split)

lemma fits_address [column_rules]:
  "nullable (\<lambda>s. max_length 15 s \<and> isIPv4 s) w \<Longrightarrow> (\<And>s. isIPv4 s \<Longrightarrow> pg_inet pg s) \<Longrightarrow>
     fits pg (Column name INET True NoCheck) (opt_cell CText w)"
  by (cases w) (auto simp: column_value_def fits_def opt_cell_def nullable_def)

lemma no_nul_members:
  "\<not> is_version_char CHR 0x00" "\<not> is_reason_char CHR 0x00" "\<not> is_command_char CHR 0x00" "\<not> is_id_char CHR 0x00"
  by code_simp+

lemma fits_text:
  "length s \<le> n \<Longrightarrow> fits pg (Column name (VARCHAR n) b NoCheck) (CText s) \<longleftrightarrow> CHR 0x00 \<notin> set s"
  by (auto simp: column_value_def fits_def)

lemma fits_short_text [column_rules]:
  "short_text n is_version_char s \<Longrightarrow> fits pg (Column name (VARCHAR n) b NoCheck) (CText s)"
  "short_text n is_reason_char s \<Longrightarrow> fits pg (Column name (VARCHAR n) b NoCheck) (CText s)"
  "max_length n s \<Longrightarrow> fits pg (Column name (VARCHAR n) b NoCheck) (CText s) \<longleftrightarrow> CHR 0x00 \<notin> set s"
  using no_nul_members by (auto simp: fits_text short_text_def max_length_def list_all_iff)

lemma fits_optional_text [column_rules]:
  "nullable (short_text n is_command_char) w \<Longrightarrow> fits pg (Column name (VARCHAR n) True NoCheck) (opt_cell CText w)"
  "nullable (id_pattern n) w \<Longrightarrow> fits pg (Column name (VARCHAR n) True NoCheck) (opt_cell CText w)"
  "nullable (one_of COMMAND_STATES) w \<Longrightarrow> fits pg (Column name (VARCHAR 7) True NoCheck) (opt_cell CText w)"
  using no_nul_members
  by (cases w; auto simp: fits_text short_text_def max_length_def list_all_iff opt_cell_def nullable_def fits_null
      id_pattern_def one_of_def COMMAND_STATES_def)+

lemma fits_state [column_rules]:
  "one_of BACKEND_STATES s \<Longrightarrow> fits pg (Column name (VARCHAR 10) b (OneOf BACKEND_STATES)) (CText s)"
  by (auto simp: column_value_def fits_def one_of_def BACKEND_STATES_def)

definition status_storable :: "pg_input \<Rightarrow> gateway_heartbeat \<Rightarrow> bool" where
  "status_storable pg d \<longleftrightarrow> hb_heartbeatIntervalSeconds d \<noteq> None \<and> CHR 0x00 \<notin> set (hn_ssid (hb_network d)) \<and>
     list_all (readable_time pg) (heartbeat_timestamps d) \<and>
     list_all (readable_real pg) [hn_wifiRssiDbm (hb_network d), hl_latestRssiDbm (hb_lora d), hl_latestSnrDb (hb_lora d)]"

lemmas heartbeat_oks = heartbeat_ok_def gateway_ok_def runtime_ok_def network_ok_def time_ok_def lora_ok_def ack_ok_def
  queue_ok_def commands_ok_def

lemma status_row_stored:
  assumes "heartbeat_ok isIPv4 d" and "\<And>s. isIPv4 s \<Longrightarrow> pg_inet pg s"
    and "valid_date receivedAt" and "valid_date clock" and "0 \<le> gatewayId" and "gatewayId < 2 ^ 63"
  shows "status_row pg clock gatewayId d receivedAt \<noteq> None \<longleftrightarrow> status_storable pg d"
proof -
  note ok = assms(1) [unfolded heartbeat_oks]
  show ?thesis
    unfolding status_row_def row_of_None status_columns_def statusValues_def status_storable_def heartbeat_timestamps_def
      append_Cons append_Nil list_all2_Cons list_all2_Nil list.pred_inject
    using ok assms(2-6) fits_address [of isIPv4 "hn_localIp (hb_network d)" pg] by (simp add: column_rules) blast
qed

text \<open>What the columns hold that the checks of the table read.\<close>

lemma row_stored:
  assumes "row_of pg cs vs = Some r" and "distinct (map col_name cs)" and "i < length cs"
  shows "column_value pg (cs ! i) (vs ! i) = Some (cell_of r (col_name (cs ! i)))"
proof -
  have "list_all2 (fits pg) cs vs" using assms(1) row_of_None [of pg cs vs] by simp
  then have "fits pg (cs ! i) (vs ! i)" using assms(3) by (rule list_all2_nthD)
  then show ?thesis using row_cell [OF assms] by (auto simp: fits_def)
qed

lemma column_value_same:
  "column_value pg c (CInt n) = Some w \<Longrightarrow> w = CInt n"
  "column_value pg c (CBool b) = Some w \<Longrightarrow> w = CBool b"
  "column_value pg c (CTime t) = Some w \<Longrightarrow> w = CTime t"
  by (cases "col_type c"; auto simp: column_value_def split: if_splits)+

lemma column_value_CNull: "column_value pg c v = Some CNull \<longleftrightarrow> v = CNull \<and> col_nullable c"
proof (cases v)
  case CNull
  then show ?thesis by (cases "col_check c") (auto simp: column_value_def)
qed (cases "col_type c"; auto simp: column_value_def split: if_splits option.splits)+

lemma opt_cell_CNull: "(\<And>x. mk x \<noteq> CNull) \<Longrightarrow> opt_cell mk v = CNull \<longleftrightarrow> v = None"
  by (cases v) (auto simp: opt_cell_def)

lemma status_names: "distinct (map col_name status_columns)" "length status_columns = 69"
  by code_simp+

lemma status_values_length: "length (statusValues i d t) = 67"
  by (simp add: statusValues_def)

lemma status_cell:
  assumes "status_row pg clock i d t = Some r" and "k < 67"
  shows "column_value pg (status_columns ! k) (statusValues i d t ! k) = Some (cell_of r (col_name (status_columns ! k)))"
  using row_stored [OF assms(1) [unfolded status_row_def] status_names(1), of k] assms(2)
  by (simp add: status_names(2) status_values_length nth_append)

lemma status_column_names:
  "col_name (status_columns ! 1) = ''last_heartbeat_at''" "col_name (status_columns ! 3) = ''heartbeat_interval_seconds''"
  "col_name (status_columns ! 16) = ''wifi_connected''" "col_name (status_columns ! 18) = ''wifi_rssi_dbm''"
  "col_name (status_columns ! 19) = ''local_ip''" "col_name (status_columns ! 24) = ''time_valid''"
  "col_name (status_columns ! 25) = ''gateway_current_utc''" "col_name (status_columns ! 26) = ''last_ntp_sync_at''"
  "col_name (status_columns ! 27) = ''ntp_age_seconds''" "col_name (status_columns ! 39) = ''ack_count''"
  "col_name (status_columns ! 40) = ''ack_success_count''" "col_name (status_columns ! 41) = ''ack_failure_count''"
  "col_name (status_columns ! 55) = ''queue_depth''" "col_name (status_columns ! 56) = ''queue_capacity''"
  by code_simp+

lemma status_cells:
  assumes "status_row pg clock i d t = Some r"
  shows "cell_of r ''wifi_connected'' = CBool (hn_wifiConnected (hb_network d))"
    and "cell_of r ''wifi_rssi_dbm'' = CNull \<longleftrightarrow> hn_wifiRssiDbm (hb_network d) = None"
    and "cell_of r ''local_ip'' = CNull \<longleftrightarrow> hn_localIp (hb_network d) = None"
    and "cell_of r ''time_valid'' = CBool (ht_timeValid (hb_time d))"
    and "cell_of r ''gateway_current_utc'' = CNull \<longleftrightarrow> ht_currentUtc (hb_time d) = None"
    and "cell_of r ''last_ntp_sync_at'' = CNull \<longleftrightarrow> ht_lastNtpSyncAt (hb_time d) = None"
    and "cell_of r ''ntp_age_seconds'' = CNull \<longleftrightarrow> ht_ntpAgeSeconds (hb_time d) = None"
    and "cell_of r ''ack_count'' = CInt (ha_ackCount (hb_ack d))"
    and "cell_of r ''ack_success_count'' = CInt (ha_ackSuccessCount (hb_ack d))"
    and "cell_of r ''ack_failure_count'' = CInt (ha_ackFailureCount (hb_ack d))"
    and "cell_of r ''queue_depth'' = CInt (hu_depth (hb_queue d))"
    and "cell_of r ''queue_capacity'' = CInt (hu_capacity (hb_queue d))"
    and "cell_of r ''last_heartbeat_at'' = CTime t"
proof -
  note at_column = status_cell [OF assms]
  show "cell_of r ''wifi_connected'' = CBool (hn_wifiConnected (hb_network d))"
    "cell_of r ''time_valid'' = CBool (ht_timeValid (hb_time d))"
    "cell_of r ''ack_count'' = CInt (ha_ackCount (hb_ack d))"
    "cell_of r ''ack_success_count'' = CInt (ha_ackSuccessCount (hb_ack d))"
    "cell_of r ''ack_failure_count'' = CInt (ha_ackFailureCount (hb_ack d))"
    "cell_of r ''queue_depth'' = CInt (hu_depth (hb_queue d))"
    "cell_of r ''queue_capacity'' = CInt (hu_capacity (hb_queue d))"
    "cell_of r ''last_heartbeat_at'' = CTime t"
    using at_column [of 16] at_column [of 24] at_column [of 39] at_column [of 40] at_column [of 41] at_column [of 55]
      at_column [of 56] at_column [of 1]
    unfolding status_column_names by (auto simp: statusValues_def dest: column_value_same)
  have null: "cell_of r (col_name (status_columns ! k)) = CNull \<longleftrightarrow> statusValues i d t ! k = CNull"
    if "k < 67" "col_nullable (status_columns ! k)" for k
    using at_column [OF that(1)] column_value_CNull [of pg "status_columns ! k" "statusValues i d t ! k"] that(2) by auto
  have nullables: "col_nullable (status_columns ! 18)" "col_nullable (status_columns ! 19)" "col_nullable (status_columns ! 25)"
    "col_nullable (status_columns ! 26)" "col_nullable (status_columns ! 27)"
    by code_simp+
  show "cell_of r ''wifi_rssi_dbm'' = CNull \<longleftrightarrow> hn_wifiRssiDbm (hb_network d) = None"
    "cell_of r ''local_ip'' = CNull \<longleftrightarrow> hn_localIp (hb_network d) = None"
    "cell_of r ''gateway_current_utc'' = CNull \<longleftrightarrow> ht_currentUtc (hb_time d) = None"
    "cell_of r ''last_ntp_sync_at'' = CNull \<longleftrightarrow> ht_lastNtpSyncAt (hb_time d) = None"
    "cell_of r ''ntp_age_seconds'' = CNull \<longleftrightarrow> ht_ntpAgeSeconds (hb_time d) = None"
    using null [of 18] null [of 19] null [of 25] null [of 26] null [of 27] nullables
    unfolding status_column_names by (simp_all add: statusValues_def opt_cell_CNull)
qed

section \<open>Stored heartbeats\<close>

lemma complain_Nil [simp]: "complain wrong message = [] \<longleftrightarrow> \<not> wrong"
  by (simp add: complain_def)

lemma relationships_hold:
  assumes "relationship_errors dateParse d = []"
  shows "wifi_consistent (hb_network d)" and "time_consistent (hb_time d)"
    and "ha_ackCount (hb_ack d) = ha_ackSuccessCount (hb_ack d) + ha_ackFailureCount (hb_ack d)"
    and "hu_depth (hb_queue d) \<le> hu_capacity (hb_queue d)"
  using assms unfolding relationship_errors_def Let_def append_is_Nil_conv complain_Nil by simp_all

definition wifi_storable :: "heartbeat_network \<Rightarrow> bool" where
  "wifi_storable n \<longleftrightarrow> hn_wifiConnected n \<or> (hn_wifiRssiDbm n = None \<and> hn_localIp n = None)"

lemma status_checks_iff:
  assumes "status_row pg clock i d t = Some r" and "relationship_errors dateParse d = []"
  shows "status_checks r \<longleftrightarrow> wifi_storable (hb_network d)"
  using relationships_hold [OF assms(2)] status_cells [OF assms(1)]
  by (auto simp: status_checks_def queue_check_def wifi_storable_def wifi_consistent_def time_consistent_def split: if_splits)

lemma metrics_insert_order:
  "map (\<lambda>name. hd (filter (\<lambda>c. col_name c = name) metrics_columns)) metrics_insert_columns = tl metrics_columns"
  by code_simp

lemma metrics_names: "distinct (map col_name (tl metrics_columns))" "length (tl metrics_columns) = 28"
  "col_name (tl metrics_columns ! 15) = ''queue_depth''" "col_name (tl metrics_columns ! 16) = ''queue_capacity''"
  "col_name (tl metrics_columns ! 0) = ''gateway_id''" "col_name (tl metrics_columns ! 1) = ''sampled_at''"
  by code_simp+

lemma metrics_row_stored:
  assumes "heartbeat_ok isIPv4 d" and "status_storable pg d" and "valid_date receivedAt" and "0 \<le> i" and "i < 2 ^ 63"
  shows "metrics_row pg n i d receivedAt \<noteq> None"
proof -
  note ok = assms(1) [unfolded heartbeat_oks]
  have "list_all2 (fits pg) (tl metrics_columns) (metricsValues i d receivedAt)"
    unfolding metrics_columns_def list.sel metricsValues_def list_all2_Cons list_all2_Nil
    using ok assms(2-5) by (simp add: column_rules status_storable_def)
  then have "row_of pg (tl metrics_columns) (metricsValues i d receivedAt) \<noteq> None" by (simp only: row_of_None)
  then show ?thesis by (simp add: metrics_row_def metrics_insert_order)
qed

lemma metrics_cells:
  assumes "metrics_row pg n i d t = Some m"
  shows "cell_of m ''queue_depth'' = CInt (hu_depth (hb_queue d))"
    and "cell_of m ''queue_capacity'' = CInt (hu_capacity (hb_queue d))"
    and "cell_of m ''gateway_id'' = CInt i" and "cell_of m ''sampled_at'' = CTime t" and "cell_of m ''id'' = CInt n"
proof -
  obtain r where r: "row_of pg (tl metrics_columns) (metricsValues i d t) = Some r" "m = (''id'', CInt n) # r"
    using assms by (auto simp: metrics_row_def metrics_insert_order)
  have skip: "cell_of m name = cell_of r name" if "name \<noteq> ''id''" for name
    using that by (simp add: r(2) cell_of_def dict_get_def)
  note at_column = row_stored [OF r(1) metrics_names(1), unfolded metrics_names(2)]
  show "cell_of m ''queue_depth'' = CInt (hu_depth (hb_queue d))" "cell_of m ''queue_capacity'' = CInt (hu_capacity (hb_queue d))"
    "cell_of m ''gateway_id'' = CInt i" "cell_of m ''sampled_at'' = CTime t"
    using at_column [of 15] at_column [of 16] at_column [of 0] at_column [of 1] unfolding metrics_names
    by (auto simp: skip metricsValues_def dest: column_value_same)
  show "cell_of m ''id'' = CInt n" by (simp add: r(2) cell_of_def dict_get_def)
qed

section \<open>Resolving a gateway\<close>

lemma gateways_ok_unique:
  assumes "gateways_ok d"
  shows "gateways_unique (db_gateways d)"
proof -
  have "map gw_hardware_mac (dict_values (db_gateways d)) = dict_keys (db_gateways d)"
    using assms by (force simp: gateways_ok_def list_all_iff dict_values_def dict_keys_def)
  then show ?thesis using assms by (simp add: gateways_unique_def gateways_ok_def dict_ok_def dict_keys_def)
qed

lemma map_at_key:
  assumes "dict_ok m" and "dict_get m k = Some e" and "\<And>k' v. (k', v) \<in> set m \<Longrightarrow> P v \<longleftrightarrow> k' = k"
  shows "map (\<lambda>(k', v). (k', if P v then f v else v)) m = dict_set k (f e) m"
  using assms
proof (induction m)
  case (Cons p m)
  obtain k1 v1 where p: "p = (k1, v1)" by fastforce
  show ?case
  proof (cases "k1 = k")
    case True
    then have "e = v1" using Cons.prems(2) by (simp add: p dict_get_def)
    moreover have "map (\<lambda>(k', v). (k', if P v then f v else v)) m = m"
    proof (rule map_idI)
      fix q assume q: "q \<in> set m"
      then have "fst q \<noteq> k" using Cons.prems(1) True by (auto simp: p dict_ok_def)
      then show "(case q of (k', v) \<Rightarrow> (k', if P v then f v else v)) = q" using Cons.prems(3) q by (cases q) auto
    qed
    ultimately show ?thesis using True Cons.prems(3) [of k1 v1] by (simp add: p)
  next
    case False
    then have "map (\<lambda>(k', v). (k', if P v then f v else v)) m = dict_set k (f e) m"
      using Cons.prems by (intro Cons.IH) (auto simp: p dict_ok_def dict_get_def)
    then show ?thesis using False Cons.prems(3) [of k1 v1] by (simp add: p)
  qed
qed (simp add: dict_get_def)

text \<open>The heartbeat describes its gateway as a telemetry request does.\<close>

definition descriptor_of :: "heartbeat_gateway \<Rightarrow> gateway_descriptor" where
  "descriptor_of g = \<lparr> gd_gatewayId = hg_gatewayId g, gd_hardwareMac = hg_mac g,
     gd_firmwareVersion = hg_firmwareVersion g, gd_bootSessionId = 0 \<rparr>"

definition resolved_row :: "heartbeat_gateway \<Rightarrow> js_date \<Rightarrow> db \<Rightarrow> gateway_row" where
  "resolved_row g receivedAt d = upserted_gateway (db_gatewaySeq d) (descriptor_of g) receivedAt
     (dict_get (db_gateways d) (to_upper (hg_mac g)))"

lemma find_in: "find P xs = Some r \<Longrightarrow> r \<in> set xs \<and> P r"
  by (induction xs) (auto split: if_splits)

lemma find_by_mac:
  assumes "gateways_ok d"
  shows "find (\<lambda>r. gw_hardware_mac r = mac) (filter (\<lambda>r. gw_hardware_mac r = mac \<or> Q r) (dict_values (db_gateways d)))
    = dict_get (db_gateways d) mac"
proof -
  have "find (\<lambda>r. gw_hardware_mac r = mac) (filter (\<lambda>r. gw_hardware_mac r = mac \<or> Q r) (map snd m)) = map_of m mac"
    if "list_all (\<lambda>(k, r). gw_hardware_mac r = k) m" for m
    using that by (induction m) auto
  moreover have "list_all (\<lambda>(k, r). gw_hardware_mac r = k) (db_gateways d)"
    using assms by (auto simp: gateways_ok_def list_all_iff)
  ultimately show ?thesis by (simp add: dict_values_def dict_get_def)
qed

lemma resolve_conflict:
  assumes "gateways_ok d"
  shows "(case find (\<lambda>r. gw_logical_gateway_id r = logical)
        (filter (\<lambda>r. gw_hardware_mac r = mac \<or> gw_logical_gateway_id r = logical) (dict_values (db_gateways d))) of
      None \<Rightarrow> False | Some r \<Rightarrow> gw_hardware_mac r \<noteq> mac) \<longleftrightarrow> \<not> logical_id_free (db_gateways d) mac logical"
proof -
  let ?vs = "filter (\<lambda>r. gw_hardware_mac r = mac \<or> gw_logical_gateway_id r = logical) (dict_values (db_gateways d))"
  have ok: "dict_ok (db_gateways d)" using assms by (simp add: gateways_ok_def)
  have keyed: "r \<in> set (dict_values (db_gateways d)) \<longleftrightarrow> dict_get (db_gateways d) (gw_hardware_mac r) = Some r" for r
    using assms unfolding dict_values_get [OF ok] gateways_ok_iff by metis
  show ?thesis
  proof (cases "find (\<lambda>r. gw_logical_gateway_id r = logical) ?vs")
    case None
    then have "\<forall>r\<in>set (dict_values (db_gateways d)). gw_logical_gateway_id r \<noteq> logical" by (auto simp: find_None_iff)
    then show ?thesis unfolding logical_id_free_iff [OF ok] using None dict_get_values by fastforce
  next
    case (Some r)
    from find_in [OF this] have r: "r \<in> set (dict_values (db_gateways d))" "gw_logical_gateway_id r = logical" by auto
    have own: "dict_get (db_gateways d) (gw_hardware_mac r) = Some r" using r(1) keyed by blast
    have "(\<forall>m g. dict_get (db_gateways d) m = Some g \<longrightarrow> gw_logical_gateway_id g = logical \<longrightarrow> m = mac) \<longleftrightarrow>
        gw_hardware_mac r = mac"
    proof
      assume "gw_hardware_mac r = mac"
      then show "\<forall>m g. dict_get (db_gateways d) m = Some g \<longrightarrow> gw_logical_gateway_id g = logical \<longrightarrow> m = mac"
        using own r(2) assms unfolding gateways_ok_iff by metis
    qed (use own r(2) in blast)
    then show ?thesis using Some by (simp add: logical_id_free_iff [OF ok])
  qed
qed

lemma resolveGateway_taken:
  assumes "gateways_ok d" and "\<not> logical_id_free (db_gateways d) (to_upper (hg_mac g)) (hg_gatewayId g)"
  shows "resolveGateway g receivedAt d = (Inl (HEARTBEAT_REJECTED ''gatewayId is already registered to another MAC''), d)"
  using assms(2) resolve_conflict [OF assms(1)] by (simp add: resolveGateway_def Let_def)

lemma resolved_row_facts:
  assumes "gateways_ok d"
  shows "gw_logical_gateway_id (resolved_row g t d) = hg_gatewayId g"
    and "gw_hardware_mac (resolved_row g t d) = to_upper (hg_mac g)"
    and "gw_id (resolved_row g t d) =
      (case dict_get (db_gateways d) (to_upper (hg_mac g)) of None \<Rightarrow> db_gatewaySeq d | Some e \<Rightarrow> gw_id e)"
    and "0 < gw_id (resolved_row g t d)"
    and "gw_id (resolved_row g t d) < db_gatewaySeq d +
      (case dict_get (db_gateways d) (to_upper (hg_mac g)) of None \<Rightarrow> 1 | Some e \<Rightarrow> 0)"
  using assms unfolding gateways_ok_iff
  by (auto simp: resolved_row_def upserted_gateway_def descriptor_of_def split: option.splits)

lemma resolveGateway_free:
  assumes ok: "gateways_ok d" and free: "logical_id_free (db_gateways d) (to_upper (hg_mac g)) (hg_gatewayId g)"
    and "valid_date receivedAt"
  shows "\<exists>d'. resolveGateway g receivedAt d = (Inr (gw_id (resolved_row g receivedAt d)), d') \<and>
    d' = d\<lparr>db_gateways := dict_set (to_upper (hg_mac g)) (resolved_row g receivedAt d) (db_gateways d), db_gatewaySeq :=
      db_gatewaySeq d + (case dict_get (db_gateways d) (to_upper (hg_mac g)) of None \<Rightarrow> 1 | Some e \<Rightarrow> 0)\<rparr> \<and>
    gateways_ok d' \<and> keeps_gateways d d'"
proof -
  let ?mac = "to_upper (hg_mac g)" and ?row = "resolved_row g receivedAt d"
  let ?n = "db_gatewaySeq d + (case dict_get (db_gateways d) ?mac of None \<Rightarrow> 1 | Some e \<Rightarrow> 0)"
  let ?d = "d\<lparr>db_gateways := dict_set ?mac ?row (db_gateways d), db_gatewaySeq := ?n\<rparr>"
  note row = resolved_row_facts [OF ok, of g receivedAt]
  have good: "gateways_ok ?d"
    using free row by (intro gateways_ok_set [OF ok]) (auto split: option.splits)
  have unique: "gateways_unique (dict_set ?mac ?row (db_gateways d))" using gateways_ok_unique [OF good] by simp
  have keeps: "keeps_gateways d ?d"
    by (rule keeps_gateways_set [of _ ?mac ?row]) (auto simp: resolved_row_def upserted_gateway_def)
  note facts = resolve_conflict [OF ok, where logical = "hg_gatewayId g" and mac = ?mac] find_by_mac [OF ok, of ?mac "\<lambda>r. gw_logical_gateway_id r = hg_gatewayId g"]
  have "resolveGateway g receivedAt d = (Inr (gw_id ?row), ?d)"
  proof (cases "dict_get (db_gateways d) ?mac")
    case None
    then have "db_gateways d @ [(?mac, ?row)] = dict_set ?mac ?row (db_gateways d)"
      by (subst dict_set_fresh) (auto simp: dict_get_def map_of_eq_None_iff)
    moreover have "?row = \<lparr> gw_id = db_gatewaySeq d, gw_hardware_mac = ?mac, gw_logical_gateway_id = hg_gatewayId g,
        gw_firmware_version = hg_firmwareVersion g, gw_first_seen_at = receivedAt, gw_last_seen_at = receivedAt \<rparr>"
      using None by (simp add: resolved_row_def upserted_gateway_def descriptor_of_def)
    ultimately show ?thesis
      using None free assms(3) facts unique by (simp add: resolveGateway_def Let_def)
  next
    case (Some e)
    have "gw_id v = gw_id e \<longleftrightarrow> k = ?mac" if "(k, v) \<in> set (db_gateways d)" for k v
    proof -
      have "dict_get (db_gateways d) k = Some v" using that ok by (simp add: gateways_ok_def dict_get_eq)
      with Some show ?thesis using ok unfolding gateways_ok_iff by (metis option.inject)
    qed
    moreover have "?row = e\<lparr> gw_logical_gateway_id := hg_gatewayId g, gw_firmware_version := hg_firmwareVersion g,
        gw_last_seen_at := receivedAt \<rparr>"
      using Some by (simp add: resolved_row_def upserted_gateway_def descriptor_of_def)
    ultimately have "update_gateway (gw_id e) g receivedAt (db_gateways d) = dict_set ?mac ?row (db_gateways d)"
      using ok Some unfolding update_gateway_def by (simp add: gateways_ok_def map_at_key)
    moreover have "gw_id e = gw_id ?row" using Some row(3) by simp
    ultimately show ?thesis
      using Some free assms(3) facts unique by (simp add: resolveGateway_def Let_def)
  qed
  with good keeps show ?thesis by blast
qed

section \<open>Accepting a heartbeat\<close>

lemma resolveGateway_registry:
  assumes "resolveGateway g receivedAt d = (r, d')" and "gateways_ok d"
  shows "gateways_ok d' \<and> keeps_gateways d d' \<and> db_gatewaySeq d \<le> db_gatewaySeq d'"
proof (cases "logical_id_free (db_gateways d) (to_upper (hg_mac g)) (hg_gatewayId g) \<and> valid_date receivedAt")
  case True
  with resolveGateway_free [OF assms(2), of g receivedAt] assms(1) show ?thesis by (auto split: option.splits)
next
  case False
  have "d' = d \<or> d' = d\<lparr>db_gatewaySeq := db_gatewaySeq d + 1\<rparr>"
  proof (cases "valid_date receivedAt")
    case True
    with False resolveGateway_taken [OF assms(2)] assms(1) show ?thesis by auto
  next
    case invalid: False
    with assms(1) show ?thesis by (auto simp: resolveGateway_def Let_def split: if_splits option.splits)
  qed
  with assms(2) gateways_ok_seq [OF assms(2)] show ?thesis by (auto simp: keeps_gateways_same)
qed

lemma persist_heartbeat_registry:
  assumes "gateways_ok (gs_db s)"
  shows "gateways_ok (gs_db (snd (persist_heartbeat pg clock d t s))) \<and>
    keeps_gateways (gs_db s) (gs_db (snd (persist_heartbeat pg clock d t s)))"
proof -
  obtain q db1 where q: "resolveGateway (hb_gateway d) t (gs_db s) = (q, db1)" by fastforce
  obtain r s' where r: "persist_rows pg clock d t s = (r, s')" by fastforce
  note reg = resolveGateway_registry [OF q assms]
  have s': "gs_db s' = db1"
    using r by (auto simp: persist_rows_def q Let_def split: sum.splits option.splits if_splits)
  have undone: "gateways_ok ((gs_db s)\<lparr>db_gatewaySeq := db_gatewaySeq db1\<rparr>)"
    using reg gateways_ok_seq [OF assms] by simp
  show ?thesis
    using reg undone by (cases r) (auto simp: persist_heartbeat_def r s' keeps_gateways_same split: unit.splits)
qed

lemma accept_heartbeat_registry:
  assumes "gateways_ok (gs_db s)"
  shows "gateways_ok (gs_db (snd (accept_heartbeat E clock t d s))) \<and>
    keeps_gateways (gs_db s) (gs_db (snd (accept_heartbeat E clock t d s)))"
proof -
  obtain r s' where r: "persist_heartbeat (he_pg E) clock d t s = (r, s')" by fastforce
  have "gs_db (snd (accept_heartbeat E clock t d s)) = gs_db s \<or> gs_db (snd (accept_heartbeat E clock t d s)) = gs_db s'"
    by (auto simp: accept_heartbeat_def r Let_def split: sum.splits option.splits unit.splits)
  with persist_heartbeat_registry [OF assms, of "he_pg E" clock d t] assms show ?thesis
    by (auto simp: r keeps_gateways_same)
qed

definition heartbeat_storable :: "pg_input \<Rightarrow> gateway_heartbeat \<Rightarrow> db \<Rightarrow> bool" where
  "heartbeat_storable pg d db \<longleftrightarrow> status_storable pg d \<and> wifi_storable (hb_network d) \<and>
     logical_id_free (db_gateways db) (to_upper (hg_mac (hb_gateway d))) (hg_gatewayId (hb_gateway d))"

lemma persist_rows_iff:
  assumes ok: "heartbeat_ok isIPv4 d" and inet: "\<And>s. isIPv4 s \<Longrightarrow> pg_inet pg s"
    and dates: "valid_date receivedAt" "valid_date clock" and reg: "gateways_ok (gs_db s)"
    and seq: "db_gatewaySeq (gs_db s) < 2 ^ 63" and rel: "relationship_errors dateParse d = []"
  shows "(\<exists>s'. persist_rows pg clock d receivedAt s = (Inr (), s')) \<longleftrightarrow> heartbeat_storable pg d (gs_db s)"
proof (cases "logical_id_free (db_gateways (gs_db s)) (to_upper (hg_mac (hb_gateway d))) (hg_gatewayId (hb_gateway d))")
  case False
  then show ?thesis
    using resolveGateway_taken [OF reg] by (simp add: persist_rows_def heartbeat_storable_def)
next
  case True
  let ?i = "gw_id (resolved_row (hb_gateway d) receivedAt (gs_db s))"
  obtain db1 where resolved: "resolveGateway (hb_gateway d) receivedAt (gs_db s) = (Inr ?i, db1)"
    using resolveGateway_free [OF reg True dates(1)] by blast
  have i: "0 \<le> ?i" "?i < 2 ^ 63"
    using resolved_row_facts(4,5) [OF reg, of "hb_gateway d" receivedAt] seq by (auto split: option.splits)
  note stored = status_row_stored [OF ok inet dates i]
  show ?thesis
  proof (cases "status_row pg clock ?i d receivedAt")
    case None
    with stored True show ?thesis by (simp add: persist_rows_def resolved heartbeat_storable_def)
  next
    case (Some row)
    then have storable: "status_storable pg d" using stored by simp
    obtain m where m: "metrics_row pg (gs_metricsSeq s) ?i d receivedAt = Some m"
      using metrics_row_stored [OF ok storable dates(1) i] by blast
    have "queue_check m"
      using metrics_cells(1,2) [OF m] relationships_hold(4) [OF rel] by (simp add: queue_check_def)
    then show ?thesis
      using status_checks_iff [OF Some rel] True storable
      by (simp add: persist_rows_def resolved Some m Let_def heartbeat_storable_def)
  qed
qed

definition sample_heartbeat :: gateway_heartbeat where
  "sample_heartbeat = \<lparr> hb_schemaVersion = 1, hb_heartbeatIntervalSeconds = Some 60,
     hb_gateway = \<lparr> hg_gatewayId = ''gw-1'', hg_mac = ''aa:bb:cc:dd:ee:ff'', hg_firmwareVersion = ''2.2.0'',
       hg_protocolVersion = 3, hg_buildFlavor = ''prod'' \<rparr>,
     hb_runtime = \<lparr> hr_uptimeSeconds = 5, hr_resetReason = ''POWERON'', hr_bootCount = 1, hr_freeHeapBytes = 100,
       hr_minFreeHeapBytes = 90, hr_largestFreeHeapBlockBytes = 80, hr_sketchSizeBytes = 70, hr_freeSketchSpaceBytes = 60,
       hr_flashSizeBytes = 50 \<rparr>,
     hb_network = \<lparr> hn_wifiConnected = False, hn_ssid = ''lab'', hn_wifiRssiDbm = None, hn_localIp = None,
       hn_backendConnectivityState = ''UNKNOWN'', hn_lastBackendSuccessAt = None, hn_lastBackendErrorAt = None,
       hn_consecutiveBackendFailures = 0 \<rparr>,
     hb_time = \<lparr> ht_timeValid = False, ht_currentUtc = None, ht_lastNtpSyncAt = None, ht_ntpAgeSeconds = None \<rparr>,
     hb_lora = \<lparr> hl_pairedNodeId = Some ''n1'', hl_lastLoRaRxAt = None, hl_latestRssiDbm = Some (Fin (- 80)),
       hl_latestSnrDb = Some (Fin 7), hl_latestFrequencyErrorHz = Some 12, hl_receivedPacketCount = 3,
       hl_validTelemetryCount = 2, hl_invalidPacketCount = 1, hl_crcErrorCount = 0, hl_protocolRejectedPacketCount = 0,
       hl_unpairedRejectedPacketCount = 0 \<rparr>,
     hb_ack = \<lparr> ha_ackCount = 3, ha_ackSuccessCount = 2, ha_ackFailureCount = 1, ha_latencySampleCount = 0,
       ha_latestRxToAckStartMs = None, ha_latestRxToAckCompleteMs = None, ha_latestAckTxDurationMs = None,
       ha_minRxToAckStartMs = None, ha_maxRxToAckStartMs = None, ha_avgRxToAckStartMs = None,
       ha_minRxToAckCompleteMs = None, ha_maxRxToAckCompleteMs = None, ha_avgRxToAckCompleteMs = None,
       ha_minAckTxDurationMs = None, ha_maxAckTxDurationMs = None, ha_avgAckTxDurationMs = None \<rparr>,
     hb_queue = \<lparr> hu_depth = 0, hu_capacity = 64, hu_oldestRecordAgeSeconds = None,
       hu_telemetryUploadSuccessCount = 2, hu_telemetryUploadFailureCount = 0 \<rparr>,
     hb_commands = \<lparr> hc_pendingCommandId = None, hc_pendingCommandType = None, hc_pendingCommandState = None,
       hc_lastCommandId = None, hc_lastCommandResult = None, hc_commandsSentCount = 0,
       hc_commandResultsReceivedCount = 0 \<rparr> \<rparr>"

text \<open>A disconnected gateway that still reports an address.\<close>

definition half_connected :: gateway_heartbeat where
  "half_connected = sample_heartbeat\<lparr>hb_network := (hb_network sample_heartbeat)\<lparr>hn_localIp := Some ''10.0.0.2''\<rparr>\<rparr>"

definition sample_env :: heartbeat_env where
  "sample_env = \<lparr> he_dateParse = (\<lambda>_. InvalidDate),
     he_pg = \<lparr> pg_timestamp = (\<lambda>_. None), pg_inet = (\<lambda>s. s = ''10.0.0.2''), pg_real = Some \<rparr>,
     he_payloadBytes = (\<lambda>_. 2000) \<rparr>"

definition sample_store :: gateway_store where
  "sample_store = \<lparr> gs_db = empty_db, gs_status = [], gs_metrics = [], gs_metricsSeq = 1, gs_events = [] \<rparr>"

lemma sample_heartbeats_ok:
  "heartbeat_ok (\<lambda>s. s = ''10.0.0.2'') sample_heartbeat" "heartbeat_ok (\<lambda>s. s = ''10.0.0.2'') half_connected"
  "relationship_errors (he_dateParse sample_env) sample_heartbeat = []"
  "relationship_errors (he_dateParse sample_env) half_connected = []"
  "heartbeat_storable (he_pg sample_env) sample_heartbeat (gs_db sample_store)"
  "\<not> wifi_storable (hb_network half_connected)" "gateways_ok (gs_db sample_store)"
  by code_simp+

section \<open>Properties\<close>

text \<open>
  C30: A heartbeat that passed the validation of its fields is accepted exactly when its relationships
  hold, its size is allowed, its gateway identifier is not held by another address, and the tables can
  take it: the last needs an interval that is not \<open>null\<close>, no zero character in the network name,
  times and single precision numbers that the database reads, and a gateway without a connection that
  reports neither signal nor address, which the relationships do not ask for. No other check of the two
  tables can fail, for none of their 67 and 28 values.
\<close>

theorem heartbeat_accepted_iff:
  assumes "heartbeat_ok isIPv4 d" and "\<And>s. isIPv4 s \<Longrightarrow> pg_inet (he_pg E) s"
    and "valid_date receivedAt" and "valid_date clock"
    and "gateways_ok (gs_db s)" and "db_gatewaySeq (gs_db s) < 2 ^ 63"
  shows "(\<exists>r. fst (accept_heartbeat E clock receivedAt d s) = Inr r) \<longleftrightarrow>
    relationship_errors (he_dateParse E) d = [] \<and> he_payloadBytes E d \<le> MAX_HEARTBEAT_BYTES \<and>
    heartbeat_storable (he_pg E) d (gs_db s)"
proof (cases "relationship_errors (he_dateParse E) d = [] \<and> he_payloadBytes E d \<le> MAX_HEARTBEAT_BYTES")
  case False
  then show ?thesis by (auto simp: accept_heartbeat_def validateRelationships_def Let_def)
next
  case True
  obtain at_text where iso: "toISOString receivedAt = Some at_text" using toISOString_valid [OF assms(3)] by blast
  obtain r s' where r: "persist_rows (he_pg E) clock d receivedAt s = (r, s')" by fastforce
  have "(\<exists>u. r = Inr u) \<longleftrightarrow> heartbeat_storable (he_pg E) d (gs_db s)"
    using persist_rows_iff [OF assms, of "he_dateParse E"] True r by auto
  moreover have "(\<exists>v. fst (accept_heartbeat E clock receivedAt d s) = Inr v) \<longleftrightarrow> (\<exists>u. r = Inr u)"
    using True iso by (cases r) (auto simp: accept_heartbeat_def validateRelationships_def persist_heartbeat_def r Let_def
      split: unit.splits)
  ultimately show ?thesis using True by blast
qed

theorem heartbeat_accepted_iff_witness:
  "(\<exists>r. fst (accept_heartbeat sample_env (Date 5) (Date 4) sample_heartbeat sample_store) = Inr r) \<and>
   \<not> (\<exists>r. fst (accept_heartbeat sample_env (Date 5) (Date 4) half_connected sample_store) = Inr r) \<and>
   heartbeat_ok (\<lambda>s. s = ''10.0.0.2'') half_connected \<and>
   relationship_errors (he_dateParse sample_env) half_connected = []"
proof (intro conjI)
  note facts = sample_heartbeats_ok
  show "\<exists>r. fst (accept_heartbeat sample_env (Date 5) (Date 4) sample_heartbeat sample_store) = Inr r"
    by (subst heartbeat_accepted_iff [OF facts(1)])
      (use facts in \<open>simp_all add: sample_env_def sample_store_def empty_db_def MAX_HEARTBEAT_BYTES_def\<close>)
  show "\<not> (\<exists>r. fst (accept_heartbeat sample_env (Date 5) (Date 4) half_connected sample_store) = Inr r)"
    by (subst heartbeat_accepted_iff [OF facts(2)])
      (use facts in \<open>simp_all add: sample_env_def sample_store_def empty_db_def heartbeat_storable_def\<close>)
qed (rule sample_heartbeats_ok)+

text \<open>
  C31: Heartbeats and ingestion keep one registry of gateways: whatever the request and whether it
  succeeds or not, no two addresses share a serial number or a logical identifier afterwards, and every
  registered address keeps its serial number and the time it was first seen.
\<close>

theorem registry_kept:
  assumes "gateways_ok (gs_db s)"
  shows "gateways_ok (gs_db (snd (accept_heartbeat E clock receivedAt d s))) \<and>
    keeps_gateways (gs_db s) (gs_db (snd (accept_heartbeat E clock receivedAt d s))) \<and>
    gateways_ok (snd (ingest dateParse maximumBatchSize clock now receivedAt request (gs_db s))) \<and>
    keeps_gateways (gs_db s) (snd (ingest dateParse maximumBatchSize clock now receivedAt request (gs_db s)))"
  using accept_heartbeat_registry [OF assms] ingest_registry [OF assms] by blast

theorem registry_kept_witness:
  "gateways_ok (gs_db (snd (accept_heartbeat sample_env (Date 5) (Date 4) sample_heartbeat sample_store)))"
proof -
  have "gateways_ok (gs_db sample_store)" by (rule sample_heartbeats_ok)
  from registry_kept [OF this] show ?thesis by blast
qed

end
