(* ===== verification/Gateway_Status.thy ===== *)
theory Gateway_Status
  imports Gateway_Heartbeat
begin

text \<open>
  What the dashboard reads of the gateways: \<open>list\<close>, \<open>detail\<close> and \<open>metrics\<close> of
  \<^verbatim>\<open>src/src/iot/repositories/gateway-heartbeat.repository.ts\<close> and
  \<^verbatim>\<open>src/src/iot/models/gateway-heartbeat.models.ts\<close>. The parser of dates and the text that
  the database gives a time in a JSON value are parameters; the buckets of a chart are counted from the
  epoch in universal time. The lemmas show that the state of a gateway
  agrees with the deadlines shown beside it, that a chart has at most the points it promises, one for
  each bucket, and that the status row holds what the last accepted heartbeat said.
\<close>

section \<open>Freshness\<close>

datatype heartbeat_state = ONLINE | STALE | OFFLINE | HEARTBEAT_UNAVAILABLE

record gateway_freshness =
  fr_state :: heartbeat_state
  fr_ageSeconds :: "jsnum option"
  fr_onlineUntil :: "string option"
  fr_staleUntil :: "string option"

fun time_num :: "js_date \<Rightarrow> jsnum" where
  "time_num (Date t) = num_of_int t"
| "time_num InvalidDate = NaN"

fun deadline_date :: "jsnum \<Rightarrow> js_date" where
  "deadline_date (Fin q) = new_date (trunc_rat q)"
| "deadline_date v = InvalidDate"

definition iso_text :: "js_date \<Rightarrow> (heartbeat_error, string) result" where
  "iso_text t = (case toISOString t of None \<Rightarrow> Inl (HEARTBEAT_FAILED ''Invalid time value'') | Some s \<Rightarrow> Inr s)"

definition gatewayFreshness ::
  "js_date option \<Rightarrow> jsnum option \<Rightarrow> js_date \<Rightarrow> (heartbeat_error, gateway_freshness) result" where
  "gatewayFreshness lastHeartbeatAt heartbeatIntervalSeconds now =
     (case (lastHeartbeatAt, heartbeatIntervalSeconds) of
        (Some lastBeat, Some interval) \<Rightarrow>
          (let ageSeconds = js_max (Fin 0) (js_div (js_sub (time_num now) (time_num lastBeat)) (Fin 1000));
               onlineUntil = deadline_date (js_add (time_num lastBeat) (js_mul interval (Fin 2000)));
               staleUntil = deadline_date (js_add (time_num lastBeat) (js_mul interval (Fin 5000))) in
           res_bind (iso_text onlineUntil) (\<lambda>online. res_bind (iso_text staleUntil) (\<lambda>stale.
             Inr \<lparr> fr_state =
                 (if js_le ageSeconds (js_mul interval (Fin 2)) then ONLINE
                  else if js_le ageSeconds (js_mul interval (Fin 5)) then STALE else OFFLINE),
               fr_ageSeconds = Some ageSeconds, fr_onlineUntil = Some online, fr_staleUntil = Some stale \<rparr>)))
      | _ \<Rightarrow> Inr \<lparr> fr_state = HEARTBEAT_UNAVAILABLE, fr_ageSeconds = None, fr_onlineUntil = None, fr_staleUntil = None \<rparr>)"

section \<open>Reading gateways\<close>

text \<open>\<open>/_([a-z])/g\<close> replaced by the upper case letter.\<close>

fun camel :: "string \<Rightarrow> string" where
  "camel (a # b # s) = (if a = CHR ''_'' \<and> is_lower b then ascii_upper b # camel s else a # camel (b # s))"
| "camel s = s"

definition numeric :: "jsval \<Rightarrow> jsval" where
  "numeric v = (case v of
     JStr s \<Rightarrow> if s \<noteq> [] \<and> list_all is_digit_char s then JNum (number_of_string s) else v
   | _ \<Rightarrow> v)"

text \<open>The members of \<open>to_jsonb(s)\<close>; the text of a time is a parameter.\<close>

definition json_cell :: "(js_date \<Rightarrow> string) \<Rightarrow> cell \<Rightarrow> jsval" where
  "json_cell timeText v = (case v of
     CNull \<Rightarrow> JNull | CInt n \<Rightarrow> JNum (num_of_int n) | CNum x \<Rightarrow> JNum x | CText s \<Rightarrow> JStr s
   | CBool b \<Rightarrow> JBool b | CTime t \<Rightarrow> JStr (timeText t))"

definition camelObject :: "(string \<times> jsval) list \<Rightarrow> (string, jsval) dict" where
  "camelObject members = foldl (\<lambda>m (key, v). dict_set (camel key) (numeric v) m) [] members"

definition opt_iso :: "js_date option \<Rightarrow> (heartbeat_error, jsval) result" where
  "opt_iso v = (case v of None \<Rightarrow> Inr JNull | Some t \<Rightarrow> res_bind (iso_text t) (\<lambda>s. Inr (JStr s)))"

record gateway_view =
  gv_gatewayId :: string
  gv_hardwareMac :: string
  gv_firstSeenAt :: jsval
  gv_lastSeenAt :: jsval
  gv_registryFirmwareVersion :: string
  gv_latestNodeId :: "string option"
  gv_latestReceptionAt :: jsval
  gv_telemetryCount :: nat
  gv_heartbeatSampleCount :: nat
  gv_heartbeat :: "(string, jsval) dict option"
  gv_freshness :: gateway_freshness
  gv_statusBasis :: string

definition gateway_telemetry :: "int \<Rightarrow> db \<Rightarrow> telemetry_row list" where
  "gateway_telemetry i d = filter (\<lambda>t. tr_gateway_id t = i) (db_telemetry d)"

definition mapGateway ::
  "(string \<Rightarrow> js_date) \<Rightarrow> (js_date \<Rightarrow> string) \<Rightarrow> js_date \<Rightarrow> gateway_store \<Rightarrow> gateway_row \<Rightarrow>
   (heartbeat_error, gateway_view) result" where
  "mapGateway dateParse timeText now s g =
     (let raw = map_option (map (\<lambda>(key, v). (key, json_cell timeText v))) (dict_get (gs_status s) (gw_id g));
          heartbeat = map_option (\<lambda>r. dict_delete ''gatewayId'' (camelObject r)) raw;
          lastBeat = map_option (\<lambda>r. dateParse (case dict_get r ''last_heartbeat_at'' of Some (JStr t) \<Rightarrow> t | _ \<Rightarrow> ''null'')) raw;
          interval = map_option (\<lambda>r. case dict_get r ''heartbeat_interval_seconds'' of Some (JNum n) \<Rightarrow> n | _ \<Rightarrow> Fin 0) raw;
          latest = sort_by newer_first (gateway_telemetry (gw_id g) (gs_db s)) in
      res_bind (opt_iso (Some (gw_first_seen_at g))) (\<lambda>firstSeen.
      res_bind (opt_iso (Some (gw_last_seen_at g))) (\<lambda>lastSeen.
      res_bind (opt_iso (case latest of [] \<Rightarrow> None | t # _ \<Rightarrow> Some (tr_server_received_at t))) (\<lambda>reception.
      res_bind (gatewayFreshness lastBeat interval now) (\<lambda>freshness.
        Inr \<lparr> gv_gatewayId = gw_logical_gateway_id g, gv_hardwareMac = gw_hardware_mac g,
          gv_firstSeenAt = firstSeen, gv_lastSeenAt = lastSeen, gv_registryFirmwareVersion = gw_firmware_version g,
          gv_latestNodeId = (case latest of [] \<Rightarrow> None | t # _ \<Rightarrow> Some (tr_node_id t)),
          gv_latestReceptionAt = reception,
          gv_telemetryCount = length latest,
          gv_heartbeatSampleCount = length (filter (\<lambda>m. cell_of m ''gateway_id'' = CInt (gw_id g)) (gs_metrics s)),
          gv_heartbeat = heartbeat, gv_freshness = freshness,
          gv_statusBasis = (if raw = None then ''LEGACY_ACTIVITY_ONLY: no Firmware 2.2 heartbeat received''
            else ''authoritative Backend heartbeat reception time'') \<rparr>)))))"

text \<open>The latest heartbeat, or else the latest request, first; the order of equal times is that of the table.\<close>

definition last_activity :: "gateway_store \<Rightarrow> gateway_row \<Rightarrow> js_date" where
  "last_activity s g = (case dict_get (gs_status s) (gw_id g) of
     None \<Rightarrow> gw_last_seen_at g | Some r \<Rightarrow> cell_time (cell_of r ''last_heartbeat_at''))"

definition gateway_list ::
  "(string \<Rightarrow> js_date) \<Rightarrow> (js_date \<Rightarrow> string) \<Rightarrow> js_date \<Rightarrow> gateway_store \<Rightarrow> (heartbeat_error, gateway_view list) result" where
  "gateway_list dateParse timeText now s =
     traverse (mapGateway dateParse timeText now s)
       (sort_by (\<lambda>a b. date_le (last_activity s b) (last_activity s a)) (dict_values (db_gateways (gs_db s))))"

definition validateGatewayId :: "string \<Rightarrow> (heartbeat_error, unit) result" where
  "validateGatewayId v = (if id_pattern 48 v then Inr () else Inl (HEARTBEAT_REJECTED ''Invalid Gateway ID''))"

definition gateway_detail ::
  "(string \<Rightarrow> js_date) \<Rightarrow> (js_date \<Rightarrow> string) \<Rightarrow> string \<Rightarrow> js_date \<Rightarrow> gateway_store \<Rightarrow> (heartbeat_error, gateway_view) result" where
  "gateway_detail dateParse timeText gatewayId now s =
     res_bind (validateGatewayId gatewayId) (\<lambda>_.
     res_bind (gateway_list dateParse timeText now s) (\<lambda>rows.
       case find (\<lambda>r. gv_gatewayId r = gatewayId) rows of None \<Rightarrow> Inl HEARTBEAT_GATEWAY_UNKNOWN | Some r \<Rightarrow> Inr r))"

section \<open>Reading metrics\<close>

text \<open>
  A range is looked up in an object literal, whose prototype has members of its own: these are
  functions, with a name and neither an interval nor a bucket, and the prototype itself.
\<close>

record metric_range =
  rg_name :: "string option"
  rg_span :: "(int \<times> int) option"

definition metric_ranges :: "(string \<times> int \<times> int) list" where
  "metric_ranges = [(''1h'', 3600000, 5000), (''24h'', 86400000, 120000), (''7d'', 604800000, 900000),
     (''30d'', 2592000000, 3600000)]"

definition inherited_members :: "(string \<times> string option) list" where
  "inherited_members = (''constructor'', Some ''Object'') # (''__proto__'', None) #
     map (\<lambda>name. (name, Some name)) [''hasOwnProperty'', ''isPrototypeOf'', ''propertyIsEnumerable'', ''toLocaleString'',
       ''toString'', ''valueOf'', ''__defineGetter__'', ''__defineSetter__'', ''__lookupGetter__'', ''__lookupSetter__'']"

definition metricRange :: "string \<Rightarrow> (heartbeat_error, metric_range) result" where
  "metricRange v = (case map_of metric_ranges v of
     Some w \<Rightarrow> Inr \<lparr> rg_name = Some v, rg_span = Some w \<rparr>
   | None \<Rightarrow> (case map_of inherited_members v of
       Some name \<Rightarrow> Inr \<lparr> rg_name = name, rg_span = None \<rparr>
     | None \<Rightarrow> Inl (HEARTBEAT_REJECTED ''range must be 1h, 24h, 7d, or 30d'')))"

definition sample_ms :: "table_row \<Rightarrow> int" where
  "sample_ms r = (case cell_of r ''sampled_at'' of CTime (Date t) \<Rightarrow> t | _ \<Rightarrow> 0)"

definition sample_id :: "table_row \<Rightarrow> int" where
  "sample_id r = cell_int (cell_of r ''id'')"

definition later_sample :: "table_row \<Rightarrow> table_row \<Rightarrow> bool" where
  "later_sample a b \<longleftrightarrow> sample_ms b < sample_ms a \<or> (sample_ms a = sample_ms b \<and> sample_id b \<le> sample_id a)"

text \<open>The samples of the period whose rank in their bucket is one, in the order of their times.\<close>

definition period_samples :: "int option \<Rightarrow> int \<Rightarrow> int \<Rightarrow> table_row list \<Rightarrow> table_row list" where
  "period_samples gateway interval now rows =
     filter (\<lambda>r. (case gateway of None \<Rightarrow> False | Some i \<Rightarrow> cell_of r ''gateway_id'' = CInt i) \<and>
       now - interval \<le> sample_ms r) rows"

definition ranked_samples :: "int \<Rightarrow> table_row list \<Rightarrow> table_row list" where
  "ranked_samples bucket rows = sort_by (\<lambda>a b. sample_ms a \<le> sample_ms b)
     (filter (\<lambda>r. list_all (\<lambda>r'. sample_ms r' div bucket = sample_ms r div bucket \<longrightarrow> later_sample r r') rows) rows)"

definition driver_value :: "string \<Rightarrow> cell \<Rightarrow> jsval" where
  "driver_value name v = (case v of
     CNull \<Rightarrow> JNull
   | CInt n \<Rightarrow> (case find (\<lambda>c. col_name c = name) metrics_columns of
       Some c \<Rightarrow> if col_type c = BIGINT then JStr (show_int n) else JNum (num_of_int n)
     | None \<Rightarrow> JNum (num_of_int n))
   | CNum x \<Rightarrow> JNum x | CText s \<Rightarrow> JStr s | CBool b \<Rightarrow> JBool b | CTime t \<Rightarrow> JDate t)"

definition mapMetric :: "table_row \<Rightarrow> (heartbeat_error, (string, jsval) dict) result" where
  "mapMetric r =
     res_bind (traverse (\<lambda>(key, v). case driver_value key v of
         JDate t \<Rightarrow> res_bind (iso_text t) (\<lambda>s. Inr (camel key, JStr s))
       | w \<Rightarrow> Inr (camel key, numeric w))
       (filter (\<lambda>(key, v). key \<notin> set [''id'', ''gateway_id'', ''rank'']) r))
     (\<lambda>members. Inr (foldl (\<lambda>m (key, v). dict_set key v m) [] members))"

definition MAXIMUM_POINTS :: nat where "MAXIMUM_POINTS = 1000"

record metrics_view =
  mv_range :: "string option"
  mv_maximumPoints :: nat
  mv_points :: "(string, jsval) dict list"

definition gateway_number :: "string \<Rightarrow> gateway_store \<Rightarrow> int option" where
  "gateway_number gatewayId s =
     map_option gw_id (find (\<lambda>g. gw_logical_gateway_id g = gatewayId) (dict_values (db_gateways (gs_db s))))"

definition gateway_metrics ::
  "string \<Rightarrow> string \<Rightarrow> int \<Rightarrow> gateway_store \<Rightarrow> (heartbeat_error, metrics_view) result" where
  "gateway_metrics gatewayId period now s =
     res_bind (validateGatewayId gatewayId) (\<lambda>_.
     res_bind (metricRange period) (\<lambda>selected.
       let gateway = gateway_number gatewayId s;
           rows = (case rg_span selected of None \<Rightarrow> []
             | Some (interval, bucket) \<Rightarrow> ranked_samples bucket (period_samples gateway interval now (gs_metrics s))) in
       res_bind (traverse mapMetric rows) (\<lambda>points.
         Inr \<lparr> mv_range = rg_name selected, mv_maximumPoints = MAXIMUM_POINTS, mv_points = points \<rparr>)))"

section \<open>Seconds of a millisecond clock\<close>

lemma round_sixteenth_grid:
  assumes "0 \<le> k" and "k \<le> 2 ^ 36"
  shows "round_binary64 (of_int (65536 * k + 1) * pow2 (- 16)) = of_int (65536 * k + 1) * pow2 (- 16)"
proof -
  let ?q = "of_int (65536 * k + 1) * pow2 (- 16)"
  have pos: "0 < ?q" using assms(1) by (intro mult_pos_pos) simp_all
  have "(of_int (65536 * k + 1) :: rat) < of_int (2 ^ 53)" using assms(2) by (simp only: of_int_less_iff) simp
  then have "?q < of_int (2 ^ 53) * pow2 (- 16)" by (intro mult_strict_right_mono) simp_all
  also have "\<dots> = pow2 37" by (simp add: pow2_def)
  finally have "?q < pow2 37" .
  moreover have "pow2 (ilog2 ?q) \<le> ?q" using ilog2_spec [OF pos] by blast
  ultimately have "ilog2 ?q < 37" using pow2_less_iff by (meson order_le_less_trans)
  then have e: "ulp_exp ?q \<le> - 16" using pos by (simp add: ulp_exp_def)
  have "?q = of_int ((65536 * k + 1) * 2 ^ nat (- 16 - ulp_exp ?q)) * pow2 (ulp_exp ?q)"
    using pow2_grid [OF e] by (simp add: mult.assoc)
  then show ?thesis by (rule round_binary64_grid)
qed

lemma quotient_finite:
  assumes "\<bar>x\<bar> \<le> 2 ^ 53" and "1 \<le> m"
  shows "\<exists>r. mk_num (of_int x / of_int m) = Fin r"
proof -
  have "(\<bar>of_int x\<bar> :: rat) \<le> of_int (2 ^ 53)" using assms(1) by (simp only: flip: of_int_abs of_int_le_iff)
  moreover have "\<bar>of_int x / of_int m :: rat\<bar> \<le> \<bar>of_int x\<bar> / 1"
    unfolding abs_divide using assms(2) by (intro divide_left_mono) simp_all
  ultimately have "\<bar>of_int x / of_int m :: rat\<bar> \<le> of_int (2 ^ 53)" by simp
  then show ?thesis using mk_num_bounded [of _ "2 ^ 53"] by blast
qed

text \<open>A quotient is compared with an integer as if it were exact.\<close>

lemma quotient_le:
  assumes "\<bar>x\<bar> \<le> 2 ^ 53" and "0 \<le> k" and "k \<le> 2 ^ 36" and "1 \<le> m" and "m \<le> 65536"
  shows "js_le (mk_num (of_int x / of_int m)) (num_of_int k) \<longleftrightarrow> x \<le> m * k"
proof -
  have m: "(0::rat) < of_int m" using assms(4) by simp
  obtain r where r: "mk_num (of_int x / of_int m) = Fin r" using quotient_finite [OF assms(1,4)] by blast
  then have rr: "r = round_binary64 (of_int x / of_int m)" by (auto simp: mk_num_def Let_def split: if_splits)
  have k: "round_binary64 (of_int k) = of_int k" using assms(2,3) by (intro round_binary64_int) simp
  have "r \<le> of_int k" if "x \<le> m * k"
  proof -
    have "(of_int x :: rat) \<le> of_int (m * k)" using that by (simp only: of_int_le_iff)
    then have "of_int x / of_int m \<le> (of_int k :: rat)" using m by (simp add: divide_le_eq mult.commute)
    then show ?thesis using round_binary64_mono k rr by metis
  qed
  moreover have "of_int k < r" if "\<not> x \<le> m * k"
  proof -
    have "m * k + 1 \<le> x" using that by simp
    then have "(of_int (m * k + 1) :: rat) \<le> of_int x" by (simp only: of_int_le_iff)
    then have "(of_int m * of_int k + 1 :: rat) \<le> of_int x" by simp
    then have "(of_int m * of_int k + 1) / of_int m \<le> (of_int x / of_int m :: rat)" using m by (intro divide_right_mono) simp_all
    then have "(of_int k + 1 / of_int m :: rat) \<le> of_int x / of_int m" using m by (simp add: add_divide_distrib)
    moreover have "(1 / 65536 :: rat) \<le> 1 / of_int m" using assms(5) m by (simp add: field_simps)
    moreover have "of_int (65536 * k + 1) * pow2 (- 16) = (of_int k + 1 / 65536 :: rat)" by (simp add: pow2_def field_simps)
    ultimately have "of_int (65536 * k + 1) * pow2 (- 16) \<le> (of_int x / of_int m :: rat)" by linarith
    then have "of_int (65536 * k + 1) * pow2 (- 16) \<le> r"
      using round_binary64_mono round_sixteenth_grid [OF assms(2,3)] rr by metis
    moreover have "(of_int k :: rat) < of_int (65536 * k + 1) * pow2 (- 16)" by (simp add: pow2_def field_simps)
    ultimately show ?thesis by (rule order_less_le_trans [rotated])
  qed
  ultimately have "r \<le> of_int k \<longleftrightarrow> x \<le> m * k" using not_le by blast
  then show ?thesis using r by (simp add: num_of_int_def)
qed

lemma seconds_finite: "\<bar>x\<bar> \<le> 2 ^ 53 \<Longrightarrow> \<exists>r. mk_num (of_int x / 1000) = Fin r"
  using quotient_finite [of x 1000] by simp

lemma seconds_le: "\<bar>x\<bar> \<le> 2 ^ 53 \<Longrightarrow> 0 \<le> k \<Longrightarrow> k \<le> 2 ^ 36 \<Longrightarrow> js_le (mk_num (of_int x / 1000)) (num_of_int k) \<longleftrightarrow> x \<le> 1000 * k"
  using quotient_le [of x k 1000] by simp

lemma js_le_age: "js_le (js_max (Fin 0) (Fin r)) (Fin b) \<longleftrightarrow> 0 \<le> b \<and> r \<le> b"
  by (auto simp: js_max_def)

lemma gatewayFreshness_dates:
  assumes "0 \<le> l" and "l + 5000 * i \<le> max_time_value" and "0 \<le> n" and "n \<le> max_time_value" and "0 \<le> i" and "i \<le> 3600"
  shows "\<exists>f. gatewayFreshness (Some (Date l)) (Some (num_of_int i)) (Date n) = Inr f \<and>
    fr_state f = (if n \<le> l + 2000 * i then ONLINE else if n \<le> l + 5000 * i then STALE else OFFLINE) \<and>
    fr_onlineUntil f = toISOString (Date (l + 2000 * i)) \<and> fr_staleUntil f = toISOString (Date (l + 5000 * i))"
proof -
  note limits = assms [unfolded max_time_value_def]
  have arith: "js_sub (num_of_int n) (num_of_int l) = num_of_int (n - l)"
    "js_mul (num_of_int i) (Fin 2) = num_of_int (2 * i)" "js_mul (num_of_int i) (Fin 5) = num_of_int (5 * i)"
    "js_mul (num_of_int i) (Fin 2000) = num_of_int (2000 * i)" "js_mul (num_of_int i) (Fin 5000) = num_of_int (5000 * i)"
    "js_add (num_of_int l) (num_of_int (2000 * i)) = num_of_int (l + 2000 * i)"
    "js_add (num_of_int l) (num_of_int (5000 * i)) = num_of_int (l + 5000 * i)"
    using limits mk_num_int [of "n - l"] mk_num_int [of "i * 2"] mk_num_int [of "i * 5"] mk_num_int [of "i * 2000"]
      mk_num_int [of "i * 5000"] mk_num_int [of "l + 2000 * i"] mk_num_int [of "l + 5000 * i"]
    by (simp_all add: js_sub_def num_of_int_def mult.commute)
  have dates: "deadline_date (num_of_int m) = new_date m" for m by (simp add: num_of_int_def trunc_rat_def)
  have clip: "new_date (l + 2000 * i) = Date (l + 2000 * i)" "new_date (l + 5000 * i) = Date (l + 5000 * i)"
    using limits by (simp_all add: new_date_def max_time_value_def)
  have "\<bar>n - l\<bar> \<le> 2 ^ 53" using limits by simp
  then obtain r where age: "mk_num (of_int (n - l) / 1000) = Fin r" using seconds_finite by blast
  have le: "js_le (js_max (Fin 0) (Fin r)) (num_of_int k) \<longleftrightarrow> n - l \<le> 1000 * k" if "0 \<le> k" "k \<le> 18000" for k
    using seconds_le [of "n - l" k] limits that unfolding age num_of_int_def js_le_age by (simp add: num_of_int_def)
  have age2: "js_div (num_of_int (n - l)) (Fin 1000) = Fin r" using age by (simp add: num_of_int_def)
  obtain a b where iso: "toISOString (Date (l + 2000 * i)) = Some a" "toISOString (Date (l + 5000 * i)) = Some b"
    using toISOString_valid by (metis valid_date.simps(1))
  have "n - l \<le> 1000 * (2 * i) \<longleftrightarrow> n \<le> l + 2000 * i" "n - l \<le> 1000 * (5 * i) \<longleftrightarrow> n \<le> l + 5000 * i" by auto
  then show ?thesis
    using limits le [of "2 * i"] le [of "5 * i"]
    by (simp add: gatewayFreshness_def Let_def arith age2 dates clip iso iso_text_def del: toISOString.simps)
qed

text \<open>
  C32: The state of a gateway agrees with the deadlines shown beside it: it is online until
  \<open>onlineUntil\<close>, which is two intervals after the last heartbeat, stale until \<open>staleUntil\<close>, which
  is five, and offline from then on, to the millisecond and in spite of the rounding of seconds.
\<close>

theorem freshness_spec:
  assumes "0 \<le> l" and "l + 5000 * i \<le> max_time_value" and "0 \<le> n" and "n \<le> max_time_value" and "0 \<le> i" and "i \<le> 3600"
  shows "\<exists>f. gatewayFreshness (Some (Date l)) (Some (num_of_int i)) (Date n) = Inr f \<and>
    fr_state f = (if n \<le> l + 2000 * i then ONLINE else if n \<le> l + 5000 * i then STALE else OFFLINE) \<and>
    fr_onlineUntil f = toISOString (Date (l + 2000 * i)) \<and> fr_staleUntil f = toISOString (Date (l + 5000 * i))"
  using assms by (rule gatewayFreshness_dates)

theorem freshness_spec_witness:
  "\<exists>f. gatewayFreshness (Some (Date 1000)) (Some (num_of_int 60)) (Date 121001) = Inr f \<and> fr_state f = STALE"
  using freshness_spec [of 1000 60 121001] by (auto simp: max_time_value_def)

section \<open>Charts\<close>

lemma ranked_samples_mem:
  "r \<in> set (ranked_samples bucket rows) \<longleftrightarrow> r \<in> set rows \<and>
     (\<forall>r'\<in>set rows. sample_ms r' div bucket = sample_ms r div bucket \<longrightarrow> later_sample r r')"
  by (auto simp: ranked_samples_def list_all_iff)

lemma later_sample_antisym:
  "later_sample a b \<Longrightarrow> later_sample b a \<Longrightarrow> sample_ms a = sample_ms b \<and> sample_id a = sample_id b"
  by (auto simp: later_sample_def)

lemma later_sample_trans: "later_sample a b \<Longrightarrow> later_sample b c \<Longrightarrow> later_sample a c"
  by (auto simp: later_sample_def)

lemma later_sample_total: "later_sample a b \<or> later_sample b a"
  by (auto simp: later_sample_def)

text \<open>A finite list that is not empty has a latest sample.\<close>

lemma latest_exists: "xs \<noteq> [] \<Longrightarrow> \<exists>m\<in>set xs. \<forall>x\<in>set xs. later_sample m x"
proof (induction xs)
  case (Cons x xs)
  show ?case
  proof (cases "xs = []")
    case True
    then show ?thesis using later_sample_total [of x x] by simp
  next
    case False
    then obtain m where m: "m \<in> set xs" "\<forall>y\<in>set xs. later_sample m y" using Cons.IH by blast
    show ?thesis
    proof (cases "later_sample m x")
      case True
      with m show ?thesis by auto
    next
      case below: False
      then have "later_sample x m" using later_sample_total by blast
      then have "later_sample x y" if "y \<in> set xs" for y using m(2) that later_sample_trans by blast
      moreover have "later_sample x x" using later_sample_total by blast
      ultimately show ?thesis by auto
    qed
  qed
qed simp

lemma ranked_represents:
  assumes "r \<in> set rows"
  shows "\<exists>p\<in>set (ranked_samples bucket rows). sample_ms p div bucket = sample_ms r div bucket \<and> later_sample p r"
proof -
  let ?xs = "filter (\<lambda>r'. sample_ms r' div bucket = sample_ms r div bucket) rows"
  have "?xs \<noteq> []" using assms by (auto simp: filter_empty_conv)
  then obtain m where "m \<in> set ?xs" "\<forall>x\<in>set ?xs. later_sample m x" using latest_exists by blast
  with assms show ?thesis by (intro bexI [of _ m]) (auto simp: ranked_samples_mem)
qed

lemma ranked_one_per_bucket:
  assumes "distinct (map sample_id rows)"
  shows "distinct (map (\<lambda>r. sample_ms r div bucket) (ranked_samples bucket rows))"
proof -
  have "inj_on sample_id (set rows)" "distinct rows" using assms by (simp_all add: distinct_map)
  have "distinct (ranked_samples bucket rows) \<longleftrightarrow> distinct (filter (\<lambda>r. list_all (\<lambda>r'.
      sample_ms r' div bucket = sample_ms r div bucket \<longrightarrow> later_sample r r') rows) rows)"
    by (rule mset_eq_imp_distinct_iff) (simp add: ranked_samples_def)
  then have "distinct (ranked_samples bucket rows)" using \<open>distinct rows\<close> by simp
  moreover have "inj_on (\<lambda>r. sample_ms r div bucket) (set (ranked_samples bucket rows))"
  proof (rule inj_onI)
    fix a b assume a: "a \<in> set (ranked_samples bucket rows)" "b \<in> set (ranked_samples bucket rows)"
      and same: "sample_ms a div bucket = sample_ms b div bucket"
    then have "later_sample a b" "later_sample b a" by (auto simp: ranked_samples_mem)
    then have "sample_id a = sample_id b" using later_sample_antisym by blast
    with a \<open>inj_on sample_id (set rows)\<close> show "a = b" by (auto simp: ranked_samples_mem inj_on_def)
  qed
  ultimately show ?thesis by (simp add: distinct_map)
qed

lemma ranked_count:
  assumes "distinct (map sample_id rows)" and "0 < bucket"
    and "\<And>r. r \<in> set rows \<Longrightarrow> now - m * bucket \<le> sample_ms r \<and> sample_ms r \<le> now" and "0 \<le> m"
  shows "length (ranked_samples bucket rows) \<le> nat (m + 1)"
proof -
  let ?f = "\<lambda>r. sample_ms r div bucket"
  have "?f ` set (ranked_samples bucket rows) \<subseteq> {now div bucket - m .. now div bucket}"
  proof
    fix k assume "k \<in> ?f ` set (ranked_samples bucket rows)"
    then obtain r where r: "r \<in> set rows" "k = ?f r" by (auto simp: ranked_samples_mem)
    have "(now - m * bucket) div bucket \<le> k" "k \<le> now div bucket"
      using assms(3) [OF r(1)] assms(2) by (auto simp: r(2) intro: zdiv_mono1)
    moreover have "(now - m * bucket) div bucket = now div bucket - m"
      using assms(2) div_mult_self2 [of bucket now "- m"] by (simp add: mult.commute)
    ultimately show "k \<in> {now div bucket - m .. now div bucket}" by simp
  qed
  then have "card (?f ` set (ranked_samples bucket rows)) \<le> nat (m + 1)"
    using card_mono [of "{now div bucket - m .. now div bucket}"] assms(4) by fastforce
  moreover have "card (set (map ?f (ranked_samples bucket rows))) = length (map ?f (ranked_samples bucket rows))"
    by (intro distinct_card ranked_one_per_bucket assms(1))
  ultimately show ?thesis by simp
qed

lemma metric_spans:
  assumes "map_of metric_ranges period = Some (interval, bucket)"
  shows "0 < bucket \<and> (\<exists>m. interval = m * bucket \<and> 0 \<le> m \<and> m \<le> 720)"
proof -
  have "(period, interval, bucket) \<in> set metric_ranges" by (rule map_of_SomeD [OF assms])
  then have "(interval, bucket) \<in> {(720 * 5000, 5000), (720 * 120000, 120000), (672 * 900000, 900000), (720 * 3600000, 3600000)}"
    by (auto simp: metric_ranges_def)
  then show ?thesis by fastforce
qed

text \<open>
  A chart has at most the thousand points it promises, whatever the number of heartbeats: for
  samples whose serial numbers differ and that are not in the future there are at most 721, in the order
  of their times, and for each of the four ranges every sample of the gateway in the period is
  represented by a point of its bucket that is not older.
\<close>

theorem chart_bounded:
  assumes "gateway_metrics gatewayId period now s = Inr v"
    and "distinct (map sample_id (gs_metrics s))" and "\<And>r. r \<in> set (gs_metrics s) \<Longrightarrow> sample_ms r \<le> now"
  shows "\<exists>rows. list_all2 (\<lambda>r p. mapMetric r = Inr p) rows (mv_points v) \<and>
    length (mv_points v) \<le> 721 \<and> 721 \<le> mv_maximumPoints v \<and> sorted (map sample_ms rows) \<and>
    (\<forall>interval bucket r. map_of metric_ranges period = Some (interval, bucket) \<longrightarrow>
      r \<in> set (period_samples (gateway_number gatewayId s) interval now (gs_metrics s)) \<longrightarrow>
      (\<exists>p. p \<in> set rows \<and> sample_ms p div bucket = sample_ms r div bucket \<and> later_sample p r))"
proof -
  obtain selected where sel: "metricRange period = Inr selected"
    using assms(1) by (auto simp: gateway_metrics_def res_bind_Inr)
  define rows where "rows = (case rg_span selected of None \<Rightarrow> []
    | Some (interval, bucket) \<Rightarrow> ranked_samples bucket (period_samples (gateway_number gatewayId s) interval now (gs_metrics s)))"
  have v: "traverse mapMetric rows = Inr (mv_points v)" "mv_maximumPoints v = MAXIMUM_POINTS"
    using assms(1) by (auto simp: gateway_metrics_def res_bind_Inr sel rows_def Let_def)
  then have points: "list_all2 (\<lambda>r p. mapMetric r = Inr p) rows (mv_points v)" by (simp add: traverse_Inr)
  have span: "rg_span selected = map_of metric_ranges period"
    using sel by (auto simp: metricRange_def split: option.splits)
  have facts: "length rows \<le> 721 \<and> sorted (map sample_ms rows)"
  proof (cases "map_of metric_ranges period")
    case None
    then show ?thesis by (simp add: rows_def span)
  next
    case (Some w)
    obtain interval bucket where w: "w = (interval, bucket)" by fastforce
    let ?ps = "period_samples (gateway_number gatewayId s) interval now (gs_metrics s)"
    obtain m where m: "0 < bucket" "interval = m * bucket" "0 \<le> m" "m \<le> 720" using metric_spans Some w by blast
    have "distinct (map sample_id ?ps)" using assms(2) by (simp add: period_samples_def distinct_map_filter)
    moreover have "now - m * bucket \<le> sample_ms r \<and> sample_ms r \<le> now" if "r \<in> set ?ps" for r
      using that assms(3) m(2) by (auto simp: period_samples_def)
    ultimately have "length (ranked_samples bucket ?ps) \<le> nat (m + 1)" using m(1,3) by (intro ranked_count)
    moreover have "nat (m + 1) \<le> 721" using m(4) by simp
    moreover have "sorted (map sample_ms (ranked_samples bucket ?ps))"
      unfolding ranked_samples_def sorted_map
      by (rule sorted_wrt_sort_by [of UNIV]) (auto simp: preorder_on_set_def)
    ultimately show ?thesis by (simp add: rows_def span Some w)
  qed
  have "\<exists>p. p \<in> set rows \<and> sample_ms p div bucket = sample_ms r div bucket \<and> later_sample p r"
    if "map_of metric_ranges period = Some (interval, bucket)"
      "r \<in> set (period_samples (gateway_number gatewayId s) interval now (gs_metrics s))" for interval bucket r
    using ranked_represents [OF that(2), of bucket] by (auto simp: rows_def span that(1))
  moreover have "length (mv_points v) = length rows" using points by (simp add: list_all2_lengthD)
  ultimately show ?thesis using points facts v(2) by (intro exI [of _ rows]) (simp add: MAXIMUM_POINTS_def)
qed

section \<open>What an accepted heartbeat leaves\<close>

lemma foldl_dict_set:
  "dict_get (foldl (\<lambda>r c. dict_set c (f c) r) e cs) k = (if k \<in> set cs then Some (f k) else dict_get e k)"
  by (induction cs arbitrary: e) (auto simp: dict_get_set)

text \<open>The conflict clause sets every column that the statement gives a value but the key.\<close>

lemma updated_columns:
  "list_all (\<lambda>k. col_name (status_columns ! k) \<in> set status_update_columns \<and> col_name (status_columns ! k) \<noteq> ''updated_at'')
     [1..<67]"
  "col_name (status_columns ! 0) = ''gateway_id''" "''gateway_id'' \<notin> set status_update_columns"
  by code_simp+

definition status_keys_ok :: "gateway_store \<Rightarrow> bool" where
  "status_keys_ok s \<longleftrightarrow> dict_ok (gs_status s) \<and> list_all (\<lambda>(i, row). cell_of row ''gateway_id'' = CInt i) (gs_status s)"

lemma status_keys_get: "status_keys_ok s \<Longrightarrow> dict_get (gs_status s) i = Some row \<Longrightarrow> cell_of row ''gateway_id'' = CInt i"
  by (auto simp: status_keys_ok_def list_all_iff dest: dict_get_in)

lemma upserted_status_cell:
  assumes "k < 67" and "\<And>e. existing = Some e \<Longrightarrow> cell_of e ''gateway_id'' = cell_of row ''gateway_id''"
  shows "cell_of (upserted_status clock row existing) (col_name (status_columns ! k)) = cell_of row (col_name (status_columns ! k))"
proof (cases existing)
  case (Some e)
  show ?thesis
  proof (cases "k = 0")
    case True
    then show ?thesis
      using assms(2) [OF Some] updated_columns(2,3)
      by (simp add: upserted_status_def Some cell_of_def dict_get_set foldl_dict_set)
  next
    case False
    then have "k \<in> set [1..<67]" using assms(1) by simp
    then have "col_name (status_columns ! k) \<in> set status_update_columns" "col_name (status_columns ! k) \<noteq> ''updated_at''"
      using updated_columns(1) unfolding list_all_iff by blast+
    then show ?thesis by (simp add: upserted_status_def Some cell_of_def [of "dict_set _ _ _"] dict_get_set foldl_dict_set)
  qed
qed (simp add: upserted_status_def)

lemma persist_rows_Inr:
  assumes "persist_rows pg clock d t s = (Inr u, s')"
  obtains i db1 row m where "resolveGateway (hb_gateway d) t (gs_db s) = (Inr i, db1)"
    and "status_row pg clock i d t = Some row" and "metrics_row pg (gs_metricsSeq s) i d t = Some m"
    and "s' = s\<lparr>gs_db := db1, gs_metricsSeq := gs_metricsSeq s + 1, gs_status := dict_set i
      (upserted_status clock row (dict_get (gs_status s) i)) (gs_status s), gs_metrics := gs_metrics s @ [m]\<rparr>"
  using assms by (auto simp: persist_rows_def Let_def split: sum.splits prod.splits option.splits if_splits)

lemma accept_heartbeat_Inr:
  assumes "accept_heartbeat E clock t d s = (Inr r, s')"
  obtains s1 at_text where "persist_rows (he_pg E) clock d t s = (Inr (), s1)" and "toISOString t = Some at_text"
    and "r = (at_text, hg_gatewayId (hb_gateway d))"
    and "s' = s1\<lparr>gs_events := gs_events s1 @ [(hg_gatewayId (hb_gateway d), at_text)]\<rparr>"
  using assms by (auto simp: accept_heartbeat_def persist_heartbeat_def Let_def split: sum.splits prod.splits option.splits
      if_splits unit.splits)

lemma resolveGateway_Inr:
  assumes "resolveGateway g t d = (Inr i, d')" and "gateways_ok d"
  shows "i = gw_id (resolved_row g t d) \<and> dict_get (db_gateways d') (to_upper (hg_mac g)) = Some (resolved_row g t d)"
proof (cases "logical_id_free (db_gateways d) (to_upper (hg_mac g)) (hg_gatewayId g)")
  case True
  have "valid_date t" using assms(1) by (auto simp: resolveGateway_def Let_def split: if_splits option.splits)
  from resolveGateway_free [OF assms(2) True this] assms(1) show ?thesis by (auto simp: dict_get_set)
next
  case False
  with assms resolveGateway_taken show ?thesis by fastforce
qed


lemma sample_accepted:
  "case accept_heartbeat sample_env (Date 5) (Date 4) sample_heartbeat sample_store of (Inr r, s') \<Rightarrow> True | _ \<Rightarrow> False"
  by code_simp

lemma case_accepted: "(case p of (Inr r, s) \<Rightarrow> True | _ \<Rightarrow> False) \<Longrightarrow> \<exists>r s. p = (Inr r, s)"
  by (cases p; cases "fst p") auto


definition sample_chart :: gateway_store where
  "sample_chart = sample_store\<lparr>
     gs_db := empty_db\<lparr>db_gateways := [(''AA'', \<lparr> gw_id = 1, gw_hardware_mac = ''AA'', gw_logical_gateway_id = ''gw-1'',
       gw_firmware_version = ''2.2.0'', gw_first_seen_at = Date 1, gw_last_seen_at = Date 1 \<rparr>)]\<rparr>,
     gs_metrics := map (\<lambda>(i, t). [(''id'', CInt i), (''gateway_id'', CInt 1), (''sampled_at'', CTime (Date t)),
       (''uptime_seconds'', CInt t)]) [(1, 1000), (2, 4000), (3, 9000)]\<rparr>"

lemma sample_chart_rows:
  "ranked_samples 5000 (period_samples (gateway_number ''gw-1'' sample_chart) 3600000 10000 (gs_metrics sample_chart))
     = drop 1 (gs_metrics sample_chart)"
  by code_simp

lemma mapMetric_times:
  assumes "\<And>key v. (key, v) \<in> set r \<Longrightarrow> (case driver_value key v of JDate t \<Rightarrow> valid_date t | _ \<Rightarrow> True)"
  shows "\<exists>p. mapMetric r = Inr p"
proof -
  have "\<exists>ms. traverse (\<lambda>(key, v). case driver_value key v of
         JDate t \<Rightarrow> res_bind (iso_text t) (\<lambda>s. Inr (camel key, JStr s))
       | w \<Rightarrow> Inr (camel key, numeric w)) (filter (\<lambda>(key, v). key \<notin> set [''id'', ''gateway_id'', ''rank'']) r) = Inr ms"
  proof (rule traverse_total)
    fix q assume "q \<in> set (filter (\<lambda>(key, v). key \<notin> set [''id'', ''gateway_id'', ''rank'']) r)"
    then have "q \<in> set r" unfolding set_filter by blast
    then obtain key v where q: "q = (key, v)" "(key, v) \<in> set r" by (metis surj_pair)
    show "\<exists>y. (case q of (key, v) \<Rightarrow> (case driver_value key v of
         JDate t \<Rightarrow> res_bind (iso_text t) (\<lambda>s. Inr (camel key, JStr s))
       | w \<Rightarrow> Inr (camel key, numeric w))) = Inr y"
      using assms [OF q(2)] toISOString_valid
      by (cases "driver_value key v") (auto simp: q(1) iso_text_def split: option.splits)
  qed
  then show ?thesis by (auto simp: mapMetric_def)
qed

theorem chart_bounded_witness:
  "\<exists>v. gateway_metrics ''gw-1'' ''1h'' 10000 sample_chart = Inr v \<and> length (mv_points v) \<le> 721 \<and> 721 \<le> mv_maximumPoints v"
proof -
  have "\<exists>p. mapMetric r = Inr p" if "r \<in> set (gs_metrics sample_chart)" for r
    by (rule mapMetric_times) (use that in \<open>auto simp: sample_chart_def driver_value_def split: option.splits\<close>)
  then obtain ps where ps: "traverse mapMetric (drop 1 (gs_metrics sample_chart)) = Inr ps"
    using traverse_total [of "drop 1 (gs_metrics sample_chart)" mapMetric] by (meson in_set_dropD)
  have "metricRange ''1h'' = Inr \<lparr> rg_name = Some ''1h'', rg_span = Some (3600000, 5000) \<rparr>"
    "validateGatewayId ''gw-1'' = Inr ()"
    by code_simp+
  then obtain v where v: "gateway_metrics ''gw-1'' ''1h'' 10000 sample_chart = Inr v"
    using sample_chart_rows ps by (simp add: gateway_metrics_def)
  have "distinct (map sample_id (gs_metrics sample_chart))" "list_all (\<lambda>r. sample_ms r \<le> 10000) (gs_metrics sample_chart)"
    by code_simp+
  with chart_bounded [OF v] v show ?thesis by (auto simp: list_all_iff)
qed

section \<open>Two readings of the code\<close>

text \<open>
  A text of digits in the status row, a network name for one, is shown as a number; and a range that
  names a member of every object is answered with an empty chart and not refused.
\<close>

lemma digits_become_numbers: "numeric (json_cell timeText (CText ''007'')) = JNum (Fin 7)"
  by code_simp

lemma inherited_range: "metricRange ''constructor'' = Inr \<lparr> rg_name = Some ''Object'', rg_span = None \<rparr>"
  by code_simp

end
