(* ===== verification/Api_Error.thy ===== *)
theory Api_Error
  imports Js_Value Js_String
begin

text \<open>
  The errors of the HTTP interface: \<^verbatim>\<open>src/src/common/api-error.ts\<close>, the filter that turns every
  exception into one (\<^verbatim>\<open>src/src/common/api-exception.filter.ts\<close>) and the flattening of the errors
  of request validation (\<^verbatim>\<open>src/src/common/validation-errors.ts\<close>).
\<close>

section \<open>Definitions\<close>

datatype api_error_code =
    C_VALIDATION_ERROR | C_AUTHENTICATION_REQUIRED | C_CSRF_FAILED | C_RATE_LIMITED | C_NOT_FOUND
  | C_METHOD_NOT_ALLOWED | C_NO_ROUTE | C_NO_ROUTE_DUE_TO_FLOOD | C_ORIGIN_IN_BLOCKED_AREA
  | C_DESTINATION_IN_BLOCKED_AREA | C_FLOOD_HAZARD_DATA_INVALID | C_FLOOD_EVALUATION_FAILED
  | C_ROUTING_RESPONSE_INVALID | C_ROUTING_UNAVAILABLE | C_ROUTING_TIMEOUT | C_INVALID_QUERY
  | C_INVALID_COORDINATES | C_OUTSIDE_SUPPORTED_REGION | C_PLACE_NOT_FOUND | C_GEOCODER_TIMEOUT
  | C_GEOCODER_UNAVAILABLE | C_INVALID_PROVIDER_RESPONSE | C_GEOCODING_RATE_LIMITED
  | C_IOT_INGESTION_UNAVAILABLE | C_INTERNAL_ERROR

type_synonym api_error_detail = "string \<times> string"

record api_exception =
  ax_status :: int
  ax_code :: api_error_code
  ax_message :: string
  ax_retryable :: bool
  ax_details :: "api_error_detail list option"

definition ApiException :: "int \<Rightarrow> api_error_code \<Rightarrow> string \<Rightarrow> bool \<Rightarrow> api_exception" where
  "ApiException status code message retryable = \<lparr>
     ax_status = status, ax_code = code, ax_message = message, ax_retryable = retryable,
     ax_details = None \<rparr>"

definition api_validation :: "api_error_detail list \<Rightarrow> api_exception" where
  "api_validation details = \<lparr>
     ax_status = 400, ax_code = C_VALIDATION_ERROR, ax_message = ''The request is invalid.'',
     ax_retryable = False, ax_details = Some details \<rparr>"

definition api_authenticationRequired :: api_exception where
  "api_authenticationRequired =
     ApiException 401 C_AUTHENTICATION_REQUIRED ''Authentication is required.'' False"

text \<open>What a handler may throw: an API error, an exception of the framework with a status, or anything else.\<close>

datatype thrown = ThrownApi api_exception | ThrownHttp int | ThrownOther

fun normalizeException :: "thrown \<Rightarrow> api_exception" where
  "normalizeException (ThrownApi e) = e"
| "normalizeException (ThrownHttp status) =
     (if status = 401 then api_authenticationRequired
      else if status = 403
      then ApiException status C_CSRF_FAILED ''The request could not be verified.'' False
      else if status = 429
      then ApiException status C_RATE_LIMITED ''Login temporarily unavailable.'' True
      else if status = 400
      then api_validation [(''request'', ''must contain a valid JSON request body'')]
      else if status = 404
      then ApiException status C_NOT_FOUND ''The requested resource was not found.'' False
      else if status = 405
      then ApiException status C_METHOD_NOT_ALLOWED
        ''The HTTP method is not supported for this resource.'' False
      else ApiException 500 C_INTERNAL_ERROR ''An unexpected error occurred.'' True)"
| "normalizeException ThrownOther =
     ApiException 500 C_INTERNAL_ERROR ''An unexpected error occurred.'' True"

record error_response =
  er_status :: int
  er_headers :: "(string \<times> string) list"
  er_requestId :: string
  er_error :: api_exception

definition catch_exception :: "string \<Rightarrow> string \<Rightarrow> thrown \<Rightarrow> error_response" where
  "catch_exception requestId path exception =
     (let normalized = normalizeException exception in \<lparr>
        er_status = ax_status normalized,
        er_headers = (''Cache-Control'', ''no-store'') #
          (if ax_status normalized = 401
           then [(''WWW-Authenticate'',
             if str_includes path ''/iot/'' then ''Bearer realm=\"gathra-iot-gateway\"''
             else ''Bearer realm=\"gathra-flood-admin\"'')]
           else []),
        er_requestId = requestId,
        er_error = normalized \<rparr>)"

text \<open>The errors of \<open>class-validator\<close>: a property, the messages of its constraints, its children.\<close>

datatype validation_error = ValidationError string "string list" "validation_error list"

fun flattenValidationError :: "string \<Rightarrow> validation_error \<Rightarrow> api_error_detail list" where
  "flattenValidationError parentPath (ValidationError property constraints children) =
     (let path = (if parentPath \<noteq> [] then parentPath @ ''.'' @ property
                  else if property \<noteq> [] then property else ''request'') in
      map (\<lambda>reason. (path, reason)) constraints @
      concat (map (flattenValidationError path) children))"

definition validationExceptionFactory :: "validation_error list \<Rightarrow> api_exception" where
  "validationExceptionFactory errors =
     (let details = concat (map (flattenValidationError []) errors) in
      api_validation (if 0 < length details then details
        else [(''request'', ''must be a valid JSON request body'')]))"

section \<open>Lemmas\<close>

lemma flatten_paths_nonempty:
  "(path, reason) \<in> set (flattenValidationError parent e) \<Longrightarrow> path \<noteq> []"
  by (induction parent e rule: flattenValidationError.induct) (auto simp: Let_def split: if_splits)

lemma normalized_status:
  "ax_status (normalizeException (ThrownHttp s)) \<in> {400, 401, 403, 404, 405, 429, 500}"
  by (auto simp: api_authenticationRequired_def ApiException_def api_validation_def)

lemma normalized_retryable:
  "ax_retryable (normalizeException (ThrownHttp s)) \<longleftrightarrow> s \<notin> {400, 401, 403, 404, 405}"
  by (auto simp: api_authenticationRequired_def ApiException_def api_validation_def)

end
