(* ===== verification/Dto_Rules.thy ===== *)
theory Dto_Rules
  imports Api_Error Js_String
begin

text \<open>
  The rules that the classes under \<^verbatim>\<open>src/src/flood/admin/dto/\<close> and \<^verbatim>\<open>src/src/flood/dto/\<close> put on
  a request, and the validation pipe of \<^verbatim>\<open>src/src/app-bootstrap.ts\<close>. What the decorators of
  \<open>class-validator\<close> and \<open>class-transformer\<close> check and convert is code of a library: it is a parameter,
  and \<open>validator_documented\<close> says what their documentation promises.
\<close>

section \<open>Rules\<close>

datatype constraint = IsBoolean | IsNumber | IsInt | IsObject | MinOf int | MaxOf int

record field_rule =
  ru_field :: string
  ru_optional :: bool
  ru_number :: bool
  ru_constraints :: "constraint list"
  ru_nullable :: bool
  ru_minimum :: "int option"
  ru_maximum :: "int option"

text \<open>
  The library: the conversion of \<open>@Type(() => Number)\<close>, whether a value meets a constraint, and the
  texts of its messages.
\<close>

record validator_env =
  ve_number :: "jsval \<Rightarrow> jsval"
  ve_holds :: "constraint \<Rightarrow> jsval \<Rightarrow> bool"
  ve_reason :: "string \<Rightarrow> constraint \<Rightarrow> string"
  ve_unknown :: "string \<Rightarrow> string"
  ve_notObject :: string

definition convert_field :: "validator_env \<Rightarrow> field_rule \<Rightarrow> jsval \<Rightarrow> jsval" where
  "convert_field E rule v = (if ru_number rule then ve_number E v else v)"

definition field_violations :: "validator_env \<Rightarrow> field_rule \<Rightarrow> jsval \<Rightarrow> constraint list" where
  "field_violations E rule v =
     (if ru_optional rule \<and> (v = JUndefined \<or> v = JNull) then []
      else filter (\<lambda>c. \<not> ve_holds E c v) (ru_constraints rule))"

definition rule_error :: "validator_env \<Rightarrow> field_rule \<Rightarrow> jsval \<Rightarrow> validation_error option" where
  "rule_error E rule v = (let cs = field_violations E rule v in
     if cs = [] then None else Some (ValidationError (ru_field rule) (map (ve_reason E (ru_field rule)) cs) []))"

definition convert_body :: "validator_env \<Rightarrow> field_rule list \<Rightarrow> (string \<times> jsval) list \<Rightarrow> (string \<times> jsval) list" where
  "convert_body E rules fs = map (\<lambda>(k, v). (k, case find (\<lambda>r. ru_field r = k) rules of
     None \<Rightarrow> v | Some r \<Rightarrow> convert_field E r v)) fs"

text \<open>\<open>whitelist\<close> with \<open>forbidNonWhitelisted\<close>: a property without a rule is an error.\<close>

definition body_errors :: "validator_env \<Rightarrow> field_rule list \<Rightarrow> (string \<times> jsval) list \<Rightarrow> validation_error list" where
  "body_errors E rules dto =
     map (\<lambda>(k, v). ValidationError k [ve_unknown E k] []) (filter (\<lambda>(k, v). k \<notin> ru_field ` set rules) dto) @
     List.map_filter (\<lambda>r. rule_error E r (jprop (JObj dto) (ru_field r))) rules"

fun validation_pipe :: "validator_env \<Rightarrow> field_rule list \<Rightarrow> jsval \<Rightarrow> (api_exception, jsval) result" where
  "validation_pipe E rules (JObj fs) =
     (let dto = convert_body E rules fs; errors = body_errors E rules dto in
      if errors = [] then Inr (JObj dto) else Inl (validationExceptionFactory errors))"
| "validation_pipe E rules v = Inl (validationExceptionFactory [ValidationError [] [ve_notObject E] []])"

section \<open>What the library promises\<close>

definition validator_documented :: "validator_env \<Rightarrow> bool" where
  "validator_documented E \<longleftrightarrow>
     (\<forall>x. ve_number E (JNum x) = JNum x) \<and> ve_number E JNull = JNull \<and> ve_number E JUndefined = JUndefined \<and>
     (\<forall>v. ve_holds E IsBoolean v \<longleftrightarrow> (\<exists>b. v = JBool b)) \<and>
     (\<forall>v. ve_holds E IsNumber v \<longleftrightarrow> (\<exists>q. v = JNum (Fin q))) \<and>
     (\<forall>v. ve_holds E IsInt v \<longleftrightarrow> (\<exists>n. v = JNum (Fin (of_int n)))) \<and>
     (\<forall>v. ve_holds E IsObject v \<longleftrightarrow> isRecord v) \<and>
     (\<forall>n v. ve_holds E (MinOf n) v \<longleftrightarrow> (\<exists>x. v = JNum x \<and> js_le (num_of_int n) x)) \<and>
     (\<forall>n v. ve_holds E (MaxOf n) v \<longleftrightarrow> (\<exists>x. v = JNum x \<and> js_le x (num_of_int n)))"

fun documented_holds :: "constraint \<Rightarrow> jsval \<Rightarrow> bool" where
  "documented_holds IsBoolean (JBool b) = True"
| "documented_holds IsNumber (JNum (Fin q)) = True"
| "documented_holds IsInt (JNum (Fin q)) = (q = of_int \<lfloor>q\<rfloor>)"
| "documented_holds IsObject v = isRecord v"
| "documented_holds (MinOf n) (JNum x) = js_le (num_of_int n) x"
| "documented_holds (MaxOf n) (JNum x) = js_le x (num_of_int n)"
| "documented_holds c v = False"

definition documented_env :: validator_env where
  "documented_env = \<lparr> ve_number = id, ve_holds = documented_holds, ve_reason = (\<lambda>f c. f), ve_unknown = id,
     ve_notObject = ''object'' \<rparr>"

lemma documented_holds_iff:
  "documented_holds IsBoolean v \<longleftrightarrow> (\<exists>b. v = JBool b)"
  "documented_holds IsNumber v \<longleftrightarrow> (\<exists>q. v = JNum (Fin q))"
  "documented_holds IsInt v \<longleftrightarrow> (\<exists>n. v = JNum (Fin (of_int n)))"
  "documented_holds (MinOf n) v \<longleftrightarrow> (\<exists>x. v = JNum x \<and> js_le (num_of_int n) x)"
  "documented_holds (MaxOf n) v \<longleftrightarrow> (\<exists>x. v = JNum x \<and> js_le x (num_of_int n))"
proof -
  have whole: "q = of_int \<lfloor>q\<rfloor> \<longleftrightarrow> (\<exists>n. q = of_int n)" for q :: rat by (metis of_int_floor_cancel)
  have number: "documented_holds c (JNum x) \<longleftrightarrow> (case c of IsNumber \<Rightarrow> (\<exists>q. x = Fin q)
      | IsInt \<Rightarrow> (\<exists>n. x = Fin (of_int n)) | MinOf n \<Rightarrow> js_le (num_of_int n) x | MaxOf n \<Rightarrow> js_le x (num_of_int n) | _ \<Rightarrow> False)" for c x
    using whole by (cases c; cases x) simp_all
  show "documented_holds IsBoolean v \<longleftrightarrow> (\<exists>b. v = JBool b)"
    "documented_holds IsNumber v \<longleftrightarrow> (\<exists>q. v = JNum (Fin q))"
    "documented_holds IsInt v \<longleftrightarrow> (\<exists>n. v = JNum (Fin (of_int n)))"
    "documented_holds (MinOf n) v \<longleftrightarrow> (\<exists>x. v = JNum x \<and> js_le (num_of_int n) x)"
    "documented_holds (MaxOf n) v \<longleftrightarrow> (\<exists>x. v = JNum x \<and> js_le x (num_of_int n))"
    by (cases v; simp add: number)+
qed

lemma documented_env: "validator_documented documented_env"
  by (simp add: validator_documented_def documented_env_def documented_holds_iff)

text \<open>A body is let through, converted, exactly when it has rules for all its properties and violates none.\<close>

lemma validation_pipe_Inr:
  "validation_pipe E rules v = Inr w \<longleftrightarrow>
     (\<exists>fs. v = JObj fs \<and> w = JObj (convert_body E rules fs) \<and> fst ` set fs \<subseteq> ru_field ` set rules \<and>
       (\<forall>r\<in>set rules. field_violations E r (jprop w (ru_field r)) = []))"
proof (cases v)
  case (JObj fs)
  have keys: "fst ` set (convert_body E rules fs) = fst ` set fs" by (force simp: convert_body_def)
  have "body_errors E rules dto = [] \<longleftrightarrow> fst ` set dto \<subseteq> ru_field ` set rules \<and>
      (\<forall>r\<in>set rules. field_violations E r (jprop (JObj dto) (ru_field r)) = [])" for dto
    by (auto simp: body_errors_def filter_empty_conv List.map_filter_def rule_error_def Let_def)
  with JObj keys show ?thesis by (auto simp: Let_def)
qed simp_all

lemma convert_body_prop:
  "jprop (JObj (convert_body E rules fs)) k = (if k \<in> fst ` set fs then
     (case find (\<lambda>r. ru_field r = k) rules of None \<Rightarrow> jprop (JObj fs) k | Some r \<Rightarrow> convert_field E r (jprop (JObj fs) k))
   else JUndefined)"
proof -
  have "map_of (map (\<lambda>(k, v). (k, f k v)) fs) k = map_option (f k) (map_of fs k)" for f :: "string \<Rightarrow> jsval \<Rightarrow> jsval"
    by (induction fs) auto
  then show ?thesis
    using map_of_eq_None_iff [of fs k] by (cases "map_of fs k") (auto simp: convert_body_def split: option.splits)
qed

text \<open>The bounds that the interface description documents are the ones that are checked.\<close>

definition bounds_documented :: "field_rule \<Rightarrow> bool" where
  "bounds_documented r \<longleftrightarrow> (\<forall>n. MinOf n \<in> set (ru_constraints r) \<longleftrightarrow> ru_minimum r = Some n) \<and>
     (\<forall>n. MaxOf n \<in> set (ru_constraints r) \<longleftrightarrow> ru_maximum r = Some n) \<and> (ru_nullable r \<longleftrightarrow> ru_optional r)"

end
