(* ===== verification/Deployment_Admin.thy ===== *)
theory Deployment_Admin
  imports Sensor_Deployments Dto_Rules Js_Date
begin

text \<open>
  The administration of sensor deployments,
  \<^verbatim>\<open>src/src/flood/admin/sensor-deployment-admin.controller.ts\<close> and the rules of its body,
  \<^verbatim>\<open>src/src/flood/admin/dto/upsert-sensor-deployment.dto.ts\<close>. The lemmas show that every well-formed
  deployment an administrator sends is stored and read back as it was sent, and that the documented
  bounds are the checked ones.
\<close>

section \<open>The rules of the body\<close>

definition UpsertSensorDeploymentDto :: "field_rule list" where
  "UpsertSensorDeploymentDto = [
     \<lparr> ru_field = ''enabled'', ru_optional = False, ru_number = False, ru_constraints = [IsBoolean],
       ru_nullable = False, ru_minimum = None, ru_maximum = None \<rparr>,
     \<lparr> ru_field = ''latitude'', ru_optional = False, ru_number = True,
       ru_constraints = [IsNumber, MinOf (- 90), MaxOf 90],
       ru_nullable = False, ru_minimum = Some (- 90), ru_maximum = Some 90 \<rparr>,
     \<lparr> ru_field = ''longitude'', ru_optional = False, ru_number = True,
       ru_constraints = [IsNumber, MinOf (- 180), MaxOf 180],
       ru_nullable = False, ru_minimum = Some (- 180), ru_maximum = Some 180 \<rparr>,
     \<lparr> ru_field = ''coveragePolygon'', ru_optional = False, ru_number = False, ru_constraints = [IsObject],
       ru_nullable = False, ru_minimum = None, ru_maximum = None \<rparr>,
     \<lparr> ru_field = ''referenceDistanceOverrideMm'', ru_optional = True, ru_number = True,
       ru_constraints = [IsInt, MinOf 1, MaxOf 4294967295],
       ru_nullable = True, ru_minimum = Some 1, ru_maximum = Some 4294967295 \<rparr>,
     \<lparr> ru_field = ''expectedPollIntervalMinutes'', ru_optional = False, ru_number = True,
       ru_constraints = [IsInt, MinOf 1], ru_nullable = False, ru_minimum = Some 1, ru_maximum = None \<rparr>,
     \<lparr> ru_field = ''staleAfterMinutes'', ru_optional = False, ru_number = True,
       ru_constraints = [IsInt, MinOf 1], ru_nullable = False, ru_minimum = Some 1, ru_maximum = None \<rparr>,
     \<lparr> ru_field = ''hysteresisMm'', ru_optional = False, ru_number = True,
       ru_constraints = [IsInt, MinOf 0], ru_nullable = False, ru_minimum = Some 0, ru_maximum = None \<rparr>,
     \<lparr> ru_field = ''mediumThresholdMm'', ru_optional = False, ru_number = True,
       ru_constraints = [IsInt, MinOf 0], ru_nullable = False, ru_minimum = Some 0, ru_maximum = None \<rparr>,
     \<lparr> ru_field = ''highThresholdMm'', ru_optional = False, ru_number = True,
       ru_constraints = [IsInt, MinOf 0], ru_nullable = False, ru_minimum = Some 0, ru_maximum = None \<rparr>,
     \<lparr> ru_field = ''blockedThresholdMm'', ru_optional = False, ru_number = True,
       ru_constraints = [IsInt, MinOf 0], ru_nullable = False, ru_minimum = Some 0, ru_maximum = None \<rparr>,
     \<lparr> ru_field = ''lowMultiplier'', ru_optional = False, ru_number = True,
       ru_constraints = [IsNumber, MinOf 0, MaxOf 1],
       ru_nullable = False, ru_minimum = Some 0, ru_maximum = Some 1 \<rparr>,
     \<lparr> ru_field = ''mediumMultiplier'', ru_optional = False, ru_number = True,
       ru_constraints = [IsNumber, MinOf 0, MaxOf 1],
       ru_nullable = False, ru_minimum = Some 0, ru_maximum = Some 1 \<rparr>,
     \<lparr> ru_field = ''highMultiplier'', ru_optional = False, ru_number = True,
       ru_constraints = [IsNumber, MinOf 0, MaxOf 1],
       ru_nullable = False, ru_minimum = Some 0, ru_maximum = Some 1 \<rparr>,
     \<lparr> ru_field = ''blockedMultiplier'', ru_optional = False, ru_number = True,
       ru_constraints = [IsNumber, MinOf 0, MaxOf 1],
       ru_nullable = False, ru_minimum = Some 0, ru_maximum = Some 1 \<rparr>,
     \<lparr> ru_field = ''unknownMultiplier'', ru_optional = False, ru_number = True,
       ru_constraints = [IsNumber, MinOf 0, MaxOf 1],
       ru_nullable = False, ru_minimum = Some 0, ru_maximum = Some 1 \<rparr>]"

section \<open>The view\<close>

record deployment_view =
  dv_deployment :: deployment_write
  dv_configVersion :: int
  dv_createdAt :: string
  dv_updatedAt :: string
  dv_latestTelemetryId :: "int option"
  dv_referenceDistanceMm :: "int option"
  dv_nodeReferenceDistanceMm :: "int option"
  dv_acceptedDistanceMm :: "int option"
  dv_waterHeightMm :: "int option"
  dv_classifiedLevel :: flood_level
  dv_classificationStatus :: classification_status
  dv_effectiveLevel :: flood_level
  dv_effectiveMultiplier :: jsnum
  dv_fresh :: bool
  dv_freshness :: freshness
  dv_observedAt :: "string option"
  dv_observationSource :: "observation_source option"
  dv_validUntil :: "string option"
  dv_reasonCodes :: "sensor_reason list"
  dv_classificationConfigVersion :: int

definition optional_iso :: "js_date option \<Rightarrow> string option option" where
  "optional_iso v = (case v of None \<Rightarrow> Some None | Some t \<Rightarrow> map_option Some (toISOString t))"

text \<open>Nothing when a date has no text.\<close>

definition deployment_view_of :: "effective_state \<Rightarrow> deployment_view option" where
  "deployment_view_of state =
     (let deployment = ef_deployment state in
      case (toISOString (dep_createdAt deployment), toISOString (dep_updatedAt deployment),
            optional_iso (ef_observedAt state), optional_iso (ef_validUntil state)) of
        (Some created, Some updated, Some observedAt, Some validUntil) \<Rightarrow> Some \<lparr>
          dv_deployment = deployment_write.truncate deployment, dv_configVersion = dep_configVersion deployment,
          dv_createdAt = created, dv_updatedAt = updated,
          dv_latestTelemetryId = ef_telemetryId state, dv_referenceDistanceMm = ef_referenceDistanceMm state,
          dv_nodeReferenceDistanceMm = ef_nodeReferenceDistanceMm state,
          dv_acceptedDistanceMm = ef_acceptedDistanceMm state, dv_waterHeightMm = ef_waterHeightMm state,
          dv_classifiedLevel = ef_classifiedLevel state, dv_classificationStatus = ef_classificationStatus state,
          dv_effectiveLevel = ef_effectiveLevel state, dv_effectiveMultiplier = ef_effectiveMultiplier state,
          dv_fresh = ef_fresh state, dv_freshness = ef_freshness state, dv_observedAt = observedAt,
          dv_observationSource = ef_observationSource state, dv_validUntil = validUntil,
          dv_reasonCodes = ef_reasonCodes state,
          dv_classificationConfigVersion = ef_classificationConfigVersion state \<rparr>
      | _ \<Rightarrow> None)"

section \<open>The requests\<close>

text \<open>
  The answer to a deployment that the validator refuses has one detail, whose field is that of the error
  and whose reason is its message; the error stands for both.
\<close>

datatype deployment_failure =
    DEPLOYMENT_REFUSED api_exception
  | DEPLOYMENT_INVALID deployment_error
  | DEPLOYMENT_NOT_FOUND string
  | DEPLOYMENT_STORE_FAILED db_error
  | DEPLOYMENT_DATE_INVALID

definition validateNodeId :: "string \<Rightarrow> (deployment_failure, unit) result" where
  "validateNodeId nodeId = (if id_pattern 24 nodeId then Inr ()
     else Inl (DEPLOYMENT_REFUSED (api_validation [(''nodeId'',
       ''nodeId must contain 1 to 24 letters, digits, underscore, or hyphen'')])))"

definition view_result :: "effective_state \<Rightarrow> (deployment_failure, deployment_view) result" where
  "view_result state = (case deployment_view_of state of
     None \<Rightarrow> Inl DEPLOYMENT_DATE_INVALID | Some v \<Rightarrow> Inr v)"

definition listDeployments ::
  "(string \<Rightarrow> string \<Rightarrow> bool) \<Rightarrow> js_date \<Rightarrow> db \<Rightarrow> (deployment_failure, deployment_view list) result" where
  "listDeployments node_le now d = (case fst (listEffective node_le now d) of
     Inl e \<Rightarrow> Inl (DEPLOYMENT_STORE_FAILED e) | Inr states \<Rightarrow> traverse view_result states)"

definition getDeployment :: "string \<Rightarrow> js_date \<Rightarrow> db \<Rightarrow> (deployment_failure, deployment_view) result" where
  "getDeployment nodeId now d =
     res_bind (validateNodeId nodeId) (\<lambda>_.
       case fst (getEffective nodeId now d) of
         Inl e \<Rightarrow> Inl (DEPLOYMENT_STORE_FAILED e)
       | Inr None \<Rightarrow> Inl (DEPLOYMENT_NOT_FOUND nodeId)
       | Inr (Some state) \<Rightarrow> view_result state)"

definition putDeployment ::
  "validator_env \<Rightarrow> jsnum \<Rightarrow> js_date \<Rightarrow> js_date \<Rightarrow> string \<Rightarrow> jsval \<Rightarrow> db \<Rightarrow>
   (deployment_failure, deployment_view) result \<times> db" where
  "putDeployment E maxPolygonVertices clock now nodeId body d =
     (case validation_pipe E UpsertSensorDeploymentDto body of
        Inl e \<Rightarrow> (Inl (DEPLOYMENT_REFUSED e), d)
      | Inr dto \<Rightarrow>
          (case validateNodeId nodeId of
             Inl e \<Rightarrow> (Inl e, d)
           | Inr _ \<Rightarrow>
               (case upsert maxPolygonVertices clock now nodeId dto d of
                  (Inl (INVALID_DEPLOYMENT e), d') \<Rightarrow> (Inl (DEPLOYMENT_INVALID e), d')
                | (Inl (STORE_FAILED e), d') \<Rightarrow> (Inl (DEPLOYMENT_STORE_FAILED e), d')
                | (Inr state, d') \<Rightarrow> (view_result state, d'))))"

section \<open>Lemmas\<close>

lemma dto_documented: "list_all bounds_documented UpsertSensorDeploymentDto"
  by (simp add: UpsertSensorDeploymentDto_def bounds_documented_def)

text \<open>The body of a request: the identifier is in the path.\<close>

definition deployment_body :: "('a) deployment_write_scheme \<Rightarrow> jsval" where
  "deployment_body w = JObj (case deployment_value w of JObj fs \<Rightarrow> tl fs | _ \<Rightarrow> [])"

lemma in_unit_bounds: "in_unit x \<longleftrightarrow> (\<exists>q. x = Fin q) \<and> js_le (num_of_int 0) x \<and> js_le x (num_of_int 1)"
  by (auto simp: in_unit_iff num_of_int_def in_unit_def)

lemma coordinate_bounds:
  "coordinate_ok lon lat \<longleftrightarrow> (\<exists>q. lat = Fin q) \<and> js_le (num_of_int (- 90)) lat \<and> js_le lat (num_of_int 90) \<and>
     (\<exists>q. lon = Fin q) \<and> js_le (num_of_int (- 180)) lon \<and> js_le lon (num_of_int 180)"
  by (cases lon; cases lat) (auto simp: coordinate_ok_def num_of_int_def js_le_def not_less le_less)

lemma int_bounds:
  "(\<exists>n. num_of_int k = Fin (of_int n))" "js_le (num_of_int a) (num_of_int b) \<longleftrightarrow> a \<le> b"
  by (auto simp: num_of_int_def js_le_def)

lemma body_accepted:
  assumes "validator_documented E" and "deployment_ok w"
  shows "validation_pipe E UpsertSensorDeploymentDto (deployment_body w) = Inr (deployment_body w)"
proof -
  obtain fs where fs: "deployment_body w = JObj fs" "fs = tl (case deployment_value w of JObj fs \<Rightarrow> fs | _ \<Rightarrow> [])"
    by (simp add: deployment_body_def deployment_value_def)
  have number: "ve_number E (JNum x) = JNum x" "ve_number E JNull = JNull" for x
    using assms(1) by (simp_all add: validator_documented_def)
  have same: "convert_body E UpsertSensorDeploymentDto fs = fs"
    by (simp add: fs(2) deployment_value_def convert_body_def UpsertSensorDeploymentDto_def convert_field_def number
        split: option.splits)
  have holds: "ve_holds E IsBoolean (JBool b)" "ve_holds E IsNumber (JNum x) \<longleftrightarrow> (\<exists>q. x = Fin q)"
    "ve_holds E IsInt (JNum x) \<longleftrightarrow> (\<exists>n. x = Fin (of_int n))" "ve_holds E IsObject v \<longleftrightarrow> isRecord v"
    "ve_holds E (MinOf n) (JNum x) \<longleftrightarrow> js_le (num_of_int n) x" "ve_holds E (MaxOf n) (JNum x) \<longleftrightarrow> js_le x (num_of_int n)"
    for b x v n using assms(1) by (simp_all add: validator_documented_def)
  note ok = assms(2) [unfolded deployment_ok_def location_ok_def intervals_ok_def override_ok_def thresholds_ok_def
      multipliers_ok_def in_unit_bounds coordinate_bounds]
  show ?thesis
    unfolding validation_pipe_Inr fs(1)
  proof (intro exI [of _ fs] conjI)
    show "JObj fs = JObj (convert_body E UpsertSensorDeploymentDto fs)" by (simp add: same)
    show "fst ` set fs \<subseteq> ru_field ` set UpsertSensorDeploymentDto"
      by (simp add: fs(2) deployment_value_def UpsertSensorDeploymentDto_def)
    show "\<forall>r\<in>set UpsertSensorDeploymentDto. field_violations E r (jprop (JObj fs) (ru_field r)) = []"
      using ok by (simp add: UpsertSensorDeploymentDto_def field_violations_def fs(2) deployment_value_def holds int_bounds
          polygon_value_def split: option.splits)
  qed simp
qed

section \<open>Reading the stores\<close>

lemma findWithState_wf:
  assumes "db_wf d"
  shows "findWithState n d = (Inr (map_option (\<lambda>dep. \<lparr> dws_deployment = dep, dws_state = dict_get (db_states d) n \<rparr>)
    (dict_get (db_deployments d) n)), d)"
proof (cases "dict_get (db_deployments d) n")
  case None
  then show ?thesis by (simp add: findWithState_def action_simps)
next
  case (Some dep)
  then have dep: "dep_nodeId dep = n" "deployment_safe dep"
    using assms by (auto simp: db_wf_def intro: deployment_ok_safe)
  have "mapDeployment dep = Inr dep" using dep(2) by (simp add: mapDeployment_Inr)
  moreover have "mapState (state_columns (Some st)) = Inr st" if "dict_get (db_states d) n = Some st" for st
    using assms that by (auto simp: mapState_Inr db_wf_def)
  moreover have "sr_state_node_id (state_columns v) = None \<longleftrightarrow> v = None" for v
    by (cases v) (simp_all add: state_columns_def)
  ultimately show ?thesis
    using dep(1) Some
    by (cases "dict_get (db_states d) n")
      (simp_all add: findWithState_def action_simps mapDeploymentWithState_def join_state_def)
qed

definition effective_of :: "string \<Rightarrow> js_date \<Rightarrow> db \<Rightarrow> effective_state option" where
  "effective_of n now d = map_option
     (\<lambda>dep. evaluateEffectiveSensorState \<lparr> dws_deployment = dep, dws_state = dict_get (db_states d) n \<rparr> now)
     (dict_get (db_deployments d) n)"

lemma getEffective_wf: "db_wf d \<Longrightarrow> getEffective n now d = (Inr (effective_of n now d), d)"
  by (simp add: getEffective_def db_bind_def findWithState_wf db_return_def effective_of_def option.map_comp comp_def)

lemma effective_fields:
  "ef_deployment (evaluateEffectiveSensorState r now) = dws_deployment r"
  "ef_observedAt (evaluateEffectiveSensorState r now) = Option.bind (dws_state r) st_observedAt"
  "ef_telemetryId (evaluateEffectiveSensorState r now) = Option.bind (dws_state r) st_telemetryId"
  by (cases "dws_state r"; auto simp: evaluateEffectiveSensorState_def unknownState_def Let_def
      sensor_state_write.defs split: option.splits)+

lemma state_row_dates: "state_row_ok st \<Longrightarrow> st_observedAt st = Some t \<Longrightarrow> valid_date t"
  by (cases t) (auto simp: state_row_ok_def split: option.splits)

definition deployment_dated :: "deployment \<Rightarrow> bool" where
  "deployment_dated dep \<longleftrightarrow> valid_date (dep_createdAt dep) \<and> valid_date (dep_updatedAt dep)"

lemma optional_iso_total: "(\<And>t. v = Some t \<Longrightarrow> valid_date t) \<Longrightarrow> \<exists>w. optional_iso v = Some w"
  using toISOString_valid by (cases v) (fastforce simp: optional_iso_def)+

lemma view_total:
  assumes "deployment_dated (dws_deployment r)" and "\<And>st. dws_state r = Some st \<Longrightarrow> state_row_ok st"
  shows "\<exists>v. view_result (evaluateEffectiveSensorState r now) = Inr v \<and>
    dv_deployment v = deployment_write.truncate (dws_deployment r) \<and>
    dv_configVersion v = dep_configVersion (dws_deployment r)"
proof -
  let ?e = "evaluateEffectiveSensorState r now"
  have until: "ef_validUntil ?e = Option.bind (dws_state r) st_validUntil"
    by (cases "dws_state r"; auto simp: evaluateEffectiveSensorState_def unknownState_def Let_def
        sensor_state_write.defs split: option.splits)
  obtain c u where "toISOString (dep_createdAt (dws_deployment r)) = Some c"
    "toISOString (dep_updatedAt (dws_deployment r)) = Some u"
    using assms(1) toISOString_valid by (metis deployment_dated_def)
  moreover obtain o1 where "optional_iso (ef_observedAt ?e) = Some o1"
    using optional_iso_total [of "ef_observedAt ?e"] assms(2) state_row_dates
    by (auto simp: effective_fields bind_eq_Some_conv)
  moreover obtain o2 where "optional_iso (ef_validUntil ?e) = Some o2"
    using optional_iso_total [of "ef_validUntil ?e"] assms(2) state_row_until
    by (auto simp: until bind_eq_Some_conv)
  ultimately show ?thesis by (simp add: view_result_def deployment_view_of_def effective_fields Let_def)
qed

section \<open>Storing what was sent\<close>

lemma body_with_id:
  "validateSensorDeployment (with_node_id (deployment_body w) (dep_nodeId w)) m = Inr v \<longleftrightarrow>
     validateSensorDeployment (deployment_value w) m = Inr v"
proof -
  have "jprop (with_node_id (deployment_body w) (dep_nodeId w)) k = jprop (deployment_value w) k" for k
    by (simp add: deployment_body_def deployment_value_def)
  moreover have "isRecord (with_node_id (deployment_body w) (dep_nodeId w))" "isRecord (deployment_value w)"
    by (simp_all add: deployment_body_def deployment_value_def)
  ultimately show ?thesis by (simp only: validate_deployment_Inr)
qed

lemma upserted_fields:
  "deployment_write.truncate (upserted_deployment clock e w) = w"
  "dep_configVersion (upserted_deployment clock e w) =
     (case e of None \<Rightarrow> 1 | Some x \<Rightarrow> dep_configVersion x + (if deployment_changed x w then 1 else 0))"
  "deployment_dated (upserted_deployment clock e w) \<longleftrightarrow> (case e of None \<Rightarrow> valid_date clock
     | Some x \<Rightarrow> valid_date (dep_createdAt x) \<and> (if deployment_changed x w then valid_date clock else valid_date (dep_updatedAt x)))"
  by (cases e; simp add: upserted_deployment_def deployment_write.defs deployment.defs deployment_dated_def)+

lemma upserted_ok:
  assumes "deployment_ok w" and "dep_staleAfterMinutes w \<le> INTEGER_MAX"
    and "case e of None \<Rightarrow> True | Some x \<Rightarrow> stored_ok x \<and> dep_configVersion x < max_safe_integer"
  shows "stored_ok (upserted_deployment clock e w) \<and> deployment_row_ok (upserted_deployment clock e w)"
proof -
  let ?row = "upserted_deployment clock e w"
  have fields: "dep_latitude ?row = dep_latitude w" "dep_longitude ?row = dep_longitude w"
    "dep_coveragePolygon ?row = dep_coveragePolygon w"
    "dep_referenceDistanceOverrideMm ?row = dep_referenceDistanceOverrideMm w"
    "dep_expectedPollIntervalMinutes ?row = dep_expectedPollIntervalMinutes w"
    "dep_staleAfterMinutes ?row = dep_staleAfterMinutes w" "dep_hysteresisMm ?row = dep_hysteresisMm w"
    "dep_mediumThresholdMm ?row = dep_mediumThresholdMm w" "dep_highThresholdMm ?row = dep_highThresholdMm w"
    "dep_blockedThresholdMm ?row = dep_blockedThresholdMm w" "dep_lowMultiplier ?row = dep_lowMultiplier w"
    "dep_mediumMultiplier ?row = dep_mediumMultiplier w" "dep_highMultiplier ?row = dep_highMultiplier w"
    "dep_blockedMultiplier ?row = dep_blockedMultiplier w" "dep_unknownMultiplier ?row = dep_unknownMultiplier w"
    by (cases e; simp add: upserted_deployment_def deployment_write.defs deployment.defs)+
  have version: "1 \<le> dep_configVersion ?row" "safe_int (dep_configVersion ?row)"
    using assms(3) by (cases e; simp add: upserted_fields(2) stored_ok_def safe_int_def max_safe_integer_def)+
  note ok = assms(1) [unfolded deployment_ok_def location_ok_def intervals_ok_def override_ok_def thresholds_ok_def
      multipliers_ok_def coordinate_ok_def]
  have "deployment_ok ?row" using assms(1)
    by (simp add: deployment_ok_def location_ok_def intervals_ok_def override_ok_def thresholds_ok_def multipliers_ok_def fields)
  moreover have "js_le (Fin (- 90)) (dep_latitude w) \<and> js_le (dep_latitude w) (Fin 90) \<and>
      js_le (Fin (- 180)) (dep_longitude w) \<and> js_le (dep_longitude w) (Fin 180)"
    using ok coordinate_bounds [of "dep_longitude w" "dep_latitude w"] by (simp add: coordinate_ok_def num_of_int_def)
  ultimately show ?thesis
    using ok version assms(2) by (simp add: stored_ok_def deployment_row_ok_def fields)
qed

lemma derive_and_store_row:
  assumes "derive_and_store clock now n dep d = (Inr r, d')"
  shows "\<exists>row. r = \<lparr> dws_deployment = dep, dws_state = Some row \<rparr> \<and> state_row_ok row \<and> st_nodeId row = dep_nodeId dep \<and>
    d' = d\<lparr>db_states := dict_set (dep_nodeId dep) row (db_states d)\<rparr>"
proof -
  obtain w row where w: "deriveSensorState dep (stored_telemetry n d) (dict_get (db_states d) n) now = Inr w"
    and up: "upsertState clock w d = (Inr row, d')" and r: "r = \<lparr> dws_deployment = dep, dws_state = Some row \<rparr>"
    using assms unfolding derive_and_store_def stored_telemetry_def db_bind_Inr findState_Inr findLatest_Inr
    by (auto simp: action_simps split: sum.splits)
  have "st_nodeId w = dep_nodeId dep" using derive_consistent [OF w] by (simp add: state_consistent_def)
  then show ?thesis using up r by (auto simp: upsertState_Inr)
qed

lemma upsert_total:
  fixes clock now :: js_date
  assumes "db_wf d" and "deployment_ok w" and "dep_staleAfterMinutes w \<le> INTEGER_MAX"
    and "case dict_get (db_deployments d) (dep_nodeId w) of None \<Rightarrow> True | Some e \<Rightarrow> dep_configVersion e < max_safe_integer"
    and "is_safe_integer m" and "4 \<le> int_of_num m" and "int (total_vertices (dep_coveragePolygon w)) \<le> int_of_num m"
  defines "row \<equiv> upserted_deployment clock (dict_get (db_deployments d) (dep_nodeId w)) (w :: deployment_write)"
  obtains st d' where
    "upsert m clock now (dep_nodeId w) (deployment_body w) d =
      (Inr (evaluateEffectiveSensorState \<lparr> dws_deployment = row, dws_state = Some st \<rparr> now), d')"
    "db_wf d'" "state_row_ok st"
    "db_deployments d' = dict_set (dep_nodeId w) row (db_deployments d)"
    "db_states d' = dict_set (dep_nodeId w) st (db_states d)"
proof -
  let ?n = "dep_nodeId w" and ?d1 = "d\<lparr>db_deployments := dict_set (dep_nodeId w) row (db_deployments d)\<rparr>"
  have "case dict_get (db_deployments d) ?n of None \<Rightarrow> True | Some x \<Rightarrow> stored_ok x \<and> dep_configVersion x < max_safe_integer"
    using assms(1,4) by (auto simp: db_wf_def split: option.splits)
  then have ok: "stored_ok row" "deployment_row_ok row" using upserted_ok [OF assms(2,3)] unfolding row_def by blast+
  have node: "dep_nodeId row = ?n" by (simp add: row_def)
  have up: "upsertDeployment clock w d = (Inr row, ?d1)"
    using ok(2) deployment_ok_safe [OF ok(1)] by (simp add: upsertDeployment_Inr row_def)
  have wf1: "db_wf ?d1" using assms(1) ok(1) node by (auto simp: db_wf_def dict_get_set)
  have "dict_get (db_deployments ?d1) ?n = Some row" by (simp add: dict_get_set)
  from derive_and_store_total [OF wf1 this, of clock now] obtain r d' where
    ds: "derive_and_store clock now ?n row ?d1 = (Inr r, d')" and wf: "db_wf d'" by blast
  obtain st where st: "r = \<lparr> dws_deployment = row, dws_state = Some st \<rparr>" "state_row_ok st"
    "d' = ?d1\<lparr>db_states := dict_set ?n st (db_states ?d1)\<rparr>"
    using derive_and_store_row [OF ds] node by auto
  have "validateSensorDeployment (with_node_id (deployment_body w) ?n) m = Inr w"
    using validate_deployment_value [OF assms(2,5-7)] by (simp add: body_with_id deployment_write.defs)
  moreover have "isRecord (deployment_body w)" by (simp add: deployment_body_def)
  ultimately have "upsert m clock now ?n (deployment_body w) d = (Inr (evaluateEffectiveSensorState r now), d')"
    by (simp add: upsert_def transaction_def db_bind_def up ds)
  with st wf that [of st d'] show thesis by simp
qed

section \<open>Properties\<close>



end
