(* ===== verification/Public_Sensor.thy ===== *)
theory Public_Sensor
  imports Gateway_Status Deployment_Admin
begin

text \<open>
  The public view of one sensor, \<^verbatim>\<open>src/src/iot/services/public-sensor.service.ts\<close>: the effective
  state of its deployment, the telemetry the state rests on and the gateway that received it. The
  lemmas show that the view exists exactly for enabled deployments, never fails on the stores that the
  writers keep, and never shows a level that is out of date.
\<close>

section \<open>The view\<close>

record public_telemetry =
  pt_temperature_centi_c :: "int option"
  pt_humidity_centi_percent :: "int option"
  pt_rssi_dbm :: jsnum
  pt_snr_db :: jsnum
  pt_gateway_id :: string
  pt_last_heartbeat_at :: "js_date option"
  pt_heartbeat_interval_seconds :: "jsnum option"
  pt_backend_connectivity_state :: "string option"

text \<open>
  The join of telemetry and gateway, with the status of the gateway where it has one: a missing row
  gives nulls.
\<close>

fun cell_date :: "cell \<Rightarrow> js_date option" where
  "cell_date (CTime t) = Some t"
| "cell_date v = None"

fun cell_number :: "cell \<Rightarrow> jsnum option" where
  "cell_number (CInt n) = Some (num_of_int n)"
| "cell_number (CNum x) = Some x"
| "cell_number v = None"

fun cell_string :: "cell \<Rightarrow> string option" where
  "cell_string (CText s) = Some s"
| "cell_string v = None"

definition status_value :: "string \<Rightarrow> table_row option \<Rightarrow> cell" where
  "status_value name row = (case row of None \<Rightarrow> CNull | Some r \<Rightarrow> cell_of r name)"

definition joined_telemetry :: "gateway_store \<Rightarrow> telemetry_row \<Rightarrow> public_telemetry option" where
  "joined_telemetry s t = (case gateway_with_id (tr_gateway_id t) (gs_db s) of
     None \<Rightarrow> None
   | Some g \<Rightarrow>
       (let status = dict_get (gs_status s) (gw_id g) in
        Some \<lparr> pt_temperature_centi_c = tr_temperature_centi_c t, pt_humidity_centi_percent = tr_humidity_centi_percent t,
          pt_rssi_dbm = tr_rssi_dbm t, pt_snr_db = tr_snr_db t, pt_gateway_id = gw_logical_gateway_id g,
          pt_last_heartbeat_at = cell_date (status_value ''last_heartbeat_at'' status),
          pt_heartbeat_interval_seconds = cell_number (status_value ''heartbeat_interval_seconds'' status),
          pt_backend_connectivity_state = cell_string (status_value ''backend_connectivity_state'' status) \<rparr>))"

definition public_telemetry_rows :: "gateway_store \<Rightarrow> int \<Rightarrow> string \<Rightarrow> public_telemetry list" where
  "public_telemetry_rows s i nodeId =
     List.map_filter (joined_telemetry s) (filter (\<lambda>t. tr_id t = i \<and> tr_node_id t = nodeId) (db_telemetry (gs_db s)))"

definition deliveryStatus :: "string option \<Rightarrow> string" where
  "deliveryStatus v =
     (if v = Some ''HEALTHY'' then ''NORMAL''
      else if v = Some ''DEGRADED'' \<or> v = Some ''OFFLINE'' then ''DEGRADED''
      else ''UNAVAILABLE'')"

fun heartbeat_state_name :: "heartbeat_state \<Rightarrow> string" where
  "heartbeat_state_name ONLINE = ''ONLINE''"
| "heartbeat_state_name heartbeat_state.STALE = ''STALE''"
| "heartbeat_state_name heartbeat_state.OFFLINE = ''OFFLINE''"
| "heartbeat_state_name HEARTBEAT_UNAVAILABLE = ''HEARTBEAT_UNAVAILABLE''"

record public_gateway =
  pg_status :: string
  pg_lastHeartbeatAt :: "string option"
  pg_radioReceptionStatus :: string
  pg_latestRssiDbm :: jsnum
  pg_latestSnrDb :: jsnum
  pg_backendDeliveryStatus :: string

record public_sensor =
  pv_nodeId :: string
  pv_latitude :: jsnum
  pv_longitude :: jsnum
  pv_waterHeightMm :: "int option"
  pv_effectiveLevel :: flood_level
  pv_freshness :: freshness
  pv_observedAt :: "string option"
  pv_acceptedDistanceMm :: "int option"
  pv_temperatureC :: "jsnum option"
  pv_humidityPercent :: "jsnum option"
  pv_gateway :: "public_gateway option"

datatype public_error = SENSOR_NOT_FOUND | SENSOR_NOT_READ db_error | SENSOR_TIME_INVALID

definition public_time :: "js_date option \<Rightarrow> (public_error, string option) result" where
  "public_time v = (case v of
     None \<Rightarrow> Inr None
   | Some t \<Rightarrow> (case toISOString t of None \<Rightarrow> Inl SENSOR_TIME_INVALID | Some s \<Rightarrow> Inr (Some s)))"

definition public_gateway_of ::
  "freshness \<Rightarrow> gateway_freshness \<Rightarrow> public_telemetry \<Rightarrow> (public_error, public_gateway) result" where
  "public_gateway_of freshness heartbeat t =
     res_bind (public_time (pt_last_heartbeat_at t)) (\<lambda>lastBeat.
     Inr \<lparr> pg_status = (if fr_state heartbeat = HEARTBEAT_UNAVAILABLE then ''UNAVAILABLE''
             else heartbeat_state_name (fr_state heartbeat)),
       pg_lastHeartbeatAt = lastBeat,
       pg_radioReceptionStatus = (if freshness = FRESH then ''RECENT''
         else if freshness = freshness.STALE then ''STALE'' else ''UNAVAILABLE''),
       pg_latestRssiDbm = pt_rssi_dbm t, pg_latestSnrDb = pt_snr_db t,
       pg_backendDeliveryStatus = deliveryStatus (pt_backend_connectivity_state t) \<rparr>)"

definition public_view :: "effective_state \<Rightarrow> public_telemetry option \<Rightarrow> js_date \<Rightarrow> (public_error, public_sensor) result" where
  "public_view state telemetry now =
     (case gatewayFreshness (Option.bind telemetry pt_last_heartbeat_at)
         (Option.bind telemetry pt_heartbeat_interval_seconds) now of
        Inl e \<Rightarrow> Inl SENSOR_TIME_INVALID
      | Inr heartbeat \<Rightarrow>
          res_bind (public_time (ef_observedAt state)) (\<lambda>observedAt.
          res_bind (case telemetry of None \<Rightarrow> Inr None
            | Some t \<Rightarrow> res_bind (public_gateway_of (ef_freshness state) heartbeat t) (\<lambda>g. Inr (Some g))) (\<lambda>gateway.
          Inr \<lparr> pv_nodeId = dep_nodeId (ef_deployment state),
            pv_latitude = dep_latitude (ef_deployment state), pv_longitude = dep_longitude (ef_deployment state),
            pv_waterHeightMm = ef_waterHeightMm state, pv_effectiveLevel = ef_effectiveLevel state,
            pv_freshness = ef_freshness state, pv_observedAt = observedAt,
            pv_acceptedDistanceMm = ef_acceptedDistanceMm state,
            pv_temperatureC = map_option hundredths (Option.bind telemetry pt_temperature_centi_c),
            pv_humidityPercent = map_option hundredths (Option.bind telemetry pt_humidity_centi_percent),
            pv_gateway = gateway \<rparr>)))"

definition public_current :: "string \<Rightarrow> js_date \<Rightarrow> gateway_store \<Rightarrow> (public_error, public_sensor) result" where
  "public_current nodeId now s =
     (if \<not> id_pattern 24 nodeId then Inl SENSOR_NOT_FOUND
      else case fst (getEffective nodeId now (gs_db s)) of
        Inl e \<Rightarrow> Inl (SENSOR_NOT_READ e)
      | Inr None \<Rightarrow> Inl SENSOR_NOT_FOUND
      | Inr (Some state) \<Rightarrow>
          if \<not> dep_enabled (ef_deployment state) then Inl SENSOR_NOT_FOUND
          else public_view state
            (case ef_telemetryId state of None \<Rightarrow> None
             | Some i \<Rightarrow> (case public_telemetry_rows s i nodeId of [] \<Rightarrow> None | t # ts \<Rightarrow> Some t)) now)"

section \<open>Reading the stores\<close>

text \<open>What the columns of a status row allow, and that every accepted heartbeat leaves such rows.\<close>

definition status_readable :: "gateway_store \<Rightarrow> bool" where
  "status_readable s \<longleftrightarrow> (\<forall>i row. dict_get (gs_status s) i = Some row \<longrightarrow>
     (\<exists>l k. cell_of row ''last_heartbeat_at'' = CTime (Date l) \<and> 0 \<le> l \<and> l \<le> 8000000000000000 \<and>
        cell_of row ''heartbeat_interval_seconds'' = CInt k \<and> 15 \<le> k \<and> k \<le> 3600))"

lemma status_interval:
  assumes "status_row pg clock i d t = Some row"
  shows "\<exists>k. cell_of row ''heartbeat_interval_seconds'' = CInt k \<and> 15 \<le> k \<and> k \<le> 3600"
proof -
  have "column_value pg (status_columns ! 3) (statusValues i d t ! 3) = Some (cell_of row ''heartbeat_interval_seconds'')"
    using status_cell [OF assms, of 3] status_column_names(2) by simp
  moreover have "status_columns ! 3 = Column ''heartbeat_interval_seconds'' INTEGER False (Between 15 3600)"
    by (simp add: status_columns_def)
  moreover have "statusValues i d t ! 3 = opt_cell CInt (hb_heartbeatIntervalSeconds d)" by (simp add: statusValues_def)
  ultimately show ?thesis
    by (cases "hb_heartbeatIntervalSeconds d")
      (auto simp: column_value_def opt_cell_def split: if_splits intro!: exI dest: sym)
qed

lemma persist_rejected: "persist_heartbeat pg clock d t s = (Inl e, s') \<Longrightarrow> gs_status s' = gs_status s"
  by (auto simp: persist_heartbeat_def split: prod.splits sum.splits unit.splits)

lemma accept_rejected:
  assumes "accept_heartbeat E clock t d s = (Inl e, s')" and "valid_date t"
  shows "gs_status s' = gs_status s"
proof (cases "persist_heartbeat (he_pg E) clock d t s")
  case (Pair r s1)
  show ?thesis
  proof (cases r)
    case (Inl e1)
    with Pair persist_rejected have "gs_status s1 = gs_status s" by blast
    with assms(1) Pair Inl show ?thesis by (auto simp: accept_heartbeat_def split: sum.splits if_splits)
  next
    case (Inr u)
    with Pair assms toISOString_valid [OF assms(2)] show ?thesis
      by (auto simp: accept_heartbeat_def Let_def simp del: toISOString.simps split: sum.splits if_splits option.splits unit.splits)
  qed
qed

lemma heartbeat_keeps_readable:
  assumes "status_readable s" and "status_keys_ok s" and "0 \<le> l" and "l \<le> 8000000000000000"
  shows "status_readable (snd (accept_heartbeat E clock (Date l) d s))"
proof (cases "fst (accept_heartbeat E clock (Date l) d s)")
  case (Inl e)
  then have "gs_status (snd (accept_heartbeat E clock (Date l) d s)) = gs_status s"
    using accept_rejected [of E clock "Date l" d s e] assms(3,4) by (metis prod.collapse valid_date.simps(1))
  with assms(1) show ?thesis by (simp add: status_readable_def)
next
  case (Inr r)
  then obtain s' where run: "accept_heartbeat E clock (Date l) d s = (Inr r, s')" by (metis prod.collapse)
  from run obtain s1 at_text where p: "persist_rows (he_pg E) clock d (Date l) s = (Inr (), s1)"
    and s': "s' = s1\<lparr>gs_events := gs_events s1 @ [(hg_gatewayId (hb_gateway d), at_text)]\<rparr>"
    by (rule accept_heartbeat_Inr)
  from p obtain i db1 row m where row: "status_row (he_pg E) clock i d (Date l) = Some row"
    and s1: "s1 = s\<lparr>gs_db := db1, gs_metricsSeq := gs_metricsSeq s + 1, gs_status := dict_set i
      (upserted_status clock row (dict_get (gs_status s) i)) (gs_status s), gs_metrics := gs_metrics s @ [m]\<rparr>"
    by (rule persist_rows_Inr)
  have "cell_of row ''gateway_id'' = CInt i"
    using status_cell [OF row, of 0] updated_columns(2) by (auto simp: statusValues_def dest: column_value_same)
  then have same: "cell_of (upserted_status clock row (dict_get (gs_status s) i)) (col_name (status_columns ! k)) =
      cell_of row (col_name (status_columns ! k))" if "k < 67" for k
    using upserted_status_cell [OF that, of "dict_get (gs_status s) i" row clock] status_keys_get [OF assms(2), of i]
    by simp
  let ?row = "upserted_status clock row (dict_get (gs_status s) i)"
  have "cell_of ?row ''last_heartbeat_at'' = CTime (Date l)"
    "cell_of ?row ''heartbeat_interval_seconds'' = cell_of row ''heartbeat_interval_seconds''"
    using same [of 1] same [of 3] status_column_names(1,2) status_cells(13) [OF row] by simp_all
  moreover obtain k where "cell_of row ''heartbeat_interval_seconds'' = CInt k" "15 \<le> k" "k \<le> 3600"
    using status_interval [OF row] by blast
  ultimately have new: "\<exists>l k. cell_of ?row ''last_heartbeat_at'' = CTime (Date l) \<and> 0 \<le> l \<and> l \<le> 8000000000000000 \<and>
      cell_of ?row ''heartbeat_interval_seconds'' = CInt k \<and> 15 \<le> k \<and> k \<le> 3600"
    using assms(3,4) by auto
  have "gs_status s' = dict_set i ?row (gs_status s)" by (simp add: s' s1)
  with new assms(1) show ?thesis unfolding run status_readable_def by (simp add: dict_get_set)
qed

definition public_store_ok :: "gateway_store \<Rightarrow> bool" where
  "public_store_ok s \<longleftrightarrow> db_wf (gs_db s) \<and> status_readable s \<and>
     (\<forall>n st. dict_get (db_states (gs_db s)) n = Some st \<longrightarrow> state_row_ok st)"

lemma joined_status:
  assumes "joined_telemetry s t = Some p" and "status_readable s"
  obtains "pt_last_heartbeat_at p = None" "pt_heartbeat_interval_seconds p = None"
  | i row l k where "dict_get (gs_status s) i = Some row" "cell_of row ''last_heartbeat_at'' = CTime (Date l)"
    "cell_of row ''heartbeat_interval_seconds'' = CInt k"
    "pt_last_heartbeat_at p = Some (Date l)" "pt_heartbeat_interval_seconds p = Some (num_of_int k)"
    "0 \<le> l" "l \<le> 8000000000000000" "15 \<le> k" "k \<le> 3600"
proof -
  obtain g where g: "gateway_with_id (tr_gateway_id t) (gs_db s) = Some g"
    and p: "pt_last_heartbeat_at p = cell_date (status_value ''last_heartbeat_at'' (dict_get (gs_status s) (gw_id g)))"
      "pt_heartbeat_interval_seconds p =
        cell_number (status_value ''heartbeat_interval_seconds'' (dict_get (gs_status s) (gw_id g)))"
    using assms(1) by (auto simp: joined_telemetry_def Let_def split: option.splits)
  show thesis
  proof (cases "dict_get (gs_status s) (gw_id g)")
    case None
    with p that(1) show ?thesis by (simp add: status_value_def)
  next
    case (Some row)
    with assms(2) obtain l k where "cell_of row ''last_heartbeat_at'' = CTime (Date l)" "0 \<le> l" "l \<le> 8000000000000000"
      "cell_of row ''heartbeat_interval_seconds'' = CInt k" "15 \<le> k" "k \<le> 3600"
      unfolding status_readable_def by blast
    with p Some that(2) [of "gw_id g" row l k] show ?thesis by (simp add: status_value_def)
  qed
qed

text \<open>What is shown of the gateway: it is online only within two intervals of a heartbeat in the table.\<close>

definition online_justified :: "gateway_store \<Rightarrow> int \<Rightarrow> bool" where
  "online_justified s n \<longleftrightarrow> (\<exists>i row l k. dict_get (gs_status s) i = Some row \<and>
     cell_of row ''last_heartbeat_at'' = CTime (Date l) \<and> cell_of row ''heartbeat_interval_seconds'' = CInt k \<and>
     n \<le> l + 2000 * k)"

lemma public_gateway_shown:
  assumes "joined_telemetry s t = Some p" and "status_readable s" and "0 \<le> n" and "n \<le> max_time_value"
  shows "\<exists>f g. gatewayFreshness (pt_last_heartbeat_at p) (pt_heartbeat_interval_seconds p) (Date n) = Inr f \<and>
    public_gateway_of fresh f p = Inr g \<and> (pg_status g = ''ONLINE'' \<longrightarrow> online_justified s n) \<and>
    (pg_radioReceptionStatus g = ''RECENT'' \<longleftrightarrow> fresh = FRESH)"
  using assms(1,2)
proof (cases rule: joined_status)
  case 1
  then show ?thesis by (simp add: gatewayFreshness_def public_gateway_of_def public_time_def)
next
  case (2 i row l k)
  obtain f where f: "gatewayFreshness (Some (Date l)) (Some (num_of_int k)) (Date n) = Inr f"
    "fr_state f = (if n \<le> l + 2000 * k then ONLINE else if n \<le> l + 5000 * k then heartbeat_state.STALE else heartbeat_state.OFFLINE)"
    using gatewayFreshness_dates [OF 2(6) _ assms(3,4), of k] 2(7-9) by (force simp: max_time_value_def)
  obtain w where iso: "toISOString (Date l) = Some w" using toISOString_valid [of "Date l"] by auto
  have "online_justified s n" if "n \<le> l + 2000 * k" using 2(1-3) that unfolding online_justified_def by blast
  then show ?thesis
    using f iso 2(4,5)
    by (auto simp: public_gateway_of_def public_time_def simp del: toISOString.simps)
qed

lemma public_view_total:
  assumes "\<And>p. telemetry = Some p \<Longrightarrow> \<exists>t. joined_telemetry s t = Some p" and "status_readable s"
    and "0 \<le> n" and "n \<le> max_time_value" and "\<And>t. ef_observedAt state = Some t \<Longrightarrow> valid_date t"
  shows "\<exists>v. public_view state telemetry (Date n) = Inr v \<and> pv_nodeId v = dep_nodeId (ef_deployment state) \<and>
    pv_latitude v = dep_latitude (ef_deployment state) \<and> pv_longitude v = dep_longitude (ef_deployment state) \<and>
    pv_effectiveLevel v = ef_effectiveLevel state \<and> pv_freshness v = ef_freshness state \<and>
    (pv_gateway v = None \<longleftrightarrow> telemetry = None) \<and>
    (\<forall>g. pv_gateway v = Some g \<longrightarrow> (pg_status g = ''ONLINE'' \<longrightarrow> online_justified s n) \<and>
      (pg_radioReceptionStatus g = ''RECENT'' \<longleftrightarrow> pv_freshness v = FRESH))"
proof -
  have "\<exists>w. public_time (ef_observedAt state) = Inr w"
    using assms(5) toISOString_valid by (cases "ef_observedAt state") (fastforce simp: public_time_def)+
  then obtain w where w: "public_time (ef_observedAt state) = Inr w" by blast
  show ?thesis
  proof (cases telemetry)
    case None
    with w show ?thesis by (simp add: public_view_def gatewayFreshness_def)
  next
    case (Some p)
    then obtain t where "joined_telemetry s t = Some p" using assms(1) by blast
    from public_gateway_shown [OF this assms(2-4), of "ef_freshness state"] w Some show ?thesis
      by (auto simp: public_view_def)
  qed
qed

lemma public_telemetry_joined: "p \<in> set (public_telemetry_rows s i n) \<Longrightarrow> \<exists>t. joined_telemetry s t = Some p"
  by (auto simp: public_telemetry_rows_def List.map_filter_def)

lemma first_row_joined:
  "(case i of None \<Rightarrow> None | Some j \<Rightarrow> (case public_telemetry_rows s j n of [] \<Rightarrow> None | t # ts \<Rightarrow> Some t)) = Some p \<Longrightarrow>
     \<exists>t. joined_telemetry s t = Some p"
  using public_telemetry_joined [of p s "the i" n] by (cases i) (auto split: list.splits)

lemma effective_level:
  assumes "dep_enabled (dws_deployment r)"
  shows "if ef_freshness (evaluateEffectiveSensorState r now) = FRESH
    then \<exists>s u. dws_state r = Some s \<and> st_telemetryId s \<noteq> None \<and> st_validUntil s = Some u \<and> \<not> date_lt u now \<and>
      ef_effectiveLevel (evaluateEffectiveSensorState r now) = st_classifiedLevel s
    else ef_effectiveLevel (evaluateEffectiveSensorState r now) = UNKNOWN \<and>
      \<not> (\<exists>s u. dws_state r = Some s \<and> st_telemetryId s \<noteq> None \<and> st_validUntil s = Some u \<and> \<not> date_lt u now)"
  using assms by (cases "dws_state r")
    (auto simp: evaluateEffectiveSensorState_def unknownState_def Let_def sensor_state_write.defs split: option.splits)

section \<open>Properties\<close>

text \<open>What a request answers, by whether an enabled deployment has this name.\<close>

lemma public_current_missing:
  assumes "public_store_ok s"
    and "\<not> (id_pattern 24 nodeId \<and> (\<exists>dep. dict_get (db_deployments (gs_db s)) nodeId = Some dep \<and> dep_enabled dep))"
  shows "public_current nodeId now s = Inl SENSOR_NOT_FOUND"
proof -
  have "fst (getEffective nodeId now (gs_db s)) = Inr (effective_of nodeId now (gs_db s))"
    using getEffective_wf assms(1) by (simp add: public_store_ok_def)
  with assms(2) show ?thesis
    by (cases "dict_get (db_deployments (gs_db s)) nodeId") (auto simp: public_current_def effective_of_def effective_fields)
qed

lemma public_current_runs:
  assumes "public_store_ok s" and "id_pattern 24 nodeId" and dep: "dict_get (db_deployments (gs_db s)) nodeId = Some dep"
    and "dep_enabled dep"
  shows "\<exists>telemetry. public_current nodeId now s = public_view (evaluateEffectiveSensorState
      \<lparr> dws_deployment = dep, dws_state = dict_get (db_states (gs_db s)) nodeId \<rparr> now) telemetry now \<and>
    (\<forall>p. telemetry = Some p \<longrightarrow> (\<exists>t. joined_telemetry s t = Some p))"
proof -
  let ?e = "evaluateEffectiveSensorState \<lparr> dws_deployment = dep, dws_state = dict_get (db_states (gs_db s)) nodeId \<rparr> now"
  let ?t = "case ef_telemetryId ?e of None \<Rightarrow> None
    | Some i \<Rightarrow> (case public_telemetry_rows s i nodeId of [] \<Rightarrow> None | t # ts \<Rightarrow> Some t)"
  have "fst (getEffective nodeId now (gs_db s)) = Inr (Some ?e)"
    using getEffective_wf assms(1) dep by (simp add: public_store_ok_def effective_of_def)
  then have "public_current nodeId now s = public_view ?e ?t now"
    using assms(2-4) by (simp add: public_current_def effective_fields)
  moreover have "\<exists>t. joined_telemetry s t = Some p" if "?t = Some p" for p
    using that by (rule first_row_joined)
  ultimately show ?thesis by blast
qed

lemma effective_dates:
  assumes "public_store_ok s"
    and "ef_observedAt (evaluateEffectiveSensorState
      \<lparr> dws_deployment = dep, dws_state = dict_get (db_states (gs_db s)) nodeId \<rparr> now) = Some t"
  shows "valid_date t"
proof -
  from assms(2) obtain st where st: "dict_get (db_states (gs_db s)) nodeId = Some st" "st_observedAt st = Some t"
    by (auto simp: effective_fields bind_eq_Some_conv)
  then have "state_row_ok st" using assms(1) unfolding public_store_ok_def by blast
  with st(2) show ?thesis by (cases t) (auto simp: state_row_ok_def split: option.splits)
qed


definition sample_state :: sensor_state where
  "sample_state = \<lparr> st_nodeId = ''node-1'', st_telemetryId = Some 7, st_observedAt = Some (Date 1000),
     st_observationSource = Some GATEWAY, st_validUntil = Some (Date 1801000),
     st_referenceDistanceMm = Some 1000, st_nodeReferenceDistanceMm = Some 1000, st_acceptedDistanceMm = Some 750,
     st_waterHeightMm = Some 250, st_classifiedLevel = MEDIUM, st_classificationStatus = CS_VALID,
     st_effectiveMultiplier = Fin (1 / 2), st_reasonCodes = [], st_classificationConfigVersion = 1,
     st_createdAt = Date 2000, st_updatedAt = Date 2000 \<rparr>"

definition sample_public :: gateway_store where
  "sample_public = sample_store\<lparr>gs_db := sample_db\<lparr>db_states := [(''node-1'', sample_state)],
     db_gateways := [(''AA:BB:CC:DD:EE:01'', \<lparr> gw_id = 1, gw_hardware_mac = ''AA:BB:CC:DD:EE:01'',
       gw_logical_gateway_id = ''gw-1'', gw_firmware_version = ''2.2'', gw_first_seen_at = Date 0, gw_last_seen_at = Date 0 \<rparr>)]\<rparr>\<rparr>"

lemma sample_public_ok: "public_store_ok sample_public"
proof -
  have "db_wf (gs_db sample_public)"
    using sample_db_wf by (simp add: db_wf_def sample_public_def sample_db_def dict_get_def sample_state_def state_safe_def
        safe_opt_def safe_int_def max_safe_integer_def)
  moreover have "status_readable sample_public" by (simp add: status_readable_def sample_public_def sample_store_def dict_get_Nil)
  ultimately show ?thesis
    by (simp add: public_store_ok_def sample_public_def sample_db_def dict_get_def sample_state_def state_row_ok_def
        in_unit_def)
qed

lemma sample_public_node:
  "id_pattern 24 ''node-1''" "dict_get (db_deployments (gs_db sample_public)) ''node-1'' = Some sample_deployment"
  "dep_enabled sample_deployment" "dict_get (db_states (gs_db sample_public)) ''node-1'' = Some sample_state"
  by (code_simp, simp_all add: sample_public_def sample_db_def dict_get_def sample_deployment_def)


end
