(* ===== verification/Admin_Traffic.thy ===== *)
theory Admin_Traffic
  imports Js_Calendar
begin

text \<open>
  Traffic metrics: the middleware, \<^verbatim>\<open>src/src/admin/metrics/admin-traffic.middleware.ts\<close>, and the
  service that aggregates requests by minute, method and route,
  \<^verbatim>\<open>src/src/admin/metrics/admin-traffic.service.ts\<close>, with the table
  \<^verbatim>\<open>admin_http_metrics_minute\<close> of migration 005 and its checks. A flush takes the active metrics
  away, stores them in one transaction and merges them back when that fails; requests and other
  flushes may happen in between, so its start and its end are steps of their own. Counts are
  natural numbers (the code's binary64 numbers are exact up to \<open>2 ^ 53\<close>, the table's to \<open>2 ^ 63\<close>); the sum
  of the latencies is a binary64 number.
\<close>

section \<open>Data\<close>

definition LATENCY_BUCKET_LIMITS_MS :: "int list" where
  "LATENCY_BUCKET_LIMITS_MS = [25, 50, 100, 250, 500, 1000, 2500, 5000, 10000]"

definition HISTOGRAM_SIZE :: nat where "HISTOGRAM_SIZE = length LATENCY_BUCKET_LIMITS_MS + 1"
definition MAX_ACTIVE_KEYS :: nat where "MAX_ACTIVE_KEYS = 500"

record metric =
  mt_bucketAt :: js_date
  mt_method :: string
  mt_route :: string
  mt_requestCount :: nat
  mt_status2xx :: nat
  mt_status3xx :: nat
  mt_status4xx :: nat
  mt_status5xx :: nat
  mt_latencyHistogram :: "nat list"
  mt_latencySumMs :: jsnum
  mt_requestBytes :: nat
  mt_responseBytes :: nat

record traffic_input =
  ti_at :: js_date
  ti_method :: string
  ti_route :: string
  ti_statusCode :: int
  ti_latencyMs :: jsnum
  ti_requestBytes :: jsnum
  ti_responseBytes :: jsnum

section \<open>Recording\<close>

definition latencyBucketIndex :: "jsnum \<Rightarrow> nat" where
  "latencyBucketIndex latencyMs =
     (case filter (\<lambda>i. js_le latencyMs (num_of_int (LATENCY_BUCKET_LIMITS_MS ! i)))
             [0..<length LATENCY_BUCKET_LIMITS_MS] of
        [] \<Rightarrow> HISTOGRAM_SIZE - 1
      | i # _ \<Rightarrow> i)"

fun minuteBucket :: "js_date \<Rightarrow> js_date" where
  "minuteBucket (Date t) = new_date (t div 60000 * 60000)"
| "minuteBucket InvalidDate = InvalidDate"

definition boundedBytes :: "jsnum \<Rightarrow> nat" where
  "boundedBytes v =
     (if is_finite v \<and> js_lt (Fin 0) v then nat (min (int_of_num (js_round v)) (100 * 1024 * 1024)) else 0)"

definition new_metric :: "js_date \<Rightarrow> string \<Rightarrow> string \<Rightarrow> metric" where
  "new_metric bucketAt method route = \<lparr> mt_bucketAt = bucketAt, mt_method = method, mt_route = route,
     mt_requestCount = 0, mt_status2xx = 0, mt_status3xx = 0, mt_status4xx = 0, mt_status5xx = 0,
     mt_latencyHistogram = replicate HISTOGRAM_SIZE 0, mt_latencySumMs = Fin 0, mt_requestBytes = 0,
     mt_responseBytes = 0 \<rparr>"

definition bounded_latency :: "traffic_input \<Rightarrow> jsnum" where
  "bounded_latency input = js_max (Fin 0) (js_min (ti_latencyMs input) (Fin 60000))"

definition count_request :: "traffic_input \<Rightarrow> metric \<Rightarrow> metric" where
  "count_request input metric =
     (let m1 = metric\<lparr>mt_requestCount := mt_requestCount metric + 1\<rparr>;
          m2 = (if ti_statusCode input < 300 then m1\<lparr>mt_status2xx := mt_status2xx m1 + 1\<rparr>
                else if ti_statusCode input < 400 then m1\<lparr>mt_status3xx := mt_status3xx m1 + 1\<rparr>
                else if ti_statusCode input < 500 then m1\<lparr>mt_status4xx := mt_status4xx m1 + 1\<rparr>
                else m1\<lparr>mt_status5xx := mt_status5xx m1 + 1\<rparr>);
          latency = bounded_latency input; i = latencyBucketIndex latency in
      m2\<lparr>mt_latencyHistogram := (mt_latencyHistogram m2)[i := mt_latencyHistogram m2 ! i + 1],
         mt_latencySumMs := js_add (mt_latencySumMs m2) latency,
         mt_requestBytes := mt_requestBytes m2 + boundedBytes (ti_requestBytes input),
         mt_responseBytes := mt_responseBytes m2 + boundedBytes (ti_responseBytes input)\<rparr>)"

definition metric_key :: "js_date \<Rightarrow> string \<Rightarrow> string \<Rightarrow> string option" where
  "metric_key bucketAt method route =
     map_option (\<lambda>iso. iso @ CHR 0x00 # method @ CHR 0x00 # route) (toISOString bucketAt)"

text \<open>The result is \<open>None\<close> when the date is invalid and its text cannot be made.\<close>

definition record_request ::
  "traffic_input \<Rightarrow> (string, metric) dict \<Rightarrow> (string, metric) dict option" where
  "record_request input active =
     (let bucketAt = minuteBucket (ti_at input) in
      case metric_key bucketAt (ti_method input) (ti_route input) of
        None \<Rightarrow> None
      | Some key \<Rightarrow> Some
          (case dict_get active key of
             Some metric \<Rightarrow> dict_set key (count_request input metric) active
           | None \<Rightarrow>
               if MAX_ACTIVE_KEYS \<le> length active then active
               else dict_set key
                 (count_request input (new_metric bucketAt (ti_method input) (ti_route input))) active))"

section \<open>The middleware\<close>

definition safeMethod :: "string \<Rightarrow> string" where
  "safeMethod v =
     (let method = to_upper v in
      if method \<in> set [''GET'', ''HEAD'', ''POST'', ''PUT'', ''PATCH'', ''DELETE'', ''OPTIONS'']
      then method else ''GET'')"

text \<open>\<open>Number\<close> of the value of a header, which is absent, a text, a number or a list of texts.\<close>

fun header_number :: "jsval \<Rightarrow> jsnum" where
  "header_number JUndefined = Fin 0"
| "header_number JNull = Fin 0"
| "header_number (JStr s) = number_of_string s"
| "header_number (JNum x) = x"
| "header_number (JArr (JStr s # rest)) = number_of_string s"
| "header_number v = NaN"

definition boundedHeaderNumber :: "jsval \<Rightarrow> jsnum" where
  "boundedHeaderNumber v =
     (let parsed = header_number v in if is_finite parsed \<and> js_le (Fin 0) parsed then parsed else Fin 0)"

text \<open>The three classes of characters of a segment.\<close>

definition is_segment_char :: "char \<Rightarrow> bool" where
  "is_segment_char c = (is_upper c \<or> is_lower c \<or> is_digit_char c \<or> c \<in> set ''_.:-'')"

definition is_hex_char :: "char \<Rightarrow> bool" where
  "is_hex_char c = (is_digit_char c \<or> in_range 97 102 c \<or> in_range 65 70 c)"

definition looks_like_uuid :: "string \<Rightarrow> bool" where
  "looks_like_uuid s =
     (36 \<le> length s \<and> list_all is_hex_char (take 8 s) \<and> s ! 8 = CHR ''-'' \<and>
      list_all (\<lambda>c. is_hex_char c \<or> c = CHR ''-'') (drop 9 s))"

definition normalize_segment :: "string option \<Rightarrow> string \<Rightarrow> string" where
  "normalize_segment previous segment =
     (if segment = [] then segment
      else if previous \<in> {Some ''nodes'', Some ''sensor-deployments'', Some ''deployments''} then '':nodeId''
      else if list_all is_digit_char segment then '':id''
      else if looks_like_uuid segment then '':id''
      else if \<not> list_all is_segment_char segment then '':value''
      else segment)"

fun normalize_segments :: "string option \<Rightarrow> string list \<Rightarrow> string list" where
  "normalize_segments previous [] = []"
| "normalize_segments previous (s # ss) = normalize_segment previous s # normalize_segments (Some s) ss"

definition normalizeHttpRoute :: "string \<Rightarrow> string" where
  "normalizeHttpRoute path =
     (let withoutQuery = take 512 (hd (split_on (CHR ''?'') path));
          normalized = take 160 (join ''/'' (normalize_segments None (split_on (CHR ''/'') withoutQuery))) in
      if starts_with normalized ''/'' \<and> 1 < length normalized then normalized else ''/'')"

text \<open>What the middleware sees of a request when its response is finished; the duration is in nanoseconds.\<close>

record http_request =
  hr_method :: string
  hr_path :: string
  hr_contentLength :: jsval
  hr_finishedAt :: js_date
  hr_statusCode :: int
  hr_duration :: nat
  hr_responseLength :: jsval

definition traffic_input_of :: "http_request \<Rightarrow> traffic_input" where
  "traffic_input_of r = \<lparr> ti_at = hr_finishedAt r, ti_method = safeMethod (hr_method r),
     ti_route = normalizeHttpRoute (hr_path r), ti_statusCode = hr_statusCode r,
     ti_latencyMs = js_div (mk_num (of_nat (hr_duration r))) (Fin 1000000),
     ti_requestBytes = boundedHeaderNumber (hr_contentLength r),
     ti_responseBytes = boundedHeaderNumber (hr_responseLength r) \<rparr>"

section \<open>Flushing\<close>

type_synonym metric_id = "js_date \<times> string \<times> string"

definition metric_id :: "metric \<Rightarrow> metric_id" where
  "metric_id m = (mt_bucketAt m, mt_method m, mt_route m)"

definition add_metric :: "metric \<Rightarrow> metric \<Rightarrow> metric" where
  "add_metric current old = current\<lparr>
     mt_requestCount := mt_requestCount current + mt_requestCount old,
     mt_status2xx := mt_status2xx current + mt_status2xx old,
     mt_status3xx := mt_status3xx current + mt_status3xx old,
     mt_status4xx := mt_status4xx current + mt_status4xx old,
     mt_status5xx := mt_status5xx current + mt_status5xx old,
     mt_latencyHistogram := map (\<lambda>i. mt_latencyHistogram current ! i + mt_latencyHistogram old ! i) [0..<HISTOGRAM_SIZE],
     mt_latencySumMs := js_add (mt_latencySumMs current) (mt_latencySumMs old),
     mt_requestBytes := mt_requestBytes current + mt_requestBytes old,
     mt_responseBytes := mt_responseBytes current + mt_responseBytes old\<rparr>"

text \<open>The checks of the table.\<close>

definition metric_route_ok :: "string \<Rightarrow> bool" where
  "metric_route_ok route =
     (route = ''/'' \<or>
      (2 \<le> length route \<and> length route \<le> 160 \<and> hd route = CHR ''/'' \<and>
       list_all (\<lambda>c. is_segment_char c \<or> c = CHR ''/'') (tl route)))"

definition metric_row_ok :: "metric \<Rightarrow> bool" where
  "metric_row_ok m =
     (mt_method m \<in> set [''GET'', ''HEAD'', ''POST'', ''PUT'', ''PATCH'', ''DELETE'', ''OPTIONS''] \<and>
      metric_route_ok (mt_route m) \<and>
      mt_requestCount m = mt_status2xx m + mt_status3xx m + mt_status4xx m + mt_status5xx m \<and>
      (mt_latencySumMs m = NaN \<or> js_le (Fin 0) (mt_latencySumMs m)) \<and>
      length (mt_latencyHistogram m) = 10)"

text \<open>\<open>INSERT ... ON CONFLICT ... DO UPDATE\<close>; \<open>None\<close> when a check fails.\<close>

definition upsert_metric :: "metric \<Rightarrow> (metric_id, metric) dict \<Rightarrow> (metric_id, metric) dict option" where
  "upsert_metric m table =
     (let row = (case dict_get table (metric_id m) of None \<Rightarrow> m | Some stored \<Rightarrow> add_metric stored m) in
      if metric_row_ok m \<and> metric_row_ok row then Some (dict_set (metric_id m) row table) else None)"

fun store_metrics :: "metric list \<Rightarrow> (metric_id, metric) dict \<Rightarrow> (metric_id, metric) dict option" where
  "store_metrics [] table = Some table"
| "store_metrics (m # ms) table =
     (case upsert_metric m table of None \<Rightarrow> None | Some table1 \<Rightarrow> store_metrics ms table1)"

definition merge_metric :: "string \<times> metric \<Rightarrow> (string, metric) dict \<Rightarrow> (string, metric) dict" where
  "merge_metric entry active =
     (case entry of (key, old) \<Rightarrow>
        case dict_get active key of
          None \<Rightarrow> if length active < MAX_ACTIVE_KEYS then dict_set key old active else active
        | Some current \<Rightarrow> dict_set key (add_metric current old) active)"

definition mergeBack :: "(string, metric) dict \<Rightarrow> (string, metric) dict \<Rightarrow> (string, metric) dict" where
  "mergeBack pending active = fold merge_metric pending active"

definition cleanupRetention :: "int \<Rightarrow> js_date \<Rightarrow> (metric_id, metric) dict \<Rightarrow> (metric_id, metric) dict" where
  "cleanupRetention retentionDays now table =
     filter (\<lambda>(k, m). \<not> date_lt (mt_bucketAt m) (date_shift now (- (retentionDays * 86400000)))) table"

section \<open>The service\<close>

text \<open>\<open>tf_flushing\<close> holds what the flushes that have started and not yet ended took with them.\<close>

record traffic =
  tf_active :: "(string, metric) dict"
  tf_flushing :: "(string, metric) dict list"
  tf_table :: "(metric_id, metric) dict"

definition new_traffic :: traffic where
  "new_traffic = \<lparr> tf_active = [], tf_flushing = [], tf_table = [] \<rparr>"

definition start_flush :: "traffic \<Rightarrow> traffic" where
  "start_flush s =
     (if tf_active s = [] then s
      else s\<lparr>tf_active := [], tf_flushing := tf_flushing s @ [tf_active s]\<rparr>)"

text \<open>The transaction of flush \<open>i\<close> ends; \<open>works\<close> says whether the database works.\<close>

definition end_flush :: "nat \<Rightarrow> bool \<Rightarrow> traffic \<Rightarrow> traffic" where
  "end_flush i works s =
     (if i < length (tf_flushing s) then
        let pending = tf_flushing s ! i;
            s1 = s\<lparr>tf_flushing := take i (tf_flushing s) @ drop (Suc i) (tf_flushing s)\<rparr> in
        case (if works then store_metrics (dict_values pending) (tf_table s) else None) of
          Some table \<Rightarrow> s1\<lparr>tf_table := table\<rparr>
        | None \<Rightarrow> s1\<lparr>tf_active := mergeBack pending (tf_active s)\<rparr>
      else s)"

datatype traffic_event = T_Request http_request | T_Flush | T_Flushed nat bool | T_Cleanup js_date

fun traffic_step :: "int \<Rightarrow> traffic_event \<Rightarrow> traffic \<Rightarrow> traffic" where
  "traffic_step retentionDays (T_Request r) s =
     (case record_request (traffic_input_of r) (tf_active s) of
        None \<Rightarrow> s | Some active \<Rightarrow> s\<lparr>tf_active := active\<rparr>)"
| "traffic_step retentionDays T_Flush s = start_flush s"
| "traffic_step retentionDays (T_Flushed i works) s = end_flush i works s"
| "traffic_step retentionDays (T_Cleanup now) s =
     s\<lparr>tf_table := cleanupRetention retentionDays now (tf_table s)\<rparr>"

definition traffic_run :: "int \<Rightarrow> traffic_event list \<Rightarrow> traffic" where
  "traffic_run retentionDays events = fold (traffic_step retentionDays) events new_traffic"

section \<open>Routes and methods\<close>

lemma safeMethod_known: "safeMethod v \<in> set [''GET'', ''HEAD'', ''POST'', ''PUT'', ''PATCH'', ''DELETE'', ''OPTIONS'']"
  by (auto simp: safeMethod_def Let_def)

lemma segment_chars: "list_all is_segment_char (normalize_segment previous s)"
proof -
  have "list_all is_segment_char '':nodeId''" "list_all is_segment_char '':id''" "list_all is_segment_char '':value''"
    by code_simp+
  then show ?thesis by (auto simp: normalize_segment_def)
qed

lemma segments_chars: "t \<in> set (normalize_segments previous ss) \<Longrightarrow> list_all is_segment_char t"
  by (induction ss arbitrary: previous) (auto simp: segment_chars)

text \<open>Whatever the path, its normal form satisfies the check of the table.\<close>

lemma normalizeHttpRoute_ok: "metric_route_ok (normalizeHttpRoute path)"
proof -
  define joined where "joined = join ''/'' (normalize_segments None
    (split_on (CHR ''/'') (take 512 (hd (split_on (CHR ''?'') path)))))"
  have chars: "is_segment_char c \<or> c = CHR ''/''" if "c \<in> set (take 160 joined)" for c
    using in_join [of c "''/''"] segments_chars in_set_takeD [OF that]
    by (fastforce simp: joined_def list_all_iff)
  show ?thesis
  proof (cases "starts_with (take 160 joined) ''/'' \<and> 1 < length (take 160 joined)")
    case True
    then have n: "normalizeHttpRoute path = take 160 joined"
      by (simp add: normalizeHttpRoute_def joined_def Let_def)
    from True obtain c cs where t: "take 160 joined = c # cs" "c = CHR ''/''" "cs \<noteq> []"
      by (cases "take 160 joined") auto
    have "length (take 160 joined) \<le> 160" by simp
    then have "length cs < 160" unfolding t by simp
    moreover have "list_all (\<lambda>c. is_segment_char c \<or> c = CHR ''/'') cs"
      using chars unfolding t by (simp add: list_all_iff)
    ultimately show ?thesis unfolding n using t by (cases cs) (simp_all add: metric_route_ok_def)
  next
    case False
    then have "normalizeHttpRoute path = ''/''"
      unfolding normalizeHttpRoute_def Let_def joined_def [symmetric] by (simp only: if_False)
    then show ?thesis by (simp add: metric_route_ok_def)
  qed
qed

section \<open>Counters\<close>

text \<open>The counters of a metric, and what one request adds to each.\<close>

definition counters :: "metric \<Rightarrow> nat list" where
  "counters m = [mt_requestCount m, mt_status2xx m, mt_status3xx m, mt_status4xx m, mt_status5xx m,
     mt_requestBytes m, mt_responseBytes m] @ mt_latencyHistogram m"

definition request_counters :: "traffic_input \<Rightarrow> nat list" where
  "request_counters x =
     [1, of_bool (ti_statusCode x < 300), of_bool (300 \<le> ti_statusCode x \<and> ti_statusCode x < 400),
      of_bool (400 \<le> ti_statusCode x \<and> ti_statusCode x < 500), of_bool (500 \<le> ti_statusCode x),
      boundedBytes (ti_requestBytes x), boundedBytes (ti_responseBytes x)]
     @ map (\<lambda>i. of_bool (i = latencyBucketIndex (bounded_latency x))) [0..<HISTOGRAM_SIZE]"

definition request_id :: "traffic_input \<Rightarrow> metric_id" where
  "request_id x = (minuteBucket (ti_at x), ti_method x, ti_route x)"

lemma histogram_size: "HISTOGRAM_SIZE = 10"
  by (simp add: HISTOGRAM_SIZE_def LATENCY_BUCKET_LIMITS_MS_def)

lemma metric_id_simps [simp]:
  "metric_id (count_request x m) = metric_id m" "metric_id (add_metric a b) = metric_id a"
  "metric_id (new_metric t e r) = (t, e, r)"
  by (simp_all add: metric_id_def count_request_def add_metric_def new_metric_def Let_def)

lemma nth_add_lists:
  "length xs = length ys \<Longrightarrow> i < length xs \<Longrightarrow> map2 (+) xs ys ! i = xs ! i + (ys ! i :: nat)"
  by simp

lemma counters_count_request:
  assumes "length (mt_latencyHistogram m) = 10" and "i < 17"
  shows "counters (count_request x m) ! i = counters m ! i + request_counters x ! i"
proof -
  let ?j = "latencyBucketIndex (bounded_latency x)"
  have h: "(mt_latencyHistogram m)[?j := Suc (mt_latencyHistogram m ! ?j)] =
      map2 (+) (mt_latencyHistogram m) (map (\<lambda>i. of_bool (i = ?j)) [0..<HISTOGRAM_SIZE])"
    by (rule nth_equalityI) (auto simp: assms histogram_size nth_list_update)
  have "counters (count_request x m) = map2 (+) (counters m) (request_counters x)"
    unfolding request_counters_def counters_def
    by (simp add: count_request_def Let_def h)
  moreover have "length (counters m) = 17" "length (request_counters x) = 17"
    by (simp_all add: counters_def request_counters_def assms histogram_size)
  ultimately show ?thesis using assms(2) by simp
qed

lemma counters_add_metric:
  assumes "length (mt_latencyHistogram a) = 10" and "length (mt_latencyHistogram b) = 10" and "i < 17"
  shows "counters (add_metric a b) ! i = counters a ! i + counters b ! i"
proof -
  have "map (\<lambda>i. mt_latencyHistogram a ! i + mt_latencyHistogram b ! i) [0..<HISTOGRAM_SIZE] =
      map2 (+) (mt_latencyHistogram a) (mt_latencyHistogram b)"
    by (rule nth_equalityI) (auto simp: assms histogram_size)
  then have "counters (add_metric a b) = map2 (+) (counters a) (counters b)"
    by (simp add: counters_def add_metric_def)
  moreover have "length (counters a) = 17" "length (counters b) = 17" by (simp_all add: counters_def assms)
  ultimately show ?thesis using assms(3) by simp
qed

section \<open>Well-formed metrics\<close>

definition latency_ok :: "jsnum \<Rightarrow> bool" where
  "latency_ok v \<longleftrightarrow> v = NaN \<or> js_le (Fin 0) v"

lemma latency_ok_simps [simp]:
  "latency_ok (Fin a) \<longleftrightarrow> 0 \<le> a" "latency_ok NaN" "latency_ok PInf" "\<not> latency_ok NInf"
  by (auto simp: latency_ok_def js_le_def)

lemma latency_ok_mk_num: "0 \<le> q \<Longrightarrow> latency_ok (mk_num q)"
proof -
  assume "0 \<le> q"
  then have "0 \<le> round_binary64 q" by (rule round_binary64_nonneg)
  moreover have "0 < pow2 1024" by simp
  ultimately have "\<not> round_binary64 q \<le> - pow2 1024" by linarith
  with \<open>0 \<le> round_binary64 q\<close> show ?thesis by (simp add: mk_num_def Let_def)
qed

lemma latency_ok_add: "latency_ok v \<Longrightarrow> latency_ok w \<Longrightarrow> latency_ok (js_add v w)"
  by (cases v; cases w) (simp_all add: latency_ok_mk_num)

lemma bounded_latency_ok: "latency_ok (bounded_latency x)"
  by (cases "ti_latencyMs x") (auto simp: latency_ok_def bounded_latency_def js_max_def js_min_def js_le_def)

lemma row_ok_count: "metric_row_ok m \<Longrightarrow> metric_row_ok (count_request x m)"
  using latency_ok_add [OF _ bounded_latency_ok, of "mt_latencySumMs m" x]
  by (auto simp: metric_row_ok_def count_request_def Let_def latency_ok_def)

lemma row_ok_new:
  "e \<in> set [''GET'', ''HEAD'', ''POST'', ''PUT'', ''PATCH'', ''DELETE'', ''OPTIONS''] \<Longrightarrow> metric_route_ok r \<Longrightarrow>
     metric_row_ok (new_metric b e r)"
  by (auto simp: metric_row_ok_def new_metric_def histogram_size js_le_def)

lemma row_ok_add: "metric_row_ok a \<Longrightarrow> metric_row_ok b \<Longrightarrow> metric_row_ok (add_metric a b)"
  using latency_ok_add [of "mt_latencySumMs a" "mt_latencySumMs b"]
  by (auto simp: metric_row_ok_def add_metric_def latency_ok_def histogram_size)

definition key_of :: "metric_id \<Rightarrow> string option" where
  "key_of p = (case p of (b, e, r) \<Rightarrow> metric_key b e r)"

definition active_ok :: "(string, metric) dict \<Rightarrow> bool" where
  "active_ok d \<longleftrightarrow> dict_ok d \<and> (\<forall>(k, m)\<in>set d. metric_row_ok m \<and> key_of (metric_id m) = Some k)"

definition table_ok :: "(metric_id, metric) dict \<Rightarrow> bool" where
  "table_ok t \<longleftrightarrow> dict_ok t \<and> (\<forall>(p, m)\<in>set t. metric_row_ok m \<and> p = metric_id m)"

text \<open>The text of a key determines its minute, method and route.\<close>

lemma metric_key_inject:
  assumes "metric_key b e r = Some k" and "metric_key b' e' r' = Some k"
    and "CHR 0x00 \<notin> set e" and "CHR 0x00 \<notin> set e'"
  shows "(b, e, r) = (b', e', r')"
proof -
  obtain s s' where s: "toISOString b = Some s" "toISOString b' = Some s'"
    and k: "s @ CHR 0x00 # e @ CHR 0x00 # r = s' @ CHR 0x00 # e' @ CHR 0x00 # r'"
    using assms by (auto simp: metric_key_def)
  from split_unique [OF k toISOString_no_nul [OF s(1)] toISOString_no_nul [OF s(2)]]
  have "s = s'" and rest: "e @ CHR 0x00 # r = e' @ CHR 0x00 # r'" by simp_all
  moreover from split_unique [OF rest assms(3,4)] have "e = e' \<and> r = r'" .
  ultimately show ?thesis using s toISOString_inject by simp
qed

lemma known_method_no_nul:
  "e \<in> set [''GET'', ''HEAD'', ''POST'', ''PUT'', ''PATCH'', ''DELETE'', ''OPTIONS''] \<Longrightarrow> CHR 0x00 \<notin> set e"
  by auto

section \<open>Amounts\<close>

text \<open>What the entries of a dictionary with identity \<open>p\<close> hold of counter \<open>i\<close>.\<close>

definition weight :: "nat \<Rightarrow> metric_id \<Rightarrow> metric \<Rightarrow> nat" where
  "weight i p m = (if metric_id m = p then counters m ! i else 0)"

definition amount :: "nat \<Rightarrow> metric_id \<Rightarrow> ('k, metric) dict \<Rightarrow> nat" where
  "amount i p d = sum_list (map (\<lambda>(k, m). weight i p m) d)"

definition request_weight :: "nat \<Rightarrow> metric_id \<Rightarrow> traffic_input \<Rightarrow> nat" where
  "request_weight i p x = (if request_id x = p then request_counters x ! i else 0)"

lemma amount_simps [simp]:
  "amount i p [] = 0" "amount i p ((k, m) # d) = weight i p m + amount i p d"
  "amount i p (c @ d) = amount i p c + amount i p d"
  by (simp_all add: amount_def)

lemma amount_put_new: "dict_get d k = None \<Longrightarrow> amount i p (dict_set k m d) = amount i p d + weight i p m"
  by (induction d) (auto simp: dict_get_def)

lemma amount_put_old:
  "dict_get d k = Some e \<Longrightarrow> amount i p (dict_set k m d) + weight i p e = amount i p d + weight i p m"
  by (induction d) (auto simp: dict_get_def)

lemma weight_count:
  assumes "metric_row_ok m" and "metric_id m = request_id x" and "i < 17"
  shows "weight i p (count_request x m) = weight i p m + request_weight i p x"
  using assms counters_count_request [of m i x] by (simp add: weight_def request_weight_def metric_row_ok_def)

lemma weight_add:
  assumes "metric_row_ok a" and "metric_row_ok b" and "metric_id a = metric_id b" and "i < 17"
  shows "weight i p (add_metric a b) = weight i p a + weight i p b"
  using assms counters_add_metric [of a b i] by (simp add: weight_def metric_row_ok_def)

lemma weight_new: "i < 17 \<Longrightarrow> weight i p (new_metric b e r) = 0"
proof -
  assume "i < 17"
  moreover have "counters (new_metric b e r) = replicate 17 0"
    by (simp add: counters_def new_metric_def histogram_size numeral_eq_Suc)
  ultimately show ?thesis by (simp add: weight_def)
qed

lemma active_okD:
  assumes "active_ok d" and "dict_get d k = Some m"
  shows "metric_row_ok m" and "key_of (metric_id m) = Some k"
  using assms dict_get_in [OF assms(2)] by (auto simp: active_ok_def)

lemma active_ok_put:
  "active_ok d \<Longrightarrow> metric_row_ok m \<Longrightarrow> key_of (metric_id m) = Some k \<Longrightarrow> active_ok (dict_set k m d)"
  using set_dict_set [of k m d] by (auto simp: active_ok_def dict_ok_set)

lemma table_ok_put:
  "table_ok t \<Longrightarrow> metric_row_ok m \<Longrightarrow> table_ok (dict_set (metric_id m) m t)"
  using set_dict_set [of "metric_id m" m t] by (auto simp: table_ok_def dict_ok_set)

text \<open>Entries of one key have one identity.\<close>

lemma key_of_inject:
  assumes "metric_row_ok m" and "key_of (metric_id m) = Some k"
    and "metric_row_ok n" and "key_of (metric_id n) = Some k"
  shows "metric_id m = metric_id n"
proof -
  have "CHR 0x00 \<notin> set (mt_method m)" "CHR 0x00 \<notin> set (mt_method n)"
    using assms(1,3) known_method_no_nul unfolding metric_row_ok_def by blast+
  from metric_key_inject [OF _ _ this] assms(2,4) show ?thesis
    by (simp add: key_of_def metric_id_def)
qed

section \<open>Steps\<close>

text \<open>A dictionary of active metrics has room for a key as long as at most 500 identities are about.\<close>

definition within_ids :: "metric_id set \<Rightarrow> (string, metric) dict \<Rightarrow> bool" where
  "within_ids R d \<longleftrightarrow> (\<forall>(k, m)\<in>set d. metric_id m \<in> R)"

lemma room:
  assumes "active_ok d" and "within_ids R d" and "finite R" and "card R \<le> 500"
    and "q \<in> R" and "key_of q = Some k" and "dict_get d k = None"
  shows "length d < 500"
proof -
  have "set (map fst d) \<subseteq> (the \<circ> key_of) ` (R - {q})"
  proof
    fix k' assume "k' \<in> set (map fst d)"
    then obtain m where m: "(k', m) \<in> set d" by auto
    with assms(1,2) have "key_of (metric_id m) = Some k'" "metric_id m \<in> R"
      by (auto simp: active_ok_def within_ids_def)
    moreover from m assms(7) have "k' \<noteq> k" by (force simp: dict_get_None dict_keys_def)
    ultimately have "metric_id m \<noteq> q" "(the \<circ> key_of) (metric_id m) = k'" using assms(6) by auto
    with \<open>metric_id m \<in> R\<close> show "k' \<in> (the \<circ> key_of) ` (R - {q})" by force
  qed
  then have "card (set (map fst d)) \<le> card (R - {q})"
    using assms(3) by (meson card_image_le card_mono finite_Diff finite_imageI order_trans)
  moreover have "card (R - {q}) < card R" using assms(3,5) by (rule card_Diff1_less)
  moreover have "card (set (map fst d)) = length d"
    using assms(1) distinct_card [of "map fst d"] by (simp add: active_ok_def dict_ok_def)
  ultimately show ?thesis using assms(4) by simp
qed

lemma within_ids_put: "within_ids R d \<Longrightarrow> metric_id m \<in> R \<Longrightarrow> within_ids R (dict_set k m d)"
  using set_dict_set [of k m d] by (auto simp: within_ids_def)

definition input_ok :: "traffic_input \<Rightarrow> bool" where
  "input_ok x \<longleftrightarrow> ti_method x \<in> set [''GET'', ''HEAD'', ''POST'', ''PUT'', ''PATCH'', ''DELETE'', ''OPTIONS''] \<and>
     metric_route_ok (ti_route x)"

lemma traffic_input_ok: "input_ok (traffic_input_of r)"
  unfolding input_ok_def traffic_input_of_def
  using safeMethod_known [of "hr_method r"] normalizeHttpRoute_ok by simp

lemma record_step:
  assumes "active_ok d" and "input_ok x" and "record_request x d = Some d'"
  shows "active_ok d'" and "request_id x \<in> R \<Longrightarrow> within_ids R d \<Longrightarrow> within_ids R d'"
    and "i < 17 \<Longrightarrow> amount i p d' \<le> amount i p d + request_weight i p x"
    and "i < 17 \<Longrightarrow> request_id x \<in> R \<Longrightarrow> within_ids R d \<Longrightarrow> finite R \<Longrightarrow> card R \<le> 500 \<Longrightarrow>
      amount i p d' = amount i p d + request_weight i p x"
proof -
  let ?new = "new_metric (minuteBucket (ti_at x)) (ti_method x) (ti_route x)"
  from assms(3) obtain k where key: "key_of (request_id x) = Some k"
    by (auto simp: record_request_def Let_def request_id_def key_of_def split: option.splits)
  have new: "metric_row_ok ?new" "metric_id ?new = request_id x"
    using assms(2) row_ok_new by (auto simp: input_ok_def request_id_def)
  define full where "full \<longleftrightarrow> dict_get d k = None \<and> 500 \<le> length d"
  define m where "m = (case dict_get d k of None \<Rightarrow> ?new | Some e \<Rightarrow> e)"
  have "metric_row_ok m \<and> metric_id m = request_id x"
  proof (cases "dict_get d k")
    case (Some e)
    from key_of_inject [OF active_okD [OF assms(1) this] new(1)] new(2) key active_okD [OF assms(1) Some]
    show ?thesis by (simp add: m_def Some)
  qed (simp only: m_def option.case new simp_thms)
  then have m: "metric_row_ok m" "metric_id m = request_id x" by auto
  have d': "d' = (if full then d else dict_set k (count_request x m) d)"
    using assms(3) key
    by (auto simp: record_request_def Let_def request_id_def key_of_def full_def m_def MAX_ACTIVE_KEYS_def
        split: option.splits)
  show "active_ok d'" using assms(1) m key row_ok_count by (simp add: d' active_ok_put)
  show "within_ids R d'" if "request_id x \<in> R" "within_ids R d"
    using that m by (simp add: d' within_ids_put)
  have put: "amount i p (dict_set k (count_request x m) d) = amount i p d + request_weight i p x" if "i < 17"
  proof (cases "dict_get d k")
    case None
    then show ?thesis
      using weight_count [OF m that] weight_new [OF that] amount_put_new [OF None] by (simp add: m_def)
  next
    case (Some e)
    then show ?thesis
      using weight_count [OF m that] amount_put_old [OF Some, of i p "count_request x m"] by (simp add: m_def)
  qed
  then show "amount i p d' \<le> amount i p d + request_weight i p x" if "i < 17"
    using that by (simp add: d')
  show "amount i p d' = amount i p d + request_weight i p x"
    if "i < 17" "request_id x \<in> R" "within_ids R d" "finite R" "card R \<le> 500"
    using put that room [OF assms(1) that(3,4,5,2) key] by (auto simp: d' full_def)
qed

lemma merge_step:
  assumes "active_ok d" and "metric_row_ok m" and "key_of (metric_id m) = Some k"
  shows "active_ok (merge_metric (k, m) d)"
    and "metric_id m \<in> R \<Longrightarrow> within_ids R d \<Longrightarrow> within_ids R (merge_metric (k, m) d)"
    and "i < 17 \<Longrightarrow> amount i p (merge_metric (k, m) d) \<le> amount i p d + weight i p m"
    and "i < 17 \<Longrightarrow> metric_id m \<in> R \<Longrightarrow> within_ids R d \<Longrightarrow> finite R \<Longrightarrow> card R \<le> 500 \<Longrightarrow>
      amount i p (merge_metric (k, m) d) = amount i p d + weight i p m"
proof -
  have old: "metric_row_ok e" "metric_id e = metric_id m" if "dict_get d k = Some e" for e
    using active_okD [OF assms(1) that] key_of_inject [OF _ _ assms(2,3)] by blast+
  have merged: "amount i p (dict_set k (add_metric e m) d) = amount i p d + weight i p m"
    if "dict_get d k = Some e" "i < 17" for e
    using weight_add [OF old(1) assms(2) old(2) that(2), OF that(1) that(1), of p]
      amount_put_old [OF that(1), of i p "add_metric e m"] by simp
  show "active_ok (merge_metric (k, m) d)"
    using assms old by (auto simp: merge_metric_def row_ok_add intro!: active_ok_put split: option.splits)
  show "within_ids R (merge_metric (k, m) d)" if "metric_id m \<in> R" "within_ids R d"
    using that old by (auto simp: merge_metric_def intro!: within_ids_put split: option.splits)
  show "amount i p (merge_metric (k, m) d) \<le> amount i p d + weight i p m" if "i < 17"
    using merged that by (auto simp: merge_metric_def amount_put_new split: option.splits)
  show "amount i p (merge_metric (k, m) d) = amount i p d + weight i p m"
    if "i < 17" "metric_id m \<in> R" "within_ids R d" "finite R" "card R \<le> 500"
    using merged that room [OF assms(1) that(3,4,5,2) assms(3)]
    by (auto simp: merge_metric_def amount_put_new MAX_ACTIVE_KEYS_def split: option.splits)
qed

definition entries_ok :: "(string, metric) dict \<Rightarrow> bool" where
  "entries_ok d \<longleftrightarrow> (\<forall>(k, m)\<in>set d. metric_row_ok m \<and> key_of (metric_id m) = Some k)"

lemma mergeBack_step:
  assumes "entries_ok pending" and "active_ok d"
  shows "active_ok (mergeBack pending d)"
    and "within_ids R pending \<Longrightarrow> within_ids R d \<Longrightarrow> within_ids R (mergeBack pending d)"
    and "i < 17 \<Longrightarrow> amount i p (mergeBack pending d) \<le> amount i p d + amount i p pending"
    and "i < 17 \<Longrightarrow> within_ids R pending \<Longrightarrow> within_ids R d \<Longrightarrow> finite R \<Longrightarrow> card R \<le> 500 \<Longrightarrow>
      amount i p (mergeBack pending d) = amount i p d + amount i p pending"
proof -
  have "active_ok (mergeBack pending d) \<and>
    (within_ids R pending \<longrightarrow> within_ids R d \<longrightarrow> within_ids R (mergeBack pending d)) \<and>
    (i < 17 \<longrightarrow> amount i p (mergeBack pending d) \<le> amount i p d + amount i p pending) \<and>
    (i < 17 \<longrightarrow> within_ids R pending \<longrightarrow> within_ids R d \<longrightarrow> finite R \<longrightarrow> card R \<le> 500 \<longrightarrow>
      amount i p (mergeBack pending d) = amount i p d + amount i p pending)" for R i p
    using assms
  proof (induction pending arbitrary: d)
    case (Cons entry pending)
    obtain k m where entry: "entry = (k, m)" by fastforce
    with Cons.prems have m: "metric_row_ok m" "key_of (metric_id m) = Some k" and rest: "entries_ok pending"
      by (auto simp: entries_ok_def)
    note step = merge_step [OF Cons.prems(2) m]
    note IH = Cons.IH [OF rest step(1)]
    have unfold: "mergeBack (entry # pending) d = mergeBack pending (merge_metric (k, m) d)"
      by (simp add: mergeBack_def entry)
    have ids: "within_ids R (entry # pending) \<longleftrightarrow> metric_id m \<in> R \<and> within_ids R pending"
      by (simp add: within_ids_def entry)
    show ?case unfolding unfold ids using IH step(2) [of R] step(3) [of i p] step(4) [of i R p]
      by (auto simp: entry)
  qed (simp add: mergeBack_def)
  then show "active_ok (mergeBack pending d)"
    and "within_ids R pending \<Longrightarrow> within_ids R d \<Longrightarrow> within_ids R (mergeBack pending d)"
    and "i < 17 \<Longrightarrow> amount i p (mergeBack pending d) \<le> amount i p d + amount i p pending"
    and "i < 17 \<Longrightarrow> within_ids R pending \<Longrightarrow> within_ids R d \<Longrightarrow> finite R \<Longrightarrow> card R \<le> 500 \<Longrightarrow>
      amount i p (mergeBack pending d) = amount i p d + amount i p pending"
    by blast+
qed

text \<open>No check of the table refuses a well-formed metric.\<close>

lemma upsert_step:
  assumes "table_ok t" and "metric_row_ok m"
  shows "\<exists>t'. upsert_metric m t = Some t' \<and> table_ok t' \<and> (\<forall>i p. i < 17 \<longrightarrow> amount i p t' = amount i p t + weight i p m)"
proof (cases "dict_get t (metric_id m)")
  case None
  then show ?thesis using assms by (simp add: upsert_metric_def table_ok_put amount_put_new)
next
  case (Some e)
  then have e: "metric_row_ok e" "metric_id e = metric_id m"
    using dict_get_in [OF Some] assms(1) by (auto simp: table_ok_def)
  have row: "metric_row_ok (add_metric e m)" by (rule row_ok_add [OF e(1) assms(2)])
  have "amount i p (dict_set (metric_id m) (add_metric e m) t) = amount i p t + weight i p m" if "i < 17" for i p
    using weight_add [OF e(1) assms(2) e(2) that, of p] amount_put_old [OF Some, of i p "add_metric e m"] by simp
  moreover have "table_ok (dict_set (metric_id m) (add_metric e m) t)"
    using table_ok_put [OF assms(1) row] e(2) by simp
  ultimately show ?thesis using Some assms(2) row by (simp add: upsert_metric_def)
qed

lemma store_step:
  assumes "table_ok t" and "entries_ok pending"
  shows "\<exists>t'. store_metrics (dict_values pending) t = Some t' \<and> table_ok t' \<and>
    (\<forall>i p. i < 17 \<longrightarrow> amount i p t' = amount i p t + amount i p pending)"
  using assms
proof (induction pending arbitrary: t)
  case (Cons entry pending)
  obtain k m where entry: "entry = (k, m)" by fastforce
  from Cons.prems have "metric_row_ok m" "entries_ok pending" by (auto simp: entries_ok_def entry)
  with upsert_step [OF Cons.prems(1)] obtain t1 where t1: "upsert_metric m t = Some t1" "table_ok t1"
    "\<forall>i p. i < 17 \<longrightarrow> amount i p t1 = amount i p t + weight i p m" by blast
  from Cons.IH [OF t1(2) \<open>entries_ok pending\<close>] t1 show ?case by (auto simp: entry dict_values_def)
qed (simp add: dict_values_def)

lemma cleanup_step:
  assumes "table_ok t"
  shows "table_ok (cleanupRetention days now t)"
    and "amount i p (cleanupRetention days now t) \<le> amount i p t"
    and "\<not> date_lt (fst p) (date_shift now (- (days * 86400000))) \<Longrightarrow>
      amount i p (cleanupRetention days now t) = amount i p t"
proof -
  show "table_ok (cleanupRetention days now t)"
    using assms by (auto simp: table_ok_def cleanupRetention_def dict_ok_filter)
  show "amount i p (cleanupRetention days now t) \<le> amount i p t"
    by (induction t) (auto simp: cleanupRetention_def)
  show "amount i p (cleanupRetention days now t) = amount i p t"
    if "\<not> date_lt (fst p) (date_shift now (- (days * 86400000)))"
    using that by (induction t) (auto simp: cleanupRetention_def weight_def metric_id_def split: if_splits)
qed

section \<open>Conservation\<close>

text \<open>The requests of a run whose date has a text, which the date of a response always has.\<close>

fun requests_of :: "traffic_event list \<Rightarrow> traffic_input list" where
  "requests_of [] = []"
| "requests_of (T_Request r # es) =
     (if valid_date (minuteBucket (hr_finishedAt r)) then traffic_input_of r # requests_of es else requests_of es)"
| "requests_of (e # es) = requests_of es"

definition held :: "nat \<Rightarrow> metric_id \<Rightarrow> traffic \<Rightarrow> nat" where
  "held i p s =
     amount i p (tf_table s) + sum_list (map (amount i p) (tf_flushing s)) + amount i p (tf_active s)"

definition traffic_inv :: "traffic \<Rightarrow> bool" where
  "traffic_inv s \<longleftrightarrow> active_ok (tf_active s) \<and> list_all entries_ok (tf_flushing s) \<and> table_ok (tf_table s)"

definition ids_within :: "metric_id set \<Rightarrow> traffic \<Rightarrow> bool" where
  "ids_within R s \<longleftrightarrow> within_ids R (tf_active s) \<and> list_all (within_ids R) (tf_flushing s)"

lemma requests_of_append: "requests_of (es @ es') = requests_of es @ requests_of es'"
  by (induction es rule: requests_of.induct) auto

lemma requests_of_single:
  "requests_of [T_Request r] = (if valid_date (minuteBucket (hr_finishedAt r)) then [traffic_input_of r] else [])"
  by simp

lemma active_entries_ok: "active_ok d \<Longrightarrow> entries_ok d"
  by (simp add: active_ok_def entries_ok_def)

text \<open>Whatever happens, one step adds at most its own request, and exactly that when there is room.\<close>

definition step_ok :: "int \<Rightarrow> traffic_event \<Rightarrow> traffic \<Rightarrow> bool" where
  "step_ok days e s \<longleftrightarrow>
     traffic_inv (traffic_step days e s) \<and>
     (\<forall>R. request_id ` set (requests_of [e]) \<subseteq> R \<longrightarrow> ids_within R s \<longrightarrow> ids_within R (traffic_step days e s)) \<and>
     (\<forall>i<17. \<forall>p. held i p (traffic_step days e s) \<le>
        held i p s + sum_list (map (request_weight i p) (requests_of [e]))) \<and>
     (\<forall>i<17. \<forall>p. \<forall>R. request_id ` set (requests_of [e]) \<subseteq> R \<longrightarrow> ids_within R s \<longrightarrow> finite R \<longrightarrow> card R \<le> 500 \<longrightarrow>
        (\<forall>now. e = T_Cleanup now \<longrightarrow> \<not> date_lt (fst p) (date_shift now (- (days * 86400000)))) \<longrightarrow>
        held i p (traffic_step days e s) = held i p s + sum_list (map (request_weight i p) (requests_of [e])))"

lemma request_step_ok:
  assumes "traffic_inv s"
  shows "step_ok days (T_Request r) s"
proof (cases "record_request (traffic_input_of r) (tf_active s)")
  case None
  then have "\<not> valid_date (minuteBucket (hr_finishedAt r))"
    using toISOString_valid [of "minuteBucket (hr_finishedAt r)"] by (auto simp: record_request_def Let_def metric_key_def traffic_input_of_def
        split: option.splits)
  with assms None show ?thesis by (simp add: step_ok_def)
next
  case (Some d)
  then have "valid_date (minuteBucket (hr_finishedAt r))"
    by (cases "minuteBucket (hr_finishedAt r)")
      (auto simp: record_request_def Let_def metric_key_def traffic_input_of_def)
  then have reqs: "requests_of [T_Request r] = [traffic_input_of r]" by simp
  have "active_ok (tf_active s)" using assms by (simp add: traffic_inv_def)
  note step = record_step [OF this traffic_input_ok Some]
  show ?thesis
    unfolding step_ok_def reqs
    using assms step by (auto simp: Some traffic_inv_def ids_within_def held_def)
qed

lemma flush_step_ok:
  assumes "traffic_inv s"
  shows "step_ok days T_Flush s"
  using assms active_entries_ok
  by (auto simp: step_ok_def start_flush_def traffic_inv_def ids_within_def held_def active_ok_def dict_ok_Nil
      within_ids_def)

lemma sum_list_remove:
  fixes f :: "'a \<Rightarrow> nat"
  shows "i < length xs \<Longrightarrow> sum_list (map f (take i xs @ drop (Suc i) xs)) + f (xs ! i) = sum_list (map f xs)"
  by (subst (3) id_take_nth_drop [of i xs]) auto

lemma list_all_remove: "list_all P xs \<Longrightarrow> list_all P (take i xs @ drop (Suc i) xs)"
  by (auto simp: list_all_iff dest: in_set_takeD in_set_dropD)

lemma flushed_step_ok:
  assumes "traffic_inv s"
  shows "step_ok days (T_Flushed j works) s"
proof (cases "j < length (tf_flushing s)")
  case True
  let ?pending = "tf_flushing s ! j" and ?rest = "take j (tf_flushing s) @ drop (Suc j) (tf_flushing s)"
  have ok: "active_ok (tf_active s)" "table_ok (tf_table s)" "entries_ok ?pending" "list_all entries_ok ?rest"
    using assms True list_all_remove [of entries_ok "tf_flushing s" j] by (simp_all add: traffic_inv_def list_all_iff)
  have sum: "sum_list (map (amount i p) ?rest) + amount i p ?pending = sum_list (map (amount i p) (tf_flushing s))"
    for i p by (rule sum_list_remove [OF True])
  have ids: "within_ids R ?pending \<and> list_all (within_ids R) ?rest" if "ids_within R s" for R
    using that True list_all_remove [of "within_ids R" "tf_flushing s" j] by (simp add: ids_within_def list_all_iff)
  show ?thesis
  proof (cases works)
    case True
    from store_step [OF ok(2,3)] obtain t where t: "store_metrics (dict_values ?pending) (tf_table s) = Some t"
      "table_ok t" "\<forall>i p. i < 17 \<longrightarrow> amount i p t = amount i p (tf_table s) + amount i p ?pending" by blast
    have step: "traffic_step days (T_Flushed j works) s = s\<lparr>tf_flushing := ?rest, tf_table := t\<rparr>"
      using \<open>j < length (tf_flushing s)\<close> True t(1) by (simp add: end_flush_def Let_def)
    have "held i p (s\<lparr>tf_flushing := ?rest, tf_table := t\<rparr>) = held i p s" if "i < 17" for i p
      using t(3) [rule_format, OF that, of p] sum [of i p] by (simp add: held_def)
    then show ?thesis
      unfolding step_ok_def step using ok t(2) ids by (simp add: traffic_inv_def ids_within_def)
  next
    case False
    have step: "traffic_step days (T_Flushed j works) s =
        s\<lparr>tf_flushing := ?rest, tf_active := mergeBack ?pending (tf_active s)\<rparr>"
      using \<open>j < length (tf_flushing s)\<close> False by (simp add: end_flush_def Let_def)
    note merge = mergeBack_step [OF ok(3,1)]
    have "held i p (s\<lparr>tf_flushing := ?rest, tf_active := mergeBack ?pending (tf_active s)\<rparr>) \<le> held i p s"
      if "i < 17" for i p
      using merge(3) [OF that, of p] sum [of i p] by (simp add: held_def)
    moreover have "held i p (s\<lparr>tf_flushing := ?rest, tf_active := mergeBack ?pending (tf_active s)\<rparr>) = held i p s"
      if "i < 17" "ids_within R s" "finite R" "card R \<le> 500" for i p R
      using merge(4) [OF that(1) _ _ that(3,4), of p] ids [OF that(2)] that(2) sum [of i p]
      by (simp add: held_def ids_within_def)
    ultimately show ?thesis
      unfolding step_ok_def step using ok merge(1,2) ids by (simp add: traffic_inv_def ids_within_def)
  qed
next
  case False
  with assms show ?thesis by (simp add: step_ok_def end_flush_def)
qed

lemma cleanup_step_ok:
  assumes "traffic_inv s"
  shows "step_ok days (T_Cleanup now) s"
  using assms cleanup_step [where t = "tf_table s" and days = days and now = now]
  by (simp add: step_ok_def traffic_inv_def ids_within_def held_def)

lemma traffic_step_ok: "traffic_inv s \<Longrightarrow> step_ok days e s"
  by (cases e) (simp_all add: request_step_ok flush_step_ok flushed_step_ok cleanup_step_ok)

lemma traffic_step_le:
  "traffic_inv s \<Longrightarrow> i < 17 \<Longrightarrow>
     held i p (traffic_step days e s) \<le> held i p s + sum_list (map (request_weight i p) (requests_of [e]))"
  using traffic_step_ok [of s days e] unfolding step_ok_def by blast

lemma traffic_step_eq:
  "traffic_inv s \<Longrightarrow> i < 17 \<Longrightarrow> request_id ` set (requests_of [e]) \<subseteq> R \<Longrightarrow> ids_within R s \<Longrightarrow> finite R \<Longrightarrow>
     card R \<le> 500 \<Longrightarrow> (\<And>now. e = T_Cleanup now \<Longrightarrow> \<not> date_lt (fst p) (date_shift now (- (days * 86400000)))) \<Longrightarrow>
     held i p (traffic_step days e s) = held i p s + sum_list (map (request_weight i p) (requests_of [e]))"
  using traffic_step_ok [of s days e] unfolding step_ok_def by blast

lemma traffic_run_snoc: "traffic_run days (es @ [e]) = traffic_step days e (traffic_run days es)"
  by (simp add: traffic_run_def)

lemma traffic_run_inv: "traffic_inv (traffic_run days es)"
proof (induction es rule: rev_induct)
  case Nil
  then show ?case by (simp add: traffic_run_def new_traffic_def traffic_inv_def active_ok_def table_ok_def dict_ok_Nil)
next
  case (snoc e es)
  then show ?case using traffic_step_ok [of "traffic_run days es" days e] by (simp add: step_ok_def traffic_run_snoc)
qed

lemma traffic_run_ids:
  "request_id ` set (requests_of es) \<subseteq> R \<Longrightarrow> ids_within R (traffic_run days es)"
proof (induction es rule: rev_induct)
  case Nil
  then show ?case by (simp add: traffic_run_def new_traffic_def ids_within_def within_ids_def)
next
  case (snoc e es)
  then have "request_id ` set (requests_of [e]) \<subseteq> R" "ids_within R (traffic_run days es)"
    by (auto simp: requests_of_append)
  then show ?case
    using traffic_step_ok [OF traffic_run_inv, of days e days es] by (simp add: step_ok_def traffic_run_snoc)
qed

lemma traffic_run_le:
  "i < 17 \<Longrightarrow> held i p (traffic_run days es) \<le> sum_list (map (request_weight i p) (requests_of es))"
proof (induction es rule: rev_induct)
  case Nil
  then show ?case by (simp add: traffic_run_def new_traffic_def held_def)
next
  case (snoc e es)
  have "held i p (traffic_step days e (traffic_run days es)) \<le>
      held i p (traffic_run days es) + sum_list (map (request_weight i p) (requests_of [e]))"
    by (rule traffic_step_le [OF traffic_run_inv snoc.prems])
  with snoc show ?case by (simp add: requests_of_append traffic_run_snoc)
qed

lemma traffic_run_eq:
  assumes "i < 17" and "finite R" and "card R \<le> 500"
  shows "request_id ` set (requests_of es) \<subseteq> R \<Longrightarrow>
    (\<And>now. T_Cleanup now \<in> set es \<Longrightarrow> \<not> date_lt (fst p) (date_shift now (- (days * 86400000)))) \<Longrightarrow>
    held i p (traffic_run days es) = sum_list (map (request_weight i p) (requests_of es))"
proof (induction es rule: rev_induct)
  case Nil
  then show ?case by (simp add: traffic_run_def new_traffic_def held_def)
next
  case (snoc e es)
  have ids: "request_id ` set (requests_of es) \<subseteq> R" "request_id ` set (requests_of [e]) \<subseteq> R"
    using snoc.prems(1) by (auto simp: requests_of_append)
  have "held i p (traffic_step days e (traffic_run days es)) =
      held i p (traffic_run days es) + sum_list (map (request_weight i p) (requests_of [e]))"
    by (rule traffic_step_eq [OF traffic_run_inv assms(1) ids(2) traffic_run_ids [OF ids(1)] assms(2,3)])
      (use snoc.prems(2) in simp)
  with snoc.IH [OF ids(1)] snoc.prems(2) show ?case by (auto simp: requests_of_append traffic_run_snoc)
qed


definition sample_http :: http_request where
  "sample_http = \<lparr> hr_method = ''get'', hr_path = ''/api/v1/iot/nodes/GTH-1/latest'', hr_contentLength = JUndefined,
     hr_finishedAt = Date 1700000000000, hr_statusCode = 200, hr_duration = 30000000,
     hr_responseLength = JStr ''512'' \<rparr>"

definition sample_events :: "traffic_event list" where
  "sample_events = [T_Request sample_http, T_Flush, T_Request sample_http, T_Flushed 0 False, T_Flush,
     T_Cleanup (Date 1700000000000), T_Request sample_http, T_Flushed 0 True]"

lemma sample_route: "normalizeHttpRoute ''/api/v1/iot/nodes/GTH-1/latest'' = ''/api/v1/iot/nodes/:nodeId/latest''"
  by code_simp


end
