(* ===== verification/Traffic_Report.thy ===== *)
theory Traffic_Report
  imports Admin_Traffic
begin

text \<open>
  What the dashboard reports of the traffic metrics: \<^verbatim>\<open>query\<close>, \<^verbatim>\<open>overview\<close> and the percentiles of
  \<^verbatim>\<open>src/src/admin/metrics/admin-traffic.service.ts\<close>. The aggregates of the two statements are exact
  sums, which the service reads as texts; it adds them up again in binary64. The order of texts in
  the database's collation is a parameter.
\<close>

section \<open>Rows\<close>

record traffic_row =
  rw_requestCount :: nat
  rw_status2xx :: nat
  rw_status3xx :: nat
  rw_status4xx :: nat
  rw_status5xx :: nat
  rw_latencyHistogram :: "nat list"
  rw_latencySumMs :: jsnum
  rw_requestBytes :: nat
  rw_responseBytes :: nat

definition histogramSums :: "metric list \<Rightarrow> nat list" where
  "histogramSums ms = map (\<lambda>i. sum_list (map (\<lambda>m. mt_latencyHistogram m ! i) ms)) [0..<HISTOGRAM_SIZE]"

definition sum_rows :: "metric list \<Rightarrow> traffic_row" where
  "sum_rows ms = \<lparr> rw_requestCount = sum_list (map mt_requestCount ms),
     rw_status2xx = sum_list (map mt_status2xx ms), rw_status3xx = sum_list (map mt_status3xx ms),
     rw_status4xx = sum_list (map mt_status4xx ms), rw_status5xx = sum_list (map mt_status5xx ms),
     rw_latencyHistogram = histogramSums ms, rw_latencySumMs = foldl js_add (Fin 0) (map mt_latencySumMs ms),
     rw_requestBytes = sum_list (map mt_requestBytes ms), rw_responseBytes = sum_list (map mt_responseBytes ms) \<rparr>"

datatype dashboard_range = Range_1h | Range_24h | Range_7d | Range_30d

text \<open>The duration and the width of a bin, in milliseconds.\<close>

fun rangeDefinition :: "dashboard_range \<Rightarrow> int \<times> int" where
  "rangeDefinition Range_1h = (60 * 60000, 60000)"
| "rangeDefinition Range_24h = (24 * 60 * 60000, 5 * 60000)"
| "rangeDefinition Range_7d = (7 * 24 * 60 * 60000, 30 * 60000)"
| "rangeDefinition Range_30d = (30 * 24 * 60 * 60000, 120 * 60000)"

fun date_bin :: "int \<Rightarrow> js_date \<Rightarrow> int" where
  "date_bin width (Date t) = t div width * width"
| "date_bin width InvalidDate = 0"

definition rows_since :: "js_date \<Rightarrow> (metric_id, metric) dict \<Rightarrow> metric list" where
  "rows_since since table = filter (\<lambda>m. date_le since (mt_bucketAt m)) (dict_values table)"

definition timeline_rows :: "int \<Rightarrow> metric list \<Rightarrow> (int \<times> traffic_row) list" where
  "timeline_rows width ms =
     map (\<lambda>b. (b, sum_rows (filter (\<lambda>m. date_bin width (mt_bucketAt m) = b) ms)))
       (sort (remdups (map (\<lambda>m. date_bin width (mt_bucketAt m)) ms)))"

definition traffic_route_before ::
  "(string \<Rightarrow> string \<Rightarrow> bool) \<Rightarrow> (string \<times> string) \<times> traffic_row \<Rightarrow> (string \<times> string) \<times> traffic_row \<Rightarrow> bool" where
  "traffic_route_before text_le a b =
     (case (a, b) of (((m, r), x), ((n, s), y)) \<Rightarrow>
        if rw_requestCount x \<noteq> rw_requestCount y then rw_requestCount y < rw_requestCount x
        else if m \<noteq> n then text_le m n else text_le r s)"

definition route_rows ::
  "(string \<Rightarrow> string \<Rightarrow> bool) \<Rightarrow> metric list \<Rightarrow> ((string \<times> string) \<times> traffic_row) list" where
  "route_rows text_le ms = take 50 (sort_by (traffic_route_before text_le)
     (map (\<lambda>k. (k, sum_rows (filter (\<lambda>m. (mt_method m, mt_route m) = k) ms)))
       (remdups (map (\<lambda>m. (mt_method m, mt_route m)) ms))))"

section \<open>Summaries\<close>

record traffic_numbers =
  tn_requestCount :: jsnum
  tn_status2xx :: jsnum
  tn_status3xx :: jsnum
  tn_status4xx :: jsnum
  tn_status5xx :: jsnum
  tn_latencyHistogram :: "jsnum list"
  tn_latencySumMs :: jsnum
  tn_requestBytes :: jsnum
  tn_responseBytes :: jsnum

definition sum_text :: "nat \<Rightarrow> jsnum" where
  "sum_text n = number_of_string (show_nat n)"

definition parseRow :: "traffic_row \<Rightarrow> traffic_numbers" where
  "parseRow row = \<lparr> tn_requestCount = sum_text (rw_requestCount row), tn_status2xx = sum_text (rw_status2xx row),
     tn_status3xx = sum_text (rw_status3xx row), tn_status4xx = sum_text (rw_status4xx row),
     tn_status5xx = sum_text (rw_status5xx row), tn_latencyHistogram = map sum_text (rw_latencyHistogram row),
     tn_latencySumMs = rw_latencySumMs row, tn_requestBytes = sum_text (rw_requestBytes row),
     tn_responseBytes = sum_text (rw_responseBytes row) \<rparr>"

definition no_traffic :: traffic_numbers where
  "no_traffic = \<lparr> tn_requestCount = Fin 0, tn_status2xx = Fin 0, tn_status3xx = Fin 0, tn_status4xx = Fin 0,
     tn_status5xx = Fin 0, tn_latencyHistogram = replicate HISTOGRAM_SIZE (Fin 0), tn_latencySumMs = Fin 0,
     tn_requestBytes = Fin 0, tn_responseBytes = Fin 0 \<rparr>"

definition merge_row :: "traffic_numbers \<Rightarrow> traffic_row \<Rightarrow> traffic_numbers" where
  "merge_row merged row =
     (let parsed = parseRow row in
      \<lparr> tn_requestCount = js_add (tn_requestCount merged) (tn_requestCount parsed),
        tn_status2xx = js_add (tn_status2xx merged) (tn_status2xx parsed),
        tn_status3xx = js_add (tn_status3xx merged) (tn_status3xx parsed),
        tn_status4xx = js_add (tn_status4xx merged) (tn_status4xx parsed),
        tn_status5xx = js_add (tn_status5xx merged) (tn_status5xx parsed),
        tn_latencyHistogram = map (\<lambda>i. js_add (tn_latencyHistogram merged ! i) (tn_latencyHistogram parsed ! i))
          [0..<HISTOGRAM_SIZE],
        tn_latencySumMs = js_add (tn_latencySumMs merged) (tn_latencySumMs parsed),
        tn_requestBytes = js_add (tn_requestBytes merged) (tn_requestBytes parsed),
        tn_responseBytes = js_add (tn_responseBytes merged) (tn_responseBytes parsed) \<rparr>)"

definition mergeRows :: "traffic_row list \<Rightarrow> traffic_numbers" where
  "mergeRows rows = foldl merge_row no_traffic rows"

fun percentile_scan :: "jsnum \<Rightarrow> nat \<Rightarrow> jsnum \<Rightarrow> jsnum list \<Rightarrow> jsnum" where
  "percentile_scan target index cumulative [] = num_of_int 10000"
| "percentile_scan target index cumulative (n # ns) =
     (let cumulative = js_add cumulative n in
      if js_le target cumulative
      then (if index < length LATENCY_BUCKET_LIMITS_MS then num_of_int (LATENCY_BUCKET_LIMITS_MS ! index)
            else num_of_int 10000)
      else percentile_scan target (Suc index) cumulative ns)"

definition percentileFromHistogram :: "jsnum list \<Rightarrow> jsnum \<Rightarrow> jsnum option" where
  "percentileFromHistogram histogram percentile =
     (let total = foldl js_add (Fin 0) histogram in
      if js_eq total (Fin 0) then None
      else Some (percentile_scan (js_ceil (js_mul total percentile)) 0 (Fin 0) histogram))"

record traffic_summary =
  sm_numbers :: traffic_numbers
  sm_errorRate :: jsnum
  sm_errorRatePercent :: jsnum
  sm_averageLatencyMs :: "jsnum option"
  sm_p50LatencyMs :: "jsnum option"
  sm_p95LatencyMs :: "jsnum option"
  sm_p99LatencyMs :: "jsnum option"

definition summarize :: "traffic_numbers \<Rightarrow> traffic_summary" where
  "summarize metric =
     (let none = js_eq (tn_requestCount metric) (Fin 0);
          errors = js_add (tn_status4xx metric) (tn_status5xx metric);
          rate = js_div errors (tn_requestCount metric) in
      \<lparr> sm_numbers = metric,
        sm_errorRate = (if none then Fin 0 else number_to_fixed 4 rate),
        sm_errorRatePercent = (if none then Fin 0 else number_to_fixed 2 (js_mul rate (Fin 100))),
        sm_averageLatencyMs = (if none then None
          else Some (number_to_fixed 2 (js_div (tn_latencySumMs metric) (tn_requestCount metric)))),
        sm_p50LatencyMs = percentileFromHistogram (tn_latencyHistogram metric) (Fin (1 / 2)),
        sm_p95LatencyMs = percentileFromHistogram (tn_latencyHistogram metric) (mk_num (95 / 100)),
        sm_p99LatencyMs = percentileFromHistogram (tn_latencyHistogram metric) (mk_num (99 / 100)) \<rparr>)"

record traffic_report =
  rp_range :: dashboard_range
  rp_totals :: traffic_summary
  rp_timeline :: "(int \<times> traffic_summary) list"
  rp_routes :: "((string \<times> string) \<times> traffic_summary) list"
  rp_retentionDays :: int

definition traffic_query ::
  "(string \<Rightarrow> string \<Rightarrow> bool) \<Rightarrow> int \<Rightarrow> dashboard_range \<Rightarrow> js_date \<Rightarrow> (metric_id, metric) dict \<Rightarrow> traffic_report" where
  "traffic_query text_le retentionDays r now table =
     (let ms = rows_since (date_shift now (- fst (rangeDefinition r))) table;
          timeline = timeline_rows (snd (rangeDefinition r)) ms in
      \<lparr> rp_range = r, rp_totals = summarize (mergeRows (map snd timeline)),
        rp_timeline = map (\<lambda>(b, row). (b, summarize (parseRow row))) timeline,
        rp_routes = map (\<lambda>(k, row). (k, summarize (parseRow row))) (route_rows text_le ms),
        rp_retentionDays = retentionDays \<rparr>)"

record traffic_overview =
  ov_requestsPerMinute :: jsnum
  ov_recent4xx :: jsnum
  ov_recent5xx :: jsnum
  ov_p95LatencyMs :: "jsnum option"

definition traffic_overview ::
  "(string \<Rightarrow> string \<Rightarrow> bool) \<Rightarrow> int \<Rightarrow> js_date \<Rightarrow> (metric_id, metric) dict \<Rightarrow> traffic_overview" where
  "traffic_overview text_le retentionDays now table =
     (let report = traffic_query text_le retentionDays Range_1h now table;
          recent = map (sm_numbers \<circ> snd)
            (drop (length (rp_timeline report) - 5) (rp_timeline report));
          requestCount = foldl js_add (Fin 0) (map tn_requestCount recent) in
      \<lparr> ov_requestsPerMinute = number_to_fixed 2 (js_div requestCount (num_of_int (max 1 (int (length recent))))),
        ov_recent4xx = foldl js_add (Fin 0) (map tn_status4xx recent),
        ov_recent5xx = foldl js_add (Fin 0) (map tn_status5xx recent),
        ov_p95LatencyMs = sm_p95LatencyMs (rp_totals report) \<rparr>)"

section \<open>Exact sums\<close>

lemma sum_text_exact: "int n \<le> 2 ^ 53 \<Longrightarrow> sum_text n = num_of_int (int n)"
  using mk_num_int [of "int n"] by (simp add: sum_text_def number_of_show_nat)

lemma add_exact: "\<bar>a + b\<bar> \<le> 2 ^ 53 \<Longrightarrow> js_add (num_of_int a) (num_of_int b) = num_of_int (a + b)"
  using mk_num_int [of "a + b"] by (simp add: num_of_int_def)

lemma foldl_add_exact:
  "int (a + sum_list ns) \<le> 2 ^ 53 \<Longrightarrow>
     foldl js_add (num_of_int (int a)) (map (\<lambda>n. num_of_int (int n)) ns) = num_of_int (int (a + sum_list ns))"
proof (induction ns arbitrary: a)
  case (Cons n ns)
  have "js_add (num_of_int (int a)) (num_of_int (int n)) = num_of_int (int (a + n))"
    using add_exact [of "int a" "int n"] Cons.prems by simp
  with Cons.IH [of "a + n"] Cons.prems show ?case by (simp add: add.assoc)
qed simp

section \<open>Percentiles\<close>

definition latency_histogram :: "jsnum list \<Rightarrow> nat list" where
  "latency_histogram ls = map (\<lambda>i. length (filter (\<lambda>l. latencyBucketIndex l = i) ls)) [0..<HISTOGRAM_SIZE]"

definition not_above :: "int \<Rightarrow> jsnum list \<Rightarrow> nat" where
  "not_above limit ls = length (filter (\<lambda>l. js_le l (num_of_int limit)) ls)"

lemma limits_mono:
  assumes "i \<le> j" and "j < 9"
  shows "LATENCY_BUCKET_LIMITS_MS ! i \<le> LATENCY_BUCKET_LIMITS_MS ! j"
proof -
  have "sorted LATENCY_BUCKET_LIMITS_MS" by (simp add: LATENCY_BUCKET_LIMITS_MS_def)
  then show ?thesis using assms by (intro sorted_nth_mono) (simp_all add: LATENCY_BUCKET_LIMITS_MS_def)
qed

lemma bucket_le:
  assumes "i < 9"
  shows "latencyBucketIndex l \<le> i \<longleftrightarrow> js_le l (num_of_int (LATENCY_BUCKET_LIMITS_MS ! i))"
proof -
  let ?P = "\<lambda>i. js_le l (num_of_int (LATENCY_BUCKET_LIMITS_MS ! i))"
  have len: "length LATENCY_BUCKET_LIMITS_MS = 9" by (simp add: LATENCY_BUCKET_LIMITS_MS_def)
  have mono: "?P j" if "?P i" "i \<le> j" "j < 9" for i j
    using js_le_trans [OF that(1)] limits_mono [OF that(2,3)] by simp
  show ?thesis
  proof (cases "filter ?P [0..<9]")
    case Nil
    then have "\<not> ?P i" using assms by (auto simp: filter_empty_conv)
    with Nil assms show ?thesis by (simp add: latencyBucketIndex_def len HISTOGRAM_SIZE_def)
  next
    case (Cons j js)
    then have j: "latencyBucketIndex l = j" by (simp add: latencyBucketIndex_def len)
    have "j \<in> set (filter ?P [0..<9])" by (simp add: Cons)
    then have "?P j" by simp
    moreover have "j \<le> i" if "?P i"
    proof -
      have "i \<in> set (filter ?P [0..<9])" using that assms by simp
      moreover have "sorted (filter ?P [0..<9])" by (intro sorted_wrt_filter) simp
      ultimately show ?thesis unfolding Cons by auto
    qed
    ultimately show ?thesis using mono assms j by blast
  qed
qed

lemma bucket_bound: "latencyBucketIndex l < HISTOGRAM_SIZE"
proof (cases "filter (\<lambda>i. js_le l (num_of_int (LATENCY_BUCKET_LIMITS_MS ! i))) [0..<length LATENCY_BUCKET_LIMITS_MS]")
  case (Cons j js)
  have "j \<in> set (j # js)" by simp
  then have "j < length LATENCY_BUCKET_LIMITS_MS" unfolding Cons [symmetric] by simp
  with Cons show ?thesis by (simp add: latencyBucketIndex_def HISTOGRAM_SIZE_def)
qed (simp add: latencyBucketIndex_def HISTOGRAM_SIZE_def)

lemma histogram_prefix:
  "n \<le> HISTOGRAM_SIZE \<Longrightarrow>
     sum_list (take n (latency_histogram ls)) = length (filter (\<lambda>l. latencyBucketIndex l < n) ls)"
proof (induction n)
  case (Suc n)
  have "take (Suc n) (latency_histogram ls) = take n (latency_histogram ls) @ [latency_histogram ls ! n]"
    using Suc.prems by (simp add: take_Suc_conv_app_nth latency_histogram_def)
  moreover have "latency_histogram ls ! n = length (filter (\<lambda>l. latencyBucketIndex l = n) ls)"
    using Suc.prems by (simp add: latency_histogram_def)
  moreover have "length (filter (\<lambda>l. latencyBucketIndex l < Suc n) ls) =
      length (filter (\<lambda>l. latencyBucketIndex l < n) ls) + length (filter (\<lambda>l. latencyBucketIndex l = n) ls)"
    by (induction ls) auto
  ultimately show ?case using Suc by simp
qed simp

lemma histogram_prefix_not_above:
  assumes "i < 9"
  shows "sum_list (take (Suc i) (latency_histogram ls)) = not_above (LATENCY_BUCKET_LIMITS_MS ! i) ls"
  using assms histogram_prefix [of "Suc i" ls] bucket_le [OF assms]
  by (simp add: histogram_size not_above_def less_Suc_eq_le)

lemma histogram_sum: "sum_list (latency_histogram ls) = length ls"
proof -
  have "take HISTOGRAM_SIZE (latency_histogram ls) = latency_histogram ls" by (simp add: latency_histogram_def)
  then show ?thesis using histogram_prefix [of HISTOGRAM_SIZE ls] bucket_bound by simp
qed

definition bucket_limit :: "nat \<Rightarrow> int" where
  "bucket_limit i = (if i < length LATENCY_BUCKET_LIMITS_MS then LATENCY_BUCKET_LIMITS_MS ! i else 10000)"

lemma percentile_scan_value:
  assumes "int (c + sum_list ns) \<le> 2 ^ 53" and "t \<le> int (c + sum_list ns)" and "ns \<noteq> []"
  shows "\<exists>j<length ns. t \<le> int (c + sum_list (take (Suc j) ns)) \<and>
    (\<forall>k<j. int (c + sum_list (take (Suc k) ns)) < t) \<and>
    percentile_scan (num_of_int t) i (num_of_int (int c)) (map (\<lambda>n. num_of_int (int n)) ns) =
      num_of_int (bucket_limit (i + j))"
  using assms
proof (induction ns arbitrary: c i)
  case (Cons n ns)
  have add: "js_add (num_of_int (int c)) (num_of_int (int n)) = num_of_int (int (c + n))"
    using add_exact [of "int c" "int n"] Cons.prems(1) by simp
  show ?case
  proof (cases "t \<le> int (c + n)")
    case True
    then show ?thesis by (intro exI [of _ 0]) (simp add: add Let_def bucket_limit_def del: of_nat_add)
  next
    case False
    then have "ns \<noteq> []" using Cons.prems(2) by auto
    with Cons.IH [of "c + n" "Suc i"] Cons.prems obtain j where j: "j < length ns"
      "t \<le> int (c + n + sum_list (take (Suc j) ns))" "\<forall>k<j. int (c + n + sum_list (take (Suc k) ns)) < t"
      "percentile_scan (num_of_int t) (Suc i) (num_of_int (int (c + n))) (map (\<lambda>n. num_of_int (int n)) ns) =
        num_of_int (bucket_limit (Suc i + j))" by (auto simp: add.assoc)
    have "int (c + sum_list (take (Suc k) (n # ns))) < t" if "k < Suc j" for k
      using that j(3) False by (cases k) (auto simp: add.assoc)
    then show ?thesis
      using j False by (intro exI [of _ "Suc j"]) (simp add: add Let_def add.assoc del: of_nat_add)
  qed
qed simp

lemma product_rounding:
  assumes "int n \<le> 2 ^ 53" and "0 < q" and "q \<le> 1"
  shows "mk_num (of_nat n * q) = Fin (round_binary64 (of_nat n * q)) \<and> round_binary64 (of_nat n * q) \<le> of_nat n"
proof -
  have "of_nat n * q \<le> of_nat n" using assms(3) by (simp add: mult_left_le)
  then have "\<bar>of_nat n * q\<bar> \<le> of_int (int n)" using assms(2) by (simp add: abs_of_nonneg)
  with mk_num_bounded [OF this assms(1)] obtain r where r: "mk_num (of_nat n * q) = Fin r" "\<bar>r\<bar> \<le> of_int (int n)"
    by blast
  then have "r = round_binary64 (of_nat n * q)" by (auto simp: mk_num_def Let_def split: if_splits)
  with r show ?thesis by (simp add: abs_le_iff)
qed

text \<open>
  The percentile reported for a histogram of latencies is the least limit of a bucket that at
  least the wanted share of the latencies, in binary64 and rounded up, does not exceed; when no limit
  is that large it is the largest, ten seconds, whatever the latencies beyond it are. Without
  latencies there is none.
\<close>

theorem percentile_spec:
  assumes "int (length ls) \<le> 2 ^ 53" and "0 < q" and "q \<le> 1"
  defines "target \<equiv> ceiling (round_binary64 (of_nat (length ls) * q))"
  shows "case percentileFromHistogram (map sum_text (latency_histogram ls)) (Fin q) of
      None \<Rightarrow> ls = []
    | Some x \<Rightarrow> ls \<noteq> [] \<and> (\<exists>limit\<in>set LATENCY_BUCKET_LIMITS_MS. x = num_of_int limit \<and>
        (\<forall>lower\<in>set LATENCY_BUCKET_LIMITS_MS. lower < limit \<longrightarrow> int (not_above lower ls) < target) \<and>
        (limit < 10000 \<longrightarrow> target \<le> int (not_above limit ls)))"
proof (cases "ls = []")
  case True
  then show ?thesis by (simp add: percentileFromHistogram_def latency_histogram_def sum_text_def
      number_of_show_nat histogram_size upt_rec)
next
  case False
  let ?h = "latency_histogram ls" and ?n = "length ls"
  have elem: "x \<le> ?n" if "x \<in> set ?h" for x
    using member_le_sum_list [OF that] by (simp add: histogram_sum)
  have texts: "map sum_text ?h = map (\<lambda>n. num_of_int (int n)) ?h"
  proof (intro map_cong refl sum_text_exact)
    fix x assume "x \<in> set ?h"
    then have "int x \<le> int ?n" using elem by simp
    then show "int x \<le> 2 ^ 53" using assms(1) by (rule order_trans)
  qed
  have total: "foldl js_add (Fin 0) (map sum_text ?h) = num_of_int (int ?n)"
    using foldl_add_exact [of 0 ?h] assms(1) by (simp add: texts histogram_sum num_of_int_def)
  have r: "mk_num (of_nat ?n * q) = Fin (round_binary64 (of_nat ?n * q))" "round_binary64 (of_nat ?n * q) \<le> of_nat ?n"
    using product_rounding [OF assms(1-3)] by blast+
  then have product: "js_ceil (js_mul (num_of_int (int ?n)) (Fin q)) = num_of_int target"
    by (simp add: num_of_int_def target_def)
  have nonempty: "?h \<noteq> []" by (simp add: latency_histogram_def histogram_size)
  have "target \<le> int ?n" using r(2) by (simp add: target_def ceiling_le_iff)
  with nonempty obtain j where j: "j < length ?h" "target \<le> int (sum_list (take (Suc j) ?h))"
    "\<forall>k<j. int (sum_list (take (Suc k) ?h)) < target"
    "percentile_scan (num_of_int target) 0 (num_of_int 0) (map sum_text ?h) = num_of_int (bucket_limit j)"
    using percentile_scan_value [of 0 ?h target 0] assms(1) nonempty unfolding texts histogram_sum by auto
  have "j < 10" using j(1) by (simp add: latency_histogram_def histogram_size)
  have len: "length LATENCY_BUCKET_LIMITS_MS = 9" by (simp add: LATENCY_BUCKET_LIMITS_MS_def)
  have result: "percentileFromHistogram (map sum_text ?h) (Fin q) = Some (num_of_int (bucket_limit j))"
  proof -
    have "\<not> js_eq (num_of_int (int ?n)) (Fin 0)" using False by (simp add: js_eq_iff num_of_int_def)
    moreover have "num_of_int 0 = Fin 0" by (simp add: num_of_int_def)
    ultimately show ?thesis
      using j(4) by (simp only: percentileFromHistogram_def total product Let_def if_False)
  qed
  have "int (not_above lower ls) < target" if "lower \<in> set LATENCY_BUCKET_LIMITS_MS" "lower < bucket_limit j" for lower
  proof -
    from that(1) obtain k where k: "k < 9" "lower = LATENCY_BUCKET_LIMITS_MS ! k" by (auto simp: in_set_conv_nth len)
    have "k < j"
      using that(2) k limits_mono [of j k] \<open>j < 10\<close> by (cases "j < 9") (auto simp: bucket_limit_def len not_less simp flip: not_le)
    with j(3) have "int (sum_list (take (Suc k) ?h)) < target" by blast
    then show ?thesis by (simp only: histogram_prefix_not_above [OF k(1)] k(2))
  qed
  moreover have "target \<le> int (not_above (bucket_limit j) ls)" if "bucket_limit j < 10000"
  proof -
    from that have "j < 9" by (simp add: bucket_limit_def len split: if_splits)
    with j(2) show ?thesis by (simp only: histogram_prefix_not_above [OF \<open>j < 9\<close>] bucket_limit_def len if_True)
  qed
  moreover have "bucket_limit j \<in> set LATENCY_BUCKET_LIMITS_MS"
    by (auto simp: bucket_limit_def len) (simp add: LATENCY_BUCKET_LIMITS_MS_def)
  ultimately show ?thesis using result False by auto
qed

theorem percentile_spec_witness:
  "percentileFromHistogram (map sum_text (latency_histogram [num_of_int 20, num_of_int 20, num_of_int 300])) (Fin (1 / 2))
     = Some (num_of_int 25)"
proof -
  let ?ls = "[num_of_int 20, num_of_int 20, num_of_int 300]"
  have len: "int (length ?ls) \<le> 2 ^ 53" by simp
  have target: "ceiling (round_binary64 (of_nat (length ?ls) * (1 / 2))) = 2" by code_simp
  have counts: "not_above 25 ?ls = 2" by (simp add: not_above_def)
  obtain limit where "percentileFromHistogram (map sum_text (latency_histogram ?ls)) (Fin (1 / 2)) = Some (num_of_int limit)"
    "limit \<in> set LATENCY_BUCKET_LIMITS_MS"
    "\<forall>lower\<in>set LATENCY_BUCKET_LIMITS_MS. lower < limit \<longrightarrow> int (not_above lower ?ls) < 2"
    using percentile_spec [OF len, of "1 / 2"] unfolding target by (fastforce split: option.splits)
  moreover from this have "\<not> 25 < limit" using counts by (auto simp: LATENCY_BUCKET_LIMITS_MS_def)
  ultimately show ?thesis by (auto simp: LATENCY_BUCKET_LIMITS_MS_def)
qed

section \<open>Totals\<close>

lemma sum_list_groups:
  fixes f :: "'a \<Rightarrow> nat"
  shows "set (map g xs) \<subseteq> set ks \<Longrightarrow> distinct ks \<Longrightarrow>
    sum_list (map (\<lambda>k. sum_list (map f (filter (\<lambda>x. g x = k) xs))) ks) = sum_list (map f xs)"
proof (induction xs)
  case (Cons x xs)
  have "sum_list (map (\<lambda>k. if g x = k then f x else 0) ks) = f x"
  proof -
    from Cons.prems have "g x \<in> set ks" "distinct ks" by auto
    moreover have "g x \<notin> set ks \<Longrightarrow> sum_list (map (\<lambda>k. if g x = k then f x else 0) ks) = 0" for ks
      by (induction ks) auto
    ultimately show ?thesis by (induction ks) auto
  qed
  moreover have "sum_list (map (\<lambda>k. sum_list (map f (filter (\<lambda>x. g x = k) (x # xs)))) ks) =
      sum_list (map (\<lambda>k. if g x = k then f x else 0) ks) +
      sum_list (map (\<lambda>k. sum_list (map f (filter (\<lambda>x. g x = k) xs))) ks)"
    by (simp add: sum_list_addf [symmetric] if_distrib cong: if_cong) (rule arg_cong [where f = sum_list], auto)
  ultimately show ?case using Cons by simp
qed simp

text \<open>The bins of the timeline partition the rows: ascending, without gaps in what they count.\<close>

lemma timeline_sums:
  "sum_list (map (rw_requestCount \<circ> snd) (timeline_rows width ms)) = sum_list (map mt_requestCount ms)"
  "sum_list (map (rw_status5xx \<circ> snd) (timeline_rows width ms)) = sum_list (map mt_status5xx ms)"
  "sorted_wrt (<) (map fst (timeline_rows width ms))"
proof -
  let ?ks = "sort (remdups (map (\<lambda>m. date_bin width (mt_bucketAt m)) ms))"
  have ks: "set (map (\<lambda>m. date_bin width (mt_bucketAt m)) ms) \<subseteq> set ?ks" "distinct ?ks" by simp_all
  have split: "map (h \<circ> snd) (timeline_rows width ms) =
      map (\<lambda>k. h (sum_rows (filter (\<lambda>m. date_bin width (mt_bucketAt m) = k) ms))) ?ks" for h :: "traffic_row \<Rightarrow> nat"
    by (simp add: timeline_rows_def)
  show "sum_list (map (rw_requestCount \<circ> snd) (timeline_rows width ms)) = sum_list (map mt_requestCount ms)"
    using sum_list_groups [OF ks, of mt_requestCount] unfolding split by (simp add: sum_rows_def)
  show "sum_list (map (rw_status5xx \<circ> snd) (timeline_rows width ms)) = sum_list (map mt_status5xx ms)"
    using sum_list_groups [OF ks, of mt_status5xx] unfolding split by (simp add: sum_rows_def)
  have "map fst (timeline_rows width ms) = ?ks" by (simp add: timeline_rows_def comp_def)
  then show "sorted_wrt (<) (map fst (timeline_rows width ms))"
    using ks(2) by (simp add: strict_sorted_iff)
qed

end
