(* ===== verification/Admin_Observer.thy ===== *)
theory Admin_Observer
  imports Js_String Js_Number Js_Value Js_Date
begin

text \<open>
  What the dashboard reads from the host, \<^verbatim>\<open>src/src/admin/observer/admin-observer.service.ts\<close>: the
  snapshot and the logs that an observer outside the program writes into a directory. The file system,
  \<open>JSON.parse\<close>, \<open>Date.parse\<close> and the case tables of Unicode are parameters. The lemmas show that only
  the six known logs are read and that no terminal control sequence of a log reaches the browser.
\<close>

section \<open>Files\<close>

record file_stat =
  fs_isFile :: bool
  fs_size :: int
  fs_mtime :: js_date

text \<open>A file is missing, cannot be read, or has a status and a text.\<close>

datatype host_file = MissingFile | UnreadableFile | HostFile file_stat string

record observer_env =
  oe_file :: "string \<Rightarrow> host_file"
  oe_jsonParse :: "string \<Rightarrow> jsval option"
  oe_dateParse :: "string \<Rightarrow> js_date"
  oe_lower :: "string \<Rightarrow> string"
  oe_upper :: "string \<Rightarrow> string"

section \<open>The snapshot\<close>

record observer_status =
  os_available :: bool
  os_stale :: bool
  os_ageSeconds :: "jsnum option"
  os_snapshot :: "jsval option"
  os_reason :: "string option"

definition unavailable :: "string \<Rightarrow> observer_status" where
  "unavailable reason = \<lparr> os_available = False, os_stale = True, os_ageSeconds = None, os_snapshot = None,
     os_reason = Some reason \<rparr>"

fun is_string :: "jsval \<Rightarrow> bool" where
  "is_string (JStr s) = True"
| "is_string v = False"

definition isSnapshot :: "(string \<Rightarrow> js_date) \<Rightarrow> jsval \<Rightarrow> bool" where
  "isSnapshot dateParse v \<longleftrightarrow> isRecord v \<and>
     jprop v ''schemaVersion'' = JNum (Fin 1) \<and>
     (case jprop v ''observedAt'' of JStr s \<Rightarrow> valid_date (dateParse s) | _ \<Rightarrow> False) \<and>
     isRecord (jprop v ''host'') \<and> isRecord (jprop v ''containers'') \<and> isRecord (jprop v ''services'') \<and>
     isRecord (jprop v ''release'') \<and>
     (jprop v ''backup'' = JNull \<or> isRecord (jprop v ''backup'')) \<and>
     (jprop v ''errors'' = JUndefined \<or> (case jprop v ''errors'' of JArr vs \<Rightarrow> list_all is_string vs | _ \<Rightarrow> False))"

fun date_number :: "js_date \<Rightarrow> jsnum" where
  "date_number (Date t) = num_of_int t"
| "date_number InvalidDate = NaN"

definition observer_snapshot :: "observer_env \<Rightarrow> int \<Rightarrow> observer_status" where
  "observer_snapshot E now = (case oe_file E ''status.json'' of
     MissingFile \<Rightarrow> unavailable ''observer unavailable''
   | UnreadableFile \<Rightarrow> unavailable ''observer snapshot unreadable''
   | HostFile stat contents \<Rightarrow>
       if \<not> fs_isFile stat \<or> 512 * 1024 < fs_size stat
       then unavailable ''observer snapshot is not a bounded regular file''
       else (case oe_jsonParse E contents of
           None \<Rightarrow> unavailable ''observer snapshot unreadable''
         | Some parsed \<Rightarrow>
             if \<not> isSnapshot (oe_dateParse E) parsed then unavailable ''observer snapshot is malformed''
             else
               let observedAt = (case jprop parsed ''observedAt'' of JStr s \<Rightarrow> oe_dateParse E s | _ \<Rightarrow> InvalidDate);
                   ageSeconds = js_max (Fin 0) (js_div (js_sub (num_of_int now) (date_number observedAt)) (Fin 1000)) in
               \<lparr> os_available = True, os_stale = js_lt (Fin 15) ageSeconds, os_ageSeconds = Some ageSeconds,
                 os_snapshot = Some parsed, os_reason = None \<rparr>))"

section \<open>Log lines\<close>

definition ESC :: char where "ESC = CHR 0x1B"

text \<open>
  \<open>/\u001b\[[0-?]*[ -/]*[@-~]/g\<close>: the three classes are disjoint, so the longest runs of the first two
  are the only ones that can match. What follows a match, if the text begins with one.
\<close>

definition escape_rest :: "string \<Rightarrow> string option" where
  "escape_rest s = (case s of
     e # b # t \<Rightarrow>
       if e = ESC \<and> b = CHR ''['' then
         (case dropWhile (in_range 32 47) (dropWhile (in_range 48 63) t) of
            f # rest \<Rightarrow> if in_range 64 126 f then Some rest else None
          | [] \<Rightarrow> None)
       else None
   | _ \<Rightarrow> None)"

lemma dropWhile_length: "length (dropWhile P xs) \<le> length xs"
  by (induction xs) auto

lemma escape_rest_shorter: "escape_rest s = Some rest \<Longrightarrow> length rest < length s"
proof -
  assume "escape_rest s = Some rest"
  then obtain e b t f where s: "s = e # b # t" "dropWhile (in_range 32 47) (dropWhile (in_range 48 63) t) = f # rest"
    by (auto simp: escape_rest_def split: list.splits if_splits)
  have "length (f # rest) \<le> length t" unfolding s(2) [symmetric] by (meson dropWhile_length order_trans)
  with s(1) show ?thesis by simp
qed

function strip_escapes :: "string \<Rightarrow> string" where
  "strip_escapes [] = []"
| "strip_escapes (c # s) = (case escape_rest (c # s) of
     Some rest \<Rightarrow> strip_escapes rest | None \<Rightarrow> c # strip_escapes s)"
  by pat_completeness auto
termination by (relation "measure length") (auto dest: escape_rest_shorter)

definition removed_control :: "char \<Rightarrow> bool" where
  "removed_control c \<longleftrightarrow> in_range 0 8 c \<or> in_range 11 12 c \<or> in_range 14 31 c \<or> code_of c = 127"

definition MAX_LOG_LINE :: nat where "MAX_LOG_LINE = 4096"

definition sanitizeLogLine :: "string \<Rightarrow> string" where
  "sanitizeLogLine v = take MAX_LOG_LINE (filter (\<lambda>c. \<not> removed_control c) (strip_escapes v))"

definition sanitizeQuery :: "string option \<Rightarrow> nat \<Rightarrow> string" where
  "sanitizeQuery v maximum =
     take maximum (filter (\<lambda>c. \<not> (in_range 0 31 c \<or> code_of c = 127)) (case v of None \<Rightarrow> [] | Some s \<Rightarrow> s))"

text \<open>\<open>split(/\r?\n/)\<close>.\<close>

definition drop_return :: "string \<Rightarrow> string" where
  "drop_return s = (if s \<noteq> [] \<and> last s = CHR 0x0D then butlast s else s)"

definition split_lines :: "string \<Rightarrow> string list" where
  "split_lines s = (let parts = split_on (CHR 0x0A) s in map drop_return (butlast parts) @ [last parts])"

text \<open>The first whole word that names a severity, in either case.\<close>

definition is_word_char :: "char \<Rightarrow> bool" where
  "is_word_char c \<longleftrightarrow> is_upper c \<or> is_lower c \<or> is_digit_char c \<or> c = CHR ''_''"

definition SEVERITIES :: "string list" where
  "SEVERITIES = [''TRACE'', ''DEBUG'', ''INFO'', ''WARNING'', ''WARN'', ''ERROR'', ''FATAL'', ''CRITICAL'']"

definition word_boundary :: "char option \<Rightarrow> string \<Rightarrow> bool" where
  "word_boundary before after \<longleftrightarrow>
     (case before of None \<Rightarrow> False | Some c \<Rightarrow> is_word_char c) \<noteq> (case after of [] \<Rightarrow> False | c # s \<Rightarrow> is_word_char c)"

fun find_severity :: "char option \<Rightarrow> string \<Rightarrow> string option" where
  "find_severity before [] = None"
| "find_severity before (c # s) =
     (case find (\<lambda>name. word_boundary before (c # s) \<and> to_upper (take (length name) (c # s)) = name \<and>
         word_boundary (Some (last name)) (drop (length name) (c # s))) SEVERITIES of
        Some name \<Rightarrow> Some name
      | None \<Rightarrow> find_severity (Some c) s)"

definition detectSeverity :: "string \<Rightarrow> string" where
  "detectSeverity line = (case find_severity None line of
     None \<Rightarrow> ''OTHER''
   | Some v \<Rightarrow> if v = ''WARNING'' then ''WARN'' else if v = ''CRITICAL'' then ''FATAL'' else v)"

section \<open>The logs\<close>

definition ADMIN_LOG_SOURCES :: "string list" where
  "ADMIN_LOG_SOURCES = [''backend'', ''postgres'', ''routing-engine'', ''photon'', ''gathra-service'', ''cloudflared'']"

record log_query =
  lq_source :: string
  lq_lines :: jsnum
  lq_search :: "string option"
  lq_severity :: "string option"

record log_answer =
  la_source :: string
  la_observedAt :: "string option"
  la_lines :: "string list"

datatype log_error = INVALID_LOG_SOURCE | INVALID_LOG_FILE | LOG_UNREADABLE

definition log_limit :: "jsnum \<Rightarrow> nat" where
  "log_limit lines = (if lines = Fin 300 then 300 else if lines = Fin 500 then 500 else 100)"

definition last_lines :: "nat \<Rightarrow> 'a list \<Rightarrow> 'a list" where
  "last_lines n xs = drop (length xs - n) xs"

definition log_lines :: "observer_env \<Rightarrow> log_query \<Rightarrow> string \<Rightarrow> string list" where
  "log_lines E q contents =
     (let search = oe_lower E (sanitizeQuery (lq_search q) 100);
          severity = oe_upper E (sanitizeQuery (lq_severity q) 16) in
      filter (\<lambda>line. severity = [] \<or> detectSeverity line = severity)
        (filter (\<lambda>line. search = [] \<or> str_includes (oe_lower E line) search)
          (filter (\<lambda>line. 0 < length line) (map sanitizeLogLine (split_lines contents)))))"

definition observer_logs :: "observer_env \<Rightarrow> log_query \<Rightarrow> (log_error, log_answer) result" where
  "observer_logs E q =
     (if lq_source q \<notin> set ADMIN_LOG_SOURCES then Inl INVALID_LOG_SOURCE
      else (case oe_file E (''logs/'' @ lq_source q @ ''.log'') of
          MissingFile \<Rightarrow> Inr \<lparr> la_source = lq_source q, la_observedAt = None, la_lines = [] \<rparr>
        | UnreadableFile \<Rightarrow> Inl LOG_UNREADABLE
        | HostFile stat contents \<Rightarrow>
            if \<not> fs_isFile stat \<or> 4 * 1024 * 1024 < fs_size stat then Inl INVALID_LOG_FILE
            else (case toISOString (fs_mtime stat) of
                None \<Rightarrow> Inl LOG_UNREADABLE
              | Some observedAt \<Rightarrow> Inr \<lparr> la_source = lq_source q, la_observedAt = Some observedAt,
                  la_lines = last_lines (log_limit (lq_lines q)) (log_lines E q contents) \<rparr>)))"

section \<open>What a log line may hold\<close>

lemma strip_escapes_set: "set (strip_escapes s) \<subseteq> set s"
proof (induction s rule: strip_escapes.induct)
  case (2 c s)
  have "set rest \<subseteq> set (c # s)" if rest: "escape_rest (c # s) = Some rest" for rest
  proof -
    from rest obtain e b t f where t: "c # s = e # b # t" "dropWhile (in_range 32 47) (dropWhile (in_range 48 63) t) = f # rest"
      by (auto simp: escape_rest_def split: list.splits if_splits)
    have "set (f # rest) \<subseteq> set t" unfolding t(2) [symmetric] by (meson set_dropWhileD subsetI)
    with t(1) show ?thesis by auto
  qed
  with 2 show ?case by (cases "escape_rest (c # s)") (simp; blast)+
qed simp

lemma strip_escapes_same: "ESC \<notin> set s \<Longrightarrow> strip_escapes s = s"
proof (induction s)
  case (Cons c s)
  then have "escape_rest (c # s) = None" by (auto simp: escape_rest_def split: list.splits)
  with Cons show ?case by simp
qed simp

lemma split_on_not_empty: "split_on c s \<noteq> []"
  by (induction s) (auto split: list.splits)

lemma split_on_parts: "p \<in> set (split_on c s) \<Longrightarrow> c \<notin> set p"
proof (induction s arbitrary: p)
  case (Cons x s)
  obtain q qs where parts: "split_on c s = q # qs" using split_on_not_empty [of c s] by (cases "split_on c s") auto
  show ?case
  proof (cases "x = c")
    case True
    with Cons show ?thesis by auto
  next
    case False
    then have "p = x # q \<or> p \<in> set qs" using Cons.prems parts by simp
    with False Cons.IH [of q] Cons.IH [of p] parts show ?thesis by auto
  qed
qed simp

lemma split_lines_no_newline: "p \<in> set (split_lines s) \<Longrightarrow> CHR 0x0A \<notin> set p"
proof -
  assume "p \<in> set (split_lines s)"
  then have "p = last (split_on (CHR 0x0A) s) \<or> (\<exists>q\<in>set (split_on (CHR 0x0A) s). p = drop_return q)"
    by (auto simp: split_lines_def Let_def dest: in_set_butlastD)
  moreover have "last (split_on (CHR 0x0A) s) \<in> set (split_on (CHR 0x0A) s)"
    by (rule last_in_set) (rule split_on_not_empty)
  ultimately obtain q where q: "q \<in> set (split_on (CHR 0x0A) s)" "p = q \<or> p = drop_return q" by blast
  have "set (drop_return q) \<subseteq> set q" by (auto simp: drop_return_def dest: in_set_butlastD)
  with q split_on_parts show ?thesis by blast
qed

definition line_char_ok :: "char \<Rightarrow> bool" where
  "line_char_ok c \<longleftrightarrow> c = CHR 0x09 \<or> c = CHR 0x0D \<or> (32 \<le> code_of c \<and> code_of c \<noteq> 127)"

lemma kept_char: "\<not> removed_control c \<Longrightarrow> c \<noteq> CHR 0x0A \<Longrightarrow> line_char_ok c"
proof -
  assume kept: "\<not> removed_control c" and "c \<noteq> CHR 0x0A"
  have code: "c = d" if "code_of c = code_of d" for d using that char_of_code_of by metis
  have known: "code_of (CHR 0x09) = 9" "code_of (CHR 0x0A) = 10" "code_of (CHR 0x0D) = 13" by (simp_all add: code_of_def)
  have "code_of c \<noteq> 10" using code [of "CHR 0x0A"] known \<open>c \<noteq> CHR 0x0A\<close> by auto
  moreover have "c = CHR 0x09" if "code_of c = 9" using that code known by simp
  moreover have "c = CHR 0x0D" if "code_of c = 13" using that code known by simp
  ultimately show ?thesis
    using kept code_of_bounds [of c] unfolding removed_control_def line_char_ok_def in_range_def by linarith
qed

lemma sanitized_line:
  assumes "c \<in> set (sanitizeLogLine p)"
  shows "\<not> removed_control c \<and> c \<in> set p"
proof -
  have "c \<in> set (filter (\<lambda>c. \<not> removed_control c) (strip_escapes p))"
    using assms unfolding sanitizeLogLine_def by (rule in_set_takeD)
  then show ?thesis using strip_escapes_set [of p] by auto
qed

lemma sanitizeLogLine_idem: "sanitizeLogLine (sanitizeLogLine p) = sanitizeLogLine p"
proof -
  have kept: "\<forall>c\<in>set (sanitizeLogLine p). \<not> removed_control c" using sanitized_line by blast
  have "removed_control ESC" by (simp add: removed_control_def ESC_def in_range_def code_of_def)
  with kept have "strip_escapes (sanitizeLogLine p) = sanitizeLogLine p" using strip_escapes_same by blast
  with kept have "filter (\<lambda>c. \<not> removed_control c) (strip_escapes (sanitizeLogLine p)) = sanitizeLogLine p"
    by (simp add: filter_id_conv)
  moreover have "length (sanitizeLogLine p) \<le> MAX_LOG_LINE" by (simp add: sanitizeLogLine_def)
  ultimately show ?thesis by (simp add: sanitizeLogLine_def [of "sanitizeLogLine p"])
qed

lemma last_lines_set: "set (last_lines n xs) \<subseteq> set xs" "length (last_lines n xs) \<le> n"
  by (auto simp: last_lines_def dest: in_set_dropD)

lemma log_line_ok:
  assumes "l \<in> set (log_lines E q contents)"
  shows "l \<noteq> [] \<and> length l \<le> MAX_LOG_LINE \<and> list_all line_char_ok l \<and>
    (oe_upper E (sanitizeQuery (lq_severity q) 16) = [] \<or> detectSeverity l = oe_upper E (sanitizeQuery (lq_severity q) 16))"
proof -
  obtain p where p: "p \<in> set (split_lines contents)" "l = sanitizeLogLine p" "l \<noteq> []"
    "oe_upper E (sanitizeQuery (lq_severity q) 16) = [] \<or> detectSeverity l = oe_upper E (sanitizeQuery (lq_severity q) 16)"
    using assms by (auto simp: log_lines_def Let_def)
  have "line_char_ok c" if "c \<in> set l" for c
    using that sanitized_line [of c p] kept_char [of c] split_lines_no_newline [OF p(1)] p(2) by blast
  moreover have "length l \<le> MAX_LOG_LINE" by (simp add: p(2) sanitizeLogLine_def)
  ultimately show ?thesis using p(3,4) by (simp add: list_all_iff)
qed

section \<open>Properties\<close>

text \<open>
  C38: What the dashboard shows of a log is harmless and bounded: an answer comes from one of the six known
  logs and depends on no other file, has at most 500 lines, each of them not empty, of at most 4096
  characters, with no escape and no control character but tabulators and carriage returns, and of the
  severity that was asked for; sanitising such a line again changes nothing.
\<close>

theorem observer_logs_safe:
  assumes "observer_logs E q = Inr a"
  shows "la_source a \<in> set ADMIN_LOG_SOURCES \<and> length (la_lines a) \<le> 500 \<and>
    list_all (\<lambda>l. l \<noteq> [] \<and> length l \<le> MAX_LOG_LINE \<and> list_all line_char_ok l \<and> sanitizeLogLine l = l \<and>
      (oe_upper E (sanitizeQuery (lq_severity q) 16) = [] \<or> detectSeverity l = oe_upper E (sanitizeQuery (lq_severity q) 16)))
      (la_lines a) \<and>
    (\<forall>files. files (''logs/'' @ la_source a @ ''.log'') = oe_file E (''logs/'' @ la_source a @ ''.log'') \<longrightarrow>
      observer_logs (E\<lparr>oe_file := files\<rparr>) q = Inr a)"
proof -
  have src: "la_source a = lq_source q" "lq_source q \<in> set ADMIN_LOG_SOURCES"
    using assms by (auto simp: observer_logs_def split: if_splits host_file.splits option.splits)
  have "la_lines a = [] \<or> (\<exists>contents. la_lines a = last_lines (log_limit (lq_lines q)) (log_lines E q contents))"
    using assms by (auto simp: observer_logs_def split: if_splits host_file.splits option.splits)
  then obtain contents where lines: "la_lines a = [] \<or> la_lines a = last_lines (log_limit (lq_lines q)) (log_lines E q contents)"
    by blast
  have "log_limit (lq_lines q) \<le> 500" by (simp add: log_limit_def)
  then have "length (la_lines a) \<le> 500" using lines last_lines_set(2) [of "log_limit (lq_lines q)" "log_lines E q contents"] by auto
  moreover have "l \<noteq> [] \<and> length l \<le> MAX_LOG_LINE \<and> list_all line_char_ok l \<and> sanitizeLogLine l = l \<and>
      (oe_upper E (sanitizeQuery (lq_severity q) 16) = [] \<or> detectSeverity l = oe_upper E (sanitizeQuery (lq_severity q) 16))"
    if "l \<in> set (la_lines a)" for l
  proof -
    have l: "l \<in> set (log_lines E q contents)" using that lines last_lines_set(1) by fastforce
    then obtain p where "l = sanitizeLogLine p" by (auto simp: log_lines_def Let_def)
    with log_line_ok [OF l] sanitizeLogLine_idem show ?thesis by simp
  qed
  moreover have "observer_logs (E\<lparr>oe_file := files\<rparr>) q = Inr a"
    if "files (''logs/'' @ la_source a @ ''.log'') = oe_file E (''logs/'' @ la_source a @ ''.log'')" for files
  proof -
    have "log_lines (E\<lparr>oe_file := files\<rparr>) q contents = log_lines E q contents" for contents by (simp add: log_lines_def)
    then have "observer_logs (E\<lparr>oe_file := files\<rparr>) q = observer_logs E q"
      using that by (simp add: observer_logs_def src(1) cong: host_file.case_cong option.case_cong if_cong)
    with assms show ?thesis by simp
  qed
  ultimately show ?thesis using src by (simp add: list_all_iff)
qed

definition sample_log_env :: observer_env where
  "sample_log_env = \<lparr> oe_file = (\<lambda>name. if name = ''logs/photon.log''
       then HostFile \<lparr> fs_isFile = True, fs_size = 40, fs_mtime = Date 0 \<rparr>
         (''ok'' @ [CHR 0x0A, ESC] @ ''[1mWARN'' @ [CHR 0x07, CHR 0x0D, CHR 0x0A]) else MissingFile),
     oe_jsonParse = (\<lambda>_. None), oe_dateParse = (\<lambda>_. InvalidDate), oe_lower = to_lower, oe_upper = to_upper \<rparr>"

definition sample_log_query :: log_query where
  "sample_log_query = \<lparr> lq_source = ''photon'', lq_lines = Fin 100, lq_search = None, lq_severity = Some ''warn'' \<rparr>"

lemma sample_log_answer:
  "case observer_logs sample_log_env sample_log_query of Inr a \<Rightarrow> la_lines a = [''WARN''] | Inl e \<Rightarrow> False"
  by code_simp

theorem observer_logs_safe_witness:
  "\<exists>a. observer_logs sample_log_env sample_log_query = Inr a \<and> la_lines a = [''WARN''] \<and>
     list_all line_char_ok (hd (la_lines a))"
proof -
  obtain a where run: "observer_logs sample_log_env sample_log_query = Inr a" and lines: "la_lines a = [''WARN'']"
    using sample_log_answer by (auto split: sum.splits)
  from observer_logs_safe [OF run] have "list_all line_char_ok (hd (la_lines a))" by (simp add: lines)
  with run lines show ?thesis by blast
qed

end
