(* ===== verification/Host_Metrics.thy ===== *)
theory Host_Metrics
  imports Admin_Observer Gateway_Status Js_Parse
begin

text \<open>
  The samples of the host's load, \<^verbatim>\<open>src/src/admin/metrics/admin-host-metrics.service.ts\<close>, and their
  table in \<^verbatim>\<open>src/database/migrations/005_admin_dashboard.sql\<close>: the observer is read once a minute,
  a row per minute is kept, and a history is thinned to at most 500 points. Times are whole
  milliseconds. The timer is the environment's; the serialisation of an object and whether the
  database reads it back are parameters.
\<close>

section \<open>The table\<close>

record host_row =
  hm_bucket_at :: int
  hm_observed_at :: int
  hm_observer_status :: string
  hm_cpu_percent :: "jsnum option"
  hm_load_1 :: "jsnum option"
  hm_load_5 :: "jsnum option"
  hm_load_15 :: "jsnum option"
  hm_memory_total_bytes :: "int option"
  hm_memory_available_bytes :: "int option"
  hm_swap_total_bytes :: "int option"
  hm_swap_used_bytes :: "int option"
  hm_disk_total_bytes :: "int option"
  hm_disk_used_bytes :: "int option"
  hm_containers :: jsval

definition null_or :: "('a \<Rightarrow> bool) \<Rightarrow> 'a option \<Rightarrow> bool" where
  "null_or P v = (case v of None \<Rightarrow> True | Some x \<Rightarrow> P x)"

definition host_row_ok :: "host_row \<Rightarrow> bool" where
  "host_row_ok r \<longleftrightarrow>
     hm_observer_status r \<in> set [''AVAILABLE'', ''STALE'', ''UNAVAILABLE'', ''PARTIAL''] \<and>
     null_or (\<lambda>x. js_le (Fin 0) x \<and> js_le x (Fin 100)) (hm_cpu_percent r) \<and>
     null_or (js_le (Fin 0)) (hm_load_1 r) \<and> null_or (js_le (Fin 0)) (hm_load_5 r) \<and> null_or (js_le (Fin 0)) (hm_load_15 r) \<and>
     null_or ((\<le>) 0) (hm_memory_total_bytes r) \<and> null_or ((\<le>) 0) (hm_memory_available_bytes r) \<and>
     null_or ((\<le>) 0) (hm_swap_total_bytes r) \<and> null_or ((\<le>) 0) (hm_swap_used_bytes r) \<and>
     null_or ((\<le>) 0) (hm_disk_used_bytes r) \<and> null_or ((\<le>) 0) (hm_disk_total_bytes r) \<and>
     isRecord (hm_containers r)"

text \<open>A number goes to the driver as text, and a column of integers takes an optional sign with digits.\<close>

definition bigint_text :: "string \<Rightarrow> int option" where
  "bigint_text s =
     (let negative = (take 1 s = ''-''); digits = (if negative then drop 1 s else s) in
      if digits = [] then None
      else map_option (\<lambda>v. if negative then - v else v) (radix_value 10 0 digits))"

definition bigint_value :: "jsnum option \<Rightarrow> int option option" where
  "bigint_value v = (case v of
     None \<Rightarrow> Some None
   | Some x \<Rightarrow> (case bigint_text (number_to_string x) of
       Some n \<Rightarrow> if - (2 ^ 63) \<le> n \<and> n < 2 ^ 63 then Some (Some n) else None
     | None \<Rightarrow> None))"

section \<open>Sampling\<close>

definition object_of :: "jsval \<Rightarrow> jsval" where
  "object_of v = (if isRecord v then v else JObj [])"

definition finite_of :: "jsval \<Rightarrow> jsnum option" where
  "finite_of v = (case v of JNum x \<Rightarrow> if is_finite x then Some x else None | _ \<Rightarrow> None)"

definition sample_status :: "observer_status \<Rightarrow> string" where
  "sample_status observer =
     (if \<not> os_available observer then ''UNAVAILABLE''
      else if os_stale observer then ''STALE''
      else if 0 < (case os_snapshot observer of None \<Rightarrow> 0
          | Some s \<Rightarrow> (case jprop s ''errors'' of JArr vs \<Rightarrow> length vs | _ \<Rightarrow> 0)) then ''PARTIAL''
      else ''AVAILABLE'')"

definition minute_of :: "int \<Rightarrow> int" where
  "minute_of now = now div 60000 * 60000"

text \<open>Nothing when a value does not fit its column. \<open>jsonText\<close> is what the database makes of the serialised object.\<close>

definition host_sample :: "(jsval \<Rightarrow> jsval option) \<Rightarrow> observer_status \<Rightarrow> int \<Rightarrow> host_row option" where
  "host_sample jsonText observer now =
     (let member = (\<lambda>name fallback. case os_snapshot observer of None \<Rightarrow> fallback | Some s \<Rightarrow> jprop s name);
          host = member ''host'' (JObj []);
          memory = object_of (jprop host ''memory''); swap = object_of (jprop host ''swap'');
          disk = object_of (jprop host ''disk''); load = object_of (jprop host ''load'') in
      case (map bigint_value [finite_of (jprop memory ''totalBytes''), finite_of (jprop memory ''availableBytes''),
              finite_of (jprop swap ''totalBytes''), finite_of (jprop swap ''usedBytes''),
              finite_of (jprop disk ''totalBytes''), finite_of (jprop disk ''usedBytes'')],
            jsonText (member ''containers'' (JObj []))) of
        ([Some memoryTotal, Some memoryAvailable, Some swapTotal, Some swapUsed, Some diskTotal, Some diskUsed], Some containers) \<Rightarrow>
          Some \<lparr> hm_bucket_at = minute_of now, hm_observed_at = now, hm_observer_status = sample_status observer,
            hm_cpu_percent = finite_of (jprop host ''cpuPercent''),
            hm_load_1 = finite_of (jprop load ''one''), hm_load_5 = finite_of (jprop load ''five''),
            hm_load_15 = finite_of (jprop load ''fifteen''),
            hm_memory_total_bytes = memoryTotal, hm_memory_available_bytes = memoryAvailable,
            hm_swap_total_bytes = swapTotal, hm_swap_used_bytes = swapUsed,
            hm_disk_total_bytes = diskTotal, hm_disk_used_bytes = diskUsed, hm_containers = containers \<rparr>
      | _ \<Rightarrow> None)"

type_synonym host_table = "(int, host_row) dict"

text \<open>
  The row of the minute is inserted or replaced; in the seventh minute of an hour old rows go. A failure is
  logged and leaves the rows alone, but for one of the deletion, which comes after the insertion.
\<close>

definition sample_host ::
  "(jsval \<Rightarrow> jsval option) \<Rightarrow> int \<Rightarrow> observer_status \<Rightarrow> int \<Rightarrow> host_table \<Rightarrow> host_table" where
  "sample_host jsonText retentionDays observer now t =
     (case host_sample jsonText observer now of
        None \<Rightarrow> t
      | Some row \<Rightarrow>
          if \<not> host_row_ok row then t
          else
            let t1 = dict_set (hm_bucket_at row) row t in
            if now div 60000 mod 60 = 7
            then filter (\<lambda>(k, r). \<not> k < now - retentionDays * 86400000) t1
            else t1)"

section \<open>The history\<close>

definition HOST_RANGES :: "(string \<times> int) list" where
  "HOST_RANGES = [(''1h'', 3600000), (''24h'', 86400000), (''7d'', 604800000), (''30d'', 2592000000)]"

text \<open>
  A period is looked up in an object literal, so the members of its prototype are found too: their name is
  that of a function, or missing, and they have no interval.
\<close>

definition rangeConfiguration :: "string \<Rightarrow> string option \<times> int option" where
  "rangeConfiguration v = (case map_of HOST_RANGES v of
     Some interval \<Rightarrow> (Some v, Some interval)
   | None \<Rightarrow> (case map_of inherited_members v of
       Some name \<Rightarrow> (name, None)
     | None \<Rightarrow> (Some ''24h'', map_of HOST_RANGES ''24h'')))"

definition nullableNumber :: "int option \<Rightarrow> jsnum option" where
  "nullableNumber v = map_option (\<lambda>n. mk_num (of_int n)) v"

definition difference :: "int option \<Rightarrow> int option \<Rightarrow> jsnum option" where
  "difference total_bytes available = (case (total_bytes, available) of
     (Some t, Some a) \<Rightarrow> Some (js_sub (mk_num (of_int t)) (mk_num (of_int a))) | _ \<Rightarrow> None)"

definition CONTAINER_PREFIXES :: "(string \<times> string) list" where
  "CONTAINER_PREFIXES = [(''backend'', ''backend''), (''postgres'', ''postgres''), (''routing-engine'', ''routingEngine''),
     (''photon'', ''photon'')]"

definition flattenContainers :: "jsval \<Rightarrow> (string \<times> jsnum option) list" where
  "flattenContainers containers = concat (map (\<lambda>(service, name).
     let v = object_of (jprop containers service) in
     [(name @ ''CpuPercent'', finite_of (jprop v ''cpuPercent'')),
      (name @ ''MemoryUsedBytes'', finite_of (jprop v ''memoryUsedBytes''))]) CONTAINER_PREFIXES)"

record host_point =
  hp_at :: string
  hp_observedAt :: string
  hp_observerAvailable :: bool
  hp_observerStale :: bool
  hp_cpuPercent :: "jsnum option"
  hp_load1 :: "jsnum option"
  hp_load5 :: "jsnum option"
  hp_load15 :: "jsnum option"
  hp_memoryUsedBytes :: "jsnum option"
  hp_memoryAvailableBytes :: "jsnum option"
  hp_swapTotalBytes :: "jsnum option"
  hp_swapUsedBytes :: "jsnum option"
  hp_diskUsedBytes :: "jsnum option"
  hp_diskTotalBytes :: "jsnum option"
  hp_containers :: jsval
  hp_flattened :: "(string \<times> jsnum option) list"

definition host_point_of :: "host_row \<Rightarrow> (unit, host_point) result" where
  "host_point_of r = (case (toISOString (Date (hm_bucket_at r)), toISOString (Date (hm_observed_at r))) of
     (Some bucketAt, Some observedAt) \<Rightarrow> Inr \<lparr>
       hp_at = bucketAt, hp_observedAt = observedAt,
       hp_observerAvailable = (hm_observer_status r = ''AVAILABLE'' \<or> hm_observer_status r = ''PARTIAL''),
       hp_observerStale = (hm_observer_status r = ''STALE''),
       hp_cpuPercent = hm_cpu_percent r, hp_load1 = hm_load_1 r, hp_load5 = hm_load_5 r, hp_load15 = hm_load_15 r,
       hp_memoryUsedBytes = difference (hm_memory_total_bytes r) (hm_memory_available_bytes r),
       hp_memoryAvailableBytes = nullableNumber (hm_memory_available_bytes r),
       hp_swapTotalBytes = nullableNumber (hm_swap_total_bytes r), hp_swapUsedBytes = nullableNumber (hm_swap_used_bytes r),
       hp_diskUsedBytes = nullableNumber (hm_disk_used_bytes r), hp_diskTotalBytes = nullableNumber (hm_disk_total_bytes r),
       hp_containers = hm_containers r, hp_flattened = flattenContainers (hm_containers r) \<rparr>
   | _ \<Rightarrow> Inl ())"

text \<open>The entries whose index is a multiple of the step.\<close>

definition every_nth :: "nat \<Rightarrow> 'a list \<Rightarrow> 'a list" where
  "every_nth step xs = map (\<lambda>i. xs ! i) (filter (\<lambda>i. i mod step = 0) [0..<length xs])"

definition history_step :: "nat \<Rightarrow> nat" where
  "history_step rows = max 1 ((rows + 499) div 500)"

definition host_rows :: "string \<Rightarrow> int \<Rightarrow> host_table \<Rightarrow> host_row list" where
  "host_rows period now t = (case snd (rangeConfiguration period) of
     None \<Rightarrow> []
   | Some interval \<Rightarrow> sort_key hm_bucket_at (filter (\<lambda>r. now - interval \<le> hm_bucket_at r) (dict_values t)))"

definition host_history :: "string \<Rightarrow> int \<Rightarrow> host_table \<Rightarrow> (unit, string option \<times> host_point list) result" where
  "host_history period now t =
     (let rows = host_rows period now t; step = history_step (length rows) in
      res_bind (traverse host_point_of (every_nth step rows)) (\<lambda>points. Inr (fst (rangeConfiguration period), points)))"

section \<open>Lemmas\<close>

lemma multiples_count: "0 < step \<Longrightarrow> length (filter (\<lambda>i. i mod step = 0) [0..<n]) = (n + step - 1) div step"
proof (induction n)
  case (Suc n)
  have "(Suc n + step - 1) div step = (if n mod step = 0 then Suc ((n + step - 1) div step) else (n + step - 1) div step)"
  proof (cases "n mod step = 0")
    case True
    then obtain k where "n = step * k" by auto
    moreover have "(step * k + step) div step = Suc k" using Suc.prems by simp
    moreover have "(step * k + (step - 1)) div step = k" using Suc.prems by (intro div_nat_eqI) simp_all
    moreover have "step * k + step - 1 = step * k + (step - 1)" using Suc.prems by simp
    ultimately show ?thesis using Suc.prems by simp
  next
    case False
    define k r where "k = n div step" and "r = n mod step"
    have n: "n = step * k + r" and r: "0 < r" "r < step" using False Suc.prems by (simp_all add: k_def r_def)
    have "(Suc n + step - 1) div step = k + 1" "(n + step - 1) div step = k + 1"
      by (rule div_nat_eqI, use n r in simp, use n r in simp)+
    then show ?thesis using False by simp
  qed
  with Suc show ?case by simp
qed simp

lemma history_bounded: "length (every_nth (history_step (length xs)) xs) \<le> 500"
proof -
  let ?n = "length xs" and ?s = "history_step (length xs)"
  have s: "0 < ?s" "?n \<le> 500 * ?s" by (auto simp: history_step_def max_def) 
  have "length (every_nth ?s xs) = (?n + ?s - 1) div ?s" by (simp add: every_nth_def multiples_count s(1))
  also have "\<dots> \<le> (500 * ?s + ?s - 1) div ?s" using s(2) by (intro div_le_mono) simp
  also have "500 * ?s + ?s - 1 = (?s - 1) + 500 * ?s" using s(1) by simp
  also have "((?s - 1) + 500 * ?s) div ?s = 500" using s(1) by (intro div_nat_eqI) simp_all
  finally show ?thesis .
qed

text \<open>Each row of the period is a point, or follows one by fewer rows than the step.\<close>

lemma every_nth_represents:
  assumes "0 < step" and "i < length xs"
  shows "\<exists>j. j \<le> i \<and> i < j + step \<and> xs ! j \<in> set (every_nth step xs)"
proof -
  let ?j = "i div step * step"
  have "?j \<le> i" by (metis div_times_less_eq_dividend)
  moreover have "i < ?j + step" using assms(1) div_mult_mod_eq [of i step] mod_less_divisor [of step i] by linarith
  moreover from \<open>?j \<le> i\<close> assms(2) have "?j < length xs" by (rule order_le_less_trans)
  then have "xs ! ?j \<in> set (every_nth step xs)" by (simp add: every_nth_def)
  ultimately show ?thesis by blast
qed

text \<open>The rows are keyed by their minutes and meet the checks of the table.\<close>

definition host_table_ok :: "host_table \<Rightarrow> bool" where
  "host_table_ok t \<longleftrightarrow> dict_ok t \<and> list_all (\<lambda>(k, r). hm_bucket_at r = k \<and> k mod 60000 = 0 \<and> host_row_ok r) t"

lemma sample_host_keeps:
  assumes "host_table_ok t"
  shows "host_table_ok (sample_host jsonText retentionDays observer now t)"
proof (cases "host_sample jsonText observer now")
  case None
  with assms show ?thesis by (simp add: sample_host_def)
next
  case (Some row)
  then have "hm_bucket_at row mod 60000 = 0"
    by (auto simp: host_sample_def Let_def minute_of_def split: list.splits option.splits)
  moreover have "host_table_ok (dict_set (hm_bucket_at row) row t)" if "host_row_ok row" "hm_bucket_at row mod 60000 = 0"
    using that assms set_dict_set [of "hm_bucket_at row" row t] by (auto simp: host_table_ok_def dict_ok_set list_all_iff)
  moreover have "host_table_ok (filter P u)" if "host_table_ok u" for P u
    using that by (auto simp: host_table_ok_def dict_ok_filter list_all_iff)
  ultimately show ?thesis using assms Some by (simp add: sample_host_def Let_def)
qed

lemma dict_values_distinct_keys:
  assumes "host_table_ok t"
  shows "distinct (map hm_bucket_at (dict_values t))"
proof -
  have "map hm_bucket_at (dict_values t) = map fst t"
    using assms by (auto simp: host_table_ok_def dict_values_def list_all_iff)
  then show ?thesis using assms by (simp add: host_table_ok_def dict_ok_def)
qed

text \<open>A history has at most 500 points, one for each minute at most, in the order of time.\<close>

lemma every_nth_sorted: "sorted_wrt R xs \<Longrightarrow> sorted_wrt R (every_nth step xs)"
proof -
  assume sorted: "sorted_wrt R xs"
  have "sorted_wrt (<) (filter (\<lambda>i. i mod step = 0) [0..<length xs])" by (intro sorted_wrt_filter) simp
  then have "sorted_wrt (\<lambda>i j. R (xs ! i) (xs ! j)) (filter (\<lambda>i. i mod step = 0) [0..<length xs])"
    by (rule sorted_wrt_mono_rel [rotated]) (use sorted in \<open>auto simp: sorted_wrt_iff_nth_less\<close>)
  then show ?thesis by (simp add: every_nth_def sorted_wrt_map)
qed

lemma host_rows_sorted:
  assumes "host_table_ok t"
  shows "sorted_wrt (\<lambda>a b. hm_bucket_at a < hm_bucket_at b) (host_rows period now t)"
proof -
  let ?rows = "host_rows period now t"
  have "sorted (map hm_bucket_at ?rows)" by (auto simp: host_rows_def split: option.splits)
  moreover have "distinct (map hm_bucket_at ?rows)"
    using dict_values_distinct_keys [OF assms]
    by (auto simp: host_rows_def distinct_map_filter distinct_map inj_on_def split: option.splits)
  ultimately show ?thesis by (simp add: strict_sorted_iff flip: sorted_wrt_map)
qed

lemma host_points_total: "\<exists>points. traverse host_point_of rows = Inr points"
proof (induction rows)
  case (Cons r rows)
  obtain a b where "toISOString (Date (hm_bucket_at r)) = Some a" "toISOString (Date (hm_observed_at r)) = Some b"
    using toISOString_valid by (metis valid_date.simps(1))
  then have "\<exists>p. host_point_of r = Inr p" by (simp add: host_point_of_def del: toISOString.simps)
  with Cons show ?case by (auto simp: res_bind_Inr)
qed simp

text \<open>The table after a run of the timer, which starts with no rows.\<close>

definition host_sampled :: "(jsval \<Rightarrow> jsval option) \<Rightarrow> int \<Rightarrow> (observer_status \<times> int) list \<Rightarrow> host_table" where
  "host_sampled jsonText retentionDays samples =
     foldl (\<lambda>t (observer, now). sample_host jsonText retentionDays observer now t) [] samples"

lemma host_sampled_ok: "host_table_ok (host_sampled jsonText retentionDays samples)"
proof (induction samples rule: rev_induct)
  case Nil
  show ?case by (simp add: host_sampled_def host_table_ok_def dict_ok_def)
next
  case (snoc s samples)
  then show ?case by (cases s) (simp add: host_sampled_def sample_host_keeps)
qed

section \<open>Property\<close>

text \<open>
  Whatever the observer said at each tick of the timer, the rows stay within the checks of their table,
  one for each minute, and a history of any period, known or not, is answered with at most 500 points in
  the order of time: of the rows of the period each is a point itself or follows one by fewer rows than the step.
\<close>

theorem host_history_sampled:
  "host_table_ok (host_sampled jsonText retentionDays samples) \<and>
   sorted_wrt (\<lambda>a b. hm_bucket_at a < hm_bucket_at b) (host_rows period now (host_sampled jsonText retentionDays samples)) \<and>
   (\<exists>kept points. host_history period now (host_sampled jsonText retentionDays samples) = Inr (fst (rangeConfiguration period), points) \<and>
     traverse host_point_of kept = Inr points \<and> length points \<le> 500 \<and>
     sorted_wrt (\<lambda>a b. hm_bucket_at a < hm_bucket_at b) kept \<and>
     list_all (\<lambda>i. \<exists>j. j \<le> i \<and> i < j + history_step (length (host_rows period now (host_sampled jsonText retentionDays samples))) \<and>
         host_rows period now (host_sampled jsonText retentionDays samples) ! j \<in> set kept)
       [0..<length (host_rows period now (host_sampled jsonText retentionDays samples))])"
proof -
  let ?t = "host_sampled jsonText retentionDays samples"
  let ?rows = "host_rows period now ?t"
  let ?step = "history_step (length ?rows)"
  let ?kept = "every_nth ?step ?rows"
  have sorted: "sorted_wrt (\<lambda>a b. hm_bucket_at a < hm_bucket_at b) ?rows" by (rule host_rows_sorted [OF host_sampled_ok])
  obtain points where points: "traverse host_point_of ?kept = Inr points" using host_points_total by blast
  moreover from points have "length points \<le> 500" using history_bounded [of ?rows] by (simp add: traverse_length)
  moreover have "host_history period now ?t = Inr (fst (rangeConfiguration period), points)"
    using points by (simp add: host_history_def Let_def)
  moreover have "0 < ?step" by (simp add: history_step_def)
  then have "list_all (\<lambda>i. \<exists>j. j \<le> i \<and> i < j + ?step \<and> ?rows ! j \<in> set ?kept) [0..<length ?rows]"
    using every_nth_represents [of ?step _ ?rows] by (simp add: list_all_iff)
  ultimately show ?thesis using host_sampled_ok sorted every_nth_sorted [OF sorted] by blast
qed

end
