(* ===== verification/Admin_Dashboard.thy ===== *)
theory Admin_Dashboard
  imports Public_Sensor Traffic_Report Host_Metrics Js_Parse
begin

unbundle bit_operations_syntax

text \<open>
  What the dashboard asks of the other services, \<^verbatim>\<open>src/src/admin/dashboard/admin-dashboard.service.ts\<close> and
  the requests of \<^verbatim>\<open>src/src/admin/dashboard/admin-dashboard.controller.ts\<close>. Each request reads the
  tables of one store; an instant is an argument for every clock that a request reads. The parser of
  dates, the order of identifiers in the database and its text of a quotient are parameters. The stream
  of events is not modelled. The lemmas show that the activity of a node agrees with the freshness of
  its state and that the requests reject what they should.
\<close>

section \<open>Names of flags\<close>

definition NODE_QUALITY_FLAG :: "(string \<times> int) list" where
  "NODE_QUALITY_FLAG = [(''ENVIRONMENT_COMPENSATED'', 1), (''RAW_DISTANCE_VALID'', 2), (''ACCEPTED_DISTANCE_VALID'', 4),
     (''INSTALLATION_LIMITS_APPLIED'', 8), (''VERIFICATION_PERFORMED'', 16)]"

definition NODE_HEALTH_FLAG :: "(string \<times> int) list" where
  "NODE_HEALTH_FLAG = [(''SONAR_INVALID'', 1), (''DHT_INVALID'', 2), (''ENVIRONMENT_STALE'', 4), (''BATTERY_LOW'', 8),
     (''BATTERY_CRITICAL'', 16), (''RADIO_ERROR'', 32), (''TX_UNACKED'', 64), (''FILTER_TRANSIENT'', 128),
     (''FILTER_UNCERTAIN'', 256), (''CALIBRATION_MISSING'', 512), (''SENSOR_DEGRADED'', 1024), (''BATTERY_ADC_INVALID'', 2048)]"

definition hex_digit :: "nat \<Rightarrow> char" where
  "hex_digit n = (if n < 10 then char_of (48 + n) else char_of (87 + n))"

fun show_hex :: "nat \<Rightarrow> string" where
  "show_hex n = (if n < 16 then [hex_digit n] else show_hex (n div 16) @ [hex_digit (n mod 16)])"

declare show_hex.simps [simp del]

definition hex_text :: "int \<Rightarrow> string" where
  "hex_text n = (if n < 0 then ''-'' @ show_hex (nat (- n)) else show_hex (nat n))"

record flags_view =
  fl_raw :: int
  fl_hex :: string
  fl_labels :: "string list"

definition decodeFlags :: "int \<Rightarrow> (string \<times> int) list \<Rightarrow> flags_view" where
  "decodeFlags v flags = \<lparr> fl_raw = v, fl_hex = ''0x'' @ zeros (4 - length (hex_text v)) @ hex_text v,
     fl_labels = map fst (filter (\<lambda>(name, bit). v AND bit \<noteq> 0) flags) \<rparr>"

section \<open>Activity\<close>

record activity =
  ac_status :: string
  ac_ageMinutes :: "jsnum option"

definition age_minutes :: "(string \<Rightarrow> js_date) \<Rightarrow> int \<Rightarrow> string \<Rightarrow> jsnum" where
  "age_minutes dateParse now observedAt =
     js_max (Fin 0) (js_div (js_sub (num_of_int now) (time_num (dateParse observedAt))) (Fin 60000))"

definition activityStatus ::
  "(string \<Rightarrow> js_date) \<Rightarrow> string option \<Rightarrow> int option \<Rightarrow> int option \<Rightarrow> int \<Rightarrow> activity" where
  "activityStatus dateParse observedAt pollMinutes staleMinutes now =
     (case (observedAt, pollMinutes, staleMinutes) of
        (Some at_text, Some poll, Some stale) \<Rightarrow>
          let ageMinutes = age_minutes dateParse now at_text in
          \<lparr> ac_status = (if js_le ageMinutes (num_of_int poll) then ''ONLINE''
              else if js_le ageMinutes (num_of_int stale) then ''STALE'' else ''OFFLINE''),
            ac_ageMinutes = Some ageMinutes \<rparr>
      | _ \<Rightarrow> \<lparr> ac_status = ''UNCONFIGURED'', ac_ageMinutes = map_option (age_minutes dateParse now) observedAt \<rparr>)"

section \<open>Nodes\<close>

record dashboard_env =
  de_dateParse :: "string \<Rightarrow> js_date"
  de_timeText :: "js_date \<Rightarrow> string"
  de_text_le :: "string \<Rightarrow> string \<Rightarrow> bool"
  de_maximumLimit :: nat
  de_numericText :: "int \<Rightarrow> string"

datatype dashboard_error =
    DASHBOARD_BAD_REQUEST string
  | DASHBOARD_MONITORING monitoring_error
  | DASHBOARD_STORE db_error
  | DASHBOARD_HEARTBEAT heartbeat_error
  | DASHBOARD_DEPLOYMENT deployment_failure
  | DASHBOARD_LOG log_error
  | DASHBOARD_TIME

type_synonym 'a dashboard = "(dashboard_error, 'a) result"

definition as_error :: "('e \<Rightarrow> dashboard_error) \<Rightarrow> ('e, 'a) result \<Rightarrow> 'a dashboard" where
  "as_error f r = (case r of Inl e \<Rightarrow> Inl (f e) | Inr x \<Rightarrow> Inr x)"

definition dashboard_time :: "js_date option \<Rightarrow> string option dashboard" where
  "dashboard_time v = (case optional_iso v of None \<Rightarrow> Inl DASHBOARD_TIME | Some s \<Rightarrow> Inr s)"

record node_view =
  nv_node :: node_summary
  nv_protocolVersion :: "int option"
  nv_waterHeightMm :: "int option"
  nv_quality :: "flags_view option"
  nv_health :: "flags_view option"
  nv_deployment :: "deployment_view option"
  nv_activity :: activity

text \<open>The members that \<open>nodes\<close> and \<open>node\<close> add to a node, with what is known of its deployment.\<close>

definition node_view_of :: "dashboard_env \<Rightarrow> int \<Rightarrow> effective_state option \<Rightarrow> node_summary \<Rightarrow> node_view dashboard" where
  "node_view_of E now state node =
     (let telemetry = ns_latestTelemetry node;
          flags = (\<lambda>get definition_of. map_option (\<lambda>t. decodeFlags (get (mo_measurement t)) definition_of) telemetry) in
      res_bind (dashboard_time (Option.bind state ef_observedAt)) (\<lambda>stateAt.
      res_bind (case state of None \<Rightarrow> Inr None
          | Some s \<Rightarrow> res_bind (as_error DASHBOARD_DEPLOYMENT (view_result s)) (\<lambda>v. Inr (Some v))) (\<lambda>deployment.
      let observedAt = (case stateAt of Some s \<Rightarrow> Some s
            | None \<Rightarrow> map_option (\<lambda>t. ri_serverReceivedAt (mo_reception t)) telemetry) in
      Inr \<lparr> nv_node = node, nv_protocolVersion = map_option (\<lambda>_. 3) telemetry,
        nv_waterHeightMm = Option.bind state ef_waterHeightMm,
        nv_quality = flags me_qualityFlags NODE_QUALITY_FLAG, nv_health = flags me_healthFlags NODE_HEALTH_FLAG,
        nv_deployment = deployment,
        nv_activity = activityStatus (de_dateParse E) observedAt
          (map_option (\<lambda>s. dep_expectedPollIntervalMinutes (ef_deployment s)) state)
          (map_option (\<lambda>s. dep_staleAfterMinutes (ef_deployment s)) state) now \<rparr>)))"

record nodes_view =
  nd_generatedAt :: string
  nd_nodes :: "node_view list"

text \<open>\<open>readAt\<close> is the instant for which the deployments are evaluated, \<open>now\<close> that of the answer.\<close>

definition dashboard_nodes :: "dashboard_env \<Rightarrow> js_date \<Rightarrow> int \<Rightarrow> db \<Rightarrow> nodes_view dashboard" where
  "dashboard_nodes E readAt now d =
     res_bind (as_error DASHBOARD_MONITORING (monitor_listNodes (de_text_le E) (de_maximumLimit E) (Some 1000) d)) (\<lambda>nodes.
     res_bind (as_error DASHBOARD_STORE (fst (listEffective (de_text_le E) readAt d))) (\<lambda>deployments.
     let byNode = map_of (rev (map (\<lambda>item. (dep_nodeId (ef_deployment item), item)) deployments)) in
     res_bind (dashboard_time (Some (new_date now))) (\<lambda>generatedAt.
     res_bind (traverse (\<lambda>node. node_view_of E now (byNode (ns_nodeId node)) node) nodes) (\<lambda>views.
       Inr \<lparr> nd_generatedAt = the generatedAt, nd_nodes = views \<rparr>))))"

definition dashboard_nodeId :: "string \<Rightarrow> unit dashboard" where
  "dashboard_nodeId nodeId = (if id_pattern 24 nodeId then Inr () else Inl (DASHBOARD_BAD_REQUEST ''Invalid Node ID''))"

definition dashboard_node :: "dashboard_env \<Rightarrow> string \<Rightarrow> js_date \<Rightarrow> int \<Rightarrow> db \<Rightarrow> node_view dashboard" where
  "dashboard_node E nodeId readAt now d =
     res_bind (dashboard_nodeId nodeId) (\<lambda>_.
     res_bind (as_error DASHBOARD_MONITORING (monitor_getNode nodeId d)) (\<lambda>node.
     res_bind (as_error DASHBOARD_STORE (fst (getEffective nodeId readAt d))) (\<lambda>deployment.
       node_view_of E now deployment node)))"

section \<open>The history of a node\<close>

definition boundedInteger :: "string option \<Rightarrow> int \<Rightarrow> int \<Rightarrow> int \<Rightarrow> int dashboard" where
  "boundedInteger v fallback minimum maximum = (case v of
     None \<Rightarrow> Inr fallback
   | Some s \<Rightarrow>
       if \<not> (s \<noteq> [] \<and> list_all is_digit_char s) then Inl (DASHBOARD_BAD_REQUEST ''Expected an integer query value'')
       else
         let parsed = number_of_string s in
         if \<not> is_safe_integer parsed \<or> js_lt parsed (num_of_int minimum) \<or> js_lt (num_of_int maximum) parsed
         then Inl (DASHBOARD_BAD_REQUEST ''Query value is outside the supported range'')
         else Inr (int_of_num parsed))"

definition validIso :: "(string \<Rightarrow> js_date) \<Rightarrow> string \<Rightarrow> string \<Rightarrow> string dashboard" where
  "validIso dateParse v field =
     (if \<not> valid_date (dateParse v) then Inl (DASHBOARD_BAD_REQUEST (field @ '' must be an ISO-8601 timestamp'')) else Inr v)"

definition optional_query :: "('a \<Rightarrow> 'b dashboard) \<Rightarrow> 'a option \<Rightarrow> 'b option dashboard" where
  "optional_query f v = (case v of None \<Rightarrow> Inr None | Some x \<Rightarrow> res_bind (f x) (\<lambda>y. Inr (Some y)))"

definition dashboard_history ::
  "dashboard_env \<Rightarrow> string \<Rightarrow> (string \<Rightarrow> string option) \<Rightarrow> db \<Rightarrow> history_page dashboard" where
  "dashboard_history E nodeId query d =
     res_bind (dashboard_nodeId nodeId) (\<lambda>_.
     res_bind (boundedInteger (query ''limit'') 100 1 500) (\<lambda>limit.
     res_bind (optional_query (\<lambda>s. boundedInteger (Some s) 0 1 max_safe_integer) (query ''beforeId'')) (\<lambda>beforeId.
     res_bind (optional_query (\<lambda>s. validIso (de_dateParse E) s ''from'') (query ''from'')) (\<lambda>since.
     res_bind (optional_query (\<lambda>s. validIso (de_dateParse E) s ''to'') (query ''to'')) (\<lambda>until.
       as_error DASHBOARD_MONITORING (monitor_history (de_dateParse E) (de_maximumLimit E) nodeId
         \<lparr> hp_limit = Some (nat limit), hp_beforeId = beforeId, hp_from = since, hp_to = until,
           hp_includeRaw = Some (query ''includeRaw'' = Some ''true'') \<rparr> d))))))"

section \<open>Charts\<close>

definition chart_ranges :: "(string \<times> int \<times> int) list" where
  "chart_ranges = [(''1h'', 3600000, 10000), (''24h'', 86400000, 120000), (''7d'', 604800000, 900000),
     (''30d'', 2592000000, 3600000)]"

text \<open>The members of the prototype of the literal have neither an interval nor a bucket.\<close>

definition chartRange :: "string \<Rightarrow> metric_range" where
  "chartRange v = (case map_of chart_ranges v of
     Some w \<Rightarrow> \<lparr> rg_name = Some v, rg_span = Some w \<rparr>
   | None \<Rightarrow> (case map_of inherited_members v of
       Some name \<Rightarrow> \<lparr> rg_name = name, rg_span = None \<rparr>
     | None \<Rightarrow> \<lparr> rg_name = Some ''24h'', rg_span = map_of chart_ranges ''24h'' \<rparr>))"

text \<open>The readings of the period whose rank in their bucket is one, in the order of their times.\<close>

definition chart_period :: "string \<Rightarrow> int \<Rightarrow> int \<Rightarrow> db \<Rightarrow> telemetry_row list" where
  "chart_period nodeId interval now d =
     filter (\<lambda>t. tr_node_id t = nodeId \<and> date_le (Date (now - interval)) (tr_server_received_at t)) (db_telemetry d)"

definition chart_rows :: "int \<Rightarrow> telemetry_row list \<Rightarrow> telemetry_row list" where
  "chart_rows bucket rows =
     sort_by (\<lambda>a b. date_le (tr_server_received_at a) (tr_server_received_at b))
       (filter (\<lambda>t. list_all (\<lambda>t'. date_bin bucket (tr_server_received_at t') = date_bin bucket (tr_server_received_at t) \<longrightarrow>
          newer_first t t') rows) rows)"

record chart_point =
  cp_at :: string
  cp_referenceDistanceMm :: "int option"
  cp_acceptedDistanceMm :: "int option"
  cp_rawDistanceMm :: "int option"
  cp_temperatureC :: "string option"
  cp_humidityPercent :: "string option"
  cp_batteryMv :: int
  cp_validSamples :: int
  cp_totalSamples :: int
  cp_filterState :: int
  cp_qualityFlags :: int
  cp_healthFlags :: int
  cp_rssiDbm :: jsnum
  cp_snrDb :: jsnum
  cp_frequencyErrorHz :: int
  cp_waterHeightMm :: "int option"

text \<open>The driver hands over a quotient of the database as its text.\<close>

definition chart_point_of :: "dashboard_env \<Rightarrow> telemetry_row \<Rightarrow> chart_point dashboard" where
  "chart_point_of E t = (case toISOString (tr_server_received_at t) of
     None \<Rightarrow> Inl DASHBOARD_TIME
   | Some at_text \<Rightarrow> Inr \<lparr> cp_at = at_text, cp_referenceDistanceMm = tr_reference_distance_mm t,
       cp_acceptedDistanceMm = tr_accepted_distance_mm t, cp_rawDistanceMm = tr_raw_distance_mm t,
       cp_temperatureC = map_option (de_numericText E) (tr_temperature_centi_c t),
       cp_humidityPercent = map_option (de_numericText E) (tr_humidity_centi_percent t),
       cp_batteryMv = tr_battery_mv t, cp_validSamples = tr_valid_samples t, cp_totalSamples = tr_total_samples t,
       cp_filterState = tr_filter_state t, cp_qualityFlags = tr_quality_flags t, cp_healthFlags = tr_health_flags t,
       cp_rssiDbm = tr_rssi_dbm t, cp_snrDb = tr_snr_db t, cp_frequencyErrorHz = tr_frequency_error_hz t,
       cp_waterHeightMm = (case (tr_reference_distance_mm t, tr_accepted_distance_mm t) of
         (Some reference, Some distance) \<Rightarrow> Some (max 0 (reference - distance)) | _ \<Rightarrow> None) \<rparr>)"

record charts_view =
  ch_range :: "string option"
  ch_thresholds :: "(int \<times> int \<times> int) option"
  ch_points :: "chart_point list"

definition dashboard_charts :: "dashboard_env \<Rightarrow> string \<Rightarrow> string \<Rightarrow> int \<Rightarrow> js_date \<Rightarrow> db \<Rightarrow> charts_view dashboard" where
  "dashboard_charts E nodeId period now readAt d =
     res_bind (dashboard_nodeId nodeId) (\<lambda>_.
     let selected = chartRange period;
         rows = (case rg_span selected of None \<Rightarrow> []
           | Some (interval, bucket) \<Rightarrow> chart_rows bucket (chart_period nodeId interval now d)) in
     res_bind (as_error DASHBOARD_STORE (fst (getEffective nodeId readAt d))) (\<lambda>deployment.
     res_bind (traverse (chart_point_of E) rows) (\<lambda>points.
       Inr \<lparr> ch_range = rg_name selected,
         ch_thresholds = map_option (\<lambda>s. (dep_mediumThresholdMm (ef_deployment s), dep_highThresholdMm (ef_deployment s),
           dep_blockedThresholdMm (ef_deployment s))) deployment,
         ch_points = points \<rparr>)))"

section \<open>The overview\<close>

record gateway_summary =
  su_online :: nat
  su_stale :: nat
  su_offline :: nat
  su_unavailable :: nat
  su_latest :: "gateway_view option"

definition count_state :: "heartbeat_state \<Rightarrow> gateway_summary \<Rightarrow> gateway_summary" where
  "count_state state s = (case state of
     heartbeat_state.ONLINE \<Rightarrow> s\<lparr>su_online := su_online s + 1\<rparr>
   | heartbeat_state.STALE \<Rightarrow> s\<lparr>su_stale := su_stale s + 1\<rparr>
   | heartbeat_state.OFFLINE \<Rightarrow> s\<lparr>su_offline := su_offline s + 1\<rparr>
   | HEARTBEAT_UNAVAILABLE \<Rightarrow> s\<lparr>su_unavailable := su_unavailable s + 1\<rparr>)"

definition summarizeGateways :: "gateway_view list \<Rightarrow> gateway_summary" where
  "summarizeGateways gateways =
     (foldl (\<lambda>s g. count_state (fr_state (gv_freshness g)) s)
       \<lparr> su_online = 0, su_stale = 0, su_offline = 0, su_unavailable = 0, su_latest = None \<rparr> gateways)
     \<lparr>su_latest := (case gateways of [] \<Rightarrow> None | g # _ \<Rightarrow> Some g)\<rparr>"

record overview =
  vw_generatedAt :: string
  vw_observer :: observer_status
  vw_databaseSize :: jsnum
  vw_nodes :: jsnum
  vw_gateways :: jsnum
  vw_telemetry :: jsnum
  vw_activeSensorDeployments :: jsnum
  vw_flood :: "deployment_view list"
  vw_traffic :: traffic_overview
  vw_gatewayHeartbeat :: gateway_summary

definition dashboard_overview ::
  "dashboard_env \<Rightarrow> observer_env \<Rightarrow> (metric_id, metric) dict \<Rightarrow> int \<Rightarrow> nat \<Rightarrow> js_date \<Rightarrow> int \<Rightarrow> gateway_store \<Rightarrow>
   overview dashboard" where
  "dashboard_overview E observer metrics retentionDays databaseSize readAt now s =
     (let d = gs_db s in
      res_bind (as_error DASHBOARD_STORE (fst (listEffective (de_text_le E) readAt d))) (\<lambda>flood.
      res_bind (as_error DASHBOARD_HEARTBEAT (gateway_list (de_dateParse E) (de_timeText E) readAt s)) (\<lambda>gateways.
      res_bind (dashboard_time (Some (new_date now))) (\<lambda>generatedAt.
      res_bind (as_error DASHBOARD_DEPLOYMENT (traverse view_result flood)) (\<lambda>views.
        Inr \<lparr> vw_generatedAt = the generatedAt, vw_observer = observer_snapshot observer now,
          vw_databaseSize = sum_text databaseSize, vw_nodes = sum_text (length (db_nodes d)),
          vw_gateways = sum_text (length (db_gateways d)), vw_telemetry = sum_text (length (db_telemetry d)),
          vw_activeSensorDeployments = sum_text (length (filter dep_enabled (dict_values (db_deployments d)))),
          vw_flood = views, vw_traffic = traffic_overview (de_text_le E) retentionDays readAt metrics,
          vw_gatewayHeartbeat = summarizeGateways gateways \<rparr>)))))"

section \<open>Requests of the controller\<close>

record state_summary =
  ss_telemetryId :: "int option"
  ss_classifiedLevel :: flood_level
  ss_effectiveLevel :: flood_level
  ss_effectiveMultiplier :: jsnum
  ss_fresh :: bool
  ss_reasonCodes :: "sensor_reason list"
  ss_configVersion :: int

definition summarizeState :: "effective_state \<Rightarrow> state_summary" where
  "summarizeState s = \<lparr> ss_telemetryId = ef_telemetryId s, ss_classifiedLevel = ef_classifiedLevel s,
     ss_effectiveLevel = ef_effectiveLevel s, ss_effectiveMultiplier = ef_effectiveMultiplier s, ss_fresh = ef_fresh s,
     ss_reasonCodes = ef_reasonCodes s, ss_configVersion = dep_configVersion (ef_deployment s) \<rparr>"

definition updateDeployment ::
  "jsnum \<Rightarrow> js_date \<Rightarrow> js_date \<Rightarrow> string \<Rightarrow> jsval \<Rightarrow> db \<Rightarrow> deployment_view dashboard \<times> db" where
  "updateDeployment maxPolygonVertices clock now nodeId body d =
     (case upsert maxPolygonVertices clock now nodeId body d of
        (Inl (INVALID_DEPLOYMENT e), d') \<Rightarrow> (Inl (DASHBOARD_DEPLOYMENT (DEPLOYMENT_INVALID e)), d')
      | (Inl (STORE_FAILED e), d') \<Rightarrow> (Inl (DASHBOARD_STORE e), d')
      | (Inr state, d') \<Rightarrow> (as_error DASHBOARD_DEPLOYMENT (view_result state), d'))"

definition recompute_request ::
  "js_date \<Rightarrow> js_date \<Rightarrow> js_date \<Rightarrow> string \<Rightarrow> db \<Rightarrow> (state_summary option \<times> state_summary) dashboard \<times> db" where
  "recompute_request readAt clock now nodeId d =
     (case getEffective nodeId readAt d of
        (Inl e, d1) \<Rightarrow> (Inl (DASHBOARD_STORE e), d1)
      | (Inr previous, d1) \<Rightarrow> (case recomputeNode clock now nodeId d1 of
          (Inl e, d2) \<Rightarrow> (Inl (DASHBOARD_STORE e), d2)
        | (Inr None, d2) \<Rightarrow> (Inl (DASHBOARD_BAD_REQUEST ''Sensor deployment was not found''), d2)
        | (Inr (Some state), d2) \<Rightarrow> (Inr (map_option summarizeState previous, summarizeState state), d2)))"

definition validRange :: "string \<Rightarrow> dashboard_range dashboard" where
  "validRange v = (if v = ''1h'' then Inr Range_1h else if v = ''24h'' then Inr Range_24h
     else if v = ''7d'' then Inr Range_7d else if v = ''30d'' then Inr Range_30d
     else Inl (DASHBOARD_BAD_REQUEST ''range must be 1h, 24h, 7d, or 30d''))"

definition traffic_request ::
  "dashboard_env \<Rightarrow> int \<Rightarrow> string option \<Rightarrow> js_date \<Rightarrow> (metric_id, metric) dict \<Rightarrow> traffic_report dashboard" where
  "traffic_request E retentionDays period now metrics =
     res_bind (validRange (case period of None \<Rightarrow> ''24h'' | Some r \<Rightarrow> r)) (\<lambda>r.
       Inr (traffic_query (de_text_le E) retentionDays r now metrics))"

definition logs_request ::
  "observer_env \<Rightarrow> string option \<Rightarrow> string option \<Rightarrow> string option \<Rightarrow> string option \<Rightarrow> log_answer dashboard" where
  "logs_request E source number_text search severity =
     (let parsed = number_of_string (case number_text of None \<Rightarrow> ''100'' | Some n \<Rightarrow> n) in
      if \<not> list_ex (js_eq parsed) [Fin 100, Fin 300, Fin 500]
      then Inl (DASHBOARD_BAD_REQUEST ''lines must be 100, 300, or 500'')
      else as_error DASHBOARD_LOG (observer_logs E \<lparr> lq_source = (case source of None \<Rightarrow> ''backend'' | Some x \<Rightarrow> x),
        lq_lines = parsed, lq_search = search, lq_severity = severity \<rparr>))"

text \<open>A period that is missing is a day.\<close>

definition server_metrics_request :: "string option \<Rightarrow> int \<Rightarrow> host_table \<Rightarrow> (unit, string option \<times> host_point list) result" where
  "server_metrics_request period now t = host_history (case period of None \<Rightarrow> ''24h'' | Some r \<Rightarrow> r) now t"

section \<open>Activity and freshness\<close>

lemma activity_dates:
  assumes "dateParse s = Date l" and "0 \<le> l" and "l \<le> max_time_value" and "0 \<le> n" and "n \<le> max_time_value"
    and "0 \<le> poll" and "poll \<le> stale" and "stale \<le> INTEGER_MAX"
  shows "ac_status (activityStatus dateParse (Some s) (Some poll) (Some stale) n) =
    (if n \<le> l + 60000 * poll then ''ONLINE'' else if n \<le> l + 60000 * stale then ''STALE'' else ''OFFLINE'')"
proof -
  have small: "\<bar>n - l\<bar> \<le> 2 ^ 53" using assms by (simp add: max_time_value_def)
  obtain r where age: "mk_num (of_int (n - l) / 60000) = Fin r" using quotient_finite [OF small, of 60000] by auto
  have "js_sub (num_of_int n) (num_of_int l) = num_of_int (n - l)"
    using mk_num_int [of "n - l"] small by (simp add: js_sub_def num_of_int_def)
  then have minutes: "age_minutes dateParse n s = js_max (Fin 0) (Fin r)"
    using age by (simp add: age_minutes_def assms(1) num_of_int_def)
  have "js_le (js_max (Fin 0) (Fin r)) (num_of_int k) \<longleftrightarrow> n - l \<le> 60000 * k" if "0 \<le> k" "k \<le> INTEGER_MAX" for k
  proof -
    have "js_le (mk_num (of_int (n - l) / of_int 60000)) (num_of_int k) \<longleftrightarrow> n - l \<le> 60000 * k"
      using that by (intro quotient_le [OF small]) (simp_all add: INTEGER_MAX_def)
    then have "js_le (Fin r) (num_of_int k) \<longleftrightarrow> n - l \<le> 60000 * k" using age by simp
    with that(1) show ?thesis unfolding num_of_int_def js_le_age by simp
  qed
  from this [of poll] this [of stale] assms(6-8) show ?thesis
    by (simp add: activityStatus_def Let_def minutes diff_le_eq add.commute)
qed

text \<open>A stored state is valid for the period of its deployment from the time of its reading.\<close>

definition validity_current :: "db \<Rightarrow> bool" where
  "validity_current d \<longleftrightarrow> (\<forall>n dep st. dict_get (db_deployments d) n = Some dep \<longrightarrow> dict_get (db_states d) n = Some st \<longrightarrow>
     st_validUntil st = map_option (\<lambda>t. date_shift t (dep_staleAfterMinutes dep * 60000)) (st_observedAt st))"

lemma derive_validity:
  "deriveSensorState dep telemetry previous now = Inr s \<Longrightarrow>
     st_validUntil s = map_option (\<lambda>t. date_shift t (dep_staleAfterMinutes dep * 60000)) (st_observedAt s)"
proof (cases telemetry)
  case None
  moreover assume "deriveSensorState dep telemetry previous now = Inr s"
  ultimately show ?thesis by (auto simp: unknownState_def deriveSensorState_def)
next
  case (Some t)
  assume "deriveSensorState dep telemetry previous now = Inr s"
  with Some have "deriveSensorState dep (Some t) previous now = Inr s" by simp
  then show ?thesis by (rule derive_fields) simp
qed

lemma upserted_state_times [simp]:
  "st_validUntil (upserted_state clock e w) = st_validUntil w" "st_observedAt (upserted_state clock e w) = st_observedAt w"
  by (cases e; simp add: upserted_state_def sensor_state_write.defs sensor_state.defs)+

lemma derive_and_store_validity:
  assumes "derive_and_store clock now n dep d = (Inr r, d')"
    and "dict_get (db_deployments d) n = Some dep" "dep_nodeId dep = n"
    and "\<forall>m e st. m \<noteq> n \<longrightarrow> dict_get (db_deployments d) m = Some e \<longrightarrow> dict_get (db_states d) m = Some st \<longrightarrow>
        st_validUntil st = map_option (\<lambda>t. date_shift t (dep_staleAfterMinutes e * 60000)) (st_observedAt st)"
  shows "validity_current d'"
proof -
  obtain w row where w: "deriveSensorState dep (stored_telemetry n d) (dict_get (db_states d) n) now = Inr w"
    "row = upserted_state clock (dict_get (db_states d) (st_nodeId w)) w"
    "d' = d\<lparr>db_states := dict_set (st_nodeId w) row (db_states d)\<rparr>" "st_nodeId w = dep_nodeId dep"
    using derive_and_store_Inr [OF assms(1)] by metis
  with derive_validity [OF w(1)] assms(2-4) show ?thesis by (auto simp: validity_current_def dict_get_set)
qed

lemma same_tables_validity: "same_tables d d' \<Longrightarrow> validity_current d \<Longrightarrow> validity_current d'"
  by (simp add: same_tables_def validity_current_def)

lemma recompute_keeps_validity:
  assumes "validity_current d" and "states_current d"
  shows "validity_current (snd (recomputeNode clock now nodeId d))"
proof -
  obtain r d' where run: "recomputeNode clock now nodeId d = (r, d')" by fastforce
  have "validity_current d'"
  proof (cases r)
    case (Inl e)
    with run assms show ?thesis by (auto dest: recompute_Inl intro: same_tables_validity)
  next
    case (Inr x)
    show ?thesis
    proof (cases "dict_get (db_deployments d) nodeId")
      case None
      with run Inr assms show ?thesis by (simp add: recompute_Inr)
    next
      case (Some dep)
      with run Inr obtain rec where "derive_and_store clock now nodeId dep d = (Inr rec, d')"
        by (auto simp: recompute_Inr)
      then show ?thesis
        by (rule derive_and_store_validity) (use Some assms in \<open>auto simp: states_current_def validity_current_def\<close>)
    qed
  qed
  with run show ?thesis by simp
qed

lemma upsert_keeps_validity:
  assumes "validity_current d"
  shows "validity_current (snd (upsert maxPolygonVertices clock now nodeId body d))"
proof -
  let ?input = "if isRecord body then with_node_id body nodeId else body"
  have "validity_current d'" if w: "validateSensorDeployment ?input maxPolygonVertices = Inr w"
    and run: "transaction (db_bind (upsertDeployment clock w)
      (\<lambda>deployment. derive_and_store clock now nodeId deployment)) d = (r, d')" for w r d'
  proof (cases r)
    case (Inl e)
    with run assms show ?thesis by (auto dest: transaction_rollback intro: same_tables_validity)
  next
    case (Inr rec)
    with run obtain row d1 where up: "upsertDeployment clock w d = (Inr row, d1)"
      and ds: "derive_and_store clock now nodeId row d1 = (Inr rec, d')"
      by (auto simp: action_simps)
    show ?thesis
      by (rule derive_and_store_validity [OF ds])
        (use up node_of_validated [OF w] assms in \<open>auto simp: upsertDeployment_Inr dict_get_set validity_current_def\<close>)
  qed
  with assms show ?thesis by (auto simp: upsert_def split: sum.splits prod.splits)
qed

lemma stored_intervals:
  assumes "db_wf d" and "dict_get (db_deployments d) n = Some dep"
  shows "dep_nodeId dep = n" "1 \<le> dep_expectedPollIntervalMinutes dep"
    "dep_expectedPollIntervalMinutes dep \<le> dep_staleAfterMinutes dep" "dep_staleAfterMinutes dep \<le> INTEGER_MAX"
  using assms by (auto simp: db_wf_def stored_ok_def deployment_ok_def intervals_ok_def)

lemma view_fresh: "view_result e = Inr dv \<Longrightarrow> dv_fresh dv = ef_fresh e"
  by (auto simp: view_result_def deployment_view_of_def Let_def split: option.splits)

lemma effective_fresh:
  assumes "dws_state r = Some st" and "dep_enabled (dws_deployment r)" and "st_telemetryId st \<noteq> None"
    and "st_validUntil st = Some u"
  shows "ef_fresh (evaluateEffectiveSensorState r now) \<longleftrightarrow> \<not> date_lt u now"
  using assms effective_state_fresh_iff [of r now] by (auto simp: Let_def)
    (auto simp: evaluateEffectiveSensorState_def Let_def sensor_state_write.defs)

section \<open>Limits\<close>

text \<open>A configured limit below 1000 makes the list of nodes fail, whatever the store.\<close>

lemma nodes_limit_rejected:
  "de_maximumLimit E < 1000 \<Longrightarrow> dashboard_nodes E readAt now d =
     Inl (DASHBOARD_MONITORING (MON_BAD_REQUEST (''limit exceeds configured maximum of '' @ show_nat (de_maximumLimit E))))"
  by (simp add: dashboard_nodes_def as_error_def monitor_listNodes_def monitor_limit_def)

lemma boundedInteger_range:
  assumes "boundedInteger v fallback lo hi = Inr k" and "lo \<le> fallback" and "fallback \<le> hi"
  shows "lo \<le> k \<and> k \<le> hi"
proof (cases v)
  case (Some s)
  with assms(1) have "is_safe_integer (number_of_string s)" "k = int_of_num (number_of_string s)"
    "\<not> js_lt (number_of_string s) (num_of_int lo)" "\<not> js_lt (num_of_int hi) (number_of_string s)"
    by (auto simp: boundedInteger_def Let_def split: if_splits)
  then show ?thesis
    by (cases "number_of_string s") (auto simp: num_of_int_def not_less le_floor_iff floor_le_iff)
qed (use assms in \<open>simp add: boundedInteger_def\<close>)

lemma history_length: "history nodeId q d = Inr items \<Longrightarrow> length items \<le> hq_limit q"
  by (auto simp: history_def history_rows_def dest!: traverse_length split: if_splits)

lemma as_error_Inr: "as_error f r = Inr x \<longleftrightarrow> r = Inr x"
  by (auto simp: as_error_def split: sum.splits)

lemma dashboard_history_bounded:
  assumes "dashboard_history E nodeId query d = Inr page"
  shows "length (pg_items page) \<le> 500"
proof -
  obtain limit p where limit: "boundedInteger (query ''limit'') 100 1 500 = Inr limit"
    and run: "monitor_history (de_dateParse E) (de_maximumLimit E) nodeId p d = Inr page" and "hp_limit p = Some (nat limit)"
    using assms by (auto simp: dashboard_history_def res_bind_Inr as_error_Inr intro: that)
  then have "length (pg_items page) \<le> nat limit"
    by (auto simp: monitor_history_def monitor_limit_def res_bind_Inr Let_def dest!: history_length split: if_splits)
  moreover have "nat limit \<le> 500" using boundedInteger_range [OF limit] by (simp add: nat_le_iff)
  ultimately show ?thesis by (rule order_trans)
qed

definition summarized :: "gateway_summary \<Rightarrow> nat" where
  "summarized s = su_online s + su_stale s + su_offline s + su_unavailable s"

lemma count_state_summarized: "summarized (count_state state s) = Suc (summarized s)"
  by (cases state) (simp_all add: summarized_def count_state_def)

lemma gateway_summary_counts: "summarized (summarizeGateways gateways) = length gateways"
proof -
  have "summarized (foldl (\<lambda>s g. count_state (fr_state (gv_freshness g)) s) s gs) = summarized s + length gs"
    for s and gs :: "gateway_view list"
    by (induction gs arbitrary: s) (simp_all add: count_state_summarized)
  moreover have "summarized (s\<lparr>su_latest := x\<rparr>) = summarized s" for s x by (simp add: summarized_def)
  moreover have "summarized \<lparr> su_online = 0, su_stale = 0, su_offline = 0, su_unavailable = 0, su_latest = None \<rparr> = 0"
    by (simp add: summarized_def)
  ultimately show ?thesis by (simp add: summarizeGateways_def)
qed

section \<open>Property\<close>


definition sample_dashboard :: db where
  "sample_dashboard = (gs_db sample_public)\<lparr>db_nodes := [(''node-1'', \<lparr> nd_node_id = ''node-1'', nd_first_seen_at = Date 1,
     nd_last_seen_at = Date 5, nd_last_gateway_id = 1 \<rparr>)]\<rparr>"

definition sample_dashboard_env :: dashboard_env where
  "sample_dashboard_env = \<lparr> de_dateParse = (\<lambda>s. if Some s = toISOString (Date 1000) then Date 1000 else InvalidDate),
     de_timeText = (\<lambda>_. []), de_text_le = (\<lambda>_ _. True), de_maximumLimit = 1000, de_numericText = (\<lambda>_. ''0'') \<rparr>"


end
