(* ===== verification/Hazard_Providers.thy ===== *)
theory Hazard_Providers
  imports Sensor_Deployments Js_Format
begin

text \<open>
  The two sources of flood hazards: the sensors
  (\<^verbatim>\<open>src/src/flood/providers/sensor-flood-hazard.provider.ts\<close>) and the in-memory simulation
  (\<^verbatim>\<open>src/src/flood/providers/in-memory-flood-hazard.provider.ts\<close>). Their common interface
  (\<^verbatim>\<open>src/src/flood/flood-hazard.provider.ts\<close>) is the locale \<open>hazard_provider\<close>: what a client may
  rely on in a snapshot. Both providers interpret it, and the bounds on the risk of a route are
  proved once, for any provider. The simulation is a state machine over its operations and the
  clock; \<open>provider_step\<close> is its step relation and the invariant follows by rule induction. The
  digest of \<open>node:crypto\<close> and the collation of \<open>localeCompare\<close> are parameters.
\<close>

section \<open>Sensors\<close>

fun level_name :: "flood_level \<Rightarrow> string" where
  "level_name LOW = ''LOW''"
| "level_name MEDIUM = ''MEDIUM''"
| "level_name HIGH = ''HIGH''"
| "level_name BLOCKED = ''BLOCKED''"
| "level_name UNKNOWN = ''UNKNOWN''"

fun freshness_name :: "freshness \<Rightarrow> string" where
  "freshness_name FRESH = ''FRESH''"
| "freshness_name STALE = ''STALE''"
| "freshness_name NO_TELEMETRY = ''NO_TELEMETRY''"
| "freshness_name DISABLED = ''DISABLED''"

definition mapHazard :: "effective_state \<Rightarrow> flood_hazard" where
  "mapHazard state = \<lparr>
     hz_id = ''sensor_'' @ dep_nodeId (ef_deployment state),
     hz_level = ef_effectiveLevel state,
     hz_geometry = dep_coveragePolygon (ef_deployment state),
     hz_confidence =
       (if ef_fresh state \<and> ef_classificationStatus state = CS_VALID then Fin 1 else Fin 0),
     hz_observedAt = ef_observedAt state,
     hz_validUntil = ef_validUntil state,
     hz_sourceNodeIds = [dep_nodeId (ef_deployment state)],
     hz_routingMultiplier = ef_effectiveMultiplier state,
     hz_reasonCodes = Some (map reason_name (ef_reasonCodes state)),
     hz_freshness = Some (if ef_freshness state = DISABLED then NO_TELEMETRY else ef_freshness state),
     hz_description =
       Some (''Flood monitoring coverage for sensor '' @ dep_nodeId (ef_deployment state)) \<rparr>"

definition canonical_state :: "effective_state \<Rightarrow> string" where
  "canonical_state state = join ''|'' [
     dep_nodeId (ef_deployment state),
     show_int (dep_configVersion (ef_deployment state)),
     (case ef_telemetryId state of None \<Rightarrow> ''none'' | Some i \<Rightarrow> show_int i),
     level_name (ef_effectiveLevel state),
     freshness_name (ef_freshness state)]"

definition newline :: string where "newline = [char_of (10 :: nat)]"

definition deterministicSnapshotId :: "(string \<Rightarrow> string) \<Rightarrow> effective_state list \<Rightarrow> string" where
  "deterministicSnapshotId sha256hex states =
     ''sensor_snapshot_'' @ take 24 (sha256hex
       (''gathra-sensor-flood-v1'' @ newline @ join newline (map canonical_state states)))"

definition future_validity :: "js_date \<Rightarrow> js_date option \<Rightarrow> effective_state \<Rightarrow> js_date option" where
  "future_validity now earliest state =
     (case ef_validUntil state of
        None \<Rightarrow> earliest
      | Some until \<Rightarrow>
          if \<not> dep_enabled (ef_deployment state) \<or> date_lt until now then earliest
          else earlier earliest (Some until))"

definition earliestFutureValidity :: "effective_state list \<Rightarrow> js_date \<Rightarrow> js_date option" where
  "earliestFutureValidity states now = foldl (future_validity now) None states"

definition sensor_snapshot ::
  "(string \<Rightarrow> string) \<Rightarrow> (string \<Rightarrow> string \<Rightarrow> bool) \<Rightarrow> effective_state list \<Rightarrow> js_date \<Rightarrow> hazard_snapshot" where
  "sensor_snapshot sha256hex locale_le effective now =
     (let states = sort_by (\<lambda>a b. locale_le (dep_nodeId (ef_deployment a)) (dep_nodeId (ef_deployment b)))
            effective;
          hazards = map mapHazard (filter (\<lambda>state. dep_enabled (ef_deployment state)) states) in \<lparr>
        sn_snapshotId = deterministicSnapshotId sha256hex states,
        sn_generatedAt = now,
        sn_validUntil = earliestFutureValidity states now,
        sn_hazards = hazards,
        sn_source = SENSOR \<rparr>)"

definition sensor_getActiveSnapshot ::
  "(string \<Rightarrow> string) \<Rightarrow> (string \<Rightarrow> string \<Rightarrow> bool) \<Rightarrow> (string \<Rightarrow> string \<Rightarrow> bool) \<Rightarrow>
   js_date option \<Rightarrow> js_date \<Rightarrow> hazard_snapshot action" where
  "sensor_getActiveSnapshot sha256hex locale_le node_le observedAt nowFn =
     (let now = (case observedAt of Some t \<Rightarrow> t | None \<Rightarrow> nowFn) in
      db_bind (listEffective node_le now)
        (\<lambda>states. db_return (sensor_snapshot sha256hex locale_le states now)))"

section \<open>Simulation\<close>

record in_memory_provider =
  im_hazardsMap :: "(string, flood_hazard) dict"
  im_version :: nat
  im_snapshotInstanceId :: string
  im_maxActiveHazards :: nat
  im_maxPolygonVertices :: jsnum

definition new_provider ::
  "string option \<Rightarrow> string \<Rightarrow> (nat \<times> jsnum) option \<Rightarrow> in_memory_provider option" where
  "new_provider configuredSnapshotInstanceId randomId configuredLimits =
     (let instanceId = (case configuredSnapshotInstanceId of Some i \<Rightarrow> i | None \<Rightarrow> randomId);
          limits = (case configuredLimits of Some l \<Rightarrow> l
            | None \<Rightarrow> (MAX_ACTIVE_FLOOD_HAZARDS, MAX_FLOOD_POLYGON_VERTICES)) in
      if \<not> id_pattern 64 instanceId then None
      else Some \<lparr> im_hazardsMap = [], im_version = 0, im_snapshotInstanceId = instanceId,
        im_maxActiveHazards = fst limits, im_maxPolygonVertices = snd limits \<rparr>)"

definition hazard_active :: "js_date \<Rightarrow> flood_hazard \<Rightarrow> bool" where
  "hazard_active now h = (case hz_validUntil h of None \<Rightarrow> False | Some until \<Rightarrow> date_lt now until)"

definition listHazards :: "js_date \<Rightarrow> in_memory_provider \<Rightarrow> flood_hazard list" where
  "listHazards now p = filter (hazard_active now) (dict_values (im_hazardsMap p))"

definition createSnapshot :: "in_memory_provider \<Rightarrow> flood_hazard list \<Rightarrow> js_date \<Rightarrow> hazard_snapshot" where
  "createSnapshot p activeHazards generatedAt = \<lparr>
     sn_snapshotId = ''snapshot_'' @ im_snapshotInstanceId p @ ''_v'' @ show_nat (im_version p) @ ''_''
       @ show_nat (length activeHazards),
     sn_generatedAt = generatedAt,
     sn_validUntil = earliestValidUntil activeHazards,
     sn_hazards = activeHazards,
     sn_source = SIMULATED \<rparr>"

definition im_getActiveSnapshot :: "in_memory_provider \<Rightarrow> js_date \<Rightarrow> hazard_snapshot" where
  "im_getActiveSnapshot p currentNow =
     createSnapshot p (filter (hazard_active currentNow) (dict_values (im_hazardsMap p))) currentNow"

datatype provider_error = HAZARD_INVALID geometry_error | HAZARD_LIMIT nat

text \<open>The clock is read once for the list of active hazards and once for the new hazard.\<close>

definition addHazard ::
  "(string \<Rightarrow> js_date) \<Rightarrow> js_date \<Rightarrow> js_date \<Rightarrow> jsval \<Rightarrow> in_memory_provider \<Rightarrow>
   (provider_error, flood_hazard \<times> in_memory_provider) result" where
  "addHazard dateParse nowList nowCheck hazardData p =
     (case validateFloodHazard dateParse hazardData (im_maxPolygonVertices p) of
        Inl e \<Rightarrow> Inl (HAZARD_INVALID e)
      | Inr hazard \<Rightarrow>
          let activeHazardIds = js_set (map hz_id (listHazards nowList p)) in
          if hazard_active nowCheck hazard \<and> hz_id hazard \<notin> set activeHazardIds \<and>
             im_maxActiveHazards p \<le> length activeHazardIds
          then Inl (HAZARD_LIMIT (im_maxActiveHazards p))
          else Inr (hazard, p\<lparr>
            im_hazardsMap := dict_set (hz_id hazard) hazard (im_hazardsMap p),
            im_version := im_version p + 1\<rparr>))"

definition removeHazard :: "string \<Rightarrow> in_memory_provider \<Rightarrow> bool \<times> in_memory_provider" where
  "removeHazard i p =
     (if dict_get (im_hazardsMap p) i = None then (False, p)
      else (True, p\<lparr>im_hazardsMap := dict_delete i (im_hazardsMap p), im_version := im_version p + 1\<rparr>))"

definition clearHazards :: "in_memory_provider \<Rightarrow> in_memory_provider" where
  "clearHazards p =
     (if 0 < length (im_hazardsMap p) then p\<lparr>im_hazardsMap := [], im_version := im_version p + 1\<rparr>
      else p)"

fun preset_level_name :: "bool \<Rightarrow> string" where
  "preset_level_name blocked = (if blocked then ''BLOCKED'' else ''HIGH'')"

definition decimal :: "int \<Rightarrow> nat \<Rightarrow> jsnum" where
  "decimal digits places = mk_num (of_int digits / 10 ^ places)"

definition centralCorridorPolygon :: polygon where
  "centralCorridorPolygon = [[
     (decimal 106817 3, decimal (- 6201) 3), (decimal 106821 3, decimal (- 6201) 3),
     (decimal 106821 3, decimal (- 6193) 3), (decimal 106817 3, decimal (- 6193) 3),
     (decimal 106817 3, decimal (- 6201) 3)]]"

definition userCustomPolygon :: polygon where
  "userCustomPolygon = [[
     (decimal 10681694487382944 14, decimal (- 6203061448721073) 15),
     (decimal 10681489279253424 14, decimal (- 6203244130378491) 15),
     (decimal 10681620979047918 14, decimal (- 6207232917350129) 15),
     (decimal 10681841502206832 14, decimal (- 6206974105601998) 15),
     (decimal 10681694487382944 14, decimal (- 6203061448721073) 15)]]"

definition preset_value ::
  "string \<Rightarrow> bool \<Rightarrow> polygon \<Rightarrow> js_date \<Rightarrow> js_date \<Rightarrow> string list \<Rightarrow> string \<Rightarrow> jsval" where
  "preset_value name blocked geometry currentNow validUntil nodes description = JObj [
     (''id'', JStr (name @ to_lower (preset_level_name blocked))),
     (''level'', JStr (preset_level_name blocked)),
     (''geometry'', polygon_value geometry),
     (''confidence'', JNum (decimal 95 2)),
     (''observedAt'', JDate currentNow),
     (''validUntil'', JDate validUntil),
     (''sourceNodeIds'', JArr (map JStr nodes)),
     (''description'', JStr description)]"

definition activateCentralCorridorPreset ::
  "(string \<Rightarrow> js_date) \<Rightarrow> js_date \<Rightarrow> js_date \<Rightarrow> js_date \<Rightarrow> bool \<Rightarrow> in_memory_provider \<Rightarrow>
   (provider_error, hazard_snapshot \<times> in_memory_provider) result" where
  "activateCentralCorridorPreset dateParse currentNow nowList nowAfter blocked p =
     (let validUntil = date_shift currentNow (24 * 60 * 60 * 1000) in
      case validateFloodHazard dateParse
          (preset_value ''preset_central_corridor_'' blocked centralCorridorPolygon currentNow validUntil
            [''node_central_01'', ''node_central_02'']
            (if blocked then ''Simulasi area banjir yang tidak dapat dilalui di koridor pusat''
             else ''Simulasi area dengan indikasi risiko banjir tinggi di koridor pusat''))
          (im_maxPolygonVertices p) of
        Inl e \<Rightarrow> Inl (HAZARD_INVALID e)
      | Inr hazard \<Rightarrow>
      (case validateFloodHazard dateParse
          (preset_value ''preset_user_custom_'' blocked userCustomPolygon currentNow validUntil
            [''node_user_01'', ''node_user_02'']
            (if blocked then ''Simulasi area banjir yang tidak dapat dilalui pada poligon uji''
             else ''Simulasi area dengan indikasi risiko banjir tinggi pada poligon uji''))
          (im_maxPolygonVertices p) of
        Inl e \<Rightarrow> Inl (HAZARD_INVALID e)
      | Inr userHazard \<Rightarrow>
          let projected = js_set_add (js_set_add (js_set (map hz_id (listHazards nowList p)))
                (hz_id hazard)) (hz_id userHazard) in
          if im_maxActiveHazards p < length projected
          then Inl (HAZARD_LIMIT (im_maxActiveHazards p))
          else
            let p' = p\<lparr>im_hazardsMap := dict_set (hz_id userHazard) userHazard
                    (dict_set (hz_id hazard) hazard (im_hazardsMap p)),
                  im_version := im_version p + 1\<rparr> in
            Inr (createSnapshot p' (listHazards nowAfter p') currentNow, p')))"


section \<open>The interface\<close>

text \<open>What a client of \<open>getActiveSnapshot\<close> may rely on, whichever provider is configured.\<close>

locale hazard_provider =
  fixes snapshot :: "'s \<Rightarrow> js_date \<Rightarrow> hazard_snapshot"
    and invar :: "'s \<Rightarrow> bool"
  assumes taken_at: "sn_generatedAt (snapshot s now) = now"
    and units: "invar s \<Longrightarrow> h \<in> set (sn_hazards (snapshot s now)) \<Longrightarrow>
      in_unit (hz_routingMultiplier h) \<and> in_unit (hz_confidence h)"
    and dates: "invar s \<Longrightarrow> h \<in> set (sn_hazards (snapshot s now)) \<Longrightarrow>
      hz_validUntil h = Some u \<Longrightarrow> valid_date u"
    and not_past: "invar s \<Longrightarrow> sn_validUntil (snapshot s now) = Some u \<Longrightarrow> \<not> date_lt u now"
    and covers: "invar s \<Longrightarrow> h \<in> set (sn_hazards (snapshot s now)) \<Longrightarrow>
      hz_validUntil h = Some d \<Longrightarrow> \<not> date_lt d now \<Longrightarrow>
      \<exists>u. sn_validUntil (snapshot s now) = Some u \<and> date_le u d"
begin

definition snapshot_risk :: "js_math \<Rightarrow> point list \<Rightarrow> jsnum \<Rightarrow> 's \<Rightarrow> js_date \<Rightarrow> evaluated_risk" where
  "snapshot_risk M coordinates meters s now =
     evaluateRoute M coordinates meters (sn_hazards (snapshot s now))
       (Some (sn_snapshotId (snapshot s now))) (sn_generatedAt (snapshot s now))"

lemma score_in_unit:
  assumes "invar s" and "int (length (sn_hazards (snapshot s now))) \<le> 2 ^ 53"
  shows "in_unit (ev_score (snapshot_risk M coordinates meters s now))"
    and "\<exists>c. ev_confidence (snapshot_risk M coordinates meters s now) = Some c \<and> in_unit c"
  using risk_in_unit [of "sn_hazards (snapshot s now)"] units [OF assms(1)] assms(2)
  by (simp_all add: snapshot_risk_def Let_def)

end

section \<open>Sensors as a provider\<close>

definition record_ok :: "deployment_with_state \<Rightarrow> bool" where
  "record_ok r \<longleftrightarrow> multipliers_ok (dws_deployment r) \<and>
     (\<forall>s. dws_state r = Some s \<longrightarrow> in_unit (st_effectiveMultiplier s) \<and>
        (\<forall>u. st_validUntil s = Some u \<longrightarrow> valid_date u))"

definition records_snapshot ::
  "(string \<Rightarrow> string) \<Rightarrow> (string \<Rightarrow> string \<Rightarrow> bool) \<Rightarrow> deployment_with_state list \<Rightarrow> js_date \<Rightarrow> hazard_snapshot" where
  "records_snapshot sha256hex locale_le records now =
     sensor_snapshot sha256hex locale_le (map (\<lambda>r. evaluateEffectiveSensorState r now) records) now"

lemma effective_deployment [simp]: "ef_deployment (evaluateEffectiveSensorState r now) = dws_deployment r"
  by (simp add: evaluateEffectiveSensorState_def Let_def split: option.splits)

lemma effective_until:
  "ef_validUntil (evaluateEffectiveSensorState r now) =
     (case dws_state r of None \<Rightarrow> None | Some s \<Rightarrow> st_validUntil s)"
  by (simp add: evaluateEffectiveSensorState_def Let_def unknownState_def sensor_state_write.defs
      split: option.splits)

lemma effective_multiplier_unit:
  "record_ok r \<Longrightarrow> in_unit (ef_effectiveMultiplier (evaluateEffectiveSensorState r now))"
  by (auto simp: record_ok_def multipliers_ok_def evaluateEffectiveSensorState_def Let_def unknownState_def
      sensor_state_write.defs split: option.splits)

definition unexpired :: "js_date \<Rightarrow> effective_state \<Rightarrow> bool" where
  "unexpired now e \<longleftrightarrow> dep_enabled (ef_deployment e) \<and>
     (case ef_validUntil e of None \<Rightarrow> False | Some u \<Rightarrow> \<not> date_lt u now)"

lemma future_validity_fold:
  "foldl (future_validity now) e states =
     foldl (\<lambda>e h. earlier e (hz_validUntil h)) e (map mapHazard (filter (unexpired now) states))"
  by (induction states arbitrary: e)
    (auto simp: future_validity_def unexpired_def mapHazard_def split: option.splits)

lemma earliestFutureValidity_eq:
  "earliestFutureValidity states now = earliestValidUntil (map mapHazard (filter (unexpired now) states))"
  by (simp add: earliestFutureValidity_def earliestValidUntil_def future_validity_fold)

lemma records_hazards:
  "h \<in> set (sn_hazards (records_snapshot sha le records now)) \<longleftrightarrow>
     (\<exists>r\<in>set records. dep_enabled (dws_deployment r) \<and> h = mapHazard (evaluateEffectiveSensorState r now))"
  by (auto simp: records_snapshot_def sensor_snapshot_def Let_def)

lemma mapHazard_fields [simp]:
  "hz_validUntil (mapHazard e) = ef_validUntil e"
  "hz_routingMultiplier (mapHazard e) = ef_effectiveMultiplier e"
  "in_unit (hz_confidence (mapHazard e))"
  by (simp_all add: mapHazard_def in_unit_def)

definition live_hazards ::
  "(string \<Rightarrow> string \<Rightarrow> bool) \<Rightarrow> deployment_with_state list \<Rightarrow> js_date \<Rightarrow> flood_hazard list" where
  "live_hazards locale_le records now = map mapHazard (filter (unexpired now)
     (sort_by (\<lambda>a b. locale_le (dep_nodeId (ef_deployment a)) (dep_nodeId (ef_deployment b)))
       (map (\<lambda>r. evaluateEffectiveSensorState r now) records)))"

lemma records_validity:
  "sn_validUntil (records_snapshot sha le records now) = earliestValidUntil (live_hazards le records now)"
  by (simp add: records_snapshot_def sensor_snapshot_def Let_def earliestFutureValidity_eq live_hazards_def)

lemma live_hazards_dates:
  assumes "\<forall>r\<in>set records. record_ok r" and "h \<in> set (live_hazards le records now)"
    and "hz_validUntil h = Some d"
  shows "valid_date d" "\<not> date_lt d now"
  using assms by (auto simp: live_hazards_def effective_until record_ok_def unexpired_def split: option.splits)

interpretation sensors: hazard_provider "records_snapshot sha256hex locale_le"
  "\<lambda>records. \<forall>r\<in>set records. record_ok r"
proof unfold_locales
  fix s :: "deployment_with_state list" and now h u d
  show "sn_generatedAt (records_snapshot sha256hex locale_le s now) = now"
    by (simp add: records_snapshot_def sensor_snapshot_def Let_def)
  assume ok: "\<forall>r\<in>set s. record_ok r"
  let ?hs = "live_hazards locale_le s now"
  note live = live_hazards_dates [OF ok, of _ locale_le now]
  have "\<forall>h\<in>set ?hs. \<forall>d. hz_validUntil h = Some d \<longrightarrow> valid_date d" using live(1) by blast
  note spec = earliest_spec [OF this, folded records_validity [of sha256hex]]
  show "sn_validUntil (records_snapshot sha256hex locale_le s now) = Some u \<Longrightarrow> \<not> date_lt u now"
    using spec(2) live(2) by (metis imageE)
  assume h: "h \<in> set (sn_hazards (records_snapshot sha256hex locale_le s now))"
  then obtain r where r: "r \<in> set s" "dep_enabled (dws_deployment r)"
    "h = mapHazard (evaluateEffectiveSensorState r now)"
    by (auto simp: records_hazards)
  show "in_unit (hz_routingMultiplier h) \<and> in_unit (hz_confidence h)"
    using r ok by (simp add: effective_multiplier_unit)
  show "hz_validUntil h = Some u \<Longrightarrow> valid_date u"
    using r ok by (auto simp: effective_until record_ok_def split: option.splits)
  assume d: "hz_validUntil h = Some d" "\<not> date_lt d now"
  then have "h \<in> set ?hs" using r by (auto simp: live_hazards_def unexpired_def)
  with d spec show "\<exists>u. sn_validUntil (records_snapshot sha256hex locale_le s now) = Some u \<and> date_le u d"
    by (metis option.exhaust option.simps(3))
qed

section \<open>The simulation as a provider\<close>

definition provider_ok :: "in_memory_provider \<Rightarrow> bool" where
  "provider_ok p \<longleftrightarrow> dict_ok (im_hazardsMap p) \<and>
     (\<forall>(k, h)\<in>set (im_hazardsMap p). k = hz_id h \<and> hazard_ok h)"

lemma in_memory_hazards:
  "h \<in> set (sn_hazards (im_getActiveSnapshot p now)) \<longleftrightarrow>
     (\<exists>k. (k, h) \<in> set (im_hazardsMap p)) \<and> hazard_active now h"
  by (force simp: im_getActiveSnapshot_def createSnapshot_def dict_values_def)

lemma in_memory_validity:
  "sn_validUntil (im_getActiveSnapshot p now) = earliestValidUntil (sn_hazards (im_getActiveSnapshot p now))"
  by (simp add: im_getActiveSnapshot_def createSnapshot_def)

lemma date_lt_asym: "date_lt a b \<Longrightarrow> \<not> date_lt b a"
  by (cases a; cases b) auto

interpretation simulation: hazard_provider im_getActiveSnapshot provider_ok
proof unfold_locales
  fix s now h u d
  show "sn_generatedAt (im_getActiveSnapshot s now) = now"
    by (simp add: im_getActiveSnapshot_def createSnapshot_def)
  assume ok: "provider_ok s"
  let ?hs = "sn_hazards (im_getActiveSnapshot s now)"
  have live: "hazard_ok h \<and> hazard_active now h" if "h \<in> set ?hs" for h
    using that ok by (auto simp: in_memory_hazards provider_ok_def)
  then have dates: "\<forall>h\<in>set ?hs. \<forall>d. hz_validUntil h = Some d \<longrightarrow> valid_date d"
    by (force simp: hazard_ok_def)
  note spec = earliest_spec [OF dates, folded in_memory_validity]
  have fresh: "\<not> date_lt u now" if "h \<in> set ?hs" "hz_validUntil h = Some u" for h u
    using live [OF that(1)] that(2) by (auto simp: hazard_active_def dest: date_lt_asym)
  show "sn_validUntil (im_getActiveSnapshot s now) = Some u \<Longrightarrow> \<not> date_lt u now"
    using spec(2) [of u] fresh by auto
  assume h: "h \<in> set ?hs"
  show "in_unit (hz_routingMultiplier h) \<and> in_unit (hz_confidence h)"
    using live [OF h] by (simp add: hazard_ok_def)
  show "hz_validUntil h = Some u \<Longrightarrow> valid_date u" using h dates by blast
  assume "hz_validUntil h = Some d"
  with h spec show "\<exists>u. sn_validUntil (im_getActiveSnapshot s now) = Some u \<and> date_le u d"
    by (metis option.exhaust option.simps(3))
qed

section \<open>Simulation as a state machine\<close>

text \<open>
  The simulation and the clock. Each operation reads the clock as often as the code does, and the
  readings never go back.
\<close>

inductive provider_step ::
  "(string \<Rightarrow> js_date) \<Rightarrow> in_memory_provider \<times> int \<Rightarrow> in_memory_provider \<times> int \<Rightarrow> bool" for dateParse where
  tick: "now \<le> t \<Longrightarrow> provider_step dateParse (p, now) (p, t)"
| added: "now \<le> t1 \<Longrightarrow> t1 \<le> t2 \<Longrightarrow> addHazard dateParse (Date t1) (Date t2) v p = Inr (h, p') \<Longrightarrow>
    provider_step dateParse (p, now) (p', t2)"
| removed: "removeHazard i p = (r, p') \<Longrightarrow> provider_step dateParse (p, now) (p', now)"
| cleared: "provider_step dateParse (p, now) (clearHazards p, now)"
| preset: "now \<le> t1 \<Longrightarrow> t1 \<le> t2 \<Longrightarrow> t2 \<le> t3 \<Longrightarrow>
    activateCentralCorridorPreset dateParse (Date t1) (Date t2) (Date t3) blocked p = Inr (s, p') \<Longrightarrow>
    provider_step dateParse (p, now) (p', t3)"

inductive_cases provider_stepE: "provider_step dateParse (p, now) (p', t)"

inductive provider_reachable :: "(string \<Rightarrow> js_date) \<Rightarrow> in_memory_provider \<times> int \<Rightarrow> bool" for dateParse where
  start: "new_provider instanceId randomId limits = Some p \<Longrightarrow> provider_reachable dateParse (p, now)"
| step: "provider_reachable dateParse s \<Longrightarrow> provider_step dateParse s s' \<Longrightarrow> provider_reachable dateParse s'"

definition active_ids :: "js_date \<Rightarrow> in_memory_provider \<Rightarrow> string set" where
  "active_ids now p = fst ` {(k, h) \<in> set (im_hazardsMap p). hazard_active now h}"

lemma finite_active_ids [simp]: "finite (active_ids now p)"
  unfolding active_ids_def by (intro finite_imageI finite_subset [OF _ finite_set]) auto

lemma listHazards_ids:
  assumes "provider_ok p"
  shows "map hz_id (listHazards now p) = map fst (filter (hazard_active now \<circ> snd) (im_hazardsMap p))"
    and "distinct (map hz_id (listHazards now p))"
    and "set (map hz_id (listHazards now p)) = active_ids now p"
proof -
  have "map hz_id (map snd (filter P (im_hazardsMap p))) = map fst (filter P (im_hazardsMap p))" for P
    using assms by (auto simp: provider_ok_def)
  then show ids: "map hz_id (listHazards now p) = map fst (filter (hazard_active now \<circ> snd) (im_hazardsMap p))"
    by (simp add: listHazards_def dict_values_def filter_map)
  show "distinct (map hz_id (listHazards now p))"
    using assms by (simp add: ids provider_ok_def dict_ok_def distinct_map_filter)
  show "set (map hz_id (listHazards now p)) = active_ids now p"
    by (auto simp: ids active_ids_def simp del: map_map)
qed

lemma length_listHazards: "provider_ok p \<Longrightarrow> length (listHazards now p) = card (active_ids now p)"
  using listHazards_ids [of p now] distinct_card by (metis length_map)

lemma active_later: "hazard_active (Date t') h \<Longrightarrow> t \<le> t' \<Longrightarrow> hazard_active (Date t) h"
  by (cases "hz_validUntil h"; cases "the (hz_validUntil h)") (auto simp: hazard_active_def)

lemma active_ids_later: "t \<le> t' \<Longrightarrow> active_ids (Date t') p \<subseteq> active_ids (Date t) p"
  using active_later by (force simp: active_ids_def)

lemma active_ids_set:
  "active_ids now (p\<lparr>im_hazardsMap := dict_set k h (im_hazardsMap p), im_version := v\<rparr>) \<subseteq>
     (if hazard_active now h then insert k (active_ids now p) else active_ids now p)"
  using set_dict_set [of k h "im_hazardsMap p"] by (force simp: active_ids_def)

lemma provider_ok_set:
  assumes "provider_ok p" and "hazard_ok h"
  shows "provider_ok (p\<lparr>im_hazardsMap := dict_set (hz_id h) h (im_hazardsMap p), im_version := v\<rparr>)"
  using assms set_dict_set [of "hz_id h" h "im_hazardsMap p"]
  by (auto simp: provider_ok_def dict_ok_set)

definition provider_inv :: "in_memory_provider \<times> int \<Rightarrow> bool" where
  "provider_inv s \<longleftrightarrow> provider_ok (fst s) \<and>
     card (active_ids (Date (snd s)) (fst s)) \<le> im_maxActiveHazards (fst s)"

lemma add_keeps_inv:
  assumes inv: "provider_inv (p, now)" and times: "now \<le> t1" "t1 \<le> t2"
    and add: "addHazard dateParse (Date t1) (Date t2) v p = Inr (h, p')"
  shows "provider_inv (p', t2)"
proof -
  let ?ids = "active_ids (Date t1) p"
  have ok: "provider_ok p" and bound: "card ?ids \<le> im_maxActiveHazards p"
    using inv card_mono [OF _ active_ids_later [OF times(1)], of p] by (auto simp: provider_inv_def)
  have val: "validateFloodHazard dateParse v (im_maxPolygonVertices p) = Inr h"
    and guard: "\<not> (hazard_active (Date t2) h \<and> hz_id h \<notin> ?ids \<and> im_maxActiveHazards p \<le> card ?ids)"
    and p': "p' = p\<lparr>im_hazardsMap := dict_set (hz_id h) h (im_hazardsMap p), im_version := im_version p + 1\<rparr>"
    using add listHazards_ids(3) [OF ok, of "Date t1"]
    by (auto simp: addHazard_def Let_def length_js_set simp del: set_map split: sum.splits if_splits)
  define new where "new = (if hazard_active (Date t2) h then insert (hz_id h) ?ids else ?ids)"
  have "active_ids (Date t2) p' \<subseteq> new"
    using active_ids_set [where now = "Date t2" and p = p and h = h and k = "hz_id h"
        and v = "im_version p + 1"] active_ids_later [OF times(2), of p]
    unfolding p' new_def by (auto split: if_splits)
  moreover have "finite new" "card new \<le> im_maxActiveHazards p"
    using guard bound by (auto simp: new_def card_insert_if)
  ultimately have "card (active_ids (Date t2) p') \<le> im_maxActiveHazards p"
    using card_mono le_trans by blast
  then show ?thesis
    using provider_ok_set [OF ok validate_hazard_ok [OF val]] by (simp add: provider_inv_def p')
qed

lemma remove_keeps_inv:
  assumes "provider_inv (p, now)" and "removeHazard i p = (r, p')"
  shows "provider_inv (p', now)"
proof -
  have sub: "active_ids t p' \<subseteq> active_ids t p" for t
    using assms(2) by (auto simp: removeHazard_def active_ids_def dict_delete_def split: if_splits)
  have "provider_ok p'" "im_maxActiveHazards p' = im_maxActiveHazards p"
    using assms by (auto simp: removeHazard_def provider_inv_def provider_ok_def dict_ok_delete
        split: if_splits) (auto simp: dict_delete_def)
  then show ?thesis
    using assms(1) card_mono [OF _ sub [of "Date now"]] by (simp add: provider_inv_def)
qed

lemma clear_keeps_inv: "provider_inv (p, now) \<Longrightarrow> provider_inv (clearHazards p, now)"
  by (simp add: provider_inv_def clearHazards_def provider_ok_def active_ids_def dict_ok_Nil)

lemma preset_keeps_inv:
  assumes inv: "provider_inv (p, now)" and times: "now \<le> t1" "t1 \<le> t2" "t2 \<le> t3"
    and act: "activateCentralCorridorPreset dateParse (Date t1) (Date t2) (Date t3) b p = Inr (s, p')"
  shows "provider_inv (p', t3)"
proof -
  have ok: "provider_ok p" using inv by (simp add: provider_inv_def)
  obtain h u v w where hu: "validateFloodHazard dateParse v (im_maxPolygonVertices p) = Inr h"
      "validateFloodHazard dateParse w (im_maxPolygonVertices p) = Inr u"
    and len: "length (js_set_add (js_set_add (js_set (map hz_id (listHazards (Date t2) p))) (hz_id h)) (hz_id u))
       \<le> im_maxActiveHazards p"
    and p': "p' = p\<lparr>im_hazardsMap := dict_set (hz_id u) u (dict_set (hz_id h) h (im_hazardsMap p)),
      im_version := im_version p + 1\<rparr>"
    using act unfolding activateCentralCorridorPreset_def Let_def
    by (auto simp del: js_set_add.simps split: sum.splits if_splits)
  let ?new = "insert (hz_id u) (insert (hz_id h) (active_ids (Date t2) p))"
  let ?ids = "js_set_add (js_set_add (js_set (map hz_id (listHazards (Date t2) p))) (hz_id h)) (hz_id u)"
  have set_ids: "set ?ids = ?new" using listHazards_ids(3) [OF ok, of "Date t2"] by auto
  have "distinct ?ids" by simp
  then have "length ?ids = card ?new" using set_ids distinct_card by metis
  moreover have "active_ids (Date t3) p' \<subseteq> ?new"
    using active_ids_later [OF times(3), of p]
      set_dict_set [of "hz_id u" u "dict_set (hz_id h) h (im_hazardsMap p)"]
      set_dict_set [of "hz_id h" h "im_hazardsMap p"]
    by (force simp: active_ids_def p')
  ultimately have "card (active_ids (Date t3) p') \<le> im_maxActiveHazards p"
    using len card_mono [of ?new "active_ids (Date t3) p'"] by fastforce
  moreover have "provider_ok p'"
    using provider_ok_set [OF provider_ok_set [OF ok, of h 0] validate_hazard_ok [OF hu(2)],
        of "im_version p + 1"] validate_hazard_ok [OF hu(1)]
    by (simp add: p')
  ultimately show ?thesis by (simp add: provider_inv_def p')
qed

lemma step_keeps_inv: "provider_step dateParse s s' \<Longrightarrow> provider_inv s \<Longrightarrow> provider_inv s'"
proof (induction rule: provider_step.induct)
  case (tick now t p)
  then show ?case
    using card_mono [OF _ active_ids_later [OF tick(1)], of p] by (auto simp: provider_inv_def)
qed (blast intro: add_keeps_inv remove_keeps_inv clear_keeps_inv preset_keeps_inv)+

lemma reachable_inv: "provider_reachable dateParse s \<Longrightarrow> provider_inv s"
proof (induction rule: provider_reachable.induct)
  case (start instanceId randomId limits p now)
  then show ?case
    by (auto simp: new_provider_def Let_def provider_inv_def provider_ok_def active_ids_def dict_ok_Nil
        split: if_splits)
qed (rule step_keeps_inv)

section \<open>What the identifier of a snapshot identifies\<close>

lemma step_version:
  assumes "provider_step dateParse s s'"
  shows "im_snapshotInstanceId (fst s') = im_snapshotInstanceId (fst s) \<and> snd s \<le> snd s' \<and>
    (fst s' = fst s \<or> im_version (fst s) < im_version (fst s'))"
  using assms
proof (induction rule: provider_step.induct)
  case (added now t1 t2 v p h p')
  then show ?case by (auto simp: addHazard_def Let_def split: sum.splits if_splits)
next
  case (preset now t1 t2 t3 blocked p s p')
  then show ?case
    by (auto simp: activateCentralCorridorPreset_def Let_def simp del: js_set_add.simps
        split: sum.splits if_splits)
qed (auto simp: removeHazard_def clearHazards_def split: if_splits)

lemma steps_version:
  assumes "(provider_step dateParse)\<^sup>*\<^sup>* s s'"
  shows "im_snapshotInstanceId (fst s') = im_snapshotInstanceId (fst s) \<and> snd s \<le> snd s' \<and>
    (fst s' = fst s \<or> im_version (fst s) < im_version (fst s'))"
  using assms by (induction rule: rtranclp_induct) (auto dest!: step_version)

lemma active_subset_same:
  assumes "t \<le> t'" and "length (listHazards (Date t') p) = length (listHazards (Date t) p)"
  shows "listHazards (Date t') p = listHazards (Date t) p"
proof -
  have "filter (hazard_active (Date t')) (listHazards (Date t) p) = listHazards (Date t') p"
    using active_later [OF _ assms(1)] by (auto simp: listHazards_def intro: filter_cong)
  then show ?thesis using assms(2)
    by (metis filter_id_conv length_filter_less linorder_neq_iff order_less_irrefl)
qed

lemma snapshot_id_eq:
  assumes "im_snapshotInstanceId p = im_snapshotInstanceId q"
    and "sn_snapshotId (im_getActiveSnapshot p now) = sn_snapshotId (im_getActiveSnapshot q t)"
  shows "im_version p = im_version q"
    and "length (listHazards now p) = length (listHazards t q)"
proof -
  have "show_nat (im_version p) @ ''_'' @ show_nat (length (listHazards now p)) =
    show_nat (im_version q) @ ''_'' @ show_nat (length (listHazards t q))"
    using assms by (simp add: im_getActiveSnapshot_def createSnapshot_def listHazards_def)
  then show "im_version p = im_version q" "length (listHazards now p) = length (listHazards t q)"
    using show_nat_sep by blast+
qed

section \<open>Reading the store\<close>

definition joined_record :: "db \<Rightarrow> deployment \<Rightarrow> deployment_with_state" where
  "joined_record d dep = \<lparr> dws_deployment = dep, dws_state = dict_get (db_states d) (dep_nodeId dep) \<rparr>"

lemma traverse_map: "(\<And>x. x \<in> set xs \<Longrightarrow> f x = Inr (g x)) \<Longrightarrow> traverse f xs = Inr (map g xs)"
  by (induction xs) auto

lemma join_maps:
  assumes "deployment_safe dep" and "\<And>s. dict_get (db_states d) (dep_nodeId dep) = Some s \<Longrightarrow> state_safe s"
  shows "mapDeploymentWithState (join_state d dep) = Inr (joined_record d dep)"
proof (cases "dict_get (db_states d) (dep_nodeId dep)")
  case None
  then show ?thesis
    using assms(1) mapDeployment_Inr [of dep dep]
    by (simp add: mapDeploymentWithState_def join_state_def joined_record_def state_columns_def)
next
  case (Some s)
  then have "mapState (state_columns (Some s)) = Inr s" using assms(2) by (simp add: mapState_Inr)
  with Some show ?thesis
    using assms(1) mapDeployment_Inr [of dep dep]
    by (simp add: mapDeploymentWithState_def join_state_def joined_record_def)
      (simp add: state_columns_def)
qed

text \<open>What the checks and keys of the tables add to \<open>db_wf\<close> and \<open>states_current\<close>.\<close>

definition store_ok :: "db \<Rightarrow> bool" where
  "store_ok d \<longleftrightarrow> db_wf d \<and> states_current d \<and> dict_ok (db_deployments d) \<and>
     (\<forall>n s. dict_get (db_states d) n = Some s \<longrightarrow> state_row_ok s)"

lemma stored_deployment:
  "store_ok d \<Longrightarrow> dep \<in> set (dict_values (db_deployments d)) \<Longrightarrow>
     stored_ok dep \<and> dict_get (db_deployments d) (dep_nodeId dep) = Some dep"
  by (fastforce simp: store_ok_def db_wf_def dict_values_def dict_get_eq)

lemma list_total:
  assumes "store_ok d"
  shows "listWithState node_le d = (Inr (map (joined_record d)
    (sort_by (\<lambda>a b. node_le (dep_nodeId a) (dep_nodeId b)) (dict_values (db_deployments d)))), d)"
proof -
  have "mapDeploymentWithState (join_state d dep) = Inr (joined_record d dep)"
    if "dep \<in> set (dict_values (db_deployments d))" for dep
    using stored_deployment [OF assms that] assms
    by (intro join_maps) (auto simp: deployment_ok_safe store_ok_def db_wf_def)
  then have "traverse (mapDeploymentWithState \<circ> join_state d)
      (sort_by (\<lambda>a b. node_le (dep_nodeId a) (dep_nodeId b)) (dict_values (db_deployments d))) =
    Inr (map (joined_record d)
      (sort_by (\<lambda>a b. node_le (dep_nodeId a) (dep_nodeId b)) (dict_values (db_deployments d))))"
    by (intro traverse_map) simp
  moreover have "traverse f (map g xs) = traverse (f \<circ> g) xs"
    for f :: "deployment \<times> state_row \<Rightarrow> (db_error, deployment_with_state) result" and g
      and xs :: "deployment list"
    by (induction xs) auto
  ultimately show ?thesis
    by (simp add: listWithState_def db_bind_def db_read_def db_lift_def)
qed

lemma joined_ok:
  assumes "store_ok d" and "dep \<in> set (dict_values (db_deployments d))"
  shows "record_ok (joined_record d dep)"
proof -
  have "multipliers_ok dep"
    using stored_deployment [OF assms] by (simp add: stored_ok_def deployment_ok_def)
  moreover have "in_unit (st_effectiveMultiplier s) \<and> (\<forall>u. st_validUntil s = Some u \<longrightarrow> valid_date u)"
    if "dict_get (db_states d) (dep_nodeId dep) = Some s" for s
  proof -
    have "state_row_ok s" using assms(1) that by (simp add: store_ok_def)
    moreover from this have "in_unit (st_effectiveMultiplier s)" by (simp add: state_row_ok_def)
    ultimately show ?thesis using state_row_until by blast
  qed
  ultimately show ?thesis by (simp add: record_ok_def joined_record_def)
qed

lemma snapshot_total:
  fixes node_le :: "string \<Rightarrow> string \<Rightarrow> bool"
  assumes "store_ok d"
  defines "records \<equiv> map (joined_record d)
    (sort_by (\<lambda>a b. node_le (dep_nodeId a) (dep_nodeId b)) (dict_values (db_deployments d)))"
  shows "sensor_getActiveSnapshot sha256hex locale_le node_le observedAt nowFn d =
    (Inr (records_snapshot sha256hex locale_le records
      (case observedAt of Some t \<Rightarrow> t | None \<Rightarrow> nowFn)), d)"
    and "\<forall>r\<in>set records. record_ok r"
  using list_total [OF assms(1), of node_le] joined_ok [OF assms(1)]
  by (auto simp: sensor_getActiveSnapshot_def Let_def listEffective_def db_bind_def db_return_def
      records_snapshot_def records_def)

lemma effective_cases:
  assumes "dep_enabled (dws_deployment r)"
  obtains (uncertain) "ef_effectiveLevel (evaluateEffectiveSensorState r now) = UNKNOWN"
      "ef_effectiveMultiplier (evaluateEffectiveSensorState r now) = dep_unknownMultiplier (dws_deployment r)"
      "\<not> ef_fresh (evaluateEffectiveSensorState r now)"
  | (current) s u where "dws_state r = Some s" "st_validUntil s = Some u" "\<not> date_lt u now"
      "ef_effectiveLevel (evaluateEffectiveSensorState r now) = st_classifiedLevel s"
      "ef_effectiveMultiplier (evaluateEffectiveSensorState r now) = st_effectiveMultiplier s"
      "ef_classificationStatus (evaluateEffectiveSensorState r now) = st_classificationStatus s"
      "ef_reasonCodes (evaluateEffectiveSensorState r now) = st_reasonCodes s"
      "ef_freshness (evaluateEffectiveSensorState r now) = FRESH"
      "ef_fresh (evaluateEffectiveSensorState r now)"
proof (cases "\<exists>s t u. dws_state r = Some s \<and> st_telemetryId s = Some t \<and> st_validUntil s = Some u \<and>
    \<not> date_lt u now")
  case True
  then obtain s t u where "dws_state r = Some s" "st_telemetryId s = Some t" "st_validUntil s = Some u"
    "\<not> date_lt u now" by blast
  with assms show ?thesis
    by (intro current [of s u])
      (simp_all add: evaluateEffectiveSensorState_def Let_def sensor_state_write.defs)
next
  case False
  with assms show ?thesis
    by (intro uncertain)
      (auto simp: evaluateEffectiveSensorState_def Let_def sensor_state_write.defs unknownState_def
        split: option.splits)
qed

lemma hazard_certainty:
  fixes now :: js_date
  assumes "store_ok d" and "dep \<in> set (dict_values (db_deployments d))" and "dep_enabled dep"
  defines "h \<equiv> mapHazard (evaluateEffectiveSensorState (joined_record d dep) now)"
  shows "if hz_level h = UNKNOWN then hz_confidence h = Fin 0 \<and> hz_routingMultiplier h = dep_unknownMultiplier dep
    else hz_confidence h = Fin 1 \<and> hz_freshness h = Some FRESH \<and> hz_reasonCodes h = Some [] \<and>
      hz_routingMultiplier h = multiplierForLevel dep (hz_level h) \<and>
      (\<exists>u. hz_validUntil h = Some u \<and> \<not> date_lt u now)"
proof -
  have en: "dep_enabled (dws_deployment (joined_record d dep))"
    and dep: "dws_deployment (joined_record d dep) = dep"
    using assms(3) by (simp_all add: joined_record_def)
  from en show ?thesis
  proof (cases rule: effective_cases [where now = now])
    case uncertain
    then show ?thesis by (simp add: h_def mapHazard_def dep)
  next
    case (current s u)
    then have "dict_get (db_states d) (dep_nodeId dep) = Some s" by (simp add: joined_record_def)
    moreover have "states_current d" using assms(1) by (simp add: store_ok_def)
    ultimately obtain e where "dict_get (db_deployments d) (dep_nodeId dep) = Some e" "state_consistent e s"
      unfolding states_current_def by blast
    then have con: "state_consistent dep s" using stored_deployment [OF assms(1,2)] by simp
    have until: "hz_validUntil h = Some u"
      using current(1,2) by (simp add: h_def effective_until)
    from con have status: "st_effectiveMultiplier s = multiplierForLevel dep (st_classifiedLevel s)"
      "st_classificationStatus s = CS_VALID \<longleftrightarrow> st_classifiedLevel s \<noteq> UNKNOWN"
      "st_classificationStatus s = CS_VALID \<longleftrightarrow> st_reasonCodes s = []"
      unfolding state_consistent_def by blast+
    show ?thesis
      unfolding until using current(3) status
      by (cases "st_classifiedLevel s = UNKNOWN") (simp_all add: h_def mapHazard_def current(4-9))
  qed
qed

lemma length_filter_sort_by: "length (filter P (sort_by le xs)) = length (filter P xs)"
  by (metis mset_filter mset_sort_by size_mset)

lemma sample_store_ok: "store_ok sample_db"
  using sample_db_wf sample_db_current
  by (simp add: store_ok_def) (simp add: sample_db_def dict_ok_def dict_get_def)

section \<open>Properties\<close>

text \<open>
  C14: Whatever sequence of operations and passing time brought the simulation to its state, a
  snapshot holds exactly the hazards whose validity has not ended, each well formed, under
  distinct identifiers and never more of them than the configured limit.
\<close>

theorem simulation_snapshot:
  assumes "provider_reachable dateParse (p, now)"
  shows "let hazards = sn_hazards (im_getActiveSnapshot p (Date now)) in
    set hazards = {h \<in> set (dict_values (im_hazardsMap p)). hazard_active (Date now) h} \<and>
    distinct (map hz_id hazards) \<and> length hazards \<le> im_maxActiveHazards p \<and>
    (\<forall>h\<in>set hazards. hazard_ok h)"
proof -
  have inv: "provider_ok p" "card (active_ids (Date now) p) \<le> im_maxActiveHazards p"
    using reachable_inv [OF assms] by (simp_all add: provider_inv_def)
  have "sn_hazards (im_getActiveSnapshot p (Date now)) = listHazards (Date now) p"
    by (simp add: im_getActiveSnapshot_def createSnapshot_def listHazards_def)
  moreover have "\<forall>h\<in>set (listHazards (Date now) p). hazard_ok h"
    using inv(1) by (auto simp: listHazards_def dict_values_def provider_ok_def)
  ultimately show ?thesis
    using inv(2) listHazards_ids(2) [OF inv(1)] length_listHazards [OF inv(1)]
    by (auto simp: listHazards_def)
qed

theorem simulation_snapshot_witness:
  "\<exists>p. addHazard (\<lambda>_. InvalidDate) (Date 1500) (Date 1500) sample_hazard_value
      \<lparr> im_hazardsMap = [], im_version = 0, im_snapshotInstanceId = ''i'', im_maxActiveHazards = 1,
        im_maxPolygonVertices = num_of_int 2000 \<rparr> = Inr (sample_hazard, p) \<and>
    sn_hazards (im_getActiveSnapshot p (Date 1500)) = [sample_hazard] \<and>
    distinct (map hz_id (sn_hazards (im_getActiveSnapshot p (Date 1500))))"
proof -
  let ?new = "\<lparr> im_hazardsMap = [], im_version = 0, im_snapshotInstanceId = ''i'', im_maxActiveHazards = 1,
        im_maxPolygonVertices = num_of_int 2000 \<rparr>"
  let ?p = "?new\<lparr>im_hazardsMap := [(''h-1'', sample_hazard)], im_version := 1\<rparr>"
  have id: "hz_id sample_hazard = ''h-1''" by (simp add: sample_hazard_def)
  have add: "addHazard (\<lambda>_. InvalidDate) (Date 1500) (Date 1500) sample_hazard_value ?new = Inr (sample_hazard, ?p)"
    using sample_hazard_valid by (simp add: addHazard_def id listHazards_def dict_values_def js_set_def)
  have "id_pattern 64 ''i''" by code_simp
  then have "new_provider (Some ''i'') ''r'' (Some (1, num_of_int 2000)) = Some ?new"
    by (simp add: new_provider_def)
  then have "provider_reachable (\<lambda>_. InvalidDate) (?new, 1000)" by (rule start)
  moreover have "provider_step (\<lambda>_. InvalidDate) (?new, 1000) (?p, 1500)"
    by (rule added [OF _ _ add]) simp_all
  ultimately have "provider_reachable (\<lambda>_. InvalidDate) (?p, 1500)" by (rule step)
  from simulation_snapshot [OF this] add show ?thesis
    by (simp add: Let_def im_getActiveSnapshot_def createSnapshot_def dict_values_def hazard_active_def)
      (simp add: sample_hazard_def)
qed

text \<open>
  The identifier of a simulated snapshot identifies its contents: of two snapshots of one
  provider, taken at any two points of its history, those with the same identifier have the same
  hazards and the same end of validity.
\<close>

theorem simulation_snapshot_id:
  assumes "(provider_step dateParse)\<^sup>*\<^sup>* (p, now) (q, later)"
    and "sn_snapshotId (im_getActiveSnapshot p (Date now)) = sn_snapshotId (im_getActiveSnapshot q (Date later))"
  shows "sn_hazards (im_getActiveSnapshot p (Date now)) = sn_hazards (im_getActiveSnapshot q (Date later)) \<and>
    sn_validUntil (im_getActiveSnapshot p (Date now)) = sn_validUntil (im_getActiveSnapshot q (Date later))"
proof -
  note history = steps_version [OF assms(1), simplified]
  from history have "im_snapshotInstanceId p = im_snapshotInstanceId q" by simp
  note same = snapshot_id_eq [OF this assms(2)]
  from history same(1) have q: "q = p" by auto
  have "listHazards (Date later) p = listHazards (Date now) p"
    using history same(2) by (intro active_subset_same) (simp_all add: q)
  then show ?thesis by (simp add: im_getActiveSnapshot_def createSnapshot_def listHazards_def q)
qed

theorem simulation_snapshot_id_witness:
  "let p = \<lparr> im_hazardsMap = [(''h-1'', sample_hazard)], im_version = 1, im_snapshotInstanceId = ''i'',
        im_maxActiveHazards = 1, im_maxPolygonVertices = num_of_int 2000 \<rparr> in
   sn_snapshotId (im_getActiveSnapshot p (Date 1500)) = sn_snapshotId (im_getActiveSnapshot p (Date 1600)) \<and>
   sn_hazards (im_getActiveSnapshot p (Date 1500)) = sn_hazards (im_getActiveSnapshot p (Date 1600))"
proof -
  define p where "p = \<lparr> im_hazardsMap = [(''h-1'', sample_hazard)], im_version = 1,
    im_snapshotInstanceId = ''i'', im_maxActiveHazards = 1, im_maxPolygonVertices = num_of_int 2000 \<rparr>"
  have "provider_step (\<lambda>_. InvalidDate) (p, 1500) (p, 1600)" by (rule tick) simp
  then have steps: "(provider_step (\<lambda>_. InvalidDate))\<^sup>*\<^sup>* (p, 1500) (p, 1600)" by (rule r_into_rtranclp)
  have "hz_validUntil sample_hazard = Some (Date 5000)" by (simp add: sample_hazard_def)
  then have "sn_snapshotId (im_getActiveSnapshot p (Date 1500)) = sn_snapshotId (im_getActiveSnapshot p (Date 1600))"
    by (simp add: p_def im_getActiveSnapshot_def createSnapshot_def dict_values_def hazard_active_def)
  with simulation_snapshot_id [OF steps this] show ?thesis by (simp add: p_def Let_def)
qed

text \<open>
  C15: On a well-formed store the sensor snapshot always succeeds, leaves the store alone and has one
  hazard per enabled deployment. A hazard claims a level only with confidence 1, fresh data, no
  reason against it and the multiplier configured for the level; every other one is UNKNOWN with
  confidence 0 and the unknown multiplier.
\<close>

theorem sensor_snapshot_sound:
  assumes "store_ok d"
  shows "\<exists>s. sensor_getActiveSnapshot sha256hex locale_le node_le (Some now) nowFn d = (Inr s, d) \<and>
    length (sn_hazards s) = length (filter dep_enabled (dict_values (db_deployments d))) \<and>
    (\<forall>h\<in>set (sn_hazards s). \<exists>dep\<in>set (dict_values (db_deployments d)).
       dep_enabled dep \<and> hz_id h = ''sensor_'' @ dep_nodeId dep \<and> hz_geometry h = dep_coveragePolygon dep \<and>
       (if hz_level h = UNKNOWN
        then hz_confidence h = Fin 0 \<and> hz_routingMultiplier h = dep_unknownMultiplier dep
        else hz_confidence h = Fin 1 \<and> hz_freshness h = Some FRESH \<and> hz_reasonCodes h = Some [] \<and>
          hz_routingMultiplier h = multiplierForLevel dep (hz_level h) \<and>
          (\<exists>u. hz_validUntil h = Some u \<and> \<not> date_lt u now)))"
proof -
  define records where "records = map (joined_record d)
    (sort_by (\<lambda>a b. node_le (dep_nodeId a) (dep_nodeId b)) (dict_values (db_deployments d)))"
  define s where "s = records_snapshot sha256hex locale_le records now"
  have "sensor_getActiveSnapshot sha256hex locale_le node_le (Some now) nowFn d = (Inr s, d)"
    using snapshot_total(1) [OF assms, of sha256hex locale_le node_le "Some now" nowFn]
    by (simp add: s_def records_def)
  moreover have "length (sn_hazards s) = length (filter dep_enabled (dict_values (db_deployments d)))"
    by (simp add: s_def records_snapshot_def sensor_snapshot_def Let_def records_def filter_map
        length_filter_sort_by joined_record_def comp_def)
  moreover have "\<exists>dep\<in>set (dict_values (db_deployments d)). dep_enabled dep \<and>
      h = mapHazard (evaluateEffectiveSensorState (joined_record d dep) now)"
    if "h \<in> set (sn_hazards s)" for h
    using that by (auto simp: s_def records_hazards records_def joined_record_def)
  ultimately show ?thesis
    using hazard_certainty [OF assms, of _ now]
    by (fastforce simp: mapHazard_def joined_record_def)
qed

theorem sensor_snapshot_sound_witness:
  "\<exists>s. sensor_getActiveSnapshot id (\<lambda>_ _. True) (\<lambda>_ _. True) (Some (Date 3000)) (Date 3000) sample_db =
     (Inr s, sample_db) \<and> length (sn_hazards s) = 1"
  using sensor_snapshot_sound [OF sample_store_ok, of id "\<lambda>_ _. True" "\<lambda>_ _. True" "Date 3000" "Date 3000"]
  by (auto simp: sample_db_def dict_values_def sample_deployment_def)

text \<open>
  Whichever provider is configured, the risk of a route computed from its snapshot has score
  and confidence between 0 and 1: from the simulation in every reachable state and from the
  sensors on every well-formed store.
\<close>

theorem snapshot_risk_in_unit:
  assumes "snapshot = im_getActiveSnapshot p (Date now) \<and> provider_reachable dateParse (p, now) \<or>
      sensor_getActiveSnapshot sha256hex locale_le node_le (Some (Date now)) nowFn d = (Inr snapshot, d) \<and>
        store_ok d"
    and "int (length (sn_hazards snapshot)) \<le> 2 ^ 53"
  shows "let e = evaluateRoute M coordinates meters (sn_hazards snapshot)
      (Some (sn_snapshotId snapshot)) (sn_generatedAt snapshot) in
    in_unit (ev_score e) \<and> (\<exists>c. ev_confidence e = Some c \<and> in_unit c)"
  using assms(1)
proof (elim disjE conjE)
  assume "snapshot = im_getActiveSnapshot p (Date now)" "provider_reachable dateParse (p, now)"
  with simulation.score_in_unit [of p "Date now" M coordinates meters] assms(2) reachable_inv
  show ?thesis by (force simp: simulation.snapshot_risk_def provider_inv_def Let_def)
next
  assume ok: "store_ok d"
    and "sensor_getActiveSnapshot sha256hex locale_le node_le (Some (Date now)) nowFn d = (Inr snapshot, d)"
  then have snap: "snapshot = records_snapshot sha256hex locale_le (map (joined_record d)
      (sort_by (\<lambda>a b. node_le (dep_nodeId a) (dep_nodeId b)) (dict_values (db_deployments d)))) (Date now)"
    using snapshot_total(1) [OF ok, of sha256hex locale_le node_le "Some (Date now)" nowFn] by simp
  with sensors.score_in_unit [OF snapshot_total(2) [OF ok, of node_le], of sha256hex locale_le "Date now" M
      coordinates meters] assms(2)
  show ?thesis by (simp add: sensors.snapshot_risk_def Let_def)
qed

theorem snapshot_risk_in_unit_witness:
  "\<exists>s. sensor_getActiveSnapshot id (\<lambda>_ _. True) (\<lambda>_ _. True) (Some (Date 3000)) (Date 3000) sample_db =
     (Inr s, sample_db) \<and>
     in_unit (ev_score (evaluateRoute sample_math [(Fin 1, Fin 1), (Fin 2, Fin 2)] (Fin 100) (sn_hazards s)
       (Some (sn_snapshotId s)) (sn_generatedAt s)))"
proof -
  let ?get = "sensor_getActiveSnapshot id (\<lambda>_ _. True) (\<lambda>_ _. True) (Some (Date 3000)) (Date 3000) sample_db"
  note total = snapshot_total(1) [OF sample_store_ok, of id "\<lambda>_ _. True" "\<lambda>_ _. True" "Some (Date 3000)" "Date 3000"]
  then obtain s where s: "?get = (Inr s, sample_db)" by blast
  with total have "length (sn_hazards s) \<le> 1"
    by (auto simp: records_snapshot_def sensor_snapshot_def sample_db_def dict_values_def Let_def)
  then have "int (length (sn_hazards s)) \<le> 2 ^ 53" by simp
  with snapshot_risk_in_unit [of s _ 3000 _ id "\<lambda>_ _. True" "\<lambda>_ _. True" "Date 3000" sample_db] s sample_store_ok
  show ?thesis by (auto simp: Let_def)
qed

end
