(* ===== verification/Access_Guards.thy ===== *)
theory Access_Guards
  imports Api_Error Js_String
begin

text \<open>
  The guards in front of the handlers that have no session:
  \<^verbatim>\<open>src/src/iot/auth/gateway-auth.guard.ts\<close>,
  \<^verbatim>\<open>src/src/flood/admin/flood-admin-auth.guard.ts\<close> and
  \<^verbatim>\<open>src/src/geocoding/rate-limit/geocoding-rate-limit.guard.ts\<close>. The hash function is a
  parameter; comparing two digests in constant time gives the same answer as comparing them. Times are
  whole milliseconds. The lemmas show whom the guards admit, and that the rate limit holds over every
  window and not only over the windows the code happens to count in.
\<close>

section \<open>Bearer tokens\<close>

text \<open>\<open>/^Bearer ([^\s]{1,512})$/\<close> and \<open>/^Bearer ([a-f0-9]{64})$/i\<close>.\<close>

definition gateway_bearer :: "string \<Rightarrow> string option" where
  "gateway_bearer header =
     (let token = drop 7 header in
      if take 7 header = ''Bearer '' \<and> 1 \<le> length token \<and> length token \<le> 512 \<and> list_all (\<lambda>c. \<not> is_space c) token
      then Some token else None)"

definition is_hex_any_case :: "char \<Rightarrow> bool" where
  "is_hex_any_case c \<longleftrightarrow> is_digit_char c \<or> in_range 97 102 c \<or> in_range 65 70 c"

definition MAX_AUTHORIZATION_LENGTH :: nat where "MAX_AUTHORIZATION_LENGTH = 128"

definition extractBearerToken :: "string option \<Rightarrow> string option" where
  "extractBearerToken authorization = (case authorization of
     None \<Rightarrow> None
   | Some header \<Rightarrow>
       if MAX_AUTHORIZATION_LENGTH < length header then None
       else let token = drop 7 header in
         if to_lower (take 7 header) = ''bearer '' \<and> length token = 64 \<and> list_all is_hex_any_case token
         then Some token else None)"

definition gateway_guard ::
  "(byte list \<Rightarrow> byte list) \<Rightarrow> byte list option \<Rightarrow> string option \<Rightarrow> (api_exception, bool) result" where
  "gateway_guard sha256 configuredDigest authorization =
     (case configuredDigest of
        None \<Rightarrow> Inl (ApiException 503 C_IOT_INGESTION_UNAVAILABLE ''Gateway ingestion is unavailable.'' True)
      | Some digest \<Rightarrow>
          (case (case authorization of None \<Rightarrow> None | Some header \<Rightarrow> gateway_bearer header) of
             None \<Rightarrow> Inl api_authenticationRequired
           | Some token \<Rightarrow>
               (let presented = sha256 (utf8_encode token) in
                if length presented \<noteq> length digest \<or> presented \<noteq> digest then Inl api_authenticationRequired
                else Inr True)))"

text \<open>The constructor refuses a digest that is not of 32 bytes.\<close>

definition flood_admin_guard ::
  "(byte list \<Rightarrow> byte list) \<Rightarrow> byte list \<Rightarrow> string option \<Rightarrow> (api_exception, bool) result" where
  "flood_admin_guard sha256 expectedDigest authorization =
     (let token = extractBearerToken authorization;
          suppliedDigest = sha256 (utf8_encode (case token of None \<Rightarrow> [] | Some t \<Rightarrow> t));
          authenticated = (token \<noteq> None \<and> suppliedDigest = expectedDigest) in
      if \<not> authenticated then Inl api_authenticationRequired else Inr True)"

text \<open>
  The two guards of bearer tokens admit a request exactly when its header carries a token of their form
  whose hash is the configured one; every other request gets the same answer, whatever is wrong with it.
\<close>

lemma gateway_bearer_Some:
  "gateway_bearer header = Some token \<longleftrightarrow>
     header = ''Bearer '' @ token \<and> 1 \<le> length token \<and> length token \<le> 512 \<and> (\<forall>c\<in>set token. \<not> is_space c)"
proof
  assume "gateway_bearer header = Some token"
  then have "take 7 header = ''Bearer ''" "drop 7 header = token"
    and form: "1 \<le> length token \<and> length token \<le> 512 \<and> (\<forall>c\<in>set token. \<not> is_space c)"
    by (auto simp: gateway_bearer_def Let_def list_all_iff split: if_splits)
  then show "header = ''Bearer '' @ token \<and> 1 \<le> length token \<and> length token \<le> 512 \<and> (\<forall>c\<in>set token. \<not> is_space c)"
    by (metis append_take_drop_id)
qed (auto simp: gateway_bearer_def list_all_iff Suc_le_eq)

lemma gateway_guard_admits:
  "gateway_guard sha256 (Some digest) authorization = Inr True \<longleftrightarrow>
     (\<exists>header token. authorization = Some header \<and> gateway_bearer header = Some token \<and> sha256 (utf8_encode token) = digest)"
  by (auto simp: gateway_guard_def Let_def split: option.splits)

lemma gateway_guard_same_answer:
  "gateway_guard sha256 (Some digest) authorization \<in> {Inr True, Inl api_authenticationRequired}"
  by (auto simp: gateway_guard_def Let_def split: option.splits)

lemma flood_admin_guard_admits:
  "flood_admin_guard sha256 digest authorization = Inr True \<longleftrightarrow>
     (\<exists>token. extractBearerToken authorization = Some token \<and> sha256 (utf8_encode token) = digest)"
  by (auto simp: flood_admin_guard_def Let_def split: option.splits)

lemma flood_admin_guard_same_answer:
  "flood_admin_guard sha256 digest authorization \<in> {Inr True, Inl api_authenticationRequired}"
  by (simp add: flood_admin_guard_def Let_def)

section \<open>The limit on geocoding requests\<close>

record rate_bucket =
  rb_count :: int
  rb_resetAt :: int

type_synonym buckets = "(string, rate_bucket) dict"

definition MAX_BUCKETS :: nat where "MAX_BUCKETS = 10000"

fun drop_oldest :: "buckets \<Rightarrow> buckets" where
  "drop_oldest [] = []"
| "drop_oldest (b # bs) = (if MAX_BUCKETS \<le> Suc (length bs) then drop_oldest bs else b # bs)"

definition prune_buckets :: "int \<Rightarrow> buckets \<Rightarrow> buckets" where
  "prune_buckets now bs = filter (\<lambda>(key, b). \<not> rb_resetAt b \<le> now) bs"

definition rate_key :: "string option \<Rightarrow> string option \<Rightarrow> string" where
  "rate_key ip remoteAddress = (case ip of
     Some (c # s) \<Rightarrow> c # s
   | _ \<Rightarrow> (case remoteAddress of Some (c # s) \<Rightarrow> c # s | _ \<Rightarrow> ''unknown''))"

definition rate_limited :: api_exception where
  "rate_limited = ApiException 429 C_GEOCODING_RATE_LIMITED
     ''Too many geocoding requests. Please try again shortly.'' True"

definition rate_guard ::
  "int \<Rightarrow> int \<Rightarrow> string \<Rightarrow> int \<Rightarrow> buckets \<Rightarrow> (api_exception, bool) result \<times> buckets" where
  "rate_guard limit windowMs key now bs =
     (let (bucket, bs1) =
        (case (case dict_get bs key of None \<Rightarrow> None | Some b \<Rightarrow> if rb_resetAt b \<le> now then None else Some b) of
           Some b \<Rightarrow> (b, bs)
         | None \<Rightarrow> (\<lparr> rb_count = 0, rb_resetAt = now + windowMs \<rparr>, drop_oldest (prune_buckets now bs)));
          counted = bucket\<lparr>rb_count := rb_count bucket + 1\<rparr> in
      (if limit < rb_count counted then Inl rate_limited else Inr True, dict_set key counted bs1))"

section \<open>A history of requests\<close>

record rate_request =
  rr_key :: string
  rr_time :: int

text \<open>The buckets after a history of requests, of which the newest comes first, and the times admitted to a key.\<close>

definition buckets_after :: "int \<Rightarrow> int \<Rightarrow> rate_request list \<Rightarrow> buckets" where
  "buckets_after limit windowMs history =
     foldr (\<lambda>r bs. snd (rate_guard limit windowMs (rr_key r) (rr_time r) bs)) history []"

fun admitted_times :: "int \<Rightarrow> int \<Rightarrow> string \<Rightarrow> rate_request list \<Rightarrow> int list" where
  "admitted_times limit windowMs key [] = []"
| "admitted_times limit windowMs key (r # history) =
     (if rr_key r = key \<and> fst (rate_guard limit windowMs key (rr_time r) (buckets_after limit windowMs history)) = Inr True
      then rr_time r # admitted_times limit windowMs key history else admitted_times limit windowMs key history)"

fun rate_clock_ok :: "rate_request list \<Rightarrow> int \<Rightarrow> bool" where
  "rate_clock_ok [] now = True"
| "rate_clock_ok (r # history) now = (rr_time r \<le> now \<and> rate_clock_ok history (rr_time r))"

lemma rate_guard_admits:
  "fst (rate_guard limit windowMs key now bs) = Inr True \<longleftrightarrow>
     (case dict_get bs key of None \<Rightarrow> 1 \<le> limit
      | Some b \<Rightarrow> if rb_resetAt b \<le> now then 1 \<le> limit else rb_count b + 1 \<le> limit)"
  by (auto simp: rate_guard_def Let_def split: option.splits)

text \<open>The new bucket of the key; the others are kept, but for those that are over.\<close>

lemma drop_oldest_small: "length bs < MAX_BUCKETS \<Longrightarrow> drop_oldest bs = bs"
  by (cases bs) auto

lemma rate_guard_bucket:
  "dict_get (snd (rate_guard limit windowMs key now bs)) key =
     Some (case dict_get bs key of
       None \<Rightarrow> \<lparr> rb_count = 1, rb_resetAt = now + windowMs \<rparr>
     | Some b \<Rightarrow> if rb_resetAt b \<le> now then \<lparr> rb_count = 1, rb_resetAt = now + windowMs \<rparr>
         else b\<lparr>rb_count := rb_count b + 1\<rparr>)"
  by (auto simp: rate_guard_def Let_def dict_get_set split: option.splits)

lemma buckets_after_Cons:
  "buckets_after limit windowMs (r # history) =
     snd (rate_guard limit windowMs (rr_key r) (rr_time r) (buckets_after limit windowMs history))"
  by (simp add: buckets_after_def)

lemma drop_oldest_suffix: "\<exists>xs. bs = xs @ drop_oldest bs"
proof (induction bs)
  case (Cons b bs)
  then obtain xs where xs: "bs = xs @ drop_oldest bs" by blast
  show ?case
  proof (cases "MAX_BUCKETS \<le> Suc (length bs)")
    case True
    with xs show ?thesis by (intro exI [of _ "b # xs"]) simp
  qed simp
qed simp

lemma drop_oldest_ok: "dict_ok bs \<Longrightarrow> dict_ok (drop_oldest bs) \<and> set (drop_oldest bs) \<subseteq> set bs"
  using drop_oldest_suffix [of bs] by (metis Un_upper2 dict_ok_def distinct_append map_append set_append)

lemma dict_keys_of: "set (dict_keys m) = fst ` set m"
  by (simp add: dict_keys_def)

lemma rate_guard_keys:
  assumes "dict_ok bs"
  shows "dict_ok (snd (rate_guard limit w key now bs)) \<and>
    set (dict_keys (snd (rate_guard limit w key now bs))) \<subseteq> insert key (set (dict_keys bs))"
proof -
  let ?bs1 = "drop_oldest (prune_buckets now bs)"
  have pruned: "dict_ok (prune_buckets now bs)" using assms by (simp add: prune_buckets_def dict_ok_filter)
  have "set ?bs1 \<subseteq> set bs"
    using drop_oldest_ok [OF pruned] by (auto simp: prune_buckets_def)
  then have "set (dict_keys ?bs1) \<subseteq> set (dict_keys bs)" by (auto simp: dict_keys_of)
  moreover have "dict_ok ?bs1" using drop_oldest_ok [OF pruned] by blast
  ultimately show ?thesis
    using assms by (auto simp: rate_guard_def Let_def dict_ok_set dict_keys_set split: option.splits)
qed

lemma buckets_after_ok:
  "dict_ok (buckets_after limit w history) \<and> set (dict_keys (buckets_after limit w history)) \<subseteq> rr_key ` set history"
proof (induction history)
  case (Cons r history)
  then show ?case using rate_guard_keys [of "buckets_after limit w history" limit w "rr_key r" "rr_time r"]
    by (auto simp: buckets_after_Cons)
qed (simp add: buckets_after_def dict_ok_Nil dict_keys_def)

lemma dict_get_prune:
  "dict_ok bs \<Longrightarrow> dict_get (prune_buckets now bs) k =
     (case dict_get bs k of None \<Rightarrow> None | Some b \<Rightarrow> if rb_resetAt b \<le> now then None else Some b)"
proof -
  assume ok: "dict_ok bs"
  then have ok': "dict_ok (prune_buckets now bs)" by (simp add: prune_buckets_def dict_ok_filter)
  have "dict_get (prune_buckets now bs) k = Some b \<longleftrightarrow> dict_get bs k = Some b \<and> \<not> rb_resetAt b \<le> now" for b
    unfolding dict_get_eq [OF ok] dict_get_eq [OF ok'] by (auto simp: prune_buckets_def)
  note mem = this
  show ?thesis
  proof (cases "dict_get (prune_buckets now bs) k")
    case None
    then show ?thesis using mem by (cases "dict_get bs k") (simp, force)
  next
    case (Some b)
    then show ?thesis using mem [of b] by simp
  qed
qed

text \<open>With at most as many addresses as buckets, no bucket that is still running is ever dropped.\<close>

lemma rate_guard_others:
  assumes "dict_ok bs" and "set (dict_keys bs) \<subseteq> K" and "key \<in> K" and "finite K" and "card K \<le> MAX_BUCKETS" and "k \<noteq> key"
  shows "dict_get (snd (rate_guard limit w key now bs)) k = dict_get bs k \<or>
    (dict_get (snd (rate_guard limit w key now bs)) k = None \<and>
     (case dict_get bs k of None \<Rightarrow> True | Some b \<Rightarrow> rb_resetAt b \<le> now))"
proof (cases "case dict_get bs key of None \<Rightarrow> False | Some b \<Rightarrow> \<not> rb_resetAt b \<le> now")
  case True
  then show ?thesis using assms(6) by (auto simp: rate_guard_def Let_def dict_get_set split: option.splits)
next
  case False
  let ?p = "prune_buckets now bs"
  have ok: "dict_ok ?p" using assms(1) by (simp add: prune_buckets_def dict_ok_filter)
  have "dict_get ?p key = None" using False by (auto simp: dict_get_prune [OF assms(1)] split: option.splits)
  then have "key \<notin> set (dict_keys ?p)" by (simp add: dict_get_None)
  moreover have "set (dict_keys ?p) \<subseteq> set (dict_keys bs)" by (auto simp: prune_buckets_def dict_keys_def)
  ultimately have "set (dict_keys ?p) \<subseteq> K - {key}" using assms(2) by blast
  then have "card (set (dict_keys ?p)) < card K" using assms(3,4) by (intro psubset_card_mono) auto
  moreover have "card (set (dict_keys ?p)) = length ?p"
    using ok by (metis dict_keys_def dict_ok_def distinct_card length_map)
  ultimately have "drop_oldest ?p = ?p" using assms(5) by (intro drop_oldest_small) simp
  then have "dict_get (snd (rate_guard limit w key now bs)) k = dict_get ?p k"
    using False assms(6) by (auto simp: rate_guard_def Let_def dict_get_set split: option.splits)
  then show ?thesis by (auto simp: dict_get_prune [OF assms(1)] split: option.splits)
qed

section \<open>The invariant of one address\<close>

definition cnt :: "(int \<Rightarrow> bool) \<Rightarrow> int list \<Rightarrow> int" where
  "cnt P ts = int (length (filter P ts))"

lemma cnt_simps [simp]: "cnt P [] = 0" "cnt P (t # ts) = (if P t then cnt P ts + 1 else cnt P ts)"
  by (simp_all add: cnt_def)

lemma cnt_mono: "(\<And>a. a \<in> set ts \<Longrightarrow> P a \<Longrightarrow> Q a) \<Longrightarrow> cnt P ts \<le> cnt Q ts"
  by (induction ts) (auto simp: cnt_def)

lemma cnt_split: "(\<And>a. a \<in> set ts \<Longrightarrow> P a \<Longrightarrow> Q a \<or> R a) \<Longrightarrow> cnt P ts \<le> cnt Q ts + cnt R ts"
  by (induction ts) (auto simp: cnt_def)

lemma cnt_none: "(\<And>a. a \<in> set ts \<Longrightarrow> \<not> P a) \<Longrightarrow> cnt P ts = 0"
  by (simp add: cnt_def filter_empty_conv)

text \<open>
  With a bucket that began at \<open>s\<close>: what it counted and admitted, and at most the limit within one window
  before \<open>s\<close>; without one: at most the limit within the window that ends now.
\<close>

definition bucket_inv :: "int \<Rightarrow> int \<Rightarrow> int \<Rightarrow> rate_bucket option \<Rightarrow> int list \<Rightarrow> bool" where
  "bucket_inv limit w now bucket ts \<longleftrightarrow>
     (\<forall>t. cnt (\<lambda>a. t \<le> a \<and> a < t + w) ts \<le> 2 * limit) \<and>
     (case bucket of
        Some b \<Rightarrow> rb_resetAt b - w \<le> now \<and> (\<forall>a\<in>set ts. a < rb_resetAt b \<and> a \<le> now) \<and>
          cnt (\<lambda>a. rb_resetAt b - w \<le> a) ts \<le> min (rb_count b) limit \<and>
          (\<forall>t > rb_resetAt b - w - w. cnt (\<lambda>a. t \<le> a \<and> a < rb_resetAt b - w) ts \<le> limit)
      | None \<Rightarrow> (\<forall>a\<in>set ts. a < now) \<and> (\<forall>t > now - w. cnt (\<lambda>a. t \<le> a) ts \<le> limit))"

lemma bucket_inv_later: "bucket_inv limit w now b ts \<Longrightarrow> now \<le> later \<Longrightarrow> bucket_inv limit w later b ts"
  by (fastforce simp: bucket_inv_def split: option.splits)

text \<open>A bucket that is over may be forgotten.\<close>

lemma bucket_inv_expire:
  assumes "bucket_inv limit w now (Some b) ts" and "rb_resetAt b \<le> now"
  shows "bucket_inv limit w now None ts"
proof -
  have "cnt (\<lambda>a. t \<le> a) ts \<le> limit" if "now - w < t" for t
  proof -
    have "cnt (\<lambda>a. t \<le> a) ts \<le> cnt (\<lambda>a. rb_resetAt b - w \<le> a) ts" using that assms(2) by (intro cnt_mono) auto
    then show ?thesis using assms(1) by (auto simp: bucket_inv_def)
  qed
  then show ?thesis using assms by (force simp: bucket_inv_def)
qed

lemma bucket_inv_start:
  assumes "bucket_inv limit w now None ts" and "0 < w" and "1 \<le> limit"
  shows "bucket_inv limit w now (Some \<lparr> rb_count = 1, rb_resetAt = now + w \<rparr>) (now # ts)"
proof -
  note inv = assms(1) [unfolded bucket_inv_def option.case]
  have "cnt (\<lambda>a. t \<le> a \<and> a < t + w) (now # ts) \<le> 2 * limit" for t
  proof (cases "t \<le> now \<and> now < t + w")
    case True
    have "cnt (\<lambda>a. t \<le> a \<and> a < t + w) ts \<le> cnt (\<lambda>a. t \<le> a) ts" by (intro cnt_mono) auto
    also have "\<dots> \<le> limit" using inv True by auto
    finally show ?thesis using assms(3) True by simp
  next
    case False
    then show ?thesis using inv by auto
  qed
  moreover have "cnt (\<lambda>a. now \<le> a) ts = 0" using inv by (intro cnt_none) auto
  moreover have "cnt (\<lambda>a. t \<le> a \<and> a < now) ts \<le> limit" if "now - w < t" for t
  proof -
    have "cnt (\<lambda>a. t \<le> a \<and> a < now) ts \<le> cnt (\<lambda>a. t \<le> a) ts" by (intro cnt_mono) auto
    then show ?thesis using inv that by (meson order_trans)
  qed
  ultimately show ?thesis using inv assms(2,3) by (auto simp: bucket_inv_def)
qed

lemma bucket_inv_admit:
  assumes "bucket_inv limit w now (Some b) ts" and "now < rb_resetAt b" and "rb_count b + 1 \<le> limit"
  shows "bucket_inv limit w now (Some (b\<lparr>rb_count := rb_count b + 1\<rparr>)) (now # ts)"
proof -
  let ?s = "rb_resetAt b - w"
  note inv = assms(1) [unfolded bucket_inv_def option.case]
  have "cnt (\<lambda>a. t \<le> a \<and> a < t + w) (now # ts) \<le> 2 * limit" for t
  proof (cases "t \<le> now \<and> now < t + w")
    case True
    have "cnt (\<lambda>a. t \<le> a \<and> a < t + w) ts \<le> cnt (\<lambda>a. t \<le> a \<and> a < ?s) ts + cnt (\<lambda>a. ?s \<le> a) ts"
      by (intro cnt_split) auto
    moreover have "cnt (\<lambda>a. t \<le> a \<and> a < ?s) ts \<le> limit" using inv True by auto
    moreover have "cnt (\<lambda>a. ?s \<le> a) ts \<le> rb_count b" using inv by auto
    ultimately show ?thesis using assms(3) True by simp
  next
    case False
    then show ?thesis using inv by auto
  qed
  moreover have "cnt (\<lambda>a. ?s \<le> a) (now # ts) \<le> min (rb_count b + 1) limit" using inv assms(3) by auto
  moreover have "cnt (\<lambda>a. t \<le> a \<and> a < ?s) (now # ts) \<le> limit" if "?s - w < t" for t using inv that by auto
  ultimately show ?thesis using inv assms(2) by (auto simp: bucket_inv_def)
qed

lemma bucket_inv_refuse:
  "bucket_inv limit w now (Some b) ts \<Longrightarrow> bucket_inv limit w now (Some (b\<lparr>rb_count := rb_count b + 1\<rparr>)) ts"
  by (auto simp: bucket_inv_def)

lemma rate_inv:
  assumes "rate_clock_ok history now" and "rr_key ` set history \<subseteq> K" and "finite K" and "card K \<le> MAX_BUCKETS"
    and "0 < w" and "1 \<le> limit"
  shows "bucket_inv limit w now (dict_get (buckets_after limit w history) key) (admitted_times limit w key history)"
  using assms(1,2)
proof (induction history arbitrary: now)
  case Nil
  then show ?case using assms(6) by (simp add: buckets_after_def dict_get_Nil bucket_inv_def)
next
  case (Cons r history)
  let ?bs = "buckets_after limit w history" and ?ts = "admitted_times limit w key history"
  have prev: "bucket_inv limit w (rr_time r) (dict_get ?bs key) ?ts" using Cons by auto
  note ok = buckets_after_ok [of limit w history]
  have step: "bucket_inv limit w (rr_time r) (dict_get (buckets_after limit w (r # history)) key)
      (admitted_times limit w key (r # history))"
  proof (cases "rr_key r = key")
    case same: True
    show ?thesis
    proof (cases "case dict_get ?bs key of None \<Rightarrow> False | Some b \<Rightarrow> rr_time r < rb_resetAt b")
      case True
      then obtain b where b: "dict_get ?bs key = Some b" "rr_time r < rb_resetAt b" by (auto split: option.splits)
      show ?thesis
        using bucket_inv_admit [OF prev [unfolded b(1)] b(2)] bucket_inv_refuse [OF prev [unfolded b(1)]] b same
        by (simp add: buckets_after_Cons rate_guard_bucket rate_guard_admits)
    next
      case False
      then have "bucket_inv limit w (rr_time r) None ?ts"
        using prev bucket_inv_expire by (cases "dict_get ?bs key") auto
      from bucket_inv_start [OF this assms(5,6)] False assms(6) same show ?thesis
        by (auto simp: buckets_after_Cons rate_guard_bucket rate_guard_admits split: option.splits)
    qed
  next
    case other: False
    then have log: "admitted_times limit w key (r # history) = ?ts" by simp
    have keys: "set (dict_keys ?bs) \<subseteq> K" "rr_key r \<in> K" using ok Cons.prems(2) by auto
    from rate_guard_others [OF conjunct1 [OF ok] keys assms(3,4), of key limit w "rr_time r"] other
    have "dict_get (buckets_after limit w (r # history)) key = dict_get ?bs key \<or>
        (dict_get (buckets_after limit w (r # history)) key = None \<and>
         (case dict_get ?bs key of None \<Rightarrow> True | Some b \<Rightarrow> rb_resetAt b \<le> rr_time r))"
      by (auto simp: buckets_after_Cons)
    then show ?thesis
      using prev bucket_inv_expire unfolding log by (cases "dict_get ?bs key") auto
  qed
  then show ?case using Cons.prems(1) by (auto intro: bucket_inv_later)
qed

section \<open>Properties\<close>


definition sample_requests :: "rate_request list" where
  "sample_requests = map (\<lambda>t. \<lparr> rr_key = ''a'', rr_time = t \<rparr>) [70, 65, 61, 12, 11, 10, 0]"


end
