(* ===== verification/Flood_Api.thy ===== *)
theory Flood_Api
  imports Hazard_Providers Dto_Rules Configuration Access_Guards Js_Date
begin

text \<open>
  The requests for flood hazards: the public one,
  \<^verbatim>\<open>src/src/flood/flood.controller.ts\<close> with the rules and the shape of its answer under
  \<^verbatim>\<open>src/src/flood/dto/\<close>, and those of the simulation,
  \<^verbatim>\<open>src/src/flood/admin/flood-admin.controller.ts\<close> and
  \<^verbatim>\<open>src/src/flood/dev/dev-flood.controller.ts\<close>. The lemmas show that the filter by a bounding box
  never hides a hazard that reaches into the box, and that no administrator changes the simulation
  without an entry in the audit log.
\<close>

section \<open>The bounding box\<close>

definition bbox_rule :: "string \<Rightarrow> int \<Rightarrow> int \<Rightarrow> field_rule" where
  "bbox_rule name lower upper = \<lparr> ru_field = name, ru_optional = True, ru_number = True,
     ru_constraints = [IsNumber, MinOf lower, MaxOf upper], ru_nullable = True,
     ru_minimum = Some lower, ru_maximum = Some upper \<rparr>"

definition FloodHazardsQueryDto :: "field_rule list" where
  "FloodHazardsQueryDto = [bbox_rule ''minLat'' (- 90) 90, bbox_rule ''minLon'' (- 180) 180,
     bbox_rule ''maxLat'' (- 90) 90, bbox_rule ''maxLon'' (- 180) 180]"

record bbox =
  bb_minLat :: jsnum
  bb_minLon :: jsnum
  bb_maxLat :: jsnum
  bb_maxLon :: jsnum

text \<open>\<open>Number\<close> of a value that the rules let through: a number, null or nothing.\<close>

fun query_number :: "jsval \<Rightarrow> jsnum" where
  "query_number (JNum x) = x"
| "query_number JNull = Fin 0"
| "query_number (JStr s) = number_of_string s"
| "query_number v = NaN"

definition bbox_invalid :: "string \<Rightarrow> string \<Rightarrow> (api_exception, bbox option) result" where
  "bbox_invalid field reason = Inl (api_validation [(field, reason)])"

definition bbox_filter :: "jsval \<Rightarrow> (api_exception, bbox option) result" where
  "bbox_filter query =
     (let bboxParams = map (jprop query) [''minLat'', ''minLon'', ''maxLat'', ''maxLon''];
          suppliedCount = length (filter (\<lambda>v. v \<noteq> JUndefined) bboxParams) in
      if 0 < suppliedCount \<and> suppliedCount < 4
      then bbox_invalid ''bbox''
        ''Must supply all four bounding box parameters (minLat, minLon, maxLat, maxLon) or omit all of them.''
      else if suppliedCount = 4 then
        let minLat = query_number (jprop query ''minLat''); minLon = query_number (jprop query ''minLon'');
            maxLat = query_number (jprop query ''maxLat''); maxLon = query_number (jprop query ''maxLon'') in
        if \<not> is_finite minLat \<or> \<not> is_finite minLon \<or> \<not> is_finite maxLat \<or> \<not> is_finite maxLon
        then bbox_invalid ''bbox'' ''Bounding box coordinates must be finite numbers.''
        else if js_le maxLat minLat then bbox_invalid ''minLat'' ''minLat must be strictly less than maxLat.''
        else if js_le maxLon minLon then bbox_invalid ''minLon'' ''minLon must be strictly less than maxLon.''
        else Inr (Some \<lparr> bb_minLat = minLat, bb_minLon = minLon, bb_maxLat = maxLat, bb_maxLon = maxLon \<rparr>)
      else Inr None)"

definition in_bbox :: "bbox \<Rightarrow> point \<Rightarrow> bool" where
  "in_bbox b p \<longleftrightarrow> js_le (bb_minLat b) (snd p) \<and> js_le (snd p) (bb_maxLat b) \<and>
     js_le (bb_minLon b) (fst p) \<and> js_le (fst p) (bb_maxLon b)"

definition envelope_step :: "bbox \<Rightarrow> point \<Rightarrow> bbox" where
  "envelope_step b p = \<lparr>
     bb_minLat = (if js_lt (snd p) (bb_minLat b) then snd p else bb_minLat b),
     bb_minLon = (if js_lt (fst p) (bb_minLon b) then fst p else bb_minLon b),
     bb_maxLat = (if js_lt (bb_maxLat b) (snd p) then snd p else bb_maxLat b),
     bb_maxLon = (if js_lt (bb_maxLon b) (fst p) then fst p else bb_maxLon b) \<rparr>"

definition envelope :: "polygon \<Rightarrow> bbox" where
  "envelope polygon = foldl (foldl envelope_step)
     \<lparr> bb_minLat = PInf, bb_minLon = PInf, bb_maxLat = NInf, bb_maxLon = NInf \<rparr> polygon"

definition hazardIntersectsBbox :: "flood_hazard \<Rightarrow> bbox \<Rightarrow> bool" where
  "hazardIntersectsBbox hazard b =
     (if list_ex (list_ex (in_bbox b)) (hz_geometry hazard) then True
      else let e = envelope (hz_geometry hazard) in
        js_le (bb_minLat e) (bb_maxLat b) \<and> js_le (bb_minLat b) (bb_maxLat e) \<and>
        js_le (bb_minLon e) (bb_maxLon b) \<and> js_le (bb_minLon b) (bb_maxLon e))"

section \<open>The public request\<close>

record hazard_properties =
  fp_riskLevel :: flood_level
  fp_confidence :: jsnum
  fp_description :: "string option"
  fp_observedAt :: "string option"
  fp_validUntil :: "string option"
  fp_source :: snapshot_source
  fp_sourceNodeIds :: "string list"
  fp_routingMultiplier :: jsnum
  fp_reasonCodes :: "string list"
  fp_freshness :: "freshness option"

record hazard_feature =
  hf_id :: string
  hf_properties :: hazard_properties
  hf_geometry :: polygon

record hazards_response =
  hr_snapshotId :: string
  hr_generatedAt :: string
  hr_validUntil :: "string option"
  hr_source :: snapshot_source
  hr_features :: "hazard_feature list"

datatype hazards_failure = HAZARDS_REFUSED api_exception | HAZARDS_UNAVAILABLE db_error | HAZARD_DATE_INVALID

definition hazard_time :: "js_date option \<Rightarrow> (hazards_failure, string option) result" where
  "hazard_time v = (case v of
     None \<Rightarrow> Inr None
   | Some t \<Rightarrow> (case toISOString t of None \<Rightarrow> Inl HAZARD_DATE_INVALID | Some s \<Rightarrow> Inr (Some s)))"

definition hazard_feature_of :: "snapshot_source \<Rightarrow> flood_hazard \<Rightarrow> (hazards_failure, hazard_feature) result" where
  "hazard_feature_of source h =
     res_bind (hazard_time (hz_observedAt h)) (\<lambda>observedAt.
     res_bind (hazard_time (hz_validUntil h)) (\<lambda>validUntil.
     Inr \<lparr> hf_id = hz_id h,
       hf_properties = \<lparr> fp_riskLevel = hz_level h, fp_confidence = hz_confidence h, fp_description = hz_description h,
         fp_observedAt = observedAt, fp_validUntil = validUntil, fp_source = source,
         fp_sourceNodeIds = hz_sourceNodeIds h, fp_routingMultiplier = hz_routingMultiplier h,
         fp_reasonCodes = (case hz_reasonCodes h of None \<Rightarrow> [] | Some cs \<Rightarrow> cs), fp_freshness = hz_freshness h \<rparr>,
       hf_geometry = hz_geometry h \<rparr>))"

definition hazards_of :: "bbox option \<Rightarrow> flood_hazard list \<Rightarrow> flood_hazard list" where
  "hazards_of filterBox hazards = (case filterBox of
     None \<Rightarrow> hazards | Some b \<Rightarrow> filter (\<lambda>h. hazardIntersectsBbox h b) hazards)"

definition getActiveHazards ::
  "validator_env \<Rightarrow> (db_error, hazard_snapshot) result \<Rightarrow> jsval \<Rightarrow> (hazards_failure, hazards_response) result" where
  "getActiveHazards E fetched rawQuery =
     (case validation_pipe E FloodHazardsQueryDto rawQuery of
        Inl e \<Rightarrow> Inl (HAZARDS_REFUSED e)
      | Inr query \<Rightarrow>
          (case bbox_filter query of
             Inl e \<Rightarrow> Inl (HAZARDS_REFUSED e)
           | Inr box \<Rightarrow>
               (case fetched of
                  Inl e \<Rightarrow> Inl (HAZARDS_UNAVAILABLE e)
                | Inr snapshot \<Rightarrow>
                    res_bind (traverse (hazard_feature_of (sn_source snapshot)) (hazards_of box (sn_hazards snapshot)))
                      (\<lambda>features.
                    res_bind (hazard_time (Some (sn_generatedAt snapshot))) (\<lambda>generatedAt.
                    res_bind (hazard_time (sn_validUntil snapshot)) (\<lambda>validUntil.
                    Inr \<lparr> hr_snapshotId = sn_snapshotId snapshot,
                      hr_generatedAt = (case generatedAt of None \<Rightarrow> [] | Some s \<Rightarrow> s),
                      hr_validUntil = validUntil, hr_source = sn_source snapshot, hr_features = features \<rparr>))))))"

section \<open>The simulation\<close>

text \<open>
  The requests of an administrator write one entry each into the audit log; those of the development
  controller do the same without the log.
\<close>

datatype audit_entry =
    AUDIT_ADD string flood_level
  | AUDIT_DELETE string
  | AUDIT_CLEAR nat
  | AUDIT_PRESET bool string nat

datatype simulation_answer =
    HAZARD_LIST "flood_hazard list"
  | HAZARD_CREATED flood_hazard
  | NO_CONTENT
  | PRESET_SNAPSHOT hazard_snapshot
  | HAZARD_REFUSED provider_error
  | HAZARD_NOT_FOUND string

record simulation_api =
  sa_provider :: in_memory_provider
  sa_audit :: "audit_entry list"

datatype simulation_request = ListHazards | AddHazard jsval | DeleteHazard string | ClearHazards | ActivatePreset bool

definition audited :: "audit_entry \<Rightarrow> in_memory_provider \<Rightarrow> simulation_api \<Rightarrow> simulation_api" where
  "audited entry p s = s\<lparr>sa_provider := p, sa_audit := sa_audit s @ [entry]\<rparr>"

fun flood_admin_request ::
  "(string \<Rightarrow> js_date) \<Rightarrow> js_date \<Rightarrow> simulation_request \<Rightarrow> simulation_api \<Rightarrow> simulation_answer \<times> simulation_api" where
  "flood_admin_request dateParse now ListHazards s = (HAZARD_LIST (listHazards now (sa_provider s)), s)"
| "flood_admin_request dateParse now (AddHazard body) s =
     (case addHazard dateParse now now body (sa_provider s) of
        Inl e \<Rightarrow> (HAZARD_REFUSED e, s)
      | Inr (hazard, p) \<Rightarrow> (HAZARD_CREATED hazard, audited (AUDIT_ADD (hz_id hazard) (hz_level hazard)) p s))"
| "flood_admin_request dateParse now (DeleteHazard i) s =
     (case removeHazard i (sa_provider s) of
        (removed, p) \<Rightarrow>
          if \<not> removed then (HAZARD_NOT_FOUND i, s\<lparr>sa_provider := p\<rparr>) else (NO_CONTENT, audited (AUDIT_DELETE i) p s))"
| "flood_admin_request dateParse now ClearHazards s =
     (let removedCount = length (listHazards now (sa_provider s)) in
      (NO_CONTENT, audited (AUDIT_CLEAR removedCount) (clearHazards (sa_provider s)) s))"
| "flood_admin_request dateParse now (ActivatePreset blocked) s =
     (case activateCentralCorridorPreset dateParse now now now blocked (sa_provider s) of
        Inl e \<Rightarrow> (HAZARD_REFUSED e, s)
      | Inr (snapshot, p) \<Rightarrow>
          (PRESET_SNAPSHOT snapshot,
           audited (AUDIT_PRESET blocked (sn_snapshotId snapshot) (length (sn_hazards snapshot))) p s))"

fun dev_flood_request ::
  "(string \<Rightarrow> js_date) \<Rightarrow> js_date \<Rightarrow> simulation_request \<Rightarrow> in_memory_provider \<Rightarrow> simulation_answer \<times> in_memory_provider" where
  "dev_flood_request dateParse now ListHazards p = (HAZARD_LIST (listHazards now p), p)"
| "dev_flood_request dateParse now (AddHazard body) p =
     (case addHazard dateParse now now body p of
        Inl e \<Rightarrow> (HAZARD_REFUSED e, p) | Inr (hazard, p') \<Rightarrow> (HAZARD_CREATED hazard, p'))"
| "dev_flood_request dateParse now (DeleteHazard i) p =
     (case removeHazard i p of (removed, p') \<Rightarrow> if \<not> removed then (HAZARD_NOT_FOUND i, p') else (NO_CONTENT, p'))"
| "dev_flood_request dateParse now ClearHazards p = (NO_CONTENT, clearHazards p)"
| "dev_flood_request dateParse now (ActivatePreset blocked) p =
     (case activateCentralCorridorPreset dateParse now now now blocked p of
        Inl e \<Rightarrow> (HAZARD_REFUSED e, p) | Inr (snapshot, p') \<Rightarrow> (PRESET_SNAPSHOT snapshot, p'))"

section \<open>The module\<close>

text \<open>
  The controllers that the module registers and the digest it gives the guard of the administrators;
  nothing when the digest is missing. \<open>Buffer.from(digest, 'hex')\<close> is a parameter.
\<close>

datatype flood_controller = FloodController | DevFloodController | SensorDeploymentAdminController | FloodAdminController

definition flood_module ::
  "(string \<Rightarrow> byte list) \<Rightarrow> flood_provider_choice option \<Rightarrow> app_config \<Rightarrow>
   (flood_controller list \<times> byte list option \<times> flood_provider_choice) option" where
  "flood_module hexBytes providerOverride config =
     (let selectedProvider = (case providerOverride of Some p \<Rightarrow> p | None \<Rightarrow> ac_floodProvider config);
          enableAdmin = fc_enableFloodAdminEndpoints (ac_floodAdmin config);
          controllers = FloodController #
            (if ac_enableDevFloodEndpoints config \<and> selectedProvider = Use_In_Memory then [DevFloodController] else []) @
            (if enableAdmin
             then SensorDeploymentAdminController #
               (if selectedProvider = Use_In_Memory then [FloodAdminController] else []) else []) in
      if enableAdmin then
        (case fc_floodAdminTokenSha256 (ac_floodAdmin config) of
           None \<Rightarrow> None
         | Some configuredDigest \<Rightarrow> Some (controllers, Some (hexBytes configuredDigest), selectedProvider))
      else Some (controllers, None, selectedProvider))"

text \<open>
  With a configuration the environment gives, the module always registers; the requests of administrators
  exist only with a digest for their guard, and those that change the simulation only when it is the source.
\<close>

lemma flood_module_registers:
  assumes "readConfiguration parseUrl readFile jsonParse env = Inr config"
  shows "\<exists>controllers digest selected. flood_module hexBytes override config = Some (controllers, digest, selected) \<and>
    (SensorDeploymentAdminController \<in> set controllers \<or> FloodAdminController \<in> set controllers \<longrightarrow>
      (\<exists>d. digest = Some (hexBytes d) \<and> is_sha256_hex d)) \<and>
    (DevFloodController \<in> set controllers \<or> FloodAdminController \<in> set controllers \<longrightarrow> selected = Use_In_Memory)"
  using configuration_bounds(4,5) [OF assms]
  by (cases "fc_floodAdminTokenSha256 (ac_floodAdmin config)") (auto simp: flood_module_def Let_def split: option.splits)

section \<open>Every change is logged\<close>

text \<open>
  A request of an administrator changes the simulation as the same request to the development controller
  does, and if it changes it, it writes one entry; what it refuses leaves both as they were.
\<close>

lemma admin_as_dev:
  "dev_flood_request dateParse now request (sa_provider s) =
     (fst (flood_admin_request dateParse now request s), sa_provider (snd (flood_admin_request dateParse now request s)))"
  by (cases request) (auto simp: audited_def Let_def split: sum.splits prod.splits)

lemma changes_are_logged:
  assumes "flood_admin_request dateParse now request s = (answer, s')"
  shows "s' = s \<or> (\<exists>entry. sa_audit s' = sa_audit s @ [entry])"
    and "sa_provider s' \<noteq> sa_provider s \<Longrightarrow> \<exists>entry. sa_audit s' = sa_audit s @ [entry]"
    and "(\<exists>e. answer = HAZARD_REFUSED e) \<or> (\<exists>i. answer = HAZARD_NOT_FOUND i) \<or> (\<exists>hs. answer = HAZARD_LIST hs) \<Longrightarrow> s' = s"
  using assms by (cases request; auto simp: audited_def removeHazard_def split: sum.splits prod.splits if_splits)+

definition audit_run :: "(string \<Rightarrow> js_date) \<Rightarrow> (js_date \<times> simulation_request) list \<Rightarrow> simulation_api \<Rightarrow> simulation_api" where
  "audit_run dateParse requests s = foldl (\<lambda>s (now, r). snd (flood_admin_request dateParse now r s)) s requests"

text \<open>So the simulation is as it was when the log is as it was.\<close>

lemma audit_run_logged:
  "\<exists>entries. sa_audit (audit_run dateParse requests s) = sa_audit s @ entries \<and>
     (entries = [] \<longrightarrow> sa_provider (audit_run dateParse requests s) = sa_provider s)"
proof (induction requests arbitrary: s)
  case (Cons r requests)
  obtain now q where r: "r = (now, q)" by (cases r)
  obtain answer s' where run: "flood_admin_request dateParse now q s = (answer, s')" by (cases "flood_admin_request dateParse now q s")
  obtain entries where e: "sa_audit (audit_run dateParse requests s') = sa_audit s' @ entries"
    "entries = [] \<longrightarrow> sa_provider (audit_run dateParse requests s') = sa_provider s'"
    using Cons by blast
  have next_state: "audit_run dateParse (r # requests) s = audit_run dateParse requests s'"
    by (simp add: audit_run_def r run)
  show ?case
  proof (cases "s' = s")
    case True
    with e next_state show ?thesis by auto
  next
    case False
    then obtain entry where "sa_audit s' = sa_audit s @ [entry]" using changes_are_logged(1) [OF run] by blast
    with e next_state show ?thesis by simp
  qed
qed (simp add: audit_run_def)

section \<open>The envelope of a polygon\<close>

definition least :: "jsnum \<Rightarrow> jsnum list \<Rightarrow> jsnum" where
  "least = foldl (\<lambda>m y. if js_lt y m then y else m)"

definition greatest :: "jsnum \<Rightarrow> jsnum list \<Rightarrow> jsnum" where
  "greatest = foldl (\<lambda>m y. if js_lt m y then y else m)"

lemma least_le:
  "m \<noteq> NaN \<Longrightarrow> NaN \<notin> set ys \<Longrightarrow> js_le (least m ys) (Fin c) \<longleftrightarrow> js_le m (Fin c) \<or> (\<exists>y\<in>set ys. js_le y (Fin c))"
proof (induction ys arbitrary: m)
  case (Cons y ys)
  have "js_le (if js_lt y m then y else m) (Fin c) \<longleftrightarrow> js_le m (Fin c) \<or> js_le y (Fin c)"
    using Cons.prems by (cases m; cases y) (auto simp: js_le_def)
  with Cons show ?case by (auto simp: least_def)
qed (simp add: least_def)

lemma greatest_ge:
  "m \<noteq> NaN \<Longrightarrow> NaN \<notin> set ys \<Longrightarrow> js_le (Fin c) (greatest m ys) \<longleftrightarrow> js_le (Fin c) m \<or> (\<exists>y\<in>set ys. js_le (Fin c) y)"
proof (induction ys arbitrary: m)
  case (Cons y ys)
  have "js_le (Fin c) (if js_lt m y then y else m) \<longleftrightarrow> js_le (Fin c) m \<or> js_le (Fin c) y"
    using Cons.prems by (cases m; cases y) (auto simp: js_le_def)
  with Cons show ?case by (auto simp: greatest_def)
qed (simp add: greatest_def)

lemma envelope_fold:
  "foldl envelope_step b ps = \<lparr> bb_minLat = least (bb_minLat b) (map snd ps), bb_minLon = least (bb_minLon b) (map fst ps),
     bb_maxLat = greatest (bb_maxLat b) (map snd ps), bb_maxLon = greatest (bb_maxLon b) (map fst ps) \<rparr>"
  by (induction ps arbitrary: b) (simp_all add: envelope_step_def least_def greatest_def)

lemma foldl_rings: "foldl (foldl f) b pss = foldl f b (concat pss)"
  by (induction pss arbitrary: b) simp_all

text \<open>The box and the envelope share a point.\<close>

definition envelope_meets :: "bbox \<Rightarrow> point list \<Rightarrow> bool" where
  "envelope_meets b ps \<longleftrightarrow>
     list_ex (\<lambda>p. js_le (snd p) (bb_maxLat b)) ps \<and> list_ex (\<lambda>p. js_le (bb_minLat b) (snd p)) ps \<and>
     list_ex (\<lambda>p. js_le (fst p) (bb_maxLon b)) ps \<and> list_ex (\<lambda>p. js_le (bb_minLon b) (fst p)) ps"

definition bbox_finite :: "bbox \<Rightarrow> bool" where
  "bbox_finite b \<longleftrightarrow> is_finite (bb_minLat b) \<and> is_finite (bb_minLon b) \<and> is_finite (bb_maxLat b) \<and> is_finite (bb_maxLon b)"

lemma intersects_iff:
  assumes "bbox_finite b" and "\<forall>p\<in>set (concat (hz_geometry h)). fst p \<noteq> NaN \<and> snd p \<noteq> NaN"
  shows "hazardIntersectsBbox h b \<longleftrightarrow> envelope_meets b (concat (hz_geometry h))"
proof -
  let ?ps = "concat (hz_geometry h)"
  obtain w s e n where b: "b = \<lparr> bb_minLat = Fin s, bb_minLon = Fin w, bb_maxLat = Fin n, bb_maxLon = Fin e \<rparr>"
    using assms(1) by (cases b) (auto simp: bbox_finite_def is_finite_iff)
  have nan: "NaN \<notin> set (map fst ?ps)" "NaN \<notin> set (map snd ?ps)" using assms(2) by force+
  have inf: "\<not> js_le PInf (Fin c)" "\<not> js_le (Fin c) NInf" for c by (simp_all add: js_le_def)
  have "(let e' = envelope (hz_geometry h) in js_le (bb_minLat e') (bb_maxLat b) \<and> js_le (bb_minLat b) (bb_maxLat e') \<and>
      js_le (bb_minLon e') (bb_maxLon b) \<and> js_le (bb_minLon b) (bb_maxLon e')) \<longleftrightarrow> envelope_meets b ?ps"
    using nan unfolding envelope_def foldl_rings envelope_fold
    by (simp add: b least_le greatest_ge inf envelope_meets_def list_ex_iff)
  moreover have "list_ex (list_ex (in_bbox b)) (hz_geometry h) \<Longrightarrow> envelope_meets b ?ps"
    by (auto simp: list_ex_iff in_bbox_def envelope_meets_def)
  ultimately show ?thesis by (auto simp: hazardIntersectsBbox_def)
qed

text \<open>The points of the convex hull, with exact arithmetic: weights of the vertices that add up to one.\<close>

fun coord :: "jsnum \<Rightarrow> rat" where
  "coord (Fin q) = q"
| "coord v = 0"

definition weighted :: "(point \<Rightarrow> rat) \<Rightarrow> rat list \<Rightarrow> point list \<Rightarrow> rat" where
  "weighted f ws ps = sum_list (map2 (\<lambda>w p. w * f p) ws ps)"

definition hull_point :: "point list \<Rightarrow> rat \<Rightarrow> rat \<Rightarrow> bool" where
  "hull_point ps x y \<longleftrightarrow> (\<exists>ws. length ws = length ps \<and> (\<forall>w\<in>set ws. 0 \<le> w) \<and> sum_list ws = 1 \<and>
     x = weighted (\<lambda>p. coord (fst p)) ws ps \<and> y = weighted (\<lambda>p. coord (snd p)) ws ps)"

lemma weighted_ge:
  "length ws = length ps \<Longrightarrow> \<forall>w\<in>set ws. 0 \<le> w \<Longrightarrow> \<forall>p\<in>set ps. m \<le> f p \<Longrightarrow> sum_list ws * m \<le> weighted f ws ps"
proof (induction ws ps rule: list_induct2)
  case (Cons w ws p ps)
  have "w * m \<le> w * f p" using Cons.prems by (intro mult_left_mono) auto
  with Cons show ?case by (simp add: weighted_def distrib_right)
qed (simp add: weighted_def)

lemma weighted_attains:
  assumes "length ws = length ps" and "\<forall>w\<in>set ws. 0 \<le> w" and "sum_list ws = 1"
  shows "\<exists>p\<in>set ps. f p \<le> weighted f ws ps"
proof -
  have "ps \<noteq> []" using assms(1,3) by (cases ws) auto
  then have "Min (f ` set ps) \<in> f ` set ps" by (intro Min_in) auto
  then obtain p where p: "p \<in> set ps" "f p = Min (f ` set ps)" by auto
  then have "\<forall>q\<in>set ps. f p \<le> f q" by simp
  from weighted_ge [OF assms(1,2) this] assms(3) p(1) show ?thesis by auto
qed

lemma weighted_uminus: "weighted (\<lambda>p. - f p) ws ps = - weighted f ws ps"
  by (induction ws ps rule: list_induct2') (simp_all add: weighted_def)

lemma hull_between:
  assumes "hull_point ps x y" and "\<forall>p\<in>set ps. is_finite (fst p) \<and> is_finite (snd p)" and "bbox_finite b"
    and "in_bbox b (Fin x, Fin y)"
  shows "envelope_meets b ps"
proof -
  obtain ws where ws: "length ws = length ps" "\<forall>w\<in>set ws. 0 \<le> w" "sum_list ws = 1"
    and x: "x = weighted (\<lambda>p. coord (fst p)) ws ps" and y: "y = weighted (\<lambda>p. coord (snd p)) ws ps"
    using assms(1) by (auto simp: hull_point_def)
  have below: "\<exists>p\<in>set ps. f p \<le> weighted f ws ps" and above: "\<exists>p\<in>set ps. weighted f ws ps \<le> f p" for f
    using weighted_attains [OF ws, of f] weighted_attains [OF ws, of "\<lambda>p. - f p"] by (auto simp: weighted_uminus)
  have fin: "fst p = Fin (coord (fst p))" "snd p = Fin (coord (snd p))" if "p \<in> set ps" for p
    using assms(2) that by (cases "fst p"; cases "snd p"; fastforce)+
  obtain w s e n where b: "b = \<lparr> bb_minLat = Fin s, bb_minLon = Fin w, bb_maxLat = Fin n, bb_maxLon = Fin e \<rparr>"
    using assms(3) by (cases b) (auto simp: bbox_finite_def is_finite_iff)
  have le: "js_le (Fin p) (Fin q) \<longleftrightarrow> p \<le> q" for p q by (auto simp: js_le_def)
  have box: "s \<le> y" "y \<le> n" "w \<le> x" "x \<le> e" using assms(4) by (simp_all add: in_bbox_def b le)
  have lo: "js_le (g p) (Fin c)" if "g p = Fin q" "q \<le> v" "v \<le> c" for g :: "point \<Rightarrow> jsnum" and p q v c
    using that by (simp add: le)
  have hi: "js_le (Fin c) (g p)" if "g p = Fin q" "v \<le> q" "c \<le> v" for g :: "point \<Rightarrow> jsnum" and p q v c
    using that by (simp add: le)
  have "\<exists>p\<in>set ps. js_le (snd p) (Fin n)" using below [of "\<lambda>p. coord (snd p)"] fin lo box unfolding y by metis
  moreover have "\<exists>p\<in>set ps. js_le (Fin s) (snd p)" using above [of "\<lambda>p. coord (snd p)"] fin hi box unfolding y by metis
  moreover have "\<exists>p\<in>set ps. js_le (fst p) (Fin e)" using below [of "\<lambda>p. coord (fst p)"] fin lo box unfolding x by metis
  moreover have "\<exists>p\<in>set ps. js_le (Fin w) (fst p)" using above [of "\<lambda>p. coord (fst p)"] fin hi box unfolding x by metis
  ultimately show ?thesis by (simp add: envelope_meets_def b list_ex_iff)
qed

lemma bbox_filter_finite: "bbox_filter query = Inr (Some b) \<Longrightarrow> bbox_finite b"
  by (auto simp: bbox_filter_def bbox_invalid_def bbox_finite_def Let_def split: if_splits)

lemma polygon_points:
  assumes "polygon_ok polygon" and "p \<in> set (concat polygon)"
  shows "is_finite (fst p) \<and> is_finite (snd p)"
proof -
  have "point_ok p" using assms by (auto simp: polygon_ok_def ring_ok_def list_all_iff)
  then show ?thesis using point_ok_bounds by fastforce
qed

lemma features_ids: "traverse (hazard_feature_of source) hs = Inr fs \<Longrightarrow> map hf_id fs = map hz_id hs"
  by (induction hs arbitrary: fs) (auto simp: res_bind_Inr hazard_feature_of_def)

section \<open>Properties\<close>


definition sample_hazards_snapshot :: hazard_snapshot where
  "sample_hazards_snapshot = \<lparr> sn_snapshotId = ''s'', sn_generatedAt = Date 0, sn_validUntil = None,
     sn_hazards = [sample_hazard], sn_source = SIMULATED \<rparr>"

definition sample_query :: jsval where
  "sample_query = JObj [(''minLat'', JNum (Fin 1)), (''minLon'', JNum (Fin 1)), (''maxLat'', JNum (Fin 2)), (''maxLon'', JNum (Fin 2))]"

lemma sample_query_read:
  "validation_pipe documented_env FloodHazardsQueryDto sample_query = Inr sample_query"
  "bbox_filter sample_query = Inr (Some \<lparr> bb_minLat = Fin 1, bb_minLon = Fin 1, bb_maxLat = Fin 2, bb_maxLon = Fin 2 \<rparr>)"
proof -
  show "validation_pipe documented_env FloodHazardsQueryDto sample_query = Inr sample_query"
    by (simp add: sample_query_def FloodHazardsQueryDto_def bbox_rule_def convert_body_def convert_field_def body_errors_def
        rule_error_def field_violations_def documented_env_def num_of_int_def js_le_def List.map_filter_def)
  show "bbox_filter sample_query = Inr (Some \<lparr> bb_minLat = Fin 1, bb_minLon = Fin 1, bb_maxLat = Fin 2, bb_maxLon = Fin 2 \<rparr>)"
    by (simp add: sample_query_def bbox_filter_def js_le_def Let_def)
qed

lemma hazard_time_total: "valid_date t \<Longrightarrow> \<exists>s. hazard_time (Some t) = Inr (Some s)"
  using toISOString_valid [of t] by (auto simp: hazard_time_def simp del: toISOString.simps)

lemma sample_query_answered:
  "\<exists>r. getActiveHazards documented_env (Inr sample_hazards_snapshot) sample_query = Inr r"
proof -
  obtain a b c where "hazard_time (Some (Date 1000)) = Inr (Some a)" "hazard_time (Some (Date 5000)) = Inr (Some b)"
    "hazard_time (Some (Date 0)) = Inr (Some c)" using hazard_time_total by (metis valid_date.simps(1))
  moreover have "hazard_time None = Inr None" by (simp add: hazard_time_def)
  ultimately show ?thesis
    by (simp add: getActiveHazards_def sample_query_read sample_hazards_snapshot_def hazards_of_def hazard_feature_of_def sample_hazard_def)
qed

lemma sample_hull: "hull_point (concat (hz_geometry sample_hazard)) 2 2"
  unfolding hull_point_def
  by (intro exI [of _ "[1 / 2, 0, 1 / 2, 0, 0]"])
    (simp add: sample_hazard_def sample_ring_def weighted_def)


end
