(* ===== verification/Graphhopper.thy ===== *)
theory Graphhopper
  imports Route_Flood_Evaluator Js_Format
begin

text \<open>
  The routing provider \<^verbatim>\<open>src/src/routes/graphhopper.client.ts\<close> and the types of
  \<^verbatim>\<open>src/src/routes/routing-provider.ts\<close>: the payload with its custom model of the hazards, the
  classification of transport failures, the parser of paths and instructions, the navigation
  manoeuvres, the removal of duplicate geometries and the check of the snapped endpoints. The
  network is a parameter, a function from the request to what \<open>fetch\<close> gives; \<open>JSON.parse\<close>, the
  digest and the approximated functions of \<open>Math\<close> are parameters as well. The lemmas show that
  an accepted path has steps that partition its geometry, that bearings and turns are in range,
  and what a successful preview returns.
\<close>

section \<open>Types\<close>

datatype travel_mode = CAR | MOTORCYCLE

datatype manoeuvre_type =
    MT_DEPART | MT_CONTINUE | MT_TURN | MT_SLIGHT_TURN | MT_SHARP_TURN | MT_U_TURN
  | MT_ROUNDABOUT | MT_EXIT_ROUNDABOUT | MT_MERGE | MT_FORK | MT_ARRIVE | MT_UNKNOWN

datatype nav_modifier =
    MM_STRAIGHT | MM_SLIGHT_LEFT | MM_LEFT | MM_SHARP_LEFT | MM_SLIGHT_RIGHT | MM_RIGHT
  | MM_SHARP_RIGHT | MM_U_TURN | MM_NONE

datatype routing_error = RE_NO_ROUTE | RE_TIMEOUT | RE_INVALID_RESPONSE | RE_UNAVAILABLE

record routing_point =
  rp_latitude :: jsnum
  rp_longitude :: jsnum

record routing_request =
  rq_origin :: routing_point
  rq_destination :: routing_point
  rq_travelMode :: travel_mode
  rq_alternatives :: nat
  rq_hazards :: "flood_hazard list"

record manoeuvre =
  mv_type :: manoeuvre_type
  mv_modifier :: nav_modifier
  mv_bearingBefore :: "jsnum option"
  mv_bearingAfter :: "jsnum option"

record nav_step =
  ns_index :: nat
  ns_instruction :: string
  ns_streetName :: string
  ns_distanceMeters :: jsnum
  ns_durationSeconds :: jsnum
  ns_manoeuvre :: manoeuvre
  ns_geometryStartIndex :: nat
  ns_geometryEndIndex :: nat

record provider_route =
  pr_coordinates :: "point list"
  pr_distanceMeters :: jsnum
  pr_durationSeconds :: jsnum
  pr_steps :: "nav_step list"

section \<open>Limits\<close>

definition MAX_RESPONSE_BYTES :: int where "MAX_RESPONSE_BYTES = 5 * 1024 * 1024"
definition MAX_GEOMETRY_POINTS :: nat where "MAX_GEOMETRY_POINTS = 50000"
definition MAX_NAVIGATION_STEPS :: nat where "MAX_NAVIGATION_STEPS = 50000"
definition MAX_INSTRUCTION_LENGTH :: nat where "MAX_INSTRUCTION_LENGTH = 1000"
definition MAX_ENDPOINT_SNAP_DISTANCE_METERS :: jsnum where
  "MAX_ENDPOINT_SNAP_DISTANCE_METERS = Fin 500"
definition EARTH_RADIUS_METERS :: jsnum where "EARTH_RADIUS_METERS = Fin 6371000"

section \<open>Bearings and turns\<close>

definition toRadians :: "jsnum \<Rightarrow> jsnum" where
  "toRadians degrees = js_div (js_mul degrees js_PI) (Fin 180)"

definition bearingDegrees :: "js_math \<Rightarrow> point \<Rightarrow> point \<Rightarrow> jsnum option" where
  "bearingDegrees M start finish =
     (if js_eq (fst start) (fst finish) \<and> js_eq (snd start) (snd finish) then None
      else
        let startLatitudeRadians = toRadians (snd start);
            endLatitudeRadians = toRadians (snd finish);
            longitudeDelta = toRadians (js_sub (fst finish) (fst start));
            y = js_mul (m_sin M longitudeDelta) (m_cos M endLatitudeRadians);
            x = js_sub (js_mul (m_cos M startLatitudeRadians) (m_sin M endLatitudeRadians))
                  (js_mul (js_mul (m_sin M startLatitudeRadians) (m_cos M endLatitudeRadians))
                    (m_cos M longitudeDelta));
            bearing = js_div (js_mul (m_atan2 M y x) (Fin 180)) js_PI in
        Some (js_rem (js_round (js_rem (js_add bearing (Fin 360)) (Fin 360))) (Fin 360)))"

text \<open>The first result of a loop that returns as soon as one is not null.\<close>

fun first_some :: "('a \<Rightarrow> 'b option) \<Rightarrow> 'a list \<Rightarrow> 'b option" where
  "first_some f [] = None"
| "first_some f (x # xs) = (case f x of Some y \<Rightarrow> Some y | None \<Rightarrow> first_some f xs)"

definition bearingBeforeIndex :: "js_math \<Rightarrow> point list \<Rightarrow> nat \<Rightarrow> jsnum option" where
  "bearingBeforeIndex M coordinates index =
     first_some (\<lambda>e. bearingDegrees M (coordinates ! (e - 1)) (coordinates ! e)) (rev [1..<Suc index])"

definition bearingAfterIndex :: "js_math \<Rightarrow> point list \<Rightarrow> nat \<Rightarrow> jsnum option" where
  "bearingAfterIndex M coordinates index =
     first_some (\<lambda>s. bearingDegrees M (coordinates ! s) (coordinates ! (s + 1)))
       [index..<length coordinates - 1]"

definition normalizeTurnDegrees :: "jsnum \<Rightarrow> jsnum" where
  "normalizeTurnDegrees degrees = js_sub (js_rem (js_add degrees (Fin 540)) (Fin 360)) (Fin 180)"

fun modifierFromBearings :: "jsnum option \<Rightarrow> jsnum option \<Rightarrow> nav_modifier" where
  "modifierFromBearings (Some bearingBefore) (Some bearingAfter) =
     (let delta = normalizeTurnDegrees (js_sub bearingAfter bearingBefore);
          magnitude = js_abs delta in
      if js_lt magnitude (Fin 15) then MM_STRAIGHT
      else if js_le (Fin 165) magnitude then MM_U_TURN
      else if js_lt magnitude (Fin 45)
      then (if js_lt delta (Fin 0) then MM_SLIGHT_LEFT else MM_SLIGHT_RIGHT)
      else if js_lt magnitude (Fin 135)
      then (if js_lt delta (Fin 0) then MM_LEFT else MM_RIGHT)
      else (if js_lt delta (Fin 0) then MM_SHARP_LEFT else MM_SHARP_RIGHT))"
| "modifierFromBearings b a = MM_STRAIGHT"

definition modifierForSign :: "int \<Rightarrow> jsnum option \<Rightarrow> jsnum option \<Rightarrow> nav_modifier" where
  "modifierForSign sign before after =
     (if sign = - 1 then MM_SLIGHT_LEFT
      else if sign = - 2 then MM_LEFT
      else if sign = - 3 then MM_SHARP_LEFT
      else if sign = 1 then MM_SLIGHT_RIGHT
      else if sign = 2 then MM_RIGHT
      else if sign = 3 then MM_SHARP_RIGHT
      else if sign = - 98 \<or> sign = - 8 \<or> sign = 8 then MM_U_TURN
      else modifierFromBearings before after)"

definition mapManoeuvre ::
  "int \<Rightarrow> bool \<Rightarrow> jsnum option \<Rightarrow> jsnum option \<Rightarrow> manoeuvre_type \<times> nav_modifier" where
  "mapManoeuvre sign isFirst before after =
     (if sign = 4 \<or> sign = 5 then (MT_ARRIVE, MM_NONE)
      else if isFirst then (MT_DEPART, modifierForSign sign before after)
      else if sign = 0 then (MT_CONTINUE, MM_STRAIGHT)
      else if sign = - 1 \<or> sign = 1
      then (MT_SLIGHT_TURN, if sign < 0 then MM_SLIGHT_LEFT else MM_SLIGHT_RIGHT)
      else if sign = - 2 \<or> sign = 2 then (MT_TURN, if sign < 0 then MM_LEFT else MM_RIGHT)
      else if sign = - 3 \<or> sign = 3
      then (MT_SHARP_TURN, if sign < 0 then MM_SHARP_LEFT else MM_SHARP_RIGHT)
      else if sign = - 98 \<or> sign = - 8 \<or> sign = 8 then (MT_U_TURN, MM_U_TURN)
      else if sign = 6 then (MT_ROUNDABOUT, modifierFromBearings before after)
      else if sign = - 6 then (MT_EXIT_ROUNDABOUT, modifierFromBearings before after)
      else if sign = - 7 \<or> sign = 7
      then (MT_FORK, if sign < 0 then MM_SLIGHT_LEFT else MM_SLIGHT_RIGHT)
      else (MT_UNKNOWN, MM_NONE))"

section \<open>The parser\<close>

definition isPositiveFiniteNumber :: "jsnum \<Rightarrow> bool" where
  "isPositiveFiniteNumber x = (is_finite x \<and> js_lt (Fin 0) x)"

definition isNonNegativeFiniteNumber :: "jsnum \<Rightarrow> bool" where
  "isNonNegativeFiniteNumber x = (is_finite x \<and> js_le (Fin 0) x)"

definition isNonNegativeInteger :: "jsnum \<Rightarrow> bool" where
  "isNonNegativeInteger x = (is_integer x \<and> js_le (Fin 0) x)"

definition point_in_range :: "point \<Rightarrow> bool" where
  "point_in_range p = (is_finite (fst p) \<and> is_finite (snd p) \<and>
     \<not> js_lt (fst p) (Fin (- 180)) \<and> \<not> js_lt (Fin 180) (fst p) \<and>
     \<not> js_lt (snd p) (Fin (- 90)) \<and> \<not> js_lt (Fin 90) (snd p))"

definition parseCoordinate :: "jsval \<Rightarrow> (routing_error, point) result" where
  "parseCoordinate v = (case v of
     JArr [JNum x, JNum y] \<Rightarrow> if point_in_range (x, y) then Inr (x, y) else Inl RE_INVALID_RESPONSE
   | _ \<Rightarrow> Inl RE_INVALID_RESPONSE)"

definition parsed_step ::
  "js_math \<Rightarrow> point list \<Rightarrow> nat \<Rightarrow> int \<Rightarrow> string \<Rightarrow> string \<Rightarrow> jsnum \<Rightarrow> jsnum \<Rightarrow> nat \<Rightarrow> nat \<Rightarrow> nav_step" where
  "parsed_step M coordinates index sign text streetName distance time startIndex endIndex =
     (let bearingBefore = bearingBeforeIndex M coordinates startIndex;
          bearingAfter = bearingAfterIndex M coordinates startIndex;
          kind = mapManoeuvre sign (index = 0) bearingBefore bearingAfter in \<lparr>
        ns_index = index, ns_instruction = text, ns_streetName = streetName,
        ns_distanceMeters = js_max (Fin 0) (js_round distance),
        ns_durationSeconds = js_max (Fin 0) (js_ceil (js_div time (Fin 1000))),
        ns_manoeuvre = \<lparr> mv_type = fst kind, mv_modifier = snd kind,
          mv_bearingBefore = bearingBefore,
          mv_bearingAfter = (if fst kind = MT_ARRIVE then None else bearingAfter) \<rparr>,
        ns_geometryStartIndex = startIndex, ns_geometryEndIndex = endIndex \<rparr>)"

definition parseInstruction ::
  "js_math \<Rightarrow> point list \<Rightarrow> nat \<times> jsval \<Rightarrow> (routing_error, nav_step) result" where
  "parseInstruction M coordinates = (\<lambda>(index, instruction).
     case (jprop instruction ''sign'', jprop instruction ''text'', jprop instruction ''street_name'',
           jprop instruction ''distance'', jprop instruction ''time'', jprop instruction ''interval'') of
       (JNum sign, JStr text, JStr streetName, JNum distance, JNum time, JArr [JNum i, JNum j]) \<Rightarrow>
         if \<not> isRecord instruction \<or> \<not> is_integer sign \<or>
            length text = 0 \<or> MAX_INSTRUCTION_LENGTH < length text \<or>
            MAX_INSTRUCTION_LENGTH < length streetName \<or>
            \<not> isNonNegativeFiniteNumber distance \<or> \<not> isNonNegativeFiniteNumber time \<or>
            \<not> isNonNegativeInteger i \<or> \<not> isNonNegativeInteger j
         then Inl RE_INVALID_RESPONSE
         else
           let geometryStartIndex = nat (int_of_num i); geometryEndIndex = nat (int_of_num j) in
           if geometryEndIndex < geometryStartIndex \<or> length coordinates \<le> geometryEndIndex
           then Inl RE_INVALID_RESPONSE
           else Inr (parsed_step M coordinates index (int_of_num sign) text streetName distance time
             geometryStartIndex geometryEndIndex)
     | _ \<Rightarrow> Inl RE_INVALID_RESPONSE)"

definition is_arrival :: "nav_step \<Rightarrow> bool" where
  "is_arrival s = (mv_type (ns_manoeuvre s) = MT_ARRIVE)"

definition steps_linked :: "nav_step list \<Rightarrow> bool" where
  "steps_linked steps = list_all (\<lambda>index.
     \<not> (ns_geometryStartIndex (steps ! index) \<noteq> ns_geometryEndIndex (steps ! (index - 1)) \<or>
        index < length steps - 1 \<and> is_arrival (steps ! index)))
     [1..<length steps]"

definition parseInstructions :: "js_math \<Rightarrow> jsval \<Rightarrow> point list \<Rightarrow> (routing_error, nav_step list) result" where
  "parseInstructions M instructions coordinates = (case instructions of
     JArr items \<Rightarrow>
       if length items < 2 \<or> MAX_NAVIGATION_STEPS < length items then Inl RE_INVALID_RESPONSE
       else res_bind (traverse (parseInstruction M coordinates) (enumerate 0 items)) (\<lambda>steps.
         let lastGeometryIndex = length coordinates - 1; final = steps ! (length steps - 1) in
         if ns_geometryStartIndex (steps ! 0) \<noteq> 0 \<or>
            ns_geometryStartIndex final \<noteq> lastGeometryIndex \<or>
            ns_geometryEndIndex final \<noteq> lastGeometryIndex \<or> \<not> is_arrival final
         then Inl RE_INVALID_RESPONSE
         else if \<not> steps_linked steps then Inl RE_INVALID_RESPONSE
         else Inr steps)
   | _ \<Rightarrow> Inl RE_INVALID_RESPONSE)"

definition parsePath :: "js_math \<Rightarrow> jsval \<Rightarrow> (routing_error, provider_route) result" where
  "parsePath M path =
     (case (jprop path ''distance'', jprop path ''time'', jprop (jprop path ''points'') ''type'',
            jprop (jprop path ''points'') ''coordinates'') of
        (JNum distance, JNum time, JStr kind, JArr items) \<Rightarrow>
          if \<not> isRecord path \<or> \<not> isPositiveFiniteNumber distance \<or> \<not> isPositiveFiniteNumber time \<or>
             \<not> isRecord (jprop path ''points'') \<or> kind \<noteq> ''LineString'' \<or>
             length items < 2 \<or> MAX_GEOMETRY_POINTS < length items
          then Inl RE_INVALID_RESPONSE
          else
            res_bind (traverse parseCoordinate items) (\<lambda>coordinates.
            res_bind (parseInstructions M (jprop path ''instructions'') coordinates) (\<lambda>steps.
            Inr \<lparr> pr_coordinates = coordinates,
              pr_distanceMeters = js_max (Fin 1) (js_round distance),
              pr_durationSeconds = js_max (Fin 1) (js_ceil (js_div time (Fin 1000))),
              pr_steps = steps \<rparr>))
      | _ \<Rightarrow> Inl RE_INVALID_RESPONSE)"

definition parseGraphHopperResponse :: "js_math \<Rightarrow> jsval \<Rightarrow> (routing_error, provider_route list) result" where
  "parseGraphHopperResponse M payload = (case jprop payload ''paths'' of
     JArr paths \<Rightarrow>
       if \<not> isRecord payload then Inl RE_INVALID_RESPONSE
       else if length paths = 0 then Inl RE_NO_ROUTE
       else traverse (parsePath M) paths
   | _ \<Rightarrow> Inl RE_INVALID_RESPONSE)"

section \<open>Duplicates and endpoints\<close>

definition coordinate_text :: "point \<Rightarrow> string" where
  "coordinate_text p = to_fixed 6 (fst p) @ '','' @ to_fixed 6 (snd p)"

definition canonicalGeometry :: "point list \<Rightarrow> string" where
  "canonicalGeometry coordinates = join '';'' (map coordinate_text coordinates)"

fun dedupe :: "(string \<Rightarrow> string) \<Rightarrow> string set \<Rightarrow> provider_route list \<Rightarrow> provider_route list" where
  "dedupe sha256hex fingerprints [] = []"
| "dedupe sha256hex fingerprints (route # routes) =
     (let fingerprint = sha256hex (canonicalGeometry (pr_coordinates route)) in
      if fingerprint \<in> fingerprints then dedupe sha256hex fingerprints routes
      else route # dedupe sha256hex (insert fingerprint fingerprints) routes)"

definition deduplicateRoutes :: "(string \<Rightarrow> string) \<Rightarrow> provider_route list \<Rightarrow> provider_route list" where
  "deduplicateRoutes sha256hex routes = dedupe sha256hex {} routes"

definition distanceMeters :: "js_math \<Rightarrow> point \<Rightarrow> routing_point \<Rightarrow> jsnum" where
  "distanceMeters M coordinate p =
     (let latitudeDelta = toRadians (js_sub (rp_latitude p) (snd coordinate));
          longitudeDelta = toRadians (js_sub (rp_longitude p) (fst coordinate));
          startLatitude = toRadians (snd coordinate);
          endLatitude = toRadians (rp_latitude p);
          haversine = js_add (m_square M (m_sin M (js_div latitudeDelta (Fin 2))))
            (js_mul (js_mul (m_cos M startLatitude) (m_cos M endLatitude))
              (m_square M (m_sin M (js_div longitudeDelta (Fin 2))))) in
      js_mul (js_mul (Fin 2) EARTH_RADIUS_METERS) (m_asin M (js_min (Fin 1) (m_sqrt M haversine))))"

definition hasAcceptableEndpointSnapping :: "js_math \<Rightarrow> provider_route \<Rightarrow> routing_request \<Rightarrow> bool" where
  "hasAcceptableEndpointSnapping M route request =
     (let coordinates = pr_coordinates route in
      js_le (distanceMeters M (coordinates ! 0) (rq_origin request)) MAX_ENDPOINT_SNAP_DISTANCE_METERS \<and>
      js_le (distanceMeters M (coordinates ! (length coordinates - 1)) (rq_destination request))
        MAX_ENDPOINT_SNAP_DISTANCE_METERS)"

section \<open>The custom model\<close>

definition area_id :: "(string \<Rightarrow> string) \<Rightarrow> flood_hazard \<Rightarrow> string" where
  "area_id sha256hex h = generateSafeAreaId sha256hex (hz_id h)"

definition area_feature :: "(string \<Rightarrow> string) \<Rightarrow> flood_hazard \<Rightarrow> jsval" where
  "area_feature sha256hex h = JObj [
     (''type'', JStr ''Feature''), (''id'', JStr (area_id sha256hex h)), (''properties'', JObj []),
     (''geometry'', polygon_value (hz_geometry h))]"

definition priority_rule :: "(string \<Rightarrow> string) \<Rightarrow> flood_hazard \<Rightarrow> jsval" where
  "priority_rule sha256hex h = JObj [
     (''if'', JStr (''in_'' @ area_id sha256hex h)),
     (''multiply_by'', JStr (number_to_string (hz_routingMultiplier h)))]"

definition bad_multiplier :: "flood_hazard \<Rightarrow> bool" where
  "bad_multiplier h = (\<not> is_finite (hz_routingMultiplier h) \<or> js_lt (hz_routingMultiplier h) (Fin 0) \<or>
     js_lt (Fin 1) (hz_routingMultiplier h))"

definition penalized :: "flood_hazard \<Rightarrow> bool" where
  "penalized h = js_lt (hz_routingMultiplier h) (Fin 1)"

definition buildCustomModel ::
  "(string \<Rightarrow> string) \<Rightarrow> flood_hazard list \<Rightarrow> (routing_error, jsval option) result" where
  "buildCustomModel sha256hex hazards =
     (if list_ex bad_multiplier hazards then Inl RE_INVALID_RESPONSE
      else
        let penalizedHazards = filter penalized hazards in
        if length penalizedHazards = 0 then Inr None
        else Inr (Some (JObj [
          (''areas'', JObj [
             (''type'', JStr ''FeatureCollection''),
             (''features'', JArr (map (area_feature sha256hex) penalizedHazards))]),
          (''priority'', JArr (map (priority_rule sha256hex) penalizedHazards))])))"

section \<open>The transport\<close>

text \<open>
  What \<open>fetch\<close> gives: a rejection, because the request was aborted or for another reason, or a
  response. \<open>rs_declaredLength\<close> is \<open>Number\<close> of the content-length header; reading the body may be
  rejected as well.
\<close>

record http_response =
  rs_declaredLength :: jsnum
  rs_status :: int
  rs_text :: "(bool, string) result"

datatype fetch_result = Rejected bool | Responded http_response

definition missing_route_fragments :: "string list" where
  "missing_route_fragments = [''connectionnotfound'', ''pointnotfound'', ''pointoutofboundsexception'',
     ''cannot find point'', ''cannot find path'', ''no path'', ''out of bounds'']"

definition classifyHttpFailure :: "int \<Rightarrow> string \<Rightarrow> routing_error" where
  "classifyHttpFailure status responseText =
     (let normalized = to_lower responseText;
          describesMissingRoute = list_ex (str_includes normalized) missing_route_fragments in
      if (status = 400 \<or> status = 404) \<and> describesMissingRoute then RE_NO_ROUTE
      else if 500 \<le> status then RE_UNAVAILABLE
      else RE_INVALID_RESPONSE)"

definition transport_error :: "bool \<Rightarrow> routing_error" where
  "transport_error aborted = (if aborted then RE_TIMEOUT else RE_UNAVAILABLE)"

definition fetchJson :: "(string \<Rightarrow> jsval option) \<Rightarrow> fetch_result \<Rightarrow> (routing_error, jsval) result" where
  "fetchJson jsonParse fetched = (case fetched of
     Rejected aborted \<Rightarrow> Inl (transport_error aborted)
   | Responded response \<Rightarrow>
       if is_finite (rs_declaredLength response) \<and>
          js_lt (num_of_int MAX_RESPONSE_BYTES) (rs_declaredLength response)
       then Inl RE_INVALID_RESPONSE
       else case rs_text response of
         Inl aborted \<Rightarrow> Inl (transport_error aborted)
       | Inr text \<Rightarrow>
           if MAX_RESPONSE_BYTES < utf8_length text then Inl RE_INVALID_RESPONSE
           else if \<not> (200 \<le> rs_status response \<and> rs_status response \<le> 299)
           then Inl (classifyHttpFailure (rs_status response) text)
           else case jsonParse text of None \<Rightarrow> Inl RE_INVALID_RESPONSE | Some v \<Rightarrow> Inr v)"

section \<open>Preview\<close>

record graphhopper_config =
  gh_baseUrl :: string
  gh_timeoutMs :: int

fun profile_of :: "travel_mode \<Rightarrow> string" where
  "profile_of CAR = ''car''"
| "profile_of MOTORCYCLE = ''motorcycle''"

definition base_payload :: "graphhopper_config \<Rightarrow> routing_request \<Rightarrow> (string, jsval) dict" where
  "base_payload config request = [
     (''profile'', JStr (profile_of (rq_travelMode request))),
     (''points'', JArr [
        JArr [JNum (rp_longitude (rq_origin request)), JNum (rp_latitude (rq_origin request))],
        JArr [JNum (rp_longitude (rq_destination request)), JNum (rp_latitude (rq_destination request))]]),
     (''points_encoded'', JBool False), (''instructions'', JBool True), (''locale'', JStr ''id''),
     (''calc_points'', JBool True), (''timeout_ms'', JNum (num_of_int (gh_timeoutMs config)))]"

definition with_alternatives :: "routing_request \<Rightarrow> (string, jsval) dict \<Rightarrow> (string, jsval) dict" where
  "with_alternatives request payload =
     (if 0 < rq_alternatives request then
        fold (\<lambda>(k, v). dict_set k v) [
          (''algorithm'', JStr ''alternative_route''), (''ch.disable'', JBool True),
          (''alternative_route.max_paths'', JNum (num_of_int (int (rq_alternatives request) + 1))),
          (''alternative_route.max_weight_factor'', JNum (mk_num (16 / 10))),
          (''alternative_route.max_share_factor'', JNum (mk_num (8 / 10))),
          (''alternative_route.max_exploration_factor'', JNum (Fin 2)),
          (''alternative_route.min_plateau_factor'', JNum (mk_num (5 / 100)))] payload
      else payload)"

definition preview_payload ::
  "(string \<Rightarrow> string) \<Rightarrow> graphhopper_config \<Rightarrow> routing_request \<Rightarrow> (routing_error, jsval) result" where
  "preview_payload sha256hex config request =
     (let payload = base_payload config request in
      res_bind
        (if 0 < length (rq_hazards request)
         then res_bind (buildCustomModel sha256hex (rq_hazards request)) (\<lambda>customModel.
           case customModel of
             None \<Rightarrow> Inr payload
           | Some m \<Rightarrow> Inr (dict_set ''ch.disable'' (JBool True) (dict_set ''custom_model'' m payload)))
         else Inr payload)
        (\<lambda>payload'. Inr (JObj (with_alternatives request payload'))))"

definition gh_preview ::
  "js_math \<Rightarrow> (string \<Rightarrow> string) \<Rightarrow> (string \<Rightarrow> jsval option) \<Rightarrow> graphhopper_config \<Rightarrow>
   (string \<Rightarrow> jsval \<Rightarrow> fetch_result) \<Rightarrow> routing_request \<Rightarrow> (routing_error, provider_route list) result" where
  "gh_preview M sha256hex jsonParse config post request =
     res_bind (preview_payload sha256hex config request) (\<lambda>payload.
     res_bind (fetchJson jsonParse (post (gh_baseUrl config @ ''/route'') payload)) (\<lambda>response.
     res_bind (parseGraphHopperResponse M response) (\<lambda>paths.
       let near = filter (\<lambda>route. hasAcceptableEndpointSnapping M route request)
             (deduplicateRoutes sha256hex paths) in
       if length near = 0 then Inl RE_NO_ROUTE
       else Inr (take (rq_alternatives request + 1) near))))"

definition gh_health ::
  "(string \<Rightarrow> jsval option) \<Rightarrow> graphhopper_config \<Rightarrow> (string \<Rightarrow> fetch_result) \<Rightarrow> (routing_error, unit) result" where
  "gh_health jsonParse config get =
     res_bind (fetchJson jsonParse (get (gh_baseUrl config @ ''/info''))) (\<lambda>payload.
       if \<not> isRecord payload then Inl RE_INVALID_RESPONSE else Inr ())"

section \<open>Parsed instructions\<close>

lemma parseInstruction_Inr:
  assumes "parseInstruction M coordinates (index, v) = Inr s"
  shows "ns_index s = index \<and> ns_geometryStartIndex s \<le> ns_geometryEndIndex s \<and>
    ns_geometryEndIndex s < length coordinates \<and> is_finite (ns_distanceMeters s) \<and>
    js_le (Fin 0) (ns_distanceMeters s) \<and>
    mv_bearingBefore (ns_manoeuvre s) = bearingBeforeIndex M coordinates (ns_geometryStartIndex s) \<and>
    ns_instruction s \<noteq> '''' \<and> length (ns_instruction s) \<le> MAX_INSTRUCTION_LENGTH"
proof -
  obtain sign instr streetName distance time i j where
    s: "s = parsed_step M coordinates index sign instr streetName distance time i j"
    and ok: "i \<le> j" "j < length coordinates" "isNonNegativeFiniteNumber distance" "instr \<noteq> ''''"
      "length instr \<le> MAX_INSTRUCTION_LENGTH"
    using assms unfolding parseInstruction_def
    by (auto simp: Let_def not_less split: jsval.splits list.splits if_splits)
  obtain d where d: "distance = Fin d" "0 \<le> d"
    using ok(3) by (cases distance) (auto simp: isNonNegativeFiniteNumber_def js_le_def)
  have "is_finite (js_max (Fin 0) (js_round distance)) \<and> js_le (Fin 0) (js_max (Fin 0) (js_round distance))"
    by (auto simp: d js_max_def js_le_def)
  with ok show ?thesis by (simp add: s parsed_step_def Let_def)
qed

text \<open>What the checks of the code establish of the steps of a path.\<close>

definition steps_ok :: "point list \<Rightarrow> nav_step list \<Rightarrow> bool" where
  "steps_ok coordinates steps \<longleftrightarrow> 2 \<le> length steps \<and>
     (\<forall>i<length steps. ns_index (steps ! i) = i \<and>
        ns_geometryStartIndex (steps ! i) \<le> ns_geometryEndIndex (steps ! i) \<and>
        ns_geometryEndIndex (steps ! i) < length coordinates) \<and>
     ns_geometryStartIndex (steps ! 0) = 0 \<and>
     (\<forall>i. Suc i < length steps \<longrightarrow> ns_geometryStartIndex (steps ! Suc i) = ns_geometryEndIndex (steps ! i)) \<and>
     ns_geometryStartIndex (last steps) = length coordinates - 1 \<and>
     ns_geometryEndIndex (last steps) = length coordinates - 1 \<and> is_arrival (last steps) \<and>
     (\<forall>i. 0 < i \<longrightarrow> Suc i < length steps \<longrightarrow> \<not> is_arrival (steps ! i))"

lemma steps_linked_iff:
  "steps_linked steps \<longleftrightarrow>
     (\<forall>i. Suc i < length steps \<longrightarrow> ns_geometryStartIndex (steps ! Suc i) = ns_geometryEndIndex (steps ! i)) \<and>
     (\<forall>i. 0 < i \<longrightarrow> Suc i < length steps \<longrightarrow> \<not> is_arrival (steps ! i))"
proof -
  have "steps_linked steps \<longleftrightarrow> (\<forall>i. 1 \<le> i \<longrightarrow> i < length steps \<longrightarrow>
      ns_geometryStartIndex (steps ! i) = ns_geometryEndIndex (steps ! (i - 1)) \<and>
      (i < length steps - 1 \<longrightarrow> \<not> is_arrival (steps ! i)))"
    by (auto simp: steps_linked_def list_all_iff)
  also have "\<dots> \<longleftrightarrow> (\<forall>i. Suc i < length steps \<longrightarrow>
      ns_geometryStartIndex (steps ! Suc i) = ns_geometryEndIndex (steps ! i)) \<and>
     (\<forall>i. 0 < i \<longrightarrow> Suc i < length steps \<longrightarrow> \<not> is_arrival (steps ! i))"
    by (auto simp: Suc_le_eq) (metis Suc_pred)
  finally show ?thesis .
qed

lemma parseInstructions_Inr:
  assumes "parseInstructions M v coordinates = Inr steps"
  shows "steps_ok coordinates steps"
proof -
  obtain items where parsed: "traverse (parseInstruction M coordinates) (enumerate 0 items) = Inr steps"
    and len: "2 \<le> length items"
    and ends: "ns_geometryStartIndex (steps ! 0) = 0"
      "ns_geometryStartIndex (steps ! (length steps - 1)) = length coordinates - 1"
      "ns_geometryEndIndex (steps ! (length steps - 1)) = length coordinates - 1"
      "is_arrival (steps ! (length steps - 1))" "steps_linked steps"
    using assms unfolding parseInstructions_def
    by (auto simp: res_bind_Inr Let_def split: jsval.splits if_splits)
  have n: "length steps = length items" using traverse_length [OF parsed] by simp
  then have last: "last steps = steps ! (length steps - 1)" using len by (intro last_conv_nth) auto
  have "ns_index (steps ! i) = i \<and> ns_geometryStartIndex (steps ! i) \<le> ns_geometryEndIndex (steps ! i) \<and>
      ns_geometryEndIndex (steps ! i) < length coordinates" if "i < length steps" for i
    using traverse_nth [OF parsed, of i] that n parseInstruction_Inr by (fastforce simp: nth_enumerate_eq)
  then show ?thesis
    using ends len n unfolding steps_ok_def last steps_linked_iff by simp
qed

section \<open>Every segment belongs to one step\<close>

lemma steps_monotone:
  assumes "steps_ok coordinates steps" and "j < length steps"
  shows "i < j \<Longrightarrow> ns_geometryEndIndex (steps ! i) \<le> ns_geometryStartIndex (steps ! j)"
  using assms(2)
proof (induction j)
  case (Suc j)
  have le: "ns_geometryStartIndex (steps ! j) \<le> ns_geometryEndIndex (steps ! j)"
    and eq: "ns_geometryStartIndex (steps ! Suc j) = ns_geometryEndIndex (steps ! j)"
    using assms(1) Suc.prems by (auto simp: steps_ok_def)
  show ?case
  proof (cases "i = j")
    case False
    with Suc have "ns_geometryEndIndex (steps ! i) \<le> ns_geometryStartIndex (steps ! j)" by simp
    with le eq show ?thesis by simp
  qed (simp add: eq)
qed simp

lemma steps_cover:
  assumes "steps_ok coordinates steps" and "g < length coordinates - 1"
  shows "\<exists>!i. i < length steps \<and> ns_geometryStartIndex (steps ! i) \<le> g \<and> g < ns_geometryEndIndex (steps ! i)"
proof (rule ex_ex1I)
  have ok: "2 \<le> length steps" "ns_geometryStartIndex (steps ! 0) = 0"
    "ns_geometryEndIndex (last steps) = length coordinates - 1"
    using assms(1) by (simp_all add: steps_ok_def)
  let ?P = "\<lambda>i. i < length steps \<and> g < ns_geometryEndIndex (steps ! i)"
  have "last steps = steps ! (length steps - 1)" using ok(1) by (intro last_conv_nth) auto
  then have "?P (length steps - 1)" using ok assms(2) by simp
  then have P: "?P (LEAST i. ?P i)" and least: "\<And>k. k < (LEAST i. ?P i) \<Longrightarrow> \<not> ?P k"
    by (rule LeastI) (rule not_less_Least)
  define i where "i = (LEAST i. ?P i)"
  have "ns_geometryStartIndex (steps ! i) \<le> g"
  proof (cases i)
    case 0
    then show ?thesis using ok(2) by simp
  next
    case (Suc k)
    then have "\<not> g < ns_geometryEndIndex (steps ! k)" using least [of k] P by (simp add: i_def)
    moreover have "ns_geometryStartIndex (steps ! Suc k) = ns_geometryEndIndex (steps ! k)"
      using assms(1) P Suc by (simp add: steps_ok_def i_def)
    ultimately show ?thesis by (simp add: Suc)
  qed
  with P show "\<exists>i. i < length steps \<and> ns_geometryStartIndex (steps ! i) \<le> g \<and>
      g < ns_geometryEndIndex (steps ! i)" by (auto simp: i_def)
next
  fix i j
  assume i: "i < length steps \<and> ns_geometryStartIndex (steps ! i) \<le> g \<and> g < ns_geometryEndIndex (steps ! i)"
    and j: "j < length steps \<and> ns_geometryStartIndex (steps ! j) \<le> g \<and> g < ns_geometryEndIndex (steps ! j)"
  show "i = j"
    using steps_monotone [OF assms(1), of j i] steps_monotone [OF assms(1), of i j] i j
    by (cases i j rule: linorder_cases) auto
qed

section \<open>Parsed paths\<close>

definition route_ok :: "provider_route \<Rightarrow> bool" where
  "route_ok r \<longleftrightarrow> 2 \<le> length (pr_coordinates r) \<and> length (pr_coordinates r) \<le> MAX_GEOMETRY_POINTS \<and>
     (\<forall>p\<in>set (pr_coordinates r). point_in_range p) \<and>
     js_le (Fin 1) (pr_distanceMeters r) \<and> is_integer (pr_distanceMeters r) \<and>
     js_le (Fin 1) (pr_durationSeconds r) \<and> steps_ok (pr_coordinates r) (pr_steps r)"

lemma parseCoordinate_Inr: "parseCoordinate v = Inr p \<longleftrightarrow> v = point_value p \<and> point_in_range p"
  by (cases p) (auto simp: parseCoordinate_def point_value_def split: jsval.splits list.splits if_splits)

lemma js_le_max: "x \<noteq> NaN \<Longrightarrow> y \<noteq> NaN \<Longrightarrow> js_le x (js_max x y)"
  by (cases x; cases y) (auto simp: js_max_def js_le_def)

lemma js_div_not_NaN: "is_finite x \<Longrightarrow> b \<noteq> 0 \<Longrightarrow> js_div x (Fin b) \<noteq> NaN"
  by (cases x) (auto simp: mk_num_def Let_def)

lemma parsePath_Inr:
  assumes "parsePath M v = Inr r"
  shows "route_ok r"
proof -
  obtain distance time items coordinates steps where
    parts: "isPositiveFiniteNumber distance" "isPositiveFiniteNumber time"
      "2 \<le> length items" "length items \<le> MAX_GEOMETRY_POINTS"
      "traverse parseCoordinate items = Inr coordinates"
      "parseInstructions M (jprop v ''instructions'') coordinates = Inr steps"
    and r: "r = \<lparr> pr_coordinates = coordinates,
        pr_distanceMeters = js_max (Fin 1) (js_round distance),
        pr_durationSeconds = js_max (Fin 1) (js_ceil (js_div time (Fin 1000))), pr_steps = steps \<rparr>"
    using assms unfolding parsePath_def
    by (auto simp: res_bind_Inr not_less split: jsval.splits if_splits)
  obtain d where d: "distance = Fin d"
    using parts(1) by (cases distance) (auto simp: isPositiveFiniteNumber_def)
  have "js_ceil (js_div time (Fin 1000)) \<noteq> NaN"
    using js_div_not_NaN [of time 1000] parts(2)
    by (cases "js_div time (Fin 1000)") (auto simp: isPositiveFiniteNumber_def)
  then have "js_le (Fin 1) (js_max (Fin 1) (js_ceil (js_div time (Fin 1000))))" by (simp add: js_le_max)
  moreover have "js_le (Fin 1) (js_max (Fin 1) (js_round distance))" by (simp add: js_le_max d)
  moreover have "is_integer (js_max (Fin 1) (js_round distance))" by (simp add: d js_max_def)
  moreover have "\<forall>p\<in>set coordinates. point_in_range p"
    using traverse_all [OF parts(5), of point_in_range] by (simp add: parseCoordinate_Inr)
  ultimately show ?thesis
    using parseInstructions_Inr [OF parts(6)] traverse_length [OF parts(5)] parts(3,4)
    by (simp add: route_ok_def r)
qed

lemma parseGraphHopperResponse_Inr:
  assumes "parseGraphHopperResponse M v = Inr routes"
  shows "routes \<noteq> []" and "r \<in> set routes \<Longrightarrow> route_ok r"
proof -
  obtain paths where "paths \<noteq> []" and parsed: "traverse (parsePath M) paths = Inr routes"
    using assms unfolding parseGraphHopperResponse_def by (auto split: jsval.splits if_splits)
  then show "routes \<noteq> []" using traverse_length [OF parsed] by auto
  show "r \<in> set routes \<Longrightarrow> route_ok r" using traverse_all [OF parsed, of route_ok] parsePath_Inr by blast
qed

section \<open>Bearings in range\<close>

text \<open>What the documentation of \<open>Math\<close> promises of the approximated functions.\<close>

definition math_ok :: "js_math \<Rightarrow> bool" where
  "math_ok M \<longleftrightarrow>
     (\<forall>a. \<exists>r. m_sin M (Fin a) = Fin r \<and> \<bar>r\<bar> \<le> 1) \<and> (\<forall>a. \<exists>r. m_cos M (Fin a) = Fin r \<and> \<bar>r\<bar> \<le> 1) \<and>
     (\<forall>b a. \<exists>r. m_atan2 M (Fin b) (Fin a) = Fin r \<and> js_le (Fin (- r)) js_PI \<and> js_le (Fin r) js_PI)"

definition bounded_by :: "int \<Rightarrow> jsnum \<Rightarrow> bool" where
  "bounded_by n x \<longleftrightarrow> (\<exists>r. x = Fin r \<and> \<bar>r\<bar> \<le> of_int n)"

lemma bounded_by_mk_num: "\<bar>q\<bar> \<le> of_int n \<Longrightarrow> n \<le> 2 ^ 53 \<Longrightarrow> bounded_by n (mk_num q)"
  unfolding bounded_by_def by (rule mk_num_bounded)

lemma bounded_by_mul :
  assumes "bounded_by m x" "bounded_by n y" "m * n \<le> 2 ^ 53" "0 \<le> m"
  shows "bounded_by (m * n) (js_mul x y)"
proof -
  from assms(1,2) obtain a b where "x = Fin a" "y = Fin b" "\<bar>a\<bar> \<le> of_int m" "\<bar>b\<bar> \<le> of_int n"
    by (auto simp: bounded_by_def)
  moreover have "\<bar>a * b\<bar> \<le> of_int (m * n)"
    using calculation(3,4) assms(4) by (simp add: abs_mult mult_mono)
  ultimately show ?thesis using assms(3) bounded_by_mk_num by simp
qed

lemma bounded_by_sub :
  assumes "bounded_by m x" "bounded_by n y" "m + n \<le> 2 ^ 53"
  shows "bounded_by (m + n) (js_sub x y)"
proof -
  from assms(1,2) obtain a b where "x = Fin a" "y = Fin b" "\<bar>a\<bar> \<le> of_int m" "\<bar>b\<bar> \<le> of_int n"
    by (auto simp: bounded_by_def)
  then show ?thesis using assms(3) bounded_by_mk_num [of "a + - b" "m + n"] by (simp add: js_sub_def)
qed

lemma bounded_by_Fin: "\<bar>a\<bar> \<le> of_int n \<Longrightarrow> bounded_by n (Fin a)"
  by (simp add: bounded_by_def)

lemma bounded_by_finite: "bounded_by n x \<Longrightarrow> \<exists>a. x = Fin a"
  by (auto simp: bounded_by_def)

lemma bounded_by_PI: "bounded_by 4 js_PI"
  unfolding js_PI_def by (rule bounded_by_Fin) simp

lemma bounded_by_radians:
  assumes "bounded_by 400 x"
  shows "bounded_by 10 (toRadians x)"
proof -
  have "bounded_by (400 * 4) (js_mul x js_PI)" by (rule bounded_by_mul) (simp_all add: assms bounded_by_PI)
  then obtain a where a: "js_mul x js_PI = Fin a" "\<bar>a\<bar> \<le> 1600" by (auto simp: bounded_by_def)
  then have "\<bar>a / 180\<bar> \<le> of_int 10" by (simp add: field_simps)
  then show ?thesis using bounded_by_mk_num [of "a / 180" 10] by (simp add: toRadians_def a(1))
qed

lemma bounded_by_trig:
  assumes "math_ok M" and "bounded_by n x"
  shows "bounded_by 1 (m_sin M x)" and "bounded_by 1 (m_cos M x)"
proof -
  obtain a where a: "x = Fin a" using assms(2) by (auto simp: bounded_by_def)
  show "bounded_by 1 (m_sin M x)" "bounded_by 1 (m_cos M x)"
    using assms(1) unfolding math_ok_def bounded_by_def a by auto
qed

lemma point_bounded_by: "point_in_range p \<Longrightarrow> bounded_by 180 (fst p) \<and> bounded_by 90 (snd p)"
  by (cases "fst p"; cases "snd p") (auto simp: point_in_range_def bounded_by_def)

definition bearing_ok :: "jsnum \<Rightarrow> bool" where
  "bearing_ok d \<longleftrightarrow> (\<exists>n. d = num_of_int n \<and> 0 \<le> n \<and> n < 360)"

text \<open>Adding a full turn to an angle of moderate size and reducing it gives a whole degree in range.\<close>

lemma reduced_bearing:
  assumes "bounded_by 240 b"
  shows "bearing_ok (js_rem (js_round (js_rem (js_add b (Fin 360)) (Fin 360))) (Fin 360))"
proof -
  obtain q where q: "b = Fin q" "\<bar>q\<bar> \<le> 240" using assms by (auto simp: bounded_by_def)
  have "\<bar>q + 360\<bar> \<le> of_int 600" using q(2) by (simp add: abs_le_iff)
  then have "bounded_by 600 (mk_num (q + 360))" by (rule bounded_by_mk_num) simp
  then obtain r where r: "mk_num (q + 360) = Fin r" by (auto simp: bounded_by_def)
  have "0 \<le> r"
  proof -
    have "0 \<le> q + 360" using q(2) by linarith
    then have "0 \<le> round_binary64 (q + 360)" using round_binary64_mono [of 0 "q + 360"] by simp
    with r show ?thesis by (auto simp: mk_num_def Let_def split: if_splits)
  qed
  define m where "m = r - 360 * of_int (trunc_rat (r / 360))"
  have m: "0 \<le> m" "m < 360"
  proof -
    have "of_int (floor (r / 360)) \<le> r / 360" "r / 360 < of_int (floor (r / 360)) + 1" by linarith+
    then show "0 \<le> m" "m < 360"
      using \<open>0 \<le> r\<close> by (simp_all add: m_def trunc_rat_def field_simps)
  qed
  define k where "k = floor (m + 1 / 2)"
  have k: "0 \<le> k" "k \<le> 360"
    using m by (simp_all add: k_def floor_le_iff)
  have "js_rem (Fin (of_int k)) (Fin 360) = num_of_int (if k = 360 then 0 else k)"
  proof (cases "k = 360")
    case True
    then show ?thesis by (simp add: trunc_rat_def num_of_int_def)
  next
    case False
    then have "floor (of_int k / 360 :: rat) = 0" using k by (intro floor_unique) simp_all
    with k False show ?thesis by (simp add: trunc_rat_def num_of_int_def)
  qed
  then have "js_rem (js_round (js_rem (js_add b (Fin 360)) (Fin 360))) (Fin 360) =
    num_of_int (if k = 360 then 0 else k)"
    by (simp add: q(1) r m_def [symmetric] k_def)
  then show ?thesis using k unfolding bearing_ok_def by (intro exI [of _ "if k = 360 then 0 else k"]) auto
qed

lemma bearingDegrees_ok:
  assumes M: "math_ok M" and "point_in_range a" "point_in_range b" "bearingDegrees M a b = Some d"
  shows "bearing_ok d"
proof -
  have a: "bounded_by 180 (fst a)" "bounded_by 90 (snd a)" and b: "bounded_by 180 (fst b)" "bounded_by 90 (snd b)"
    using assms(2,3) point_bounded_by by blast+
  have wide: "bounded_by 400 (snd a)" "bounded_by 400 (snd b)" "bounded_by 400 (js_sub (fst b) (fst a))"
    using a b bounded_by_sub [of 180 "fst b" 180 "fst a"] by (auto simp: bounded_by_def)
  note trig = bounded_by_trig [OF M bounded_by_radians [OF wide(1)]] bounded_by_trig [OF M bounded_by_radians [OF wide(2)]]
    bounded_by_trig [OF M bounded_by_radians [OF wide(3)]]
  define y where "y = js_mul (m_sin M (toRadians (js_sub (fst b) (fst a)))) (m_cos M (toRadians (snd b)))"
  define x where "x = js_sub (js_mul (m_cos M (toRadians (snd a))) (m_sin M (toRadians (snd b))))
    (js_mul (js_mul (m_sin M (toRadians (snd a))) (m_cos M (toRadians (snd b))))
      (m_cos M (toRadians (js_sub (fst b) (fst a)))))"
  have y: "bounded_by 1 y" unfolding y_def using bounded_by_mul [OF trig(5) trig(4)] by simp
  have "bounded_by 1 (js_mul (m_cos M (toRadians (snd a))) (m_sin M (toRadians (snd b))))"
    "bounded_by 1 (js_mul (js_mul (m_sin M (toRadians (snd a))) (m_cos M (toRadians (snd b))))
      (m_cos M (toRadians (js_sub (fst b) (fst a)))))"
    using bounded_by_mul [OF trig(2) trig(3)] bounded_by_mul [OF bounded_by_mul [OF trig(1) trig(4)] trig(6)] by simp_all
  then have x: "bounded_by 2 x" unfolding x_def using bounded_by_sub [of 1 _ 1] by simp
  obtain r where r: "m_atan2 M y x = Fin r" "js_le (Fin (- r)) js_PI" "js_le (Fin r) js_PI"
    using M bounded_by_finite [OF y] bounded_by_finite [OF x] unfolding math_ok_def by metis
  then have "\<bar>r\<bar> \<le> 4" by (auto simp: js_PI_def)
  then have "bounded_by (4 * 180) (js_mul (m_atan2 M y x) (Fin 180))"
    by (intro bounded_by_mul) (simp_all add: r(1) bounded_by_def)
  then obtain s where s: "js_mul (m_atan2 M y x) (Fin 180) = Fin s" "\<bar>s\<bar> \<le> 720"
    by (auto simp: bounded_by_def)
  have "\<bar>s / (884279719003555 / 281474976710656)\<bar> \<le> of_int 240"
    using s(2) by (simp add: field_simps abs_le_iff)
  then have "bounded_by 240 (js_div (js_mul (m_atan2 M y x) (Fin 180)) js_PI)"
    using bounded_by_mk_num [of "s / (884279719003555 / 281474976710656)" 240] by (simp add: s(1) js_PI_def)
  from reduced_bearing [OF this] show ?thesis
    using assms(4) by (auto simp: bearingDegrees_def Let_def x_def y_def split: if_splits)
qed

lemma first_some_SomeD: "first_some f xs = Some y \<Longrightarrow> \<exists>x\<in>set xs. f x = Some y"
  by (induction xs) (auto split: option.splits)

lemma index_bearings_ok:
  assumes "math_ok M" and "\<forall>p\<in>set coordinates. point_in_range p"
  shows "bearingBeforeIndex M coordinates i = Some d \<Longrightarrow> i < length coordinates \<Longrightarrow> bearing_ok d"
    and "bearingAfterIndex M coordinates i = Some d \<Longrightarrow> bearing_ok d"
proof -
  have ok: "bearingDegrees M (coordinates ! j) (coordinates ! k) = Some d \<Longrightarrow> bearing_ok d"
    if "j < length coordinates" "k < length coordinates" for j k
    using bearingDegrees_ok [OF assms(1)] assms(2) nth_mem that by blast
  show "bearing_ok d" if hit: "bearingBeforeIndex M coordinates i = Some d" "i < length coordinates"
  proof -
    obtain e where "e \<in> set (rev [1..<Suc i])" "bearingDegrees M (coordinates ! (e - 1)) (coordinates ! e) = Some d"
      using first_some_SomeD [OF hit(1) [unfolded bearingBeforeIndex_def]] by blast
    then show ?thesis using ok [of "e - 1" e] hit(2) by auto
  qed
  show "bearing_ok d" if hit: "bearingAfterIndex M coordinates i = Some d"
  proof -
    obtain e where "e \<in> set [i..<length coordinates - 1]"
      "bearingDegrees M (coordinates ! e) (coordinates ! (e + 1)) = Some d"
      using first_some_SomeD [OF hit [unfolded bearingAfterIndex_def]] by blast
    then show ?thesis using ok [of e "e + 1"] by auto
  qed
qed

section \<open>Turns\<close>

text \<open>The turn between two bearings, in degrees from \<open>- 180\<close> up to but excluding \<open>180\<close>, right positive.\<close>

definition turn_degrees :: "int \<Rightarrow> int \<Rightarrow> int" where
  "turn_degrees before after = (after - before + 180) mod 360 - 180"

fun turn_modifier :: "int \<Rightarrow> nav_modifier" where
  "turn_modifier t =
     (if \<bar>t\<bar> < 15 then MM_STRAIGHT
      else if 165 \<le> \<bar>t\<bar> then MM_U_TURN
      else if t < 0 then (if - t < 45 then MM_SLIGHT_LEFT else if - t < 135 then MM_LEFT else MM_SHARP_LEFT)
      else (if t < 45 then MM_SLIGHT_RIGHT else if t < 135 then MM_RIGHT else MM_SHARP_RIGHT))"

lemma js_int_ops:
  "\<bar>a + b\<bar> \<le> 2 ^ 53 \<Longrightarrow> js_add (num_of_int a) (num_of_int b) = num_of_int (a + b)"
  "\<bar>a - b\<bar> \<le> 2 ^ 53 \<Longrightarrow> js_sub (num_of_int a) (num_of_int b) = num_of_int (a - b)"
  "js_abs (num_of_int a) = num_of_int \<bar>a\<bar>"
  using mk_num_int [of "a + b"] mk_num_int [of "a - b"]
  by (simp_all add: num_of_int_def js_sub_def)

lemma js_rem_int:
  assumes "0 \<le> a" and "0 < b"
  shows "js_rem (num_of_int a) (num_of_int b) = num_of_int (a mod b)"
proof -
  have "floor (of_int a / of_int b :: rat) = a div b" by (rule floor_divide_of_int_eq)
  then show ?thesis
    using assms by (simp add: num_of_int_def trunc_rat_def minus_div_mult_eq_mod [symmetric] algebra_simps)
qed

lemma num_of_int_numerals:
  "Fin (numeral n) = num_of_int (numeral n)" "Fin 0 = num_of_int 0"
  by (simp_all add: num_of_int_def)

lemma normalizeTurn_int:
  assumes "\<bar>d\<bar> < 360"
  shows "normalizeTurnDegrees (num_of_int d) = num_of_int ((d + 180) mod 360 - 180)"
proof -
  have m: "(d + 540) mod 360 = (d + 180) mod 360"
    using mod_add_self2 [of "d + 180" 360] by (simp add: ac_simps)
  have "0 \<le> (d + 180) mod 360" "(d + 180) mod 360 < 360" by simp_all
  then show ?thesis
    using assms
    by (simp add: normalizeTurnDegrees_def num_of_int_numerals js_int_ops js_rem_int m)
qed

lemma modifier_of_bearings:
  assumes "0 \<le> a" "a < 360" "0 \<le> b" "b < 360"
  shows "modifierFromBearings (Some (num_of_int a)) (Some (num_of_int b)) = turn_modifier (turn_degrees a b)"
proof -
  have "js_sub (num_of_int b) (num_of_int a) = num_of_int (b - a)" using assms by (simp add: js_int_ops)
  then have "normalizeTurnDegrees (js_sub (num_of_int b) (num_of_int a)) = num_of_int (turn_degrees a b)"
    using normalizeTurn_int [of "b - a"] assms by (simp add: turn_degrees_def)
  then show ?thesis
    by (simp add: Let_def num_of_int_numerals js_int_ops)
qed

section \<open>Duplicates\<close>

definition fingerprint :: "(string \<Rightarrow> string) \<Rightarrow> provider_route \<Rightarrow> string" where
  "fingerprint sha256hex r = sha256hex (canonicalGeometry (pr_coordinates r))"

lemma dedupe_nth:
  "dedupe sha seen rs = map (nth rs) (filter (\<lambda>i. fingerprint sha (rs ! i) \<notin> seen \<and>
     (\<forall>j<i. fingerprint sha (rs ! j) \<noteq> fingerprint sha (rs ! i))) [0..<length rs])"
proof (induction rs arbitrary: seen)
  case (Cons r rs)
  have split: "[0..<length (r # rs)] = 0 # map Suc [0..<length rs]"
    unfolding map_Suc_upt by (simp add: upt_conv_Cons del: upt_Suc)
  have all: "(\<forall>j<Suc i. P j) \<longleftrightarrow> P 0 \<and> (\<forall>j<i. P (Suc j))" for P i
    using less_Suc_eq_0_disj by auto
  show ?case
    unfolding split by (auto simp: Let_def Cons.IH filter_map o_def all fingerprint_def
        intro!: arg_cong [where f = "map (nth rs)"] filter_cong)
qed simp

lemma dedupe_distinct: "distinct (map (fingerprint sha) (dedupe sha seen rs)) \<and>
  set (map (fingerprint sha) (dedupe sha seen rs)) = fingerprint sha ` set rs - seen"
  by (induction rs arbitrary: seen) (auto simp: Let_def fingerprint_def)

lemma set_dedupe: "set (dedupe sha seen rs) \<subseteq> set rs"
  by (induction rs arbitrary: seen) (auto simp: Let_def)

definition rounded_geometry :: "provider_route \<Rightarrow> (string \<times> string) list" where
  "rounded_geometry r = map (\<lambda>p. (to_fixed 6 (fst p), to_fixed 6 (snd p))) (pr_coordinates r)"

lemma in_range_text:
  assumes "point_in_range p"
  shows "list_all number_char (to_fixed 6 (fst p))" "list_all number_char (to_fixed 6 (snd p))"
proof -
  obtain a b where "fst p = Fin a" "snd p = Fin b" "\<bar>a\<bar> \<le> 180" "\<bar>b\<bar> \<le> 90"
    using point_bounded_by [OF assms] by (auto simp: bounded_by_def)
  then show "list_all number_char (to_fixed 6 (fst p))" "list_all number_char (to_fixed 6 (snd p))"
    using to_fixed_chars [of a 6] to_fixed_chars [of b 6] by (simp_all del: to_fixed.simps)
qed

lemma no_seps:
  assumes "list_all number_char s"
  shows "CHR '','' \<notin> set s" "CHR '';'' \<notin> set s"
  using assms number_char_seps by (auto simp: list_all_iff)

lemma coordinate_text_inject:
  assumes "point_in_range p" "point_in_range q" "coordinate_text p = coordinate_text q"
  shows "to_fixed 6 (fst p) = to_fixed 6 (fst q) \<and> to_fixed 6 (snd p) = to_fixed 6 (snd q)"
  using assms(3) no_seps(1) [OF in_range_text(1)] assms(1,2)
  by (intro split_unique [where c = "CHR '',''"]) (simp_all add: coordinate_text_def)

lemma canonicalGeometry_inject:
  assumes "\<forall>p\<in>set xs. point_in_range p" "\<forall>p\<in>set ys. point_in_range p" "xs \<noteq> []" "ys \<noteq> []"
  shows "canonicalGeometry xs = canonicalGeometry ys \<longleftrightarrow>
    map (\<lambda>p. (to_fixed 6 (fst p), to_fixed 6 (snd p))) xs = map (\<lambda>p. (to_fixed 6 (fst p), to_fixed 6 (snd p))) ys"
    (is "_ \<longleftrightarrow> map ?f xs = map ?f ys")
proof
  assume same: "canonicalGeometry xs = canonicalGeometry ys"
  have sep: "CHR '';'' \<notin> set (coordinate_text p)" if "point_in_range p" for p
    using no_seps(2) [OF in_range_text(1) [OF that]] no_seps(2) [OF in_range_text(2) [OF that]]
    by (simp add: coordinate_text_def)
  have "map coordinate_text xs = map coordinate_text ys"
    using same assms sep by (intro join_inject [where c = "CHR '';''"]) (auto simp: canonicalGeometry_def)
  then show "map ?f xs = map ?f ys"
    using assms(1,2)
  proof (induction xs arbitrary: ys)
    case (Cons x xs)
    then obtain y zs where "ys = y # zs" by (cases ys) auto
    with Cons coordinate_text_inject [of x y] show ?case by simp
  qed simp
next
  assume "map ?f xs = map ?f ys"
  then have "map ((\<lambda>(a, b). a @ '','' @ b) \<circ> ?f) xs = map ((\<lambda>(a, b). a @ '','' @ b) \<circ> ?f) ys"
    by (metis map_map)
  then show "canonicalGeometry xs = canonicalGeometry ys"
    by (simp add: canonicalGeometry_def coordinate_text_def [abs_def] o_def)
qed

section \<open>The bearings of parsed steps\<close>

lemma parsed_step_cases:
  assumes "parseGraphHopperResponse M payload = Inr routes" and "r \<in> set routes" and "s \<in> set (pr_steps r)"
  obtains index sign instr streetName distance time i j where
    "s = parsed_step M (pr_coordinates r) index sign instr streetName distance time i j"
    "i \<le> j" "j < length (pr_coordinates r)"
proof -
  obtain paths where paths: "traverse (parsePath M) paths = Inr routes"
    using assms(1) unfolding parseGraphHopperResponse_def by (auto split: jsval.splits if_splits)
  then obtain v where "parsePath M v = Inr r"
    using traverse_all [OF paths, of "\<lambda>r. \<exists>v. parsePath M v = Inr r"] assms(2) by blast
  then obtain w where "parseInstructions M w (pr_coordinates r) = Inr (pr_steps r)"
    unfolding parsePath_def by (auto simp: res_bind_Inr split: jsval.splits if_splits)
  then obtain items where items: "traverse (parseInstruction M (pr_coordinates r)) items = Inr (pr_steps r)"
    unfolding parseInstructions_def by (auto simp: res_bind_Inr Let_def split: jsval.splits if_splits)
  then obtain x where "parseInstruction M (pr_coordinates r) x = Inr s"
    using traverse_all [OF items, of "\<lambda>s. \<exists>x. parseInstruction M (pr_coordinates r) x = Inr s"] assms(3)
    by blast
  then show thesis
    unfolding parseInstruction_def
    by (auto simp: Let_def not_less split: prod.splits jsval.splits list.splits if_splits intro!: that)
qed

lemma mapManoeuvre_roundabout:
  "fst (mapManoeuvre sign isFirst b a) \<in> {MT_ROUNDABOUT, MT_EXIT_ROUNDABOUT} \<Longrightarrow>
     snd (mapManoeuvre sign isFirst b a) = modifierFromBearings b a"
  by (auto simp: mapManoeuvre_def split: if_splits)

lemma parsed_step_bearings:
  assumes "math_ok M" and "parseGraphHopperResponse M payload = Inr routes"
    and "r \<in> set routes" and "s \<in> set (pr_steps r)"
  shows "mv_bearingBefore (ns_manoeuvre s) = Some d \<Longrightarrow> bearing_ok d"
    and "mv_bearingAfter (ns_manoeuvre s) = Some d \<Longrightarrow> bearing_ok d"
    and "mv_type (ns_manoeuvre s) \<in> {MT_ROUNDABOUT, MT_EXIT_ROUNDABOUT} \<Longrightarrow>
      mv_modifier (ns_manoeuvre s) =
        (case (mv_bearingBefore (ns_manoeuvre s), mv_bearingAfter (ns_manoeuvre s)) of
           (Some b, Some a) \<Rightarrow> turn_modifier (turn_degrees (int_of_num b) (int_of_num a))
         | _ \<Rightarrow> MM_STRAIGHT)"
proof -
  obtain index sign instr streetName distance time i j where
    s: "s = parsed_step M (pr_coordinates r) index sign instr streetName distance time i j"
    and j: "i \<le> j" "j < length (pr_coordinates r)"
    using parsed_step_cases [OF assms(2-4)] .
  have range: "\<forall>p\<in>set (pr_coordinates r). point_in_range p"
    using parseGraphHopperResponse_Inr(2) [OF assms(2,3)] by (simp add: route_ok_def)
  note ok = index_bearings_ok [OF assms(1) range, of i]
  show before: "mv_bearingBefore (ns_manoeuvre s) = Some d \<Longrightarrow> bearing_ok d" for d
    using ok(1) j by (simp add: s parsed_step_def Let_def)
  show after: "mv_bearingAfter (ns_manoeuvre s) = Some d \<Longrightarrow> bearing_ok d" for d
    using ok(2) by (simp add: s parsed_step_def Let_def split: if_splits)
  assume kind: "mv_type (ns_manoeuvre s) \<in> {MT_ROUNDABOUT, MT_EXIT_ROUNDABOUT}"
  then have "mv_modifier (ns_manoeuvre s) =
    modifierFromBearings (mv_bearingBefore (ns_manoeuvre s)) (mv_bearingAfter (ns_manoeuvre s))"
    using mapManoeuvre_roundabout by (auto simp: s parsed_step_def Let_def)
  then show "mv_modifier (ns_manoeuvre s) =
        (case (mv_bearingBefore (ns_manoeuvre s), mv_bearingAfter (ns_manoeuvre s)) of
           (Some b, Some a) \<Rightarrow> turn_modifier (turn_degrees (int_of_num b) (int_of_num a))
         | _ \<Rightarrow> MM_STRAIGHT)"
    using before after modifier_of_bearings
    by (auto simp: bearing_ok_def simp del: modifierFromBearings.simps(1) turn_modifier.simps
        split: option.splits)
qed

section \<open>Errors of a preview\<close>

lemma parse_errors:
  "parseInstruction M coordinates x = Inl e \<Longrightarrow> e = RE_INVALID_RESPONSE"
  "parseCoordinate v = Inl e \<Longrightarrow> e = RE_INVALID_RESPONSE"
  "parseInstructions M v coordinates = Inl e \<Longrightarrow> e = RE_INVALID_RESPONSE"
  "parsePath M v = Inl e \<Longrightarrow> e = RE_INVALID_RESPONSE"
  "parseGraphHopperResponse M v = Inl e \<Longrightarrow> e \<in> {RE_INVALID_RESPONSE, RE_NO_ROUTE}"
proof -
  show inst: "parseInstruction M coordinates x = Inl e \<Longrightarrow> e = RE_INVALID_RESPONSE" for coordinates x e
    unfolding parseInstruction_def
    by (auto simp: Let_def split: prod.splits jsval.splits list.splits if_splits)
  show coord: "parseCoordinate v = Inl e \<Longrightarrow> e = RE_INVALID_RESPONSE" for v e
    unfolding parseCoordinate_def by (auto split: jsval.splits list.splits if_splits)
  show insts: "parseInstructions M v coordinates = Inl e \<Longrightarrow> e = RE_INVALID_RESPONSE" for v coordinates e
    unfolding parseInstructions_def
    by (auto simp: res_bind_Inl Let_def dest!: traverse_Inl inst split: jsval.splits if_splits)
  show path: "parsePath M v = Inl e \<Longrightarrow> e = RE_INVALID_RESPONSE" for v e
    unfolding parsePath_def
    by (auto simp: res_bind_Inl dest!: traverse_Inl coord insts split: jsval.splits if_splits)
  show "parseGraphHopperResponse M v = Inl e \<Longrightarrow> e \<in> {RE_INVALID_RESPONSE, RE_NO_ROUTE}"
    unfolding parseGraphHopperResponse_def
    by (auto dest!: traverse_Inl path split: jsval.splits if_splits)
qed

lemma fetchJson_errors:
  assumes "fetchJson jsonParse fetched = Inl e"
  shows "e = RE_TIMEOUT \<Longrightarrow> fetched = Rejected True \<or> (\<exists>s. fetched = Responded s \<and> rs_text s = Inl True)"
    and "e = RE_UNAVAILABLE \<Longrightarrow> fetched = Rejected False \<or>
      (\<exists>s. fetched = Responded s \<and> (rs_text s = Inl False \<or> 500 \<le> rs_status s))"
  using assms unfolding fetchJson_def transport_error_def classifyHttpFailure_def
  by (auto simp: Let_def split: fetch_result.splits sum.splits if_splits option.splits)

lemma payload_errors: "preview_payload sha256hex config request = Inl e \<Longrightarrow> e = RE_INVALID_RESPONSE"
  unfolding preview_payload_def buildCustomModel_def
  by (auto simp: Let_def res_bind_Inl split: if_splits option.splits)

lemma preview_errors:
  assumes "gh_preview M sha256hex jsonParse config post request = Inl e"
  shows "e = RE_TIMEOUT \<Longrightarrow> \<exists>url p. post url p = Rejected True \<or>
          (\<exists>s. post url p = Responded s \<and> rs_text s = Inl True)"
    and "e = RE_UNAVAILABLE \<Longrightarrow> \<exists>url p. post url p = Rejected False \<or>
          (\<exists>s. post url p = Responded s \<and> (rs_text s = Inl False \<or> 500 \<le> rs_status s))"
proof -
  consider "e \<in> {RE_INVALID_RESPONSE, RE_NO_ROUTE}"
    | url p where "fetchJson jsonParse (post url p) = Inl e"
    using assms payload_errors parse_errors(5) unfolding gh_preview_def
    by (fastforce simp: res_bind_Inl Let_def split: if_splits)
  note cases = this
  show "\<exists>url p. post url p = Rejected True \<or> (\<exists>s. post url p = Responded s \<and> rs_text s = Inl True)"
    if "e = RE_TIMEOUT" using cases fetchJson_errors(1) that by cases blast+
  show "\<exists>url p. post url p = Rejected False \<or>
          (\<exists>s. post url p = Responded s \<and> (rs_text s = Inl False \<or> 500 \<le> rs_status s))"
    if "e = RE_UNAVAILABLE" using cases fetchJson_errors(2) that by cases blast+
qed

lemma parsed_nonempty: "parseGraphHopperResponse M payload = Inr routes \<Longrightarrow> routes \<noteq> []"
  by (rule parseGraphHopperResponse_Inr(1))

section \<open>A sample response\<close>

definition flat_math :: js_math where
  "flat_math = \<lparr> m_sin = (\<lambda>_. Fin 0), m_cos = (\<lambda>_. Fin 1), m_asin = (\<lambda>_. Fin 0), m_sqrt = (\<lambda>x. x),
     m_atan2 = (\<lambda>_ _. Fin 0), m_square = (\<lambda>x. x) \<rparr>"

lemma flat_math_ok: "math_ok flat_math"
  by (simp add: math_ok_def flat_math_def js_PI_def)

definition sample_instruction :: "int \<Rightarrow> int \<Rightarrow> int \<Rightarrow> jsval" where
  "sample_instruction sign i j = JObj [
     (''sign'', JNum (num_of_int sign)), (''text'', JStr ''Go''), (''street_name'', JStr ''A''),
     (''distance'', JNum (Fin 10)), (''time'', JNum (Fin 2000)),
     (''interval'', JArr [JNum (num_of_int i), JNum (num_of_int j)])]"

definition sample_coordinates :: "rat \<Rightarrow> point list" where
  "sample_coordinates y = [(Fin 0, Fin 0), (Fin 0, Fin y)]"

definition sample_path :: "rat \<Rightarrow> jsval" where
  "sample_path y = JObj [
     (''distance'', JNum (Fin 10)), (''time'', JNum (Fin 2000)),
     (''points'', JObj [(''type'', JStr ''LineString''),
        (''coordinates'', JArr [point_value (Fin 0, Fin 0), point_value (Fin 0, Fin y)])]),
     (''instructions'', JArr [sample_instruction 6 0 1, sample_instruction 6 1 1, sample_instruction 4 1 1])]"

definition sample_response :: jsval where
  "sample_response = JObj [(''paths'', JArr [sample_path 1, sample_path 2])]"

definition sample_steps :: "rat \<Rightarrow> nav_step list" where
  "sample_steps y = [
     parsed_step flat_math (sample_coordinates y) 0 6 ''Go'' ''A'' (Fin 10) (Fin 2000) 0 1,
     parsed_step flat_math (sample_coordinates y) 1 6 ''Go'' ''A'' (Fin 10) (Fin 2000) 1 1,
     parsed_step flat_math (sample_coordinates y) 2 4 ''Go'' ''A'' (Fin 10) (Fin 2000) 1 1]"

definition sample_route :: "rat \<Rightarrow> provider_route" where
  "sample_route y = \<lparr> pr_coordinates = sample_coordinates y, pr_distanceMeters = Fin 10,
     pr_durationSeconds = Fin 2, pr_steps = sample_steps y \<rparr>"

definition sample_routes :: "provider_route list" where
  "sample_routes = [sample_route 1, sample_route 2]"

lemma sample_instruction_parses:
  assumes "i \<le> j" and "j < 2"
  shows "parseInstruction flat_math (sample_coordinates y) (n, sample_instruction sign (int i) (int j)) =
    Inr (parsed_step flat_math (sample_coordinates y) n sign ''Go'' ''A'' (Fin 10) (Fin 2000) i j)"
  using assms
  by (simp add: parseInstruction_def sample_instruction_def MAX_INSTRUCTION_LENGTH_def sample_coordinates_def
      isNonNegativeFiniteNumber_def isNonNegativeInteger_def num_of_int_def)

lemma sample_steps_parse:
  "parseInstructions flat_math (JArr [sample_instruction 6 0 1, sample_instruction 6 1 1,
     sample_instruction 4 1 1]) (sample_coordinates y) = Inr (sample_steps y)"
proof -
  note parses = sample_instruction_parses [of 0 1 y] sample_instruction_parses [of 1 1 y]
  show ?thesis
    using parses
    by (simp add: parseInstructions_def MAX_NAVIGATION_STEPS_def enumerate_eq_zip upt_rec sample_steps_def
        parsed_step_def Let_def is_arrival_def mapManoeuvre_def steps_linked_def sample_coordinates_def)
qed

lemma sample_coordinates_parse:
  "y \<in> {1, 2} \<Longrightarrow>
     traverse parseCoordinate [point_value (Fin 0, Fin 0), point_value (Fin 0, Fin y)] = Inr (sample_coordinates y)"
  by (auto simp: parseCoordinate_def point_value_def point_in_range_def sample_coordinates_def)

lemma sample_floors: "floor (21 / 2 :: rat) = 10" "floor (1 / 2 :: rat) = 0"
  by (simp_all add: floor_eq_iff)

lemma sample_path_parses: "y \<in> {1, 2} \<Longrightarrow> parsePath flat_math (sample_path y) = Inr (sample_route y)"
  using sample_steps_parse [of y] sample_coordinates_parse [of y]
  by (simp add: sample_path_def parsePath_def isPositiveFiniteNumber_def MAX_GEOMETRY_POINTS_def
      sample_route_def js_num_simps js_max_def sample_floors)

lemma sample_parses: "parseGraphHopperResponse flat_math sample_response = Inr sample_routes"
  using sample_path_parses [of 1] sample_path_parses [of 2]
  by (simp add: parseGraphHopperResponse_def sample_response_def sample_routes_def)

lemma sample_fixed: "to_fixed 6 (Fin 1) = ''1.000000''" "to_fixed 6 (Fin 2) = ''2.000000''"
proof -
  have "to_fixed_scaled 6 1 = 1000000" "to_fixed_scaled 6 2 = 2000000"
    by (simp_all add: to_fixed_scaled_def Let_def floor_eq_iff)
  moreover have "show_nat 1000000 = ''1000000''" "show_nat 2000000 = ''2000000''"
    by (simp_all add: show_nat.simps char_of_def bit_Suc_0_iff)
  ultimately show "to_fixed 6 (Fin 1) = ''1.000000''" "to_fixed 6 (Fin 2) = ''2.000000''"
    by (simp_all add: fixed_digits_def Let_def zeros_def)
qed

lemma sample_distinct: "deduplicateRoutes id sample_routes = sample_routes"
proof -
  have "canonicalGeometry (sample_coordinates 1) \<noteq> canonicalGeometry (sample_coordinates 2)"
    using sample_fixed
    by (simp add: canonicalGeometry_def sample_coordinates_def coordinate_text_def del: to_fixed.simps)
  then show ?thesis by (simp add: deduplicateRoutes_def sample_routes_def sample_route_def Let_def)
qed

lemma sample_bearing: "bearingDegrees flat_math (Fin 0, Fin 0) (Fin 0, Fin 1) = Some (num_of_int 0)"
  by (simp add: bearingDegrees_def Let_def flat_math_def js_PI_def js_num_simps trunc_rat_def num_of_int_def
      sample_floors)

definition sample_routing_request :: routing_request where
  "sample_routing_request = \<lparr> rq_origin = \<lparr> rp_latitude = Fin 0, rp_longitude = Fin 0 \<rparr>,
     rq_destination = \<lparr> rp_latitude = Fin 1, rp_longitude = Fin 0 \<rparr>,
     rq_travelMode = CAR, rq_alternatives = 1, rq_hazards = [] \<rparr>"

definition sample_post :: "string \<Rightarrow> jsval \<Rightarrow> fetch_result" where
  "sample_post url payload =
     Responded \<lparr> rs_declaredLength = Fin 0, rs_status = 200, rs_text = Inr ''x'' \<rparr>"

section \<open>Properties\<close>

text \<open>
  C16: A path that the parser accepts has coordinates in range, a positive whole distance, a
  positive duration and steps that are numbered in order and partition its geometry: every
  segment between neighbouring points lies in exactly one step. The last step, and after the
  first no other, is the arrival at the last point.
\<close>

theorem parsed_routes_ok:
  assumes "parseGraphHopperResponse M payload = Inr routes"
  shows "routes \<noteq> [] \<and> (\<forall>r\<in>set routes. route_ok r \<and>
    (\<forall>g<length (pr_coordinates r) - 1. \<exists>!i. i < length (pr_steps r) \<and>
       ns_geometryStartIndex (pr_steps r ! i) \<le> g \<and> g < ns_geometryEndIndex (pr_steps r ! i)))"
  using parseGraphHopperResponse_Inr [OF assms] steps_cover by (fastforce simp: route_ok_def)

theorem parsed_routes_ok_witness: "sample_routes \<noteq> [] \<and> list_all route_ok sample_routes"
  using parsed_routes_ok [OF sample_parses] by (simp add: list_all_iff)

text \<open>
  For any sine, cosine and arc tangent within their documented ranges, every bearing reported
  with a step is a whole number of degrees from 0 to 359, and the modifier of a roundabout step is
  the direction of the turn between its two bearings, reduced to the interval from -180 to 180.
\<close>

theorem parsed_bearings:
  assumes "math_ok M" and "parseGraphHopperResponse M payload = Inr routes"
    and "r \<in> set routes" and "s \<in> set (pr_steps r)"
  shows "(\<forall>d. mv_bearingBefore (ns_manoeuvre s) = Some d \<or> mv_bearingAfter (ns_manoeuvre s) = Some d \<longrightarrow>
      (\<exists>n. d = num_of_int n \<and> 0 \<le> n \<and> n < 360)) \<and>
    (mv_type (ns_manoeuvre s) \<in> {MT_ROUNDABOUT, MT_EXIT_ROUNDABOUT} \<longrightarrow>
      mv_modifier (ns_manoeuvre s) =
        (case (mv_bearingBefore (ns_manoeuvre s), mv_bearingAfter (ns_manoeuvre s)) of
           (Some b, Some a) \<Rightarrow> turn_modifier (turn_degrees (int_of_num b) (int_of_num a))
         | _ \<Rightarrow> MM_STRAIGHT))"
  using parsed_step_bearings [OF assms] unfolding bearing_ok_def by blast

theorem parsed_bearings_witness:
  "\<exists>r s. r \<in> set sample_routes \<and> s \<in> set (pr_steps r) \<and>
     mv_bearingAfter (ns_manoeuvre s) = Some (num_of_int 0) \<and>
     (\<exists>n. num_of_int 0 = num_of_int n \<and> 0 \<le> n \<and> n < 360)"
proof -
  let ?r = "hd sample_routes" and ?s = "hd (sample_steps 1)"
  have r: "?r \<in> set sample_routes" "?s \<in> set (pr_steps ?r)"
    by (simp_all add: sample_routes_def sample_route_def sample_steps_def)
  have "bearingAfterIndex flat_math (sample_coordinates 1) 0 = Some (num_of_int 0)"
    using sample_bearing by (simp add: bearingAfterIndex_def sample_coordinates_def upt_rec)
  then have "mv_bearingAfter (ns_manoeuvre ?s) = Some (num_of_int 0)"
    by (simp add: sample_steps_def parsed_step_def mapManoeuvre_def Let_def)
  with parsed_bearings [OF flat_math_ok sample_parses r] r show ?thesis by blast
qed

text \<open>
  Removing duplicates keeps, in order, the first of all routes whose geometries agree to six
  decimals, and only that one, when the digest does not collide on the geometries at hand.
\<close>

theorem deduplicate_spec:
  assumes "\<forall>r\<in>set routes. route_ok r"
    and "inj_on sha256hex ((\<lambda>r. canonicalGeometry (pr_coordinates r)) ` set routes)"
  shows "deduplicateRoutes sha256hex routes = map (nth routes)
    (filter (\<lambda>i. \<forall>j<i. rounded_geometry (routes ! j) \<noteq> rounded_geometry (routes ! i)) [0..<length routes])"
proof -
  have same: "fingerprint sha256hex r = fingerprint sha256hex q \<longleftrightarrow> rounded_geometry r = rounded_geometry q"
    if "r \<in> set routes" "q \<in> set routes" for r q
  proof -
    have "fingerprint sha256hex r = fingerprint sha256hex q \<longleftrightarrow>
      canonicalGeometry (pr_coordinates r) = canonicalGeometry (pr_coordinates q)"
      using inj_on_eq_iff [OF assms(2)] that by (simp add: fingerprint_def)
    also have "\<dots> \<longleftrightarrow> rounded_geometry r = rounded_geometry q"
      unfolding rounded_geometry_def using assms(1) that
      by (intro canonicalGeometry_inject) (auto simp: route_ok_def)
    finally show ?thesis .
  qed
  show ?thesis
    unfolding deduplicateRoutes_def dedupe_nth
    by (intro arg_cong [where f = "map (nth routes)"] filter_cong) (auto simp: same)
qed

theorem deduplicate_spec_witness:
  "list_all route_ok sample_routes \<and>
   deduplicateRoutes id (sample_routes @ sample_routes) = map (nth (sample_routes @ sample_routes))
    (filter (\<lambda>i. \<forall>j<i. rounded_geometry ((sample_routes @ sample_routes) ! j) \<noteq>
        rounded_geometry ((sample_routes @ sample_routes) ! i)) [0..<length (sample_routes @ sample_routes)])"
proof -
  have ok: "\<forall>r\<in>set sample_routes. route_ok r" using parseGraphHopperResponse_Inr(2) [OF sample_parses] by blast
  then show ?thesis by (intro conjI deduplicate_spec) (auto simp: list_all_iff)
qed

text \<open>
  C17: A successful preview returns at least one route and at most one more than the alternatives
  asked for, each well formed and snapped to within 500 metres of both requested points, no two
  with the same geometry. It reports a timeout only when the request was aborted, and an
  unavailable engine only when the request failed otherwise or the engine answered with a server
  error.
\<close>

theorem gh_preview_result:
  "case gh_preview M sha256hex jsonParse config post request of
     Inr routes \<Rightarrow> routes \<noteq> [] \<and> length routes \<le> rq_alternatives request + 1 \<and>
       distinct (map (fingerprint sha256hex) routes) \<and>
       (\<forall>r\<in>set routes. route_ok r \<and> hasAcceptableEndpointSnapping M r request)
   | Inl e \<Rightarrow>
       (e = RE_TIMEOUT \<longrightarrow> (\<exists>url p. post url p = Rejected True \<or>
          (\<exists>s. post url p = Responded s \<and> rs_text s = Inl True))) \<and>
       (e = RE_UNAVAILABLE \<longrightarrow> (\<exists>url p. post url p = Rejected False \<or>
          (\<exists>s. post url p = Responded s \<and> (rs_text s = Inl False \<or> 500 \<le> rs_status s))))"
proof (cases "gh_preview M sha256hex jsonParse config post request")
  case (Inr routes)
  then obtain payload paths where paths: "parseGraphHopperResponse M payload = Inr paths"
    and near: "filter (\<lambda>r. hasAcceptableEndpointSnapping M r request) (deduplicateRoutes sha256hex paths) \<noteq> []"
    and routes: "routes = take (rq_alternatives request + 1)
      (filter (\<lambda>r. hasAcceptableEndpointSnapping M r request) (deduplicateRoutes sha256hex paths))"
    unfolding gh_preview_def by (auto simp: res_bind_Inr Let_def split: if_splits)
  have "distinct (map (fingerprint sha256hex) (deduplicateRoutes sha256hex paths))"
    using dedupe_distinct by (simp add: deduplicateRoutes_def)
  then have "distinct (map (fingerprint sha256hex) routes)"
    unfolding routes take_map [symmetric] by (intro distinct_take distinct_map_filter)
  moreover have "route_ok r \<and> hasAcceptableEndpointSnapping M r request" if r: "r \<in> set routes" for r
  proof -
    have "r \<in> set (deduplicateRoutes sha256hex paths)" "hasAcceptableEndpointSnapping M r request"
      using in_set_takeD [OF r [unfolded routes]] by simp_all
    then show ?thesis
      using parseGraphHopperResponse_Inr(2) [OF paths] set_dedupe [of sha256hex "{}" paths]
      unfolding deduplicateRoutes_def by blast
  qed
  moreover have "routes \<noteq> []" "length routes \<le> rq_alternatives request + 1"
    using near by (simp_all add: routes)
  ultimately show ?thesis unfolding Inr sum.case by blast
next
  case (Inl e)
  then show ?thesis using preview_errors [OF Inl] by auto
qed

theorem gh_preview_result_witness:
  "\<exists>routes. gh_preview flat_math id (\<lambda>_. Some sample_response) \<lparr> gh_baseUrl = ''u'', gh_timeoutMs = 1000 \<rparr>
     sample_post sample_routing_request = Inr routes \<and> routes \<noteq> [] \<and> length routes \<le> 2"
proof -
  let ?r = "gh_preview flat_math id (\<lambda>_. Some sample_response) \<lparr> gh_baseUrl = ''u'', gh_timeoutMs = 1000 \<rparr>
    sample_post sample_routing_request"
  have "hasAcceptableEndpointSnapping flat_math r sample_routing_request" for r
    by (simp add: hasAcceptableEndpointSnapping_def distanceMeters_def flat_math_def Let_def
        EARTH_RADIUS_METERS_def MAX_ENDPOINT_SNAP_DISTANCE_METERS_def js_num_simps)
  moreover have "deduplicateRoutes id sample_routes \<noteq> []"
    using parsed_nonempty [OF sample_parses] by (simp add: sample_distinct)
  moreover have "utf8_length ''x'' = 1" by code_simp
  ultimately have "\<exists>routes. ?r = Inr routes"
    by (simp add: gh_preview_def preview_payload_def fetchJson_def sample_post_def sample_routing_request_def
        num_of_int_def MAX_RESPONSE_BYTES_def sample_parses Let_def)
  then obtain routes where "?r = Inr routes" by blast
  with gh_preview_result [where M = flat_math and sha256hex = id and jsonParse = "\<lambda>_. Some sample_response"
      and config = "\<lparr> gh_baseUrl = ''u'', gh_timeoutMs = 1000 \<rparr>" and post = sample_post
      and request = sample_routing_request]
  show ?thesis by (auto simp: sample_routing_request_def)
qed

end
