(* ===== verification/Place_Token.thy ===== *)
theory Place_Token
  imports Js_String Js_Value
begin

text \<open>
  The signed place identifiers that clients hold,
  \<^verbatim>\<open>src/src/geocoding/security/place-token.codec.ts\<close>. The HMAC with the secret of the
  process, which gives its digest in Base64url, the reading of a buffer as UTF-8 and \<open>JSON.parse\<close>
  are parameters; \<open>JSON.stringify\<close> is written out for the values that reach it, whose strings have
  no character that it would escape.
\<close>

section \<open>Definitions\<close>

definition TOKEN_VERSION :: string where "TOKEN_VERSION = ''v1''"
definition MAX_TOKEN_LENGTH :: nat where "MAX_TOKEN_LENGTH = 1024"

text \<open>The class \<open>[A-Za-z0-9_.-]\<close>, and the pattern of its non-empty runs separated by colons.\<close>

definition provider_char :: "char \<Rightarrow> bool" where
  "provider_char c = (is_id_char c \<or> c = CHR ''.'')"

definition SAFE_PROVIDER_ID :: "string \<Rightarrow> bool" where
  "SAFE_PROVIDER_ID s =
     (let parts = split_on (CHR '':'') s in
      2 \<le> length parts \<and> list_all (\<lambda>p. p \<noteq> [] \<and> list_all provider_char p) parts)"

datatype place_provider = Fake | Photon

fun provider_text :: "place_provider \<Rightarrow> string" where
  "provider_text Fake = ''fake''"
| "provider_text Photon = ''photon''"

record codec_env =
  ce_hmac :: "string \<Rightarrow> string"
  ce_utf8 :: "byte list \<Rightarrow> string"
  ce_jsonParse :: "string \<Rightarrow> jsval option"

text \<open>Whether the identifier passes; an unsafe one throws.\<close>

definition safe_provider_id :: "string \<Rightarrow> bool" where
  "safe_provider_id s = (\<not> (512 < length s \<or> str_includes s ''://'' \<or> str_includes s ''..'' \<or>
     \<not> SAFE_PROVIDER_ID s))"

definition sign :: "codec_env \<Rightarrow> string \<Rightarrow> string" where
  "sign E payload = ce_hmac E (TOKEN_VERSION @ ''.'' @ payload)"

definition quoted :: "string \<Rightarrow> string" where
  "quoted s = CHR 0x22 # s @ [CHR 0x22]"

definition stringify_place :: "place_provider \<Rightarrow> string \<Rightarrow> string" where
  "stringify_place provider i =
     ''{'' @ quoted ''provider'' @ '':'' @ quoted (provider_text provider) @ '','' @
     quoted ''id'' @ '':'' @ quoted i @ ''}''"

definition encode_place :: "codec_env \<Rightarrow> place_provider \<Rightarrow> string \<Rightarrow> string option" where
  "encode_place E provider i =
     (if \<not> safe_provider_id i then None
      else let payload = b64url_encode (utf8_encode (stringify_place provider i)) in
        Some (TOKEN_VERSION @ ''.'' @ payload @ ''.'' @ sign E payload))"

text \<open>
  \<open>Buffer.from(payload, 'base64url')\<close> accepts both alphabets, passes over every other character and
  drops a last digit that begins no byte.
\<close>

definition url_digit :: "char \<Rightarrow> char" where
  "url_digit c = (if c = CHR ''+'' then CHR ''-'' else if c = CHR ''/'' then CHR ''_'' else c)"

definition base64url_buffer :: "string \<Rightarrow> byte list" where
  "base64url_buffer s =
     (let digits = filter (\<lambda>c. c \<in> set b64url_alphabet) (map url_digit s);
          whole = (if length digits mod 4 = 1 then butlast digits else digits) in
      case b64url_decode whole of None \<Rightarrow> [] | Some bs \<Rightarrow> bs)"

fun place_of_json :: "jsval \<Rightarrow> (place_provider \<times> string) option" where
  "place_of_json decoded =
     (if \<not> isRecord decoded \<or>
         (jprop decoded ''provider'' \<noteq> JStr ''fake'' \<and> jprop decoded ''provider'' \<noteq> JStr ''photon'')
      then None
      else case jprop decoded ''id'' of
        JStr i \<Rightarrow>
          if \<not> safe_provider_id i then None
          else Some (if jprop decoded ''provider'' = JStr ''fake'' then Fake else Photon, i)
      | _ \<Rightarrow> None)"

definition decode_place :: "codec_env \<Rightarrow> string \<Rightarrow> (place_provider \<times> string) option" where
  "decode_place E token =
     (if length token = 0 \<or> MAX_TOKEN_LENGTH < length token then None
      else case split_on (CHR ''.'') token of
        [version, payload, signature] \<Rightarrow>
          if version \<noteq> TOKEN_VERSION then None
          else if utf8_encode signature \<noteq> utf8_encode (sign E payload) then None
          else (case ce_jsonParse E (ce_utf8 E (base64url_buffer payload)) of
            None \<Rightarrow> None
          | Some decoded \<Rightarrow> place_of_json decoded)
      | _ \<Rightarrow> None)"

definition createSecret :: "byte list \<Rightarrow> string option \<Rightarrow> (string, byte list) result" where
  "createSecret randomBytes configured =
     (case configured of
        None \<Rightarrow> Inr randomBytes
      | Some secret \<Rightarrow>
          if utf8_length secret < 32
          then Inl ''GEOCODING_TOKEN_SECRET must contain at least 32 bytes''
          else Inr (utf8_encode secret))"

section \<open>Splitting\<close>

lemma split_on_free: "c \<notin> set s \<Longrightarrow> split_on c s = [s]"
  by (induction s) auto

lemma split_on_append: "c \<notin> set s \<Longrightarrow> split_on c (s @ c # t) = s # split_on c t"
  by (induction s) (auto split: list.splits)

lemma join_split_on: "join [c] (split_on c s) = s"
proof (induction s)
  case (Cons x s)
  then show ?case by (cases "split_on c s" rule: remdups_adj.cases) (auto split: list.splits)
qed simp

section \<open>Base64url\<close>

lemma b64url_chars: "set (b64url_encode bs) \<subseteq> set b64url_alphabet"
proof -
  have "set (b64_encode_with al [] bs) \<subseteq> set al" if "length al = 64" for al
    using that by (induction al "[] :: string" bs rule: b64_encode_with.induct) (simp_all add: digit_in)
  then show ?thesis by (simp add: b64url_encode_def b64_alphabets)
qed

lemma b64url_length: "length (b64url_encode bs) = (4 * length bs + 2) div 3"
proof -
  have "length (b64_encode_with al [] bs) = (4 * length bs + 2) div 3" for al
    by (induction al "[] :: string" bs rule: b64_encode_with.induct) simp_all
  then show ?thesis by (simp add: b64url_encode_def)
qed

lemma b64url_length_mod: "length (b64url_encode bs) mod 4 \<noteq> 1"
proof -
  have "length (b64_encode_with al [] bs) mod 4 \<noteq> 1" for al
    by (induction al "[] :: string" bs rule: b64_encode_with.induct) simp_all
  then show ?thesis by (simp add: b64url_encode_def)
qed

lemma url_digits: "c \<in> set b64url_alphabet \<Longrightarrow> url_digit c = c \<and> c \<noteq> CHR ''.''"
  by (auto simp: b64url_alphabet_def url_digit_def)

lemma base64url_buffer_encode: "base64url_buffer (b64url_encode bs) = bs"
proof -
  let ?s = "b64url_encode bs"
  have "map url_digit ?s = ?s" using b64url_chars url_digits by (intro map_idI) blast
  moreover have "filter (\<lambda>c. c \<in> set b64url_alphabet) ?s = ?s" using b64url_chars by (intro filter_True) blast
  ultimately show ?thesis
    using b64url_length_mod [of bs] by (simp add: base64url_buffer_def b64url_decode_encode Let_def)
qed


section \<open>Safe identifiers\<close>

text \<open>
  What is relied on: reading UTF-8 gives back what was encoded, a digest has the 43 digits of
  256 bits, and \<open>JSON.parse\<close> reads what \<open>JSON.stringify\<close> wrote.
\<close>

definition codec_ok :: "codec_env \<Rightarrow> bool" where
  "codec_ok E \<longleftrightarrow>
     (\<forall>s. ce_utf8 E (utf8_encode s) = s) \<and>
     (\<forall>t. length (ce_hmac E t) = 43 \<and> set (ce_hmac E t) \<subseteq> set b64url_alphabet) \<and>
     (\<forall>p i. safe_provider_id i \<longrightarrow> ce_jsonParse E (stringify_place p i) =
        Some (JObj [(''provider'', JStr (provider_text p)), (''id'', JStr i)]))"

lemma codec_okD:
  assumes "codec_ok E"
  shows "ce_utf8 E (utf8_encode s) = s" and "length (sign E s) = 43" and "set (sign E s) \<subseteq> set b64url_alphabet"
    and "safe_provider_id i \<Longrightarrow> ce_jsonParse E (stringify_place p i) =
      Some (JObj [(''provider'', JStr (provider_text p)), (''id'', JStr i)])"
  using assms by (auto simp: codec_ok_def sign_def)

lemma utf8_inject: "codec_ok E \<Longrightarrow> utf8_encode s = utf8_encode t \<longleftrightarrow> s = t"
  by (metis codec_okD(1))

lemma utf8_ascii: "list_all (\<lambda>c. code_of c < 128) s \<Longrightarrow> length (utf8_encode s) = length s"
  by (induction s) (simp_all add: utf8_encode_def)

lemma id_char_ascii: "is_id_char c \<Longrightarrow> code_of c < 128"
  by (auto simp: is_id_char_def is_upper_def is_lower_def is_digit_char_def in_range_def code_of_def)

lemma safe_id_ascii:
  assumes "safe_provider_id i"
  shows "list_all (\<lambda>c. code_of c < 128) i"
  unfolding list_all_iff
proof
  fix c
  assume "c \<in> set i"
  then have "c \<in> set (join [CHR '':''] (split_on (CHR '':'') i))" by (simp add: join_split_on)
  then consider "c = CHR '':''" | p where "p \<in> set (split_on (CHR '':'') i)" "c \<in> set p"
    using in_join by fastforce
  then show "code_of c < 128"
  proof cases
    case 1
    then show ?thesis by (simp add: code_of_def)
  next
    case 2
    then have "provider_char c"
      using assms by (simp add: safe_provider_id_def SAFE_PROVIDER_ID_def Let_def list_all_iff)
    then show ?thesis using id_char_ascii by (auto simp: provider_char_def code_of_def)
  qed
qed

lemma stringify_length:
  assumes "safe_provider_id i"
  shows "length (utf8_encode (stringify_place p i)) \<le> 541"
proof -
  have "list_all (\<lambda>c. code_of c < 128) (stringify_place p i)"
    using safe_id_ascii [OF assms] by (cases p) (simp_all add: stringify_place_def quoted_def code_of_def)
  moreover have "length i \<le> 512" using assms by (simp add: safe_provider_id_def)
  then have "length (stringify_place p i) \<le> 541"
    by (cases p) (simp_all add: stringify_place_def quoted_def)
  ultimately show ?thesis by (simp add: utf8_ascii)
qed

lemma token_parts:
  assumes "set s \<subseteq> set b64url_alphabet" and "set t \<subseteq> set b64url_alphabet"
  shows "split_on (CHR ''.'') (TOKEN_VERSION @ ''.'' @ s @ ''.'' @ t) = [TOKEN_VERSION, s, t]"
proof -
  have "CHR ''.'' \<notin> set s" "CHR ''.'' \<notin> set t" using assms url_digits by blast+
  then show ?thesis by (simp add: TOKEN_VERSION_def split_on_append split_on_free)
qed

section \<open>A sample environment\<close>

fun sample_utf8 :: "byte list \<Rightarrow> string" where
  "sample_utf8 [] = []"
| "sample_utf8 [b] = [char_of_byte b]"
| "sample_utf8 (b # c # bs) =
     (if uint b < 128 then char_of_byte b # sample_utf8 (c # bs)
      else char_of ((uint b - 192) * 64 + (uint c - 128)) # sample_utf8 bs)"

lemma sample_utf8_encode: "sample_utf8 (utf8_encode s) = s"
proof (induction s)
  case Nil
  then show ?case by (simp add: utf8_encode_def)
next
  case (Cons c s)
  have split: "utf8_encode (c # s) = utf8_encode [c] @ utf8_encode s" by (simp add: utf8_encode_def)
  show ?case
  proof (cases "code_of c < 128")
    case True
    then have "utf8_encode [c] = [byte_of_char c]" "uint (byte_of_char c) < 128" "char_of_byte (byte_of_char c) = c"
      using code_of_bounds [of c] by (simp_all add: utf8_encode_def byte_of_char_def char_of_byte_def
          uint_byte_of_int char_of_code_of)
    then show ?thesis using Cons unfolding split
      by (cases "utf8_encode s" ) simp_all
  next
    case False
    have b: "0 \<le> code_of c" "code_of c < 256" using code_of_bounds [of c] by simp_all
    have d: "0 \<le> code_of c div 64" "code_of c div 64 < 4" "0 \<le> code_of c mod 64" "code_of c mod 64 < 64"
      using b by (simp_all add: int_div_bounds)
    then have "uint (word_of_int (192 + code_of c div 64) :: byte) = 192 + code_of c div 64"
      "uint (word_of_int (128 + code_of c mod 64) :: byte) = 128 + code_of c mod 64"
      unfolding uint_byte_of_int by (simp_all add: mod_pos_pos_trivial)
    moreover have "code_of c div 64 * 64 + code_of c mod 64 = code_of c" by simp
    ultimately show ?thesis using Cons False b d(1) unfolding split
      by (simp add: utf8_encode_def char_of_code_of)
  qed
qed

text \<open>A parser of the two objects that the codec writes.\<close>

definition strip_prefix :: "string \<Rightarrow> string \<Rightarrow> string option" where
  "strip_prefix p s = (if starts_with s p then Some (drop (length p) s) else None)"

definition place_prefix :: "place_provider \<Rightarrow> string" where
  "place_prefix p = ''{'' @ quoted ''provider'' @ '':'' @ quoted (provider_text p) @ '','' @
     quoted ''id'' @ '':'' @ [CHR 0x22]"

definition sample_json :: "string \<Rightarrow> jsval option" where
  "sample_json s =
     (case (strip_prefix (place_prefix Fake) s, strip_prefix (place_prefix Photon) s) of
        (Some t, _) \<Rightarrow> Some (JObj [(''provider'', JStr ''fake''), (''id'', JStr (butlast (butlast t)))])
      | (None, Some t) \<Rightarrow> Some (JObj [(''provider'', JStr ''photon''), (''id'', JStr (butlast (butlast t)))])
      | (None, None) \<Rightarrow> None)"

definition sample_codec :: codec_env where
  "sample_codec = \<lparr> ce_hmac = (\<lambda>_. replicate 43 (CHR ''A'')), ce_utf8 = sample_utf8, ce_jsonParse = sample_json \<rparr>"

lemma sample_json_stringify:
  "sample_json (stringify_place p i) = Some (JObj [(''provider'', JStr (provider_text p)), (''id'', JStr i)])"
  by (cases p) (simp_all add: sample_json_def stringify_place_def place_prefix_def quoted_def strip_prefix_def
      butlast_append)

lemma sample_codec_ok: "codec_ok sample_codec"
  by (simp add: codec_ok_def sample_codec_def sample_utf8_encode sample_json_stringify b64url_alphabet_def)

lemma encode_decode:
  assumes "codec_ok E" and token: "encode_place E provider i = Some token"
  shows "length token \<le> 769 \<and> decode_place E token = Some (provider, i)"
proof -
  let ?p = "b64url_encode (utf8_encode (stringify_place provider i))"
  have safe: "safe_provider_id i" and t: "token = TOKEN_VERSION @ ''.'' @ ?p @ ''.'' @ sign E ?p"
    using token by (auto simp: encode_place_def Let_def split: if_splits)
  have "length ?p \<le> 722" using stringify_length [OF safe, of provider] by (simp add: b64url_length)
  then have len: "length token \<le> 769" by (simp add: t codec_okD(2) [OF assms(1)] TOKEN_VERSION_def)
  have "split_on (CHR ''.'') token = [TOKEN_VERSION, ?p, sign E ?p]"
    unfolding t using b64url_chars codec_okD(3) [OF assms(1)] by (rule token_parts)
  moreover have "place_of_json (JObj [(''provider'', JStr (provider_text provider)), (''id'', JStr i)]) =
      Some (provider, i)"
    using safe by (cases provider) simp_all
  ultimately have "decode_place E token = Some (provider, i)"
    using len by (simp add: decode_place_def MAX_TOKEN_LENGTH_def base64url_buffer_encode codec_okD [OF assms(1)] safe
        t del: place_of_json.simps)
  with len show ?thesis by simp
qed

section \<open>Property\<close>

text \<open>
  C23: Place tokens round trip and cannot be made without the secret: a safe identifier has a token
  of at most 769 characters, which decodes to the same provider and identifier; an unsafe one has
  none; and whatever token decodes to a place carries, after its version and payload, the signature
  of that payload, and the place it gives is a safe one that the payload says.
\<close>

theorem place_token_roundtrip:
  assumes "codec_ok E"
  shows "(encode_place E provider i = None \<longleftrightarrow> \<not> safe_provider_id i) \<and>
    (\<forall>token. encode_place E provider i = Some token \<longrightarrow>
       length token \<le> 769 \<and> decode_place E token = Some (provider, i)) \<and>
    (\<forall>token. decode_place E token = Some (provider, i) \<longrightarrow>
       safe_provider_id i \<and>
       (\<exists>payload decoded. token = TOKEN_VERSION @ ''.'' @ payload @ ''.'' @ sign E payload \<and>
          ce_jsonParse E (ce_utf8 E (base64url_buffer payload)) = Some decoded \<and>
          jprop decoded ''provider'' = JStr (provider_text provider) \<and> jprop decoded ''id'' = JStr i))"
proof (intro conjI allI impI)
  show "encode_place E provider i = None \<longleftrightarrow> \<not> safe_provider_id i" by (simp add: encode_place_def Let_def)
next
  fix token
  assume "encode_place E provider i = Some token"
  from encode_decode [OF assms this] show "length token \<le> 769" "decode_place E token = Some (provider, i)" by simp_all
next
  fix token
  assume "decode_place E token = Some (provider, i)"
  then obtain payload decoded where parts: "split_on (CHR ''.'') token = [TOKEN_VERSION, payload, sign E payload]"
    and parsed: "ce_jsonParse E (ce_utf8 E (base64url_buffer payload)) = Some decoded"
    and place: "place_of_json decoded = Some (provider, i)"
    by (auto simp: decode_place_def utf8_inject [OF assms] simp del: place_of_json.simps
        split: if_splits list.splits option.splits)
  show "safe_provider_id i" using place by (auto split: if_splits jsval.splits)
  have "token = join ''.'' [TOKEN_VERSION, payload, sign E payload]"
    using join_split_on [of "CHR ''.''" token] parts by simp
  moreover have "jprop decoded ''provider'' = JStr (provider_text provider) \<and> jprop decoded ''id'' = JStr i"
    using place by (auto split: if_splits jsval.splits)
  ultimately show "\<exists>payload decoded. token = TOKEN_VERSION @ ''.'' @ payload @ ''.'' @ sign E payload \<and>
      ce_jsonParse E (ce_utf8 E (base64url_buffer payload)) = Some decoded \<and>
      jprop decoded ''provider'' = JStr (provider_text provider) \<and> jprop decoded ''id'' = JStr i"
    using parsed by auto
qed

theorem place_token_roundtrip_witness:
  "\<exists>token. encode_place sample_codec Photon ''osm:W:12'' = Some token \<and>
     decode_place sample_codec token = Some (Photon, ''osm:W:12'')"
proof -
  have "safe_provider_id ''osm:W:12''"
    by code_simp
  then show ?thesis using place_token_roundtrip [OF sample_codec_ok, of Photon "''osm:W:12''"] by auto
qed

end
