(* ===== verification/Ttl_Cache.thy ===== *)
theory Ttl_Cache
  imports Prelude
begin

text \<open>
  The bounded cache of the geocoding service,
  \<^verbatim>\<open>src/src/geocoding/cache/bounded-ttl-cache.ts\<close>. A \<open>Map\<close> keeps insertion order, which the cache
  uses as its order of recency. Times are whole milliseconds. The abstract specification is the
  history of the operations: \<open>last_write\<close> says what was stored last under a key, \<open>recent\<close> which
  keys were used since. The cache refines it: it never returns anything else, and it keeps what was
  used recently.
\<close>

section \<open>Definitions\<close>

record 'v cache_entry =
  ce_value :: 'v
  ce_expiresAt :: int

record 'v cache =
  ca_entries :: "(string, 'v cache_entry) dict"
  ca_maximumEntries :: nat

definition new_cache :: "nat \<Rightarrow> 'v cache" where
  "new_cache maximumEntries = \<lparr> ca_entries = [], ca_maximumEntries = maximumEntries \<rparr>"

definition cache_get :: "string \<Rightarrow> int \<Rightarrow> 'v cache \<Rightarrow> 'v option \<times> 'v cache" where
  "cache_get key now c =
     (case dict_get (ca_entries c) key of
        None \<Rightarrow> (None, c)
      | Some entry \<Rightarrow>
          if ce_expiresAt entry \<le> now
          then (None, c\<lparr>ca_entries := dict_delete key (ca_entries c)\<rparr>)
          else (Some (ce_value entry),
            c\<lparr>ca_entries := dict_set key entry (dict_delete key (ca_entries c))\<rparr>))"

text \<open>The loop that removes the oldest entry while there are too many.\<close>

function evict :: "nat \<Rightarrow> (string, 'v) dict \<Rightarrow> (string, 'v) dict" where
  "evict maximum entries =
     (if maximum < length entries then
        (case entries of [] \<Rightarrow> entries | oldest # rest \<Rightarrow> evict maximum rest)
      else entries)"
  by pat_completeness auto
termination by (relation "measure (\<lambda>(maximum, entries). length entries)") auto

declare evict.simps [simp del]

definition cache_set :: "string \<Rightarrow> 'v \<Rightarrow> int \<Rightarrow> int \<Rightarrow> 'v cache \<Rightarrow> 'v cache" where
  "cache_set key v ttlMs now c =
     (let entries = dict_set key \<lparr> ce_value = v, ce_expiresAt = now + ttlMs \<rparr>
            (dict_delete key (ca_entries c)) in
      c\<lparr>ca_entries := evict (ca_maximumEntries c) entries\<rparr>)"

definition cache_clear :: "'v cache \<Rightarrow> 'v cache" where
  "cache_clear c = c\<lparr>ca_entries := []\<rparr>"

section \<open>Histories\<close>

text \<open>The newest operation of a history comes first.\<close>

datatype 'v cache_op = Get string int | Put string 'v int int | Clear

fun cache_step :: "'v cache_op \<Rightarrow> 'v cache \<Rightarrow> 'v cache" where
  "cache_step (Get key now) c = snd (cache_get key now c)"
| "cache_step (Put key v ttlMs now) c = cache_set key v ttlMs now c"
| "cache_step Clear c = cache_clear c"

definition cache_after :: "nat \<Rightarrow> 'v cache_op list \<Rightarrow> 'v cache" where
  "cache_after maximumEntries history = foldr cache_step history (new_cache maximumEntries)"

fun last_write :: "string \<Rightarrow> 'v cache_op list \<Rightarrow> 'v cache_entry option" where
  "last_write key [] = None"
| "last_write key (Get k now # ops) = last_write key ops"
| "last_write key (Put k v ttlMs now # ops) =
     (if k = key then Some \<lparr> ce_value = v, ce_expiresAt = now + ttlMs \<rparr> else last_write key ops)"
| "last_write key (Clear # ops) = None"

text \<open>
  An entry is retained when, from its last write on, fewer than \<open>n\<close> other keys were used between
  any two uses of it and since the last one, and no read of it came after its expiry; \<open>since\<close>
  collects the other keys.
\<close>

fun retained :: "nat \<Rightarrow> string \<Rightarrow> string set \<Rightarrow> 'v cache_op list \<Rightarrow> bool" where
  "retained n key since [] = False"
| "retained n key since (Put k v ttlMs now # ops) =
     (if k = key then card since < n else retained n key (insert k since) ops)"
| "retained n key since (Get k now # ops) =
     (if k = key
      then card since < n \<and> retained n key {} ops \<and>
        (case last_write key ops of None \<Rightarrow> False | Some e \<Rightarrow> now < ce_expiresAt e)
      else retained n key (insert k since) ops)"
| "retained n key since (Clear # ops) = False"

fun used_since :: "string \<Rightarrow> 'v cache_op list \<Rightarrow> string set" where
  "used_since key [] = {}"
| "used_since key (Put k v ttlMs now # ops) = (if k = key then {} else insert k (used_since key ops))"
| "used_since key (Get k now # ops) = (if k = key then {} else insert k (used_since key ops))"
| "used_since key (Clear # ops) = {}"

section \<open>The eviction loop\<close>

lemma evict_drop: "evict n xs = drop (length xs - n) xs"
proof (induction n xs rule: evict.induct)
  case (1 n xs)
  show ?case
  proof (cases xs)
    case Nil
    then show ?thesis by (simp add: evict.simps [of n])
  next
    case (Cons x ys)
    then show ?thesis
      using 1 by (cases x) (simp add: evict.simps [of n "_ # _"] Suc_diff_le)
  qed
qed

lemma evict_one: "length xs \<le> Suc n \<Longrightarrow> evict n xs = (if length xs = Suc n then tl xs else xs)"
  by (cases xs) (auto simp: evict_drop)

definition cache_wf :: "'v cache \<Rightarrow> bool" where
  "cache_wf c \<longleftrightarrow> dict_ok (ca_entries c) \<and> length (ca_entries c) \<le> ca_maximumEntries c"

lemma cache_wf_new: "cache_wf (new_cache n)"
  by (simp add: cache_wf_def new_cache_def dict_ok_def)

lemma dict_ok_drop: "dict_ok m \<Longrightarrow> dict_ok (drop n m)"
  by (simp add: dict_ok_def drop_map [symmetric])

lemma dict_refresh_length: "dict_get m k \<noteq> None \<Longrightarrow> dict_ok m \<Longrightarrow> length (dict_set k v (dict_delete k m)) = length m"
  using dict.size_del_less [of m k] by (simp add: dict_refresh dict_keys_def)

lemma step_wf: "cache_wf c \<Longrightarrow> cache_wf (cache_step op c)"
proof (cases op)
  case (Get key now)
  assume wf: "cache_wf c"
  show ?thesis
  proof (cases "dict_get (ca_entries c) key")
    case None
    then show ?thesis using wf by (simp add: Get cache_get_def)
  next
    case (Some e)
    then show ?thesis
      using wf dict_refresh_length [of "ca_entries c" key e] length_dict_delete [of key "ca_entries c"]
      by (auto simp: Get cache_get_def cache_wf_def dict_simps intro: le_trans)
  qed
next
  case (Put key v ttlMs now)
  assume "cache_wf c"
  then show ?thesis
    by (simp add: Put cache_set_def cache_wf_def evict_drop dict_ok_drop dict_simps Let_def)
next
  case Clear
  then show ?thesis by (simp add: cache_clear_def cache_wf_def dict_ok_def)
qed

lemma after_wf: "cache_wf (cache_after n history)"
  by (induction history) (auto simp: cache_after_def cache_wf_new step_wf)

lemma maximum_step [simp]: "ca_maximumEntries (cache_step op c) = ca_maximumEntries c"
  by (cases op) (auto simp: cache_get_def cache_set_def cache_clear_def Let_def split: option.splits)

lemma after_maximum [simp]: "ca_maximumEntries (cache_after n history) = n"
  by (induction history) (auto simp: cache_after_def new_cache_def)

lemma after_Cons: "cache_after n (op # history) = cache_step op (cache_after n history)"
  by (simp add: cache_after_def)

section \<open>Nothing but the last write\<close>

lemma dict_get_drop: "dict_ok m \<Longrightarrow> dict_get (drop n m) k = Some e \<Longrightarrow> dict_get m k = Some e"
  by (simp add: dict_get_eq dict_ok_drop) (meson in_set_dropD)

lemma stored_last_write:
  "dict_get (ca_entries (cache_after n history)) key = Some e \<Longrightarrow> last_write key history = Some e"
proof (induction history)
  case Nil
  then show ?case by (simp add: cache_after_def new_cache_def dict_simps)
next
  case (Cons op history)
  let ?c = "cache_after n history"
  have ok: "dict_ok (ca_entries ?c)" using after_wf [of n history] unfolding cache_wf_def by blast
  show ?case
  proof (cases op)
    case (Get k now)
    then have "dict_get (ca_entries ?c) key = Some e"
      using Cons.prems
      by (auto simp: after_Cons cache_get_def dict_simps split: option.splits if_splits)
    with Cons.IH Get show ?thesis by simp
  next
    case (Put k v ttlMs now)
    then have "dict_get (dict_set k \<lparr> ce_value = v, ce_expiresAt = now + ttlMs \<rparr>
        (dict_delete k (ca_entries ?c))) key = Some e"
      using Cons.prems dict_get_drop [OF dict_ok_set [OF dict_ok_delete [OF ok]]]
      by (simp add: after_Cons cache_set_def Let_def evict_drop)
    with Cons.IH Put show ?thesis by (auto simp: dict_simps split: if_splits)
  next
    case Clear
    then show ?thesis using Cons.prems by (simp add: after_Cons cache_clear_def dict_simps)
  qed
qed

section \<open>What was used recently is kept\<close>

definition placed :: "string \<Rightarrow> 'v \<Rightarrow> string set \<Rightarrow> (string, 'v) dict \<Rightarrow> bool" where
  "placed key e U m \<longleftrightarrow> (\<exists>pre post. m = pre @ (key, e) # post \<and> fst ` set post \<subseteq> U)"

lemma placed_get: "dict_ok m \<Longrightarrow> placed key e U m \<Longrightarrow> dict_get m key = Some e"
  by (auto simp: placed_def dict_get_eq)

lemma placed_last: "placed key e {} (m @ [(key, e)])"
  unfolding placed_def by (intro exI [of _ m] exI [of _ "[]"]) simp

lemma placed_delete:
  assumes "placed key e U m" and "k \<noteq> key"
  shows "placed key e U (dict_delete k m)"
proof -
  obtain pre post where m: "m = pre @ (key, e) # post" "fst ` set post \<subseteq> U"
    using assms(1) by (auto simp: placed_def)
  then have "dict_delete k m = dict_delete k pre @ (key, e) # dict_delete k post"
    using assms(2) by (simp add: dict_delete_def)
  moreover have "fst ` set (dict_delete k post) \<subseteq> U" using m(2) by (auto simp: dict_delete_def)
  ultimately show ?thesis unfolding placed_def by blast
qed

lemma placed_refresh:
  assumes "placed key e U m" and "k \<noteq> key"
  shows "placed key e (insert k U) (dict_set k x (dict_delete k m))"
proof -
  obtain pre post where m: "dict_delete k m = pre @ (key, e) # post" "fst ` set post \<subseteq> U"
    using placed_delete [OF assms] by (auto simp: placed_def)
  have "dict_set k x (dict_delete k m) = pre @ (key, e) # (post @ [(k, x)])"
    using dict_refresh [of k x m] m(1) by simp
  moreover have "fst ` set (post @ [(k, x)]) \<subseteq> insert k U" using m(2) by auto
  ultimately show ?thesis unfolding placed_def by blast
qed

lemma placed_mono: "placed key e U m \<Longrightarrow> U \<subseteq> V \<Longrightarrow> placed key e V m"
  unfolding placed_def by blast

lemma placed_evict:
  assumes "placed key e U m" and "dict_ok m" and "finite U" and "card U < n"
  shows "placed key e U (evict n m)"
proof -
  obtain pre post where m: "m = pre @ (key, e) # post" "fst ` set post \<subseteq> U"
    using assms(1) by (auto simp: placed_def)
  have "distinct (map fst post)" using assms(2) m(1) by (simp add: dict_ok_def)
  then have "length post = card (fst ` set post)" by (metis distinct_card length_map list.set_map)
  then have "length post < n" using card_mono [OF assms(3) m(2)] assms(4) by linarith
  then have "length m - n \<le> length pre" using m(1) by simp
  then have "evict n m = drop (length m - n) pre @ (key, e) # post" by (simp add: evict_drop m(1))
  with m(2) show ?thesis unfolding placed_def by blast
qed

lemma finite_used_since [simp]: "finite (used_since key ops)"
  by (induction key ops rule: used_since.induct) auto

lemma retained_mono:
  "retained n key B ops \<Longrightarrow> A \<subseteq> B \<Longrightarrow> finite B \<Longrightarrow> retained n key A ops"
proof (induction n key B ops arbitrary: A rule: retained.induct)
  case (2 n key B k v ttlMs now ops)
  then show ?case
    using card_mono [of B A] insert_mono [of A B k] by (auto split: if_splits)
next
  case (3 n key B k now ops)
  then show ?case
    using card_mono [of B A] insert_mono [of A B k] by (auto split: if_splits)
qed auto

lemma retained_bound:
  "finite since \<Longrightarrow> retained n key since ops \<Longrightarrow> card (since \<union> used_since key ops) < n"
  by (induction n key since ops rule: retained.induct) (auto split: if_splits)

text \<open>A retained entry is stored, and fewer than \<open>n\<close> keys follow it in the order of eviction.\<close>

lemma retained_placed:
  "retained n key {} history \<Longrightarrow>
     \<exists>e. last_write key history = Some e \<and>
       placed key e (used_since key history) (ca_entries (cache_after n history))"
proof (induction history)
  case Nil
  then show ?case by simp
next
  case (Cons op history)
  let ?c = "cache_after n history"
  have ok: "dict_ok (ca_entries ?c)" using after_wf [of n history] unfolding cache_wf_def by blast
  have bound: "card (used_since key (op # history)) < n"
    using retained_bound [of "{}"] Cons.prems by simp
  show ?case
  proof (cases op)
    case (Get k now)
    show ?thesis
    proof (cases "k = key")
      case True
      obtain e where e: "last_write key history = Some e" "now < ce_expiresAt e"
        and "placed key e (used_since key history) (ca_entries ?c)"
        using Cons Get True by (auto split: option.splits)
      then have "dict_get (ca_entries ?c) key = Some e" by (intro placed_get [OF ok])
      then have "ca_entries (cache_step op ?c) = dict_delete key (ca_entries ?c) @ [(key, e)]"
        using e(2) by (simp add: Get True cache_get_def dict_refresh)
      then show ?thesis using e(1) True Get by (simp add: after_Cons placed_last)
    next
      case False
      then have "retained n key {} history" using Cons.prems Get retained_mono by fastforce
      then obtain e where e: "last_write key history = Some e"
        and p: "placed key e (used_since key history) (ca_entries ?c)"
        using Cons.IH by blast
      have "placed key e (insert k (used_since key history)) (ca_entries (cache_step op ?c))"
        using placed_mono [OF p subset_insertI] placed_refresh [OF p False]
          placed_mono [OF placed_delete [OF p False] subset_insertI]
        by (auto simp: Get cache_get_def split: option.splits)
      then show ?thesis using e False Get by (simp add: after_Cons)
    qed
  next
    case (Put k v ttlMs now)
    let ?e = "\<lparr> ce_value = v, ce_expiresAt = now + ttlMs \<rparr>"
    let ?m = "dict_set k ?e (dict_delete k (ca_entries ?c))"
    have m: "dict_ok ?m" using ok by (simp add: dict_ok_set dict_ok_delete)
    have step: "ca_entries (cache_step op ?c) = evict n ?m" by (simp add: Put cache_set_def Let_def)
    show ?thesis
    proof (cases "k = key")
      case True
      have "placed key ?e {} ?m" unfolding True dict_refresh by (rule placed_last)
      then have "placed key ?e {} (evict n ?m)"
        using placed_evict m bound Put True by fastforce
      then show ?thesis using True Put step by (simp add: after_Cons)
    next
      case False
      then have "retained n key {} history" using Cons.prems Put retained_mono by fastforce
      then obtain e where e: "last_write key history = Some e"
        and p: "placed key e (used_since key history) (ca_entries ?c)"
        using Cons.IH by blast
      have "placed key e (used_since key (op # history)) (evict n ?m)"
        using placed_evict [OF placed_refresh [OF p False] m _ ] bound Put False by simp
      then show ?thesis using e False Put step by (simp add: after_Cons)
    qed
  next
    case Clear
    then show ?thesis using Cons.prems by simp
  qed
qed

text \<open>
  C21: The cache refines its history: whatever operations were done, it never holds more than its
  maximum, a read never returns anything but the value last written under the key and that only
  before its expiry, and the read of an entry that has not been pushed out (fewer than the maximum
  of other keys were used between its uses) returns that value exactly until it expires.
\<close>

theorem cache_refines_history:
  "length (ca_entries (cache_after n history)) \<le> n \<and>
   (fst (cache_get key now (cache_after n history)) \<in>
      {None, map_option ce_value (Option.bind (last_write key history)
         (\<lambda>e. if now < ce_expiresAt e then Some e else None))}) \<and>
   (retained n key {} history \<longrightarrow>
      fst (cache_get key now (cache_after n history)) =
        map_option ce_value (Option.bind (last_write key history)
          (\<lambda>e. if now < ce_expiresAt e then Some e else None)))"
proof -
  let ?c = "cache_after n history"
  have wf: "dict_ok (ca_entries ?c)" "length (ca_entries ?c) \<le> n"
    using after_wf [of n history] unfolding cache_wf_def by auto
  have "fst (cache_get key now ?c) = None" if "dict_get (ca_entries ?c) key = None"
    using that by (simp add: cache_get_def)
  moreover have "fst (cache_get key now ?c) = map_option ce_value (Option.bind (last_write key history)
         (\<lambda>e. if now < ce_expiresAt e then Some e else None))"
    if "dict_get (ca_entries ?c) key = Some e" for e
    using that stored_last_write [OF that] by (simp add: cache_get_def not_le)
  moreover have "\<exists>e. dict_get (ca_entries ?c) key = Some e" if "retained n key {} history"
    using retained_placed [OF that] placed_get [OF wf(1)] by fast
  ultimately show ?thesis using wf(2) by (cases "dict_get (ca_entries ?c) key") auto
qed

theorem cache_refines_history_witness:
  "fst (cache_get ''q'' 9 (cache_after 2 [Get ''q'' 5, Put ''r'' (2 :: int) 10 4, Put ''q'' 1 10 0])) = Some 1"
proof -
  let ?h = "[Get ''q'' 5, Put ''r'' (2 :: int) 10 4, Put ''q'' 1 10 0]"
  have "retained 2 ''q'' {} ?h" by simp
  then show ?thesis using cache_refines_history [where n = 2 and history = ?h and key = "''q''" and now = 9] by simp
qed

end
