(* ===== verification/Geocoding_Service.thy ===== *)
theory Geocoding_Service
  imports Photon Ttl_Cache Api_Error
begin

text \<open>
  The geocoding service, \<^verbatim>\<open>src/src/geocoding/geocoding.service.ts\<close>, over the bounded cache, place
  tokens and the supported region. A handler takes the state of the cache, what the limiter of
  concurrent calls decided (\<open>admitted\<close>), the moment it starts and the moment at which the provider
  has answered; its two halves before and after the call of the provider are functions of their own,
  so that handlers may interleave there. The digest of keys, Unicode normalisation, locale lower case
  and the provider are parameters. The cache holds values of three kinds behind one type; a value
  of another kind than the handler expects is part of the model.
\<close>

section \<open>Data\<close>

record place_suggestion =
  sg_id :: string
  sg_primaryText :: string
  sg_secondaryText :: "string option"
  sg_category :: "place_category option"
  sg_position :: "routing_point option"
  sg_distanceMeters :: "jsnum option"
  sg_insideSupportedRegion :: bool

record place_details =
  dt_id :: "string option"
  dt_name :: string
  dt_formattedAddress :: "string option"
  dt_position :: routing_point
  dt_category :: "place_category option"
  dt_insideSupportedRegion :: bool

datatype cached = C_Suggestions "place_suggestion list" | C_Details place_details | C_Empty

datatype geo_answer =
    A_Suggestions "place_suggestion list"
  | A_Details place_details
  | A_Null
  | A_Other cached

datatype search_operation = Autocomplete | Search

text \<open>A provider fails with one of its four errors or with anything else (\<open>None\<close>).\<close>

record geo_env =
  ge_codec :: codec_env
  ge_digest :: "string \<Rightarrow> string"
  ge_nfkc :: "string \<Rightarrow> string"
  ge_localeLower :: "string \<Rightarrow> string"
  ge_provider :: place_provider
  ge_query :: "search_operation \<Rightarrow> search_input \<Rightarrow> (geocoding_error option, provider_suggestion list) result"
  ge_lookup :: "string \<Rightarrow> (geocoding_error option, provider_details) result"
  ge_reverse :: "reverse_input \<Rightarrow> (geocoding_error option, provider_details option) result"
  ge_region :: region
  ge_cacheTtlMs :: int
  ge_reverseCacheTtlMs :: int

section \<open>Requests\<close>

definition MAX_QUERY_LENGTH :: nat where "MAX_QUERY_LENGTH = 120"
definition MAX_LANGUAGE_LENGTH :: nat where "MAX_LANGUAGE_LENGTH = 12"
definition MAX_LIMIT :: int where "MAX_LIMIT = 8"

definition invalidQuery :: "string \<Rightarrow> string \<Rightarrow> api_exception" where
  "invalidQuery field reason =
     (ApiException 400 C_INVALID_QUERY ''The geocoding query is invalid.'' False)
       \<lparr>ax_details := Some [(field, reason)]\<rparr>"

definition placeNotFound :: api_exception where
  "placeNotFound = ApiException 404 C_PLACE_NOT_FOUND ''The requested place was not found.'' False"

definition invalid_coordinates :: api_exception where
  "invalid_coordinates =
     ApiException 400 C_INVALID_COORDINATES ''Latitude and longitude must be valid numeric coordinates.'' False"

definition outside_region :: api_exception where
  "outside_region = ApiException 422 C_OUTSIDE_SUPPORTED_REGION
     ''The selected point is outside the supported GATHRA region.'' False"

fun geo_provider_error :: "geocoding_error option \<Rightarrow> api_exception" where
  "geo_provider_error None = ApiException 500 C_INTERNAL_ERROR ''An unexpected error occurred.'' True"
| "geo_provider_error (Some GE_NOT_FOUND) = placeNotFound"
| "geo_provider_error (Some GE_TIMEOUT) =
     ApiException 504 C_GEOCODER_TIMEOUT ''The geocoding service did not respond in time.'' True"
| "geo_provider_error (Some GE_INVALID_RESPONSE) =
     ApiException 502 C_INVALID_PROVIDER_RESPONSE ''The geocoding service returned an invalid response.'' True"
| "geo_provider_error (Some GE_UNAVAILABLE) =
     ApiException 503 C_GEOCODER_UNAVAILABLE ''The geocoding service is temporarily unavailable.'' True"

text \<open>\<open>replace(/\s+/g, ' ')\<close>, and the classes \<open>Cc\<close> and \<open>Cf\<close>.\<close>

function collapse_spaces :: "string \<Rightarrow> string" where
  "collapse_spaces [] = []"
| "collapse_spaces (c # cs) =
     (if is_space c then CHR '' '' # collapse_spaces (dropWhile is_space cs) else c # collapse_spaces cs)"
  by pat_completeness auto
termination by (relation "measure length") (auto simp: less_Suc_eq_le length_dropWhile_le)

definition is_control :: "char \<Rightarrow> bool" where
  "is_control c = (code_of c < 32 \<or> in_range 127 159 c \<or> code_of c = 173)"

definition parseQuery :: "(string \<Rightarrow> string) \<Rightarrow> jsval \<Rightarrow> (api_exception, string) result" where
  "parseQuery nfkc v =
     (case v of
        JStr s \<Rightarrow>
          (let query = js_trim (collapse_spaces (nfkc s)) in
           if list_ex is_control query then Inl (invalidQuery ''q'' ''must not contain control characters'')
           else if length query < 2 then Inl (invalidQuery ''q'' ''must contain at least 2 characters'')
           else if MAX_QUERY_LENGTH < length query
           then Inl (invalidQuery ''q'' ''must contain no more than 120 characters'')
           else Inr query)
      | _ \<Rightarrow> Inl (invalidQuery ''q'' ''must be a string''))"

text \<open>\<open>/^-?(?:\d+\.?\d*|\.\d+)$/\<close>.\<close>

definition decimal_pattern :: "string \<Rightarrow> bool" where
  "decimal_pattern s =
     (let t = (if s \<noteq> [] \<and> hd s = CHR ''-'' then tl s else s);
          whole = takeWhile is_digit_char t; rest = dropWhile is_digit_char t in
      if whole \<noteq> []
      then rest = [] \<or> (hd rest = CHR ''.'' \<and> list_all is_digit_char (tl rest))
      else rest \<noteq> [] \<and> hd rest = CHR ''.'' \<and> tl rest \<noteq> [] \<and> list_all is_digit_char (tl rest))"

definition parse_degree :: "jsval \<Rightarrow> int \<Rightarrow> int \<Rightarrow> jsnum option" where
  "parse_degree v minimum maximum =
     (case v of
        JStr s \<Rightarrow>
          if js_trim s = [] \<or> \<not> decimal_pattern (js_trim s) then None
          else let parsed = number_of_string s in
            if is_finite parsed \<and> js_le (num_of_int minimum) parsed \<and> js_le parsed (num_of_int maximum)
            then Some parsed else None
      | _ \<Rightarrow> None)"

definition parseRequiredPoint :: "jsval \<Rightarrow> jsval \<Rightarrow> (api_exception, routing_point) result" where
  "parseRequiredPoint latitude longitude =
     (case (parse_degree latitude (- 90) 90, parse_degree longitude (- 180) 180) of
        (Some lat, Some lon) \<Rightarrow> Inr \<lparr> rp_latitude = lat, rp_longitude = lon \<rparr>
      | _ \<Rightarrow> Inl invalid_coordinates)"

definition parseOptionalPoint :: "jsval \<Rightarrow> jsval \<Rightarrow> (api_exception, routing_point option) result" where
  "parseOptionalPoint latitude longitude =
     (if latitude = JUndefined \<and> longitude = JUndefined then Inr None
      else res_bind (parseRequiredPoint latitude longitude) (\<lambda>p. Inr (Some p)))"

definition parseLimit :: "jsval \<Rightarrow> nat \<Rightarrow> (api_exception, nat) result" where
  "parseLimit v fallback =
     (let invalid = Inl (invalidQuery ''limit'' ''must be an integer from 1 to 8'') in
      case v of
        JUndefined \<Rightarrow> Inr fallback
      | JStr s \<Rightarrow>
          if s = [] \<or> \<not> list_all is_digit_char s then invalid
          else let parsed = number_of_string s in
            if \<not> is_safe_integer parsed \<or> int_of_num parsed < 1 \<or> MAX_LIMIT < int_of_num parsed then invalid
            else Inr (nat (int_of_num parsed))
      | _ \<Rightarrow> invalid)"

definition language_pattern :: "string \<Rightarrow> bool" where
  "language_pattern s =
     (let base = takeWhile is_lower s; rest = dropWhile is_lower s in
      (length base = 2 \<or> length base = 3) \<and>
      (rest = [] \<or> (length rest = 3 \<and> hd rest = CHR ''-'' \<and> list_all is_upper (tl rest))))"

definition parseLanguage :: "jsval \<Rightarrow> (api_exception, string) result" where
  "parseLanguage v =
     (let invalid = Inl (invalidQuery ''language'' ''must be a valid language tag'') in
      case v of
        JUndefined \<Rightarrow> Inr ''id''
      | JStr s \<Rightarrow> if MAX_LANGUAGE_LENGTH < length s \<or> \<not> language_pattern s then invalid else Inr s
      | _ \<Rightarrow> invalid)"

definition parseTargetField :: "jsval \<Rightarrow> (api_exception, unit) result" where
  "parseTargetField v =
     (if v \<noteq> JUndefined \<and> v \<noteq> JStr ''ORIGIN'' \<and> v \<noteq> JStr ''DESTINATION''
      then Inl (invalidQuery ''forField'' ''must be ORIGIN or DESTINATION'') else Inr ())"

record search_query =
  sq_q :: jsval
  sq_lat :: jsval
  sq_lon :: jsval
  sq_limit :: jsval
  sq_language :: jsval
  sq_forField :: jsval

definition parse_search :: "geo_env \<Rightarrow> search_query \<Rightarrow> nat \<Rightarrow> (api_exception, search_input) result" where
  "parse_search E raw defaultLimit =
     res_bind (parseQuery (ge_nfkc E) (sq_q raw)) (\<lambda>query.
     res_bind (parseOptionalPoint (sq_lat raw) (sq_lon raw)) (\<lambda>point.
     res_bind (parseLimit (sq_limit raw) defaultLimit) (\<lambda>limit.
     res_bind (parseLanguage (sq_language raw)) (\<lambda>language.
     res_bind (parseTargetField (sq_forField raw)) (\<lambda>_.
       Inr \<lparr> si_query = query,
         si_proximity = (case point of Some p \<Rightarrow> p | None \<Rightarrow> fallbackFocus (ge_region E)),
         si_limit = limit, si_language = language \<rparr>)))))"

section \<open>Keys of the cache\<close>

fun operation_text :: "search_operation \<Rightarrow> string" where
  "operation_text Autocomplete = ''autocomplete''"
| "operation_text Search = ''search''"

definition search_text :: "geo_env \<Rightarrow> search_operation \<Rightarrow> search_input \<Rightarrow> string" where
  "search_text E operation input = join ''|''
     [operation_text operation, ge_localeLower E (si_query input),
      to_fixed 3 (rp_latitude (si_proximity input)), to_fixed 3 (rp_longitude (si_proximity input)),
      show_nat (si_limit input), si_language input, rg_version (ge_region E)]"

definition search_key :: "geo_env \<Rightarrow> search_operation \<Rightarrow> search_input \<Rightarrow> string" where
  "search_key E operation input = ge_digest E (search_text E operation input)"

definition lookup_key :: "geo_env \<Rightarrow> string \<Rightarrow> string" where
  "lookup_key E token = ge_digest E (''lookup|'' @ token)"

definition reverse_key :: "geo_env \<Rightarrow> routing_point \<Rightarrow> string \<Rightarrow> string" where
  "reverse_key E p language = ge_digest E (''reverse|'' @ to_fixed 5 (rp_latitude p) @ ''|'' @
     to_fixed 5 (rp_longitude p) @ ''|'' @ language @ ''|'' @ rg_version (ge_region E))"

section \<open>Mapping\<close>

definition suggestion_details :: "place_suggestion \<Rightarrow> routing_point \<Rightarrow> place_details" where
  "suggestion_details s p = \<lparr> dt_id = Some (sg_id s), dt_name = sg_primaryText s,
     dt_formattedAddress = sg_secondaryText s, dt_position = p, dt_category = sg_category s,
     dt_insideSupportedRegion = sg_insideSupportedRegion s \<rparr>"

definition cacheSuggestionLookup :: "geo_env \<Rightarrow> int \<Rightarrow> place_suggestion \<Rightarrow> cached cache \<Rightarrow> cached cache" where
  "cacheSuggestionLookup E now s c =
     (case sg_position s of
        None \<Rightarrow> c
      | Some p \<Rightarrow> cache_set (lookup_key E (sg_id s)) (C_Details (suggestion_details s p)) (ge_reverseCacheTtlMs E) now c)"

definition mapSuggestion :: "geo_env \<Rightarrow> provider_suggestion \<Rightarrow> (geocoding_error option, place_suggestion) result" where
  "mapSuggestion E s =
     (case encode_place (ge_codec E) (ge_provider E) (ps_providerId s) of
        None \<Rightarrow> Inl (Some GE_INVALID_RESPONSE)
      | Some i \<Rightarrow> Inr \<lparr> sg_id = i, sg_primaryText = ps_primaryText s, sg_secondaryText = ps_secondaryText s,
          sg_category = ps_category s, sg_position = ps_position s, sg_distanceMeters = ps_distanceMeters s,
          sg_insideSupportedRegion =
            (case ps_position s of None \<Rightarrow> False | Some p \<Rightarrow> region_contains (ge_region E) p) \<rparr>)"

text \<open>The suggestions are mapped one by one, and each that has a position is cached at once.\<close>

fun map_suggestions ::
  "geo_env \<Rightarrow> int \<Rightarrow> provider_suggestion list \<Rightarrow> cached cache \<Rightarrow>
   (geocoding_error option, place_suggestion list) result \<times> cached cache" where
  "map_suggestions E now [] c = (Inr [], c)"
| "map_suggestions E now (s # ss) c =
     (case mapSuggestion E s of
        Inl e \<Rightarrow> (Inl e, c)
      | Inr m \<Rightarrow>
          (case map_suggestions E now ss (cacheSuggestionLookup E now m c) of
             (Inl e, c1) \<Rightarrow> (Inl e, c1)
           | (Inr ms, c1) \<Rightarrow> (Inr (m # ms), c1)))"

definition mapDetails :: "geo_env \<Rightarrow> provider_details \<Rightarrow> (geocoding_error option, place_details) result" where
  "mapDetails E d =
     (let mapped = (\<lambda>i. \<lparr> dt_id = i, dt_name = pd_name d, dt_formattedAddress = pd_formattedAddress d,
            dt_position = pd_position d, dt_category = pd_category d,
            dt_insideSupportedRegion = region_contains (ge_region E) (pd_position d) \<rparr>) in
      case pd_providerId d of
        None \<Rightarrow> Inr (mapped None)
      | Some i \<Rightarrow> (case encode_place (ge_codec E) (ge_provider E) i of
          None \<Rightarrow> Inl (Some GE_INVALID_RESPONSE) | Some token \<Rightarrow> Inr (mapped (Some token))))"

section \<open>Handlers\<close>

text \<open>What the limiter lets through is called; a call it turns away fails as unavailable.\<close>

definition limited :: "bool \<Rightarrow> (geocoding_error option, 'a) result \<Rightarrow> (geocoding_error option, 'a) result" where
  "limited admitted r = (if admitted then r else Inl (Some GE_UNAVAILABLE))"

definition finish_query ::
  "geo_env \<Rightarrow> search_input \<Rightarrow> string \<Rightarrow> (geocoding_error option, provider_suggestion list) result \<Rightarrow> int \<Rightarrow>
   cached cache \<Rightarrow> (thrown, geo_answer) result \<times> cached cache" where
  "finish_query E input key answer now c =
     (case answer of
        Inl e \<Rightarrow> (Inl (ThrownApi (geo_provider_error e)), c)
      | Inr providerResults \<Rightarrow>
          (case map_suggestions E now (take (si_limit input) providerResults) c of
             (Inl e, c1) \<Rightarrow> (Inl (ThrownApi (geo_provider_error e)), c1)
           | (Inr suggestions, c1) \<Rightarrow>
               (Inr (A_Suggestions suggestions),
                cache_set key (C_Suggestions suggestions) (ge_cacheTtlMs E) now c1)))"

definition geo_query ::
  "geo_env \<Rightarrow> search_operation \<Rightarrow> search_query \<Rightarrow> nat \<Rightarrow> bool \<Rightarrow> int \<Rightarrow> int \<Rightarrow> cached cache \<Rightarrow>
   (thrown, geo_answer) result \<times> cached cache" where
  "geo_query E operation raw defaultLimit admitted now later c =
     (case parse_search E raw defaultLimit of
        Inl e \<Rightarrow> (Inl (ThrownApi e), c)
      | Inr input \<Rightarrow>
          let key = search_key E operation input; (hit, c1) = cache_get key now c in
          case hit of
            Some (C_Suggestions ss) \<Rightarrow> (Inr (A_Suggestions ss), fold (cacheSuggestionLookup E now) ss c1)
          | Some _ \<Rightarrow> (Inl ThrownOther, c1)
          | None \<Rightarrow> finish_query E input key (limited admitted (ge_query E operation input)) later c1)"

definition autocomplete ::
  "geo_env \<Rightarrow> search_query \<Rightarrow> bool \<Rightarrow> int \<Rightarrow> int \<Rightarrow> cached cache \<Rightarrow> (thrown, geo_answer) result \<times> cached cache" where
  "autocomplete E raw = geo_query E Autocomplete raw 6"

definition search ::
  "geo_env \<Rightarrow> search_query \<Rightarrow> bool \<Rightarrow> int \<Rightarrow> int \<Rightarrow> cached cache \<Rightarrow> (thrown, geo_answer) result \<times> cached cache" where
  "search E raw = geo_query E Search raw 8"

definition finish_lookup ::
  "geo_env \<Rightarrow> string \<Rightarrow> (geocoding_error option, provider_details) result \<Rightarrow> int \<Rightarrow> cached cache \<Rightarrow>
   (thrown, geo_answer) result \<times> cached cache" where
  "finish_lookup E key answer now c =
     (case res_bind answer (mapDetails E) of
        Inl e \<Rightarrow> (Inl (ThrownApi (geo_provider_error e)), c)
      | Inr mapped \<Rightarrow> (Inr (A_Details mapped), cache_set key (C_Details mapped) (ge_reverseCacheTtlMs E) now c))"

fun details_answer :: "cached \<Rightarrow> geo_answer" where
  "details_answer (C_Details d) = A_Details d"
| "details_answer v = A_Other v"

definition lookup_place ::
  "geo_env \<Rightarrow> jsval \<Rightarrow> bool \<Rightarrow> int \<Rightarrow> int \<Rightarrow> cached cache \<Rightarrow> (thrown, geo_answer) result \<times> cached cache" where
  "lookup_place E tokenValue admitted now later c =
     (case tokenValue of
        JStr tokenText \<Rightarrow>
          (case decode_place (ge_codec E) tokenText of
             None \<Rightarrow> (Inl (ThrownApi placeNotFound), c)
           | Some (provider, i) \<Rightarrow>
               if provider \<noteq> ge_provider E then (Inl (ThrownApi placeNotFound), c)
               else let key = lookup_key E tokenText; (hit, c1) = cache_get key now c in
                 case hit of
                   Some v \<Rightarrow> (Inr (details_answer v), c1)
                 | None \<Rightarrow> finish_lookup E key (limited admitted (ge_lookup E i)) later c1)
      | _ \<Rightarrow> (Inl (ThrownApi placeNotFound), c))"

record reverse_query =
  rv_lat :: jsval
  rv_lon :: jsval
  rv_language :: jsval

definition finish_reverse ::
  "geo_env \<Rightarrow> routing_point \<Rightarrow> string \<Rightarrow> (geocoding_error option, provider_details option) result \<Rightarrow> int \<Rightarrow>
   cached cache \<Rightarrow> (thrown, geo_answer) result \<times> cached cache" where
  "finish_reverse E point key answer now c =
     (case answer of
        Inl e \<Rightarrow> (Inl (ThrownApi (geo_provider_error e)), c)
      | Inr None \<Rightarrow> (Inr A_Null, cache_set key C_Empty (ge_reverseCacheTtlMs E) now c)
      | Inr (Some place) \<Rightarrow>
          (case mapDetails E (place\<lparr>pd_position := point\<rparr>) of
             Inl e \<Rightarrow> (Inl (ThrownApi (geo_provider_error e)), c)
           | Inr mapped \<Rightarrow>
               (Inr (A_Details mapped), cache_set key (C_Details mapped) (ge_reverseCacheTtlMs E) now c)))"

definition reverse_place ::
  "geo_env \<Rightarrow> reverse_query \<Rightarrow> bool \<Rightarrow> int \<Rightarrow> int \<Rightarrow> cached cache \<Rightarrow> (thrown, geo_answer) result \<times> cached cache" where
  "reverse_place E raw admitted now later c =
     (case parseRequiredPoint (rv_lat raw) (rv_lon raw) of
        Inl e \<Rightarrow> (Inl (ThrownApi e), c)
      | Inr point \<Rightarrow>
          if \<not> region_contains (ge_region E) point then (Inl (ThrownApi outside_region), c)
          else (case parseLanguage (rv_language raw) of
            Inl e \<Rightarrow> (Inl (ThrownApi e), c)
          | Inr language \<Rightarrow>
              let key = reverse_key E point language; (hit, c1) = cache_get key now c in
              case hit of
                Some C_Empty \<Rightarrow> (Inr A_Null, c1)
              | Some (C_Details d) \<Rightarrow> (Inr (A_Details (d\<lparr>dt_position := point\<rparr>)), c1)
              | Some v \<Rightarrow> (Inr (A_Other v), c1)
              | None \<Rightarrow> finish_reverse E point key
                  (limited admitted (ge_reverse E \<lparr> ri_point = point, ri_language = language \<rparr>)) later c1))"

section \<open>The cache behind the handlers\<close>

definition lookup_put :: "geo_env \<Rightarrow> int \<Rightarrow> place_suggestion \<Rightarrow> cached cache_op list" where
  "lookup_put E now s =
     (case sg_position s of
        None \<Rightarrow> []
      | Some p \<Rightarrow> [Put (lookup_key E (sg_id s)) (C_Details (suggestion_details s p)) (ge_reverseCacheTtlMs E) now])"

definition lookup_puts :: "geo_env \<Rightarrow> int \<Rightarrow> place_suggestion list \<Rightarrow> cached cache_op list" where
  "lookup_puts E now ss = concat (map (lookup_put E now) (rev ss))"

lemma cacheSuggestionLookup_step: "cacheSuggestionLookup E now s c = foldr cache_step (lookup_put E now s) c"
  by (simp add: cacheSuggestionLookup_def lookup_put_def split: option.splits)

lemma fold_lookups: "fold (cacheSuggestionLookup E now) ss c = foldr cache_step (lookup_puts E now ss) c"
  by (induction ss arbitrary: c) (simp_all add: lookup_puts_def cacheSuggestionLookup_step)

lemma cache_after_append: "foldr cache_step ops (cache_after n history) = cache_after n (ops @ history)"
  by (simp add: cache_after_def)

lemma map_suggestions_Inr:
  "map_suggestions E now ss c = (Inr ms, c1) \<Longrightarrow>
     list_all2 (\<lambda>s m. mapSuggestion E s = Inr m) ss ms \<and> c1 = fold (cacheSuggestionLookup E now) ms c"
  by (induction ss arbitrary: c ms) (auto split: sum.splits prod.splits)

text \<open>A run of writes keeps all of its keys when the cache has room for them.\<close>

fun put_key :: "'v cache_op \<Rightarrow> string" where
  "put_key (Put k v ttl now) = k"
| "put_key op = []"

fun is_put :: "'v cache_op \<Rightarrow> bool" where
  "is_put (Put k v ttl now) = True"
| "is_put op = False"

lemma retained_puts:
  "list_all is_put ops \<Longrightarrow> key \<in> put_key ` set ops \<Longrightarrow> finite since \<Longrightarrow>
     card (since \<union> (put_key ` set ops - {key})) < n \<Longrightarrow> retained n key since (ops @ history)"
proof (induction ops arbitrary: since)
  case (Cons op ops)
  obtain k v ttl now where op: "op = Put k v ttl now" using Cons.prems(1) by (cases op) auto
  show ?case
  proof (cases "k = key")
    case True
    have "card since \<le> card (since \<union> (put_key ` set (op # ops) - {key}))"
      using Cons.prems(3) by (intro card_mono) auto
    with Cons.prems(4) True op show ?thesis by simp
  next
    case False
    then have "insert k since \<union> (put_key ` set ops - {key}) = since \<union> (put_key ` set (op # ops) - {key})"
      by (auto simp: op)
    with Cons.prems False op have "retained n key (insert k since) (ops @ history)"
      by (intro Cons.IH) auto
    with False op show ?thesis by simp
  qed
qed simp

lemma last_write_puts:
  "list_all is_put ops \<Longrightarrow> key \<in> put_key ` set ops \<Longrightarrow>
     \<exists>v ttl now. Put key v ttl now \<in> set ops \<and>
       last_write key (ops @ history) = Some \<lparr> ce_value = v, ce_expiresAt = now + ttl \<rparr>"
proof (induction ops)
  case (Cons op ops)
  obtain k v ttl now where op: "op = Put k v ttl now" using Cons.prems(1) by (cases op) auto
  show ?case
  proof (cases "k = key")
    case False
    with Cons op obtain v' ttl' now' where "Put key v' ttl' now' \<in> set ops"
      "last_write key (ops @ history) = Some \<lparr> ce_value = v', ce_expiresAt = now' + ttl' \<rparr>" by auto
    with False op show ?thesis by auto
  qed (auto simp: op)
qed simp

lemma stored_puts:
  assumes "list_all is_put ops" and "key \<in> put_key ` set ops" and "card (put_key ` set ops - {key}) < n"
  shows "\<exists>v ttl now. Put key v ttl now \<in> set ops \<and>
    dict_get (ca_entries (cache_after n (ops @ history))) key = Some \<lparr> ce_value = v, ce_expiresAt = now + ttl \<rparr>"
proof -
  have ok: "dict_ok (ca_entries (cache_after n (ops @ history)))"
    using after_wf [of n "ops @ history"] unfolding cache_wf_def by blast
  have "retained n key {} (ops @ history)" by (rule retained_puts) (use assms in auto)
  then obtain e where "last_write key (ops @ history) = Some e"
    "placed key e (used_since key (ops @ history)) (ca_entries (cache_after n (ops @ history)))"
    using retained_placed by blast
  then show ?thesis using placed_get [OF ok] last_write_puts [OF assms(1,2), of history] by fastforce
qed

lemma lookup_puts_mem:
  "Put k v ttl t \<in> set (lookup_puts E now ss) \<longleftrightarrow>
     (\<exists>s\<in>set ss. \<exists>p. sg_position s = Some p \<and> k = lookup_key E (sg_id s) \<and>
        v = C_Details (suggestion_details s p) \<and> ttl = ge_reverseCacheTtlMs E \<and> t = now)"
proof -
  have "Put k v ttl t \<in> set (lookup_put E now s) \<longleftrightarrow> (\<exists>p. sg_position s = Some p \<and> k = lookup_key E (sg_id s) \<and>
        v = C_Details (suggestion_details s p) \<and> ttl = ge_reverseCacheTtlMs E \<and> t = now)" for s
    by (cases "sg_position s") (auto simp: lookup_put_def)
  then show ?thesis by (auto simp: lookup_puts_def)
qed

lemma lookup_puts_are_puts: "list_all is_put (lookup_puts E now ss)"
  by (auto simp: lookup_puts_def lookup_put_def list_all_iff split: option.splits)

lemma length_lookup_puts: "length (lookup_puts E now ss) \<le> length ss"
  by (induction ss) (auto simp: lookup_puts_def lookup_put_def split: option.splits)

section \<open>Reachable caches\<close>

text \<open>
  Handlers may interleave at the call of the provider, so a step is the first half of any handler,
  which reads a key, the answer of a search from the cache, or the second half of a handler, whatever
  the provider answered and whatever happened meanwhile.
\<close>

inductive geo_reachable :: "geo_env \<Rightarrow> nat \<Rightarrow> cached cache \<Rightarrow> bool" for E n where
  fresh: "geo_reachable E n (new_cache n)"
| read: "geo_reachable E n c \<Longrightarrow> geo_reachable E n (snd (cache_get key now c))"
| hit: "geo_reachable E n c \<Longrightarrow> cache_get key now c = (Some (C_Suggestions ss), c1) \<Longrightarrow>
    geo_reachable E n (fold (cacheSuggestionLookup E now) ss c1)"
| query: "geo_reachable E n c \<Longrightarrow> si_limit input \<le> 8 \<Longrightarrow>
    geo_reachable E n (snd (finish_query E input (search_key E operation input) answer now c))"
| lookup: "geo_reachable E n c \<Longrightarrow>
    geo_reachable E n (snd (finish_lookup E (lookup_key E token) answer' now c))"
| reverse: "geo_reachable E n c \<Longrightarrow>
    geo_reachable E n (snd (finish_reverse E point (reverse_key E point language) answer'' now c))"

definition token_of :: "geo_env \<Rightarrow> string \<Rightarrow> bool" where
  "token_of E t \<longleftrightarrow> (\<exists>i. encode_place (ge_codec E) (ge_provider E) i = Some t)"

fun cached_ok :: "geo_env \<Rightarrow> cached \<Rightarrow> bool" where
  "cached_ok E (C_Suggestions ss) = (length ss \<le> 8 \<and> list_all (\<lambda>s. token_of E (sg_id s)) ss)"
| "cached_ok E v = True"

definition contents_ok :: "geo_env \<Rightarrow> cached cache \<Rightarrow> bool" where
  "contents_ok E c \<longleftrightarrow> (\<forall>(k, e)\<in>set (ca_entries c). cached_ok E (ce_value e))"

definition geo_inv :: "geo_env \<Rightarrow> nat \<Rightarrow> cached cache \<Rightarrow> bool" where
  "geo_inv E n c \<longleftrightarrow> (\<exists>history. c = cache_after n history) \<and> contents_ok E c"

lemma cache_set_contents: "contents_ok E c \<Longrightarrow> cached_ok E v \<Longrightarrow> contents_ok E (cache_set k v ttl now c)"
proof -
  assume "contents_ok E c" "cached_ok E v"
  then have "\<forall>(k, e)\<in>set (dict_set k \<lparr> ce_value = v, ce_expiresAt = now + ttl \<rparr> (dict_delete k (ca_entries c))).
      cached_ok E (ce_value e)"
    unfolding dict_refresh by (auto simp: contents_ok_def dict_delete_def)
  then show ?thesis
    by (auto simp: contents_ok_def cache_set_def Let_def evict_drop dest: in_set_dropD)
qed

lemma cache_get_contents: "contents_ok E c \<Longrightarrow> contents_ok E (snd (cache_get k now c))"
proof -
  assume ok: "contents_ok E c"
  have "set (dict_delete k (ca_entries c)) \<subseteq> set (ca_entries c)" by (auto simp: dict_delete_def)
  with ok dict_get_in [of "ca_entries c" k] show ?thesis
    using set_dict_set [of k _ "dict_delete k (ca_entries c)"]
    by (fastforce simp: contents_ok_def cache_get_def split: option.splits)
qed

lemma cache_get_value: "contents_ok E c \<Longrightarrow> cache_get k now c = (Some v, c1) \<Longrightarrow> cached_ok E v"
  using dict_get_in [of "ca_entries c" k]
  by (auto simp: contents_ok_def cache_get_def split: option.splits if_splits)

lemma geo_inv_set: "geo_inv E n c \<Longrightarrow> cached_ok E v \<Longrightarrow> geo_inv E n (cache_set k v ttl now c)"
  unfolding geo_inv_def using cache_set_contents cache_after_append [of "[Put k v ttl now]"] by fastforce

lemma geo_inv_get: "geo_inv E n c \<Longrightarrow> geo_inv E n (snd (cache_get k now c))"
  unfolding geo_inv_def using cache_get_contents cache_after_append [of "[Get k now]"] by fastforce

lemma geo_inv_lookups: "geo_inv E n c \<Longrightarrow> geo_inv E n (fold (cacheSuggestionLookup E now) ss c)"
  by (induction ss arbitrary: c) (auto simp: cacheSuggestionLookup_def geo_inv_set split: option.splits)

lemma map_suggestions_inv: "geo_inv E n c \<Longrightarrow> geo_inv E n (snd (map_suggestions E now ss c))"
proof (induction ss arbitrary: c)
  case (Cons s ss)
  have "geo_inv E n (cacheSuggestionLookup E now m c)" for m
    using geo_inv_lookups [OF Cons.prems, of now "[m]"] by simp
  with Cons.IH Cons.prems show ?case by (auto split: sum.splits prod.splits) (metis snd_conv)+
qed simp

lemma mapSuggestion_token: "mapSuggestion E s = Inr m \<Longrightarrow> token_of E (sg_id m) \<and> sg_position m = ps_position s"
  by (auto simp: mapSuggestion_def token_of_def split: option.splits)

lemma mapped_suggestions_ok:
  assumes "map_suggestions E now (take limit ss) c = (Inr ms, c1)" and "limit \<le> 8"
  shows "cached_ok E (C_Suggestions ms)"
proof -
  have l: "list_all2 (\<lambda>s m. mapSuggestion E s = Inr m) (take limit ss) ms"
    using map_suggestions_Inr [OF assms(1)] by blast
  then have "list_all (\<lambda>m. token_of E (sg_id m)) ms"
    by (induction rule: list_all2_induct) (auto dest: mapSuggestion_token)
  moreover have "length ms \<le> 8" using list_all2_lengthD [OF l] assms(2) by simp
  ultimately show ?thesis by simp
qed

lemma finish_query_inv:
  assumes "geo_inv E n c" and "si_limit input \<le> 8"
  shows "geo_inv E n (snd (finish_query E input key answer now c))"
proof (cases answer)
  case (Inr results)
  obtain r c1 where m: "map_suggestions E now (take (si_limit input) results) c = (r, c1)" by fastforce
  then have "geo_inv E n c1" using map_suggestions_inv [OF assms(1)] by (metis snd_conv)
  then show ?thesis using m mapped_suggestions_ok [of E now "si_limit input" results c _ c1] assms(2)
    by (cases r) (auto simp: finish_query_def Inr intro!: geo_inv_set)
qed (simp add: finish_query_def assms)

lemma geo_reachable_inv: "geo_reachable E n c \<Longrightarrow> geo_inv E n c"
proof (induction rule: geo_reachable.induct)
  case fresh
  have "new_cache n = cache_after n []" by (simp add: cache_after_def)
  moreover have "contents_ok E (new_cache n)" by (simp add: contents_ok_def new_cache_def)
  ultimately show ?case unfolding geo_inv_def by blast
next
  case (hit c key now ss c1)
  then show ?case using geo_inv_get [of E n c key now] geo_inv_lookups by simp
next
  case (lookup c token answer' now)
  then show ?case by (auto simp: finish_lookup_def geo_inv_set split: sum.splits)
next
  case (reverse c point language answer'' now)
  then show ?case by (auto simp: finish_reverse_def geo_inv_set split: sum.splits option.splits)
qed (simp_all add: geo_inv_get finish_query_inv)

section \<open>From search to lookup\<close>

lemma parse_search_limit:
  assumes "parse_search E raw d = Inr input" and "d \<le> 8"
  shows "si_limit input \<le> 8"
proof -
  have "parseLimit v d = Inr l \<Longrightarrow> l \<le> 8" for v l
    using assms(2) by (auto simp: parseLimit_def Let_def MAX_LIMIT_def split: jsval.splits if_splits)
  with assms(1) show ?thesis by (auto simp: parse_search_def res_bind_Inr)
qed

text \<open>What a successful search leaves in the cache: its lookups, written last, then the search itself.\<close>

lemma search_history:
  assumes "geo_reachable E n c" and "d \<le> 8"
    and "geo_query E operation raw d admitted now later c = (Inr (A_Suggestions ss), c')"
  obtains input history P t where "parse_search E raw d = Inr input"
    and "c' = cache_after n (P @ lookup_puts E t ss @ history)" and "cached_ok E (C_Suggestions ss)"
    and "P = [] \<or> P = [Put (search_key E operation input) (C_Suggestions ss) (ge_cacheTtlMs E) t]"
    and "t = now \<or> t = later"
proof -
  have inv: "geo_inv E n c" by (rule geo_reachable_inv [OF assms(1)])
  obtain input where input: "parse_search E raw d = Inr input"
    using assms(3) by (auto simp: geo_query_def split: sum.splits)
  let ?key = "search_key E operation input"
  obtain h c1 where got: "cache_get ?key now c = (h, c1)" by fastforce
  then obtain history where c1: "c1 = cache_after n history"
    using geo_inv_get [OF inv, of ?key now] by (auto simp: geo_inv_def)
  show ?thesis
  proof (cases h)
    case None
    let ?answer = "limited admitted (ge_query E operation input)"
    have f: "finish_query E input ?key ?answer later c1 = (Inr (A_Suggestions ss), c')"
      using assms(3) input got None by (simp add: geo_query_def)
    then obtain results c2 where m: "map_suggestions E later (take (si_limit input) results) c1 = (Inr ss, c2)"
      and c': "c' = cache_set ?key (C_Suggestions ss) (ge_cacheTtlMs E) later c2"
      by (auto simp: finish_query_def split: sum.splits prod.splits)
    have "c2 = cache_after n (lookup_puts E later ss @ history)"
      using map_suggestions_Inr [OF m] by (simp add: fold_lookups c1 cache_after_append)
    then have "c' = cache_after n ([Put ?key (C_Suggestions ss) (ge_cacheTtlMs E) later] @
        lookup_puts E later ss @ history)"
      using cache_after_append [of "[Put ?key (C_Suggestions ss) (ge_cacheTtlMs E) later]"] c' by simp
    with input mapped_suggestions_ok [OF m parse_search_limit [OF input assms(2)]] show ?thesis
      by (intro that [where input = input and t = later and history = history and
            P = "[Put ?key (C_Suggestions ss) (ge_cacheTtlMs E) later]"]) auto
  next
    case (Some v)
    then have v: "v = C_Suggestions ss" "c' = fold (cacheSuggestionLookup E now) ss c1"
      using assms(3) input got by (auto simp: geo_query_def split: cached.splits)
    have "c' = cache_after n ([] @ lookup_puts E now ss @ history)"
      by (simp add: v(2) fold_lookups c1 cache_after_append)
    moreover have "cached_ok E (C_Suggestions ss)"
      using cache_get_value [OF _ got [unfolded Some v(1)], of E] inv by (simp add: geo_inv_def)
    ultimately show ?thesis using input by (intro that [where input = input and t = now]) auto
  qed
qed

lemma lookup_text_not_search: "''lookup|'' @ t \<noteq> search_text E operation input"
  by (cases operation) (simp_all add: search_text_def)

lemma stored_lookup:
  assumes "geo_reachable E n c" and "d \<le> 8" and "9 \<le> n"
    and "geo_query E operation raw d admitted now later c = (Inr (A_Suggestions ss), c')"
    and "s \<in> set ss" and "sg_position s = Some p"
    and "inj_on (ge_digest E) K" and "\<And>input. parse_search E raw d = Inr input \<Longrightarrow> search_text E operation input \<in> K"
    and "\<And>s. s \<in> set ss \<Longrightarrow> ''lookup|'' @ sg_id s \<in> K" and "now \<le> later"
  shows "token_of E (sg_id s) \<and> (\<exists>s'\<in>set ss. \<exists>p' t. sg_id s' = sg_id s \<and> sg_position s' = Some p' \<and> now \<le> t \<and>
    dict_get (ca_entries c') (lookup_key E (sg_id s)) =
      Some \<lparr> ce_value = C_Details (suggestion_details s' p'), ce_expiresAt = t + ge_reverseCacheTtlMs E \<rparr>)"
proof -
  obtain input history P t where input: "parse_search E raw d = Inr input"
    and c': "c' = cache_after n (P @ lookup_puts E t ss @ history)" and ok: "cached_ok E (C_Suggestions ss)"
    and P: "P = [] \<or> P = [Put (search_key E operation input) (C_Suggestions ss) (ge_cacheTtlMs E) t]"
    and t: "t = now \<or> t = later"
    by (rule search_history [OF assms(1,2,4)])
  let ?k = "lookup_key E (sg_id s)" and ?ops = "P @ lookup_puts E t ss"
  have puts: "list_all is_put ?ops" using P lookup_puts_are_puts [of E t ss] by auto
  have mem: "Put ?k (C_Details (suggestion_details s p)) (ge_reverseCacheTtlMs E) t \<in> set ?ops"
    using assms(5,6) by (auto simp: lookup_puts_mem)
  then have key: "?k \<in> put_key ` set ?ops" by force
  have "length ?ops \<le> 9" using P length_lookup_puts [of E t ss] ok by auto
  then have "card (put_key ` set ?ops) \<le> 9"
    by (meson card_image_le card_length finite_set order_trans)
  then have "card (put_key ` set ?ops - {?k}) < n"
    using assms(3) key card_Diff1_less [of "put_key ` set ?ops" ?k] by simp
  from stored_puts [OF puts key this, of history] obtain v ttl u where
    v: "Put ?k v ttl u \<in> set ?ops"
      "dict_get (ca_entries c') ?k = Some \<lparr> ce_value = v, ce_expiresAt = u + ttl \<rparr>"
    unfolding c' by auto
  have inj: "x \<in> K \<Longrightarrow> y \<in> K \<Longrightarrow> ge_digest E x = ge_digest E y \<Longrightarrow> x = y" for x y
    using assms(7) by (rule inj_onD) auto
  have "Put ?k v ttl u \<notin> set P"
    using P inj [OF assms(9) [OF assms(5)] assms(8) [OF input]] lookup_text_not_search
    by (auto simp: lookup_key_def search_key_def)
  then obtain s' p' where s': "s' \<in> set ss" "sg_position s' = Some p'" "?k = lookup_key E (sg_id s')"
    "v = C_Details (suggestion_details s' p')" "ttl = ge_reverseCacheTtlMs E" "u = t"
    using v(1) by (auto simp: lookup_puts_mem)
  then have "sg_id s' = sg_id s"
    using inj [OF assms(9) [OF assms(5)] assms(9) [OF s'(1)]] by (simp add: lookup_key_def)
  moreover have "token_of E (sg_id s)" using ok assms(5) by (simp add: list_all_iff)
  ultimately show ?thesis using s' v(2) t assms(10) by blast
qed



section \<open>A sample service\<close>

definition sample_found :: provider_suggestion where
  "sample_found = \<lparr> ps_providerId = ''osm:W:12'', ps_primaryText = ''Monas'', ps_secondaryText = None,
     ps_category = None, ps_position = Some \<lparr> rp_latitude = Fin (- 6), rp_longitude = Fin 107 \<rparr>,
     ps_distanceMeters = None, ps_source = SRC_OPENSTREETMAP \<rparr>"

definition sample_geo :: geo_env where
  "sample_geo = \<lparr> ge_codec = sample_codec, ge_digest = id, ge_nfkc = id, ge_localeLower = id,
     ge_provider = Photon, ge_query = (\<lambda>_ _. Inr [sample_found]), ge_lookup = (\<lambda>_. Inl (Some GE_NOT_FOUND)),
     ge_reverse = (\<lambda>_. Inr None), ge_region = default_region, ge_cacheTtlMs = 1000, ge_reverseCacheTtlMs = 2000 \<rparr>"

definition sample_search :: search_query where
  "sample_search = \<lparr> sq_q = JStr ''monas'', sq_lat = JUndefined, sq_lon = JUndefined, sq_limit = JUndefined,
     sq_language = JUndefined, sq_forField = JUndefined \<rparr>"

lemma sample_parsed: "parse_search sample_geo sample_search 8 = Inr
    \<lparr> si_query = ''monas'', si_proximity = fallbackFocus default_region, si_limit = 8, si_language = ''id'' \<rparr>"
  by code_simp

lemma sample_token: "encode_place sample_codec Photon ''osm:W:12'' =
    Some (the (encode_place sample_codec Photon ''osm:W:12''))"
  by code_simp


definition sample_suggestion :: place_suggestion where
  "sample_suggestion = \<lparr> sg_id = the (encode_place sample_codec Photon ''osm:W:12''), sg_primaryText = ''Monas'',
     sg_secondaryText = None, sg_category = None,
     sg_position = Some \<lparr> rp_latitude = Fin (- 6), rp_longitude = Fin 107 \<rparr>, sg_distanceMeters = None,
     sg_insideSupportedRegion = region_contains default_region \<lparr> rp_latitude = Fin (- 6), rp_longitude = Fin 107 \<rparr> \<rparr>"

lemma sample_answer:
  "fst (geo_query sample_geo Search sample_search 8 True 100 150 (new_cache 9)) = Inr (A_Suggestions [sample_suggestion])"
proof -
  obtain t where "encode_place sample_codec Photon ''osm:W:12'' = Some t" using sample_token by blast
  then have "mapSuggestion sample_geo sample_found = Inr sample_suggestion"
    by (simp add: mapSuggestion_def sample_geo_def sample_found_def sample_suggestion_def)
  moreover have "cache_get k 100 (new_cache 9 :: cached cache) = (None, new_cache 9)" for k
    by (simp add: cache_get_def new_cache_def dict_get_def)
  moreover have "ge_query sample_geo operation input = Inr [sample_found]" for operation input
    by (simp add: sample_geo_def)
  ultimately show ?thesis by (simp add: geo_query_def sample_parsed Let_def finish_query_def limited_def)
qed


end
