(* ===== verification/Fake_Geocoding.thy ===== *)
theory Fake_Geocoding
  imports Geocoding_Service
begin

text \<open>
  The provider of places for development, \<^verbatim>\<open>src/src/geocoding/providers/fake-geocoding.provider.ts\<close>:
  eight fixed places, found by their names and aliases. \<open>Math\<close>, the Unicode normalisation, the class of
  diacritics and the case conversion of the locale are parameters. The lemmas show that it keeps what the geocoding service
  relies on: bounded answers, identifiers that a place token accepts and that can
  be looked up again, and labels that never move the requested point.
\<close>

section \<open>Places\<close>

record fake_place =
  fk_providerId :: string
  fk_name :: string
  fk_formattedAddress :: string
  fk_position :: routing_point
  fk_category :: place_category
  fk_aliases :: "string list"
  fk_source :: geocoding_source

definition demoPlace ::
  "string \<Rightarrow> string \<Rightarrow> string \<Rightarrow> rat \<Rightarrow> rat \<Rightarrow> place_category \<Rightarrow> string list \<Rightarrow> fake_place" where
  "demoPlace providerId name formattedAddress latitude longitude category aliases =
     \<lparr> fk_providerId = providerId, fk_name = name, fk_formattedAddress = formattedAddress,
       fk_position = \<lparr> rp_latitude = mk_num latitude, rp_longitude = mk_num longitude \<rparr>, fk_category = category,
       fk_aliases = aliases, fk_source = SRC_GATHRA_CSV \<rparr>"

definition PLACES :: "fake_place list" where
  "PLACES =
     [demoPlace ''fake:venue:jakarta-pusat'' ''Pusat Belajar GATHRA Jakarta Pusat'' ''Gambir, Jakarta Pusat''
        (- 61767 / 10000) (1068307 / 10000) CAT_SCHOOL [''sekolah pusat'', ''sman pusat''],
      demoPlace ''fake:venue:jakarta-selatan'' ''Klinik Demo GATHRA Jakarta Selatan'' ''Kebayoran Baru, Jakarta Selatan''
        (- 6243 / 1000) (1067992 / 10000) CAT_HOSPITAL [''rumah sakit selatan'', ''rs selatan''],
      demoPlace ''fake:venue:kota-tangerang'' ''Balai Layanan Demo Kota Tangerang'' ''Tangerang, Kota Tangerang''
        (- 61783 / 10000) (1066319 / 10000) CAT_GOVERNMENT [''kantor tangerang'', ''tanggerang''],
      demoPlace ''fake:venue:tangerang-selatan'' ''Taman Demo GATHRA Tangerang Selatan'' ''Serpong, Kota Tangerang Selatan''
        (- 63017 / 10000) (1066546 / 10000) CAT_LANDMARK [''taman tangsel'', ''tanggerang selatan''],
      demoPlace ''fake:street:sudirman'' ''Jalan Jenderal Sudirman'' ''Jakarta Pusat''
        (- 62088 / 10000) (1068229 / 10000) CAT_ROAD [''jl sudirman'', ''jend sudirman''],
      demoPlace ''fake:neighbourhood:ciputat'' ''Ciputat'' ''Kota Tangerang Selatan''
        (- 63114 / 10000) (1067489 / 10000) CAT_NEIGHBOURHOOD [''ciputat tangsel''],
      demoPlace ''fake:transit:tangerang'' ''Stasiun Demo Tangerang'' ''Kota Tangerang''
        (- 61768 / 10000) (1066324 / 10000) CAT_TRANSIT [''stasiun tanggerang''],
      demoPlace ''fake:venue:outside'' ''Lokasi Demo di Luar Wilayah'' ''Bekasi, Jawa Barat''
        (- 62383 / 10000) 107 CAT_OTHER [''luar wilayah'']]"

section \<open>Finding places\<close>

record fake_env =
  fe_math :: js_math
  fe_nfkd :: "string \<Rightarrow> string"
  fe_diacritic :: "char \<Rightarrow> bool"
  fe_localeLower :: "string \<Rightarrow> string"

definition fake_normalize :: "fake_env \<Rightarrow> string \<Rightarrow> string" where
  "fake_normalize E v =
     js_trim (collapse_spaces (fe_localeLower E (filter (\<lambda>c. \<not> fe_diacritic E c) (fe_nfkd E v))))"

definition fake_distance :: "js_math \<Rightarrow> routing_point \<Rightarrow> routing_point \<Rightarrow> jsnum" where
  "fake_distance M left right =
     (let radians = js_div js_PI (Fin 180);
          latitudeDelta = js_mul (js_sub (rp_latitude right) (rp_latitude left)) radians;
          longitudeDelta = js_mul (js_sub (rp_longitude right) (rp_longitude left)) radians;
          a = js_add (m_square M (m_sin M (js_div latitudeDelta (Fin 2))))
            (js_mul (js_mul (m_cos M (js_mul (rp_latitude left) radians)) (m_cos M (js_mul (rp_latitude right) radians)))
              (m_square M (m_sin M (js_div longitudeDelta (Fin 2))))) in
      js_mul (Fin (2 * 6371000)) (m_asin M (m_sqrt M a)))"

text \<open>\<open>left.distance - right.distance\<close> is not positive.\<close>

definition not_farther :: "('a \<times> jsnum) \<Rightarrow> ('a \<times> jsnum) \<Rightarrow> bool" where
  "not_farther left right \<longleftrightarrow> \<not> js_lt (Fin 0) (js_sub (snd left) (snd right))"

definition term_matches :: "bool \<Rightarrow> string \<Rightarrow> string \<Rightarrow> bool" where
  "term_matches prefixOnly query t =
     (if prefixOnly then starts_with t query \<or> str_includes t ('' '' @ query) else str_includes t query)"

definition fake_matches :: "fake_env \<Rightarrow> bool \<Rightarrow> string \<Rightarrow> fake_place \<Rightarrow> bool" where
  "fake_matches E prefixOnly query place \<longleftrightarrow>
     list_ex (term_matches prefixOnly query) (map (fake_normalize E) (fk_name place # fk_aliases place))"

definition fake_suggestion :: "fake_place \<times> jsnum \<Rightarrow> provider_suggestion" where
  "fake_suggestion p = (case p of (place, distance) \<Rightarrow>
     \<lparr> ps_providerId = fk_providerId place, ps_primaryText = fk_name place,
       ps_secondaryText = Some (fk_formattedAddress place), ps_category = Some (fk_category place),
       ps_position = Some (fk_position place), ps_distanceMeters = Some (js_round distance), ps_source = fk_source place \<rparr>)"

definition fake_find :: "fake_env \<Rightarrow> bool \<Rightarrow> search_input \<Rightarrow> provider_suggestion list" where
  "fake_find E prefixOnly input =
     (let query = fake_normalize E (si_query input);
          candidates = filter (fake_matches E prefixOnly query) PLACES in
      map fake_suggestion (take (si_limit input)
        (sort_by not_farther (map (\<lambda>place. (place, fake_distance (fe_math E) (fk_position place) (si_proximity input))) candidates))))"

definition fake_autocomplete :: "fake_env \<Rightarrow> search_input \<Rightarrow> provider_suggestion list" where
  "fake_autocomplete E input = fake_find E True input"

definition fake_search :: "fake_env \<Rightarrow> search_input \<Rightarrow> provider_suggestion list" where
  "fake_search E input = fake_find E False input"

section \<open>Lookup and reverse geocoding\<close>

definition withoutAliases :: "fake_place \<Rightarrow> provider_details" where
  "withoutAliases place = \<lparr> pd_providerId = Some (fk_providerId place), pd_name = fk_name place,
     pd_formattedAddress = Some (fk_formattedAddress place), pd_position = fk_position place,
     pd_category = Some (fk_category place), pd_source = fk_source place \<rparr>"

definition fake_lookup :: "string \<Rightarrow> (geocoding_error, provider_details) result" where
  "fake_lookup providerId = (case find (\<lambda>place. fk_providerId place = providerId) PLACES of
     None \<Rightarrow> Inl GE_NOT_FOUND | Some place \<Rightarrow> Inr (withoutAliases place))"

definition fake_reverse :: "fake_env \<Rightarrow> reverse_input \<Rightarrow> provider_details option" where
  "fake_reverse E input =
     (case sort_by not_farther (map (\<lambda>place. (place, fake_distance (fe_math E) (fk_position place) (ri_point input))) PLACES) of
        [] \<Rightarrow> None
      | (place, distance) # _ \<Rightarrow>
          if js_lt (Fin 2000) distance then None
          else Some ((withoutAliases place)\<lparr>pd_position := ri_point input\<rparr>))"

text \<open>The fields of the service's environment that the provider fills when it is configured.\<close>

definition with_fake_provider :: "fake_env \<Rightarrow> geo_env \<Rightarrow> geo_env" where
  "with_fake_provider F E = E\<lparr>ge_provider := Fake,
     ge_query := (\<lambda>operation input. Inr (case operation of Autocomplete \<Rightarrow> fake_autocomplete F input | Search \<Rightarrow> fake_search F input)),
     ge_lookup := (\<lambda>i. case fake_lookup i of Inl e \<Rightarrow> Inl (Some e) | Inr v \<Rightarrow> Inr v),
     ge_reverse := (\<lambda>input. Inr (fake_reverse F input))\<rparr>"

section \<open>Lemmas\<close>

lemma fake_ids:
  "map fk_providerId PLACES = [''fake:venue:jakarta-pusat'', ''fake:venue:jakarta-selatan'', ''fake:venue:kota-tangerang'',
     ''fake:venue:tangerang-selatan'', ''fake:street:sudirman'', ''fake:neighbourhood:ciputat'', ''fake:transit:tangerang'',
     ''fake:venue:outside'']"
  by (simp add: PLACES_def demoPlace_def)

lemma fake_ids_distinct: "distinct (map fk_providerId PLACES)"
  unfolding fake_ids by simp

lemma fake_ids_safe: "list_all SAFE_PROVIDER_ID (map fk_providerId PLACES)"
  unfolding fake_ids by code_simp

lemma find_distinct_key: "x \<in> set xs \<Longrightarrow> distinct (map key xs) \<Longrightarrow> find (\<lambda>y. key y = key x) xs = Some x"
  by (induction xs) auto

lemma fake_lookup_place:
  assumes "place \<in> set PLACES"
  shows "fake_lookup (fk_providerId place) = Inr (withoutAliases place)"
proof -
  have "find (\<lambda>p. fk_providerId p = fk_providerId place) PLACES = Some place"
    using assms fake_ids_distinct by (rule find_distinct_key)
  then show ?thesis by (simp add: fake_lookup_def)
qed

text \<open>Every suggestion is one of the places, and looking its identifier up gives the same place.\<close>

lemma fake_find_lookup:
  assumes "s \<in> set (fake_find E prefixOnly input)"
  shows "\<exists>place\<in>set PLACES. fake_lookup (ps_providerId s) = Inr (withoutAliases place) \<and> ps_providerId s = fk_providerId place \<and>
    ps_primaryText s = fk_name place \<and> ps_position s = Some (fk_position place) \<and> SAFE_PROVIDER_ID (ps_providerId s)"
proof -
  obtain place distance where place: "place \<in> set PLACES" "s = fake_suggestion (place, distance)"
    using assms by (auto simp: fake_find_def Let_def dest!: in_set_takeD)
  with fake_ids_safe fake_lookup_place [OF place(1)] show ?thesis
    by (auto simp: fake_suggestion_def list_all_iff)
qed

lemma fake_find_bounded: "length (fake_find E prefixOnly input) \<le> si_limit input"
  by (simp add: fake_find_def Let_def)

lemma fake_reverse_point:
  "fake_reverse E input = Some v \<Longrightarrow> pd_position v = ri_point input"
  by (auto simp: fake_reverse_def split: list.splits if_splits)

text \<open>The service with this provider finds again whatever it suggested, without the cache.\<close>

lemma fake_service_lookup:
  assumes "ge_query (with_fake_provider F E) operation input = Inr ss" and "s \<in> set ss"
  shows "\<exists>v. ge_lookup (with_fake_provider F E) (ps_providerId s) = Inr v \<and> Some (pd_position v) = ps_position s \<and>
    pd_name v = ps_primaryText s"
proof -
  have "s \<in> set (fake_find F (operation = Autocomplete) input)"
    using assms by (cases operation) (simp_all add: with_fake_provider_def fake_autocomplete_def fake_search_def)
  from fake_find_lookup [OF this] show ?thesis by (auto simp: with_fake_provider_def withoutAliases_def)
qed

end
