(* ===== verification/Quality_Gate.thy ===== *)
theory Quality_Gate
  imports Fake_Geocoding
begin

text \<open>
  The quality gate of the geocoding data, \<^verbatim>\<open>src/geocoding/quality/run-quality-tests.mjs\<close>: the check of the
  corpus against the region, the evaluation of a case by the answer of the backend or of Photon, the rates
  and the verdict, and the pool of workers that runs the cases. The corpus is read as its schema
  (\<^verbatim>\<open>src/geocoding/quality/geocoding-quality-corpus.schema.json\<close>) describes it, with members that may be
  absent as options; the answers of the servers are arbitrary values. A message is a value of a datatype.
  The network, \<open>Math\<close>, the Unicode operations and the conversions \<open>String\<close> and \<open>Number\<close> of other values
  than texts and numbers are parameters; the printed report is not modelled.
\<close>

section \<open>Data\<close>

datatype quality_mode = Mode_Backend | Mode_Photon
datatype case_kind = Kind_Autocomplete | Kind_Search | Kind_Reverse
datatype query_class = Class_Canonical | Class_Variant | Class_Buffer | Class_NotApplicable
datatype coverage_class = Core | Buffer_Zone | Outside
datatype verification_status = SourceDerived | Verified | PolicySentinel

text \<open>A point is a latitude and a longitude.\<close>

record quality_point =
  qp_latitude :: jsnum
  qp_longitude :: jsnum

record expectation =
  ex_nameContains :: "string option"
  ex_contextContains :: "string option"
  ex_category :: "string option"
  ex_maxDistanceMeters :: "jsnum option"
  ex_maxCoordinateDeltaMeters :: "jsnum option"

record quality_case =
  qc_id :: string
  qc_kind :: case_kind
  qc_queryClass :: query_class
  qc_category :: string
  qc_region :: string
  qc_coverageClass :: coverage_class
  qc_verificationStatus :: verification_status
  qc_query :: "string option"
  qc_focus :: "quality_point option"
  qc_point :: "quality_point option"
  qc_expected :: expectation
  qc_provenanceStatus :: verification_status
  qc_provenanceRelation :: "jsnum option"

record thresholds =
  th_minCanonicalTop1 :: jsnum
  th_minCanonicalTop3 :: jsnum
  th_maxCanonicalNoResult :: jsnum
  th_maxOutsideFalsePositive :: jsnum
  th_minReverseAssertion :: jsnum
  th_minReversePreservation :: jsnum

record corpus =
  co_schemaVersion :: jsnum
  co_regionConfigVersion :: string
  co_cases :: "quality_case list"
  co_coreCanonical :: "(string \<times> nat) list"
  co_variants :: nat
  co_reverseCore :: nat
  co_buffer :: nat
  co_outsidePolicy :: nat
  co_committedVerified :: nat
  co_requiredVerified :: nat
  co_acceptanceReady :: bool
  co_thresholds :: thresholds

section \<open>The region\<close>

record bounds =
  bo_west :: jsnum
  bo_south :: jsnum
  bo_east :: jsnum
  bo_north :: jsnum

text \<open>The configuration names its bounds in one of two ways; \<open>toNumber\<close> is \<open>Number\<close>.\<close>

definition readBounds :: "(jsval \<Rightarrow> jsnum) \<Rightarrow> jsval \<Rightarrow> bounds" where
  "readBounds toNumber config =
     (let b = jprop config ''bounds'' in
      if b \<noteq> JUndefined \<and> b \<noteq> JNull
      then \<lparr> bo_west = toNumber (jprop b ''west''), bo_south = toNumber (jprop b ''south''),
        bo_east = toNumber (jprop b ''east''), bo_north = toNumber (jprop b ''north'') \<rparr>
      else let c = jprop config ''bufferedBoundingBox'' in
        \<lparr> bo_west = toNumber (jprop c ''minLongitude''), bo_south = toNumber (jprop c ''minLatitude''),
          bo_east = toNumber (jprop c ''maxLongitude''), bo_north = toNumber (jprop c ''maxLatitude'') \<rparr>)"

definition insideBounds :: "bounds \<Rightarrow> quality_point option \<Rightarrow> bool" where
  "insideBounds b point = (case point of
     None \<Rightarrow> False
   | Some p \<Rightarrow> js_le (bo_west b) (qp_longitude p) \<and> js_le (qp_longitude p) (bo_east b) \<and>
       js_le (bo_south b) (qp_latitude p) \<and> js_le (qp_latitude p) (bo_north b))"

type_synonym position = "jsnum \<times> jsnum"

datatype boundary_geometry =
    Polygon "position list list"
  | MultiPolygon "position list list list"
  | OtherGeometry

record boundary =
  bd_geometry :: boundary_geometry
  bd_gathraCode :: string
  bd_osmRelationId :: "jsnum option"

definition quality_edge_crossed :: "position \<Rightarrow> position \<Rightarrow> position \<Rightarrow> bool" where
  "quality_edge_crossed p a b = (case (p, a, b) of ((x, y), (x1, y1), (x2, y2)) \<Rightarrow>
     js_lt y y1 \<noteq> js_lt y y2 \<and>
     js_lt x (js_add (js_div (js_mul (js_sub x2 x1) (js_sub y y1)) (js_sub y2 y1)) x1))"

text \<open>Each vertex is paired with the one before it, the first with the last.\<close>

definition ringContains :: "position list \<Rightarrow> position \<Rightarrow> bool" where
  "ringContains ring p =
     foldl (\<lambda>inside (a, b). if quality_edge_crossed p a b then \<not> inside else inside) False
       (zip ring (case ring of [] \<Rightarrow> [] | _ \<Rightarrow> last ring # butlast ring))"

text \<open>Nothing stands for the error that a polygon with no ring raises.\<close>

definition polygonContains :: "position list list \<Rightarrow> position \<Rightarrow> bool option" where
  "polygonContains polygon p = (case polygon of
     [] \<Rightarrow> None
   | outer # holes \<Rightarrow> Some (ringContains outer p \<and> \<not> list_ex (\<lambda>hole. ringContains hole p) holes))"

fun some_polygon :: "position list list list \<Rightarrow> position \<Rightarrow> bool option" where
  "some_polygon [] p = Some False"
| "some_polygon (polygon # rest) p = (case polygonContains polygon p of
     None \<Rightarrow> None | Some True \<Rightarrow> Some True | Some False \<Rightarrow> some_polygon rest p)"

fun geometryContains :: "boundary_geometry \<Rightarrow> position \<Rightarrow> bool option" where
  "geometryContains (Polygon polygon) p = polygonContains polygon p"
| "geometryContains (MultiPolygon polygons) p = some_polygon polygons p"
| "geometryContains OtherGeometry p = Some False"

fun boundaryContaining :: "boundary list \<Rightarrow> quality_point \<Rightarrow> boundary option option" where
  "boundaryContaining [] point = Some None"
| "boundaryContaining (b # bs) point =
     (case geometryContains (bd_geometry b) (qp_longitude point, qp_latitude point) of
        None \<Rightarrow> None | Some True \<Rightarrow> Some (Some b) | Some False \<Rightarrow> boundaryContaining bs point)"

section \<open>The corpus\<close>

datatype corpus_error =
    UNSUPPORTED_SCHEMA | REGION_VERSION_MISMATCH | INVALID_REGION_BOUNDS | TOO_FEW_CASES
  | DUPLICATE_ID string | PROVENANCE_STATUS string | INVALID_COORDINATE string
  | CORE_REGION string | CORE_RELATION string | BUFFER_NOT_BUFFER string | BUFFER_REGION string
  | OUTSIDE_INSIDE string | OUTSIDE_REGION string | REVERSE_POINT string | REVERSE_ASSERTIONS string
  | SEARCH_QUERY string | VERIFIED_COUNT | ACCEPTANCE_READY | CORE_QUOTA string | QUOTA string

definition pointForCase :: "quality_case \<Rightarrow> quality_point option" where
  "pointForCase c = (case qc_focus c of Some p \<Rightarrow> Some p | None \<Rightarrow> qc_point c)"

text \<open>A text or number that is absent or empty does not count.\<close>

definition present :: "string option \<Rightarrow> bool" where
  "present v = (case v of None \<Rightarrow> False | Some s \<Rightarrow> s \<noteq> [])"

definition coverage_errors :: "bounds \<Rightarrow> boundary option \<Rightarrow> quality_point \<Rightarrow> quality_case \<Rightarrow> corpus_error list" where
  "coverage_errors b coreBoundary point c = (case qc_coverageClass c of
     Core \<Rightarrow>
       (if map_option bd_gathraCode coreBoundary \<noteq> Some (qc_region c) then [CORE_REGION (qc_id c)] else []) @
       (if qc_provenanceRelation c \<noteq> Option.bind coreBoundary bd_osmRelationId then [CORE_RELATION (qc_id c)] else [])
   | Buffer_Zone \<Rightarrow>
       (if \<not> insideBounds b (Some point) \<or> coreBoundary \<noteq> None then [BUFFER_NOT_BUFFER (qc_id c)] else []) @
       (if qc_region c \<noteq> ''BUFFER'' then [BUFFER_REGION (qc_id c)] else [])
   | Outside \<Rightarrow>
       (if insideBounds b (Some point) then [OUTSIDE_INSIDE (qc_id c)] else []) @
       (if qc_region c \<noteq> ''OUTSIDE'' then [OUTSIDE_REGION (qc_id c)] else []))"

definition kind_errors :: "quality_case \<Rightarrow> corpus_error list" where
  "kind_errors c =
     (if qc_kind c = Kind_Reverse then
        (if qc_point c = None then [REVERSE_POINT (qc_id c)] else []) @
        (if qc_coverageClass c = Core \<and>
            (\<not> present (ex_nameContains (qc_expected c)) \<or> \<not> present (ex_contextContains (qc_expected c)) \<or>
             \<not> present (ex_category (qc_expected c)) \<or> ex_maxCoordinateDeltaMeters (qc_expected c) = None)
         then [REVERSE_ASSERTIONS (qc_id c)] else [])
      else if \<not> present (qc_query c) \<or> qc_focus c = None then [SEARCH_QUERY (qc_id c)] else [])"

definition case_errors :: "bounds \<Rightarrow> boundary list \<Rightarrow> string list \<Rightarrow> quality_case \<Rightarrow> corpus_error list option" where
  "case_errors b boundaries ids c =
     (let first = (if qc_id c \<in> set ids then [DUPLICATE_ID (qc_id c)] else []) @
            (if qc_verificationStatus c \<noteq> qc_provenanceStatus c then [PROVENANCE_STATUS (qc_id c)] else []) in
      case pointForCase c of
        None \<Rightarrow> Some (first @ [INVALID_COORDINATE (qc_id c)])
      | Some p \<Rightarrow>
          if \<not> is_finite (qp_latitude p) \<or> \<not> is_finite (qp_longitude p)
          then Some (first @ [INVALID_COORDINATE (qc_id c)])
          else (case boundaryContaining boundaries p of
              None \<Rightarrow> None
            | Some coreBoundary \<Rightarrow> Some (first @ coverage_errors b coreBoundary p c @ kind_errors c)))"

fun cases_errors :: "bounds \<Rightarrow> boundary list \<Rightarrow> string list \<Rightarrow> quality_case list \<Rightarrow> corpus_error list option" where
  "cases_errors b boundaries ids [] = Some []"
| "cases_errors b boundaries ids (c # cs) =
     (case case_errors b boundaries ids c of
        None \<Rightarrow> None
      | Some errors \<Rightarrow> map_option (\<lambda>more. errors @ more) (cases_errors b boundaries (qc_id c # ids) cs))"

definition count_cases :: "(quality_case \<Rightarrow> bool) \<Rightarrow> corpus \<Rightarrow> nat" where
  "count_cases P k = length (filter P (co_cases k))"

definition verified_count :: "corpus \<Rightarrow> nat" where
  "verified_count k = count_cases (\<lambda>c. qc_verificationStatus c = Verified) k"

definition summary_errors :: "corpus \<Rightarrow> corpus_error list" where
  "summary_errors k =
     (if verified_count k \<noteq> co_committedVerified k then [VERIFIED_COUNT] else []) @
     (if co_acceptanceReady k \<noteq> (co_requiredVerified k \<le> verified_count k) then [ACCEPTANCE_READY] else []) @
     concat (map (\<lambda>(category, minimum).
       if count_cases (\<lambda>c. qc_coverageClass c = Core \<and> qc_queryClass c = Class_Canonical \<and> qc_category c = category) k < minimum
       then [CORE_QUOTA category] else []) (co_coreCanonical k)) @
     concat (map (\<lambda>(name, count, minimum). if count < minimum then [QUOTA name] else [])
       [(''variants'', count_cases (\<lambda>c. qc_queryClass c = Class_Variant) k, co_variants k),
        (''reverseCore'', count_cases (\<lambda>c. qc_kind c = Kind_Reverse \<and> qc_coverageClass c = Core) k, co_reverseCore k),
        (''buffer'', count_cases (\<lambda>c. qc_coverageClass c = Buffer_Zone) k, co_buffer k),
        (''outsidePolicy'', count_cases (\<lambda>c. qc_coverageClass c = Outside) k, co_outsidePolicy k)])"

definition validateCorpus :: "string \<Rightarrow> bounds \<Rightarrow> boundary list \<Rightarrow> corpus \<Rightarrow> corpus_error list option" where
  "validateCorpus configVersion b boundaries k =
     (let start = (if co_schemaVersion k \<noteq> Fin 2 then [UNSUPPORTED_SCHEMA] else []) @
            (if co_regionConfigVersion k \<noteq> configVersion then [REGION_VERSION_MISMATCH] else []) @
            (if \<not> list_all is_finite [bo_west b, bo_south b, bo_east b, bo_north b] then [INVALID_REGION_BOUNDS] else []) in
      if length (co_cases k) < 100 then Some (start @ [TOO_FEW_CASES])
      else map_option (\<lambda>errors. start @ errors @ summary_errors k) (cases_errors b boundaries [] (co_cases k)))"

section \<open>Reading the answers\<close>

record quality_env =
  qe_unicode :: fake_env
  qe_upper :: "string \<Rightarrow> string"
  qe_string :: "jsval \<Rightarrow> string"
  qe_number :: "jsval \<Rightarrow> jsnum"

definition nullish :: "jsval \<Rightarrow> bool" where
  "nullish v \<longleftrightarrow> v = JUndefined \<or> v = JNull"

text \<open>The first value that is neither null nor undefined, or else the last.\<close>

fun coalesce :: "jsval list \<Rightarrow> jsval" where
  "coalesce [] = JUndefined"
| "coalesce [v] = v"
| "coalesce (v # w # vs) = (if nullish v then coalesce (w # vs) else v)"

definition quality_text :: "quality_env \<Rightarrow> jsval \<Rightarrow> string" where
  "quality_text E v = (case v of JStr s \<Rightarrow> s | _ \<Rightarrow> qe_string E v)"

definition number_value :: "quality_env \<Rightarrow> jsval \<Rightarrow> jsnum" where
  "number_value E v = (case v of JNum x \<Rightarrow> x | _ \<Rightarrow> qe_number E v)"

definition truthy :: "jsval \<Rightarrow> bool" where
  "truthy v = (case v of JUndefined \<Rightarrow> False | JNull \<Rightarrow> False | JBool b \<Rightarrow> b
     | JNum x \<Rightarrow> x \<noteq> NaN \<and> x \<noteq> Fin 0 | JStr s \<Rightarrow> s \<noteq> [] | _ \<Rightarrow> True)"

definition quality_normalize :: "quality_env \<Rightarrow> jsval \<Rightarrow> string" where
  "quality_normalize E v = fake_normalize (qe_unicode E) (quality_text E (coalesce [v, JStr []]))"

definition quality_radians :: "jsnum \<Rightarrow> jsnum" where
  "quality_radians degrees = js_div (js_mul degrees js_PI) (Fin 180)"

definition quality_distance :: "js_math \<Rightarrow> quality_point \<Rightarrow> quality_point \<Rightarrow> jsnum" where
  "quality_distance M a b =
     (let dLat = quality_radians (js_sub (qp_latitude b) (qp_latitude a));
          dLon = quality_radians (js_sub (qp_longitude b) (qp_longitude a));
          lat1 = quality_radians (qp_latitude a); lat2 = quality_radians (qp_latitude b);
          h = js_add (m_square M (m_sin M (js_div dLat (Fin 2))))
            (js_mul (js_mul (m_cos M lat1) (m_cos M lat2)) (m_square M (m_sin M (js_div dLon (Fin 2))))) in
      js_mul (js_mul (Fin 2) (mk_num (63710088 / 10))) (m_asin M (js_min (Fin 1) (m_sqrt M h))))"

definition SCHOOL_WORDS :: "string list" where
  "SCHOOL_WORDS = [''school'', ''sekolah'', ''sma '', ''sman '', ''universitas'', ''university'']"

definition HEALTH_WORDS :: "string list" where
  "HEALTH_WORDS = [''hospital'', ''rumah sakit'', ''rsud'', ''rsup'', ''klinik'', ''clinic'']"

definition normalizeEvaluationCategory :: "quality_env \<Rightarrow> jsval \<Rightarrow> string \<Rightarrow> string option" where
  "normalizeEvaluationCategory E v fallbackText =
     (let category = qe_upper E (map (\<lambda>c. if c = CHR '' '' then CHR ''_'' else c) (quality_normalize E v));
          fallback = quality_normalize E (JStr fallbackText);
          whole = quality_normalize E (JStr (quality_text E (coalesce [v, JStr []]) @ '' '' @ fallbackText)) in
      if category \<in> set [''SCHOOL'', ''COLLEGE'', ''UNIVERSITY'', ''EDUCATION''] then Some ''SCHOOL''
      else if category \<in> set [''HOSPITAL'', ''CLINIC'', ''DOCTOR'', ''DOCTORS'', ''HEALTH'', ''HEALTHCARE''] then Some ''HEALTH''
      else if category \<in> set [''ROAD'', ''STREET'', ''ADDRESS''] then Some ''ROAD''
      else if category \<in> set [''LANDMARK'', ''GOVERNMENT'', ''TRANSIT'', ''VENUE'', ''STATION'', ''MUSEUM''] then
        (if list_ex (str_includes fallback) SCHOOL_WORDS then Some ''SCHOOL''
         else if list_ex (str_includes fallback) HEALTH_WORDS then Some ''HEALTH'' else Some ''LANDMARK'')
      else if category \<in> set [''AREA'', ''NEIGHBOURHOOD'', ''NEIGHBORHOOD'', ''LOCALITY'', ''LOCALADMIN'', ''BOROUGH'',
          ''COUNTY'', ''REGION''] then Some ''AREA''
      else if list_ex (str_includes whole) SCHOOL_WORDS then Some ''SCHOOL''
      else if list_ex (str_includes whole) HEALTH_WORDS then Some ''HEALTH''
      else if category = [] then None else Some category)"

record found_place =
  fo_primaryText :: string
  fo_secondaryText :: string
  fo_position :: "quality_point option"
  fo_category :: "string option"
  fo_insideSupportedRegion :: jsval

definition positionFromFeature :: "quality_env \<Rightarrow> jsval \<Rightarrow> quality_point option" where
  "positionFromFeature E feature = (case jprop (jprop feature ''geometry'') ''coordinates'' of
     JArr (lon # lat # _) \<Rightarrow> Some \<lparr> qp_latitude = number_value E lat, qp_longitude = number_value E lon \<rparr>
   | _ \<Rightarrow> None)"

definition joined :: "string list \<Rightarrow> string" where
  "joined parts = concat (case parts of [] \<Rightarrow> [] | p # ps \<Rightarrow> p # map (\<lambda>q. '', '' @ q) ps)"

text \<open>Parts that are equal to the name are left out; only texts, numbers and truth values can be equal.\<close>

definition photon_place :: "quality_env \<Rightarrow> bounds \<Rightarrow> jsval \<Rightarrow> found_place" where
  "photon_place E b feature =
     (let member = jprop (jprop feature ''properties'');
          position = positionFromFeature E feature;
          primary = coalesce [member ''name'', member ''street'', member ''city'', JStr []];
          parts = [member ''street'', member ''housenumber'', coalesce [member ''district'', member ''locality''],
            coalesce [member ''city'', member ''county''], member ''state'', member ''country''];
          secondary = joined (map (quality_text E) (filter (\<lambda>v. v \<noteq> primary) (filter truthy parts)));
          text_of = quality_text E primary @ '' '' @ secondary;
          categories = map (\<lambda>v. normalizeEvaluationCategory E v text_of)
            (filter truthy [member ''osm_value'', member ''osm_key'', member ''type'']) in
      \<lparr> fo_primaryText = quality_text E primary, fo_secondaryText = secondary, fo_position = position,
        fo_category = (case find (\<lambda>c. c \<in> set (map Some [''ROAD'', ''SCHOOL'', ''HEALTH'', ''LANDMARK'', ''AREA''])) categories of
            None \<Rightarrow> None | Some c \<Rightarrow> c),
        fo_insideSupportedRegion = JBool (insideBounds b position) \<rparr>)"

definition normalizePhotonFeatures :: "quality_env \<Rightarrow> bounds \<Rightarrow> jsval \<Rightarrow> found_place list" where
  "normalizePhotonFeatures E b payload = (case jprop payload ''features'' of
     JArr features \<Rightarrow> map (photon_place E b) features | _ \<Rightarrow> [])"

definition value_position :: "quality_env \<Rightarrow> jsval \<Rightarrow> quality_point option" where
  "value_position E v = (if nullish v then None
     else Some \<lparr> qp_latitude = number_value E (jprop v ''latitude''), qp_longitude = number_value E (jprop v ''longitude'') \<rparr>)"

definition backend_place :: "quality_env \<Rightarrow> jsval \<Rightarrow> jsval \<Rightarrow> jsval \<Rightarrow> found_place" where
  "backend_place E primary secondary v =
     \<lparr> fo_primaryText = quality_text E primary, fo_secondaryText = quality_text E secondary,
       fo_position = value_position E (jprop v ''position''),
       fo_category = normalizeEvaluationCategory E (jprop v ''category'') (quality_text E primary @ '' '' @ quality_text E secondary),
       fo_insideSupportedRegion = jprop v ''insideSupportedRegion'' \<rparr>"

definition normalizeBackendSuggestions :: "quality_env \<Rightarrow> jsval \<Rightarrow> found_place list" where
  "normalizeBackendSuggestions E payload =
     (case coalesce [jprop payload ''suggestions'', jprop payload ''results'', JArr []] of
        JArr values \<Rightarrow> map (\<lambda>v. backend_place E (coalesce [jprop v ''primaryText'', jprop v ''name'', JStr []])
          (coalesce [jprop v ''secondaryText'', jprop v ''formattedAddress'', JStr []]) v) values
      | _ \<Rightarrow> [])"

definition normalizeBackendDetails :: "quality_env \<Rightarrow> jsval \<Rightarrow> found_place" where
  "normalizeBackendDetails E payload =
     (let v = coalesce [jprop payload ''place'', payload] in
      backend_place E (coalesce [jprop v ''name'', JStr []]) (coalesce [jprop v ''formattedAddress'', JStr []]) v)"

definition readErrorCode :: "jsval \<Rightarrow> jsval" where
  "readErrorCode payload =
     coalesce [jprop (jprop payload ''error'') ''code'', jprop payload ''code'', jprop payload ''errorCode'', JNull]"

section \<open>Evaluation of a case\<close>

text \<open>The path and the parameters of a request; nothing when a point that it needs is missing.\<close>

definition buildUrl :: "quality_mode \<Rightarrow> bounds \<Rightarrow> quality_case \<Rightarrow> (string \<times> (string \<times> string) list) option" where
  "buildUrl mode b c =
     (let endpoint = (case mode of
            Mode_Photon \<Rightarrow> if qc_kind c = Kind_Reverse then ''reverse'' else ''api''
          | Mode_Backend \<Rightarrow> (case qc_kind c of Kind_Autocomplete \<Rightarrow> ''autocomplete'' | Kind_Search \<Rightarrow> ''search''
              | Kind_Reverse \<Rightarrow> ''reverse''));
          place = (\<lambda>p. [(''lat'', number_to_string (qp_latitude p)), (''lon'', number_to_string (qp_longitude p))]);
          query = (case qc_query c of None \<Rightarrow> ''undefined'' | Some q \<Rightarrow> q) in
      if qc_kind c = Kind_Reverse
      then map_option (\<lambda>p. (endpoint, place p @ (if mode = Mode_Photon then [(''limit'', ''1'')] else []))) (qc_point c)
      else map_option (\<lambda>p. (endpoint, (''q'', query) # place p @ (case mode of
          Mode_Photon \<Rightarrow> [(''bbox'', number_to_string (bo_west b) @ '','' @ number_to_string (bo_south b) @ '','' @
            number_to_string (bo_east b) @ '','' @ number_to_string (bo_north b)), (''limit'', ''8'')]
        | Mode_Backend \<Rightarrow> [(''limit'', ''8''), (''language'', ''id'')]))) (qc_focus c))"

text \<open>An answer is a success or not, with its parsed body, which is null when it is no JSON.\<close>

datatype quality_answer = NoAnswer | Answer bool jsval

record quality_result =
  qr_case :: quality_case
  qr_skipped :: bool
  qr_requestError :: bool
  qr_noResult :: bool
  qr_rank :: "nat option"
  qr_reverseAssertionSuccess :: bool
  qr_coordinatePreserved :: bool
  qr_contextMatches :: bool
  qr_outsideFalsePositive :: bool

definition plain_result :: "quality_case \<Rightarrow> quality_result" where
  "plain_result c = \<lparr> qr_case = c, qr_skipped = False, qr_requestError = False, qr_noResult = False, qr_rank = None,
     qr_reverseAssertionSuccess = False, qr_coordinatePreserved = False, qr_contextMatches = False,
     qr_outsideFalsePositive = False \<rparr>"

definition distance_within :: "js_math \<Rightarrow> quality_point option \<Rightarrow> quality_point option \<Rightarrow> jsnum option \<Rightarrow> bool" where
  "distance_within M a b limit = (case (a, b, limit) of
     (Some p, Some q, Some d) \<Rightarrow> js_le (quality_distance M p q) d | _ \<Rightarrow> False)"

definition reverse_result ::
  "quality_env \<Rightarrow> quality_mode \<Rightarrow> bounds \<Rightarrow> quality_case \<Rightarrow> bool \<Rightarrow> jsval \<Rightarrow> quality_result" where
  "reverse_result E mode b c success payload =
     (let details = (case mode of
            Mode_Photon \<Rightarrow> (case normalizePhotonFeatures E b payload of [] \<Rightarrow> None | v # _ \<Rightarrow> Some v)
          | Mode_Backend \<Rightarrow> Some (normalizeBackendDetails E payload));
          primary = (case details of None \<Rightarrow> [] | Some v \<Rightarrow> fo_primaryText v);
          secondary = (case details of None \<Rightarrow> [] | Some v \<Rightarrow> fo_secondaryText v);
          label = quality_normalize E (JStr (js_trim (primary @ '' '' @ secondary)));
          wanted = (\<lambda>v. quality_normalize E (case v of None \<Rightarrow> JUndefined | Some s \<Rightarrow> JStr s));
          nameMatches = str_includes label (wanted (ex_nameContains (qc_expected c)));
          addressPresent = (quality_normalize E (JStr secondary) \<noteq> []);
          categoryMatches = (Option.bind details fo_category = ex_category (qc_expected c)) in
      (plain_result c)\<lparr>
        qr_reverseAssertionSuccess := success \<and> map_option fo_insideSupportedRegion details \<noteq> Some (JBool False) \<and>
          nameMatches \<and> addressPresent \<and> categoryMatches,
        qr_coordinatePreserved := mode = Mode_Backend \<and>
          distance_within (fe_math (qe_unicode E)) (qc_point c) (Option.bind details fo_position)
            (ex_maxCoordinateDeltaMeters (qc_expected c)),
        qr_contextMatches := str_includes label (wanted (ex_contextContains (qc_expected c))) \<rparr>)"

definition search_result ::
  "quality_env \<Rightarrow> quality_mode \<Rightarrow> bounds \<Rightarrow> quality_case \<Rightarrow> bool \<Rightarrow> jsval \<Rightarrow> quality_result" where
  "search_result E mode b c success payload =
     (let suggestions = (case mode of Mode_Photon \<Rightarrow> normalizePhotonFeatures E b payload
            | Mode_Backend \<Rightarrow> normalizeBackendSuggestions E payload);
          expectedName = quality_normalize E (case ex_nameContains (qc_expected c) of None \<Rightarrow> JUndefined | Some s \<Rightarrow> JStr s);
          matching = filter (\<lambda>(i, v). str_includes (quality_normalize E (JStr (fo_primaryText v @ '' '' @ fo_secondaryText v))) expectedName)
            (enumerate 0 suggestions) in
      (plain_result c)\<lparr>
        qr_noResult := \<not> success \<or> suggestions = [],
        qr_rank := (case matching of
            [] \<Rightarrow> None
          | (i, v) # _ \<Rightarrow>
              if (fo_position v = None \<or> distance_within (fe_math (qe_unicode E)) (qc_focus c) (fo_position v)
                    (ex_maxDistanceMeters (qc_expected c))) \<and> fo_insideSupportedRegion v \<noteq> JBool False
              then Some (i + 1) else None) \<rparr>)"

definition evaluateCase ::
  "quality_env \<Rightarrow> quality_mode \<Rightarrow> bounds \<Rightarrow> quality_answer \<Rightarrow> quality_case \<Rightarrow> quality_result" where
  "evaluateCase E mode b answer c =
     (if mode = Mode_Photon \<and> qc_kind c = Kind_Reverse \<and> qc_coverageClass c = Outside
      then (plain_result c)\<lparr>qr_skipped := True\<rparr>
      else case (if buildUrl mode b c = None then NoAnswer else answer) of
        NoAnswer \<Rightarrow> (plain_result c)\<lparr>qr_requestError := True, qr_noResult := qc_kind c \<noteq> Kind_Reverse\<rparr>
      | Answer success payload \<Rightarrow>
          if qc_kind c \<noteq> Kind_Reverse then search_result E mode b c success payload
          else if qc_coverageClass c = Outside then
            (plain_result c)\<lparr>qr_outsideFalsePositive := \<not> (\<not> success \<or>
              readErrorCode payload = JStr ''OUTSIDE_SUPPORTED_REGION'' \<or>
              fo_insideSupportedRegion (normalizeBackendDetails E payload) = JBool False)\<rparr>
          else reverse_result E mode b c success payload)"

section \<open>Rates and the verdict\<close>

definition ratio :: "nat \<Rightarrow> nat \<Rightarrow> jsnum" where
  "ratio n m = (if m = 0 then Fin 0 else js_div (num_of_int (int n)) (num_of_int (int m)))"

definition rate :: "(quality_result \<Rightarrow> bool) \<Rightarrow> quality_result list \<Rightarrow> jsnum" where
  "rate P rs = ratio (length (filter P rs)) (length rs)"

definition ranked :: "nat \<Rightarrow> quality_result \<Rightarrow> bool" where
  "ranked maxRank r = (case qr_rank r of None \<Rightarrow> False | Some n \<Rightarrow> n \<le> maxRank)"

definition canonicalResults :: "quality_result list \<Rightarrow> quality_result list" where
  "canonicalResults = filter (\<lambda>r. qc_queryClass (qr_case r) = Class_Canonical \<and> qc_kind (qr_case r) \<noteq> Kind_Reverse)"

definition variantResults :: "quality_result list \<Rightarrow> quality_result list" where
  "variantResults = filter (\<lambda>r. qc_queryClass (qr_case r) = Class_Variant \<and> qc_kind (qr_case r) \<noteq> Kind_Reverse)"

definition bufferResults :: "quality_result list \<Rightarrow> quality_result list" where
  "bufferResults = filter (\<lambda>r. qc_coverageClass (qr_case r) = Buffer_Zone \<and> qc_kind (qr_case r) \<noteq> Kind_Reverse)"

definition reverseResults :: "quality_result list \<Rightarrow> quality_result list" where
  "reverseResults = filter (\<lambda>r. qc_kind (qr_case r) = Kind_Reverse \<and> qc_coverageClass (qr_case r) = Core)"

definition outsideResults :: "quality_result list \<Rightarrow> quality_result list" where
  "outsideResults = filter (\<lambda>r. qc_kind (qr_case r) = Kind_Reverse \<and> qc_coverageClass (qr_case r) = Outside)"

text \<open>The sorted values and a fraction.\<close>

definition quality_percentile :: "jsnum list \<Rightarrow> jsnum \<Rightarrow> jsnum" where
  "quality_percentile values p =
     (if values = [] then Fin 0
      else values ! nat (int_of_num (js_min (num_of_int (int (length values) - 1))
        (js_sub (js_ceil (js_mul (num_of_int (int (length values))) p)) (Fin 1)))))"

datatype quality_failure =
    CANONICAL_TOP_1 | CANONICAL_TOP_3 | CANONICAL_NO_RESULT | REVERSE_ASSERTION | REVERSE_PRESERVATION
  | OUTSIDE_FALSE_POSITIVE | VERIFIED_ACCEPTANCE

definition quality_failures :: "quality_mode \<Rightarrow> bool \<Rightarrow> corpus \<Rightarrow> quality_result list \<Rightarrow> quality_failure list" where
  "quality_failures mode requireVerified k results =
     (let measured = filter (\<lambda>r. \<not> qr_skipped r) results; t = co_thresholds k in
      (if js_lt (rate (ranked 1) (canonicalResults measured)) (th_minCanonicalTop1 t) then [CANONICAL_TOP_1] else []) @
      (if js_lt (rate (ranked 3) (canonicalResults measured)) (th_minCanonicalTop3 t) then [CANONICAL_TOP_3] else []) @
      (if js_lt (th_maxCanonicalNoResult t) (rate qr_noResult (canonicalResults measured)) then [CANONICAL_NO_RESULT] else []) @
      (if js_lt (rate qr_reverseAssertionSuccess (reverseResults measured)) (th_minReverseAssertion t)
       then [REVERSE_ASSERTION] else []) @
      (if mode = Mode_Backend \<and> js_lt (rate qr_coordinatePreserved (reverseResults measured)) (th_minReversePreservation t)
       then [REVERSE_PRESERVATION] else []) @
      (if mode = Mode_Backend \<and> js_lt (th_maxOutsideFalsePositive t) (rate qr_outsideFalsePositive (outsideResults measured))
       then [OUTSIDE_FALSE_POSITIVE] else []) @
      (if requireVerified \<and> verified_count k < co_requiredVerified k then [VERIFIED_ACCEPTANCE] else []))"

definition case_issues :: "quality_mode \<Rightarrow> quality_result list \<Rightarrow> quality_result list" where
  "case_issues mode results = filter (\<lambda>r. qr_requestError r \<or> qr_noResult r \<or>
       (qc_kind (qr_case r) \<noteq> Kind_Reverse \<and> qr_rank r = None) \<or>
       (qc_kind (qr_case r) = Kind_Reverse \<and> qc_coverageClass (qr_case r) = Core \<and>
         (\<not> qr_reverseAssertionSuccess r \<or> (mode = Mode_Backend \<and> \<not> qr_coordinatePreserved r))) \<or>
       qr_outsideFalsePositive r)
     (filter (\<lambda>r. \<not> qr_skipped r) results)"

text \<open>The code with which the process ends: 1 also stands for an error that is not caught.\<close>

definition quality_exit ::
  "quality_mode \<Rightarrow> bool \<Rightarrow> bool \<Rightarrow> corpus_error list option \<Rightarrow> corpus \<Rightarrow> quality_result list \<Rightarrow> nat" where
  "quality_exit mode preflightOnly requireVerified preflight k results = (case preflight of
     None \<Rightarrow> 1
   | Some (e # es) \<Rightarrow> 2
   | Some [] \<Rightarrow> if preflightOnly then 0 else if quality_failures mode requireVerified k results \<noteq> [] then 1 else 0)"

section \<open>The pool of workers\<close>

text \<open>
  A worker takes the next index, waits for its operation and stores the answer under the index; it leaves when
  no index is left. Between two waits a worker is not interrupted. An answer is a function of the index here: whatever
  each call happens to return. \<open>op\<close> is applied when the call ends.
\<close>

record 'b pool =
  po_cursor :: nat
  po_idle :: nat
  po_busy :: "nat list"
  po_results :: "'b option list"

definition start_pool :: "nat \<Rightarrow> nat \<Rightarrow> 'b pool" where
  "start_pool workers n = \<lparr> po_cursor = 0, po_idle = workers, po_busy = [], po_results = replicate n None \<rparr>"

definition take_index :: "'b pool \<Rightarrow> 'b pool" where
  "take_index s = s\<lparr>po_idle := po_idle s - 1, po_busy := po_cursor s # po_busy s, po_cursor := po_cursor s + 1\<rparr>"

definition leave_pool :: "'b pool \<Rightarrow> 'b pool" where
  "leave_pool s = s\<lparr>po_idle := po_idle s - 1, po_cursor := po_cursor s + 1\<rparr>"

definition finish_index :: "(nat \<Rightarrow> 'b) \<Rightarrow> nat \<Rightarrow> 'b pool \<Rightarrow> 'b pool" where
  "finish_index op i s = s\<lparr>po_idle := po_idle s + 1, po_busy := remove1 i (po_busy s),
     po_results := (po_results s)[i := Some (op i)]\<rparr>"

text \<open>The number of workers that the environment asks for; an array of no length has no element.\<close>

definition pool_workers :: "jsnum \<Rightarrow> nat" where
  "pool_workers requested = (case js_max (Fin 1) (js_min (Fin 8) requested) of Fin q \<Rightarrow> nat \<lfloor>q\<rfloor> | _ \<Rightarrow> 0)"

inductive pool_step :: "(nat \<Rightarrow> 'b) \<Rightarrow> 'b pool \<Rightarrow> 'b pool \<Rightarrow> bool" for op where
  take_one: "0 < po_idle s \<Longrightarrow> po_cursor s < length (po_results s) \<Longrightarrow> pool_step op s (take_index s)"
| leave: "0 < po_idle s \<Longrightarrow> length (po_results s) \<le> po_cursor s \<Longrightarrow> pool_step op s (leave_pool s)"
| finish_one: "i \<in> set (po_busy s) \<Longrightarrow> pool_step op s (finish_index op i s)"

text \<open>A run of the pool with its number of steps.\<close>

inductive pool_run :: "(nat \<Rightarrow> 'b) \<Rightarrow> nat \<Rightarrow> nat \<Rightarrow> nat \<Rightarrow> 'b pool \<Rightarrow> bool" for op workers n where
  pool_start: "pool_run op workers n 0 (start_pool workers n)"
| pool_next: "pool_run op workers n k s \<Longrightarrow> pool_step op s t \<Longrightarrow> pool_run op workers n (Suc k) t"

definition pool_ok :: "(nat \<Rightarrow> 'b) \<Rightarrow> nat \<Rightarrow> nat \<Rightarrow> 'b pool \<Rightarrow> bool" where
  "pool_ok op workers n s \<longleftrightarrow> length (po_results s) = n \<and> distinct (po_busy s) \<and>
     (\<forall>i\<in>set (po_busy s). i < n \<and> i < po_cursor s) \<and>
     (\<forall>i<n. po_results s ! i = (if i < po_cursor s \<and> i \<notin> set (po_busy s) then Some (op i) else None)) \<and>
     po_idle s + length (po_busy s) \<le> workers \<and>
     (po_idle s + length (po_busy s) < workers \<longrightarrow> n \<le> po_cursor s)"

definition pool_measure :: "nat \<Rightarrow> 'b pool \<Rightarrow> nat" where
  "pool_measure n s = 3 * (n - po_cursor s) + 2 * length (po_busy s) + po_idle s"

lemma pool_step_ok:
  assumes "pool_step op s t" and "pool_ok op workers n s"
  shows "pool_ok op workers n t \<and> pool_measure n t < pool_measure n s"
  using assms(1)
proof (cases rule: pool_step.cases)
  case take_one
  have fresh: "po_cursor s \<notin> set (po_busy s)" using assms(2) by (auto simp: pool_ok_def)
  have "(if i < Suc (po_cursor s) \<and> i \<noteq> po_cursor s \<and> i \<notin> set (po_busy s) then Some (op i) else None) =
    (if i < po_cursor s \<and> i \<notin> set (po_busy s) then Some (op i) else None)" for i by (auto simp: less_Suc_eq)
  with take_one assms(2) fresh show ?thesis
    by (auto simp: pool_ok_def take_index_def pool_measure_def less_Suc_eq)
next
  case leave
  with assms(2) show ?thesis
    by (auto simp: pool_ok_def leave_pool_def pool_measure_def less_Suc_eq)
next
  case (finish_one i)
  then have i: "i < n" "i < po_cursor s" "0 < length (po_busy s)" "distinct (po_busy s)" "length (po_results s) = n"
    using assms(2) by (auto simp: pool_ok_def)
  have count: "Suc (length (remove1 i (po_busy s))) = length (po_busy s)" using finish_one i by (simp add: length_remove1)
  have "pool_ok op workers n t"
    using assms(2) finish_one i(1,2,4,5) count
    by (auto simp: pool_ok_def finish_index_def nth_list_update)
  moreover have "pool_measure n t < pool_measure n s"
    using finish_one count by (simp add: finish_index_def pool_measure_def)
  ultimately show ?thesis ..
qed

lemma pool_run_ok:
  assumes "pool_run op workers n k s"
  shows "pool_ok op workers n s \<and> k + pool_measure n s \<le> 3 * n + workers"
  using assms
proof induction
  case pool_start
  show ?case by (simp add: pool_ok_def start_pool_def pool_measure_def)
next
  case (pool_next k s t)
  with pool_step_ok [of op s t workers n] show ?case by auto
qed

lemma pool_stuck:
  assumes "\<nexists>t. pool_step op s t"
  shows "po_idle s = 0 \<and> po_busy s = []"
proof
  show "po_idle s = 0" using assms take_one leave by (metis neq0_conv not_le)
  show "po_busy s = []" using assms finish_one by (metis last_in_set)
qed

text \<open>
  However the calls interleave, a run of the pool ends after at most three steps for each case and one for each
  worker, never has more calls open than workers, and ends with every answer under the index of its case.
\<close>

theorem pool_maps:
  assumes "pool_run op workers n k s"
  shows "k \<le> 3 * n + workers \<and> length (po_busy s) \<le> workers \<and> distinct (po_busy s) \<and>
    (0 < workers \<and> (\<nexists>t. pool_step op s t) \<longrightarrow> po_results s = map (\<lambda>i. Some (op i)) [0..<n])"
proof -
  have ok: "pool_ok op workers n s" and steps: "k + pool_measure n s \<le> 3 * n + workers"
    using pool_run_ok [OF assms] by simp_all
  have "po_results s = map (\<lambda>i. Some (op i)) [0..<n]" if "0 < workers" "\<nexists>t. pool_step op s t"
    using pool_stuck [OF that(2)] that(1) ok by (intro nth_equalityI) (auto simp: pool_ok_def)
  with ok steps show ?thesis by (auto simp: pool_ok_def)
qed

section \<open>What the gate promises\<close>

lemma ratio_unit: "n \<le> m \<Longrightarrow> int m \<le> 2 ^ 53 \<Longrightarrow> in_unit (ratio n m)"
proof (cases "m = 0")
  case True
  then show ?thesis by (simp add: ratio_def in_unit_def)
next
  case False
  assume le: "n \<le> m"
  let ?q = "of_int (int n) / of_int (int m) :: rat"
  have q: "0 \<le> ?q" "?q \<le> 1" using False le by (simp_all add: divide_le_eq)
  then have "round_binary64 ?q \<le> 1" "0 \<le> round_binary64 ?q"
    using round_binary64_mono [of ?q 1] round_binary64_mono [of 0 ?q] round_binary64_int [of 1] round_binary64_int [of 0]
    by simp_all
  moreover have "ratio n m = mk_num ?q" using False by (simp add: ratio_def num_of_int_def)
  moreover have "(1::rat) < pow2 1024" by (simp add: pow2_def)
  ultimately show ?thesis by (auto simp: mk_num_def Let_def in_unit_def)
qed

lemma pool_workers_range: "requested \<noteq> NaN \<Longrightarrow> 1 \<le> pool_workers requested \<and> pool_workers requested \<le> 8"
  by (cases requested) (auto simp: pool_workers_def js_max_def js_min_def nat_le_iff le_nat_iff le_floor_iff floor_le_iff)

text \<open>A number of workers that is no number runs no case; the gate then fails, for no rate is a success.\<close>

lemma pool_workers_NaN: "pool_workers NaN = 0"
  by (simp add: pool_workers_def js_max_def js_min_def)

lemma gate_fails_closed:
  "js_lt (Fin 0) (th_minCanonicalTop1 (co_thresholds k)) \<Longrightarrow> quality_exit mode False requireVerified (Some []) k [] = 1"
  by (simp add: quality_exit_def quality_failures_def Let_def rate_def ratio_def canonicalResults_def)

lemma cases_errors_distinct:
  "cases_errors b boundaries ids cs = Some [] \<Longrightarrow> distinct (map qc_id cs) \<and> set (map qc_id cs) \<inter> set ids = {}"
proof (induction cs arbitrary: ids)
  case (Cons c cs)
  from Cons.prems obtain more where "case_errors b boundaries ids c = Some []"
    "cases_errors b boundaries (qc_id c # ids) cs = Some []"
    by (auto split: option.splits)
  moreover from this have "qc_id c \<notin> set ids" by (auto simp: case_errors_def Let_def split: option.splits if_splits)
  ultimately show ?case using Cons.IH by fastforce
qed simp

lemma cases_errors_all:
  "cases_errors b boundaries ids cs = Some [] \<Longrightarrow> c \<in> set cs \<Longrightarrow> \<exists>ids'. case_errors b boundaries ids' c = Some []"
  by (induction cs arbitrary: ids) (auto split: option.splits)

text \<open>
  A corpus that passes the check has at least 100 cases with identifiers of their own, each with a finite point that lies
  where its class says: in the boundary of its region, in the bounds but in no boundary, or outside the bounds.
\<close>

theorem corpus_accepted:
  assumes "validateCorpus version b boundaries k = Some []"
  shows "100 \<le> length (co_cases k) \<and> distinct (map qc_id (co_cases k)) \<and>
    verified_count k = co_committedVerified k \<and> (co_acceptanceReady k \<longleftrightarrow> co_requiredVerified k \<le> verified_count k) \<and>
    (\<forall>c\<in>set (co_cases k). \<exists>p. pointForCase c = Some p \<and> is_finite (qp_latitude p) \<and> is_finite (qp_longitude p) \<and>
      (case qc_coverageClass c of
         Core \<Rightarrow> \<exists>bd. boundaryContaining boundaries p = Some (Some bd) \<and> bd_gathraCode bd = qc_region c
       | Buffer_Zone \<Rightarrow> insideBounds b (Some p) \<and> boundaryContaining boundaries p = Some None
       | Outside \<Rightarrow> \<not> insideBounds b (Some p)))"
proof -
  have size: "\<not> length (co_cases k) < 100" and cases: "cases_errors b boundaries [] (co_cases k) = Some []"
    and summary: "summary_errors k = []"
    using assms by (auto simp: validateCorpus_def Let_def split: if_splits)
  have "\<exists>p. pointForCase c = Some p \<and> is_finite (qp_latitude p) \<and> is_finite (qp_longitude p) \<and>
      (case qc_coverageClass c of
         Core \<Rightarrow> \<exists>bd. boundaryContaining boundaries p = Some (Some bd) \<and> bd_gathraCode bd = qc_region c
       | Buffer_Zone \<Rightarrow> insideBounds b (Some p) \<and> boundaryContaining boundaries p = Some None
       | Outside \<Rightarrow> \<not> insideBounds b (Some p))" if "c \<in> set (co_cases k)" for c
  proof -
    have "\<exists>ids. case_errors b boundaries ids c = Some []" using cases that by (rule cases_errors_all)
    then obtain ids where "case_errors b boundaries ids c = Some []" ..
    then show ?thesis
      by (cases "qc_coverageClass c")
        (auto simp: case_errors_def coverage_errors_def Let_def split: option.splits if_splits)
  qed
  moreover have "verified_count k = co_committedVerified k" "co_acceptanceReady k \<longleftrightarrow> co_requiredVerified k \<le> verified_count k"
    using summary by (auto simp: summary_errors_def split: if_splits)
  ultimately show ?thesis using size cases_errors_distinct [OF cases] by simp
qed

end
