(* ===== verification/Service_Operations.thy ===== *)
theory Service_Operations
  imports Prelude Js_String "HOL-Library.List_Lexorder" "HOL-Library.Char_ord"
begin

text \<open>
  What surrounds the requests: the migrations at the start, \<^verbatim>\<open>src/src/database/migration-runner.ts\<close>, the
  health of the service, \<^verbatim>\<open>src/src/health/health.controller.ts\<close>, the identifier of a request,
  \<^verbatim>\<open>src/src/common/request-id.middleware.ts\<close>, the headers of the dashboard,
  \<^verbatim>\<open>src/src/admin/admin-security-headers.middleware.ts\<close>, and its pages,
  \<^verbatim>\<open>configureAdminAssets\<close> of \<^verbatim>\<open>src/src/app-bootstrap.ts\<close>. The files, the effect of a script on
  the database and the generated identifiers are parameters. The lemmas show that migrations are applied in
  order, each at most once and each completely or not at all, and that a failed start can be resumed.
\<close>

section \<open>Migrations\<close>

text \<open>\<open>/^\d{3}_[a-z0-9_]+\.sql$/\<close>\<close>

definition migration_char :: "char \<Rightarrow> bool" where
  "migration_char c \<longleftrightarrow> is_lower c \<or> is_digit_char c \<or> c = CHR ''_''"

definition migration_name :: "string \<Rightarrow> bool" where
  "migration_name s \<longleftrightarrow> 9 \<le> length s \<and> list_all is_digit_char (take 3 s) \<and> s ! 3 = CHR ''_'' \<and>
     drop (length s - 4) s = ''.sql'' \<and> list_all migration_char (take (length s - 8) (drop 4 s))"

text \<open>The data and the names in the table \<open>schema_migrations\<close>.\<close>

record 'd migrated =
  md_data :: 'd
  md_applied :: "string list"

text \<open>
  One transaction: the script, which may fail, and the row of its name, which is a primary key. A file that
  cannot be read fails before it.
\<close>

definition migrate_one :: "(string \<Rightarrow> ('d \<Rightarrow> 'd option) option) \<Rightarrow> string \<Rightarrow> 'd migrated \<Rightarrow> bool \<times> 'd migrated" where
  "migrate_one sql name s = (case sql name of
     None \<Rightarrow> (False, s)
   | Some script \<Rightarrow> (case script (md_data s) of
       None \<Rightarrow> (False, s)
     | Some d \<Rightarrow> if name \<in> set (md_applied s) then (False, s)
         else (True, \<lparr> md_data = d, md_applied = md_applied s @ [name] \<rparr>)))"

fun migrate_all ::
  "(string \<Rightarrow> ('d \<Rightarrow> 'd option) option) \<Rightarrow> string set \<Rightarrow> string list \<Rightarrow> 'd migrated \<Rightarrow> bool \<times> 'd migrated" where
  "migrate_all sql applied [] s = (True, s)"
| "migrate_all sql applied (name # names) s =
     (if name \<in> applied then migrate_all sql applied names s
      else case migrate_one sql name s of
        (False, s') \<Rightarrow> (False, s')
      | (True, s') \<Rightarrow> migrate_all sql applied names s')"

definition migration_names :: "string list \<Rightarrow> string list" where
  "migration_names files = sort (filter migration_name files)"

text \<open>The advisory lock is held for the whole run, so that no other process runs migrations meanwhile.\<close>

definition runMigrations ::
  "(string \<Rightarrow> ('d \<Rightarrow> 'd option) option) \<Rightarrow> string list \<Rightarrow> 'd migrated \<Rightarrow> bool \<times> 'd migrated" where
  "runMigrations sql files s = migrate_all sql (set (md_applied s)) (migration_names files) s"

section \<open>Lemmas on migrations\<close>

text \<open>The names that are left to do, and the state after some of them.\<close>

definition pending_migrations :: "string list \<Rightarrow> 'd migrated \<Rightarrow> string list" where
  "pending_migrations files s = filter (\<lambda>name. name \<notin> set (md_applied s)) (migration_names files)"

fun apply_scripts :: "(string \<Rightarrow> ('d \<Rightarrow> 'd option) option) \<Rightarrow> string list \<Rightarrow> 'd \<Rightarrow> 'd option" where
  "apply_scripts sql [] d = Some d"
| "apply_scripts sql (name # names) d =
     Option.bind (sql name) (\<lambda>script. Option.bind (script d) (apply_scripts sql names))"

lemma migrate_all_pending:
  "migrate_all sql applied names s = migrate_all sql {} (filter (\<lambda>name. name \<notin> applied) names) s"
  by (induction names arbitrary: s) (auto split: prod.splits bool.splits)

text \<open>A run applies a part of the names from the front, each completely, and all of them when it succeeds.\<close>

lemma migrate_all_prefix:
  assumes "migrate_all sql {} names s = (success, t)" and "distinct names" and "set names \<inter> set (md_applied s) = {}"
  shows "\<exists>n. n \<le> length names \<and> md_applied t = md_applied s @ take n names \<and>
    apply_scripts sql (take n names) (md_data s) = Some (md_data t) \<and>
    (success \<longleftrightarrow> n = length names) \<and> (\<not> success \<longrightarrow> apply_scripts sql (take (Suc n) names) (md_data s) = None)"
  using assms
proof (induction names arbitrary: s)
  case (Cons name names)
  show ?case
  proof (cases "Option.bind (sql name) (\<lambda>script. script (md_data s))")
    case None
    then have "t = s" "\<not> success" "apply_scripts sql [name] (md_data s) = None"
      using Cons.prems(1) by (auto simp: migrate_one_def bind_eq_None_conv split: option.splits)
    then show ?thesis by (intro exI [of _ 0]) simp
  next
    case (Some d)
    let ?s' = "\<lparr> md_data = d, md_applied = md_applied s @ [name] \<rparr>"
    from Some obtain script where script: "sql name = Some script" "script (md_data s) = Some d"
      by (auto simp: bind_eq_Some_conv)
    then have "migrate_all sql {} names ?s' = (success, t)" using Cons.prems(1,3) by (simp add: migrate_one_def)
    then obtain n where "n \<le> length names" "md_applied t = md_applied ?s' @ take n names"
      "apply_scripts sql (take n names) (md_data ?s') = Some (md_data t)" "success \<longleftrightarrow> n = length names"
      "\<not> success \<longrightarrow> apply_scripts sql (take (Suc n) names) (md_data ?s') = None"
      using Cons.IH [of ?s'] Cons.prems(2,3) by auto
    with script show ?thesis by (intro exI [of _ "Suc n"]) simp
  qed
qed simp

lemma migration_names_distinct: "distinct files \<Longrightarrow> distinct (migration_names files)"
  by (simp add: migration_names_def)

lemma runMigrations_pending: "runMigrations sql files s = migrate_all sql {} (pending_migrations files s) s"
  unfolding runMigrations_def pending_migrations_def by (rule migrate_all_pending)

text \<open>
  The migrations of a start are applied in the order of their names, each that was not applied before once and completely;
  a start that fails stops before the first that does not succeed and leaves no part of it.
\<close>

theorem migrations_in_order:
  assumes "distinct files" and "runMigrations sql files s = (success, t)"
  shows "sorted (pending_migrations files s) \<and> (\<exists>n. md_applied t = md_applied s @ take n (pending_migrations files s) \<and>
    apply_scripts sql (take n (pending_migrations files s)) (md_data s) = Some (md_data t) \<and>
    (success \<longrightarrow> pending_migrations files t = []) \<and>
    (\<not> success \<longrightarrow> apply_scripts sql (take (Suc n) (pending_migrations files s)) (md_data s) = None))"
proof -
  have "distinct (pending_migrations files s)" "set (pending_migrations files s) \<inter> set (md_applied s) = {}"
    using migration_names_distinct [OF assms(1)] by (auto simp: pending_migrations_def)
  then obtain n where n: "n \<le> length (pending_migrations files s)" "md_applied t = md_applied s @ take n (pending_migrations files s)"
    "apply_scripts sql (take n (pending_migrations files s)) (md_data s) = Some (md_data t)" "success \<longleftrightarrow> n = length (pending_migrations files s)"
    "\<not> success \<longrightarrow> apply_scripts sql (take (Suc n) (pending_migrations files s)) (md_data s) = None"
    using migrate_all_prefix assms(2) unfolding runMigrations_pending by blast
  moreover have "pending_migrations files t = []" if "md_applied t = md_applied s @ pending_migrations files s"
    using that by (auto simp: pending_migrations_def filter_empty_conv)
  moreover have "sorted (pending_migrations files s)" by (simp add: pending_migrations_def migration_names_def sorted_wrt_filter)
  ultimately show ?thesis by auto
qed

text \<open>A second start has nothing to do.\<close>

lemma migrations_idempotent:
  assumes "distinct files" and "runMigrations sql files s = (True, t)"
  shows "runMigrations sql' files t = (True, t)"
proof -
  have "pending_migrations files t = []" using migrations_in_order [OF assms] by auto
  then show ?thesis by (simp add: runMigrations_pending)
qed

section \<open>Health\<close>

record health_checks =
  hc_routing :: bool
  hc_geocoding :: bool
  hc_postgresql :: bool

text \<open>The status of the answer, whether it must not be cached, its text and its checks.\<close>

definition health_response :: "bool \<Rightarrow> bool \<Rightarrow> bool \<Rightarrow> int \<times> bool \<times> string \<times> health_checks" where
  "health_response routing geocoding postgresql =
     (let checks = \<lparr> hc_routing = routing, hc_geocoding = geocoding, hc_postgresql = postgresql \<rparr> in
      if routing \<and> geocoding \<and> postgresql then (200, False, ''ok'', checks) else (503, True, ''unavailable'', checks))"

text \<open>The check that a gateway makes needs the database only.\<close>

definition gateway_ping :: "bool \<Rightarrow> int \<Rightarrow> (unit, string \<times> int \<times> int \<times> int) result" where
  "gateway_ping postgresql maximumBatchSize =
     (if postgresql then Inr (''ok'', 1, 3, maximumBatchSize) else Inl ())"

section \<open>Headers\<close>

definition request_id_char :: "char \<Rightarrow> bool" where
  "request_id_char c \<longleftrightarrow> is_id_char c \<or> c = CHR ''.''"

definition accepted_request_id :: "string option \<Rightarrow> string \<Rightarrow> string" where
  "accepted_request_id supplied uuid = (case supplied of
     None \<Rightarrow> uuid
   | Some s \<Rightarrow> if 1 \<le> length s \<and> length s \<le> 64 \<and> list_all request_id_char s then s else uuid)"

definition CONTENT_SECURITY_POLICY :: string where
  "CONTENT_SECURITY_POLICY = ''default-src 'self'; base-uri 'none'; connect-src 'self'; font-src 'self'; frame-ancestors 'none'; img-src 'self' data:; object-src 'none'; script-src 'self'; style-src 'self'; form-action 'self'' @ [CHR 0x27]"

definition admin_headers :: "string \<Rightarrow> (string \<times> string) list" where
  "admin_headers path =
     [(''Content-Security-Policy'', CONTENT_SECURITY_POLICY), (''X-Content-Type-Options'', ''nosniff''),
      (''Referrer-Policy'', ''no-referrer''), (''X-Frame-Options'', ''DENY''),
      (''Permissions-Policy'', ''camera=(), microphone=(), geolocation=(), payment=(), usb=()'')] @
     (if starts_with path ''/api/'' then [(''Cache-Control'', ''no-store'')] else [])"

definition page_headers :: "(string \<times> string) list" where
  "page_headers = [(''Content-Security-Policy'', CONTENT_SECURITY_POLICY), (''X-Content-Type-Options'', ''nosniff''),
     (''Referrer-Policy'', ''no-referrer''), (''X-Frame-Options'', ''DENY'')]"

text \<open>What the handler of \<open>/^\/admin(?:\/.*)?$/\<close> answers; nothing when it is not asked.\<close>

datatype admin_page = Admin_Index "(string \<times> string) list" | Admin_Missing

definition admin_page_request :: "bool \<Rightarrow> string \<Rightarrow> admin_page option" where
  "admin_page_request enabled path =
     (if path = ''/admin'' \<or> (starts_with path ''/admin/'' \<and> CHR 0x0A \<notin> set path) then
        Some (if enabled then Admin_Index ((''Cache-Control'', ''no-cache, no-store, must-revalidate'') # page_headers)
          else Admin_Missing)
      else None)"

lemma request_id_bounded:
  "length uuid \<le> 64 \<Longrightarrow> list_all request_id_char uuid \<Longrightarrow>
     length (accepted_request_id supplied uuid) \<le> 64 \<and> list_all request_id_char (accepted_request_id supplied uuid)"
  by (auto simp: accepted_request_id_def split: option.splits)

lemma admin_closed: "admin_page_request False path \<in> {None, Some Admin_Missing}"
  by (simp add: admin_page_request_def)

lemma health_ok_iff: "fst (health_response routing geocoding postgresql) = 200 \<longleftrightarrow> routing \<and> geocoding \<and> postgresql"
  by (simp add: health_response_def Let_def)

end
