(* ===== verification/Js_Order.thy ===== *)
theory Js_Order
  imports Js_Number
begin

text \<open>
  Comparators that subtract. \<open>xs.sort((a, b) => a.k - b.k)\<close> orders by \<open>k\<close> because the difference
  of two distinct binary64 numbers never rounds to zero: both are multiples of the least positive
  one. \<open>is_double\<close> is the range of the operations, \<open>sub_sign\<close> the sign of a difference.
\<close>

definition is_double :: "jsnum \<Rightarrow> bool" where
  "is_double x \<longleftrightarrow> x \<noteq> NaN \<and> (\<forall>q. x = Fin q \<longrightarrow> (\<exists>n. q = of_int n * pow2 (- 1074)))"

lemma is_double_mk_num: "is_double (mk_num q)"
proof -
  have "\<exists>n. round_binary64 q = of_int n * pow2 (- 1074)"
  proof (cases "q = 0")
    case True
    then show ?thesis by (auto intro: exI [of _ 0])
  next
    case False
    define e where "e = ulp_exp q"
    define k where "k = round_even (q / pow2 e)"
    have "- 1074 \<le> e" by (simp add: e_def ulp_exp_def)
    then have "pow2 e = of_int (2 ^ nat (e + 1074)) * pow2 (- 1074)" using pow2_grid [of "- 1074" e] by simp
    moreover have "round_binary64 q = of_int k * pow2 e"
      using False by (simp add: round_binary64_def Let_def e_def k_def)
    ultimately have "round_binary64 q = of_int (k * 2 ^ nat (e + 1074)) * pow2 (- 1074)" by simp
    then show ?thesis by blast
  qed
  then show ?thesis by (auto simp: is_double_def mk_num_def Let_def)
qed

lemma is_double_int: "is_double (Fin (of_int n))"
proof -
  have "pow2 0 = of_int (2 ^ nat 1074) * pow2 (- 1074)" using pow2_grid [of "- 1074" 0] by simp
  then have "(of_int n :: rat) = of_int (n * 2 ^ nat 1074) * pow2 (- 1074)" by (simp add: pow2_def [of 0])
  then show ?thesis unfolding is_double_def by blast
qed

lemma is_double_infinite [simp]: "is_double PInf" "is_double NInf"
  by (simp_all add: is_double_def)

lemma is_double_zero_one [simp]: "is_double (Fin 0)" "is_double (Fin 1)"
  using is_double_int [of 0] is_double_int [of 1] by simp_all

lemma is_double_max: "is_double x \<Longrightarrow> is_double y \<Longrightarrow> is_double (js_max x y)"
  by (auto simp: js_max_def is_double_def)

lemma is_double_min: "is_double x \<Longrightarrow> is_double y \<Longrightarrow> is_double (js_min x y)"
  by (auto simp: js_min_def is_double_def)

lemma is_double_round: "is_double x \<Longrightarrow> is_double (js_round x)"
  by (cases x) (auto simp: is_double_int)

lemma is_double_ceil: "is_double x \<Longrightarrow> is_double (js_ceil x)"
  by (cases x) (auto simp: is_double_int)

lemma least_positive: "round_binary64 (pow2 (- 1074)) = pow2 (- 1074)"
proof -
  have "ilog2 (pow2 (- 1074)) = - 1074" by (rule ilog2_unique) (simp_all add: pow2_less_iff)
  moreover have "\<bar>pow2 (- 1074)\<bar> = pow2 (- 1074)" using pow2_pos [of "- 1074"] by linarith
  ultimately have "ulp_exp (pow2 (- 1074)) = - 1074" by (simp add: ulp_exp_def)
  then show ?thesis using round_binary64_grid [of "pow2 (- 1074)" 1] by simp
qed

lemma mk_num_sign:
  assumes "q = of_int n * pow2 (- 1074)"
  shows "js_lt (Fin 0) (mk_num q) \<longleftrightarrow> 0 < q"
proof (cases "0 < q")
  case True
  then have "0 < n" using assms pow2_pos [of "- 1074"] by (simp add: zero_less_mult_iff)
  then have "1 * pow2 (- 1074) \<le> of_int n * pow2 (- 1074)"
    by (intro mult_right_mono) (simp_all add: less_imp_le)
  then have "pow2 (- 1074) \<le> round_binary64 q"
    using round_binary64_mono [of "pow2 (- 1074)" q] by (simp add: assms least_positive)
  then have "0 < round_binary64 q" using pow2_pos [of "- 1074"] by linarith
  moreover have "0 < pow2 1024" by simp
  ultimately have "js_lt (Fin 0) (mk_num q)" by (auto simp: mk_num_def Let_def)
  with True show ?thesis by simp
next
  case False
  then have "round_binary64 q \<le> 0" using round_binary64_mono [of q 0] by simp
  then have "\<not> pow2 1024 \<le> round_binary64 q" using pow2_pos [of 1024] by linarith
  with \<open>round_binary64 q \<le> 0\<close> False show ?thesis by (simp add: mk_num_def Let_def)
qed

lemma sub_sign:
  assumes "is_double x" and "is_double y" and "\<not> js_eq x y"
  shows "js_lt (Fin 0) (js_sub x y) \<longleftrightarrow> js_lt y x"
proof (cases "\<exists>a b. x = Fin a \<and> y = Fin b")
  case True
  then obtain a b where ab: "x = Fin a" "y = Fin b" by blast
  then obtain m n where "a = of_int m * pow2 (- 1074)" "b = of_int n * pow2 (- 1074)"
    using assms(1,2) by (auto simp: is_double_def)
  then have "a + - b = of_int (m - n) * pow2 (- 1074)" by (simp add: algebra_simps)
  from mk_num_sign [OF this] show ?thesis by (simp add: ab js_sub_def)
next
  case False
  then show ?thesis
    using assms by (cases x; cases y) (auto simp: js_sub_def is_double_def)
qed

text \<open>Lexicographic comparison: the first key that differs decides.\<close>

definition lex_cmp :: "jsnum \<Rightarrow> jsnum \<Rightarrow> jsnum \<Rightarrow> jsnum" where
  "lex_cmp a b rest = (if \<not> js_eq a b then js_sub a b else rest)"

lemma lex_cmp_sign:
  assumes "is_double a" and "is_double b"
  shows "js_lt (Fin 0) (lex_cmp a b rest) \<longleftrightarrow> js_lt b a \<or> a = b \<and> js_lt (Fin 0) rest"
  using sub_sign [OF assms] assms js_lt_irrefl
  by (auto simp: lex_cmp_def js_eq_iff is_double_def)

end
