(* ===== verification/Routes_Service.thy ===== *)
theory Routes_Service
  imports Graphhopper Hazard_Providers Api_Error Js_Date Js_Order
begin

text \<open>
  Route previews, \<^verbatim>\<open>src/src/routes/routes.service.ts\<close>: the check of the endpoints against blocked
  areas, the call of the routing provider with its diagnosis of a missing route, the evaluation,
  the filter and the ranking of the routes, and the mapping of errors. The routing provider is
  the locale \<open>routing_provider\<close>, which the client of GraphHopper interprets. A provider is called
  at most twice; as it is a remote service, each call has its own answer. The snapshot comes from
  a hazard provider; \<open>localeCompare\<close> and the digest are parameters.
\<close>

section \<open>Definitions\<close>

record preview_request =
  pv_origin :: routing_point
  pv_destination :: routing_point
  pv_travelMode :: travel_mode
  pv_alternatives :: nat

record route_risk =
  rr_level :: flood_level
  rr_score :: jsnum
  rr_intersectsBlockedArea :: bool
  rr_affectedDistanceMeters :: jsnum
  rr_confidence :: "jsnum option"
  rr_reasonCodes :: "string list"
  rr_evaluatedAt :: string
  rr_validUntil :: "string option"
  rr_hazardSnapshotId :: "string option"

record route_dto =
  rt_id :: string
  rt_isRecommended :: bool
  rt_risk :: route_risk
  rt_coordinates :: "point list"
  rt_distanceMeters :: jsnum
  rt_durationSeconds :: jsnum
  rt_steps :: "nav_step list"

record flood_metadata =
  fm_source :: snapshot_source
  fm_snapshotId :: string
  fm_evaluatedAt :: string
  fm_validUntil :: "string option"
  fm_activeHazardCount :: nat

record preview_response =
  rp_requestId :: string
  rp_routes :: "route_dto list"
  rp_travelMode :: travel_mode
  rp_requestedAlternatives :: nat
  rp_returnedAlternatives :: nat
  rp_flood :: flood_metadata

text \<open>
  What a preview throws: an API error, the failure of the hazard provider as it is, or the range
  error of formatting an invalid date.
\<close>

datatype 'e preview_failure = PV_API api_exception | PV_SNAPSHOT 'e | PV_RANGE_ERROR

definition same_point :: "routing_point \<Rightarrow> routing_point \<Rightarrow> bool" where
  "same_point a b = (js_eq (rp_latitude a) (rp_latitude b) \<and> js_eq (rp_longitude a) (rp_longitude b))"

definition lon_lat :: "routing_point \<Rightarrow> point" where
  "lon_lat p = (rp_longitude p, rp_latitude p)"

definition origin_blocked :: api_exception where
  "origin_blocked = ApiException 422 C_ORIGIN_IN_BLOCKED_AREA
     ''Origin point is located inside a blocked flood area.'' False"

definition destination_blocked :: api_exception where
  "destination_blocked = ApiException 422 C_DESTINATION_IN_BLOCKED_AREA
     ''Destination point is located inside a blocked flood area.'' False"

definition no_route_due_to_flood :: api_exception where
  "no_route_due_to_flood = ApiException 422 C_NO_ROUTE_DUE_TO_FLOOD
     ''No route could be found that avoids blocked flood areas.'' False"

fun blocked_endpoint :: "point \<Rightarrow> point \<Rightarrow> flood_hazard list \<Rightarrow> api_exception option" where
  "blocked_endpoint originPoint destinationPoint [] = None"
| "blocked_endpoint originPoint destinationPoint (hazard # hazards) =
     (if isPointInsidePolygon originPoint (hz_geometry hazard) then Some origin_blocked
      else if isPointInsidePolygon destinationPoint (hz_geometry hazard) then Some destination_blocked
      else blocked_endpoint originPoint destinationPoint hazards)"

fun mapProviderError :: "routing_error \<Rightarrow> api_exception" where
  "mapProviderError RE_NO_ROUTE = ApiException 422 C_NO_ROUTE
     ''No route could be found between the selected points.'' False"
| "mapProviderError RE_TIMEOUT = ApiException 504 C_ROUTING_TIMEOUT
     ''The routing engine did not respond in time.'' True"
| "mapProviderError RE_INVALID_RESPONSE = ApiException 502 C_ROUTING_RESPONSE_INVALID
     ''The routing engine returned an invalid response.'' True"
| "mapProviderError RE_UNAVAILABLE = ApiException 503 C_ROUTING_UNAVAILABLE
     ''The routing engine is temporarily unavailable.'' True"

fun mode_name :: "travel_mode \<Rightarrow> string" where
  "mode_name CAR = ''CAR''"
| "mode_name MOTORCYCLE = ''MOTORCYCLE''"

definition stableRouteId :: "(string \<Rightarrow> string) \<Rightarrow> travel_mode \<Rightarrow> point list \<Rightarrow> string" where
  "stableRouteId sha256hex travelMode coordinates =
     ''route_'' @ take 16 (sha256hex
       (''v1|'' @ mode_name travelMode @ ''|'' @ join '';'' (map coordinate_text coordinates)))"

fun iso_optional :: "js_date option \<Rightarrow> string option option" where
  "iso_optional None = Some None"
| "iso_optional (Some d) = (case toISOString d of None \<Rightarrow> None | Some s \<Rightarrow> Some (Some s))"

definition mapRoute ::
  "(string \<Rightarrow> string) \<Rightarrow> travel_mode \<Rightarrow> bool \<Rightarrow> provider_route \<times> evaluated_risk \<Rightarrow> route_dto option" where
  "mapRoute sha256hex travelMode isRecommended = (\<lambda>(route, risk).
     case (toISOString (ev_evaluatedAt risk), iso_optional (ev_validUntil risk)) of
       (Some evaluatedAt, Some validUntil) \<Rightarrow> Some \<lparr>
         rt_id = stableRouteId sha256hex travelMode (pr_coordinates route),
         rt_isRecommended = isRecommended,
         rt_risk = \<lparr>
           rr_level = ev_level risk, rr_score = ev_score risk,
           rr_intersectsBlockedArea = ev_intersectsBlockedArea risk,
           rr_affectedDistanceMeters = ev_affectedDistanceMeters risk,
           rr_confidence = ev_confidence risk, rr_reasonCodes = ev_reasonCodes risk,
           rr_evaluatedAt = evaluatedAt, rr_validUntil = validUntil,
           rr_hazardSnapshotId = ev_hazardSnapshotId risk \<rparr>,
         rt_coordinates = pr_coordinates route,
         rt_distanceMeters = pr_distanceMeters route,
         rt_durationSeconds = pr_durationSeconds route,
         rt_steps = pr_steps route \<rparr>
     | _ \<Rightarrow> None)"

text \<open>The comparator of the ranking; a result that is not positive puts the first argument first.\<close>

definition route_cmp ::
  "(string \<Rightarrow> string) \<Rightarrow> (string \<Rightarrow> string \<Rightarrow> int) \<Rightarrow> travel_mode \<Rightarrow>
   provider_route \<times> evaluated_risk \<Rightarrow> provider_route \<times> evaluated_risk \<Rightarrow> jsnum" where
  "route_cmp sha256hex localeCompare travelMode a b =
     lex_cmp (ev_score (snd a)) (ev_score (snd b))
     (lex_cmp (pr_durationSeconds (fst a)) (pr_durationSeconds (fst b))
     (lex_cmp (pr_distanceMeters (fst a)) (pr_distanceMeters (fst b))
       (num_of_int (localeCompare (stableRouteId sha256hex travelMode (pr_coordinates (fst a)))
         (stableRouteId sha256hex travelMode (pr_coordinates (fst b)))))))"

definition route_before ::
  "(string \<Rightarrow> string) \<Rightarrow> (string \<Rightarrow> string \<Rightarrow> int) \<Rightarrow> travel_mode \<Rightarrow>
   provider_route \<times> evaluated_risk \<Rightarrow> provider_route \<times> evaluated_risk \<Rightarrow> bool" where
  "route_before sha256hex localeCompare travelMode a b =
     (\<not> js_lt (Fin 0) (route_cmp sha256hex localeCompare travelMode a b))"

definition provider_request :: "preview_request \<Rightarrow> flood_hazard list \<Rightarrow> routing_request" where
  "provider_request request hazards = \<lparr>
     rq_origin = pv_origin request, rq_destination = pv_destination request,
     rq_travelMode = pv_travelMode request, rq_alternatives = pv_alternatives request,
     rq_hazards = hazards \<rparr>"

type_synonym provider = "routing_request \<Rightarrow> (routing_error, provider_route list) result"

text \<open>The provider's routes, with the diagnosis of a missing route by a second call without hazards.\<close>

definition provider_routes ::
  "provider \<Rightarrow> provider \<Rightarrow> preview_request \<Rightarrow> flood_hazard list \<Rightarrow> flood_hazard list \<Rightarrow>
   (api_exception, provider_route list) result" where
  "provider_routes provider baseline request hazards hardExclusionHazards =
     (case provider (provider_request request hazards) of
        Inr routes \<Rightarrow>
          if length routes = 0 then Inl (mapProviderError RE_NO_ROUTE) else Inr routes
      | Inl e \<Rightarrow>
          if e = RE_NO_ROUTE \<and> 0 < length hardExclusionHazards then
            case baseline (provider_request request []) of
              Inr baselineRoutes \<Rightarrow>
                if 0 < length baselineRoutes then Inl no_route_due_to_flood
                else Inl (mapProviderError e)
            | Inl _ \<Rightarrow> Inl (mapProviderError e)
          else Inl (mapProviderError e))"

definition ranked_routes ::
  "js_math \<Rightarrow> (string \<Rightarrow> string) \<Rightarrow> (string \<Rightarrow> string \<Rightarrow> int) \<Rightarrow> preview_request \<Rightarrow> hazard_snapshot \<Rightarrow> js_date \<Rightarrow>
   provider_route list \<Rightarrow> (provider_route \<times> evaluated_risk) list" where
  "ranked_routes M sha256hex localeCompare request snapshot now providerRoutes =
     (let evaluatedRoutes = map (\<lambda>route. (route,
            evaluateRoute M (pr_coordinates route) (pr_distanceMeters route) (sn_hazards snapshot)
              (Some (sn_snapshotId snapshot)) now))
            (take (pv_alternatives request + 1) providerRoutes);
          usableRoutes = filter (\<lambda>(route, risk). \<not> ev_intersectsBlockedArea risk) evaluatedRoutes in
      sort_by (route_before sha256hex localeCompare (pv_travelMode request)) usableRoutes)"

fun map_routes ::
  "(string \<Rightarrow> string) \<Rightarrow> travel_mode \<Rightarrow> nat \<Rightarrow> (provider_route \<times> evaluated_risk) list \<Rightarrow> route_dto list option" where
  "map_routes sha256hex travelMode index [] = Some []"
| "map_routes sha256hex travelMode index (r # rs) =
     (case (mapRoute sha256hex travelMode (index = 0) r, map_routes sha256hex travelMode (Suc index) rs) of
        (Some x, Some xs) \<Rightarrow> Some (x # xs)
      | _ \<Rightarrow> None)"

definition routes_preview ::
  "js_math \<Rightarrow> (string \<Rightarrow> string) \<Rightarrow> (string \<Rightarrow> string \<Rightarrow> int) \<Rightarrow> (js_date \<Rightarrow> ('e, hazard_snapshot) result) \<Rightarrow>
   provider \<Rightarrow> provider \<Rightarrow> js_date \<Rightarrow> string \<Rightarrow> preview_request \<Rightarrow>
   ('e preview_failure, preview_response) result" where
  "routes_preview M sha256hex localeCompare getSnapshot provider baseline now requestId request =
     (if same_point (pv_origin request) (pv_destination request)
      then Inl (PV_API (api_validation [(''destination'', ''must differ from origin'')]))
      else case getSnapshot now of
        Inl e \<Rightarrow> Inl (PV_SNAPSHOT e)
      | Inr snapshot \<Rightarrow>
          let hardExclusionHazards =
                filter (\<lambda>hazard. js_eq (hz_routingMultiplier hazard) (Fin 0)) (sn_hazards snapshot) in
          case blocked_endpoint (lon_lat (pv_origin request)) (lon_lat (pv_destination request))
              hardExclusionHazards of
            Some e \<Rightarrow> Inl (PV_API e)
          | None \<Rightarrow>
          case provider_routes provider baseline request (sn_hazards snapshot) hardExclusionHazards of
            Inl e \<Rightarrow> Inl (PV_API e)
          | Inr providerRoutes \<Rightarrow>
              let usableRoutes = ranked_routes M sha256hex localeCompare request snapshot now providerRoutes in
              if length usableRoutes = 0 then Inl (PV_API no_route_due_to_flood)
              else
                case (map_routes sha256hex (pv_travelMode request) 0 usableRoutes, toISOString now,
                      iso_optional (sn_validUntil snapshot)) of
                  (Some routes, Some evaluatedAt, Some validUntil) \<Rightarrow> Inr \<lparr>
                    rp_requestId = requestId, rp_routes = routes,
                    rp_travelMode = pv_travelMode request,
                    rp_requestedAlternatives = pv_alternatives request,
                    rp_returnedAlternatives = length routes - 1,
                    rp_flood = \<lparr>
                      fm_source = sn_source snapshot, fm_snapshotId = sn_snapshotId snapshot,
                      fm_evaluatedAt = evaluatedAt, fm_validUntil = validUntil,
                      fm_activeHazardCount = length (sn_hazards snapshot) \<rparr> \<rparr>
                | _ \<Rightarrow> Inl PV_RANGE_ERROR)"

section \<open>The routing provider\<close>

text \<open>What the service relies on in the routes of a provider.\<close>

locale routing_provider =
  fixes preview :: provider
  assumes wf: "preview request = Inr routes \<Longrightarrow> r \<in> set routes \<Longrightarrow> route_ok r"
    and measured: "preview request = Inr routes \<Longrightarrow> r \<in> set routes \<Longrightarrow>
      is_double (pr_durationSeconds r) \<and> is_double (pr_distanceMeters r)"
begin

lemma stage_wf:
  assumes "provider_routes preview baseline request hazards hard = Inr routes"
  shows "routes \<noteq> []" and "r \<in> set routes \<Longrightarrow> route_ok r"
    and "r \<in> set routes \<Longrightarrow> is_double (pr_durationSeconds r) \<and> is_double (pr_distanceMeters r)"
  using assms wf measured
  by (auto simp: provider_routes_def split: sum.splits if_splits)

end

lemma parsePath_measured:
  assumes "parsePath M v = Inr r"
  shows "is_double (pr_durationSeconds r) \<and> is_double (pr_distanceMeters r)"
proof -
  obtain distance time coordinates steps where
    parts: "isPositiveFiniteNumber distance" "isPositiveFiniteNumber time"
    and r: "r = \<lparr> pr_coordinates = coordinates,
        pr_distanceMeters = js_max (Fin 1) (js_round distance),
        pr_durationSeconds = js_max (Fin 1) (js_ceil (js_div time (Fin 1000))), pr_steps = steps \<rparr>"
    using assms unfolding parsePath_def
    by (auto simp: res_bind_Inr not_less split: jsval.splits if_splits)
  obtain d t where dt: "distance = Fin d" "time = Fin t"
    using parts by (cases distance; cases time) (auto simp: isPositiveFiniteNumber_def)
  have "is_double (js_max (Fin 1) (js_round distance))"
    by (intro is_double_max is_double_zero_one) (simp add: dt is_double_int)
  moreover have "is_double (js_max (Fin 1) (js_ceil (js_div time (Fin 1000))))"
    by (intro is_double_max is_double_zero_one is_double_ceil) (simp add: dt is_double_mk_num)
  ultimately show ?thesis by (simp add: r)
qed

lemma gh_preview_routes:
  assumes "gh_preview M sha256hex jsonParse config post request = Inr routes" and "r \<in> set routes"
  shows "route_ok r \<and> is_double (pr_durationSeconds r) \<and> is_double (pr_distanceMeters r)"
proof -
  obtain payload paths where paths: "parseGraphHopperResponse M payload = Inr paths"
    and "routes = take (rq_alternatives request + 1)
      (filter (\<lambda>r. hasAcceptableEndpointSnapping M r request) (deduplicateRoutes sha256hex paths))"
    using assms(1) unfolding gh_preview_def by (auto simp: res_bind_Inr Let_def split: if_splits)
  with assms(2) have "r \<in> set (deduplicateRoutes sha256hex paths)" by (auto dest: in_set_takeD)
  then have r: "r \<in> set paths"
    using set_dedupe [of sha256hex "{}" paths] unfolding deduplicateRoutes_def by blast
  obtain items where "traverse (parsePath M) items = Inr paths"
    using paths unfolding parseGraphHopperResponse_def by (auto split: jsval.splits if_splits)
  from traverse_all [OF this, of "\<lambda>r. is_double (pr_durationSeconds r) \<and> is_double (pr_distanceMeters r)"]
  show ?thesis using parseGraphHopperResponse_Inr(2) [OF paths r] r parsePath_measured by blast
qed

interpretation graphhopper: routing_provider "gh_preview M sha256hex jsonParse config post"
  by unfold_locales (use gh_preview_routes in blast)+

section \<open>The ranking is a total preorder\<close>

definition locale_order :: "(string \<Rightarrow> string \<Rightarrow> int) \<Rightarrow> bool" where
  "locale_order localeCompare \<longleftrightarrow>
     (\<forall>a b. localeCompare a b \<le> 0 \<or> localeCompare b a \<le> 0) \<and>
     (\<forall>a b c. localeCompare a b \<le> 0 \<longrightarrow> localeCompare b c \<le> 0 \<longrightarrow> localeCompare a c \<le> 0)"

definition lex_le :: "('a \<Rightarrow> jsnum) \<Rightarrow> ('a \<Rightarrow> 'a \<Rightarrow> bool) \<Rightarrow> 'a \<Rightarrow> 'a \<Rightarrow> bool" where
  "lex_le f le a b \<longleftrightarrow> js_lt (f a) (f b) \<or> f a = f b \<and> le a b"

lemma lex_le_preorder:
  assumes "\<forall>x\<in>S. f x \<noteq> NaN" and "preorder_on_set S le"
  shows "preorder_on_set S (lex_le f le)"
  unfolding preorder_on_set_def
proof (intro conjI ballI impI)
  fix a b
  assume "a \<in> S" "b \<in> S"
  then show "lex_le f le a b \<or> lex_le f le b a"
    using js_linear [of "f a" "f b"] assms preorder_on_total [OF assms(2), of a b] by (auto simp: lex_le_def)
next
  fix a b c
  assume S: "a \<in> S" "b \<in> S" "c \<in> S" and "lex_le f le a b" "lex_le f le b c"
  then show "lex_le f le a c"
    using js_lt_trans [of "f a" "f b" "f c"] preorder_on_trans [OF assms(2) S] by (auto simp: lex_le_def)
qed

definition route_le ::
  "(string \<Rightarrow> string) \<Rightarrow> (string \<Rightarrow> string \<Rightarrow> int) \<Rightarrow> travel_mode \<Rightarrow>
   provider_route \<times> evaluated_risk \<Rightarrow> provider_route \<times> evaluated_risk \<Rightarrow> bool" where
  "route_le sha256hex localeCompare mode =
     lex_le (\<lambda>x. ev_score (snd x)) (lex_le (\<lambda>x. pr_durationSeconds (fst x))
       (lex_le (\<lambda>x. pr_distanceMeters (fst x))
         (\<lambda>a b. localeCompare (stableRouteId sha256hex mode (pr_coordinates (fst a)))
           (stableRouteId sha256hex mode (pr_coordinates (fst b))) \<le> 0)))"

definition ranking_ok :: "provider_route \<times> evaluated_risk \<Rightarrow> bool" where
  "ranking_ok x \<longleftrightarrow> is_double (ev_score (snd x)) \<and> is_double (pr_durationSeconds (fst x)) \<and>
     is_double (pr_distanceMeters (fst x))"

lemma is_double_not_NaN: "is_double x \<Longrightarrow> x \<noteq> NaN"
  by (simp add: is_double_def)

lemma not_lt_lex:
  assumes "is_double x" "is_double y"
  shows "\<not> (js_lt y x \<or> x = y \<and> P) \<longleftrightarrow> js_lt x y \<or> x = y \<and> \<not> P"
  using js_linear [of x y] js_lt_asym [of x y] assms by (auto simp: is_double_not_NaN)

lemma route_before_iff:
  assumes "ranking_ok a" and "ranking_ok b"
  shows "route_before sha localeCompare mode a b \<longleftrightarrow> route_le sha localeCompare mode a b"
proof -
  have zero: "js_lt (Fin 0) (num_of_int n) \<longleftrightarrow> \<not> n \<le> 0" for n by (auto simp: num_of_int_def)
  show ?thesis
    using assms unfolding ranking_ok_def
    by (simp add: route_before_def route_cmp_def route_le_def lex_le_def lex_cmp_sign zero not_lt_lex
        del: de_Morgan_disj de_Morgan_conj)
qed

lemma route_le_preorder:
  assumes "locale_order localeCompare" and "\<forall>x\<in>S. ranking_ok x"
  shows "preorder_on_set S (route_le sha localeCompare mode)"
  unfolding route_le_def
proof (intro lex_le_preorder)
  show "preorder_on_set S (\<lambda>a b. localeCompare (stableRouteId sha mode (pr_coordinates (fst a)))
           (stableRouteId sha mode (pr_coordinates (fst b))) \<le> 0)"
    using assms(1) unfolding preorder_on_set_def locale_order_def by blast
qed (use assms(2) is_double_not_NaN in \<open>auto simp: ranking_ok_def\<close>)

lemma sort_by_cong:
  assumes "\<And>a b. a \<in> set xs \<Longrightarrow> b \<in> set xs \<Longrightarrow> le a b \<longleftrightarrow> le' a b"
  shows "sort_by le xs = sort_by le' xs"
proof -
  have ins: "ins_by le x ys = ins_by le' x ys" if "\<And>y. y \<in> set ys \<Longrightarrow> le x y \<longleftrightarrow> le' x y" for x ys
    using that by (induction ys) auto
  show ?thesis using assms by (induction xs) (auto intro: ins)
qed

section \<open>Scores\<close>

lemma penalty_double:
  assumes "\<forall>h\<in>set hs. in_unit (hz_routingMultiplier h)" and "is_double p"
  shows "is_double (foldl (\<lambda>p h. js_max p (js_sub (Fin 1) (hz_routingMultiplier h))) p hs)"
  using assms
proof (induction hs arbitrary: p)
  case (Cons h hs)
  then obtain a where "hz_routingMultiplier h = Fin a" by (auto simp: in_unit_iff)
  then have "is_double (js_sub (Fin 1) (hz_routingMultiplier h))" by (simp add: js_sub_def is_double_mk_num)
  with Cons show ?case by (simp add: is_double_max)
qed simp

lemma evaluated_score:
  fixes snapshotId :: "string option" and now :: js_date
  assumes "\<forall>h\<in>set hazards. in_unit (hz_routingMultiplier h)"
  shows "is_double (ev_score (evaluateRoute M coordinates meters hazards snapshotId now))"
proof -
  define hs where "hs = overlapped M coordinates hazards"
  define acc where "acc = foldl (route_acc_step M coordinates) route_acc_init hazards"
  have inv: "acc_inv hs acc" unfolding hs_def acc_def by (rule acc_final)
  have "\<forall>h\<in>set hs. in_unit (hz_routingMultiplier h)" using assms by (simp add: hs_def overlapped_def)
  then have "is_double (ra_strongestPenalty acc)"
    using inv penalty_double [of hs "Fin 0"] by (simp add: acc_inv_def)
  then show ?thesis
    by (simp add: evaluateRoute_def Let_def is_double_min flip: acc_def)
qed

lemma evaluated_blocked:
  "ev_intersectsBlockedArea (evaluateRoute M coordinates meters hazards snapshotId now) \<longleftrightarrow>
     (\<exists>h\<in>set (overlapped M coordinates hazards). hz_routingMultiplier h = Fin 0)"
proof -
  define hs where "hs = overlapped M coordinates hazards"
  define acc where "acc = foldl (route_acc_step M coordinates) route_acc_init hazards"
  have inv: "acc_inv hs acc" unfolding hs_def acc_def by (rule acc_final)
  have "hazards = [] \<Longrightarrow> hs = []" by (simp add: hs_def overlapped_def)
  with inv show ?thesis
    by (auto simp: evaluateRoute_def Let_def acc_inv_def simp flip: hs_def acc_def)
qed

lemma evaluated_dates:
  assumes "\<forall>h\<in>set hazards. \<forall>d. hz_validUntil h = Some d \<longrightarrow> valid_date d"
  shows "ev_evaluatedAt (evaluateRoute M coordinates meters hazards snapshotId now) = now"
    and "ev_validUntil (evaluateRoute M coordinates meters hazards snapshotId now) = Some d \<Longrightarrow> valid_date d"
proof -
  define hs where "hs = overlapped M coordinates hazards"
  define acc where "acc = foldl (route_acc_step M coordinates) route_acc_init hazards"
  have inv: "ra_intersectedHazards acc = hs"
    using acc_final [of M coordinates hazards] by (simp add: hs_def acc_def acc_inv_def)
  show "ev_evaluatedAt (evaluateRoute M coordinates meters hazards snapshotId now) = now"
    by (simp add: evaluateRoute_def Let_def)
  have earliest: "earliestValidUntil xs = Some d \<Longrightarrow> valid_date d" if "set xs \<subseteq> set hazards" for xs
    using earlier_fold [of xs None] assms that by (auto simp: earliestValidUntil_def)
  have "set hs \<subseteq> set hazards" by (auto simp: hs_def overlapped_def)
  with inv earliest show "ev_validUntil (evaluateRoute M coordinates meters hazards snapshotId now) = Some d \<Longrightarrow>
    valid_date d"
    by (auto simp: evaluateRoute_def Let_def simp flip: acc_def split: if_splits)
qed

section \<open>What a successful preview went through\<close>

lemma routes_preview_Inr:
  assumes "routes_preview M sha localeCompare getSnapshot provider baseline now requestId request = Inr response"
  obtains snapshot routes ranked where
    "getSnapshot now = Inr snapshot"
    "\<not> same_point (pv_origin request) (pv_destination request)"
    "blocked_endpoint (lon_lat (pv_origin request)) (lon_lat (pv_destination request))
       (filter (\<lambda>h. js_eq (hz_routingMultiplier h) (Fin 0)) (sn_hazards snapshot)) = None"
    "provider_routes provider baseline request (sn_hazards snapshot)
       (filter (\<lambda>h. js_eq (hz_routingMultiplier h) (Fin 0)) (sn_hazards snapshot)) = Inr routes"
    "ranked = ranked_routes M sha localeCompare request snapshot now routes" "ranked \<noteq> []"
    "map_routes sha (pv_travelMode request) 0 ranked = Some (rp_routes response)"
    "rp_returnedAlternatives response = length (rp_routes response) - 1"
  using assms unfolding routes_preview_def
  by (auto simp: Let_def intro!: that split: if_splits sum.splits option.splits)

lemma blocked_endpoint_None:
  "blocked_endpoint p q hazards = None \<longleftrightarrow>
     (\<forall>h\<in>set hazards. \<not> isPointInsidePolygon p (hz_geometry h) \<and> \<not> isPointInsidePolygon q (hz_geometry h))"
  by (induction hazards) auto

lemma map_routes_Some:
  "map_routes sha mode index rs = Some ds \<Longrightarrow> length ds = length rs \<and>
     (\<forall>i<length rs. mapRoute sha mode (index + i = 0) (rs ! i) = Some (ds ! i))"
proof (induction rs arbitrary: index ds)
  case (Cons r rs)
  then obtain x xs where x: "mapRoute sha mode (index = 0) r = Some x"
    and xs: "map_routes sha mode (Suc index) rs = Some xs" and ds: "ds = x # xs"
    by (auto split: option.splits)
  note IH = Cons.IH [OF xs]
  show ?case
  proof (intro conjI allI impI)
    show "length ds = length (r # rs)" using IH ds by simp
    fix i
    assume "i < length (r # rs)"
    with IH x ds show "mapRoute sha mode (index + i = 0) ((r # rs) ! i) = Some (ds ! i)" by (cases i) auto
  qed
qed simp

lemma mapRoute_fields:
  assumes "mapRoute sha mode recommended (route, risk) = Some d"
  shows "rt_isRecommended d = recommended" "rt_coordinates d = pr_coordinates route"
    "rt_distanceMeters d = pr_distanceMeters route" "rt_durationSeconds d = pr_durationSeconds route"
    "rr_score (rt_risk d) = ev_score risk" "rr_intersectsBlockedArea (rt_risk d) = ev_intersectsBlockedArea risk"
    "rt_steps d = pr_steps route" "rr_level (rt_risk d) = ev_level risk"
    "rt_id d = stableRouteId sha mode (pr_coordinates route)"
  using assms by (auto simp: mapRoute_def split: option.splits)

lemma ranked_mem:
  assumes "x \<in> set (ranked_routes M sha localeCompare request snapshot now routes)"
  shows "fst x \<in> set routes" "\<not> ev_intersectsBlockedArea (snd x)"
    "snd x = evaluateRoute M (pr_coordinates (fst x)) (pr_distanceMeters (fst x)) (sn_hazards snapshot)
      (Some (sn_snapshotId snapshot)) now"
  using assms by (auto simp: ranked_routes_def Let_def dest: in_set_takeD)

lemma ranked_length:
  "length (ranked_routes M sha localeCompare request snapshot now routes) \<le> pv_alternatives request + 1"
proof -
  have "length (take (pv_alternatives request + 1) routes) \<le> pv_alternatives request + 1" by simp
  then show ?thesis
    unfolding ranked_routes_def Let_def length_sort_by
    by (intro le_trans [OF length_filter_le]) simp
qed

lemma ranked_sorted:
  assumes "locale_order localeCompare" and "\<forall>h\<in>set (sn_hazards snapshot). in_unit (hz_routingMultiplier h)"
    and "\<And>r. r \<in> set routes \<Longrightarrow> is_double (pr_durationSeconds r) \<and> is_double (pr_distanceMeters r)"
  shows "sorted_wrt (route_le sha localeCompare (pv_travelMode request))
    (ranked_routes M sha localeCompare request snapshot now routes)"
proof -
  let ?ranked = "ranked_routes M sha localeCompare request snapshot now routes"
  define usable where "usable = filter (\<lambda>(route, risk). \<not> ev_intersectsBlockedArea risk)
    (map (\<lambda>route. (route, evaluateRoute M (pr_coordinates route) (pr_distanceMeters route)
      (sn_hazards snapshot) (Some (sn_snapshotId snapshot)) now)) (take (pv_alternatives request + 1) routes))"
  have ok: "\<forall>x\<in>set usable. ranking_ok x"
    using assms(3) evaluated_score [OF assms(2)]
    by (auto simp: usable_def ranking_ok_def dest: in_set_takeD)
  have "?ranked = sort_by (route_before sha localeCompare (pv_travelMode request)) usable"
    by (simp add: ranked_routes_def usable_def Let_def)
  also have "\<dots> = sort_by (route_le sha localeCompare (pv_travelMode request)) usable"
    using ok by (intro sort_by_cong route_before_iff) auto
  finally have eq: "?ranked = sort_by (route_le sha localeCompare (pv_travelMode request)) usable" .
  show ?thesis
    unfolding eq by (rule sorted_wrt_sort_by [OF route_le_preorder [OF assms(1) ok]]) simp
qed

lemma success_parts:
  assumes "routes_preview M sha localeCompare getSnapshot provider baseline now requestId request = Inr response"
  obtains snapshot routes ranked where "getSnapshot now = Inr snapshot"
    "\<forall>h\<in>set (sn_hazards snapshot). hz_routingMultiplier h = Fin 0 \<longrightarrow>
       \<not> isPointInsidePolygon (lon_lat (pv_origin request)) (hz_geometry h) \<and>
       \<not> isPointInsidePolygon (lon_lat (pv_destination request)) (hz_geometry h)"
    "provider_routes provider baseline request (sn_hazards snapshot)
       (filter (\<lambda>h. js_eq (hz_routingMultiplier h) (Fin 0)) (sn_hazards snapshot)) = Inr routes"
    "ranked = ranked_routes M sha localeCompare request snapshot now routes" "ranked \<noteq> []"
    "length (rp_routes response) = length ranked"
    "\<And>i. i < length ranked \<Longrightarrow>
       mapRoute sha (pv_travelMode request) (i = 0) (ranked ! i) = Some (rp_routes response ! i)"
    "rp_returnedAlternatives response = length (rp_routes response) - 1"
proof -
  obtain snapshot routes ranked where parts: "getSnapshot now = Inr snapshot"
    "blocked_endpoint (lon_lat (pv_origin request)) (lon_lat (pv_destination request))
       (filter (\<lambda>h. js_eq (hz_routingMultiplier h) (Fin 0)) (sn_hazards snapshot)) = None"
    "provider_routes provider baseline request (sn_hazards snapshot)
       (filter (\<lambda>h. js_eq (hz_routingMultiplier h) (Fin 0)) (sn_hazards snapshot)) = Inr routes"
    "ranked = ranked_routes M sha localeCompare request snapshot now routes" "ranked \<noteq> []"
    "map_routes sha (pv_travelMode request) 0 ranked = Some (rp_routes response)"
    "rp_returnedAlternatives response = length (rp_routes response) - 1"
    using routes_preview_Inr [OF assms] by metis
  show thesis
    using that [OF parts(1) _ parts(3,4,5) _ _ parts(7)] parts(2) map_routes_Some [OF parts(6)]
    by (auto simp: blocked_endpoint_None js_eq_iff)
qed

section \<open>What a failed preview went through\<close>

lemma preview_failure_cases:
  assumes "routes_preview M sha localeCompare getSnapshot provider baseline now requestId request = Inl f"
  obtains (same) "same_point (pv_origin request) (pv_destination request)"
      "f = PV_API (api_validation [(''destination'', ''must differ from origin'')])"
  | (snapshot) e where "getSnapshot now = Inl e" "f = PV_SNAPSHOT e"
  | (endpoint) e snapshot where "getSnapshot now = Inr snapshot"
      "\<not> same_point (pv_origin request) (pv_destination request)"
      "blocked_endpoint (lon_lat (pv_origin request)) (lon_lat (pv_destination request))
        (filter (\<lambda>h. js_eq (hz_routingMultiplier h) (Fin 0)) (sn_hazards snapshot)) = Some e" "f = PV_API e"
  | (stage) e snapshot where "getSnapshot now = Inr snapshot"
      "\<not> same_point (pv_origin request) (pv_destination request)" "f = PV_API e"
      "provider_routes provider baseline request (sn_hazards snapshot)
        (filter (\<lambda>h. js_eq (hz_routingMultiplier h) (Fin 0)) (sn_hazards snapshot)) = Inl e"
  | (flooded) snapshot routes where "getSnapshot now = Inr snapshot"
      "\<not> same_point (pv_origin request) (pv_destination request)" "f = PV_API no_route_due_to_flood"
      "provider_routes provider baseline request (sn_hazards snapshot)
        (filter (\<lambda>h. js_eq (hz_routingMultiplier h) (Fin 0)) (sn_hazards snapshot)) = Inr routes"
      "ranked_routes M sha localeCompare request snapshot now routes = []"
  | (range) snapshot routes where "getSnapshot now = Inr snapshot" "f = PV_RANGE_ERROR"
      "map_routes sha (pv_travelMode request) 0 (ranked_routes M sha localeCompare request snapshot now routes) = None \<or>
       toISOString now = None \<or> iso_optional (sn_validUntil snapshot) = None"
  using assms unfolding routes_preview_def
  by (auto simp: Let_def split: if_splits sum.splits option.splits
      intro: same snapshot endpoint stage flooded range)

lemma blocked_endpoint_Some:
  "blocked_endpoint p q hazards = Some e \<Longrightarrow> e = origin_blocked \<or> e = destination_blocked"
  by (induction hazards) (auto split: if_splits)

lemma mapProviderError_fields:
  "ax_status (mapProviderError e) \<in> {422, 502, 503, 504}"
  "ax_retryable (mapProviderError e) \<longleftrightarrow> 500 \<le> ax_status (mapProviderError e)"
  "ax_code (mapProviderError e) \<noteq> C_NO_ROUTE_DUE_TO_FLOOD"
  by (cases e; simp add: ApiException_def)+

lemma stage_errors:
  assumes "provider_routes provider baseline request hazards hard = Inl e"
  shows "ax_status e \<in> {422, 502, 503, 504}" and "ax_status e \<noteq> 400"
    and "ax_retryable e \<longleftrightarrow> 500 \<le> ax_status e"
    and "ax_code e = C_NO_ROUTE_DUE_TO_FLOOD \<Longrightarrow> \<exists>h. h \<in> set hard"
proof -
  have "e \<in> range mapProviderError \<or> e = no_route_due_to_flood \<and> hard \<noteq> []"
    using assms by (auto simp: provider_routes_def simp del: mapProviderError.simps split: sum.splits if_splits)
  then show "ax_status e \<in> {422, 502, 503, 504}" "ax_retryable e \<longleftrightarrow> 500 \<le> ax_status e"
    "ax_code e = C_NO_ROUTE_DUE_TO_FLOOD \<Longrightarrow> \<exists>h. h \<in> set hard"
    using mapProviderError_fields
    by (auto simp: no_route_due_to_flood_def ApiException_def neq_Nil_conv simp del: mapProviderError.simps)
  then show "ax_status e \<noteq> 400" by auto
qed

lemma nothing_ranked:
  assumes "provider_routes provider baseline request (sn_hazards snapshot) hard = Inr routes"
    and "ranked_routes M sha localeCompare request snapshot now routes = []"
  shows "\<exists>h\<in>set (sn_hazards snapshot). hz_routingMultiplier h = Fin 0"
proof -
  have "routes \<noteq> []" using assms(1) by (auto simp: provider_routes_def split: sum.splits if_splits)
  then obtain r rs where routes: "routes = r # rs" by (cases routes) auto
  let ?risk = "evaluateRoute M (pr_coordinates r) (pr_distanceMeters r) (sn_hazards snapshot)
      (Some (sn_snapshotId snapshot)) now"
  have "set (ranked_routes M sha localeCompare request snapshot now routes) = {}" using assms(2) by simp
  then have "ev_intersectsBlockedArea ?risk"
    by (auto simp: ranked_routes_def Let_def routes split: if_splits)
  then show ?thesis using evaluated_blocked by (fastforce simp: overlapped_def)
qed

lemma map_routes_total:
  assumes "\<And>route risk. (route, risk) \<in> set rs \<Longrightarrow> valid_date (ev_evaluatedAt risk) \<and>
    (\<forall>d. ev_validUntil risk = Some d \<longrightarrow> valid_date d)"
  shows "\<exists>ds. map_routes sha mode index rs = Some ds"
  using assms
proof (induction rs arbitrary: index)
  case (Cons x rs)
  obtain route risk where x: "x = (route, risk)" by (cases x)
  have "valid_date (ev_evaluatedAt risk)" "\<forall>d. ev_validUntil risk = Some d \<longrightarrow> valid_date d"
    using Cons.prems [of route risk] x by auto
  then obtain s t where "toISOString (ev_evaluatedAt risk) = Some s" "iso_optional (ev_validUntil risk) = Some t"
    using toISOString_valid by (cases "ev_validUntil risk") fastforce+
  moreover obtain ds where "map_routes sha mode (Suc index) rs = Some ds" using Cons by fastforce
  ultimately show ?case by (simp add: x mapRoute_def)
qed simp

lemma range_error:
  assumes "map_routes sha (pv_travelMode request) 0 (ranked_routes M sha localeCompare request snapshot now routes) = None \<or>
       toISOString now = None \<or> iso_optional (sn_validUntil snapshot) = None"
    and "valid_date now" and "\<forall>d. sn_validUntil snapshot = Some d \<longrightarrow> valid_date d"
    and "\<forall>h\<in>set (sn_hazards snapshot). \<forall>d. hz_validUntil h = Some d \<longrightarrow> valid_date d"
  shows False
proof -
  have "valid_date (ev_evaluatedAt risk) \<and> (\<forall>d. ev_validUntil risk = Some d \<longrightarrow> valid_date d)"
    if "(route, risk) \<in> set (ranked_routes M sha localeCompare request snapshot now routes)" for route risk
    using ranked_mem(3) [OF that] evaluated_dates [OF assms(4)] assms(2) by simp
  then obtain ds where "map_routes sha (pv_travelMode request) 0
      (ranked_routes M sha localeCompare request snapshot now routes) = Some ds"
    using map_routes_total by blast
  moreover obtain s where "toISOString now = Some s" using toISOString_valid [OF assms(2)] by blast
  moreover have "iso_optional (sn_validUntil snapshot) \<noteq> None"
    using assms(3) toISOString_valid by (cases "sn_validUntil snapshot") fastforce+
  ultimately show False using assms(1) by auto
qed

section \<open>A sample preview\<close>

definition sample_preview :: preview_request where
  "sample_preview = \<lparr> pv_origin = \<lparr> rp_latitude = Fin 0, rp_longitude = Fin 0 \<rparr>,
     pv_destination = \<lparr> rp_latitude = Fin 1, rp_longitude = Fin 0 \<rparr>, pv_travelMode = CAR, pv_alternatives = 1 \<rparr>"

definition sample_snapshot :: hazard_snapshot where
  "sample_snapshot = \<lparr> sn_snapshotId = ''s'', sn_generatedAt = Date 0, sn_validUntil = None,
     sn_hazards = [], sn_source = SIMULATED \<rparr>"

definition sample_provider :: provider where
  "sample_provider = gh_preview flat_math id (\<lambda>_. Some sample_response)
     \<lparr> gh_baseUrl = ''u'', gh_timeoutMs = 1000 \<rparr> sample_post"

definition sample_preview_result :: "(unit preview_failure, preview_response) result" where
  "sample_preview_result = routes_preview flat_math id (\<lambda>_ _. 0) (\<lambda>_. Inr sample_snapshot)
     sample_provider sample_provider (Date 0) ''r'' sample_preview"

lemma sample_preview_succeeds:
  "\<exists>response. sample_preview_result = Inr response \<and> length (rp_routes response) = 2"
proof -
  let ?hs = "[] :: flood_hazard list"
  have "hasAcceptableEndpointSnapping flat_math r (provider_request sample_preview ?hs)" for r
    by (simp add: hasAcceptableEndpointSnapping_def distanceMeters_def flat_math_def Let_def
        EARTH_RADIUS_METERS_def MAX_ENDPOINT_SNAP_DISTANCE_METERS_def js_num_simps)
  moreover note sample_distinct
  moreover have "utf8_length ''x'' = 1" by code_simp
  ultimately have routes: "sample_provider (provider_request sample_preview ?hs) = Inr sample_routes"
    by (simp add: sample_provider_def gh_preview_def preview_payload_def fetchJson_def sample_post_def
        num_of_int_def MAX_RESPONSE_BYTES_def sample_parses Let_def provider_request_def sample_preview_def)
      (simp add: sample_routes_def)
  have staged: "provider_routes sample_provider sample_provider sample_preview ?hs [] = Inr sample_routes"
    by (simp add: provider_routes_def routes) (simp add: sample_routes_def)
  obtain t where iso: "toISOString (Date 0) = Some t" using toISOString_valid [of "Date 0"] by auto
  show ?thesis
    using staged iso
    by (simp add: sample_preview_result_def routes_preview_def sample_snapshot_def Let_def same_point_def
        sample_preview_def ranked_routes_def sample_routes_def sample_route_def evaluateRoute_def mapRoute_def js_num_simps
        del: toISOString.simps)
qed

section \<open>Properties\<close>

text \<open>
  C18: A successful preview is safe: it returns at least one route and at most one more than the
  alternatives asked for, only the first recommended; no returned route runs through a hazard
  with multiplier 0 of the snapshot it was computed from, and neither the origin nor the
  destination lies in the area of such a hazard.
\<close>

theorem preview_safe:
  assumes "routes_preview M sha256hex localeCompare getSnapshot provider baseline now requestId request = Inr response"
  shows "\<exists>snapshot. getSnapshot now = Inr snapshot \<and>
    (let hazards = sn_hazards snapshot; routes = rp_routes response in
     1 \<le> length routes \<and> length routes \<le> pv_alternatives request + 1 \<and>
     rp_returnedAlternatives response + 1 = length routes \<and>
     (\<forall>i<length routes. rt_isRecommended (routes ! i) \<longleftrightarrow> i = 0) \<and>
     (\<forall>r\<in>set routes. \<not> rr_intersectsBlockedArea (rt_risk r) \<and>
        (\<forall>h\<in>set (overlapped M (rt_coordinates r) hazards). hz_routingMultiplier h \<noteq> Fin 0)) \<and>
     (\<forall>h\<in>set hazards. hz_routingMultiplier h = Fin 0 \<longrightarrow>
        \<not> isPointInsidePolygon (lon_lat (pv_origin request)) (hz_geometry h) \<and>
        \<not> isPointInsidePolygon (lon_lat (pv_destination request)) (hz_geometry h)))"
proof -
  obtain snapshot routes ranked where parts: "getSnapshot now = Inr snapshot"
    "\<forall>h\<in>set (sn_hazards snapshot). hz_routingMultiplier h = Fin 0 \<longrightarrow>
       \<not> isPointInsidePolygon (lon_lat (pv_origin request)) (hz_geometry h) \<and>
       \<not> isPointInsidePolygon (lon_lat (pv_destination request)) (hz_geometry h)"
    "ranked = ranked_routes M sha256hex localeCompare request snapshot now routes" "ranked \<noteq> []"
    "length (rp_routes response) = length ranked"
    "\<And>i. i < length ranked \<Longrightarrow>
       mapRoute sha256hex (pv_travelMode request) (i = 0) (ranked ! i) = Some (rp_routes response ! i)"
    "rp_returnedAlternatives response = length (rp_routes response) - 1"
    using success_parts [OF assms] by metis
  have "rt_isRecommended (rp_routes response ! i) \<longleftrightarrow> i = 0"
    and safe: "\<not> rr_intersectsBlockedArea (rt_risk (rp_routes response ! i)) \<and>
      (\<forall>h\<in>set (overlapped M (rt_coordinates (rp_routes response ! i)) (sn_hazards snapshot)).
        hz_routingMultiplier h \<noteq> Fin 0)"
    if "i < length ranked" for i
  proof -
    obtain route risk where x: "ranked ! i = (route, risk)" by (cases "ranked ! i")
    then have "(route, risk) \<in> set ranked" using that nth_mem by metis
    from ranked_mem [OF this [unfolded parts(3)]]
    have "\<not> ev_intersectsBlockedArea risk" "risk = evaluateRoute M (pr_coordinates route)
      (pr_distanceMeters route) (sn_hazards snapshot) (Some (sn_snapshotId snapshot)) now" by simp_all
    moreover note fields = mapRoute_fields [OF parts(6) [OF that, unfolded x]]
    ultimately show "\<not> rr_intersectsBlockedArea (rt_risk (rp_routes response ! i)) \<and>
      (\<forall>h\<in>set (overlapped M (rt_coordinates (rp_routes response ! i)) (sn_hazards snapshot)).
        hz_routingMultiplier h \<noteq> Fin 0)"
      unfolding fields using evaluated_blocked by metis
    show "rt_isRecommended (rp_routes response ! i) \<longleftrightarrow> i = 0" by (rule fields(1))
  qed
  moreover have "\<forall>r\<in>set (rp_routes response). \<not> rr_intersectsBlockedArea (rt_risk r) \<and>
      (\<forall>h\<in>set (overlapped M (rt_coordinates r) (sn_hazards snapshot)). hz_routingMultiplier h \<noteq> Fin 0)"
    using safe parts(5) by (metis in_set_conv_nth)
  moreover have "1 \<le> length ranked" using parts(4) by (cases ranked) auto
  moreover have "length ranked \<le> pv_alternatives request + 1" unfolding parts(3) by (rule ranked_length)
  ultimately show ?thesis
    unfolding Let_def using parts(1,2,5,7) by (intro exI [of _ snapshot]) simp
qed

theorem preview_safe_witness:
  "\<exists>response. sample_preview_result = Inr response \<and> length (rp_routes response) \<in> {1, 2}"
proof -
  obtain response where r: "sample_preview_result = Inr response" using sample_preview_succeeds by blast
  from preview_safe [OF r [unfolded sample_preview_result_def]]
  have "1 \<le> length (rp_routes response)" "length (rp_routes response) \<le> 2"
    by (simp_all add: Let_def sample_preview_def)
  then have "length (rp_routes response) = 1 \<or> length (rp_routes response) = 2" by linarith
  with r show ?thesis by auto
qed

text \<open>
  C19: With GraphHopper as the provider, multipliers between 0 and 1 and a consistent collation, the
  returned routes are in order: by score, then duration, then distance, then identifier. The
  recommended route is therefore never beaten by another one in the response.
\<close>

theorem preview_ranked:
  assumes "locale_order localeCompare"
    and "routes_preview M sha256hex localeCompare getSnapshot
      (gh_preview M sha256hex jsonParse config post) baseline now requestId request = Inr response"
    and "getSnapshot now = Inr snapshot"
    and "\<forall>h\<in>set (sn_hazards snapshot). in_unit (hz_routingMultiplier h)"
    and "i < j" and "j < length (rp_routes response)"
  shows "let a = rp_routes response ! i; b = rp_routes response ! j in
    js_lt (rr_score (rt_risk a)) (rr_score (rt_risk b)) \<or> rr_score (rt_risk a) = rr_score (rt_risk b) \<and>
    (js_lt (rt_durationSeconds a) (rt_durationSeconds b) \<or> rt_durationSeconds a = rt_durationSeconds b \<and>
    (js_lt (rt_distanceMeters a) (rt_distanceMeters b) \<or> rt_distanceMeters a = rt_distanceMeters b \<and>
      localeCompare (rt_id a) (rt_id b) \<le> 0))"
proof -
  obtain snapshot' routes ranked where parts: "getSnapshot now = Inr snapshot'"
    "provider_routes (gh_preview M sha256hex jsonParse config post) baseline request (sn_hazards snapshot')
       (filter (\<lambda>h. js_eq (hz_routingMultiplier h) (Fin 0)) (sn_hazards snapshot')) = Inr routes"
    "ranked = ranked_routes M sha256hex localeCompare request snapshot' now routes"
    "length (rp_routes response) = length ranked"
    "\<And>i. i < length ranked \<Longrightarrow>
       mapRoute sha256hex (pv_travelMode request) (i = 0) (ranked ! i) = Some (rp_routes response ! i)"
    using success_parts [OF assms(2)] by metis
  have snapshot: "snapshot' = snapshot" using parts(1) assms(3) by simp
  have "sorted_wrt (route_le sha256hex localeCompare (pv_travelMode request)) ranked"
    unfolding parts(3) snapshot
    using ranked_sorted [OF assms(1,4) graphhopper.stage_wf(3) [OF parts(2)]] by simp
  then have le: "route_le sha256hex localeCompare (pv_travelMode request) (ranked ! i) (ranked ! j)"
    using assms(5,6) parts(4) by (simp add: sorted_wrt_iff_nth_less)
  obtain p q where pq: "ranked ! i = (fst p, snd p)" "ranked ! j = (fst q, snd q)" by simp
  have ij: "i < length ranked" "j < length ranked" using assms(5,6) parts(4) by simp_all
  note fields = mapRoute_fields [OF parts(5) [OF ij(1), unfolded pq(1)]]
    mapRoute_fields [OF parts(5) [OF ij(2), unfolded pq(2)]]
  show ?thesis using le unfolding Let_def fields pq route_le_def lex_le_def fst_conv snd_conv .
qed

theorem preview_ranked_witness:
  "\<exists>response. sample_preview_result = Inr response \<and> length (rp_routes response) = 2 \<and>
     \<not> js_lt (rr_score (rt_risk (rp_routes response ! 1))) (rr_score (rt_risk (rp_routes response ! 0)))"
proof -
  obtain response where r: "sample_preview_result = Inr response" "length (rp_routes response) = 2"
    using sample_preview_succeeds by blast
  have "locale_order (\<lambda>_ _. 0)" by (simp add: locale_order_def)
  from preview_ranked [OF this r(1) [unfolded sample_preview_result_def sample_provider_def] refl, of 0 1] r
  show ?thesis
    using js_lt_asym js_lt_irrefl by (fastforce simp: sample_snapshot_def Let_def)
qed



end
