(* ===== verification/Concurrency_Limiter.thy ===== *)
theory Concurrency_Limiter
  imports Prelude
begin

text \<open>
  The limiter of concurrent provider calls,
  \<^verbatim>\<open>src/src/geocoding/concurrency/concurrency-limiter.ts\<close>. The promise of an operation is
  the operation's identity: a queued \<open>resolve\<close> is the identity waiting for it. The limiter and the
  operations it has let through form a system of which the arrival and the end of an operation are
  the steps. The code between two awaits runs without interruption, which makes \<open>acquire\<close> and
  \<open>release\<close> atomic.
\<close>

section \<open>Definitions\<close>

record 'i limiter =
  li_active :: int
  li_waiting :: "'i list"
  li_maximumConcurrent :: nat
  li_maximumQueued :: nat

definition new_limiter :: "nat \<Rightarrow> nat \<Rightarrow> 'i limiter" where
  "new_limiter maximumConcurrent maximumQueued =
     \<lparr> li_active = 0, li_waiting = [], li_maximumConcurrent = maximumConcurrent,
       li_maximumQueued = maximumQueued \<rparr>"

datatype admission = Admitted | Queued | Unavailable

definition acquire :: "'i \<Rightarrow> 'i limiter \<Rightarrow> admission \<times> 'i limiter" where
  "acquire i l =
     (if li_active l < int (li_maximumConcurrent l) then (Admitted, l\<lparr>li_active := li_active l + 1\<rparr>)
      else if li_maximumQueued l \<le> length (li_waiting l) then (Unavailable, l)
      else (Queued, l\<lparr>li_waiting := li_waiting l @ [i]\<rparr>))"

text \<open>The operation that \<open>release\<close> lets go on, if one was waiting, is the first component.\<close>

definition release :: "'i limiter \<Rightarrow> 'i option \<times> 'i limiter" where
  "release l =
     (let l1 = l\<lparr>li_active := li_active l - 1\<rparr> in
      case li_waiting l1 of
        [] \<Rightarrow> (None, l1)
      | i # waiting \<Rightarrow> (Some i, l1\<lparr>li_waiting := waiting, li_active := li_active l1 + 1\<rparr>))"

text \<open>
  The operations that run, and two histories: those that were not rejected, in the order of their
  arrival, and those that were started, in the order of their start.
\<close>

record 'i calls =
  sy_limiter :: "'i limiter"
  sy_running :: "'i list"
  sy_accepted :: "'i list"
  sy_started :: "'i list"

definition no_calls :: "nat \<Rightarrow> nat \<Rightarrow> 'i calls" where
  "no_calls maximumConcurrent maximumQueued =
     \<lparr> sy_limiter = new_limiter maximumConcurrent maximumQueued, sy_running = [], sy_accepted = [],
       sy_started = [] \<rparr>"

definition start_call :: "'i \<Rightarrow> 'i calls \<Rightarrow> 'i calls" where
  "start_call i s = s\<lparr>sy_running := sy_running s @ [i], sy_started := sy_started s @ [i]\<rparr>"

text \<open>\<open>run\<close> up to its first await, and what follows the end of its operation.\<close>

definition run_call :: "'i \<Rightarrow> 'i calls \<Rightarrow> 'i calls" where
  "run_call i s =
     (let (outcome, l) = acquire i (sy_limiter s);
          s1 = s\<lparr>sy_limiter := l\<rparr> in
      case outcome of
        Unavailable \<Rightarrow> s1
      | Queued \<Rightarrow> s1\<lparr>sy_accepted := sy_accepted s @ [i]\<rparr>
      | Admitted \<Rightarrow> start_call i (s1\<lparr>sy_accepted := sy_accepted s @ [i]\<rparr>))"

definition end_call :: "'i \<Rightarrow> 'i calls \<Rightarrow> 'i calls" where
  "end_call i s =
     (let (woken, l) = release (sy_limiter s);
          s1 = s\<lparr>sy_limiter := l, sy_running := remove1 i (sy_running s)\<rparr> in
      case woken of None \<Rightarrow> s1 | Some j \<Rightarrow> start_call j s1)"

inductive call_step :: "'i calls \<Rightarrow> 'i calls \<Rightarrow> bool" where
  arrive: "call_step s (run_call i s)"
| finish: "i \<in> set (sy_running s) \<Longrightarrow> call_step s (end_call i s)"

inductive_cases call_stepE: "call_step s t"

inductive calls_reachable :: "nat \<Rightarrow> nat \<Rightarrow> 'i calls \<Rightarrow> bool" for n q where
  init: "calls_reachable n q (no_calls n q)"
| step: "calls_reachable n q s \<Longrightarrow> call_step s t \<Longrightarrow> calls_reachable n q t"

text \<open>\<open>drain s k t\<close>: \<open>k\<close> operations end one after the other, and none arrives meanwhile.\<close>

inductive drain :: "'i calls \<Rightarrow> nat \<Rightarrow> 'i calls \<Rightarrow> bool" where
  drain_none: "drain s 0 s"
| drain_one: "drain s k t \<Longrightarrow> i \<in> set (sy_running t) \<Longrightarrow> drain s (Suc k) (end_call i t)"

section \<open>The invariant\<close>

definition limiter_inv :: "nat \<Rightarrow> nat \<Rightarrow> 'i calls \<Rightarrow> bool" where
  "limiter_inv n q s \<longleftrightarrow>
     (let l = sy_limiter s in
      li_maximumConcurrent l = n \<and> li_maximumQueued l = q \<and>
      li_active l = int (length (sy_running s)) \<and> length (sy_running s) \<le> n \<and>
      length (li_waiting l) \<le> q \<and>
      (li_waiting l \<noteq> [] \<longrightarrow> length (sy_running s) = n) \<and>
      sy_accepted s = sy_started s @ li_waiting l)"

lemma inv_init: "limiter_inv n q (no_calls n q)"
  by (simp add: limiter_inv_def no_calls_def new_limiter_def)

lemma run_call_inv: "limiter_inv n q s \<Longrightarrow> limiter_inv n q (run_call i s)"
  by (auto simp: limiter_inv_def run_call_def acquire_def start_call_def Let_def)

lemma end_call_inv:
  assumes "limiter_inv n q s" and i: "i \<in> set (sy_running s)"
  shows "limiter_inv n q (end_call i s)"
proof -
  have "Suc (length (remove1 i (sy_running s))) = length (sy_running s)"
    using i length_pos_if_in_set [OF i] by (simp add: length_remove1)
  with assms(1) show ?thesis
    by (cases "li_waiting (sy_limiter s)")
      (auto simp: limiter_inv_def end_call_def release_def start_call_def Let_def)
qed

lemma reachable_limiter_inv: "calls_reachable n q s \<Longrightarrow> limiter_inv n q s"
  by (induction rule: calls_reachable.induct)
    (auto simp: inv_init run_call_inv end_call_inv elim!: call_stepE)

lemma limiter_invD:
  assumes "limiter_inv n q s"
  shows "li_active (sy_limiter s) = int (length (sy_running s))" and "length (sy_running s) \<le> n"
    and "length (li_waiting (sy_limiter s)) \<le> q"
    and "length (sy_running s) < n \<longrightarrow> li_waiting (sy_limiter s) = []"
    and "sy_accepted s = sy_started s @ li_waiting (sy_limiter s)"
  using assms by (auto simp: limiter_inv_def Let_def)

section \<open>Draining\<close>

definition pending :: "'i calls \<Rightarrow> nat" where
  "pending s = length (sy_running s) + length (li_waiting (sy_limiter s))"

lemma end_call_pending: "i \<in> set (sy_running s) \<Longrightarrow> Suc (pending (end_call i s)) = pending s"
  using length_pos_if_in_set [of i "sy_running s"]
  by (cases "li_waiting (sy_limiter s)")
    (auto simp: pending_def end_call_def release_def start_call_def length_remove1 Let_def)

lemma end_call_accepted [simp]: "sy_accepted (end_call i s) = sy_accepted s"
  by (simp add: end_call_def start_call_def Let_def split: option.splits prod.splits)

lemma drain_facts:
  "drain s k t \<Longrightarrow> limiter_inv n q s \<Longrightarrow>
     limiter_inv n q t \<and> k + pending t = pending s \<and> sy_accepted t = sy_accepted s"
proof (induction rule: drain.induct)
  case (drain_one s k t i)
  then show ?case using end_call_pending [of i t] by (auto simp: end_call_inv)
qed auto

lemma limiter_idle:
  assumes "0 < n" and "limiter_inv n q t" and "\<nexists>i. i \<in> set (sy_running t)"
  shows "pending t = 0 \<and> sy_started t = sy_accepted t \<and> li_active (sy_limiter t) = 0"
proof -
  have "sy_running t = []" using assms(3) by (cases "sy_running t") auto
  with limiter_invD [OF assms(2)] assms(1) show ?thesis by (simp add: pending_def)
qed

text \<open>
  C22: The limiter in front of the geocoding provider, with room for at least one call: at every
  moment as many calls are counted as run, at most the maximum run, at most the maximum are queued,
  none is queued while there is room, and the calls start in the order in which they were accepted.
  When no call arrives any more, every sequence of ends of calls is finite: \<open>k\<close> of them leave \<open>k\<close>
  fewer calls, another is possible until none is left, and then every accepted call was started and
  the counter is back at zero.
\<close>

theorem limiter_drains:
  assumes "0 < n" and "calls_reachable n q s"
  shows "li_active (sy_limiter s) = int (length (sy_running s)) \<and> length (sy_running s) \<le> n \<and>
    length (li_waiting (sy_limiter s)) \<le> q \<and>
    (length (sy_running s) < n \<longrightarrow> li_waiting (sy_limiter s) = []) \<and>
    sy_accepted s = sy_started s @ li_waiting (sy_limiter s) \<and>
    (\<forall>k t. drain s k t \<longrightarrow>
       k + (length (sy_running t) + length (li_waiting (sy_limiter t))) =
         length (sy_running s) + length (li_waiting (sy_limiter s)) \<and>
       ((\<nexists>i. i \<in> set (sy_running t)) \<longrightarrow>
          k = length (sy_running s) + length (li_waiting (sy_limiter s)) \<and>
          sy_started t = sy_accepted s \<and> li_active (sy_limiter t) = 0))"
proof -
  have inv: "limiter_inv n q s" using assms(2) by (rule reachable_limiter_inv)
  have ends: "k + pending t = pending s \<and> ((\<nexists>i. i \<in> set (sy_running t)) \<longrightarrow>
      k = pending s \<and> sy_started t = sy_accepted s \<and> li_active (sy_limiter t) = 0)"
    if "drain s k t" for k t
  proof -
    have f: "limiter_inv n q t" "k + pending t = pending s" "sy_accepted t = sy_accepted s"
      using drain_facts [OF that inv] by auto
    show ?thesis
    proof (intro conjI impI f(2))
      assume "\<nexists>i. i \<in> set (sy_running t)"
      note idle = limiter_idle [OF assms(1) f(1) this]
      show "k = pending s" "sy_started t = sy_accepted s" "li_active (sy_limiter t) = 0"
        using idle f(2,3) by simp_all
    qed
  qed
  show ?thesis using limiter_invD [OF inv] ends unfolding pending_def by blast
qed

theorem limiter_drains_witness:
  "\<exists>t. drain (run_call ''b'' (run_call ''a'' (no_calls 1 1))) 2 t \<and> sy_started t = [''a'', ''b''] \<and>
     li_active (sy_limiter t) = 0"
proof -
  let ?s = "run_call ''b'' (run_call ''a'' (no_calls 1 1))"
  let ?t = "end_call ''b'' (end_call ''a'' ?s)"
  note defs = run_call_def end_call_def no_calls_def new_limiter_def acquire_def release_def
    start_call_def Let_def
  have r: "calls_reachable 1 1 ?s" 
    by (rule calls_reachable.step [OF calls_reachable.step [OF calls_reachable.init] call_step.arrive]) (rule call_step.arrive)+
  have "drain ?s (Suc (Suc 0)) ?t" by (intro drain.intros) (simp_all add: defs)
  then have d: "drain ?s 2 ?t" by (simp add: numeral_2_eq_2)
  moreover have "sy_running ?t = []" "sy_accepted ?s = [''a'', ''b'']" by (simp_all add: defs)
  ultimately show ?thesis using limiter_drains [OF zero_less_one r] by (intro exI [of _ ?t]) simp
qed

end
