(* ===== verification/Admin_Login.thy ===== *)
theory Admin_Login
  imports Prelude
begin

text \<open>
  The limiter of logins to the dashboard,
  \<^verbatim>\<open>src/src/admin/auth/admin-login-rate-limiter.ts\<close>. Times are whole milliseconds since
  1970. The login of \<^verbatim>\<open>admin-session.service.ts\<close> asks the limiter, checks the password and
  tells the limiter the outcome, each time with the moment at which the login began;
  \<open>login_attempt\<close> is such a login run without interruption.
\<close>

section \<open>Definitions\<close>

record attempt_state =
  as_failures :: int
  as_windowStartedAt :: int
  as_blockedUntil :: int

definition WINDOW_MS :: int where "WINDOW_MS = 15 * 60000"
definition CLIENT_FAILURE_LIMIT :: int where "CLIENT_FAILURE_LIMIT = 5"
definition GLOBAL_FAILURE_LIMIT :: int where "GLOBAL_FAILURE_LIMIT = 20"
definition CLIENT_BLOCK_MS :: int where "CLIENT_BLOCK_MS = 15 * 60000"
definition GLOBAL_BLOCK_MS :: int where "GLOBAL_BLOCK_MS = 30 * 60000"

lemmas limit_defs = WINDOW_MS_def CLIENT_FAILURE_LIMIT_def GLOBAL_FAILURE_LIMIT_def CLIENT_BLOCK_MS_def
  GLOBAL_BLOCK_MS_def

definition emptyState :: "int \<Rightarrow> attempt_state" where
  "emptyState now = \<lparr> as_failures = 0, as_windowStartedAt = now, as_blockedUntil = 0 \<rparr>"

definition normalize :: "attempt_state \<Rightarrow> int \<Rightarrow> attempt_state" where
  "normalize s now =
     (if as_windowStartedAt s + WINDOW_MS \<le> now \<and> as_blockedUntil s \<le> now then emptyState now else s)"

definition increment :: "attempt_state \<Rightarrow> int \<Rightarrow> int \<Rightarrow> int \<Rightarrow> attempt_state" where
  "increment s limit blockMs now =
     (let failures = as_failures s + 1 in
      \<lparr> as_failures = failures, as_windowStartedAt = as_windowStartedAt s,
        as_blockedUntil = (if limit \<le> failures then max (as_blockedUntil s) (now + blockMs)
          else as_blockedUntil s) \<rparr>)"

record login_limiter =
  ll_clients :: "(string, attempt_state) dict"
  ll_global :: attempt_state

definition new_login_limiter :: login_limiter where
  "new_login_limiter = \<lparr> ll_clients = [], ll_global = emptyState 0 \<rparr>"

definition client_state :: "login_limiter \<Rightarrow> string \<Rightarrow> int \<Rightarrow> attempt_state" where
  "client_state l key now =
     normalize (case dict_get (ll_clients l) key of None \<Rightarrow> emptyState now | Some s \<Rightarrow> s) now"

text \<open>The first component is false when the code throws 429.\<close>

definition assertAllowed :: "string \<Rightarrow> int \<Rightarrow> login_limiter \<Rightarrow> bool \<times> login_limiter" where
  "assertAllowed clientKey now l =
     (let global = normalize (ll_global l) now;
          client = client_state l clientKey now in
      (\<not> (now < as_blockedUntil client \<or> now < as_blockedUntil global),
       \<lparr> ll_clients = dict_set clientKey client (ll_clients l), ll_global = global \<rparr>))"

definition prune :: "int \<Rightarrow> login_limiter \<Rightarrow> login_limiter" where
  "prune now l =
     (if length (ll_clients l) \<le> 2000 then l
      else l\<lparr>ll_clients := filter (\<lambda>(key, s).
        \<not> (as_blockedUntil s \<le> now \<and> as_windowStartedAt s + WINDOW_MS \<le> now)) (ll_clients l)\<rparr>)"

definition recordFailure :: "string \<Rightarrow> int \<Rightarrow> login_limiter \<Rightarrow> login_limiter" where
  "recordFailure clientKey now l =
     (let client = increment (client_state l clientKey now) CLIENT_FAILURE_LIMIT CLIENT_BLOCK_MS now in
      prune now \<lparr> ll_clients = dict_set clientKey client (ll_clients l),
        ll_global = increment (normalize (ll_global l) now) GLOBAL_FAILURE_LIMIT GLOBAL_BLOCK_MS now \<rparr>)"

definition recordSuccess :: "string \<Rightarrow> int \<Rightarrow> login_limiter \<Rightarrow> login_limiter" where
  "recordSuccess clientKey now l =
     \<lparr> ll_clients = dict_delete clientKey (ll_clients l), ll_global = emptyState now \<rparr>"

section \<open>Attempts\<close>

record attempt =
  at_key :: string
  at_time :: int
  at_correct :: bool

definition login_attempt :: "attempt \<Rightarrow> login_limiter \<Rightarrow> login_limiter" where
  "login_attempt a l =
     (let (allowed, l1) = assertAllowed (at_key a) (at_time a) l in
      if \<not> allowed then l1
      else if at_correct a then recordSuccess (at_key a) (at_time a) l1
      else recordFailure (at_key a) (at_time a) l1)"

text \<open>The limiter after a history of logins, of which the newest comes first.\<close>

definition limiter_after :: "attempt list \<Rightarrow> login_limiter" where
  "limiter_after history = foldr login_attempt history new_login_limiter"

text \<open>
  The times of the wrong guesses that were let through, newest first: those of a client since its
  last success, or, for \<open>None\<close>, those of all clients since the last success of any.
\<close>

definition concerns :: "string option \<Rightarrow> string \<Rightarrow> bool" where
  "concerns who key = (who = None \<or> who = Some key)"

fun guesses :: "string option \<Rightarrow> attempt list \<Rightarrow> int list" where
  "guesses who [] = []"
| "guesses who (a # history) =
     (if \<not> fst (assertAllowed (at_key a) (at_time a) (limiter_after history)) \<or> \<not> concerns who (at_key a)
      then guesses who history
      else if at_correct a then [] else at_time a # guesses who history)"

fun clock_ok :: "attempt list \<Rightarrow> int \<Rightarrow> bool" where
  "clock_ok [] now = (0 \<le> now)"
| "clock_ok (a # history) now = (at_time a \<le> now \<and> clock_ok history (at_time a))"

section \<open>One window\<close>

text \<open>
  The guesses counted in the current window, and before them fewer than the limit that lie within
  a window's length of its start; a full window blocks until all of its guesses are far enough.
\<close>

definition window_split :: "int \<Rightarrow> int \<Rightarrow> attempt_state \<Rightarrow> int \<Rightarrow> int list \<Rightarrow> int list \<Rightarrow> bool" where
  "window_split limit block s now cur rest \<longleftrightarrow>
     as_windowStartedAt s \<le> now \<and> as_failures s \<le> limit \<and> int (length cur) = as_failures s \<and>
     (\<forall>t\<in>set cur. as_windowStartedAt s \<le> t \<and> t \<le> now) \<and>
     (\<forall>t\<in>set rest. t \<le> as_windowStartedAt s) \<and>
     int (length (filter (\<lambda>t. as_windowStartedAt s - WINDOW_MS < t) rest)) < limit \<and>
     (as_failures s = limit \<longrightarrow> (\<forall>t\<in>set cur. t + block \<le> as_blockedUntil s))"

definition window_inv :: "int \<Rightarrow> int \<Rightarrow> attempt_state \<Rightarrow> int \<Rightarrow> int list \<Rightarrow> bool" where
  "window_inv limit block s now ts \<longleftrightarrow>
     (\<exists>cur rest. ts = cur @ rest \<and> window_split limit block s now cur rest)"

lemma normalize_empty [simp]: "normalize (emptyState now) now = emptyState now"
  by (simp add: normalize_def emptyState_def WINDOW_MS_def)

lemma window_inv_new: "0 < limit \<Longrightarrow> window_inv limit block (emptyState t) t []"
  by (simp add: window_inv_def window_split_def emptyState_def)

lemma window_split_later:
  "window_split limit block s now cur rest \<Longrightarrow> now \<le> later \<Longrightarrow> window_split limit block s later cur rest"
  unfolding window_split_def by (meson order_trans)

lemma window_inv_later: "window_inv limit block s now ts \<Longrightarrow> now \<le> later \<Longrightarrow> window_inv limit block s later ts"
  unfolding window_inv_def using window_split_later by blast

lemma filter_none: "(\<And>t. t \<in> set ts \<Longrightarrow> \<not> P t) \<Longrightarrow> length (filter P ts) = 0"
  by simp

lemma length_filter_mono: "(\<And>x. P x \<Longrightarrow> Q x) \<Longrightarrow> length (filter P xs) \<le> length (filter Q xs)"
  by (induction xs) (auto simp: le_SucI)

lemma split_recent:
  assumes "window_split limit block s now cur rest" and "0 < limit" and "WINDOW_MS \<le> block"
    and "as_windowStartedAt s + WINDOW_MS \<le> later" and "as_blockedUntil s \<le> later"
  shows "int (length (filter (\<lambda>t. later - WINDOW_MS < t) (cur @ rest))) < limit"
proof -
  let ?P = "\<lambda>t. later - WINDOW_MS < t"
  have "length (filter ?P rest) = 0"
    using assms(1,4) unfolding window_split_def by (intro filter_none) force
  moreover have "int (length (filter ?P cur)) < limit"
  proof (cases "as_failures s = limit")
    case True
    have "length (filter ?P cur) = 0"
      using assms(1,3,5) True unfolding window_split_def by (intro filter_none) force
    with assms(2) show ?thesis by simp
  next
    case False
    have "length (filter ?P cur) \<le> length cur" by (rule length_filter_le)
    with False assms(1) show ?thesis unfolding window_split_def by linarith
  qed
  ultimately show ?thesis by simp
qed

lemma normalize_inv:
  assumes "window_inv limit block s now ts" and "now \<le> later" and "0 < limit" and "WINDOW_MS \<le> block"
  shows "window_inv limit block (normalize s later) later ts"
proof (cases "as_windowStartedAt s + WINDOW_MS \<le> later \<and> as_blockedUntil s \<le> later")
  case True
  obtain cur rest where ts: "ts = cur @ rest" and sp: "window_split limit block s now cur rest"
    using assms(1) unfolding window_inv_def by blast
  have "\<forall>t\<in>set ts. t \<le> later"
    using sp assms(2) unfolding ts window_split_def by force
  moreover have "int (length (filter (\<lambda>t. later - WINDOW_MS < t) ts)) < limit"
    using split_recent [OF sp assms(3,4)] True unfolding ts by blast
  ultimately have "window_split limit block (emptyState later) later [] ts"
    using assms(3) by (simp add: window_split_def emptyState_def)
  then have "window_inv limit block (emptyState later) later ts"
    unfolding window_inv_def by (metis append_Nil)
  with True show ?thesis by (simp add: normalize_def)
next
  case False
  then show ?thesis using window_inv_later [OF assms(1,2)] by (auto simp: normalize_def)
qed

lemma allowed_not_full:
  assumes "window_inv limit block (normalize s now) now ts" and "0 < limit" and "WINDOW_MS \<le> block"
    and "as_blockedUntil (normalize s now) \<le> now"
  shows "as_failures (normalize s now) < limit"
proof (rule ccontr)
  let ?s = "normalize s now"
  obtain cur rest where sp: "window_split limit block ?s now cur rest"
    using assms(1) unfolding window_inv_def by blast
  assume "\<not> as_failures ?s < limit"
  then have full: "as_failures ?s = limit" using sp by (simp add: window_split_def)
  then obtain t where t: "t \<in> set cur" using sp assms(2) by (cases cur) (auto simp: window_split_def)
  then have "as_windowStartedAt ?s \<le> t" "t + block \<le> as_blockedUntil ?s"
    using sp full unfolding window_split_def by blast+
  then have "as_windowStartedAt ?s + WINDOW_MS \<le> now" using assms(3,4) by linarith
  with assms(4) have "as_failures ?s = 0"
    by (auto simp: normalize_def emptyState_def split: if_splits)
  with full assms(2) show False by simp
qed

lemma increment_inv:
  assumes "window_inv limit block s now ts" and "as_failures s < limit"
  shows "window_inv limit block (increment s limit block now) now (now # ts)"
proof -
  obtain cur rest where ts: "ts = cur @ rest" and sp: "window_split limit block s now cur rest"
    using assms(1) unfolding window_inv_def by blast
  have "window_split limit block (increment s limit block now) now (now # cur) rest"
    using sp assms(2) unfolding window_split_def increment_def Let_def
    by (auto simp: le_max_iff_disj)
  moreover have "now # ts = (now # cur) @ rest" using ts by simp
  ultimately show ?thesis unfolding window_inv_def by blast
qed

lemma window_bound:
  assumes "window_inv limit block s now ts"
  shows "int (length (filter (\<lambda>t. now - WINDOW_MS < t) ts)) < 2 * limit"
proof -
  obtain cur rest where ts: "ts = cur @ rest" and sp: "window_split limit block s now cur rest"
    using assms unfolding window_inv_def by blast
  have "length (filter (\<lambda>t. now - WINDOW_MS < t) rest)
      \<le> length (filter (\<lambda>t. as_windowStartedAt s - WINDOW_MS < t) rest)"
    using sp unfolding window_split_def by (intro length_filter_mono) linarith
  moreover have "length (filter (\<lambda>t. now - WINDOW_MS < t) cur) \<le> length cur" by (rule length_filter_le)
  ultimately have "int (length (filter (\<lambda>t. now - WINDOW_MS < t) rest)) < limit"
    "int (length (filter (\<lambda>t. now - WINDOW_MS < t) cur)) \<le> limit"
    using sp unfolding window_split_def by linarith+
  then show ?thesis unfolding ts by simp
qed

section \<open>Histories\<close>

definition client_inv :: "login_limiter \<Rightarrow> string \<Rightarrow> int \<Rightarrow> int list \<Rightarrow> bool" where
  "client_inv l key now ts \<longleftrightarrow>
     (\<forall>later\<ge>now. window_inv CLIENT_FAILURE_LIMIT CLIENT_BLOCK_MS (client_state l key later) later ts)"

definition global_inv :: "login_limiter \<Rightarrow> int \<Rightarrow> int list \<Rightarrow> bool" where
  "global_inv l now ts \<longleftrightarrow> window_inv GLOBAL_FAILURE_LIMIT GLOBAL_BLOCK_MS (ll_global l) now ts"

text \<open>A stored state and no state at all are read alike by an operation at the same moment or later.\<close>

lemma client_invI:
  assumes "dict_get (ll_clients l) key = Some s" and "window_inv CLIENT_FAILURE_LIMIT CLIENT_BLOCK_MS s now ts"
  shows "client_inv l key now ts"
  using assms normalize_inv [OF assms(2)] by (simp add: client_inv_def client_state_def limit_defs)


lemma normalize_expired:
  "as_blockedUntil s \<le> now \<Longrightarrow> as_windowStartedAt s + WINDOW_MS \<le> now \<Longrightarrow> now \<le> t \<Longrightarrow> normalize s t = emptyState t"
  by (auto simp: normalize_def)

lemma map_of_filter_dict:
  "dict_ok m \<Longrightarrow> map_of (filter (\<lambda>(k, s). P s) m) k =
     (case map_of m k of None \<Rightarrow> None | Some s \<Rightarrow> if P s then Some s else None)"
  by (induction m) (auto simp: dict_ok_def map_of_eq_None_iff split: option.splits)

lemma normalize_idem: "normalize (normalize s t) t = normalize s t"
  by (simp add: normalize_def emptyState_def WINDOW_MS_def)

lemma prune_client:
  assumes "now \<le> t" and "dict_ok (ll_clients l)"
  shows "client_state (prune now l) key t = client_state l key t"
  using assms normalize_expired [OF _ _ assms(1)]
  by (auto simp: client_state_def prune_def dict_get_def map_of_filter_dict [OF assms(2),
      of "\<lambda>s. as_blockedUntil s \<le> now \<longrightarrow> \<not> as_windowStartedAt s + WINDOW_MS \<le> now"] split: option.splits)

lemma prune_global [simp]: "ll_global (prune now l) = ll_global l"
  by (simp add: prune_def)

lemma prune_ok: "dict_ok (ll_clients l) \<Longrightarrow> dict_ok (ll_clients (prune now l))"
  by (simp add: prune_def dict_ok_filter)

definition login_inv :: "login_limiter \<Rightarrow> attempt list \<Rightarrow> int \<Rightarrow> bool" where
  "login_inv l history now \<longleftrightarrow>
     dict_ok (ll_clients l) \<and> (\<forall>key. client_inv l key now (guesses (Some key) history)) \<and>
     global_inv l now (guesses None history)"

lemma client_state_inv: "client_inv l key now ts \<Longrightarrow> now \<le> t \<Longrightarrow>
    window_inv CLIENT_FAILURE_LIMIT CLIENT_BLOCK_MS (client_state l key t) t ts"
  by (simp add: client_inv_def)

lemma client_inv_other:
  "client_inv l key now ts \<Longrightarrow> now \<le> later \<Longrightarrow> dict_get (ll_clients l') key = dict_get (ll_clients l) key \<Longrightarrow>
     client_inv l' key later ts"
  by (auto simp: client_inv_def client_state_def)

lemma client_inv_absent: "dict_get (ll_clients l) key = None \<Longrightarrow> client_inv l key now []"
  by (simp add: client_inv_def client_state_def window_inv_new limit_defs)

lemma attempt_inv:
  assumes inv: "login_inv (limiter_after history) history now" and "now \<le> at_time a"
  shows "login_inv (limiter_after (a # history)) (a # history) (at_time a)"
proof -
  let ?l = "limiter_after history" and ?k = "at_key a" and ?t = "at_time a"
  let ?c = "client_state ?l ?k ?t" and ?g = "normalize (ll_global ?l) ?t"
  let ?l1 = "\<lparr> ll_clients = dict_set ?k ?c (ll_clients ?l), ll_global = ?g \<rparr>"
  have ok: "dict_ok (ll_clients ?l)" and clients: "\<And>key. client_inv ?l key now (guesses (Some key) history)"
    using inv by (auto simp: login_inv_def)
  have c: "window_inv CLIENT_FAILURE_LIMIT CLIENT_BLOCK_MS ?c ?t (guesses (Some ?k) history)"
    by (rule client_state_inv [OF clients assms(2)])
  have g: "window_inv GLOBAL_FAILURE_LIMIT GLOBAL_BLOCK_MS ?g ?t (guesses None history)"
    using inv assms(2) by (intro normalize_inv) (auto simp: login_inv_def global_inv_def limit_defs)
  have others: "client_inv l' key ?t (guesses (Some key) history)"
    if "dict_get (ll_clients l') key = dict_get (ll_clients ?l) key" for key l'
    using client_inv_other [OF clients assms(2) that] .
  have after: "limiter_after (a # history) = login_attempt a ?l" by (simp add: limiter_after_def)
  have c_get: "dict_get (ll_clients ?l1) ?k = Some ?c" by (simp add: dict_simps)
  have idem: "client_state ?l1 ?k ?t = ?c" "normalize ?g ?t = ?g"
    using normalize_idem by (simp_all add: client_state_def dict_simps)
  let ?allowed = "\<not> (?t < as_blockedUntil ?c \<or> ?t < as_blockedUntil ?g)"
  have asked: "assertAllowed ?k ?t ?l = (?allowed, ?l1)" by (simp add: assertAllowed_def Let_def)
  consider "\<not> ?allowed" | "?allowed" "at_correct a" | "?allowed" "\<not> at_correct a" by blast
  then show ?thesis
  proof cases
    case 1
    then have "limiter_after (a # history) = ?l1" "guesses who (a # history) = guesses who history" for who
      by (auto simp: after login_attempt_def asked)
    moreover have "client_inv ?l1 key ?t (guesses (Some key) history)" for key
      using client_invI [OF c_get c] others [of ?l1 key] by (cases "key = ?k") (simp_all add: dict_simps)
    ultimately show ?thesis using ok g by (simp add: login_inv_def global_inv_def dict_simps)
  next
    case 2
    let ?l2 = "recordSuccess ?k ?t ?l1"
    have "limiter_after (a # history) = ?l2" using 2 by (simp add: after login_attempt_def asked)
    moreover have "guesses None (a # history) = []" "guesses (Some key) (a # history) =
        (if key = ?k then [] else guesses (Some key) history)" for key
      using 2 by (auto simp: asked concerns_def)
    moreover have "client_inv ?l2 key ?t (if key = ?k then [] else guesses (Some key) history)" for key
      using client_inv_absent [of ?l2 ?k] others [of ?l2 key]
      by (cases "key = ?k") (simp_all add: recordSuccess_def dict_simps)
    moreover have "dict_ok (ll_clients ?l2)" "global_inv ?l2 ?t []"
      using ok by (simp_all add: recordSuccess_def dict_simps global_inv_def window_inv_new limit_defs)
    ultimately show ?thesis by (simp add: login_inv_def)
  next
    case 3
    let ?ci = "increment ?c CLIENT_FAILURE_LIMIT CLIENT_BLOCK_MS ?t"
    let ?gi = "increment ?g GLOBAL_FAILURE_LIMIT GLOBAL_BLOCK_MS ?t"
    let ?l2 = "\<lparr> ll_clients = dict_set ?k ?ci (ll_clients ?l1), ll_global = ?gi \<rparr>"
    have l2: "limiter_after (a # history) = prune ?t ?l2"
      using 3 by (simp add: after login_attempt_def asked recordFailure_def Let_def idem)
    have gs: "guesses None (a # history) = ?t # guesses None history"
      "guesses (Some key) (a # history) =
        (if key = ?k then ?t # guesses (Some key) history else guesses (Some key) history)" for key
      using 3 by (auto simp: asked concerns_def)
    have "as_failures ?c < CLIENT_FAILURE_LIMIT"
      using 3(1) c unfolding client_state_def by (intro allowed_not_full) (auto simp: limit_defs)
    then have ci: "window_inv CLIENT_FAILURE_LIMIT CLIENT_BLOCK_MS ?ci ?t (?t # guesses (Some ?k) history)"
      by (rule increment_inv [OF c])
    have "as_failures ?g < GLOBAL_FAILURE_LIMIT"
      using 3(1) g by (intro allowed_not_full) (auto simp: limit_defs)
    then have gi: "window_inv GLOBAL_FAILURE_LIMIT GLOBAL_BLOCK_MS ?gi ?t (?t # guesses None history)"
      by (rule increment_inv [OF g])
    have ok2: "dict_ok (ll_clients ?l2)" using ok by (simp add: dict_simps)
    have "client_inv ?l2 key ?t (guesses (Some key) (a # history))" for key
      using client_invI [OF _ ci, of ?l2 ?k] others [of ?l2 key] unfolding gs
      by (cases "key = ?k") (simp_all add: dict_simps)
    then have "client_inv (prune ?t ?l2) key ?t (guesses (Some key) (a # history))" for key
      using prune_client [OF _ ok2] unfolding client_inv_def by simp
    then show ?thesis using prune_ok [OF ok2] gi unfolding l2 login_inv_def global_inv_def gs by simp
  qed
qed

lemma login_inv_later:
  assumes "login_inv l history now" and "now \<le> later"
  shows "login_inv l history later"
proof -
  have "client_inv l key later ts" if "client_inv l key now ts" for key ts
    using client_inv_other [OF that assms(2) refl] .
  moreover have "global_inv l later ts" if "global_inv l now ts" for ts
    using that window_inv_later [OF _ assms(2)] by (simp add: global_inv_def)
  ultimately show ?thesis using assms(1) by (simp add: login_inv_def)
qed

lemma history_inv: "clock_ok history now \<Longrightarrow> login_inv (limiter_after history) history now"
proof (induction history arbitrary: now)
  case Nil
  have "window_inv GLOBAL_FAILURE_LIMIT GLOBAL_BLOCK_MS (emptyState 0) now []"
    using Nil window_inv_later [OF window_inv_new] by (simp add: limit_defs)
  then show ?case
    by (simp add: limiter_after_def new_login_limiter_def login_inv_def global_inv_def client_inv_absent
        dict_simps)
next
  case (Cons a history)
  then have "login_inv (limiter_after history) history (at_time a)" by simp
  from login_inv_later [OF attempt_inv [OF this order_refl]] show ?case using Cons.prems by simp
qed

section \<open>Blocks end\<close>

definition blocks_end :: "login_limiter \<Rightarrow> int \<Rightarrow> bool" where
  "blocks_end l t \<longleftrightarrow> as_blockedUntil (ll_global l) \<le> t \<and> (\<forall>(key, s)\<in>set (ll_clients l). as_blockedUntil s \<le> t)"

lemma normalize_blocked: "0 \<le> t \<Longrightarrow> as_blockedUntil s \<le> t \<Longrightarrow> as_blockedUntil (normalize s u) \<le> t"
  by (simp add: normalize_def emptyState_def)

lemma client_state_blocked: "0 \<le> t \<Longrightarrow> blocks_end l t \<Longrightarrow> as_blockedUntil (client_state l key u) \<le> t"
proof (cases "dict_get (ll_clients l) key")
  case None
  then show "0 \<le> t \<Longrightarrow> ?thesis" by (simp add: client_state_def) (simp add: emptyState_def)
next
  case (Some s)
  assume "0 \<le> t" "blocks_end l t"
  then have "as_blockedUntil s \<le> t" using dict_get_in [OF Some] by (auto simp: blocks_end_def)
  with \<open>0 \<le> t\<close> Some show ?thesis by (simp add: client_state_def normalize_blocked)
qed

lemma blocks_end_set:
  "blocks_end l t \<Longrightarrow> as_blockedUntil c \<le> t \<Longrightarrow> as_blockedUntil g \<le> t \<Longrightarrow>
     blocks_end \<lparr> ll_clients = dict_set key c (ll_clients l), ll_global = g \<rparr> t"
  using set_dict_set [of key c "ll_clients l"] by (fastforce simp: blocks_end_def)

lemma attempt_blocked:
  assumes "blocks_end l (now + GLOBAL_BLOCK_MS)" and "0 \<le> now" and "now \<le> at_time a"
  shows "blocks_end (login_attempt a l) (at_time a + GLOBAL_BLOCK_MS)"
proof -
  let ?t = "at_time a + GLOBAL_BLOCK_MS"
  have t: "0 \<le> ?t" "0 \<le> at_time a" using assms(2,3) by (simp_all add: limit_defs)
  have l: "blocks_end l ?t" using assms(1,3) by (fastforce simp: blocks_end_def)
  then have g: "as_blockedUntil (ll_global l) \<le> ?t" by (simp add: blocks_end_def)
  have asked: "blocks_end (snd (assertAllowed key u l)) ?t" for key u
    unfolding assertAllowed_def Let_def snd_conv
    by (intro blocks_end_set [OF l] client_state_blocked normalize_blocked t l g)
  let ?l1 = "snd (assertAllowed (at_key a) (at_time a) l)"
  have inc: "as_blockedUntil (increment s limit block (at_time a)) \<le> ?t"
    if "as_blockedUntil s \<le> ?t" "block \<le> GLOBAL_BLOCK_MS" for s limit block
    using that by (simp add: increment_def Let_def)
  have g1: "as_blockedUntil (ll_global ?l1) \<le> ?t" using asked by (simp add: blocks_end_def)
  have "blocks_end (recordFailure (at_key a) (at_time a) ?l1) ?t"
  proof -
    let ?l2 = "\<lparr> ll_clients = dict_set (at_key a) (increment (client_state ?l1 (at_key a) (at_time a))
        CLIENT_FAILURE_LIMIT CLIENT_BLOCK_MS (at_time a)) (ll_clients ?l1),
      ll_global = increment (normalize (ll_global ?l1) (at_time a)) GLOBAL_FAILURE_LIMIT GLOBAL_BLOCK_MS (at_time a) \<rparr>"
    have "blocks_end ?l2 ?t"
      by (intro blocks_end_set asked inc client_state_blocked normalize_blocked t g1) (simp_all add: limit_defs)
    then show ?thesis by (auto simp: recordFailure_def Let_def prune_def blocks_end_def)
  qed
  moreover have "blocks_end (recordSuccess (at_key a) (at_time a) ?l1) ?t"
    using asked [of "at_key a" "at_time a"] t(1)
    by (auto simp: recordSuccess_def blocks_end_def emptyState_def dict_delete_def)
  ultimately show ?thesis using asked by (simp add: login_attempt_def case_prod_beta)
qed

lemma history_blocked: "clock_ok history now \<Longrightarrow> blocks_end (limiter_after history) (now + GLOBAL_BLOCK_MS) \<and> 0 \<le> now"
proof (induction history arbitrary: now)
  case Nil
  then show ?case by (simp add: limiter_after_def new_login_limiter_def blocks_end_def emptyState_def limit_defs)
next
  case (Cons a history)
  then have "blocks_end (limiter_after history) (at_time a + GLOBAL_BLOCK_MS)" "0 \<le> at_time a" by auto
  from attempt_blocked [OF this order_refl] this(2) Cons.prems show ?case
    by (fastforce simp: limiter_after_def blocks_end_def)
qed

section \<open>Property\<close>


definition sample_guess :: "int \<Rightarrow> attempt" where
  "sample_guess t = \<lparr> at_key = ''socket:a'', at_time = t, at_correct = False \<rparr>"

definition sample_limiter :: "int \<Rightarrow> int \<Rightarrow> login_limiter" where
  "sample_limiter n blocked =
     \<lparr> ll_clients = [(''socket:a'', \<lparr> as_failures = n, as_windowStartedAt = 1, as_blockedUntil = blocked \<rparr>)],
       ll_global = \<lparr> as_failures = n, as_windowStartedAt = 0, as_blockedUntil = 0 \<rparr> \<rparr>"

lemmas sample_login_defs = login_attempt_def assertAllowed_def client_state_def recordFailure_def prune_def
  increment_def normalize_def emptyState_def dict_get_def Let_def limit_defs

lemma sample_first: "limiter_after [sample_guess 1] = sample_limiter 1 0"
  by (simp add: limiter_after_def new_login_limiter_def sample_guess_def sample_limiter_def sample_login_defs)

lemma sample_next:
  assumes "limiter_after h = sample_limiter n 0" and "1 \<le> n" and "n \<le> 4" and "1 \<le> t" and "t < 100"
  shows "limiter_after (sample_guess t # h) = sample_limiter (n + 1) (if n = 4 then t + 900000 else 0)"
    and "guesses (Some ''socket:a'') (sample_guess t # h) = t # guesses (Some ''socket:a'') h"
proof -
  have l: "limiter_after (sample_guess t # h) = login_attempt (sample_guess t) (sample_limiter n 0)"
    using assms(1) by (simp add: limiter_after_def)
  show "limiter_after (sample_guess t # h) = sample_limiter (n + 1) (if n = 4 then t + 900000 else 0)"
    using assms(2-) unfolding l by (simp add: sample_guess_def sample_limiter_def sample_login_defs)
  show "guesses (Some ''socket:a'') (sample_guess t # h) = t # guesses (Some ''socket:a'') h"
    using assms(4,5) unfolding guesses.simps assms(1)
    by (simp add: sample_guess_def sample_limiter_def sample_login_defs concerns_def)
qed

definition sample_history :: "attempt list" where
  "sample_history = map sample_guess [50, 40, 30, 20, 1]"

lemma sample_history_guesses:
  "limiter_after sample_history = sample_limiter 5 900050"
  "guesses (Some ''socket:a'') sample_history = [50, 40, 30, 20, 1]"
proof -
  have s2: "limiter_after [sample_guess 20, sample_guess 1] = sample_limiter 2 0"
    using sample_next(1) [OF sample_first, of 20] by simp
  have s3: "limiter_after [sample_guess 30, sample_guess 20, sample_guess 1] = sample_limiter 3 0"
    using sample_next(1) [OF s2, of 30] by simp
  have s4: "limiter_after [sample_guess 40, sample_guess 30, sample_guess 20, sample_guess 1] = sample_limiter 4 0"
    using sample_next(1) [OF s3, of 40] by simp
  note gs = sample_next(2) [OF sample_first, of 20] sample_next(2) [OF s2, of 30] sample_next(2) [OF s3, of 40]
    sample_next(2) [OF s4, of 50] sample_next(1) [OF s4, of 50]
  have "guesses (Some ''socket:a'') [sample_guess 1] = [1]"
    by (simp add: limiter_after_def new_login_limiter_def sample_guess_def sample_login_defs concerns_def)
  with gs show "limiter_after sample_history = sample_limiter 5 900050"
    "guesses (Some ''socket:a'') sample_history = [50, 40, 30, 20, 1]"
    by (simp_all add: sample_history_def del: guesses.simps)
qed


text \<open>
  Logins that overlap: the check of the limit comes before the password is hashed and the failure
  is recorded after, so any number of logins that begin before the first outcome are let through.
\<close>

lemma overlapping_logins_pass:
  "fst (assertAllowed key 0 (((\<lambda>l. snd (assertAllowed key 0 l)) ^^ n) new_login_limiter))"
proof -
  have "(((\<lambda>l. snd (assertAllowed key 0 l)) ^^ n) new_login_limiter) \<in>
      {new_login_limiter, \<lparr> ll_clients = [(key, emptyState 0)], ll_global = emptyState 0 \<rparr>}"
    by (induction n)
      (auto simp: assertAllowed_def new_login_limiter_def client_state_def dict_get_def Let_def)
  then show ?thesis
    by (auto simp: assertAllowed_def new_login_limiter_def client_state_def dict_get_def Let_def emptyState_def
        normalize_def WINDOW_MS_def)
qed

end
