(* ===== verification/Admin_Session.thy ===== *)
theory Admin_Session
  imports Admin_Login Place_Token Api_Error Js_Date Js_Parse
begin

text \<open>
  Sessions of the dashboard, \<^verbatim>\<open>src/src/admin/auth/admin-session.service.ts\<close> and its guards,
  the file of credentials it is configured by
  (\<^verbatim>\<open>src/src/admin/auth/admin-auth-config.service.ts\<close>) and the answers of the session
  controller. The table \<^verbatim>\<open>admin_sessions\<close> is a dictionary by its primary key with the checks of its
  migration. Moments are whole milliseconds, HMAC and scrypt are parameters, and so are the random
  bytes of a login. A handler runs without interruption. The abstract specification is the history:
  \<open>session_of\<close> says which session a token hash stands for.
\<close>

section \<open>Credentials\<close>

record password_verifier =
  pw_cost :: int
  pw_blockSize :: int
  pw_parallelization :: int
  pw_salt :: "byte list"
  pw_digest :: "byte list"

definition decodeBase64Url :: "string \<Rightarrow> string \<Rightarrow> (string, byte list) result" where
  "decodeBase64Url v label =
     (if v = [] \<or> \<not> list_all is_id_char v then Inl (label @ '' is not canonical base64url'')
      else let decoded = base64url_buffer v in
        if b64url_encode decoded \<noteq> v then Inl (label @ '' is not canonical base64url'') else Inr decoded)"

definition is_key_char :: "char \<Rightarrow> bool" where
  "is_key_char c = (is_upper c \<or> c = CHR ''_'')"

definition admin_key :: "string \<Rightarrow> bool" where
  "admin_key key = (starts_with key ''ADMIN_'' \<and> 6 < length key \<and> list_all is_key_char (drop 6 key))"

text \<open>The lines of the file; a carriage return before the line feed belongs to the separator.\<close>

definition env_lines :: "string \<Rightarrow> string list" where
  "env_lines contents =
     (let ls = split_on (CHR 0x0A) contents in
      map (\<lambda>l. if l \<noteq> [] \<and> last l = CHR 0x0D then butlast l else l) (butlast ls) @ [last ls])"

fun parse_env_lines :: "(string, string) dict \<Rightarrow> string list \<Rightarrow> (string, (string, string) dict) result" where
  "parse_env_lines acc [] = Inr acc"
| "parse_env_lines acc (rawLine # ls) =
     (let line = js_trim rawLine in
      if line = [] \<or> hd line = CHR ''#'' then parse_env_lines acc ls
      else let key = takeWhile (\<lambda>c. c \<noteq> CHR ''='') line; v = drop (length key + 1) line in
        if length key = length line \<or> key = [] then Inl ''ADMIN_AUTH_FILE contains a malformed line''
        else if \<not> admin_key key \<or> v = [] \<or> dict_get acc key \<noteq> None
        then Inl ''ADMIN_AUTH_FILE contains invalid or duplicate configuration''
        else parse_env_lines (dict_set key v acc) ls)"

definition parseEnvironmentFile :: "string \<Rightarrow> (string, (string, string) dict) result" where
  "parseEnvironmentFile contents =
     res_bind (parse_env_lines [] (env_lines contents)) (\<lambda>values.
       if \<not> list_all (\<lambda>key. key \<in> {''ADMIN_USERNAME'', ''ADMIN_PASSWORD_VERIFIER'', ''ADMIN_SESSION_SECRET''})
            (dict_keys values)
       then Inl ''ADMIN_AUTH_FILE contains an unsupported setting'' else Inr values)"

definition required_value :: "(string, string) dict \<Rightarrow> string \<Rightarrow> (string, string) result" where
  "required_value values key =
     (case dict_get values key of None \<Rightarrow> Inl (''ADMIN_AUTH_FILE is missing '' @ key) | Some v \<Rightarrow> Inr v)"

definition parsePasswordVerifier :: "string \<Rightarrow> (string, password_verifier) result" where
  "parsePasswordVerifier v =
     (let fields = split_on (CHR ''$'') v in
      if length fields \<noteq> 6 \<or> fields ! 0 \<noteq> ''scrypt''
      then Inl ''ADMIN_PASSWORD_VERIFIER has an unsupported format''
      else if \<not> js_eq (number_of_string (fields ! 1)) (Fin 32768) \<or> \<not> js_eq (number_of_string (fields ! 2)) (Fin 8) \<or>
         \<not> js_eq (number_of_string (fields ! 3)) (Fin 1)
      then Inl ''ADMIN_PASSWORD_VERIFIER uses unsupported scrypt parameters''
      else res_bind (decodeBase64Url (fields ! 4) ''password verifier salt'') (\<lambda>salt.
        res_bind (decodeBase64Url (fields ! 5) ''password verifier digest'') (\<lambda>digest.
          if length salt \<noteq> 16 \<or> length digest \<noteq> 32
          then Inl ''ADMIN_PASSWORD_VERIFIER has invalid component lengths''
          else Inr \<lparr> pw_cost = 32768, pw_blockSize = 8, pw_parallelization = 1, pw_salt = salt,
            pw_digest = digest \<rparr>)))"

record auth_config =
  au_enabled :: bool
  au_username :: string
  au_passwordVerifier :: "password_verifier option"
  au_sessionSecret :: "byte list option"
  au_idleMinutes :: int
  au_absoluteMinutes :: int

text \<open>What \<open>statSync\<close> and \<open>readFileSync\<close> say of the file: regular or not, mode bits, size, contents.\<close>

record auth_file =
  af_isFile :: bool
  af_mode :: int
  af_size :: int
  af_contents :: string

unbundle bit_operations_syntax

definition auth_config :: "bool \<Rightarrow> int \<Rightarrow> int \<Rightarrow> auth_file \<Rightarrow> (string, auth_config) result" where
  "auth_config enabled idleMinutes absoluteMinutes file =
     (let disabled = \<lparr> au_enabled = enabled, au_username = ''admin'', au_passwordVerifier = None,
            au_sessionSecret = None, au_idleMinutes = idleMinutes, au_absoluteMinutes = absoluteMinutes \<rparr> in
      if \<not> enabled then Inr disabled
      else if \<not> af_isFile file \<or> af_mode file AND 63 \<noteq> 0 \<or> 4096 < af_size file
      then Inl ''ADMIN_AUTH_FILE must be a private regular file no larger than 4096 bytes''
      else res_bind (parseEnvironmentFile (af_contents file)) (\<lambda>values.
        if dict_get values ''ADMIN_USERNAME'' \<noteq> Some ''admin''
        then Inl ''ADMIN_AUTH_FILE must configure the fixed username admin''
        else res_bind (required_value values ''ADMIN_PASSWORD_VERIFIER'') (\<lambda>v.
          res_bind (parsePasswordVerifier v) (\<lambda>verifier.
          res_bind (required_value values ''ADMIN_SESSION_SECRET'') (\<lambda>s.
          res_bind (decodeBase64Url s ''ADMIN_SESSION_SECRET'') (\<lambda>secret.
            if length secret \<noteq> 32 then Inl ''ADMIN_SESSION_SECRET must decode to exactly 32 bytes''
            else Inr (disabled\<lparr>au_passwordVerifier := Some verifier, au_sessionSecret := Some secret\<rparr>)))))))"

section \<open>Hashes and requests\<close>

record session_crypto =
  cr_hmac :: "byte list \<Rightarrow> byte list \<Rightarrow> byte list"
  cr_scrypt :: "string \<Rightarrow> password_verifier \<Rightarrow> (unit, byte list) result"
  cr_isIP :: "string \<Rightarrow> bool"

definition keyedHash :: "session_crypto \<Rightarrow> byte list \<Rightarrow> string \<Rightarrow> string \<Rightarrow> byte list" where
  "keyedHash E secret domain v = cr_hmac E secret (utf8_encode domain @ [0] @ utf8_encode v)"

definition config_secret :: "auth_config \<Rightarrow> byte list" where
  "config_secret C = (case au_sessionSecret C of None \<Rightarrow> [] | Some s \<Rightarrow> s)"

definition tokenHash :: "session_crypto \<Rightarrow> auth_config \<Rightarrow> string \<Rightarrow> byte list" where
  "tokenHash E C token = keyedHash E (config_secret C) ''session'' token"

definition deriveCsrf :: "session_crypto \<Rightarrow> auth_config \<Rightarrow> string \<Rightarrow> string" where
  "deriveCsrf E C token = b64url_encode (keyedHash E (config_secret C) ''csrf-token'' token)"

definition csrfHash :: "session_crypto \<Rightarrow> auth_config \<Rightarrow> string \<Rightarrow> byte list" where
  "csrfHash E C token = keyedHash E (config_secret C) ''csrf-verifier'' token"

definition constantTimeStringEqual :: "session_crypto \<Rightarrow> string \<Rightarrow> string \<Rightarrow> bool" where
  "constantTimeStringEqual E candidate expected =
     (let key = utf8_encode ''gathra-admin-username'' in
      cr_hmac E key (utf8_encode candidate) = cr_hmac E key (utf8_encode expected))"

definition ADMIN_SESSION_COOKIE :: string where "ADMIN_SESSION_COOKIE = ''gathra_admin_session''"

fun find_cookie :: "string \<Rightarrow> string list \<Rightarrow> string option" where
  "find_cookie name [] = None"
| "find_cookie name (item # items) =
     (let key = takeWhile (\<lambda>c. c \<noteq> CHR ''='') item in
      if length key = length item \<or> key = [] then find_cookie name items
      else if js_trim key = name then Some (js_trim (drop (length key + 1) item))
      else find_cookie name items)"

definition readCookie :: "string option \<Rightarrow> string \<Rightarrow> string option" where
  "readCookie header name =
     (case header of
        None \<Rightarrow> None
      | Some h \<Rightarrow> if 8192 < length h then None else find_cookie name (split_on (CHR '';'') h))"

definition trustedClientKey :: "session_crypto \<Rightarrow> string option \<Rightarrow> string option \<Rightarrow> string" where
  "trustedClientKey E remoteAddress cloudflare =
     (let remote = (case remoteAddress of None \<Rightarrow> ''unknown'' | Some r \<Rightarrow> r);
          isLoopback = (remote = ''127.0.0.1'' \<or> remote = ''::1'' \<or> remote = ''::ffff:127.0.0.1'') in
      case cloudflare of
        Some c \<Rightarrow> if isLoopback \<and> cr_isIP E c then ''cf:'' @ c else ''socket:'' @ take 80 remote
      | None \<Rightarrow> ''socket:'' @ take 80 remote)"

section \<open>Sessions\<close>

record session_row =
  sr_csrf_token_hash :: "byte list"
  sr_created_at :: int
  sr_last_seen_at :: int
  sr_expires_at :: int

type_synonym session_table = "(byte list, session_row) dict"

record session_context =
  sx_tokenHash :: "byte list"
  sx_csrfToken :: string
  sx_createdAt :: int
  sx_lastSeenAt :: int
  sx_expiresAt :: int

datatype session_error =
    Resource_Not_Found | Too_Many_Requests | Invalid_Credentials | Authentication_Required | Csrf_Failed
  | Scrypt_Failed | Session_Store_Failed

record session_state =
  ss_limiter :: login_limiter
  ss_table :: session_table

definition session_row_ok :: "byte list \<Rightarrow> session_row \<Rightarrow> bool" where
  "session_row_ok h r = (length h = 32 \<and> length (sr_csrf_token_hash r) = 32 \<and>
     sr_created_at r \<le> sr_last_seen_at r \<and> sr_last_seen_at r \<le> sr_expires_at r)"

text \<open>A login gives the raw token with the context.\<close>

definition login ::
  "session_crypto \<Rightarrow> auth_config \<Rightarrow> string \<Rightarrow> string \<Rightarrow> string \<Rightarrow> byte list \<Rightarrow> int \<Rightarrow> session_state \<Rightarrow>
   (session_error, string \<times> session_context) result \<times> session_state" where
  "login E C username password clientKey random now s =
     (if \<not> au_enabled C then (Inl Resource_Not_Found, s)
      else let (allowed, l) = assertAllowed clientKey now (ss_limiter s); s1 = s\<lparr>ss_limiter := l\<rparr> in
        if \<not> allowed then (Inl Too_Many_Requests, s1)
        else case au_passwordVerifier C of
          None \<Rightarrow> (Inl Scrypt_Failed, s1)
        | Some verifier \<Rightarrow>
          (case cr_scrypt E password verifier of
             Inl _ \<Rightarrow> (Inl Scrypt_Failed, s1)
           | Inr candidate \<Rightarrow>
             if candidate \<noteq> pw_digest verifier \<or> \<not> constantTimeStringEqual E username (au_username C)
             then (Inl Invalid_Credentials, s1\<lparr>ss_limiter := recordFailure clientKey now l\<rparr>)
             else
               let s2 = s1\<lparr>ss_limiter := recordSuccess clientKey now l\<rparr>;
                   token = b64url_encode random;
                   h = tokenHash E C token;
                   csrfToken = deriveCsrf E C token;
                   expiresAt = now + au_absoluteMinutes C * 60000;
                   row = \<lparr> sr_csrf_token_hash = csrfHash E C csrfToken, sr_created_at = now,
                     sr_last_seen_at = now, sr_expires_at = expiresAt \<rparr> in
               if dict_get (ss_table s2) h \<noteq> None \<or> \<not> session_row_ok h row then (Inl Session_Store_Failed, s2)
               else (Inr (token, \<lparr> sx_tokenHash = h, sx_csrfToken = csrfToken, sx_createdAt = now,
                   sx_lastSeenAt = now, sx_expiresAt = expiresAt \<rparr>),
                 s2\<lparr>ss_table := dict_set h row (ss_table s2)\<rparr>)))"

definition session_token :: "string option \<Rightarrow> string option" where
  "session_token cookieHeader =
     (case readCookie cookieHeader ADMIN_SESSION_COOKIE of
        None \<Rightarrow> None
      | Some t \<Rightarrow> if length t = 43 \<and> list_all is_id_char t then Some t else None)"

definition authenticate ::
  "session_crypto \<Rightarrow> auth_config \<Rightarrow> string option \<Rightarrow> int \<Rightarrow> session_state \<Rightarrow>
   (session_error, session_context) result \<times> session_state" where
  "authenticate E C cookieHeader now s =
     (if \<not> au_enabled C then (Inl Resource_Not_Found, s)
      else case session_token cookieHeader of
        None \<Rightarrow> (Inl Authentication_Required, s)
      | Some rawToken \<Rightarrow>
        let h = tokenHash E C rawToken in
        (case dict_get (ss_table s) h of
           None \<Rightarrow> (Inl Authentication_Required, s)
         | Some row \<Rightarrow>
           let idleDeadline = sr_last_seen_at row + au_idleMinutes C * 60000;
               deleted = s\<lparr>ss_table := dict_delete h (ss_table s)\<rparr>;
               csrfToken = deriveCsrf E C rawToken in
           if sr_expires_at row \<le> now \<or> idleDeadline \<le> now then (Inl Authentication_Required, deleted)
           else if csrfHash E C csrfToken \<noteq> sr_csrf_token_hash row then (Inl Authentication_Required, deleted)
           else (Inr \<lparr> sx_tokenHash = h, sx_csrfToken = csrfToken, sx_createdAt = sr_created_at row,
                   sx_lastSeenAt = now, sx_expiresAt = sr_expires_at row \<rparr>,
                 if 60000 \<le> now - sr_last_seen_at row
                 then s\<lparr>ss_table := dict_set h (row\<lparr>sr_last_seen_at := now\<rparr>) (ss_table s)\<rparr> else s)))"

text \<open>A header that is absent or repeated is not a string.\<close>

definition verifyCsrf :: "session_context \<Rightarrow> string option \<Rightarrow> (session_error, unit) result" where
  "verifyCsrf context candidate =
     (case candidate of
        None \<Rightarrow> Inl Csrf_Failed
      | Some c \<Rightarrow> if length c \<noteq> length (sx_csrfToken context) \<or> utf8_encode c \<noteq> utf8_encode (sx_csrfToken context)
          then Inl Csrf_Failed else Inr ())"

definition logout :: "byte list \<Rightarrow> session_state \<Rightarrow> session_state" where
  "logout h s = s\<lparr>ss_table := dict_delete h (ss_table s)\<rparr>"

definition cleanupExpired :: "auth_config \<Rightarrow> int \<Rightarrow> session_state \<Rightarrow> int \<times> session_state" where
  "cleanupExpired C now s =
     (let kept = filter (\<lambda>(h, r). \<not> (sr_expires_at r \<le> now \<or>
            sr_last_seen_at r \<le> now - au_idleMinutes C * 60000)) (ss_table s) in
      (int (length (ss_table s)) - int (length kept), s\<lparr>ss_table := kept\<rparr>))"

text \<open>The guards, and what the controller answers.\<close>

definition session_guard ::
  "session_crypto \<Rightarrow> auth_config \<Rightarrow> string option \<Rightarrow> int \<Rightarrow> session_state \<Rightarrow>
   (session_error, session_context option) result \<times> session_state" where
  "session_guard E C cookieHeader now s =
     (case authenticate E C cookieHeader now s of
        (Inl e, s1) \<Rightarrow> (Inl e, s1) | (Inr context, s1) \<Rightarrow> (Inr (Some context), s1))"

definition csrf_guard :: "session_context option \<Rightarrow> string option \<Rightarrow> (session_error, bool) result" where
  "csrf_guard session header =
     (case session of None \<Rightarrow> Inr False
      | Some context \<Rightarrow> res_bind (verifyCsrf context header) (\<lambda>_. Inr True))"

record session_answer =
  sa_authenticated :: bool
  sa_username :: string
  sa_csrfToken :: string
  sa_createdAt :: "string option"
  sa_lastSeenAt :: "string option"
  sa_expiresAt :: "string option"
  sa_idleTimeoutMinutes :: int
  sa_timeZone :: string

definition sessionResponse :: "auth_config \<Rightarrow> session_context \<Rightarrow> session_answer" where
  "sessionResponse C session = \<lparr>
     sa_authenticated = True, sa_username = ''admin'', sa_csrfToken = sx_csrfToken session,
     sa_createdAt = toISOString (Date (sx_createdAt session)),
     sa_lastSeenAt = toISOString (Date (sx_lastSeenAt session)),
     sa_expiresAt = toISOString (Date (sx_expiresAt session)),
     sa_idleTimeoutMinutes = au_idleMinutes C, sa_timeZone = ''Asia/Jakarta'' \<rparr>"

section \<open>Histories\<close>

datatype session_op =
    Login string string string "byte list" int
  | Authenticate "string option" int
  | Logout "byte list"
  | Cleanup int

definition no_sessions :: session_state where
  "no_sessions = \<lparr> ss_limiter = new_login_limiter, ss_table = [] \<rparr>"

fun session_step :: "session_crypto \<Rightarrow> auth_config \<Rightarrow> session_op \<Rightarrow> session_state \<Rightarrow> session_state" where
  "session_step E C (Login username password key random now) s = snd (login E C username password key random now s)"
| "session_step E C (Authenticate cookie now) s = snd (authenticate E C cookie now s)"
| "session_step E C (Logout h) s = logout h s"
| "session_step E C (Cleanup now) s = snd (cleanupExpired C now s)"

text \<open>The newest operation comes first.\<close>

definition sessions_after :: "session_crypto \<Rightarrow> auth_config \<Rightarrow> session_op list \<Rightarrow> session_state" where
  "sessions_after E C history = foldr (session_step E C) history no_sessions"

fun session_clock :: "session_op list \<Rightarrow> int \<Rightarrow> bool" where
  "session_clock [] now = True"
| "session_clock (Login username password key random t # h) now = (t \<le> now \<and> session_clock h t)"
| "session_clock (Authenticate cookie t # h) now = (t \<le> now \<and> session_clock h t)"
| "session_clock (Logout k # h) now = session_clock h now"
| "session_clock (Cleanup t # h) now = (t \<le> now \<and> session_clock h t)"

text \<open>
  The session that a token hash stands for: when it was created by a successful login, and when it
  was last used with success; a failed use and a logout end it.
\<close>

fun session_of :: "session_crypto \<Rightarrow> auth_config \<Rightarrow> byte list \<Rightarrow> session_op list \<Rightarrow> (int \<times> int) option" where
  "session_of E C k [] = None"
| "session_of E C k (Login username password key random now # history) =
     (case fst (login E C username password key random now (sessions_after E C history)) of
        Inr (token, context) \<Rightarrow> if sx_tokenHash context = k then Some (now, now) else session_of E C k history
      | Inl _ \<Rightarrow> session_of E C k history)"
| "session_of E C k (Authenticate cookie now # history) =
     (if map_option (tokenHash E C) (session_token cookie) \<noteq> Some k then session_of E C k history
      else case fst (authenticate E C cookie now (sessions_after E C history)) of
        Inr context \<Rightarrow> map_option (\<lambda>(created, used). (created, now)) (session_of E C k history)
      | Inl e \<Rightarrow> if au_enabled C then None else session_of E C k history)"
| "session_of E C k (Logout h # history) = (if h = k then None else session_of E C k history)"
| "session_of E C k (Cleanup now # history) = session_of E C k history"

text \<open>The tokens that were issued or presented.\<close>

fun session_tokens :: "session_op list \<Rightarrow> string set" where
  "session_tokens [] = {}"
| "session_tokens (Login username password key random t # h) = insert (b64url_encode random) (session_tokens h)"
| "session_tokens (Authenticate cookie t # h) = set_option (session_token cookie) \<union> session_tokens h"
| "session_tokens (op # h) = session_tokens h"

text \<open>The hashes have 256 bits, and no two of the given tokens have the same.\<close>

definition crypto_ok :: "session_crypto \<Rightarrow> auth_config \<Rightarrow> string set \<Rightarrow> bool" where
  "crypto_ok E C T \<longleftrightarrow>
     (\<forall>key message. length (cr_hmac E key message) = 32) \<and> inj_on (tokenHash E C) T \<and> 0 \<le> au_absoluteMinutes C"

text \<open>A row agrees with its session: its last use is recorded to the minute.\<close>

definition row_agrees :: "session_crypto \<Rightarrow> auth_config \<Rightarrow> string set \<Rightarrow> byte list \<Rightarrow> session_row \<Rightarrow> int \<times> int \<Rightarrow> bool" where
  "row_agrees E C T h r session \<longleftrightarrow>
     (\<exists>token\<in>T. h = tokenHash E C token \<and> sr_csrf_token_hash r = csrfHash E C (deriveCsrf E C token)) \<and>
     sr_created_at r = fst session \<and> sr_expires_at r = fst session + au_absoluteMinutes C * 60000 \<and>
     sr_last_seen_at r \<le> snd session \<and> snd session < sr_last_seen_at r + 60000"

definition ended :: "auth_config \<Rightarrow> int \<times> int \<Rightarrow> int \<Rightarrow> bool" where
  "ended C session now \<longleftrightarrow>
     fst session + au_absoluteMinutes C * 60000 \<le> now \<or> snd session + au_idleMinutes C * 60000 < now + 60000"

fun entry_ok :: "session_crypto \<Rightarrow> auth_config \<Rightarrow> string set \<Rightarrow> byte list \<Rightarrow> int \<Rightarrow> session_row option \<Rightarrow> (int \<times> int) option \<Rightarrow> bool" where
  "entry_ok E C T h now None None = True"
| "entry_ok E C T h now None (Some session) = ended C session now"
| "entry_ok E C T h now (Some r) None = False"
| "entry_ok E C T h now (Some r) (Some session) = (row_agrees E C T h r session \<and> snd session \<le> now)"

definition session_inv :: "session_crypto \<Rightarrow> auth_config \<Rightarrow> string set \<Rightarrow> session_op list \<Rightarrow> int \<Rightarrow> bool" where
  "session_inv E C T history now \<longleftrightarrow>
     (let table = ss_table (sessions_after E C history) in
      dict_ok table \<and> (\<forall>h. entry_ok E C T h now (dict_get table h) (session_of E C h history)))"

lemma session_invD:
  assumes "session_inv E C T history now"
  shows "dict_ok (ss_table (sessions_after E C history))"
    and "entry_ok E C T h now (dict_get (ss_table (sessions_after E C history)) h) (session_of E C h history)"
  using assms by (auto simp: session_inv_def Let_def)

lemma entry_ok_later: "entry_ok E C T h now r session \<Longrightarrow> now \<le> later \<Longrightarrow> entry_ok E C T h later r session"
  by (cases r; cases session) (auto simp: ended_def)

lemma session_inv_later: "session_inv E C T history now \<Longrightarrow> now \<le> later \<Longrightarrow> session_inv E C T history later"
  using entry_ok_later by (fastforce simp: session_inv_def Let_def)

lemma sessions_after_Cons: "sessions_after E C (op # history) = session_step E C op (sessions_after E C history)"
  by (simp add: sessions_after_def)

section \<open>The operations\<close>

lemma login_Inr:
  assumes "login E C username password key random now s = (Inr (token, context), s1)"
  shows "au_enabled C" and "fst (assertAllowed key now (ss_limiter s))"
    and "\<exists>verifier. au_passwordVerifier C = Some verifier \<and> cr_scrypt E password verifier = Inr (pw_digest verifier)"
    and "constantTimeStringEqual E username (au_username C)"
    and "token = b64url_encode random" and "sx_tokenHash context = tokenHash E C token"
    and "sx_csrfToken context = deriveCsrf E C token" and "dict_get (ss_table s) (tokenHash E C token) = None"
    and "ss_table s1 = dict_set (tokenHash E C token) \<lparr> sr_csrf_token_hash = csrfHash E C (deriveCsrf E C token),
      sr_created_at = now, sr_last_seen_at = now, sr_expires_at = now + au_absoluteMinutes C * 60000 \<rparr> (ss_table s)"
  using assms by (auto simp: login_def Let_def split: if_splits option.splits sum.splits prod.splits)

lemma login_Inl: "login E C username password key random now s = (Inl e, s1) \<Longrightarrow> ss_table s1 = ss_table s"
  by (auto simp: login_def Let_def split: if_splits option.splits sum.splits prod.splits)

text \<open>An operation that touches one hash keeps the invariant of the others.\<close>

lemma inv_update:
  assumes inv: "session_inv E C T history now"
    and "dict_ok (ss_table (session_step E C op (sessions_after E C history)))"
    and "\<And>h. h \<noteq> k \<Longrightarrow> dict_get (ss_table (session_step E C op (sessions_after E C history))) h =
      dict_get (ss_table (sessions_after E C history)) h"
    and "\<And>h. h \<noteq> k \<Longrightarrow> session_of E C h (op # history) = session_of E C h history"
    and "entry_ok E C T k now (dict_get (ss_table (session_step E C op (sessions_after E C history))) k)
      (session_of E C k (op # history))"
  shows "session_inv E C T (op # history) now"
proof -
  have "entry_ok E C T h now (dict_get (ss_table (session_step E C op (sessions_after E C history))) h)
      (session_of E C h (op # history))" for h
    using assms(3-5) session_invD(2) [OF inv, of h] by (cases "h = k") auto
  with assms(2) show ?thesis by (simp add: session_inv_def sessions_after_Cons Let_def del: session_of.simps)
qed

lemma inv_unchanged:
  assumes "session_inv E C T history now"
    and "ss_table (session_step E C op (sessions_after E C history)) = ss_table (sessions_after E C history)"
    and "\<And>h. session_of E C h (op # history) = session_of E C h history"
  shows "session_inv E C T (op # history) now"
  using assms by (simp add: session_inv_def sessions_after_Cons del: session_of.simps)

lemma login_step_inv:
  assumes inv: "session_inv E C T history now" and issued: "b64url_encode random \<in> T"
  shows "session_inv E C T (Login username password key random now # history) now"
proof -
  let ?s = "sessions_after E C history"
  obtain res s1 where r: "login E C username password key random now ?s = (res, s1)" by fastforce
  show ?thesis
  proof (cases res)
    case (Inl e)
    then show ?thesis using login_Inl [of E C username password key random now ?s e s1] r
      by (intro inv_unchanged [OF inv]) auto
  next
    case (Inr p)
    obtain token cx where p: "p = (token, cx)" by fastforce
    note f = login_Inr [OF r [unfolded Inr p]]
    show ?thesis
      by (rule inv_update [OF inv, of _ "tokenHash E C token"])
        (use session_invD(1) [OF inv] f(5,6) r issued in \<open>auto simp: Inr p f(9) dict_simps row_agrees_def\<close>)
  qed
qed

lemma authenticate_cases:
  assumes "au_enabled C" and "session_token cookie = Some token" and "h = tokenHash E C token"
  shows "dict_get (ss_table s) h = None \<Longrightarrow> authenticate E C cookie now s = (Inl Authentication_Required, s)"
    and "token \<in> T \<Longrightarrow> dict_get (ss_table s) h = Some r \<Longrightarrow> row_agrees E C T h r session \<Longrightarrow> crypto_ok E C T \<Longrightarrow>
      authenticate E C cookie now s =
        (if sr_expires_at r \<le> now \<or> sr_last_seen_at r + au_idleMinutes C * 60000 \<le> now
         then (Inl Authentication_Required, s\<lparr>ss_table := dict_delete h (ss_table s)\<rparr>)
         else (Inr \<lparr> sx_tokenHash = h, sx_csrfToken = deriveCsrf E C token, sx_createdAt = fst session,
             sx_lastSeenAt = now, sx_expiresAt = sr_expires_at r \<rparr>,
           if 60000 \<le> now - sr_last_seen_at r
           then s\<lparr>ss_table := dict_set h (r\<lparr>sr_last_seen_at := now\<rparr>) (ss_table s)\<rparr> else s))"
proof -
  show "dict_get (ss_table s) h = None \<Longrightarrow> authenticate E C cookie now s = (Inl Authentication_Required, s)"
    using assms by (simp add: authenticate_def Let_def)
  assume r: "token \<in> T" "dict_get (ss_table s) h = Some r" "row_agrees E C T h r session" "crypto_ok E C T"
  then obtain token' where "token' \<in> T" "h = tokenHash E C token'" "sr_csrf_token_hash r = csrfHash E C (deriveCsrf E C token')"
    by (auto simp: row_agrees_def)
  moreover from this r(1,4) assms(3) have "token' = token" by (auto simp: crypto_ok_def dest: inj_onD)
  ultimately show "authenticate E C cookie now s =
        (if sr_expires_at r \<le> now \<or> sr_last_seen_at r + au_idleMinutes C * 60000 \<le> now
         then (Inl Authentication_Required, s\<lparr>ss_table := dict_delete h (ss_table s)\<rparr>)
         else (Inr \<lparr> sx_tokenHash = h, sx_csrfToken = deriveCsrf E C token, sx_createdAt = fst session,
             sx_lastSeenAt = now, sx_expiresAt = sr_expires_at r \<rparr>,
           if 60000 \<le> now - sr_last_seen_at r
           then s\<lparr>ss_table := dict_set h (r\<lparr>sr_last_seen_at := now\<rparr>) (ss_table s)\<rparr> else s))"
    using assms r(2,3) by (simp add: authenticate_def Let_def row_agrees_def)
qed

lemma authenticate_other:
  "\<not> au_enabled C \<or> session_token cookie = None \<Longrightarrow> \<exists>e. authenticate E C cookie now s = (Inl e, s)"
  by (auto simp: authenticate_def)

lemma authenticate_step_inv:
  assumes inv: "session_inv E C T history now" and ok: "crypto_ok E C T"
    and presented: "set_option (session_token cookie) \<subseteq> T"
  shows "session_inv E C T (Authenticate cookie now # history) now"
proof (cases "\<not> au_enabled C \<or> session_token cookie = None")
  case True
  then obtain e where "authenticate E C cookie now (sessions_after E C history) = (Inl e, sessions_after E C history)"
    using authenticate_other by blast
  with True show ?thesis by (intro inv_unchanged [OF inv]) auto
next
  case False
  then obtain token where en: "au_enabled C" and token: "session_token cookie = Some token" by auto
  let ?h = "tokenHash E C token" and ?s = "sessions_after E C history"
  note cases = authenticate_cases [where E = E and s = ?s and now = now, OF en token refl]
  note table_ok = session_invD(1) [OF inv]
  note update = inv_update [OF inv, of "Authenticate cookie now" ?h]
  show ?thesis
  proof (cases "dict_get (ss_table ?s) ?h")
    case None
    with token en table_ok show ?thesis by (intro update) (simp_all add: cases(1) [OF None])
  next
    case (Some r)
    then obtain session where se: "session_of E C ?h history = Some session" "row_agrees E C T ?h r session"
      "snd session \<le> now"
      using session_invD(2) [OF inv, of ?h] by (cases "session_of E C ?h history") auto
    have "token \<in> T" using presented token by simp
    note a = cases(2) [OF this Some se(2) ok]
    show ?thesis
    proof (cases "sr_expires_at r \<le> now \<or> sr_last_seen_at r + au_idleMinutes C * 60000 \<le> now")
      case True
      with a token en table_ok show ?thesis by (intro update) (auto simp: dict_simps)
    next
      case False
      with a have a': "authenticate E C cookie now ?s = (Inr \<lparr> sx_tokenHash = ?h, sx_csrfToken = deriveCsrf E C token,
          sx_createdAt = fst session, sx_lastSeenAt = now, sx_expiresAt = sr_expires_at r \<rparr>,
        if 60000 \<le> now - sr_last_seen_at r
        then ?s\<lparr>ss_table := dict_set ?h (r\<lparr>sr_last_seen_at := now\<rparr>) (ss_table ?s)\<rparr> else ?s)" by simp
      have "\<exists>r'. dict_get (ss_table (snd (authenticate E C cookie now ?s))) ?h = Some r' \<and>
          row_agrees E C T ?h r' (fst session, now)"
        using se Some unfolding a' by (auto simp: dict_simps row_agrees_def)
      with a' token en table_ok se show ?thesis
        by (intro update) (auto simp: dict_simps split: prod.splits)
    qed
  qed
qed

lemma logout_step_inv: "session_inv E C T history now \<Longrightarrow> session_inv E C T (Logout k # history) now"
  by (rule inv_update [where k = k]) (auto simp: logout_def dict_simps dest: session_invD(1))

lemma cleanup_step_inv:
  assumes inv: "session_inv E C T history now"
  shows "session_inv E C T (Cleanup now # history) now"
proof -
  let ?t = "ss_table (sessions_after E C history)"
  let ?keep = "\<lambda>r. \<not> (sr_expires_at r \<le> now \<or> sr_last_seen_at r \<le> now - au_idleMinutes C * 60000)"
  have ok: "dict_ok ?t" by (rule session_invD(1) [OF inv])
  have get: "dict_get (filter (\<lambda>(h, r). ?keep r) ?t) h =
      (case dict_get ?t h of None \<Rightarrow> None | Some r \<Rightarrow> if ?keep r then Some r else None)" for h
    using map_of_filter_dict [OF ok, of ?keep h] by (simp add: dict_get_def)
  have "entry_ok E C T h now (dict_get (filter (\<lambda>(h, r). ?keep r) ?t) h) (session_of E C h history)" for h
    using session_invD(2) [OF inv, of h] unfolding get
    by (cases "dict_get ?t h"; cases "session_of E C h history") (auto simp: ended_def row_agrees_def)
  then show ?thesis
    using dict_ok_filter [OF ok] by (simp add: session_inv_def sessions_after_Cons cleanupExpired_def Let_def)
qed

lemma history_sessions:
  "crypto_ok E C T \<Longrightarrow> session_tokens history \<subseteq> T \<Longrightarrow> session_clock history now \<Longrightarrow> session_inv E C T history now"
proof (induction history arbitrary: now)
  case Nil
  then show ?case by (simp add: session_inv_def sessions_after_def no_sessions_def dict_simps)
next
  case (Cons op history)
  show ?case
  proof (cases op)
    case (Login username password key random t)
    with Cons have "session_inv E C T history t" "b64url_encode random \<in> T" "t \<le> now" by auto
    from session_inv_later [OF login_step_inv [OF this(1,2)] this(3)] Login show ?thesis by simp
  next
    case (Authenticate cookie t)
    with Cons have "session_inv E C T history t" "set_option (session_token cookie) \<subseteq> T" "t \<le> now" by auto
    from session_inv_later [OF authenticate_step_inv [OF this(1) Cons.prems(1) this(2)] this(3)] Authenticate
    show ?thesis by simp
  next
    case (Logout k)
    with Cons show ?thesis by (auto intro: logout_step_inv)
  next
    case (Cleanup t)
    with Cons have "session_inv E C T history t" "t \<le> now" by auto
    from session_inv_later [OF cleanup_step_inv [OF this(1)] this(2)] Cleanup show ?thesis by simp
  qed
qed

section \<open>Property\<close>

lemma utf8_encode_inject: "utf8_encode s = utf8_encode t \<longleftrightarrow> s = t"
  by (metis sample_utf8_encode)

lemma verifyCsrf_Inr: "verifyCsrf cx candidate = Inr u \<longleftrightarrow> candidate = Some (sx_csrfToken cx)"
  by (auto simp: verifyCsrf_def utf8_encode_inject split: option.splits)

lemma authenticated_session:
  assumes "crypto_ok E C T" and inv: "session_inv E C T history now"
    and mem: "\<And>token. session_token cookie = Some token \<Longrightarrow> token \<in> T"
    and a: "authenticate E C cookie now (sessions_after E C history) = (Inr cx, s)"
  shows "\<exists>token created used. session_token cookie = Some token \<and>
    session_of E C (tokenHash E C token) history = Some (created, used) \<and>
    now < created + au_absoluteMinutes C * 60000 \<and> now < used + au_idleMinutes C * 60000 \<and>
    (\<forall>candidate. verifyCsrf cx candidate = Inr () \<longleftrightarrow> candidate = Some (deriveCsrf E C token))"
proof -
  let ?s = "sessions_after E C history"
  obtain token where en: "au_enabled C" and token: "session_token cookie = Some token"
    using a authenticate_other [of C cookie E now ?s] by (cases "session_token cookie") fastforce+
  let ?h = "tokenHash E C token"
  note cases = authenticate_cases [where E = E and s = ?s and now = now, OF en token refl]
  obtain r where r: "dict_get (ss_table ?s) ?h = Some r"
    using cases(1) a by (cases "dict_get (ss_table ?s) ?h") auto
  then obtain session where se: "session_of E C ?h history = Some session" "row_agrees E C T ?h r session"
    using session_invD(2) [OF inv, of ?h] by (cases "session_of E C ?h history") auto
  have "now < fst session + au_absoluteMinutes C * 60000 \<and> now < snd session + au_idleMinutes C * 60000 \<and>
      sx_csrfToken cx = deriveCsrf E C token"
    using cases(2) [OF mem [OF token] r se(2) assms(1)] a se(2) by (auto simp: row_agrees_def split: if_splits)
  with token se(1) show ?thesis by (cases session) (auto simp: verifyCsrf_Inr)
qed

lemma live_session_authenticated:
  assumes "crypto_ok E C T" and inv: "session_inv E C T history now"
    and mem: "\<And>token. session_token cookie = Some token \<Longrightarrow> token \<in> T"
    and a: "au_enabled C" "session_token cookie = Some token"
      "session_of E C (tokenHash E C token) history = Some (created, used)"
      "now < created + au_absoluteMinutes C * 60000" "now + 60000 \<le> used + au_idleMinutes C * 60000"
  shows "\<exists>cx s. authenticate E C cookie now (sessions_after E C history) = (Inr cx, s)"
proof -
  have "\<not> ended C (created, used) now" using a(4,5) by (auto simp: ended_def)
  with session_invD(2) [OF inv, of "tokenHash E C token"] a(3)
  obtain r where r: "dict_get (ss_table (sessions_after E C history)) (tokenHash E C token) = Some r"
    "row_agrees E C T (tokenHash E C token) r (created, used)"
    by (cases "dict_get (ss_table (sessions_after E C history)) (tokenHash E C token)") auto
  from a authenticate_cases(2) [OF a(1,2) refl mem r assms(1), of now] show ?thesis
    using r(2) by (auto simp: row_agrees_def)
qed

text \<open>
  C25: A session lives as its history says. When the tokens at hand do not collide and the clock does
  not go back, a request is authenticated only with the token of a session that a login with the
  right name and password created, that was not ended since, that is younger than the absolute limit
  and was used within the idle limit; its CSRF token is the only one accepted with it. And such a
  session is authenticated, at the latest until a minute before the idle limit, the precision with
  which its last use is recorded.
\<close>

theorem sessions_refine_history:
  assumes "crypto_ok E C T" and "session_tokens (Authenticate cookie now # history) \<subseteq> T"
    and "session_clock history now"
  shows "(\<forall>cx s. authenticate E C cookie now (sessions_after E C history) = (Inr cx, s) \<longrightarrow>
      (\<exists>token created used. session_token cookie = Some token \<and>
         session_of E C (tokenHash E C token) history = Some (created, used) \<and>
         now < created + au_absoluteMinutes C * 60000 \<and> now < used + au_idleMinutes C * 60000 \<and>
         (\<forall>candidate. verifyCsrf cx candidate = Inr () \<longleftrightarrow> candidate = Some (deriveCsrf E C token)))) \<and>
    (\<forall>token created used. au_enabled C \<and> session_token cookie = Some token \<and>
       session_of E C (tokenHash E C token) history = Some (created, used) \<and>
       now < created + au_absoluteMinutes C * 60000 \<and> now + 60000 \<le> used + au_idleMinutes C * 60000 \<longrightarrow>
       (\<exists>cx s. authenticate E C cookie now (sessions_after E C history) = (Inr cx, s))) \<and>
    (\<forall>username password key random token cx s.
       login E C username password key random now (sessions_after E C history) = (Inr (token, cx), s) \<longrightarrow>
       constantTimeStringEqual E username (au_username C) \<and>
       (\<exists>verifier. au_passwordVerifier C = Some verifier \<and>
          cr_scrypt E password verifier = Inr (pw_digest verifier)))"
proof (intro conjI allI impI)
  have inv: "session_inv E C T history now" using assms by (intro history_sessions) auto
  have mem: "token \<in> T" if "session_token cookie = Some token" for token using that assms(2) by simp
  {
    fix cx s
    assume "authenticate E C cookie now (sessions_after E C history) = (Inr cx, s)"
    from authenticated_session [OF assms(1) inv _ this] mem show "\<exists>token created used. session_token cookie = Some token \<and>
         session_of E C (tokenHash E C token) history = Some (created, used) \<and>
         now < created + au_absoluteMinutes C * 60000 \<and> now < used + au_idleMinutes C * 60000 \<and>
         (\<forall>candidate. verifyCsrf cx candidate = Inr () \<longleftrightarrow> candidate = Some (deriveCsrf E C token))" by blast
  next
    fix token created used
    assume "au_enabled C \<and> session_token cookie = Some token \<and>
       session_of E C (tokenHash E C token) history = Some (created, used) \<and>
       now < created + au_absoluteMinutes C * 60000 \<and> now + 60000 \<le> used + au_idleMinutes C * 60000"
    then show "\<exists>cx s. authenticate E C cookie now (sessions_after E C history) = (Inr cx, s)"
      using live_session_authenticated [OF assms(1) inv] mem by blast
  next
    fix username password key random token cx s
    assume "login E C username password key random now (sessions_after E C history) = (Inr (token, cx), s)"
    from login_Inr(3,4) [OF this] show "constantTimeStringEqual E username (au_username C)"
      "\<exists>verifier. au_passwordVerifier C = Some verifier \<and> cr_scrypt E password verifier = Inr (pw_digest verifier)"
      by simp_all
  }
qed

definition sample_crypto :: session_crypto where
  "sample_crypto = \<lparr> cr_hmac = (\<lambda>key message. take 32 (rev message @ replicate 32 0)),
     cr_scrypt = (\<lambda>password verifier. Inr (utf8_encode password)), cr_isIP = (\<lambda>_. False) \<rparr>"

definition sample_config :: auth_config where
  "sample_config = \<lparr> au_enabled = True, au_username = ''admin'',
     au_passwordVerifier = Some \<lparr> pw_cost = 32768, pw_blockSize = 8, pw_parallelization = 1, pw_salt = [],
       pw_digest = utf8_encode ''pw'' \<rparr>,
     au_sessionSecret = Some [], au_idleMinutes = 30, au_absoluteMinutes = 480 \<rparr>"

definition sample_token :: string where
  "sample_token = b64url_encode (replicate 32 0)"

definition sample_cookie :: string where
  "sample_cookie = ADMIN_SESSION_COOKIE @ ''='' @ sample_token"

definition sample_login :: "session_op list" where
  "sample_login = [Login ''admin'' ''pw'' ''socket:a'' (replicate 32 0) 0]"

lemma sample_token_eq: "sample_token = replicate 43 (CHR ''A'')"
  by code_simp

lemma sample_session_token: "session_token (Some sample_cookie) = Some sample_token"
  by code_simp

lemma sample_session_of:
  "session_of sample_crypto sample_config (tokenHash sample_crypto sample_config sample_token) sample_login = Some (0, 0)"
  by code_simp

theorem sessions_refine_history_witness:
  "\<exists>cx s. authenticate sample_crypto sample_config (Some sample_cookie) 60000
     (sessions_after sample_crypto sample_config sample_login) = (Inr cx, s)"
proof -
  have "crypto_ok sample_crypto sample_config {sample_token}"
    by (simp add: crypto_ok_def sample_crypto_def sample_config_def) linarith
  moreover have "session_tokens (Authenticate (Some sample_cookie) 60000 # sample_login) \<subseteq> {sample_token}"
    by (simp add: sample_login_def sample_session_token) (simp add: sample_token_def)
  moreover have "session_clock sample_login 60000" by (simp add: sample_login_def)
  ultimately show ?thesis
    using sessions_refine_history [of sample_crypto sample_config "{sample_token}" "Some sample_cookie" 60000
        sample_login] sample_session_token sample_session_of
    by (auto simp: sample_config_def)
qed

end
