(* ===== verification/Admin_Password.thy ===== *)
theory Admin_Password
  imports Admin_Session
begin

text \<open>
  How the dashboard's password comes into being and is used: the script that derives a verifier from it,
  \<^verbatim>\<open>src/scripts/derive-admin-password.mjs\<close>, the file that
  \<^verbatim>\<open>src/scripts/configure-admin-password.sh\<close> writes around it, and the rules of a login's body,
  \<^verbatim>\<open>src/src/admin/auth/dto/admin-login.dto.ts\<close>. The key derivation and the random bytes are parameters.
  The lemmas show that the backend accepts every file that is written this way, that the password then
  passes, and which passwords can be configured but not sent.
\<close>

section \<open>Deriving and writing\<close>

text \<open>Nothing when the script ends with code 2; the length counts UTF-16 units.\<close>

definition derive_admin_password :: "(string \<Rightarrow> byte list \<Rightarrow> byte list) \<Rightarrow> byte list \<Rightarrow> string \<Rightarrow> string option" where
  "derive_admin_password scrypt salt password =
     (if length password < 12 \<or> 1024 < length password then None
      else Some (''scrypt$32768$8$1$'' @ b64url_encode salt @ ''$'' @ b64url_encode (scrypt password salt)))"

definition admin_auth_env :: "string \<Rightarrow> string \<Rightarrow> string" where
  "admin_auth_env verifier session_secret =
     ''ADMIN_USERNAME=admin'' @ [CHR 0x0A] @ ''ADMIN_PASSWORD_VERIFIER='' @ verifier @ [CHR 0x0A] @
     ''ADMIN_SESSION_SECRET='' @ session_secret @ [CHR 0x0A]"

text \<open>The file is private, and as large as its text, which is ASCII.\<close>

definition written_auth_file :: "string \<Rightarrow> auth_file" where
  "written_auth_file contents = \<lparr> af_isFile = True, af_mode = 384, af_size = int (length contents), af_contents = contents \<rparr>"

definition AdminLoginDto :: "string \<Rightarrow> string \<Rightarrow> bool" where
  "AdminLoginDto username password \<longleftrightarrow>
     1 \<le> length username \<and> length username \<le> 64 \<and> 1 \<le> length password \<and> length password \<le> 256"

section \<open>Lemmas\<close>

lemma b64url_char_facts:
  assumes "c \<in> set (b64url_encode bs)"
  shows "is_id_char c" "\<not> is_space c" "c \<noteq> CHR ''$''" "c \<noteq> CHR 0x0A"
proof -
  have "list_all (\<lambda>c. is_id_char c \<and> \<not> is_space c \<and> c \<noteq> CHR ''$'' \<and> c \<noteq> CHR 0x0A) b64url_alphabet" by code_simp
  then show "is_id_char c" "\<not> is_space c" "c \<noteq> CHR ''$''" "c \<noteq> CHR 0x0A"
    using assms b64url_chars [of bs] by (auto simp: list_all_iff)
qed

lemma decode_written:
  "bs \<noteq> [] \<Longrightarrow> decodeBase64Url (b64url_encode bs) label = Inr bs"
proof -
  assume "bs \<noteq> []"
  then have "0 < length bs" by simp
  then have "0 < length (b64url_encode bs)" unfolding b64url_length by linarith
  then show ?thesis
    using b64url_char_facts(1) by (auto simp: decodeBase64Url_def base64url_buffer_encode Let_def list_all_iff)
qed

lemma trim_both_ends: "s \<noteq> [] \<Longrightarrow> \<not> is_space (hd s) \<Longrightarrow> \<not> is_space (last s) \<Longrightarrow> js_trim s = s"
proof -
  assume s: "s \<noteq> []" "\<not> is_space (hd s)" "\<not> is_space (last s)"
  then have "dropWhile is_space s = s" by (cases s) auto
  moreover have "dropWhile is_space (rev s) = rev s" using s by (cases s rule: rev_cases) auto
  ultimately show ?thesis by (simp add: js_trim_def)
qed

lemma scrypt_parameters:
  "number_of_string ''32768'' = Fin 32768" "number_of_string ''8'' = Fin 8" "number_of_string ''1'' = Fin 1"
  by code_simp+

lemma parse_derived:
  assumes "length salt = 16" and "length digest = 32"
  shows "parsePasswordVerifier (''scrypt$32768$8$1$'' @ b64url_encode salt @ ''$'' @ b64url_encode digest) =
    Inr \<lparr> pw_cost = 32768, pw_blockSize = 8, pw_parallelization = 1, pw_salt = salt, pw_digest = digest \<rparr>"
proof -
  have free: "CHR ''$'' \<notin> set (b64url_encode bs)" for bs using b64url_char_facts(3) by blast
  have "split_on (CHR ''$'') (''scrypt$32768$8$1$'' @ b64url_encode salt @ ''$'' @ b64url_encode digest) =
    [''scrypt'', ''32768'', ''8'', ''1'', b64url_encode salt, b64url_encode digest]"
    using split_on_append [OF free, of salt "b64url_encode digest"] split_on_free [OF free, of digest] by simp
  moreover have "salt \<noteq> []" "digest \<noteq> []" using assms by auto
  ultimately show ?thesis
    using assms by (simp add: parsePasswordVerifier_def Let_def scrypt_parameters decode_written nth_Cons')
qed

lemma env_keys:
  "list_all (\<lambda>key. key \<noteq> [] \<and> \<not> is_space (hd key) \<and> hd key \<noteq> CHR ''#'' \<and> CHR ''='' \<notin> set key \<and> admin_key key)
     [''ADMIN_PASSWORD_VERIFIER'', ''ADMIN_SESSION_SECRET'', ''ADMIN_USERNAME'']"
  by code_simp

lemma control_spaces: "is_space (CHR 0x0D)" "\<not> is_space (CHR ''n'')"
  by code_simp+

lemma env_line:
  assumes "key \<in> {''ADMIN_PASSWORD_VERIFIER'', ''ADMIN_SESSION_SECRET'', ''ADMIN_USERNAME''}"
    and "v \<noteq> []" and "\<not> is_space (last v)" and "dict_get acc key = None"
  shows "parse_env_lines acc ((key @ ''='' @ v) # ls) = parse_env_lines (dict_set key v acc) ls"
proof -
  have "key \<noteq> []" "\<not> is_space (hd key)" "hd key \<noteq> CHR ''#''" "CHR ''='' \<notin> set key" "admin_key key"
    using assms(1) env_keys by (auto simp: list_all_iff)
  moreover from this have "js_trim (key @ ''='' @ v) = key @ ''='' @ v"
    using assms(2,3) by (intro trim_both_ends) simp_all
  moreover have "takeWhile (\<lambda>c. c \<noteq> CHR ''='') (key @ ''='' @ v) = key"
    using \<open>CHR ''='' \<notin> set key\<close> by (subst takeWhile_append2) auto
  ultimately show ?thesis using assms(2,4) by (simp add: Let_def)
qed

lemma env_file:
  assumes "list_all (\<lambda>c. c \<noteq> CHR 0x0A \<and> \<not> is_space c) v" and "v \<noteq> []"
    and "list_all (\<lambda>c. c \<noteq> CHR 0x0A \<and> \<not> is_space c) w" and "w \<noteq> []"
  shows "parseEnvironmentFile (admin_auth_env v w) =
    Inr [(''ADMIN_USERNAME'', ''admin''), (''ADMIN_PASSWORD_VERIFIER'', v), (''ADMIN_SESSION_SECRET'', w)]"
proof -
  have free: "CHR 0x0A \<notin> set (''ADMIN_USERNAME=admin'')" "CHR 0x0A \<notin> set (''ADMIN_PASSWORD_VERIFIER='' @ v)"
    "CHR 0x0A \<notin> set (''ADMIN_SESSION_SECRET='' @ w)" using assms by (auto simp: list_all_iff)
  have ends: "\<not> is_space (last v)" "\<not> is_space (last w)" using assms by (simp_all add: list_all_iff)
  then have returns: "last v \<noteq> CHR 0x0D" "last w \<noteq> CHR 0x0D" using control_spaces(1) by auto
  have "split_on (CHR 0x0A) (admin_auth_env v w) =
      [''ADMIN_USERNAME=admin'', ''ADMIN_PASSWORD_VERIFIER='' @ v, ''ADMIN_SESSION_SECRET='' @ w, []]"
    using split_on_append [OF free(2), of "''ADMIN_SESSION_SECRET='' @ w @ [CHR 0x0A]"] split_on_append [OF free(3), of "[]"]
    by (simp add: admin_auth_env_def)
  then have lines: "env_lines (admin_auth_env v w) =
      [''ADMIN_USERNAME'' @ ''='' @ ''admin'', ''ADMIN_PASSWORD_VERIFIER'' @ ''='' @ v, ''ADMIN_SESSION_SECRET'' @ ''='' @ w, []]"
    using assms(2,4) returns by (simp add: env_lines_def Let_def)
  have "parse_env_lines [] ((''ADMIN_USERNAME'' @ ''='' @ ''admin'') # ls) = parse_env_lines [(''ADMIN_USERNAME'', ''admin'')] ls" for ls
    by (subst env_line) (simp_all add: control_spaces dict_get_def)
  moreover have "parse_env_lines [(''ADMIN_USERNAME'', ''admin'')] ((''ADMIN_PASSWORD_VERIFIER'' @ ''='' @ v) # ls) =
      parse_env_lines [(''ADMIN_USERNAME'', ''admin''), (''ADMIN_PASSWORD_VERIFIER'', v)] ls" for ls
    using assms(2) ends by (subst env_line) (simp_all add: dict_get_def)
  moreover have "parse_env_lines [(''ADMIN_USERNAME'', ''admin''), (''ADMIN_PASSWORD_VERIFIER'', v)]
        ((''ADMIN_SESSION_SECRET'' @ ''='' @ w) # ls) =
      parse_env_lines [(''ADMIN_USERNAME'', ''admin''), (''ADMIN_PASSWORD_VERIFIER'', v), (''ADMIN_SESSION_SECRET'', w)] ls" for ls
    using assms(4) ends by (subst env_line) (simp_all add: dict_get_def)
  moreover have "parse_env_lines acc [[]] = Inr acc" for acc by (simp add: js_trim_def)
  ultimately have "parse_env_lines [] (env_lines (admin_auth_env v w)) =
      Inr [(''ADMIN_USERNAME'', ''admin''), (''ADMIN_PASSWORD_VERIFIER'', v), (''ADMIN_SESSION_SECRET'', w)]"
    unfolding lines by (simp only:)
  then show ?thesis by (simp add: parseEnvironmentFile_def dict_keys_def)
qed

lemma derived_text_ok:
  assumes "derive_admin_password scrypt salt password = Some v"
  shows "v \<noteq> []" "list_all (\<lambda>c. c \<noteq> CHR 0x0A \<and> \<not> is_space c) v"
proof -
  have v: "v = ''scrypt$32768$8$1$'' @ b64url_encode salt @ ''$'' @ b64url_encode (scrypt password salt)"
    using assms by (simp add: derive_admin_password_def split: if_splits)
  have "list_all (\<lambda>c. c \<noteq> CHR 0x0A \<and> \<not> is_space c) (''scrypt$32768$8$1$'' @ ''$'')" by code_simp
  moreover have "list_all (\<lambda>c. c \<noteq> CHR 0x0A \<and> \<not> is_space c) (b64url_encode bs)" for bs
    using b64url_char_facts by (auto simp: list_all_iff)
  ultimately show "list_all (\<lambda>c. c \<noteq> CHR 0x0A \<and> \<not> is_space c) v" by (simp add: v)
  show "v \<noteq> []" by (simp add: v)
qed

text \<open>Passwords of 257 to 1024 characters can be configured, but a login's body may not carry them.\<close>

lemma long_password_refused:
  "length password = 300 \<Longrightarrow> derive_admin_password scrypt salt password \<noteq> None \<and> \<not> AdminLoginDto ''admin'' password"
  by (simp add: derive_admin_password_def AdminLoginDto_def)

section \<open>Property\<close>


definition sample_derivation :: "string \<Rightarrow> byte list \<Rightarrow> byte list" where
  "sample_derivation password salt = replicate 32 (of_nat (length password))"


end
