(* ===== verification/Session_Requests.thy ===== *)
theory Session_Requests
  imports Admin_Password
begin

text \<open>
  The requests of the dashboard's session, \<^verbatim>\<open>src/src/admin/auth/admin-session.controller.ts\<close>: each is
  the rules of its body or its guards, the service and the answer, in the order in which the framework
  runs them. What a handler asks of the response's cookies is a value. The lemmas follow one session from
  its login over its use to its logout.
\<close>

section \<open>Requests\<close>

record cookie_options =
  co_httpOnly :: bool
  co_secure :: bool
  co_sameSite :: string
  co_path :: string
  co_expires :: "int option"
  co_priority :: "string option"

datatype cookie_change = Set_Cookie string string cookie_options | Clear_Cookie string cookie_options

definition session_cookie_options :: cookie_options where
  "session_cookie_options = \<lparr> co_httpOnly = True, co_secure = True, co_sameSite = ''strict'', co_path = ''/'',
     co_expires = None, co_priority = None \<rparr>"

datatype request_error = Session_Failed session_error | Body_Refused | Guard_Refused | Guard_Did_Not_Run

definition requiredContext :: "session_context option \<Rightarrow> (request_error, session_context) result" where
  "requiredContext context = (case context of None \<Rightarrow> Inl Guard_Did_Not_Run | Some c \<Rightarrow> Inr c)"

definition post_login ::
  "session_crypto \<Rightarrow> auth_config \<Rightarrow> string \<Rightarrow> string \<Rightarrow> string \<Rightarrow> byte list \<Rightarrow> int \<Rightarrow> session_state \<Rightarrow>
   (request_error, cookie_change \<times> session_answer) result \<times> session_state" where
  "post_login E C username password clientKey random now s =
     (if \<not> AdminLoginDto username password then (Inl Body_Refused, s)
      else case login E C username password clientKey random now s of
        (Inl e, s1) \<Rightarrow> (Inl (Session_Failed e), s1)
      | (Inr (rawSessionToken, session), s1) \<Rightarrow>
          (Inr (Set_Cookie ADMIN_SESSION_COOKIE rawSessionToken
             (session_cookie_options\<lparr>co_expires := Some (sx_expiresAt session), co_priority := Some ''high''\<rparr>),
             sessionResponse C session), s1))"

definition get_session ::
  "session_crypto \<Rightarrow> auth_config \<Rightarrow> string option \<Rightarrow> int \<Rightarrow> session_state \<Rightarrow>
   (request_error, session_answer) result \<times> session_state" where
  "get_session E C cookieHeader now s =
     (case session_guard E C cookieHeader now s of
        (Inl e, s1) \<Rightarrow> (Inl (Session_Failed e), s1)
      | (Inr context, s1) \<Rightarrow> (res_bind (requiredContext context) (\<lambda>c. Inr (sessionResponse C c)), s1))"

definition post_logout ::
  "session_crypto \<Rightarrow> auth_config \<Rightarrow> string option \<Rightarrow> string option \<Rightarrow> int \<Rightarrow> session_state \<Rightarrow>
   (request_error, cookie_change) result \<times> session_state" where
  "post_logout E C cookieHeader csrfHeader now s =
     (case session_guard E C cookieHeader now s of
        (Inl e, s1) \<Rightarrow> (Inl (Session_Failed e), s1)
      | (Inr context, s1) \<Rightarrow>
          (case csrf_guard context csrfHeader of
             Inl e \<Rightarrow> (Inl (Session_Failed e), s1)
           | Inr False \<Rightarrow> (Inl Guard_Refused, s1)
           | Inr True \<Rightarrow>
               (case requiredContext context of
                  Inl e \<Rightarrow> (Inl e, s1)
                | Inr c \<Rightarrow> (Inr (Clear_Cookie ADMIN_SESSION_COOKIE session_cookie_options), logout (sx_tokenHash c) s1))))"

section \<open>The cookie comes back\<close>

text \<open>The header of a browser that has the cookie, alone or before other cookies.\<close>

definition cookie_header :: "string \<Rightarrow> string option \<Rightarrow> string" where
  "cookie_header token others =
     ADMIN_SESSION_COOKIE @ ''='' @ token @ (case others of None \<Rightarrow> [] | Some r \<Rightarrow> '';'' @ r)"

lemma id_text_trim:
  assumes "list_all is_id_char s"
  shows "js_trim s = s"
proof (cases "s = []")
  case False
  moreover have "\<not> is_space c" if "is_id_char c" for c
    using that by (auto simp: is_id_char_def is_space_def is_upper_def is_lower_def is_digit_char_def in_range_def code_of_def)
  ultimately show ?thesis using assms by (intro trim_both_ends) (auto simp: list_all_iff)
qed (simp add: js_trim_def)

lemma cookie_name_chars: "list_all is_id_char ADMIN_SESSION_COOKIE"
  unfolding ADMIN_SESSION_COOKIE_def by code_simp

lemma find_session_cookie:
  assumes "list_all is_id_char token"
  shows "find_cookie ADMIN_SESSION_COOKIE ((ADMIN_SESSION_COOKIE @ ''='' @ token) # items) = Some token"
proof -
  have "takeWhile (\<lambda>c. c \<noteq> CHR ''='') (ADMIN_SESSION_COOKIE @ ''='' @ token) = ADMIN_SESSION_COOKIE"
    by (simp add: ADMIN_SESSION_COOKIE_def)
  moreover have "ADMIN_SESSION_COOKIE \<noteq> []" by (simp add: ADMIN_SESSION_COOKIE_def)
  ultimately show ?thesis
    using id_text_trim [OF cookie_name_chars] id_text_trim [OF assms] by (simp add: Let_def)
qed

lemma session_token_header:
  assumes "length token = 43" and "list_all is_id_char token"
    and "\<And>r. others = Some r \<Longrightarrow> length r \<le> 8000"
  shows "session_token (Some (cookie_header token others)) = Some token"
proof -
  let ?p = "ADMIN_SESSION_COOKIE @ ''='' @ token"
  have free: "CHR '';'' \<notin> set ?p"
    using assms(2) by (auto simp: ADMIN_SESSION_COOKIE_def list_all_iff is_id_char_def is_upper_def is_lower_def
        is_digit_char_def in_range_def code_of_def)
  have "\<exists>items. split_on (CHR '';'') (cookie_header token others) = ?p # items"
  proof (cases others)
    case None
    then show ?thesis using split_on_free [OF free] by (simp add: cookie_header_def)
  next
    case (Some r)
    then show ?thesis using split_on_append [OF free, of r] by (simp add: cookie_header_def)
  qed
  then obtain items where "split_on (CHR '';'') (cookie_header token others) = ?p # items" ..
  moreover have "length (cookie_header token others) \<le> 8192"
    using assms(1,3) by (cases others) (force simp: cookie_header_def ADMIN_SESSION_COOKIE_def)+
  ultimately have "readCookie (Some (cookie_header token others)) ADMIN_SESSION_COOKIE = Some token"
    using find_session_cookie [OF assms(2)] by (simp add: readCookie_def)
  with assms(1,2) show ?thesis by (simp add: session_token_def)
qed

lemma random_token:
  assumes "length random = 32"
  shows "length (b64url_encode random) = 43" and "list_all is_id_char (b64url_encode random)"
proof -
  show "length (b64url_encode random) = 43" using assms by (simp add: b64url_length)
  have "list_all is_id_char b64url_alphabet" by code_simp
  then show "list_all is_id_char (b64url_encode random)"
    using b64url_chars [of random] by (auto simp: list_all_iff)
qed

section \<open>One session\<close>

lemma post_login_Inr:
  assumes "post_login E C username password clientKey random t s = (Inr (change, answer), s1)"
  shows "\<exists>context. login E C username password clientKey random t s = (Inr (b64url_encode random, context), s1) \<and>
    change = Set_Cookie ADMIN_SESSION_COOKIE (b64url_encode random)
      (session_cookie_options\<lparr>co_expires := Some (sx_expiresAt context), co_priority := Some ''high''\<rparr>) \<and>
    answer = sessionResponse C context"
  using assms by (auto simp: post_login_def split: if_splits sum.splits prod.splits dest: login_Inr(5))

text \<open>With its cookie a fresh session is authenticated, and gives the CSRF token of its login.\<close>

lemma fresh_session:
  assumes login: "login E C username password clientKey random t s = (Inr (token, context), s1)"
    and header: "session_token header = Some token"
    and "t \<le> now" and "now < t + au_idleMinutes C * 60000" and "now < t + au_absoluteMinutes C * 60000"
  shows "\<exists>cx s2. authenticate E C header now s1 = (Inr cx, s2) \<and> sx_csrfToken cx = sx_csrfToken context \<and>
    sx_tokenHash cx = tokenHash E C token"
  using assms(3-5) header login_Inr [OF login] by (simp add: authenticate_def Let_def dict_get_set)

lemma ended_session:
  assumes "au_enabled C" and "session_token header = Some token"
  shows "fst (authenticate E C header now (logout (tokenHash E C token) s)) = Inl Authentication_Required"
  using assms by (simp add: authenticate_def logout_def Let_def dict_get_delete)

text \<open>
  A session from end to end. The cookie of a successful login cannot be read by scripts or sent in the
  clear and lives as long as the session; a request that brings it back within the limits is answered with
  the same CSRF token; a logout needs that very token, and after it the cookie is worthless.
\<close>

theorem session_lifecycle:
  assumes login: "post_login E C username password clientKey random t s = (Inr (Set_Cookie name token options, answer), s1)"
    and "length random = 32" and others: "\<And>r. others = Some r \<Longrightarrow> length r \<le> 8000"
    and limits: "t \<le> now" "now < t + au_idleMinutes C * 60000" "now < t + au_absoluteMinutes C * 60000"
  defines header_def: "header \<equiv> Some (cookie_header token others)"
  shows "name = ADMIN_SESSION_COOKIE \<and> co_httpOnly options \<and> co_secure options \<and> co_sameSite options = ''strict'' \<and>
      co_expires options = Some (t + au_absoluteMinutes C * 60000)"
    and "\<exists>shown s2. get_session E C header now s1 = (Inr shown, s2) \<and> sa_csrfToken shown = sa_csrfToken answer"
    and "csrf \<noteq> Some (sa_csrfToken answer) \<Longrightarrow> fst (post_logout E C header csrf now s1) = Inl (Session_Failed Csrf_Failed)"
    and "\<exists>s2. post_logout E C header (Some (sa_csrfToken answer)) now s1 =
        (Inr (Clear_Cookie ADMIN_SESSION_COOKIE session_cookie_options), s2) \<and>
      (\<forall>later. fst (get_session E C header later s2) = Inl (Session_Failed Authentication_Required))"
proof -
  obtain issued where l: "login E C username password clientKey random t s = (Inr (token, issued), s1)"
    and token: "token = b64url_encode random" and answer: "answer = sessionResponse C issued"
    and options: "name = ADMIN_SESSION_COOKIE"
      "options = session_cookie_options\<lparr>co_expires := Some (sx_expiresAt issued), co_priority := Some ''high''\<rparr>"
    using post_login_Inr [OF login] by auto
  have "sx_expiresAt issued = t + au_absoluteMinutes C * 60000"
    using l by (auto simp: login_def Let_def split: if_splits option.splits sum.splits prod.splits)
  with options show "name = ADMIN_SESSION_COOKIE \<and> co_httpOnly options \<and> co_secure options \<and>
      co_sameSite options = ''strict'' \<and> co_expires options = Some (t + au_absoluteMinutes C * 60000)"
    by (simp add: session_cookie_options_def)
  have header: "session_token header = Some token"
    unfolding header_def token by (rule session_token_header) (use random_token assms(2) others in auto)
  obtain cx s2 where cx: "authenticate E C header now s1 = (Inr cx, s2)" "sx_csrfToken cx = sx_csrfToken issued"
    "sx_tokenHash cx = tokenHash E C token"
    using fresh_session [OF l header limits] by blast
  have csrf: "sa_csrfToken answer = sx_csrfToken cx" by (simp add: answer sessionResponse_def cx(2))
  show "\<exists>shown s2. get_session E C header now s1 = (Inr shown, s2) \<and> sa_csrfToken shown = sa_csrfToken answer"
    by (simp add: get_session_def session_guard_def cx(1) requiredContext_def csrf sessionResponse_def)
  show "fst (post_logout E C header csrf now s1) = Inl (Session_Failed Csrf_Failed)"
    if "csrf \<noteq> Some (sa_csrfToken answer)"
  proof -
    have "verifyCsrf cx csrf = Inl Csrf_Failed"
      using that verifyCsrf_Inr [of cx csrf] by (auto simp: verifyCsrf_def csrf split: option.splits if_splits)
    then show ?thesis by (simp add: post_logout_def session_guard_def cx(1) csrf_guard_def)
  qed
  have "verifyCsrf cx (Some (sa_csrfToken answer)) = Inr ()" by (simp add: verifyCsrf_Inr csrf)
  moreover have "fst (get_session E C header later (logout (tokenHash E C token) s2)) =
      Inl (Session_Failed Authentication_Required)" for later
    using ended_session [OF login_Inr(1) [OF l] header, of E later s2]
    by (auto simp: get_session_def session_guard_def split: prod.splits sum.splits)
  ultimately show "\<exists>s2. post_logout E C header (Some (sa_csrfToken answer)) now s1 =
        (Inr (Clear_Cookie ADMIN_SESSION_COOKIE session_cookie_options), s2) \<and>
      (\<forall>later. fst (get_session E C header later s2) = Inl (Session_Failed Authentication_Required))"
    by (simp add: post_logout_def session_guard_def cx csrf_guard_def requiredContext_def)
qed

end
