(* ===== verification/Geocoding_Providers.thy ===== *)
theory Geocoding_Providers
  imports Fake_Geocoding
begin

text \<open>
  The interface between the geocoding service and its provider,
  \<^verbatim>\<open>src/src/geocoding/geocoding-provider.ts\<close>, as the locale \<open>geocoding_provider\<close>: what a provider
  promises of its identifiers and positions, whatever the servers behind it answer. The service's part
  is proved once for any provider: it maps every answer, so that a request fails only by its own
  parameters or by a failure of the provider itself. Photon and the fixed places interpret the locale, and
  \<^verbatim>\<open>src/src/geocoding/geocoding.module.ts\<close> chooses between them.
\<close>

section \<open>The choice of the provider\<close>

record photon_env =
  pe_math :: js_math
  pe_jsonParse :: "string \<Rightarrow> jsval option"
  pe_get :: "photon_request \<Rightarrow> fetch_result"

fun own_error :: "(geocoding_error, 'a) result \<Rightarrow> (geocoding_error option, 'a) result" where
  "own_error (Inl e) = Inl (Some e)"
| "own_error (Inr v) = Inr v"

definition with_photon_provider :: "photon_env \<Rightarrow> geo_env \<Rightarrow> geo_env" where
  "with_photon_provider P E = E\<lparr>ge_provider := Photon,
     ge_query := (\<lambda>operation input. own_error (photon_query (pe_math P) (pe_jsonParse P) (ge_region E) (pe_get P) input)),
     ge_lookup := (\<lambda>i. own_error (photon_lookup i)),
     ge_reverse := (\<lambda>input. own_error (photon_reverse (pe_jsonParse P) (pe_get P) input))\<rparr>"

definition configured_provider :: "geocoding_provider_choice \<Rightarrow> photon_env \<Rightarrow> fake_env \<Rightarrow> geo_env \<Rightarrow> geo_env" where
  "configured_provider geocodingProvider P F E =
     (if geocodingProvider = Use_Photon then with_photon_provider P E else with_fake_provider F E)"

lemma own_error_Inr [simp]: "own_error r = Inr v \<longleftrightarrow> r = Inr v"
  by (cases r) auto

section \<open>The interface\<close>

definition details_ok :: "provider_details \<Rightarrow> bool" where
  "details_ok d \<longleftrightarrow> (case pd_providerId d of None \<Rightarrow> True | Some i \<Rightarrow> safe_provider_id i)"

locale geocoding_provider =
  fixes query :: "search_operation \<Rightarrow> search_input \<Rightarrow> (geocoding_error option, provider_suggestion list) result"
    and lookup :: "string \<Rightarrow> (geocoding_error option, provider_details) result"
    and reverse :: "reverse_input \<Rightarrow> (geocoding_error option, provider_details option) result"
  assumes suggestions: "query operation input = Inr ss \<Longrightarrow> list_all suggestion_ok ss"
    and details: "lookup i = Inr d \<Longrightarrow> details_ok d"
    and places: "reverse request = Inr (Some d) \<Longrightarrow> details_ok d \<and> pd_position d = ri_point request"
begin

definition serves :: "geo_env \<Rightarrow> bool" where
  "serves E \<longleftrightarrow> ge_query E = query \<and> ge_lookup E = lookup \<and> ge_reverse E = reverse"

lemma suggestions_map:
  assumes "query operation input = Inr ss"
  shows "\<exists>ms c1. map_suggestions E now (take n ss) c = (Inr ms, c1) \<and> length ms = min n (length ss)"
proof -
  have "list_all suggestion_ok (take n ss)"
    using suggestions [OF assms] by (auto simp: list_all_iff dest: in_set_takeD)
  then have "\<exists>ms c1. map_suggestions E now (take n ss) c = (Inr ms, c1) \<and> length ms = length (take n ss)"
  proof (induction "take n ss" arbitrary: n ss c)
    case (Cons s rest)
    then obtain m where m: "mapSuggestion E s = Inr m"
      by (auto simp: mapSuggestion_def encode_place_def Let_def suggestion_ok_def simp flip: Cons.hyps(2))
    have "\<exists>ms c1. map_suggestions E now rest c0 = (Inr ms, c1) \<and> length ms = length rest" for c0
      using Cons.hyps(1) [of "length rest" rest c0] Cons.prems by (simp flip: Cons.hyps(2))
    then obtain ms c1 where "map_suggestions E now rest (cacheSuggestionLookup E now m c) = (Inr ms, c1)"
      "length ms = length rest" by blast
    with m show ?case by (simp flip: Cons.hyps(2))
  qed auto
  then show ?thesis by (simp add: min.commute)
qed

lemma details_map: "details_ok d \<Longrightarrow> \<exists>m. mapDetails E d = Inr m \<and> dt_position m = pd_position d"
  by (cases "pd_providerId d") (auto simp: details_ok_def mapDetails_def encode_place_def Let_def)

text \<open>The second half of each handler fails exactly when the provider failed, with its error.\<close>

lemma query_finishes:
  assumes "fst (finish_query E input key (query operation input) now c) = Inl e"
  shows "\<exists>x. query operation input = Inl x \<and> e = ThrownApi (geo_provider_error x)"
proof (cases "query operation input")
  case (Inr ss)
  from suggestions_map [OF this] obtain ms c1 where
    "map_suggestions E now (take (si_limit input) ss) c = (Inr ms, c1)" by blast
  with assms Inr show ?thesis by (simp add: finish_query_def)
qed (use assms in \<open>simp add: finish_query_def\<close>)

lemma lookup_finishes:
  assumes "fst (finish_lookup E key (lookup i) now c) = Inl e"
  shows "\<exists>x. lookup i = Inl x \<and> e = ThrownApi (geo_provider_error x)"
proof (cases "lookup i")
  case (Inr d)
  with details [OF this] details_map [of d E] assms show ?thesis by (auto simp: finish_lookup_def)
qed (use assms in \<open>simp add: finish_lookup_def\<close>)

lemma reverse_finishes:
  assumes "fst (finish_reverse E (ri_point input) key (reverse input) now c) = Inl e"
  shows "\<exists>x. reverse input = Inl x \<and> e = ThrownApi (geo_provider_error x)"
proof (cases "reverse input")
  case (Inr place)
  show ?thesis
  proof (cases place)
    case (Some d)
    with Inr places have "details_ok d" "d\<lparr>pd_position := ri_point input\<rparr> = d" by auto
    with details_map [of d E] assms Inr Some show ?thesis by (auto simp: finish_reverse_def)
  qed (use assms Inr in \<open>simp add: finish_reverse_def\<close>)
qed (use assms in \<open>simp add: finish_reverse_def\<close>)

text \<open>
  A whole request: what may go wrong is a parameter, the limiter, the provider, or a value of another
  kind under the key.
\<close>

lemma request_errors:
  assumes "serves E" and "fst (geo_query E operation raw limit admitted now later c) = Inl e"
  shows "(\<exists>x. parse_search E raw limit = Inl x \<and> e = ThrownApi x) \<or>
    (\<exists>input. parse_search E raw limit = Inr input \<and>
       (e = ThrownApi (geo_provider_error (Some GE_UNAVAILABLE)) \<and> \<not> admitted \<or>
        (\<exists>x. query operation input = Inl x \<and> e = ThrownApi (geo_provider_error x)) \<or>
        e = ThrownOther \<and> (\<exists>v. fst (cache_get (search_key E operation input) now c) = Some v \<and> (\<forall>ss. v \<noteq> C_Suggestions ss))))"
proof (cases "parse_search E raw limit")
  case (Inr input)
  obtain hit c1 where hit: "cache_get (search_key E operation input) now c = (hit, c1)" by fastforce
  show ?thesis
  proof (cases hit)
    case None
    then have "fst (finish_query E input (search_key E operation input)
        (limited admitted (query operation input)) later c1) = Inl e"
      using assms hit Inr by (simp add: geo_query_def Let_def serves_def)
    then have "(\<exists>x. query operation input = Inl x \<and> e = ThrownApi (geo_provider_error x)) \<or>
        \<not> admitted \<and> e = ThrownApi (geo_provider_error (Some GE_UNAVAILABLE))"
      by (cases admitted) (simp_all add: limited_def query_finishes, simp add: finish_query_def)
    with Inr show ?thesis by blast
  next
    case (Some v)
    then show ?thesis using assms hit Inr by (cases v) (auto simp: geo_query_def Let_def)
  qed
qed (use assms in \<open>simp add: geo_query_def\<close>)

end

section \<open>Photon\<close>

lemma mapPhotonDetails_ok:
  assumes "mapPhotonDetails payload = Inr ds"
  shows "list_all details_ok ds"
proof -
  obtain fs where "traverse (\<lambda>feature.
       res_bind (parseCommon feature) (\<lambda>common. Inr \<lparr>
         pd_providerId = Some (pc_providerId common), pd_name = pc_name common,
         pd_formattedAddress = secondaryText (pc_name common) (pf_properties feature),
         pd_position = pc_position common, pd_category = Some (pc_category common),
         pd_source = SRC_OPENSTREETMAP \<rparr>)) fs = Inr ds"
    using assms by (auto simp: mapPhotonDetails_def res_bind_Inr)
  then have "\<forall>d\<in>set ds. details_ok d"
    by (rule traverse_all) (auto simp: res_bind_Inr details_ok_def dest: parseCommon_Inr)
  then show ?thesis by (simp add: list_all_iff)
qed

interpretation photon_places: geocoding_provider "ge_query (with_photon_provider P E)"
  "ge_lookup (with_photon_provider P E)" "ge_reverse (with_photon_provider P E)" for P E
proof (unfold_locales, goal_cases)
  case (1 operation input ss)
  then show ?case by (auto simp: with_photon_provider_def dest: photon_query_ok)
next
  case (2 i d)
  then show ?case by (simp add: with_photon_provider_def photon_lookup_def)
next
  case (3 input d)
  then obtain payload ps place where "mapPhotonDetails payload = Inr ps" "place \<in> set ps"
    "d = place\<lparr>pd_position := ri_point input\<rparr>"
    by (auto simp: with_photon_provider_def photon_reverse_def Let_def res_bind_Inr neq_Nil_conv split: list.split_asm)
      (metis list.set_intros(1))
  then show ?case using mapPhotonDetails_ok by (fastforce simp: list_all_iff details_ok_def)
qed

section \<open>The fixed places\<close>

lemma fake_places_ok:
  "list_all (\<lambda>p. safe_provider_id (fk_providerId p) \<and> text_ok (fk_name p) \<and> in_world (fk_position p)) PLACES"
  by code_simp

interpretation fixed_places: geocoding_provider "ge_query (with_fake_provider F E)"
  "ge_lookup (with_fake_provider F E)" "ge_reverse (with_fake_provider F E)" for F E
proof (unfold_locales, goal_cases)
  case (1 operation input ss)
  have "\<exists>place\<in>set PLACES. ps_providerId s = fk_providerId place \<and> ps_primaryText s = fk_name place \<and>
      ps_position s = Some (fk_position place)" if "s \<in> set ss" for s
    using that 1 fake_find_lookup [of s F "operation = Autocomplete" input]
    by (cases operation) (auto simp: with_fake_provider_def fake_autocomplete_def fake_search_def)
  with fake_places_ok show ?case by (fastforce simp: list_all_iff suggestion_ok_def)
next
  case (2 i d)
  then obtain place where "find (\<lambda>place. fk_providerId place = i) PLACES = Some place" "d = withoutAliases place"
    by (auto simp: with_fake_provider_def fake_lookup_def split: option.splits)
  moreover from this(1) have "place \<in> set PLACES" by (auto simp: find_Some_iff)
  ultimately show ?case using fake_places_ok by (auto simp: details_ok_def withoutAliases_def list_all_iff)
next
  case (3 input d)
  then obtain place where "place \<in> set PLACES" "d = (withoutAliases place)\<lparr>pd_position := ri_point input\<rparr>"
  proof -
    let ?ps = "sort_by not_farther (map (\<lambda>place. (place, fake_distance (fe_math F) (fk_position place) (ri_point input))) PLACES)"
    from 3 obtain place distance rest where "?ps = (place, distance) # rest"
      "d = (withoutAliases place)\<lparr>pd_position := ri_point input\<rparr>"
      by (auto simp: with_fake_provider_def fake_reverse_def split: list.splits if_splits)
    moreover from this(1) have "(place, distance) \<in> set ?ps" by simp
    then have "place \<in> set PLACES" unfolding set_sort_by by auto
    ultimately show thesis using that [of place] by blast
  qed
  then show ?case using fake_places_ok by (auto simp: details_ok_def withoutAliases_def list_all_iff)
qed

section \<open>Requests of the configured service\<close>

lemma own_error_Inl: "own_error r = Inl x \<Longrightarrow> x \<noteq> None"
  by (cases r) auto

text \<open>
  Whatever the servers answer, a search fails only by its parameters or with one of the four errors of the
  provider: the identifiers it suggests always become tokens, and no failure is unexpected.
\<close>

lemma configured_search_errors:
  assumes "fst (geo_query (configured_provider choice P F E) operation raw limit True now later c) = Inl e"
    and "\<And>input v. fst (cache_get (search_key (configured_provider choice P F E) operation input) now c) = Some v \<Longrightarrow>
      \<exists>ss. v = C_Suggestions ss"
  shows "(\<exists>x. parse_search (configured_provider choice P F E) raw limit = Inl x \<and> e = ThrownApi x) \<or>
    choice = Use_Photon \<and> (\<exists>x. e = ThrownApi (geo_provider_error (Some x)))"
proof (cases choice)
  case Use_Photon
  then have conf: "configured_provider choice P F E = with_photon_provider P E" by (simp add: configured_provider_def)
  have serves: "photon_places.serves P E (with_photon_provider P E)" by (simp add: photon_places.serves_def)
  have "x \<noteq> None" if "ge_query (with_photon_provider P E) operation input = Inl x" for x input
    using that by (auto simp: with_photon_provider_def dest: own_error_Inl)
  with photon_places.request_errors [OF serves assms(1) [unfolded conf]] assms(2) Use_Photon
  show ?thesis unfolding conf by blast
next
  case Use_Fake
  then have conf: "configured_provider choice P F E = with_fake_provider F E" by (simp add: configured_provider_def)
  have serves: "fixed_places.serves F E (with_fake_provider F E)" by (simp add: fixed_places.serves_def)
  have "ge_query (with_fake_provider F E) operation input \<noteq> Inl x" for x input
    by (simp add: with_fake_provider_def)
  with fixed_places.request_errors [OF serves assms(1) [unfolded conf]] assms(2)
  show ?thesis unfolding conf by blast
qed

end
