(* ===== verification/Spec2Isabelle.thy ===== *)
theory Spec2Isabelle
  imports Admin_Dashboard Flood_Api Quality_Gate Service_Operations Routes_Service Concurrency_Limiter Session_Requests
    Geocoding_Providers
begin

text \<open>
  Verification library of the GATHRA backend, a service that plans routes around floods. Sensor nodes
  measure water levels; gateways deliver their packets in batches; the backend stores them, derives the
  flood state of every deployed sensor, and publishes the hazards. A client asks for a route; the backend
  asks GraphHopper for candidates that avoid blocked areas, evaluates each against the hazards and ranks
  them. Beside this it looks up places for the client, shows gateways, nodes and traffic to
  administrators behind a login, and simulates hazards for development.

  \<^bold>\<open>How the model reads the code.\<close> A function of the source is a definition of the same name. A class is
  a record of its fields with one definition per method, a union of literals a datatype, a \<open>Map\<close> an
  insertion-ordered dictionary (\<open>dict\<close> of Prelude), and \<open>throw\<close> the left side of \<open>result\<close>. A number of
  JavaScript is a value of \<open>jsnum\<close>: finite numbers are rationals rounded to binary64, with the
  infinities, NaN and one zero. Values of unknown shape are \<open>jsval\<close>. Packets are lists of words. Moments are
  milliseconds, as integers or, where a date may be invalid, as \<open>js_date\<close>. Tables are lists or
  dictionaries of rows, and the checks of the migrations that a statement can violate are predicates on
  rows. An asynchronous handler is one step where nothing it shares changes while it waits, and is split
  into its halves, as steps of a system, where something does.

  \<^bold>\<open>The base.\<close> Prelude holds results, dictionaries (locale \<open>js_map\<close>), sorting and the collections
  of simplification rules. Js_Number, Js_Value, Js_String, Js_Format, Js_Parse, Js_Order, Js_Date and
  Js_Calendar model what the source uses of the language and its library: rounded arithmetic, property
  access, text operations, printing and parsing of numbers, ordering of texts, dates and calendars.
  Api_Error models \<^verbatim>\<open>src/src/common\<close> (errors, exception filter, flattening of validation errors),
  Dto_Rules the rules that the decorators of request classes state, and Configuration
  \<^verbatim>\<open>src/src/configuration.ts\<close>.

  \<^bold>\<open>Floods\<close> (\<^verbatim>\<open>src/src/flood\<close>). Flood_Models has the data. Sensor_Classifier turns a water height
  into a level with hysteresis, and proves the two loops equal to a closed form and every derived state
  consistent. Flood_Geometry validates polygons, exactly the simple closed rings. Route_Flood_Evaluator
  finds the hazards of a route and its risk. Sensor_Validator has exactly the well-formed deployments as
  its range. Hazard_Providers states in the locale \<open>hazard_provider\<close> what a client may rely on in a
  snapshot, and interprets it for the sensors and for the simulation, whose operations and clock are a
  state machine. Flood_Api has the requests that read the hazards or change the simulation,
  Deployment_Admin those that read and write deployments, up to the round trip from a request's body to
  the answer.

  \<^bold>\<open>The store\<close> (\<^verbatim>\<open>src/src/database\<close> and the repositories). Database has the tables, and actions
  that return a value or an error together with the store they leave; \<open>transaction\<close> undoes a failed action
  but no serial counter. Sensor_Deployments has the statements and transactions on deployments and
  derived states: versions count the changes, the telemetry used is the newest, stored states always agree
  with stored deployments. Service_Operations has the migrations, health, request identifiers
  and the headers of the dashboard.

  \<^bold>\<open>Telemetry\<close> (\<^verbatim>\<open>src/src/iot\<close>). Node_Protocol decodes packets of protocol 3, exactly the encodings
  of well-formed readings. Telemetry_Ingestion stores a batch: one result per reading, each reading once.
  Iot_Monitoring reads the tables back, page by page. Gateway_Registry and Gateway_Heartbeat keep the
  identities of gateways and their heartbeats, with the exact conditions under which a heartbeat is
  accepted; Gateway_Status has what is shown of them. Public_Sensor joins deployment, state, telemetry and
  gateway. Access_Guards has the bearer tokens and the rate limit of anonymous requests.

  \<^bold>\<open>Routes\<close> (\<^verbatim>\<open>src/src/routes\<close>). Graphhopper builds the request and reads the answer of the engine.
  Routes_Service states in the locale \<open>routing_provider\<close> what it relies on, interprets it for the
  client of GraphHopper, and composes snapshot, endpoints, calls, evaluation and ranking: no returned
  route runs through a blocked hazard, the order is lexicographic, each error has its cause.

  \<^bold>\<open>Places\<close> (\<^verbatim>\<open>src/src/geocoding\<close>). Ttl_Cache refines the history of its operations.
  Concurrency_Limiter is a system of calls that is bounded, serves in order and drains. Place_Token signs and
  reads tokens. Photon is the remote provider, Fake_Geocoding the one for development; Geocoding_Providers states
  their interface as the locale \<open>geocoding_provider\<close>, interprets it for both, and proves once that the
  service maps every answer of a provider. Geocoding_Service parses requests and composes
  cache, limiter, tokens and provider; its caches are reachable states of interleaved handlers.
  Quality_Gate is the program that checks the geocoding data.

  \<^bold>\<open>Administration\<close> (\<^verbatim>\<open>src/src/admin\<close>). Admin_Login bounds the guesses of a password;
  Admin_Session has the credentials file, sessions, their authentication and guards, and refines the
  history of logins; Admin_Password follows a password from the script that derives its verifier to the
  login, Session_Requests a session from the login's cookie to the logout. Admin_Traffic counts requests
  across flushes that may fail, Traffic_Report reads the counts. Host_Metrics and Admin_Observer show the
  host, and Admin_Dashboard composes all of them.

  \<^bold>\<open>The theorems.\<close> Beside the functional behaviour of each component on all of its branches they are
  of these kinds. Invariants by rule induction over the operations: states, snapshots, stores, registries,
  counters. Refinements of a history, where the specification is what happened: cache, sessions,
  search and lookup, traffic. Exact characterisations: what a decoder, a validator or a registry accepts.
  Round trips: packets, tokens, deployments, heartbeats, credentials. Success: ingestion and the
  public view never fail on the stores that the writers keep. Orders and bounds over binary64: risks,
  ranking, rates, quotients. Each theorem with hypotheses is followed by a concrete case that meets them.

  \<^bold>\<open>Parameters.\<close> What is not under \<^verbatim>\<open>src\<close> or has no exact definition is an argument: hash and key
  derivation functions, random bytes and identifiers, the engine's \<open>Math\<close> functions, \<open>JSON.parse\<close>,
  \<open>Date.parse\<close>, the parser of URLs, collations and Unicode tables, the answers of the network, the files
  and the clock. Hypotheses on them are named (\<open>codec_ok\<close> and its like), state documented behaviour only,
  and are met by a concrete function in the case that follows the theorem.

  \<^bold>\<open>Bounds and fuel.\<close> Loops end by structural recursion or a proved measure. Only following the pages of
  a history uses fuel, one more than there are readings, and that is proved to be enough. Counts are exact below
  \<open>2 ^ 53\<close>, which theorems assume where they need it. Texts are lists of 8-bit characters where
  the code has UTF-16 units: characters above 255 occur only inside what the parameters handle.

  \<^bold>\<open>Not modelled.\<close> The wiring of the framework (modules, decorators of the API description, CORS, static
  files), classes that only describe responses, the pool of database connections, timers (their events
  are steps or arguments), the stream of dashboard events, log output, the minified pages of the
  dashboard and the script that prints a random token: these have no logic of their own or belong to
  libraries. Statements of SQL are modelled by their effect on rows; concurrent transactions run one after
  the other, as their locks on the rows ensure.
\<close>

end
